(* ===== verification/Prelude.thy ===== *)
theory Prelude
  imports Complex_Main "HOL-Library.Word" "HOL-Library.List_Lexorder" "HOL-Library.Char_ord"
    "HOL-Library.Multiset" "HOL-Library.Sublist" "HOL-Library.Signed_Division"
begin

text \<open>
  The shared vocabulary of the development.
  \<^item> Machine integers of the Go source at their width (\<open>u8\<close>, \<open>u32\<close>, \<open>u64\<close>), byte strings, and Go
    strings as HOL strings (a Go string is a sequence of bytes, and so is a HOL string).
  \<^item> Errors: an error value is the list of the sentinel errors it wraps (\<open>errors.Is\<close> is membership),
    and a call that returns \<open>(value, error)\<close> is a value of \<open>'a result\<close>.
  \<^item> The parts of Go's standard library the source uses everywhere: UTF-8 decoding and the
    \<open>unicode\<close> predicates, big-endian integers, decimal and hexadecimal text, \<open>sort.Slice\<close>.
  \<^item> The generic lemmas on first-match search, indexed update and stable sorting that the
    components share, and the collections \<open>go_simps\<close> and \<open>res_elims\<close>.
\<close>

named_theorems go_simps \<open>unfolding equations of small Go helpers\<close>
named_theorems res_elims \<open>inversions of successful results\<close>

section \<open>Machine integers and bytes\<close>

type_synonym u8 = "8 word"
type_synonym u32 = "32 word"
type_synonym u64 = "64 word"
type_synonym bytes = "u8 list"

definition string_bytes :: "string \<Rightarrow> bytes" where
  "string_bytes s = map of_char s"

definition PutUint32 :: "u32 \<Rightarrow> bytes" where
  "PutUint32 w = [ucast (drop_bit 24 w), ucast (drop_bit 16 w), ucast (drop_bit 8 w), ucast w]"

definition PutUint64 :: "u64 \<Rightarrow> bytes" where
  "PutUint64 w = [ucast (drop_bit 56 w), ucast (drop_bit 48 w), ucast (drop_bit 40 w),
     ucast (drop_bit 32 w), ucast (drop_bit 24 w), ucast (drop_bit 16 w), ucast (drop_bit 8 w),
     ucast w]"

section \<open>Errors and results\<close>

text \<open>The sentinel errors of the packages modelled here.\<close>

datatype Sentinel =
    ErrInvalidSyntax | ErrPrecision | ErrScale | ErrInexact | ErrOperation | ErrRoundingMode
  | ErrDivisionByZero | ErrArithmetic
  | ErrInvalidCurrency | ErrInvalidInstrument | ErrUnitMismatch | ErrUnitScale
  | ErrNegativeQuantity | ErrInvalidFeeRate | ErrInvalidMarginRate | ErrInvalidLeverage
  | ErrEmptyPriceQuantity | ErrInvalidReferencePrice | ErrInvalidID

type_synonym go_error = "Sentinel list"
type_synonym 'a result = "go_error + 'a"

definition errors_Is :: "go_error \<Rightarrow> Sentinel \<Rightarrow> bool" where
  "errors_Is e s = (s \<in> set e)"

text \<open>\<open>if err != nil { return ..., err }\<close> followed by the rest of the function.\<close>

definition and_then :: "'a result \<Rightarrow> ('a \<Rightarrow> 'b result) \<Rightarrow> 'b result" where
  "and_then r k = (case r of Inl e \<Rightarrow> Inl e | Inr x \<Rightarrow> k x)"

fun is_ok :: "'a result \<Rightarrow> bool" where
  "is_ok (Inr _) = True"
| "is_ok (Inl _) = False"

section \<open>Search and sorting as Go code writes them\<close>

text \<open>\<open>for index := range xs { if p(xs[index]) { return index, true } }; return 0, false\<close>.\<close>

fun first_index :: "('a \<Rightarrow> bool) \<Rightarrow> 'a list \<Rightarrow> nat option" where
  "first_index p [] = None"
| "first_index p (x # xs) = (if p x then Some 0 else map_option Suc (first_index p xs))"

text \<open>
  The usual Go upsert: overwrite the first record with the same key, or append and sort by key.
\<close>

fun insert_by :: "('a \<Rightarrow> 'a \<Rightarrow> bool) \<Rightarrow> 'a \<Rightarrow> 'a list \<Rightarrow> 'a list" where
  "insert_by lt x [] = [x]"
| "insert_by lt x (y # ys) = (if lt y x then y # insert_by lt x ys else x # y # ys)"

definition sort_by :: "('a \<Rightarrow> 'a \<Rightarrow> bool) \<Rightarrow> 'a list \<Rightarrow> 'a list" where
  "sort_by lt xs = foldr (insert_by lt) xs []"

section \<open>Decimal and hexadecimal text\<close>

fun nat_digits :: "nat \<Rightarrow> nat list" where
  "nat_digits n = (if n < 10 then [n] else nat_digits (n div 10) @ [n mod 10])"

declare nat_digits.simps [simp del]

definition digit_char :: "nat \<Rightarrow> char" where
  "digit_char d = char_of (48 + d)"

definition char_digit :: "char \<Rightarrow> nat" where
  "char_digit c = of_char c - 48"

definition is_digit :: "char \<Rightarrow> bool" where
  "is_digit c = (48 \<le> (of_char c :: nat) \<and> (of_char c :: nat) \<le> 57)"

text \<open>\<open>%d\<close> of an unsigned value.\<close>

definition nat_text :: "nat \<Rightarrow> string" where
  "nat_text n = map digit_char (nat_digits n)"

definition digits_value :: "string \<Rightarrow> nat" where
  "digits_value s = foldl (\<lambda>v c. 10 * v + char_digit c) 0 s"

definition ndigits :: "nat \<Rightarrow> nat" where
  "ndigits n = length (nat_digits n)"

definition hex_char :: "nat \<Rightarrow> char" where
  "hex_char d = (if d < 10 then char_of (48 + d) else char_of (87 + d))"

text \<open>\<open>hex.Encode\<close>: two lowercase digits per byte.\<close>

definition hex_Encode :: "bytes \<Rightarrow> string" where
  "hex_Encode bs = concat (map (\<lambda>b. [hex_char (unat b div 16), hex_char (unat b mod 16)]) bs)"

definition hex_value :: "char \<Rightarrow> nat option" where
  "hex_value c = (let n = of_char c in
     if 48 \<le> n \<and> n \<le> 57 then Some (n - 48)
     else if 97 \<le> n \<and> n \<le> 102 then Some (n - 87)
     else if 65 \<le> n \<and> n \<le> 70 then Some (n - 55) else None)"

text \<open>\<open>hex.Decode\<close>: either letter case; an odd length or a foreign character is an error.\<close>

fun hex_Decode :: "string \<Rightarrow> bytes option" where
  "hex_Decode [] = Some []"
| "hex_Decode [c] = None"
| "hex_Decode (c # d # s) =
     (case (hex_value c, hex_value d, hex_Decode s) of
        (Some h, Some l, Some bs) \<Rightarrow> Some (of_nat (16 * h + l) # bs)
      | _ \<Rightarrow> None)"

section \<open>UTF-8 and the unicode predicates\<close>

definition cont_byte :: "nat \<Rightarrow> nat \<Rightarrow> nat \<Rightarrow> bool" where
  "cont_byte lo hi b = (lo \<le> b \<and> b \<le> hi)"

text \<open>
  \<open>utf8.DecodeRuneInString\<close>: the first code point and its width; a malformed sequence is the
  replacement character U+FFFD of width one.
\<close>

definition rune_error :: "nat \<times> nat" where
  "rune_error = (65533, 1)"

fun decode_rune :: "nat list \<Rightarrow> nat \<times> nat" where
  "decode_rune [] = (65533, 0)"
| "decode_rune (a # bs) =
     (if a < 128 then (a, 1)
      else if a < 194 \<or> 244 < a then rune_error
      else if a < 224 then
        (case bs of b # _ \<Rightarrow> if cont_byte 128 191 b then ((a - 192) * 64 + (b - 128), 2) else rune_error
         | [] \<Rightarrow> rune_error)
      else if a < 240 then
        (case bs of b # c # _ \<Rightarrow>
           if cont_byte (if a = 224 then 160 else 128) (if a = 237 then 159 else 191) b
              \<and> cont_byte 128 191 c
           then ((a - 224) * 4096 + (b - 128) * 64 + (c - 128), 3) else rune_error
         | _ \<Rightarrow> rune_error)
      else
        (case bs of b # c # d # _ \<Rightarrow>
           if cont_byte (if a = 240 then 144 else 128) (if a = 244 then 143 else 191) b
              \<and> cont_byte 128 191 c \<and> cont_byte 128 191 d
           then ((a - 240) * 262144 + (b - 128) * 4096 + (c - 128) * 64 + (d - 128), 4)
           else rune_error
         | _ \<Rightarrow> rune_error))"

text \<open>The code points of a string with their widths, as \<open>for _, r := range s\<close> yields them.\<close>

function runes_of :: "nat list \<Rightarrow> (nat \<times> nat) list" where
  "runes_of bs = (if bs = [] then []
     else decode_rune bs # runes_of (drop (max 1 (snd (decode_rune bs))) bs))"
  by pat_completeness auto
termination
  by (relation "measure length") auto

declare runes_of.simps [simp del]

definition runes :: "string \<Rightarrow> (nat \<times> nat) list" where
  "runes s = runes_of (map of_char s)"

definition utf8_ValidString :: "string \<Rightarrow> bool" where
  "utf8_ValidString s = list_all (\<lambda>r. r \<noteq> rune_error) (runes s)"

definition unicode_IsSpace :: "nat \<Rightarrow> bool" where
  "unicode_IsSpace r = ((9 \<le> r \<and> r \<le> 13) \<or> r = 32 \<or> r = 133 \<or> r = 160 \<or> r = 5760
     \<or> (8192 \<le> r \<and> r \<le> 8202) \<or> r = 8232 \<or> r = 8233 \<or> r = 8239 \<or> r = 8287 \<or> r = 12288)"

definition unicode_IsControl :: "nat \<Rightarrow> bool" where
  "unicode_IsControl r = (r < 32 \<or> (127 \<le> r \<and> r < 160))"

text \<open>\<open>strings.TrimSpace(s) == s\<close>: neither the first nor the last code point is white space.\<close>

definition TrimSpace_unchanged :: "string \<Rightarrow> bool" where
  "TrimSpace_unchanged s = (case runes s of [] \<Rightarrow> True
     | r # rs \<Rightarrow> \<not> unicode_IsSpace (fst r) \<and> \<not> unicode_IsSpace (fst (last (r # rs))))"

section \<open>Lemmas on results\<close>

lemma and_then_Inr_iff [simp]:
  "and_then r k = Inr y \<longleftrightarrow> (\<exists>x. r = Inr x \<and> k x = Inr y)"
  by (auto simp: and_then_def split: sum.splits)

lemma and_then_Inl_iff:
  "and_then r k = Inl e \<longleftrightarrow> r = Inl e \<or> (\<exists>x. r = Inr x \<and> k x = Inl e)"
  by (auto simp: and_then_def split: sum.splits)

lemma and_then_simps [simp]: "and_then (Inr x) k = k x" "and_then (Inl e) k = Inl e"
  by (simp_all add: and_then_def)

lemma is_ok_iff: "is_ok r \<longleftrightarrow> (\<exists>x. r = Inr x)"
  by (cases r) auto

section \<open>Lemmas on search\<close>

lemma first_index_Some:
  "first_index p xs = Some i \<Longrightarrow> i < length xs \<and> p (xs ! i) \<and> (\<forall>j < i. \<not> p (xs ! j))"
proof (induction xs arbitrary: i)
  case (Cons x xs)
  show ?case
  proof (cases "p x")
    case False
    with Cons.prems obtain k where "first_index p xs = Some k" "i = Suc k" by auto
    with Cons.IH False show ?thesis by (auto simp: less_Suc_eq_0_disj nth_Cons')
  qed (use Cons.prems in auto)
qed simp

lemma first_index_None_iff: "first_index p xs = None \<longleftrightarrow> (\<forall>x \<in> set xs. \<not> p x)"
  by (induction xs) auto

lemma first_index_bound: "first_index p xs = Some i \<Longrightarrow> i < length xs"
  by (simp add: first_index_Some)

lemma first_index_sat: "first_index p xs = Some i \<Longrightarrow> p (xs ! i)"
  by (simp add: first_index_Some)

lemma first_index_map: "first_index p (map f xs) = first_index (p \<circ> f) xs"
  by (induction xs) auto

lemma first_index_cong_map:
  "map f xs = map f ys \<Longrightarrow> first_index (\<lambda>x. q (f x)) xs = first_index (\<lambda>x. q (f x)) ys"
  using first_index_map [of q f xs] first_index_map [of q f ys] by (simp add: comp_def)

lemma find_Some_mem: "find p xs = Some x \<Longrightarrow> x \<in> set xs \<and> p x"
  by (induction xs) (auto split: if_splits)

lemma find_first_index: "find p xs = map_option (\<lambda>i. xs ! i) (first_index p xs)"
  by (induction xs) (auto simp: option.map_comp comp_def)

lemma find_unique_iff:
  "distinct (map f xs) \<Longrightarrow> find (\<lambda>x. f x = k) xs = Some x \<longleftrightarrow> x \<in> set xs \<and> f x = k"
  by (induction xs) (auto split: if_splits)

lemma find_mset_cong:
  assumes "distinct (map f xs)" "mset xs = mset ys"
  shows "find (\<lambda>x. f x = k) xs = find (\<lambda>x. f x = k) ys"
proof -
  have "distinct (map f ys)" using assms by (metis mset_eq_imp_distinct_iff mset_map)
  then have "find (\<lambda>x. f x = k) xs = Some x \<longleftrightarrow> find (\<lambda>x. f x = k) ys = Some x" for x
    using assms by (simp add: find_unique_iff) (metis set_mset_mset)
  then show ?thesis by (metis not_Some_eq)
qed

lemma find_snoc: "find p (xs @ [y]) = (case find p xs of None \<Rightarrow> if p y then Some y else None | r \<Rightarrow> r)"
  by (induction xs) auto

section \<open>Lemmas on indexed update\<close>

lemma map_update_same: "f y = f (xs ! i) \<Longrightarrow> map f (xs[i := y]) = map f xs"
  by (cases "i < length xs") (auto simp: map_update list_update_same_conv list_update_beyond)

lemma set_update_all:
  "\<forall>x \<in> set xs. P x \<Longrightarrow> P y \<Longrightarrow> x \<in> set (xs[i := y]) \<Longrightarrow> P x"
  by (metis (no_types, lifting) insertE set_update_subset_insert subsetD)

lemma list_all_update: "list_all P xs \<Longrightarrow> P y \<Longrightarrow> list_all P (xs[i := y])"
  by (auto simp: list_all_iff intro: set_update_all)

section \<open>Lemmas on sorting\<close>

lemma mset_insert_by [simp]: "mset (insert_by lt x xs) = add_mset x (mset xs)"
  by (induction xs) auto

lemma mset_sort_by [simp]: "mset (sort_by lt xs) = mset xs"
  by (induction xs) (auto simp: sort_by_def)

lemma set_sort_by [simp]: "set (sort_by lt xs) = set xs"
  by (metis mset_sort_by set_mset_mset)

lemma length_sort_by [simp]: "length (sort_by lt xs) = length xs"
  by (metis mset_sort_by size_mset)

lemma distinct_map_sort_by [simp]: "distinct (map f (sort_by lt xs)) = distinct (map f xs)"
  by (metis mset_map mset_sort_by mset_eq_imp_distinct_iff)

lemma sort_by_Nil [simp]: "sort_by lt [] = []"
  by (simp add: sort_by_def)

text \<open>
  The contract of a \<open>less\<close> function handed to \<open>sort.Slice\<close> or \<open>sort.SliceStable\<close>: a strict weak
  order. Under it the result is sorted, that is, no element is less than an earlier one.
\<close>

locale less_function =
  fixes lt :: "'a \<Rightarrow> 'a \<Rightarrow> bool"
  assumes lt_asym: "lt x y \<Longrightarrow> \<not> lt y x"
    and lt_negtrans: "lt x z \<Longrightarrow> lt x y \<or> lt y z"
begin

lemma insert_by_sorted:
  "sorted_wrt (\<lambda>x y. \<not> lt y x) xs \<Longrightarrow> sorted_wrt (\<lambda>x y. \<not> lt y x) (insert_by lt a xs)"
proof (induction xs)
  case (Cons y ys)
  have set_ins: "set (insert_by lt a zs) = insert a (set zs)" for zs
    by (metis mset_insert_by set_mset_add_mset_insert set_mset_mset)
  have "\<not> lt x a" if "\<not> lt y a" "\<not> lt x y" for x
    using that lt_negtrans by blast
  with Cons lt_asym [of y a] show ?case by (auto simp: set_ins)
qed simp

lemma sort_by_sorted: "sorted_wrt (\<lambda>x y. \<not> lt y x) (sort_by lt xs)"
  by (induction xs) (auto simp: sort_by_def intro: insert_by_sorted)

lemma sort_by_hd: "x \<in> set xs \<Longrightarrow> \<not> lt x (hd (sort_by lt xs))"
proof -
  assume "x \<in> set xs"
  then have mem: "x \<in> set (sort_by lt xs)" by simp
  then obtain y ys where ys: "sort_by lt xs = y # ys" by (cases "sort_by lt xs") auto
  have "sorted_wrt (\<lambda>x y. \<not> lt y x) (y # ys)"
    using sort_by_sorted [of xs] by (simp add: ys)
  with mem ys lt_asym [of y y] show ?thesis by auto
qed

end

text \<open>Sorting by a string key, as every registry of the engine does.\<close>

interpretation key_order: less_function "\<lambda>x y. key x < (key y :: 'k :: linorder)" for key
  by unfold_locales auto

section \<open>Lemmas on decimal text\<close>

lemma nat_digits_bounds: "n < 10 ^ length (nat_digits n) \<and> (n \<noteq> 0 \<longrightarrow> 10 ^ (length (nat_digits n) - 1) \<le> n)"
proof (induction n rule: nat_digits.induct)
  case (1 n)
  show ?case
  proof (cases "n < 10")
    case True
    then show ?thesis by (subst (1 2) nat_digits.simps) auto
  next
    case False
    define L where "L = length (nat_digits (n div 10))"
    have L: "n div 10 < 10 ^ L" "10 ^ (L - 1) \<le> n div 10" "L \<noteq> 0"
      using 1 False by (auto simp: L_def nat_digits.simps [of "n div 10"])
    then have "10 ^ L = 10 * (10::nat) ^ (L - 1)" by (cases L) auto
    with L have "n < 10 ^ Suc L \<and> 10 ^ L \<le> n" by auto
    with False show ?thesis by (subst (1 2) nat_digits.simps) (simp add: L_def)
  qed
qed

lemma ndigits_upper: "n < 10 ^ ndigits n"
  by (simp add: ndigits_def nat_digits_bounds)

lemma ndigits_lower: "n \<noteq> 0 \<Longrightarrow> 10 ^ (ndigits n - 1) \<le> n"
  using nat_digits_bounds by (simp add: ndigits_def)

lemma ndigits_pos: "0 < ndigits n"
  by (simp add: ndigits_def) (subst nat_digits.simps, simp)

lemma powi10_less_iff: "(10::rat) powi a < 10 powi b \<longleftrightarrow> a < b"
  by (meson linorder_not_less one_less_numeral_iff power_int_increasing power_int_strict_increasing less_imp_le semiring_norm(76))

lemma powi10_le_iff: "(10::rat) powi a \<le> 10 powi b \<longleftrightarrow> a \<le> b"
  by (meson linorder_not_less powi10_less_iff)

lemma ndigits_dval:
  assumes "n \<noteq> 0" and "of_nat n * (10::rat) powi e < 10 powi b"
  shows "int (ndigits n) + e \<le> b"
proof -
  have "(10::rat) powi (int (ndigits n) - 1) = of_nat (10 ^ (ndigits n - 1))"
    by (metis ndigits_pos of_nat_1 of_nat_diff of_nat_numeral of_nat_power power_int_of_nat Suc_leI One_nat_def)
  also have "\<dots> \<le> of_nat n" using ndigits_lower [OF assms(1)] by (simp only: of_nat_le_iff)
  finally have "(10::rat) powi (int (ndigits n) - 1 + e) \<le> of_nat n * 10 powi e"
    by (simp add: power_int_add)
  with assms(2) have "(10::rat) powi (int (ndigits n) - 1 + e) < 10 powi b" by simp
  then show ?thesis by (simp add: powi10_less_iff)
qed


lemma nat_digits_range: "d \<in> set (nat_digits n) \<Longrightarrow> d < 10"
proof (induction n rule: nat_digits.induct)
  case (1 n)
  then show ?case by (subst (asm) (2) nat_digits.simps) (auto split: if_splits)
qed

lemma nat_digits_ne [simp]: "nat_digits n \<noteq> []"
  by (subst nat_digits.simps) simp

lemma digit_char_props:
  "d < 10 \<Longrightarrow> is_digit (digit_char d) \<and> char_digit (digit_char d) = d \<and> (of_char (digit_char d) :: nat) = 48 + d"
  by (simp add: is_digit_def digit_char_def char_digit_def)

lemma nat_text_digits: "list_all is_digit (nat_text n)"
  using nat_digits_range digit_char_props by (auto simp: nat_text_def list_all_iff)

lemma length_nat_text: "length (nat_text n) = ndigits n"
  by (simp add: nat_text_def ndigits_def)

lemma nat_text_ne [simp]: "nat_text n \<noteq> []"
  by (simp add: nat_text_def)

lemma digits_value_snoc: "digits_value (s @ [c]) = 10 * digits_value s + char_digit c"
  by (simp add: digits_value_def)

lemma digits_value_append: "digits_value (s @ t) = digits_value s * 10 ^ length t + digits_value t"
proof (induction t rule: rev_induct)
  case (snoc c t)
  have "digits_value ((s @ t) @ [c]) = 10 * (digits_value s * 10 ^ length t + digits_value t) + char_digit c"
    by (simp only: digits_value_snoc snoc)
  then show ?case by (simp add: digits_value_snoc algebra_simps)
qed (simp add: digits_value_def)

lemma digits_value_nat_text: "digits_value (nat_text n) = n"
proof (induction n rule: nat_digits.induct)
  case (1 n)
  show ?case
  proof (cases "n < 10")
    case True
    then have "nat_text n = [digit_char n]" by (subst nat_text_def, subst nat_digits.simps) simp
    with True digit_char_props [of n] show ?thesis by (simp add: digits_value_def)
  next
    case False
    then have "nat_text n = nat_text (n div 10) @ [digit_char (n mod 10)]"
      by (subst nat_text_def, subst nat_digits.simps) (simp add: nat_text_def)
    with False 1 digit_char_props [of "n mod 10"] show ?thesis by (simp add: digits_value_snoc)
  qed
qed

lemma digits_value_zeros: "digits_value (replicate k (CHR ''0'')) = 0"
  by (induction k) (simp_all add: digits_value_def char_digit_def)

lemma is_digit_0 [simp]: "is_digit (CHR ''0'')"
  by (simp add: is_digit_def)

lemma not_digit [simp]: "\<not> is_digit (CHR ''.'')" "\<not> is_digit (CHR ''-'')" "\<not> is_digit (CHR ''+'')"
  by (simp_all add: is_digit_def)

lemma takeWhile_digits: "list_all is_digit w \<Longrightarrow> takeWhile is_digit (w @ CHR ''.'' # f) = w
    \<and> dropWhile is_digit (w @ CHR ''.'' # f) = CHR ''.'' # f"
  by (induction w) auto

lemma takeWhile_digits_all: "list_all is_digit w \<Longrightarrow> takeWhile is_digit w = w \<and> dropWhile is_digit w = []"
  by (induction w) auto


lemma runes_ascii: "list_all (\<lambda>c. (of_char c :: nat) < 128) s \<Longrightarrow> runes s = map (\<lambda>c. (of_char c, 1)) s"
proof (induction s)
  case Nil
  then show ?case by (simp add: runes_def runes_of.simps)
next
  case (Cons c s)
  then show ?case by (simp add: runes_def) (subst runes_of.simps, simp)
qed


end
