(* ===== verification/DefiMath.thy ===== *)
theory DefiMath
  imports Prelude "HOL-Library.Signed_Division"
begin

text \<open>
  Exact integer arithmetic of concentrated liquidity (\<open>internal/defi/tickmap\<close>: \<open>full_math.go\<close>,
  \<open>liquidity_math.go\<close>, \<open>sqrt_price_math.go\<close>; \<open>internal/defi/swap_math.go\<close>). A \<open>*big.Int\<close> that the code tests
  for nil is an \<open>int option\<close>, any other is an \<open>int\<close>. A call that panics or returns an error is an \<open>Inl\<close> with
  its message. The decoders to \<open>decimal.Price\<close> are not part of this theory.
\<close>

unbundle bit_operations_syntax

section \<open>Calls that fail with a message\<close>

type_synonym 'a call = "string + 'a"

definition call_bind :: "'a call \<Rightarrow> ('a \<Rightarrow> 'b call) \<Rightarrow> 'b call" where
  "call_bind r k = (case r of Inl message \<Rightarrow> Inl message | Inr x \<Rightarrow> k x)"

lemma call_bind_Inr_iff [simp]: "call_bind r k = Inr y \<longleftrightarrow> (\<exists>x. r = Inr x \<and> k x = Inr y)"
  by (auto simp: call_bind_def split: sum.splits)

lemma call_bind_simps [simp]: "call_bind (Inr x) k = k x" "call_bind (Inl e) k = Inl e"
  by (simp_all add: call_bind_def)

text \<open>A failure replaced by a panic with another message, and by a value.\<close>

definition or_panic :: "string \<Rightarrow> 'a call \<Rightarrow> 'a call" where
  "or_panic message r = (case r of Inl _ \<Rightarrow> Inl message | Inr x \<Rightarrow> Inr x)"

definition or_value :: "'a \<Rightarrow> 'a call \<Rightarrow> 'a" where
  "or_value d r = (case r of Inl _ \<Rightarrow> d | Inr x \<Rightarrow> x)"

lemma or_panic_Inr_iff [simp]: "or_panic m r = Inr x \<longleftrightarrow> r = Inr x"
  by (auto simp: or_panic_def split: sum.splits)

lemma or_value_simps [simp]: "or_value d (Inr x) = x" "or_value d (Inl e) = d"
  by (simp_all add: or_value_def)

section \<open>Full-width products and quotients\<close>

definition q128 :: int where "q128 = 2 ^ 128"
definition maxU256 :: int where "maxU256 = 2 ^ 256 - 1"
definition mask128 :: int where "mask128 = 2 ^ 128 - 1"

definition isU256 :: "int option \<Rightarrow> bool" where
  "isU256 value = (case value of None \<Rightarrow> False | Some v \<Rightarrow> 0 \<le> v \<and> v \<le> maxU256)"

definition MulDiv :: "int option \<Rightarrow> int option \<Rightarrow> int option \<Rightarrow> int call" where
  "MulDiv a b denominator =
     (if \<not> isU256 a \<or> \<not> isU256 b \<or> \<not> isU256 denominator then Inl ''input exceeds unsigned 256-bit range''
      else if the denominator = 0 then Inl ''Result would overflow 256 bits''
      else let result = (the a * the b) sdiv the denominator
           in if maxU256 < result then Inl ''Result would overflow 256 bits'' else Inr result)"

definition MulDivRoundingUp :: "int option \<Rightarrow> int option \<Rightarrow> int option \<Rightarrow> int call" where
  "MulDivRoundingUp a b denominator = call_bind (MulDiv a b denominator) (\<lambda>result.
     let product = the a * the b in
     if product smod the denominator = 0 then Inr result
     else if result = maxU256 then Inl ''Result would overflow 256 bits''
     else Inr (result + 1))"

definition TruncateToU128 :: "int option \<Rightarrow> int" where
  "TruncateToU128 value = (case value of None \<Rightarrow> 0 | Some v \<Rightarrow> v AND mask128)"

section \<open>Liquidity\<close>

definition maxU128 :: int where "maxU128 = 2 ^ 128 - 1"

datatype LiquidityError =
    LiquidityOutsideU128 "int option"
  | LiquidityOverflowError int int
  | LiquidityUnderflowError int int

definition TryLiquidityMathAdd :: "int option \<Rightarrow> int option \<Rightarrow> LiquidityError + int" where
  "TryLiquidityMathAdd current signedDelta =
     (case current of None \<Rightarrow> Inl (LiquidityOutsideU128 current) | Some c \<Rightarrow>
        if c < 0 \<or> maxU128 < c then Inl (LiquidityOutsideU128 current)
        else let delta = (case signedDelta of None \<Rightarrow> 0 | Some d \<Rightarrow> d) in
          if delta < 0 then
            (let delta = \<bar>delta\<bar> in if c < delta then Inl (LiquidityUnderflowError c delta) else Inr (c - delta))
          else let result = c + delta in
            if maxU128 < result then Inl (LiquidityOverflowError c delta) else Inr result)"

text \<open>The panic of \<open>LiquidityMathAdd\<close> carries the two numbers of its message.\<close>

definition LiquidityMathAdd :: "int option \<Rightarrow> int option \<Rightarrow> LiquidityError + int" where
  "LiquidityMathAdd current signedDelta =
     (case TryLiquidityMathAdd current signedDelta of
        Inr result \<Rightarrow> Inr result
      | Inl (LiquidityOverflowError _ _) \<Rightarrow> Inl (LiquidityOverflowError (the current) (the signedDelta))
      | Inl (LiquidityUnderflowError _ _) \<Rightarrow> Inl (LiquidityUnderflowError (the current) (the signedDelta))
      | Inl err \<Rightarrow> Inl err)"

section \<open>Square-root prices\<close>

definition q96 :: int where "q96 = 2 ^ 96"
definition q192 :: int where "q192 = 2 ^ 192"
definition maxU160 :: int where "maxU160 = 2 ^ 160 - 1"

text \<open>\<open>big.Int.BitLen\<close> and \<open>big.Int.Sqrt\<close> of the standard library.\<close>

fun bit_length :: "nat \<Rightarrow> nat" where
  "bit_length n = (if n = 0 then 0 else Suc (bit_length (n div 2)))"

declare bit_length.simps [simp del]

definition BitLen :: "int \<Rightarrow> nat" where
  "BitLen v = bit_length (nat \<bar>v\<bar>)"

fun isqrt :: "nat \<Rightarrow> nat" where
  "isqrt n = (if n = 0 then 0 else let r = 2 * isqrt (n div 4) in if (r + 1) * (r + 1) \<le> n then r + 1 else r)"

declare isqrt.simps [simp del]

definition Sqrt :: "int \<Rightarrow> int" where
  "Sqrt v = int (isqrt (nat v))"

definition requireUnsigned :: "int option \<Rightarrow> nat \<Rightarrow> string \<Rightarrow> int call" where
  "requireUnsigned value bits name =
     (case value of None \<Rightarrow> Inl (name @ '' is outside uint'' @ nat_text bits)
      | Some v \<Rightarrow> if v < 0 \<or> bits < BitLen v then Inl (name @ '' is outside uint'' @ nat_text bits) else Inr v)"

definition requireU160 :: "int option \<Rightarrow> int call" where
  "requireU160 value = requireUnsigned value 160 ''sqrt_price_x96''"

definition requireU256 :: "int option \<Rightarrow> string \<Rightarrow> int call" where
  "requireU256 value name = requireUnsigned value 256 name"

definition requireResultU160 :: "int \<Rightarrow> int call" where
  "requireResultU160 value =
     (if value < 0 \<or> maxU160 < value then Inl ''Uint conversion error: Value is too large for Uint<160>'' else Inr value)"

definition u256Mul :: "int \<Rightarrow> int \<Rightarrow> int" where
  "u256Mul left right = (left * right) AND maxU256"

definition u256Add :: "int \<Rightarrow> int \<Rightarrow> int" where
  "u256Add left right = (left + right) AND maxU256"

definition ceilDiv :: "int \<Rightarrow> int \<Rightarrow> int call" where
  "ceilDiv numerator denominator =
     (if denominator = 0 then Inl ''division by zero''
      else let quotient = numerator sdiv denominator
           in Inr (if numerator smod denominator \<noteq> 0 then quotient + 1 else quotient))"

definition orderedPrices :: "int \<Rightarrow> int \<Rightarrow> int \<times> int" where
  "orderedPrices left right = (if left \<le> right then (left, right) else (right, left))"

definition EncodeSqrtRatioX96 :: "int option \<Rightarrow> int option \<Rightarrow> int call" where
  "EncodeSqrtRatioX96 amount0 amount1 =
     call_bind (requireUnsigned amount0 128 ''amount0'') (\<lambda>amount0.
     call_bind (requireUnsigned amount1 128 ''amount1'') (\<lambda>amount1.
     if amount1 = 0 then Inl ''Division by zero''
     else if amount0 = 0 then Inr 0
     else let maxStandardAmount = maxU256 sdiv q192 in
       call_bind (if maxStandardAmount < amount0
         then (let sqrtAmount0 = Sqrt amount0; sqrtAmount1 = Sqrt amount1
               in if sqrtAmount1 = 0 then Inl ''Division by zero in sqrt''
                  else or_panic ''mul_div overflow'' (MulDiv (Some sqrtAmount0) (Some q96) (Some sqrtAmount1)))
         else call_bind (or_panic ''mul_div overflow'' (MulDiv (Some amount0) (Some q192) (Some amount1)))
           (\<lambda>ratio. Inr (Sqrt ratio))) (\<lambda>result.
       Inr (if maxU160 < result then maxU160 else result))))"

definition nextSqrtPriceAmount0RoundingUp :: "int \<Rightarrow> int \<Rightarrow> int \<Rightarrow> bool \<Rightarrow> int call" where
  "nextSqrtPriceAmount0RoundingUp sqrtPriceX96 liquidity amount add =
     (if amount = 0 then Inr sqrtPriceX96
      else let numerator = push_bit 96 liquidity;
               product = u256Mul amount sqrtPriceX96
        in if add then
             (let denominator = u256Add numerator product
              in if product sdiv amount = sqrtPriceX96 \<and> numerator \<le> denominator
                 then call_bind (or_panic ''mul_div_rounding_up failed''
                        (MulDivRoundingUp (Some numerator) (Some sqrtPriceX96) (Some denominator))) requireResultU160
                 else let fallbackDenominator = numerator sdiv sqrtPriceX96 + amount
                      in call_bind (ceilDiv numerator fallbackDenominator) requireResultU160)
           else if product sdiv amount \<noteq> sqrtPriceX96 \<or> numerator \<le> product
           then Inl ''Invalid conditions for amount0 removal: overflow or underflow detected''
           else let denominator = numerator - product
                in call_bind (or_panic ''mul_div_rounding_up failed''
                     (MulDivRoundingUp (Some numerator) (Some sqrtPriceX96) (Some denominator))) requireResultU160)"

definition nextSqrtPriceAmount1RoundingDown :: "int \<Rightarrow> int \<Rightarrow> int \<Rightarrow> bool \<Rightarrow> int call" where
  "nextSqrtPriceAmount1RoundingDown sqrtPriceX96 liquidity amount add =
     call_bind (if amount \<le> maxU160
       then (let scaled = push_bit 96 amount
             in if add then Inr (scaled sdiv liquidity) else ceilDiv scaled liquidity)
       else Inr (or_value 0 (if add then MulDiv (Some amount) (Some q96) (Some liquidity)
                             else MulDivRoundingUp (Some amount) (Some q96) (Some liquidity)))) (\<lambda>quotient.
     if add then requireResultU160 (u256Add sqrtPriceX96 quotient)
     else if sqrtPriceX96 \<le> quotient then Inl ''sqrt_price_x96 must be greater than quotient''
     else Inr (sqrtPriceX96 - quotient))"

definition GetNextSqrtPriceFromInput :: "int option \<Rightarrow> int option \<Rightarrow> int option \<Rightarrow> bool \<Rightarrow> int call" where
  "GetNextSqrtPriceFromInput sqrtPriceX96 liquidity amountIn zeroForOne =
     call_bind (requireU160 sqrtPriceX96) (\<lambda>sqrtPriceX96.
     call_bind (requireUnsigned liquidity 128 ''liquidity'') (\<lambda>liquidity.
     call_bind (requireU256 amountIn ''amount_in'') (\<lambda>amountIn.
     if sqrtPriceX96 = 0 then Inl ''sqrt_price_x96 must be greater than zero''
     else if liquidity = 0 then Inl ''Liquidity must be greater than zero''
     else if zeroForOne then nextSqrtPriceAmount0RoundingUp sqrtPriceX96 liquidity amountIn True
     else nextSqrtPriceAmount1RoundingDown sqrtPriceX96 liquidity amountIn True)))"

definition GetNextSqrtPriceFromOutput :: "int option \<Rightarrow> int option \<Rightarrow> int option \<Rightarrow> bool \<Rightarrow> int call" where
  "GetNextSqrtPriceFromOutput sqrtPriceX96 liquidity amountOut zeroForOne =
     call_bind (requireU160 sqrtPriceX96) (\<lambda>sqrtPriceX96.
     call_bind (requireUnsigned liquidity 128 ''liquidity'') (\<lambda>liquidity.
     call_bind (requireU256 amountOut ''amount_out'') (\<lambda>amountOut.
     if sqrtPriceX96 = 0 then Inl ''sqrt_price_x96 must be greater than zero''
     else if liquidity = 0 then Inl ''Liquidity must be greater than zero''
     else if zeroForOne then nextSqrtPriceAmount1RoundingDown sqrtPriceX96 liquidity amountOut False
     else nextSqrtPriceAmount0RoundingUp sqrtPriceX96 liquidity amountOut False)))"

text \<open>The Go quotient by a zero \<open>a\<close> panics.\<close>

definition GetAmount0Delta :: "int option \<Rightarrow> int option \<Rightarrow> int option \<Rightarrow> bool \<Rightarrow> int call" where
  "GetAmount0Delta sqrtRatioAX96 sqrtRatioBX96 liquidity roundUp =
     call_bind (requireU160 sqrtRatioAX96) (\<lambda>ratioA.
     call_bind (requireU160 sqrtRatioBX96) (\<lambda>ratioB.
     call_bind (requireUnsigned liquidity 128 ''liquidity'') (\<lambda>liquidity.
     let (a, b) = orderedPrices ratioA ratioB;
         numerator1 = push_bit 96 liquidity;
         numerator2 = b - a
     in if roundUp then
          (case MulDivRoundingUp (Some numerator1) (Some numerator2) (Some b) of
             Inl _ \<Rightarrow> Inr 0
           | Inr result \<Rightarrow> if a = 0 then Inr 0 else ceilDiv result a)
        else let result = or_value 0 (MulDiv (Some numerator1) (Some numerator2) (Some b))
             in if a = 0 then Inl ''division by zero'' else Inr (result sdiv a))))"

definition GetAmount1Delta :: "int option \<Rightarrow> int option \<Rightarrow> int option \<Rightarrow> bool \<Rightarrow> int call" where
  "GetAmount1Delta sqrtRatioAX96 sqrtRatioBX96 liquidity roundUp =
     call_bind (requireU160 sqrtRatioAX96) (\<lambda>ratioA.
     call_bind (requireU160 sqrtRatioBX96) (\<lambda>ratioB.
     call_bind (requireUnsigned liquidity 128 ''liquidity'') (\<lambda>liquidity.
     let (a, b) = orderedPrices ratioA ratioB;
         difference = b - a
     in if liquidity = 0 \<or> difference = 0 then Inr 0
        else Inr (or_value 0 (if roundUp then MulDivRoundingUp (Some liquidity) (Some difference) (Some q96)
                              else MulDiv (Some liquidity) (Some difference) (Some q96))))))"

definition ExpandTo18Decimals :: "u64 \<Rightarrow> int" where
  "ExpandTo18Decimals amount = uint amount * 10 ^ 18"

section \<open>One step of a swap\<close>

definition MaxSwapFee :: int where "MaxSwapFee = 1000000"

record SwapStepResult =
  SqrtRatioNextX96 :: int
  AmountIn :: int
  AmountOut :: int
  FeeAmount :: int

text \<open>
  The amount of the token that goes in (rounded up) and of the one that comes out (rounded down)
  between two prices, in the argument order of the code.
\<close>

definition amount_in_between :: "bool \<Rightarrow> int \<Rightarrow> int \<Rightarrow> int option \<Rightarrow> int call" where
  "amount_in_between zeroForOne current other liquidity =
     (if zeroForOne then GetAmount0Delta (Some other) (Some current) liquidity True
      else GetAmount1Delta (Some current) (Some other) liquidity True)"

definition amount_out_between :: "bool \<Rightarrow> int \<Rightarrow> int \<Rightarrow> int option \<Rightarrow> int call" where
  "amount_out_between zeroForOne current other liquidity =
     (if zeroForOne then GetAmount1Delta (Some other) (Some current) liquidity False
      else GetAmount0Delta (Some current) (Some other) liquidity False)"

definition ComputeSwapStep :: "int \<Rightarrow> int \<Rightarrow> int option \<Rightarrow> int option \<Rightarrow> u32 \<Rightarrow> SwapStepResult call" where
  "ComputeSwapStep current target liquidity amountRemaining feePips =
     (case amountRemaining of None \<Rightarrow> Inl ''amount remaining is nil'' | Some remaining \<Rightarrow>
      let fee = uint feePips;
          feeComplement = (if MaxSwapFee - fee < 0 then MaxSwapFee - fee + 2 ^ 256 else MaxSwapFee - fee);
          zeroForOne = (target \<le> current);
          exactIn = (0 \<le> remaining);
          absoluteRemaining = \<bar>remaining\<bar>
      in call_bind (if exactIn
           then call_bind (MulDiv (Some remaining) (Some feeComplement) (Some MaxSwapFee)) (\<lambda>lessFee.
                call_bind (amount_in_between zeroForOne current target liquidity) (\<lambda>amountIn.
                call_bind (if amountIn \<le> lessFee then Inr target
                  else GetNextSqrtPriceFromInput (Some current) liquidity (Some lessFee) zeroForOne) (\<lambda>next.
                Inr (next, amountIn, 0))))
           else call_bind (amount_out_between zeroForOne current target liquidity) (\<lambda>amountOut.
                call_bind (if amountOut \<le> absoluteRemaining then Inr target
                  else GetNextSqrtPriceFromOutput (Some current) liquidity (Some absoluteRemaining) zeroForOne) (\<lambda>next.
                Inr (next, 0, amountOut)))) (\<lambda>(next, amountIn, amountOut).
         let reachedTarget = (next = target)
         in call_bind (if \<not> reachedTarget \<or> \<not> exactIn then amount_in_between zeroForOne current next liquidity
                       else Inr amountIn) (\<lambda>amountIn.
            call_bind (if \<not> reachedTarget \<or> exactIn then amount_out_between zeroForOne current next liquidity
                       else Inr amountOut) (\<lambda>amountOut.
            let amountOut = (if \<not> exactIn \<and> absoluteRemaining < amountOut then absoluteRemaining else amountOut)
            in call_bind (if exactIn \<and> \<not> reachedTarget then Inr (absoluteRemaining - amountIn)
                 else MulDivRoundingUp (Some amountIn) (Some fee) (Some feeComplement)) (\<lambda>feeAmount.
               Inr \<lparr>SqrtRatioNextX96 = next, AmountIn = amountIn, AmountOut = amountOut, FeeAmount = feeAmount\<rparr>)))))"

section \<open>Rounded division\<close>

definition cdiv :: "int \<Rightarrow> int \<Rightarrow> int" where
  "cdiv n d = - ((- n) div d)"

lemma le_div_iff: "0 < d \<Longrightarrow> m \<le> n div d \<longleftrightarrow> m * d \<le> (n :: int)"
proof
  assume d: "0 < d" and m: "m \<le> n div d"
  have "m * d \<le> n div d * d" using d m by simp
  also have "\<dots> \<le> n" using d by (simp add: minus_mod_eq_div_mult [symmetric])
  finally show "m * d \<le> n" .
next
  assume d: "0 < d" and m: "m * d \<le> n"
  show "m \<le> n div d" using zdiv_mono1 [OF m d] d by simp
qed

lemma div_less_iff: "0 < d \<Longrightarrow> n div d < m \<longleftrightarrow> n < m * (d :: int)"
  using le_div_iff [of d m n] by linarith

lemma cdiv_le_iff: "0 < d \<Longrightarrow> cdiv n d \<le> m \<longleftrightarrow> n \<le> m * d"
  using le_div_iff [of d "- m" "- n"] by (simp add: cdiv_def) linarith

lemma less_cdiv_iff: "0 < d \<Longrightarrow> m < cdiv n d \<longleftrightarrow> m * d < n"
  using cdiv_le_iff [of d n m] by linarith

lemma cdiv_alt: "0 < d \<Longrightarrow> cdiv n d = (if n mod d = 0 then n div d else n div d + 1)"
  by (simp add: cdiv_def zdiv_zminus1_eq_if)

lemma div_le_cdiv: "0 < d \<Longrightarrow> n div d \<le> cdiv n d"
  by (simp add: cdiv_alt)

text \<open>Rounding up twice is rounding up once.\<close>

lemma cdiv_cdiv: "0 < a \<Longrightarrow> 0 < b \<Longrightarrow> cdiv (cdiv n b) a = cdiv n (a * b)"
proof (rule order.antisym)
  assume ab: "0 < a" "0 < b"
  have le: "cdiv (cdiv n b) a \<le> m \<longleftrightarrow> cdiv n (a * b) \<le> m" for m
    using ab by (simp add: cdiv_le_iff mult.assoc)
  show "cdiv (cdiv n b) a \<le> cdiv n (a * b)" "cdiv n (a * b) \<le> cdiv (cdiv n b) a" using le by blast+
qed

lemma quo_rem_nonneg: "0 \<le> n \<Longrightarrow> 0 \<le> d \<Longrightarrow> n sdiv d = n div d" "0 \<le> n \<Longrightarrow> 0 \<le> d \<Longrightarrow> n smod d = n mod (d :: int)"
  by (auto simp: signed_divide_int_def signed_modulo_int_def sgn_if minus_div_mult_eq_mod)

lemma ceilDiv_cdiv: "0 \<le> n \<Longrightarrow> 0 < d \<Longrightarrow> ceilDiv n d = Inr (cdiv n d)"
  by (auto simp: ceilDiv_def quo_rem_nonneg cdiv_alt)

definition u256 :: "int \<Rightarrow> bool" where
  "u256 v = (0 \<le> v \<and> v < 2 ^ 256)"

lemma isU256_Some [simp]: "isU256 (Some v) = u256 v"
  by (auto simp: isU256_def u256_def maxU256_def)

lemma MulDiv_Inr_iff:
  "MulDiv (Some a) (Some b) (Some d) = Inr r \<longleftrightarrow> u256 a \<and> u256 b \<and> u256 d \<and> d \<noteq> 0 \<and> r = a * b div d \<and> r < 2 ^ 256"
  by (auto simp: MulDiv_def Let_def quo_rem_nonneg u256_def maxU256_def)

lemma MulDivRoundingUp_Inr_iff:
  "MulDivRoundingUp (Some a) (Some b) (Some d) = Inr r \<longleftrightarrow>
    u256 a \<and> u256 b \<and> u256 d \<and> d \<noteq> 0 \<and> r = cdiv (a * b) d \<and> r < 2 ^ 256"
  by (auto simp: MulDivRoundingUp_def Let_def MulDiv_Inr_iff quo_rem_nonneg u256_def maxU256_def cdiv_alt)

section \<open>Guards, wrapping, square roots\<close>

lemma bit_length_0 [simp]: "bit_length 0 = 0"
  by (simp add: bit_length.simps [of 0])

lemma bit_length_le_iff: "bit_length n \<le> k \<longleftrightarrow> n < 2 ^ k"
proof (induction n arbitrary: k rule: bit_length.induct)
  case (1 n)
  show ?case
  proof (cases "n = 0 \<or> k = 0")
    case True
    then show ?thesis by (cases "n = 0") (simp_all add: bit_length.simps [of n])
  next
    case False
    then obtain j where k: "k = Suc j" by (cases k) auto
    have "bit_length n \<le> k \<longleftrightarrow> n div 2 < 2 ^ j" using 1 False by (simp add: bit_length.simps [of n] k)
    also have "\<dots> \<longleftrightarrow> n < 2 ^ k" by (auto simp: k)
    finally show ?thesis .
  qed
qed

lemma BitLen_le_iff: "0 \<le> v \<Longrightarrow> BitLen v \<le> k \<longleftrightarrow> v < 2 ^ k"
  by (simp add: BitLen_def bit_length_le_iff nat_less_iff)

lemma requireUnsigned_Inr_iff: "requireUnsigned (Some v) k name = Inr x \<longleftrightarrow> x = v \<and> 0 \<le> v \<and> v < 2 ^ k"
  using BitLen_le_iff [of v k] by (auto simp: requireUnsigned_def)

lemma requireUnsigned_ok: "0 \<le> v \<Longrightarrow> v < 2 ^ k \<Longrightarrow> requireUnsigned (Some v) k name = Inr v"
  by (simp add: requireUnsigned_Inr_iff)

lemma requireUnsigned_value:
  "requireUnsigned value k name = Inr x \<longleftrightarrow> value = Some x \<and> 0 \<le> x \<and> x < 2 ^ k"
  by (cases "value") (auto simp: requireUnsigned_Inr_iff, simp add: requireUnsigned_def)

lemmas require_defs = requireU160_def requireU256_def requireUnsigned_value

lemma requireResultU160_Inr_iff [simp]: "requireResultU160 v = Inr x \<longleftrightarrow> x = v \<and> 0 \<le> v \<and> v < 2 ^ 160"
  by (auto simp: requireResultU160_def maxU160_def)

lemma and_maxU256: "v AND maxU256 = v mod 2 ^ 256"
proof -
  have "maxU256 = mask 256" by (simp only: maxU256_def mask_eq_exp_minus_1)
  then have "v AND maxU256 = take_bit 256 v" by (simp only: take_bit_eq_mask)
  then show ?thesis by (simp only: take_bit_eq_mod)
qed

lemma u256_wrap: "u256Mul a b = a * b mod 2 ^ 256" "u256Add a b = (a + b) mod 2 ^ 256"
  by (simp_all only: u256Mul_def u256Add_def and_maxU256)

lemma isqrt_bounds: "isqrt n * isqrt n \<le> n \<and> n < (isqrt n + 1) * (isqrt n + 1)"
proof (induction n rule: isqrt.induct)
  case (1 n)
  show ?case
  proof (cases "n = 0")
    case False
    define s where "s = isqrt (n div 4)"
    have s: "s * s \<le> n div 4" "n div 4 < (s + 1) * (s + 1)" using 1 False by (simp_all add: s_def)
    have "4 * (s * s) \<le> n" "n < 4 * ((s + 1) * (s + 1))" using s by linarith+
    then have "2 * s * (2 * s) \<le> n" "n < (2 * s + 2) * (2 * s + 2)" by (simp_all add: algebra_simps)
    then show ?thesis using False by (simp add: isqrt.simps [of n] Let_def flip: s_def)
  qed (simp add: isqrt.simps)
qed

section \<open>Amounts between two prices\<close>

definition u160 :: "int \<Rightarrow> bool" where "u160 v = (0 \<le> v \<and> v < 2 ^ 160)"
definition u128 :: "int \<Rightarrow> bool" where "u128 v = (0 \<le> v \<and> v < 2 ^ 128)"

lemma product_bound: "0 \<le> a \<Longrightarrow> a < (m :: int) \<Longrightarrow> 0 \<le> b \<Longrightarrow> b < n \<Longrightarrow> a * b < m * n"
  by (metis mult_strict_mono order_le_less_trans)

text \<open>The amount of token 1 is the liquidity times the price difference, rounded in the asked direction.\<close>

lemma GetAmount1Delta_formula:
  assumes "u160 a" "u160 b" "u128 l"
  shows "GetAmount1Delta (Some a) (Some b) (Some l) up =
    Inr (if up then cdiv (l * \<bar>b - a\<bar>) (2 ^ 96) else l * \<bar>b - a\<bar> div 2 ^ 96)"
proof -
  have r: "requireUnsigned (Some a) 160 n = Inr a" "requireUnsigned (Some b) 160 n = Inr b" "requireUnsigned (Some l) 128 n = Inr l" for n
    using assms by (simp_all add: requireUnsigned_ok u160_def u128_def)
  have p: "0 \<le> l * \<bar>b - a\<bar>" "l * \<bar>b - a\<bar> < 2 ^ 128 * 2 ^ 160"
    using assms product_bound [of l "2 ^ 128" "\<bar>b - a\<bar>" "2 ^ 160"] by (auto simp: u160_def u128_def abs_if)
  then have "cdiv (l * \<bar>b - a\<bar>) (2 ^ 96) \<le> 2 ^ 192" "l * \<bar>b - a\<bar> div 2 ^ 96 \<le> 2 ^ 192"
    by (simp_all add: cdiv_le_iff)
  then have "MulDivRoundingUp (Some l) (Some \<bar>b - a\<bar>) (Some q96) = Inr (cdiv (l * \<bar>b - a\<bar>) (2 ^ 96))"
    "MulDiv (Some l) (Some \<bar>b - a\<bar>) (Some q96) = Inr (l * \<bar>b - a\<bar> div 2 ^ 96)"
    using assms by (auto simp: MulDivRoundingUp_Inr_iff MulDiv_Inr_iff u256_def q96_def u160_def u128_def abs_if)
  moreover have "snd (orderedPrices a b) - fst (orderedPrices a b) = \<bar>b - a\<bar>" by (simp add: orderedPrices_def)
  ultimately show ?thesis
    unfolding GetAmount1Delta_def requireU160_def r split_beta Let_def call_bind_simps by (simp add: cdiv_def)
qed

text \<open>The amount of token 0 divides by both prices; rounding up twice is rounding up once.\<close>

lemma GetAmount0Delta_formula:
  assumes "u160 a" "u160 b" "u128 l" "0 < a" "0 < b"
  shows "GetAmount0Delta (Some a) (Some b) (Some l) up =
    Inr (if up then cdiv (l * 2 ^ 96 * \<bar>b - a\<bar>) (a * b) else l * 2 ^ 96 * \<bar>b - a\<bar> div (a * b))"
proof -
  have r: "requireUnsigned (Some a) 160 n = Inr a" "requireUnsigned (Some b) 160 n = Inr b" "requireUnsigned (Some l) 128 n = Inr l" for n
    using assms by (simp_all add: requireUnsigned_ok u160_def u128_def)
  define lo hi where "lo = min a b" and "hi = max a b"
  have o: "orderedPrices a b = (lo, hi)" "\<bar>b - a\<bar> = hi - lo" "0 < lo" "lo \<le> hi" "a * b = lo * hi" "hi < 2 ^ 160"
    using assms by (auto simp: orderedPrices_def lo_def hi_def min_def max_def u160_def)
  define n x where "n = l * 2 ^ 96" and "x = n * (hi - lo)"
  have n: "0 \<le> n" "n < 2 ^ 256" using assms(3) by (simp_all add: u128_def n_def)
  have hi: "0 < hi" "u256 n" "u256 (hi - lo)" "u256 hi" using o n by (simp_all add: u256_def)
  have x: "0 \<le> x" "x \<le> n * hi" using n o by (simp_all add: x_def mult_left_mono)
  have c: "cdiv x hi \<le> n" "0 \<le> cdiv x hi" using x hi less_cdiv_iff [of hi "- 1" x] by (simp_all add: cdiv_le_iff)
  have d: "x div hi \<le> n" "0 \<le> x div hi"
    using x hi c div_le_cdiv [of hi x] by (simp_all add: pos_imp_zdiv_nonneg_iff)
  have m: "MulDivRoundingUp (Some n) (Some (hi - lo)) (Some hi) = Inr (cdiv x hi)"
    "MulDiv (Some n) (Some (hi - lo)) (Some hi) = Inr (x div hi)"
    using n hi c d by (simp_all add: MulDivRoundingUp_Inr_iff MulDiv_Inr_iff x_def)
  have "cdiv (cdiv x hi) lo = cdiv x (lo * hi)" "x div hi div lo = x div (lo * hi)"
    using o hi by (simp_all add: cdiv_cdiv zdiv_zmult2_eq mult.commute [of lo])
  then show ?thesis
    unfolding GetAmount0Delta_def requireU160_def r o(1,2,5) Let_def prod.case push_bit_eq_mult call_bind_simps
      n_def [symmetric] x_def [symmetric] m sum.case or_value_simps
    using o(3) c d by (simp add: ceilDiv_cdiv quo_rem_nonneg)
qed

section \<open>The next price\<close>

text \<open>The overflow test of the code, \<open>product / amount == price\<close>, is exact.\<close>

lemma wrapped_product:
  assumes "0 < a" "a < 2 ^ 256" "0 \<le> p"
  shows "u256Mul a p sdiv a = p \<longleftrightarrow> a * p < 2 ^ 256"
proof -
  define M :: int where "M = 2 ^ 256"
  have q: "u256Mul a p sdiv a = (a * p mod M) div a" using assms by (simp only: u256_wrap M_def quo_rem_nonneg less_imp_le
      pos_mod_sign zero_less_power zero_less_numeral)
  have "a * p mod M div a < p" if "M \<le> a * p"
  proof -
    have "a * p mod M = a * p - M * (a * p div M)" by (simp add: minus_mult_div_eq_mod)
    moreover have "1 \<le> a * p div M" using that by (subst le_div_iff) (simp_all add: M_def)
    then have "M * 1 \<le> M * (a * p div M)" by (intro mult_left_mono) (simp_all add: M_def)
    ultimately have "a * p mod M < p * a" using assms(1) by (simp add: M_def mult.commute)
    then show ?thesis using assms(1) by (simp add: div_less_iff)
  qed
  moreover have "a * p mod M div a = p" if "a * p < M" using that assms by simp
  ultimately show ?thesis unfolding q M_def [symmetric] by force
qed

lemma push_96: "push_bit 96 l = l * (2 :: int) ^ 96"
  by (rule push_bit_eq_mult)

text \<open>Adding token 0 lowers the price, and never below what the amount pays for.\<close>

lemma next_price_amount0_add:
  assumes p: "u160 p" "0 < p" and l: "u128 l" "0 < l" and a: "u256 a"
  defines "n \<equiv> l * 2 ^ 96"
  shows "\<exists>q. nextSqrtPriceAmount0RoundingUp p l a True = Inr q \<and> 0 < q \<and> q \<le> p \<and> n * p \<le> q * (n + a * p)"
proof (cases "a = 0")
  case True
  then show ?thesis using p by (simp add: nextSqrtPriceAmount0RoundingUp_def mult.commute)
next
  case False
  have n: "0 < n" "n < 2 ^ 224" using l by (simp_all add: n_def u128_def)
  have a: "0 < a" "a < 2 ^ 256" using a False by (simp_all add: u256_def)
  have pp: "p < 2 ^ 160" using p by (simp add: u160_def)
  have pos: "0 < q" if "n * p \<le> q * (n + a * p)" for q
    using that n a p by (smt (verit) mult_pos_pos mult_nonneg_nonneg zero_less_mult_iff)
  define d where "d = n + a * p"
  have d: "0 < d" "n \<le> d" using n a p by (simp_all add: d_def add_pos_pos)
  show ?thesis
  proof (cases "a * p < 2 ^ 256 \<and> d < 2 ^ 256")
    case True
    then have m: "u256Mul a p = a * p" "u256Add n (a * p) = d"
      using a p d by (simp_all only: u256_wrap d_def) (simp_all add: mod_pos_pos_trivial)
    have c: "cdiv (n * p) d \<le> p" "n * p \<le> cdiv (n * p) d * d"
      using d p cdiv_le_iff [of d "n * p" "cdiv (n * p) d"] by (simp_all add: cdiv_le_iff mult.commute mult_left_mono)
    have "MulDivRoundingUp (Some n) (Some p) (Some d) = Inr (cdiv (n * p) d)"
      using c pp n p d True by (simp add: MulDivRoundingUp_Inr_iff u256_def)
    moreover have "0 < cdiv (n * p) d" using pos c(2) by (simp add: d_def)
    moreover have "a * p sdiv a = p" using a p by (simp add: quo_rem_nonneg)
    ultimately show ?thesis using c pp a d
      unfolding nextSqrtPriceAmount0RoundingUp_def Let_def push_96 n_def [symmetric] m by (simp add: d_def)
  next
    case False
    have f: "\<not> (u256Mul a p sdiv a = p \<and> n \<le> u256Add n (u256Mul a p))"
    proof
      assume h: "u256Mul a p sdiv a = p \<and> n \<le> u256Add n (u256Mul a p)"
      then have ap: "a * p < 2 ^ 256" using wrapped_product [OF a] p by simp
      then have m: "u256Mul a p = a * p" using a p by (simp only: u256_wrap) (simp add: mod_pos_pos_trivial)
      have "2 ^ 256 \<le> n + a * p" using False ap by (simp add: d_def)
      then have "u256Add n (a * p) = n + a * p - 2 ^ 256" using n ap unfolding u256_wrap
        using mod_pos_pos_trivial [of "n + a * p - 2 ^ 256" "2 ^ 256"] by simp
      then show False using h m ap by simp
    qed
    define e where "e = n div p + a"
    have e: "0 < e" "e * p \<le> d"
      using a n p le_div_iff [of p "n div p" n] by (simp_all add: e_def d_def distrib_right pos_imp_zdiv_nonneg_iff add_nonneg_pos)
    have np: "n \<le> p * e"
    proof -
      have "n < (n div p + 1) * p" using p by (simp add: div_less_iff [symmetric])
      also have "\<dots> \<le> e * p" using a p by (intro mult_right_mono) (simp_all add: e_def)
      finally show ?thesis by (simp add: mult.commute)
    qed
    have c: "cdiv n e \<le> p" "n \<le> cdiv n e * e"
      using e np cdiv_le_iff [of e n "cdiv n e"] by (simp_all add: cdiv_le_iff)
    have nn: "0 < cdiv n e" using e n by (simp add: less_cdiv_iff)
    have "n * p \<le> cdiv n e * e * p" using c p by simp
    also have "\<dots> \<le> cdiv n e * d" using e nn by (simp add: mult.assoc mult_left_mono)
    finally have "n * p \<le> cdiv n e * d" .
    moreover have "n sdiv p + a = e" using n p by (simp add: quo_rem_nonneg e_def)
    ultimately show ?thesis using c pp a n e nn
      unfolding nextSqrtPriceAmount0RoundingUp_def Let_def push_96 n_def [symmetric] if_not_P [OF f]
      by (simp add: ceilDiv_cdiv d_def)
  qed
qed

text \<open>Removing token 0 raises the price, no further than a target that holds the amount.\<close>

lemma next_price_amount0_sub:
  assumes p: "u160 p" "0 < p" "p \<le> t" and t: "u160 t" and l: "u128 l" "0 < l" and a: "0 \<le> a"
  defines "n \<equiv> l * 2 ^ 96"
  assumes fits: "a * (t * p) \<le> n * (t - p)"
  shows "\<exists>q. nextSqrtPriceAmount0RoundingUp p l a False = Inr q \<and> p \<le> q \<and> q \<le> t"
proof (cases "a = 0")
  case True
  then show ?thesis using p by (simp add: nextSqrtPriceAmount0RoundingUp_def)
next
  case False
  have n: "0 < n" "n < 2 ^ 224" using l by (simp_all add: n_def u128_def)
  have "t * (a * p) \<le> n * (t - p)" using fits by (simp add: algebra_simps)
  also have "\<dots> < t * n" using n p by (simp add: algebra_simps)
  finally have an: "a * p < n" using p by simp
  have ap: "a \<le> a * p" using a p mult_left_mono [of 1 p a] by simp
  have "a < n" using ap an by linarith
  then have au: "0 < a" "a < 2 ^ 256" "a * p < 2 ^ 256" using a False an n by simp_all
  have e: "u256Mul a p = a * p" using au a p by (simp only: u256_wrap) (simp add: mod_pos_pos_trivial)
  define d q where "d = n - a * p" and "q = cdiv (n * p) d"
  have d: "0 < d" "d \<le> n" using an a p by (simp_all add: d_def)
  then have d256: "d < 2 ^ 256" using n by simp
  have q: "q \<le> t" "p \<le> q"
  proof -
    have "n * p \<le> t * d" using fits by (simp add: d_def algebra_simps)
    then show "q \<le> t" using d by (simp add: q_def cdiv_le_iff)
    have "(p - 1) * d \<le> (p - 1) * n" using d p by (intro mult_left_mono) simp_all
    also have "\<dots> < n * p" using n by (simp add: algebra_simps)
    finally show "p \<le> q" using d less_cdiv_iff [of d "p - 1" "n * p"] by (simp add: q_def)
  qed
  have "MulDivRoundingUp (Some n) (Some p) (Some d) = Inr q"
    using q d d256 n p t by (simp add: MulDivRoundingUp_Inr_iff u256_def q_def [symmetric] u160_def)
  moreover have "a * p sdiv a = p" using au p by (simp add: quo_rem_nonneg)
  ultimately show ?thesis using q False an t p
    unfolding nextSqrtPriceAmount0RoundingUp_def Let_def push_96 n_def [symmetric] e d_def [symmetric]
    by (simp add: u160_def)
qed

text \<open>Adding token 1 raises the price by the rounded-down quotient, short of a target the amount cannot reach.\<close>

lemma next_price_amount1_add:
  assumes "u160 p" "u128 l" "0 < l" "0 \<le> a" "u160 t" "a * 2 ^ 96 < l * (t - p)"
  shows "nextSqrtPriceAmount1RoundingDown p l a True = Inr (p + a * 2 ^ 96 div l)" "a * 2 ^ 96 div l < t - p"
proof -
  define s where "s = a * 2 ^ 96"
  have s: "0 \<le> s" "s div l < t - p" "0 \<le> s div l"
    using assms by (simp_all add: s_def div_less_iff pos_imp_zdiv_nonneg_iff mult.commute)
  then show "a * 2 ^ 96 div l < t - p" by (simp add: s_def)
  have q: "s div l < 2 ^ 160" "p + s div l < 2 ^ 160" using s assms(1,5) by (simp_all add: u160_def)
  have au: "u256 a"
  proof -
    have "l * (t - p) < 2 ^ 128 * 2 ^ 160"
    proof (cases "t \<le> p")
      case True
      then have "l * (t - p) \<le> 0" using assms(3) by (simp add: mult_nonneg_nonpos)
      then show ?thesis by simp
    next
      case False
      then show ?thesis using assms(1-3,5) by (intro product_bound) (simp_all add: u128_def u160_def)
    qed
    then show ?thesis using assms(4,6) by (simp add: u256_def)
  qed
  have "MulDiv (Some a) (Some q96) (Some l) = Inr (s div l)"
    using au q assms(2,3) by (simp add: MulDiv_Inr_iff u256_def q96_def s_def u128_def)
  moreover have "u256Add p (s div l) = p + s div l" using q s assms(1) unfolding u256_wrap by (simp add: u160_def)
  ultimately show "nextSqrtPriceAmount1RoundingDown p l a True = Inr (p + a * 2 ^ 96 div l)"
    unfolding nextSqrtPriceAmount1RoundingDown_def Let_def push_96 s_def [symmetric]
    using assms(1,3) s q by (simp add: quo_rem_nonneg u160_def)
qed

text \<open>Removing token 1 lowers the price by the rounded-up quotient, no further than what the amount can take.\<close>

lemma next_price_amount1_sub:
  assumes "u160 p" "u128 l" "0 < l" "0 \<le> a" "0 < t" "a * 2 ^ 96 \<le> l * (p - t)"
  shows "\<exists>q. nextSqrtPriceAmount1RoundingDown p l a False = Inr q \<and> t \<le> q \<and> q \<le> p"
proof -
  define s where "s = a * 2 ^ 96"
  have s: "0 \<le> s" "cdiv s l \<le> p - t" "0 \<le> cdiv s l"
    using assms less_cdiv_iff [of l "- 1" s] by (simp_all add: s_def cdiv_le_iff mult.commute)
  have au: "u256 a" if "maxU160 < a"
  proof -
    have "0 \<le> p - t" using s by simp
    then have "l * (p - t) < 2 ^ 128 * 2 ^ 160" using assms(1-3,5) by (intro product_bound) (simp_all add: u128_def u160_def)
    then show ?thesis using assms(4,6) by (simp add: u256_def)
  qed
  have "MulDivRoundingUp (Some a) (Some q96) (Some l) = Inr (cdiv s l)" if "maxU160 < a"
    using au [OF that] s assms(1-3,5) by (simp add: MulDivRoundingUp_Inr_iff u256_def q96_def s_def u128_def u160_def)
  then show ?thesis using assms(3,5) s
    unfolding nextSqrtPriceAmount1RoundingDown_def Let_def push_96 s_def [symmetric]
    by (auto simp: ceilDiv_cdiv)
qed

end
