(* ===== verification/FixedDecimal.thy ===== *)
theory FixedDecimal
  imports DefiMath
begin

text \<open>
  Exact decimals, prices and quantities of the market-data packages (\<open>internal/decimal\<close>: \<open>decimal.go\<close>, \<open>fixed.go\<close>, \<open>price.go\<close>,
  \<open>quantity.go\<close>): a decimal is a coefficient with a scale, a price and a quantity are decimals within a range, and a quantity may
  carry a raw integer at sixteen digits. A call that panics or returns an error is an \<open>Inl\<close> with its message (numbers
  in messages are left out). Texts, JSON, hashes and the conversions from binary floating point are not part of this theory.
\<close>

section \<open>Decimals\<close>

definition MaxPrecision :: nat where "MaxPrecision = 16"

datatype decimal_rounding = RoundedHalfEven | RoundedTowardZero

record decimal =
  dc_coefficient :: int
  dc_scale :: nat

definition newDecimal :: "int \<Rightarrow> nat \<Rightarrow> decimal" where
  "newDecimal c s = \<lparr>dc_coefficient = c, dc_scale = s\<rparr>"

definition powerOfTen :: "nat \<Rightarrow> int" where "powerOfTen e = 10 ^ e"

definition aligned :: "decimal \<Rightarrow> decimal \<Rightarrow> int \<times> int" where
  "aligned l r =
     (if dc_scale l < dc_scale r then (dc_coefficient l * powerOfTen (dc_scale r - dc_scale l), dc_coefficient r)
      else if dc_scale r < dc_scale l then (dc_coefficient l, dc_coefficient r * powerOfTen (dc_scale l - dc_scale r))
      else (dc_coefficient l, dc_coefficient r))"

definition big_Cmp :: "int \<Rightarrow> int \<Rightarrow> int" where
  "big_Cmp x y = (if x < y then - 1 else if x = y then 0 else 1)"

definition decimal_IsZero :: "decimal \<Rightarrow> bool" where "decimal_IsZero d = (dc_coefficient d = 0)"
definition decimal_Sign :: "decimal \<Rightarrow> int" where "decimal_Sign d = sgn (dc_coefficient d)"

definition decimal_Add :: "decimal \<Rightarrow> decimal \<Rightarrow> decimal" where
  "decimal_Add d other = (case aligned d other of (l, r) \<Rightarrow> newDecimal (l + r) (max (dc_scale d) (dc_scale other)))"

definition decimal_Sub :: "decimal \<Rightarrow> decimal \<Rightarrow> decimal" where
  "decimal_Sub d other = (case aligned d other of (l, r) \<Rightarrow> newDecimal (l - r) (max (dc_scale d) (dc_scale other)))"

definition decimal_Neg :: "decimal \<Rightarrow> decimal" where
  "decimal_Neg d = newDecimal (- dc_coefficient d) (dc_scale d)"

definition decimal_Mul :: "decimal \<Rightarrow> decimal \<Rightarrow> decimal call" where
  "decimal_Mul d other =
     (let s = dc_scale d + dc_scale other
      in if 255 < s then Inl ''decimal multiplication scale exceeds 255''
         else Inr (newDecimal (dc_coefficient d * dc_coefficient other) s))"

definition decimal_Quo :: "decimal \<Rightarrow> decimal \<Rightarrow> nat \<Rightarrow> decimal_rounding \<Rightarrow> decimal call" where
  "decimal_Quo d other targetScale mode =
     (if decimal_IsZero other then Inl ''decimal division by zero''
      else let exponent = int targetScale + int (dc_scale other) - int (dc_scale d);
               numerator = (if 0 \<le> exponent then dc_coefficient d * powerOfTen (nat exponent) else dc_coefficient d);
               denominator = (if 0 \<le> exponent then dc_coefficient other else dc_coefficient other * powerOfTen (nat (- exponent)));
               c = numerator sdiv denominator;
               remainder = numerator smod denominator;
               c = (case mode of
                      RoundedTowardZero \<Rightarrow> c
                    | RoundedHalfEven \<Rightarrow>
                        if remainder = 0 then c
                        else let comparison = big_Cmp (2 * \<bar>remainder\<bar>) \<bar>denominator\<bar>
                             in if 0 < comparison \<or> comparison = 0 \<and> odd \<bar>c\<bar>
                                then (if sgn numerator = sgn denominator then c + 1 else c - 1) else c)
           in Inr (newDecimal c targetScale))"

definition decimal_Cmp :: "decimal \<Rightarrow> decimal \<Rightarrow> int" where
  "decimal_Cmp d other = (case aligned d other of (l, r) \<Rightarrow> big_Cmp l r)"

definition decimal_Equal :: "decimal \<Rightarrow> decimal \<Rightarrow> bool" where
  "decimal_Equal d other = (case aligned d other of (l, r) \<Rightarrow> big_Cmp l r = 0)"

fun normalize_from :: "int \<Rightarrow> nat \<Rightarrow> decimal" where
  "normalize_from c 0 = newDecimal c 0"
| "normalize_from c (Suc s) = (if c smod 10 \<noteq> 0 then newDecimal c (Suc s) else normalize_from (c sdiv 10) s)"

definition decimal_Normalize :: "decimal \<Rightarrow> decimal" where
  "decimal_Normalize d = normalize_from (dc_coefficient d) (dc_scale d)"

definition bankersRound :: "int \<Rightarrow> nat \<Rightarrow> bool \<Rightarrow> int" where
  "bankersRound mantissa excess i128Bounded =
     (if excess = 0 then mantissa
      else if i128Bounded \<and> 39 \<le> excess then 0
      else let divisor = powerOfTen excess;
               quotient = mantissa sdiv divisor;
               remainder = mantissa smod divisor;
               comparison = big_Cmp \<bar>remainder\<bar> (divisor sdiv 2)
           in if 0 < comparison \<or> comparison = 0 \<and> odd \<bar>quotient\<bar>
              then (if mantissa < 0 then quotient - 1 else quotient + 1) else quotient)"

definition decimal_Quantize :: "decimal \<Rightarrow> nat \<Rightarrow> decimal_rounding \<Rightarrow> decimal" where
  "decimal_Quantize d targetScale mode =
     (if targetScale = dc_scale d then newDecimal (dc_coefficient d) targetScale
      else if dc_scale d < targetScale then newDecimal (dc_coefficient d * powerOfTen (targetScale - dc_scale d)) targetScale
      else let excess = dc_scale d - targetScale
           in newDecimal (case mode of RoundedHalfEven \<Rightarrow> bankersRound (dc_coefficient d) excess False
                | RoundedTowardZero \<Rightarrow> dc_coefficient d sdiv powerOfTen excess) targetScale)"

section \<open>Prices\<close>

datatype priceKind = priceNormal | priceUndefined | priceError | priceRawError

record price =
  pr_value :: decimal
  pr_kind :: priceKind

definition zero_decimal :: decimal where "zero_decimal = newDecimal 0 0"

definition maxPrice :: decimal where "maxPrice = newDecimal 17014118346046 0"
definition minPrice :: decimal where "minPrice = newDecimal (- 17014118346046) 0"

definition priceFromDecimal :: "decimal \<Rightarrow> price call" where
  "priceFromDecimal v =
     (if MaxPrecision < dc_scale v then Inl ''price precision exceeds maximum''
      else if decimal_Cmp v minPrice < 0 \<or> 0 < decimal_Cmp v maxPrice then Inl ''price outside valid range''
      else Inr \<lparr>pr_value = v, pr_kind = priceNormal\<rparr>)"

definition price_Precision :: "price \<Rightarrow> nat" where
  "price_Precision p = (if pr_kind p = priceError then 255 else dc_scale (pr_value p))"

definition price_IsZero :: "price \<Rightarrow> bool" where
  "price_IsZero p = (pr_kind p = priceNormal \<and> decimal_IsZero (pr_value p))"

definition price_IsPositive :: "price \<Rightarrow> bool" where
  "price_IsPositive p = (pr_kind p = priceNormal \<and> 0 < decimal_Sign (pr_value p))"

definition price_Add :: "price \<Rightarrow> price \<Rightarrow> price option" where
  "price_Add p other =
     (if pr_kind p \<noteq> priceNormal \<or> pr_kind other \<noteq> priceNormal then None
      else case priceFromDecimal (decimal_Add (pr_value p) (pr_value other)) of Inr v \<Rightarrow> Some v | Inl _ \<Rightarrow> None)"

definition price_Sub :: "price \<Rightarrow> price \<Rightarrow> price option" where
  "price_Sub p other =
     (if pr_kind p \<noteq> priceNormal \<or> pr_kind other \<noteq> priceNormal then None
      else case priceFromDecimal (decimal_Sub (pr_value p) (pr_value other)) of Inr v \<Rightarrow> Some v | Inl _ \<Rightarrow> None)"

definition price_Neg :: "price \<Rightarrow> price" where
  "price_Neg p = (if pr_kind p \<noteq> priceNormal then p else \<lparr>pr_value = decimal_Neg (pr_value p), pr_kind = priceNormal\<rparr>)"

definition price_Cmp :: "price \<Rightarrow> price \<Rightarrow> int" where
  "price_Cmp p other = decimal_Cmp (pr_value p) (pr_value other)"

definition price_Equal :: "price \<Rightarrow> price \<Rightarrow> bool" where
  "price_Equal p other =
     (if pr_kind p \<noteq> priceNormal \<or> pr_kind other \<noteq> priceNormal then pr_kind p = pr_kind other
      else decimal_Equal (pr_value p) (pr_value other))"

definition price_MulDecimal :: "price \<Rightarrow> decimal \<Rightarrow> decimal call" where
  "price_MulDecimal p other = decimal_Mul (pr_value p) other"

section \<open>Quantities\<close>

record quantity =
  qt_value :: decimal
  qt_rawOverride :: "int option"
  qt_undefined :: bool

definition maxQuantity :: decimal where "maxQuantity = newDecimal 34028236692093 0"
definition quantityRawMax :: int where "quantityRawMax = 34028236692093 * powerOfTen MaxPrecision"
definition quantityUndefinedRaw :: int where "quantityUndefinedRaw = 2 ^ 128 - 1"

definition quantity_Precision :: "quantity \<Rightarrow> nat" where "quantity_Precision q = dc_scale (qt_value q)"

definition rawValue :: "quantity \<Rightarrow> int" where
  "rawValue q =
     (case qt_rawOverride q of Some raw \<Rightarrow> raw
      | None \<Rightarrow> if dc_scale (qt_value q) \<le> MaxPrecision
          then dc_coefficient (qt_value q) * powerOfTen (MaxPrecision - dc_scale (qt_value q)) else dc_coefficient (qt_value q))"

definition quantityFromDecimalAtPrecision :: "decimal \<Rightarrow> nat \<Rightarrow> quantity call" where
  "quantityFromDecimalAtPrecision v maxPrecision =
     (if maxPrecision < dc_scale v then Inl ''quantity precision exceeds maximum''
      else if decimal_Sign v < 0 then Inl ''decimal value is negative, Quantity must be non-negative''
      else if 0 < decimal_Cmp v maxQuantity then Inl ''quantity outside valid range''
      else Inr \<lparr>qt_value = v, qt_rawOverride = None, qt_undefined = False\<rparr>)"

definition quantityFromDecimal :: "decimal \<Rightarrow> quantity call" where
  "quantityFromDecimal v = quantityFromDecimalAtPrecision v MaxPrecision"

definition ZeroQuantity :: "nat \<Rightarrow> quantity call" where
  "ZeroQuantity precision =
     (if MaxPrecision < precision then Inl ''quantity precision exceeds maximum''
      else Inr \<lparr>qt_value = newDecimal 0 precision, qt_rawOverride = None, qt_undefined = False\<rparr>)"

definition QuantityFromRawChecked :: "int option \<Rightarrow> nat \<Rightarrow> quantity call" where
  "QuantityFromRawChecked value precision =
     (case value of None \<Rightarrow> Inl ''raw quantity must be a non-negative integer''
      | Some raw \<Rightarrow>
        if raw < 0 then Inl ''raw quantity must be a non-negative integer''
        else if raw = quantityUndefinedRaw then
          (if precision \<noteq> 0 then Inl ''precision must be 0 when raw is QUANTITY_UNDEF''
           else Inr \<lparr>qt_value = zero_decimal, qt_rawOverride = Some raw, qt_undefined = True\<rparr>)
        else if quantityRawMax < raw then Inl ''raw value exceeds QUANTITY_RAW_MAX''
        else if MaxPrecision < precision then Inl ''quantity precision exceeds maximum''
        else Inr \<lparr>qt_value = newDecimal (raw sdiv powerOfTen (MaxPrecision - precision)) precision, qt_rawOverride = Some raw,
               qt_undefined = False\<rparr>)"

definition quantity_IsZero :: "quantity \<Rightarrow> bool" where
  "quantity_IsZero q = (\<not> qt_undefined q \<and> rawValue q = 0)"

definition quantity_IsPositive :: "quantity \<Rightarrow> bool" where
  "quantity_IsPositive q = (\<not> qt_undefined q \<and> 0 < rawValue q)"

definition call_option :: "'a call \<Rightarrow> 'a option" where
  "call_option r = (case r of Inl _ \<Rightarrow> None | Inr x \<Rightarrow> Some x)"

definition quantity_Add :: "quantity \<Rightarrow> quantity \<Rightarrow> quantity option" where
  "quantity_Add q other =
     (if qt_undefined q \<or> qt_undefined other then None
      else if qt_rawOverride q \<noteq> None \<or> qt_rawOverride other \<noteq> None then
        call_option (QuantityFromRawChecked (Some (rawValue q + rawValue other)) (max (quantity_Precision q) (quantity_Precision other)))
      else call_option (quantityFromDecimal (decimal_Add (qt_value q) (qt_value other))))"

definition quantity_Sub :: "quantity \<Rightarrow> quantity \<Rightarrow> quantity option" where
  "quantity_Sub q other =
     (if qt_undefined q \<or> qt_undefined other then None
      else if qt_rawOverride q \<noteq> None \<or> qt_rawOverride other \<noteq> None then
        (let raw = rawValue q - rawValue other
         in if raw < 0 then None
            else call_option (QuantityFromRawChecked (Some raw) (max (quantity_Precision q) (quantity_Precision other))))
      else call_option (quantityFromDecimal (decimal_Sub (qt_value q) (qt_value other))))"

definition quantity_SaturatingSub :: "quantity \<Rightarrow> quantity \<Rightarrow> quantity call" where
  "quantity_SaturatingSub q other =
     (case quantity_Sub q other of Some r \<Rightarrow> Inr r
      | None \<Rightarrow> ZeroQuantity (max (quantity_Precision q) (quantity_Precision other)))"

definition quantity_Mul :: "quantity \<Rightarrow> quantity \<Rightarrow> quantity option call" where
  "quantity_Mul q other =
     (if qt_undefined q \<or> qt_undefined other then Inr None
      else call_bind (decimal_Mul (qt_value q) (qt_value other)) (\<lambda>product.
           Inr (call_option (quantityFromDecimal (decimal_Quantize product (max (quantity_Precision q) (quantity_Precision other)) RoundedHalfEven)))))"

definition quantity_Cmp :: "quantity \<Rightarrow> quantity \<Rightarrow> int" where
  "quantity_Cmp q other = big_Cmp (rawValue q) (rawValue other)"

definition quantity_Equal :: "quantity \<Rightarrow> quantity \<Rightarrow> bool" where
  "quantity_Equal q other = (qt_undefined q = qt_undefined other \<and> rawValue q = rawValue other)"

section \<open>Values\<close>

text \<open>The number a decimal denotes, and what the comparisons and operations do to it.\<close>

definition dec_value :: "decimal \<Rightarrow> rat" where
  "dec_value d = of_int (dc_coefficient d) / 10 ^ dc_scale d"

lemma dec_value_newDecimal [simp]: "dec_value (newDecimal c s) = of_int c / 10 ^ s"
  by (simp add: dec_value_def newDecimal_def)

lemma aligned_value:
  assumes "aligned d e = (l, r)"
  shows "of_int l = dec_value d * 10 ^ max (dc_scale d) (dc_scale e)" "of_int r = dec_value e * 10 ^ max (dc_scale d) (dc_scale e)"
  using assms by (auto simp: aligned_def dec_value_def powerOfTen_def max_def power_diff [where 'a = rat] split: if_splits)

lemma big_Cmp_simps [simp]: "big_Cmp x y < 0 \<longleftrightarrow> x < y" "0 < big_Cmp x y \<longleftrightarrow> y < x" "big_Cmp x y = 0 \<longleftrightarrow> x = y"
  "big_Cmp x y \<le> 0 \<longleftrightarrow> x \<le> y" "0 \<le> big_Cmp x y \<longleftrightarrow> y \<le> x"
  by (auto simp: big_Cmp_def)

lemma decimal_Cmp_value: "decimal_Cmp d e = big_Cmp l r" "(l < r) = (dec_value d < dec_value e)" "(l = r) = (dec_value d = dec_value e)"
  if "aligned d e = (l, r)" for l r
proof -
  show "decimal_Cmp d e = big_Cmp l r" by (simp add: decimal_Cmp_def that)
  have p: "(0 :: rat) < 10 ^ max (dc_scale d) (dc_scale e)" by simp
  have "(l < r) = ((of_int l :: rat) < of_int r)" "(l = r) = ((of_int l :: rat) = of_int r)" by simp_all
  then show "(l < r) = (dec_value d < dec_value e)" "(l = r) = (dec_value d = dec_value e)"
    unfolding aligned_value [OF that] using p by simp_all
qed

lemma decimal_Cmp_iff [simp]:
  "decimal_Cmp d e < 0 \<longleftrightarrow> dec_value d < dec_value e" "0 < decimal_Cmp d e \<longleftrightarrow> dec_value e < dec_value d"
  "decimal_Cmp d e = 0 \<longleftrightarrow> dec_value d = dec_value e" "decimal_Cmp d e \<le> 0 \<longleftrightarrow> dec_value d \<le> dec_value e"
  "0 \<le> decimal_Cmp d e \<longleftrightarrow> dec_value e \<le> dec_value d" "decimal_Equal d e \<longleftrightarrow> dec_value d = dec_value e"
proof -
  obtain l r where a: "aligned d e = (l, r)" by fastforce
  note c = decimal_Cmp_value [OF a]
  show "decimal_Cmp d e < 0 \<longleftrightarrow> dec_value d < dec_value e" "decimal_Cmp d e = 0 \<longleftrightarrow> dec_value d = dec_value e"
    "0 < decimal_Cmp d e \<longleftrightarrow> dec_value e < dec_value d" "decimal_Cmp d e \<le> 0 \<longleftrightarrow> dec_value d \<le> dec_value e"
    "0 \<le> decimal_Cmp d e \<longleftrightarrow> dec_value e \<le> dec_value d" "decimal_Equal d e \<longleftrightarrow> dec_value d = dec_value e"
    using c(2,3) by (auto simp: c(1) decimal_Equal_def a)
qed

lemma decimal_sum_value [simp]:
  "dec_value (decimal_Add d e) = dec_value d + dec_value e" "dec_value (decimal_Sub d e) = dec_value d - dec_value e"
proof -
  obtain l r where a: "aligned d e = (l, r)" by fastforce
  show "dec_value (decimal_Add d e) = dec_value d + dec_value e" "dec_value (decimal_Sub d e) = dec_value d - dec_value e"
    unfolding decimal_Add_def decimal_Sub_def a prod.case dec_value_newDecimal of_int_add of_int_diff aligned_value [OF a]
    by (simp_all add: diff_divide_distrib add_divide_distrib)
qed

lemma decimal_Add_scale: "dc_scale (decimal_Add d e) = max (dc_scale d) (dc_scale e)" "dc_scale (decimal_Sub d e) = max (dc_scale d) (dc_scale e)"
  by (simp_all add: decimal_Add_def decimal_Sub_def newDecimal_def split_beta)

text \<open>A regular quantity is defined, within range and at most sixteen digits deep; its raw value is its number at sixteen digits.\<close>

definition quantity_ok :: "quantity \<Rightarrow> bool" where
  "quantity_ok q = (\<not> qt_undefined q \<and> 0 \<le> rawValue q \<and> rawValue q \<le> quantityRawMax \<and> dc_scale (qt_value q) \<le> MaxPrecision)"

lemma raw_of_decimal:
  "qt_rawOverride q = None \<Longrightarrow> dc_scale (qt_value q) \<le> MaxPrecision \<Longrightarrow> of_int (rawValue q) = dec_value (qt_value q) * 10 ^ MaxPrecision"
  by (simp add: rawValue_def dec_value_def powerOfTen_def power_diff [where 'a = rat])

lemma decimal_Sign_value [simp]: "decimal_Sign v < 0 \<longleftrightarrow> dec_value v < 0"
  by (simp add: decimal_Sign_def dec_value_def divide_less_0_iff)

lemma quantityFromDecimal_Inr:
  "quantityFromDecimal v = Inr q \<longleftrightarrow> dc_scale v \<le> MaxPrecision \<and> 0 \<le> dec_value v \<and> dec_value v \<le> dec_value maxQuantity
     \<and> q = \<lparr>qt_value = v, qt_rawOverride = None, qt_undefined = False\<rparr>"
  by (auto simp: quantityFromDecimal_def quantityFromDecimalAtPrecision_def not_less)

lemma raw_max_value: "of_int quantityRawMax = dec_value maxQuantity * 10 ^ MaxPrecision"
  by (simp add: quantityRawMax_def maxQuantity_def powerOfTen_def)

lemma quantity_of_value:
  assumes "quantityFromDecimal v = Inr q" "of_int n = dec_value v * 10 ^ MaxPrecision"
  shows "quantity_ok q" "rawValue q = n"
proof -
  have q: "dc_scale v \<le> MaxPrecision" "0 \<le> dec_value v" "dec_value v \<le> dec_value maxQuantity"
    "q = \<lparr>qt_value = v, qt_rawOverride = None, qt_undefined = False\<rparr>" using assms(1) by (auto simp: quantityFromDecimal_Inr)
  have "(of_int (rawValue q) :: rat) = of_int n" using raw_of_decimal [of q] q assms(2) by simp
  then show n: "rawValue q = n" by (simp only: of_int_eq_iff)
  have "(0 :: rat) \<le> of_int n" "of_int n \<le> (of_int quantityRawMax :: rat)" unfolding assms(2) raw_max_value using q(2,3)
    by (simp_all add: mult_right_mono)
  then show "quantity_ok q" using n q by (simp add: quantity_ok_def)
qed

lemma quantity_of_raw:
  assumes "QuantityFromRawChecked (Some n) k = Inr q" "n \<le> quantityRawMax"
  shows "quantity_ok q" "rawValue q = n"
proof -
  have "n \<noteq> quantityUndefinedRaw" using assms(2) by (auto simp: quantityRawMax_def quantityUndefinedRaw_def powerOfTen_def MaxPrecision_def)
  then show "quantity_ok q" "rawValue q = n" using assms
    by (auto simp: QuantityFromRawChecked_def quantity_ok_def rawValue_def newDecimal_def split: if_splits)
qed

lemma nonneg_scaled: "(0 :: rat) \<le> x * 10 ^ k \<longleftrightarrow> 0 \<le> x"
  using mult_le_cancel_right_pos [of "10 ^ k" 0 x] by simp

lemma quantity_sum:
  assumes "quantity_ok q" "quantity_ok r"
  shows "if rawValue q + rawValue r \<le> quantityRawMax then \<exists>s. quantity_Add q r = Some s \<and> quantity_ok s \<and> rawValue s = rawValue q + rawValue r
    else quantity_Add q r = None"
proof (cases "qt_rawOverride q = None \<and> qt_rawOverride r = None")
  case True
  let ?v = "decimal_Add (qt_value q) (qt_value r)"
  have k: "dc_scale ?v \<le> MaxPrecision" using assms by (simp add: decimal_Add_scale quantity_ok_def)
  have n: "of_int (rawValue q + rawValue r) = dec_value ?v * 10 ^ MaxPrecision"
    using True assms raw_of_decimal [of q] raw_of_decimal [of r] by (simp add: quantity_ok_def distrib_right)
  have "0 \<le> rawValue q + rawValue r" using assms by (simp add: quantity_ok_def)
  then have "(0 :: rat) \<le> of_int (rawValue q + rawValue r)" by (simp only: of_int_0_le_iff)
  then have v: "0 \<le> dec_value ?v" unfolding n by (simp only: nonneg_scaled)
  have "rawValue q + rawValue r \<le> quantityRawMax \<longleftrightarrow> (of_int (rawValue q + rawValue r) :: rat) \<le> of_int quantityRawMax" by (simp only: of_int_le_iff)
  also have "\<dots> \<longleftrightarrow> dec_value ?v \<le> dec_value maxQuantity" unfolding n raw_max_value by simp
  finally have i: "rawValue q + rawValue r \<le> quantityRawMax \<longleftrightarrow> dec_value ?v \<le> dec_value maxQuantity" .
  have a: "quantity_Add q r = call_option (quantityFromDecimal ?v)" using True assms by (simp add: quantity_Add_def quantity_ok_def)
  show ?thesis
  proof (cases "dec_value ?v \<le> dec_value maxQuantity")
    case le: True
    then obtain s where s: "quantityFromDecimal ?v = Inr s" using k v quantityFromDecimal_Inr [of ?v] by blast
    then show ?thesis using quantity_of_value [OF s n] i le by (simp add: a call_option_def)
  next
    case False
    then have "\<exists>e. quantityFromDecimal ?v = Inl e" using quantityFromDecimal_Inr [of ?v] by (cases "quantityFromDecimal ?v") auto
    then show ?thesis using i False by (auto simp: a call_option_def)
  qed
next
  case False
  let ?n = "rawValue q + rawValue r"
  have b: "0 \<le> ?n" "?n \<le> 2 * quantityRawMax" "max (quantity_Precision q) (quantity_Precision r) \<le> MaxPrecision"
    using assms by (simp_all add: quantity_ok_def quantity_Precision_def)
  then have u: "?n \<noteq> quantityUndefinedRaw" by (auto simp: quantityRawMax_def quantityUndefinedRaw_def powerOfTen_def MaxPrecision_def)
  have a: "quantity_Add q r = call_option (QuantityFromRawChecked (Some ?n) (max (quantity_Precision q) (quantity_Precision r)))"
    using False assms by (auto simp: quantity_Add_def quantity_ok_def)
  show ?thesis
  proof (cases "?n \<le> quantityRawMax")
    case True
    then obtain s where s: "QuantityFromRawChecked (Some ?n) (max (quantity_Precision q) (quantity_Precision r)) = Inr s"
      using b u by (simp add: QuantityFromRawChecked_def)
    then show ?thesis using quantity_of_raw [OF s True] True by (simp add: a call_option_def)
  next
    case False
    then show ?thesis using b u by (simp add: a call_option_def QuantityFromRawChecked_def)
  qed
qed

lemma quantity_difference:
  assumes "quantity_ok q" "quantity_ok r"
  shows "if rawValue r \<le> rawValue q then \<exists>s. quantity_Sub q r = Some s \<and> quantity_ok s \<and> rawValue s = rawValue q - rawValue r
    else quantity_Sub q r = None"
proof (cases "qt_rawOverride q = None \<and> qt_rawOverride r = None")
  case True
  let ?v = "decimal_Sub (qt_value q) (qt_value r)"
  have k: "dc_scale ?v \<le> MaxPrecision" using assms by (simp add: decimal_Add_scale quantity_ok_def)
  have n: "of_int (rawValue q - rawValue r) = dec_value ?v * 10 ^ MaxPrecision"
    using True assms raw_of_decimal [of q] raw_of_decimal [of r] by (simp add: quantity_ok_def left_diff_distrib)
  have "rawValue q - rawValue r \<le> quantityRawMax" using assms by (simp add: quantity_ok_def)
  then have "(of_int (rawValue q - rawValue r) :: rat) \<le> of_int quantityRawMax" by (simp only: of_int_le_iff)
  then have v: "dec_value ?v \<le> dec_value maxQuantity" unfolding n raw_max_value by simp
  have "rawValue r \<le> rawValue q \<longleftrightarrow> (0 :: rat) \<le> of_int (rawValue q - rawValue r)" by (simp only: of_int_0_le_iff le_diff_eq add_0)
  also have "\<dots> \<longleftrightarrow> 0 \<le> dec_value ?v" unfolding n by (simp only: nonneg_scaled)
  finally have i: "rawValue r \<le> rawValue q \<longleftrightarrow> 0 \<le> dec_value ?v" .
  have a: "quantity_Sub q r = call_option (quantityFromDecimal ?v)" using True assms by (simp add: quantity_Sub_def quantity_ok_def)
  show ?thesis
  proof (cases "0 \<le> dec_value ?v")
    case le: True
    then obtain s where s: "quantityFromDecimal ?v = Inr s" using k v quantityFromDecimal_Inr [of ?v] by blast
    then show ?thesis using quantity_of_value [OF s n] i le by (simp add: a call_option_def)
  next
    case False
    then have "\<exists>e. quantityFromDecimal ?v = Inl e" using quantityFromDecimal_Inr [of ?v] by (cases "quantityFromDecimal ?v") auto
    then show ?thesis using i False by (auto simp: a call_option_def)
  qed
next
  case False
  let ?n = "rawValue q - rawValue r"
  have b: "?n \<le> quantityRawMax" "max (quantity_Precision q) (quantity_Precision r) \<le> MaxPrecision"
    using assms by (simp_all add: quantity_ok_def quantity_Precision_def)
  then have u: "?n \<noteq> quantityUndefinedRaw" by (auto simp: quantityRawMax_def quantityUndefinedRaw_def powerOfTen_def MaxPrecision_def)
  have a: "quantity_Sub q r = (if ?n < 0 then None else call_option (QuantityFromRawChecked (Some ?n) (max (quantity_Precision q) (quantity_Precision r))))"
    using False assms by (auto simp: quantity_Sub_def quantity_ok_def Let_def)
  show ?thesis
  proof (cases "rawValue r \<le> rawValue q")
    case True
    then obtain s where s: "QuantityFromRawChecked (Some ?n) (max (quantity_Precision q) (quantity_Precision r)) = Inr s"
      using b u by (simp add: QuantityFromRawChecked_def)
    then show ?thesis using quantity_of_raw [OF s b(1)] True by (simp add: a call_option_def)
  next
    case False
    then show ?thesis by (simp add: a)
  qed
qed

end
