(* ===== verification/OrderBook.thy ===== *)
theory OrderBook
  imports FixedDecimal "HOL-Library.Finite_Map"
begin

text \<open>
  The two-sided order book of the market-data packages (\<open>internal/matching/orderbook\<close>: \<open>types.go\<close>, \<open>level.go\<close>, \<open>ladder.go\<close>, \<open>book.go\<close>).
  A level is a queue of orders with an index from order identities to positions, a ladder is a list of levels from the best
  price with a cache from identities to prices, a book is two ladders. The Go code mutates levels through pointers it holds
  only inside one call; here a level is replaced in its ladder. A panic is an \<open>Inl\<close> with its message (numbers left out).
\<close>

unbundle bit_operations_syntax

section \<open>Orders and prices\<close>

datatype book_side = NoSide | Buy | Sell

datatype BookType = L1MBP | L2MBP | L3MBO

definition FlagLast :: "8 word" where "FlagLast = push_bit 7 1"
definition FlagTOB :: "8 word" where "FlagTOB = push_bit 6 1"
definition FlagSnapshot :: "8 word" where "FlagSnapshot = push_bit 5 1"
definition FlagMBP :: "8 word" where "FlagMBP = push_bit 4 1"

record book_order =
  bo_Side :: book_side
  bo_Price :: price
  bo_Quantity :: quantity
  bo_ID :: u64

record BookPrice =
  bp_Value :: price
  bp_Side :: book_side

definition NewBookPrice :: "price \<Rightarrow> book_side \<Rightarrow> BookPrice" where
  "NewBookPrice v s = \<lparr>bp_Value = v, bp_Side = s\<rparr>"

definition BookPrice_Compare :: "BookPrice \<Rightarrow> BookPrice \<Rightarrow> int call" where
  "BookPrice_Compare p other =
     (if bp_Side p \<noteq> bp_Side other then Inl ''BookPrice compared across sides''
      else let comparison = price_Cmp (bp_Value p) (bp_Value other)
           in Inr (if bp_Side p = Buy then - comparison else comparison))"

definition BookPrice_Equal :: "BookPrice \<Rightarrow> BookPrice \<Rightarrow> bool" where
  "BookPrice_Equal p other = (bp_Side p = bp_Side other \<and> price_Equal (bp_Value p) (bp_Value other))"

definition bookPrice :: "book_order \<Rightarrow> BookPrice" where
  "bookPrice o' = NewBookPrice (bo_Price o') (bo_Side o')"

record Fill =
  fl_Price :: price
  fl_Quantity :: quantity

section \<open>Levels\<close>

record Level =
  bl_Price :: BookPrice
  bl_orders :: "book_order list"
  bl_index :: "(u64, nat) fmap"

definition NewLevel :: "BookPrice \<Rightarrow> Level" where
  "NewLevel p = \<lparr>bl_Price = p, bl_orders = [], bl_index = fmempty\<rparr>"

definition requirePrice :: "Level \<Rightarrow> book_order \<Rightarrow> unit call" where
  "requirePrice l ord = (if \<not> price_Equal (bo_Price ord) (bp_Value (bl_Price l)) then Inl ''order price does not match level price'' else Inr ())"

definition Level_Add :: "Level \<Rightarrow> book_order \<Rightarrow> Level call" where
  "Level_Add l ord = call_bind (requirePrice l ord) (\<lambda>_.
     Inr (if \<not> quantity_IsPositive (bo_Quantity ord) then l
          else case fmlookup (bl_index l) (bo_ID ord) of
            Some position \<Rightarrow> l\<lparr>bl_orders := (bl_orders l)[position := ord]\<rparr>
          | None \<Rightarrow> l\<lparr>bl_index := fmupd (bo_ID ord) (length (bl_orders l)) (bl_index l), bl_orders := bl_orders l @ [ord]\<rparr>))"

fun Level_AddBulk :: "Level \<Rightarrow> book_order list \<Rightarrow> Level call" where
  "Level_AddBulk l [] = Inr l"
| "Level_AddBulk l (ord # ords) = call_bind (Level_Add l ord) (\<lambda>l. Level_AddBulk l ords)"

definition LevelFromOrder :: "book_order \<Rightarrow> Level call" where
  "LevelFromOrder ord = Level_Add (NewLevel (bookPrice ord)) ord"

definition Level_remove :: "Level \<Rightarrow> u64 \<Rightarrow> Level option" where
  "Level_remove l i =
     (case fmlookup (bl_index l) i of
        None \<Rightarrow> None
      | Some position \<Rightarrow>
        (let orders = take position (bl_orders l) @ drop (Suc position) (bl_orders l)
         in Some (l\<lparr>bl_orders := orders,
              bl_index := foldl (\<lambda>m k. fmupd (bo_ID (orders ! k)) k m) (fmdrop i (bl_index l)) [position ..< length orders]\<rparr>)))"

definition Level_Delete :: "Level \<Rightarrow> book_order \<Rightarrow> Level" where
  "Level_Delete l ord = (case Level_remove l (bo_ID ord) of None \<Rightarrow> l | Some l' \<Rightarrow> l')"

definition Level_Update :: "Level \<Rightarrow> book_order \<Rightarrow> Level call" where
  "Level_Update l ord = call_bind (requirePrice l ord) (\<lambda>_.
     if quantity_IsZero (bo_Quantity ord) then Inr (Level_Delete l ord) else Level_Add l ord)"

definition Level_RemoveByID :: "Level \<Rightarrow> u64 \<Rightarrow> Level call" where
  "Level_RemoveByID l i = (case Level_remove l i of None \<Rightarrow> Inl ''Integrity error: order not found'' | Some l' \<Rightarrow> Inr l')"

definition Level_Contains :: "Level \<Rightarrow> u64 \<Rightarrow> bool" where
  "Level_Contains l i = (fmlookup (bl_index l) i \<noteq> None)"

definition Level_Empty :: "Level \<Rightarrow> bool" where "Level_Empty l = (bl_orders l = [])"

definition Level_First :: "Level \<Rightarrow> book_order option" where
  "Level_First l = (case bl_orders l of [] \<Rightarrow> None | ord # _ \<Rightarrow> Some ord)"

definition Level_Size :: "Level \<Rightarrow> decimal" where
  "Level_Size l = foldl (\<lambda>total ord. decimal_Add total (qt_value (bo_Quantity ord))) zero_decimal (bl_orders l)"

fun exposure_from :: "decimal \<Rightarrow> book_order list \<Rightarrow> decimal call" where
  "exposure_from acc [] = Inr acc"
| "exposure_from acc (ord # ords) =
     call_bind (price_MulDecimal (bo_Price ord) (qt_value (bo_Quantity ord))) (\<lambda>x. exposure_from (decimal_Add acc x) ords)"

definition Level_Exposure :: "Level \<Rightarrow> decimal call" where
  "Level_Exposure l = exposure_from zero_decimal (bl_orders l)"

definition Level_SizeRaw :: "Level \<Rightarrow> int" where
  "Level_SizeRaw l = foldl (\<lambda>total ord. total + rawValue (bo_Quantity ord)) 0 (bl_orders l)"

section \<open>Ladders\<close>

datatype batchState = noBatch | mbpBatch | snapshotBatch

record Ladder =
  ld_Side :: book_side
  ld_BookType :: BookType
  ld_levels :: "Level list"
  ld_cache :: "(u64, BookPrice) fmap"
  ld_batch :: batchState

definition NewLadder :: "book_side \<Rightarrow> BookType \<Rightarrow> Ladder" where
  "NewLadder s t = \<lparr>ld_Side = s, ld_BookType = t, ld_levels = [], ld_cache = fmempty, ld_batch = noBatch\<rparr>"

definition Ladder_Clear :: "Ladder \<Rightarrow> Ladder" where
  "Ladder_Clear l = l\<lparr>ld_levels := [], ld_cache := fmempty, ld_batch := noBatch\<rparr>"

definition Ladder_find :: "Ladder \<Rightarrow> BookPrice \<Rightarrow> Level option" where
  "Ladder_find l p = find (\<lambda>level. BookPrice_Equal (bl_Price level) p) (ld_levels l)"

text \<open>A change of the level that \<open>find\<close> returns, and the removal of that level.\<close>

fun set_level :: "BookPrice \<Rightarrow> Level \<Rightarrow> Level list \<Rightarrow> Level list" where
  "set_level p new [] = []"
| "set_level p new (level # levels) = (if BookPrice_Equal (bl_Price level) p then new # levels else level # set_level p new levels)"

fun drop_level :: "BookPrice \<Rightarrow> Level list \<Rightarrow> Level list" where
  "drop_level p [] = []"
| "drop_level p (level # levels) = (if BookPrice_Equal (bl_Price level) p then levels else level # drop_level p levels)"

definition Ladder_removeLevel :: "Ladder \<Rightarrow> BookPrice \<Rightarrow> Ladder" where
  "Ladder_removeLevel l p = l\<lparr>ld_levels := drop_level p (ld_levels l)\<rparr>"

text \<open>The insertion sort: one element sinks into the sorted prefix, which is kept reversed.\<close>

fun sift_level :: "Level \<Rightarrow> Level list \<Rightarrow> Level list call" where
  "sift_level x [] = Inr [x]"
| "sift_level x (y # ys) = call_bind (BookPrice_Compare (bl_Price x) (bl_Price y)) (\<lambda>c.
     if c < 0 then call_bind (sift_level x ys) (\<lambda>zs. Inr (y # zs)) else Inr (x # y # ys))"

fun sort_levels :: "Level list \<Rightarrow> Level list \<Rightarrow> Level list call" where
  "sort_levels pre [] = Inr (rev pre)"
| "sort_levels pre (x # xs) = call_bind (sift_level x pre) (\<lambda>pre. sort_levels pre xs)"

definition sortLevels :: "Ladder \<Rightarrow> Ladder call" where
  "sortLevels l = call_bind (sort_levels [] (ld_levels l)) (\<lambda>levels. Inr (l\<lparr>ld_levels := levels\<rparr>))"

definition retainBestOnly :: "Ladder \<Rightarrow> Ladder" where
  "retainBestOnly l =
     (case ld_levels l of
        best # _ # _ \<Rightarrow> l\<lparr>ld_levels := [best], ld_cache := foldl (\<lambda>c ord. fmupd (bo_ID ord) (bl_Price best) c) fmempty (bl_orders best)\<rparr>
      | _ \<Rightarrow> l)"

definition handleL1Add :: "Ladder \<Rightarrow> book_order \<Rightarrow> 8 word \<Rightarrow> bool \<times> Ladder" where
  "handleL1Add l ord flags =
     (if \<not> quantity_IsPositive (bo_Quantity ord) then (False, Ladder_Clear l)
      else let isMBP = flags AND FlagMBP \<noteq> 0;
               isSnapshot = flags AND FlagSnapshot \<noteq> 0;
               isLast = flags AND FlagLast \<noteq> 0
           in (True,
               if isSnapshot \<and> isLast then (if ld_batch l \<noteq> snapshotBatch then Ladder_Clear l else l)
               else if isSnapshot then (if ld_batch l \<noteq> snapshotBatch then (Ladder_Clear l)\<lparr>ld_batch := snapshotBatch\<rparr> else l)
               else if isMBP \<and> isLast then (if ld_batch l \<noteq> mbpBatch then Ladder_Clear l else l)
               else if isMBP then (Ladder_Clear l)\<lparr>ld_batch := mbpBatch\<rparr>
               else Ladder_Clear l))"

text \<open>An aggregated level holds one order: the orders it had leave it and the cache.\<close>

definition replace_aggregate :: "Ladder \<Rightarrow> BookPrice \<Rightarrow> Ladder" where
  "replace_aggregate l p =
     (case Ladder_find l p of None \<Rightarrow> l
      | Some level \<Rightarrow> l\<lparr>ld_cache := foldl (\<lambda>c ord. fmdrop (bo_ID ord) c) (ld_cache l) (bl_orders level),
          ld_levels := set_level p (level\<lparr>bl_orders := [], bl_index := fmempty\<rparr>) (ld_levels l)\<rparr>)"

definition Ladder_insert :: "Ladder \<Rightarrow> book_order \<Rightarrow> Ladder call" where
  "Ladder_insert l ord =
     (let p = bookPrice ord;
          l = l\<lparr>ld_cache := fmupd (bo_ID ord) p (ld_cache l)\<rparr>
      in case Ladder_find l p of
           Some level \<Rightarrow> call_bind (Level_Add level ord) (\<lambda>level. Inr (l\<lparr>ld_levels := set_level p level (ld_levels l)\<rparr>))
         | None \<Rightarrow> call_bind (LevelFromOrder ord) (\<lambda>level. sortLevels (l\<lparr>ld_levels := ld_levels l @ [level]\<rparr>)))"

definition Ladder_Add :: "Ladder \<Rightarrow> book_order \<Rightarrow> 8 word \<Rightarrow> Ladder call" where
  "Ladder_Add l ord flags =
     (if bo_Side ord \<noteq> ld_Side l then Inl ''order side does not match ladder side''
      else case (if ld_BookType l = L1MBP then handleL1Add l ord flags else (quantity_IsPositive (bo_Quantity ord), l)) of
        (False, l) \<Rightarrow> Inr l
      | (True, l) \<Rightarrow>
        (let l = (if ld_BookType l = L2MBP then replace_aggregate l (bookPrice ord) else l)
         in call_bind (Ladder_insert l ord) (\<lambda>l.
            Inr (if ld_BookType l = L1MBP \<and> flags AND (FlagMBP OR FlagSnapshot) \<noteq> 0
                 then (let l = retainBestOnly l in if flags AND FlagLast \<noteq> 0 then l\<lparr>ld_batch := noBatch\<rparr> else l)
                 else l))))"

definition Ladder_Update :: "Ladder \<Rightarrow> book_order \<Rightarrow> 8 word \<Rightarrow> Ladder call" where
  "Ladder_Update l ord flags =
     (let add = (\<lambda>l. if quantity_IsPositive (bo_Quantity ord) then Ladder_Add l ord flags else Inr l)
      in case fmlookup (ld_cache l) (bo_ID ord) of
           None \<Rightarrow> add l
         | Some oldPrice \<Rightarrow>
           (case Ladder_find l oldPrice of
              None \<Rightarrow> add l
            | Some level \<Rightarrow>
              if price_Equal (bo_Price ord) (bp_Value (bl_Price level)) then
                call_bind (Level_Update level ord) (\<lambda>level.
                let l = l\<lparr>ld_levels := set_level oldPrice level (ld_levels l)\<rparr>;
                    l = (if quantity_IsZero (bo_Quantity ord) then l\<lparr>ld_cache := fmdrop (bo_ID ord) (ld_cache l)\<rparr> else l)
                in Inr (if Level_Empty level then Ladder_removeLevel l oldPrice else l))
              else
                let level = Level_Delete level ord;
                    l = l\<lparr>ld_cache := fmdrop (bo_ID ord) (ld_cache l), ld_levels := set_level oldPrice level (ld_levels l)\<rparr>
                in add (if Level_Empty level then Ladder_removeLevel l oldPrice else l)))"

definition Ladder_RemoveOrder :: "Ladder \<Rightarrow> u64 \<Rightarrow> Ladder call" where
  "Ladder_RemoveOrder l i =
     (case fmlookup (ld_cache l) i of
        None \<Rightarrow> Inr l
      | Some p \<Rightarrow>
        (case Ladder_find l p of
           None \<Rightarrow> Inr l
         | Some level \<Rightarrow>
           if \<not> Level_Contains level i then Inr l
           else call_bind (Level_RemoveByID level i) (\<lambda>level.
                let l = l\<lparr>ld_cache := fmdrop i (ld_cache l), ld_levels := set_level p level (ld_levels l)\<rparr>
                in Inr (if Level_Empty level then Ladder_removeLevel l p else l))))"

definition Ladder_Delete :: "Ladder \<Rightarrow> book_order \<Rightarrow> Ladder call" where
  "Ladder_Delete l ord = Ladder_RemoveOrder l (bo_ID ord)"

definition Ladder_RemoveLevel :: "Ladder \<Rightarrow> BookPrice \<Rightarrow> Level option \<times> Ladder" where
  "Ladder_RemoveLevel l p =
     (case Ladder_find l p of None \<Rightarrow> (None, l)
      | Some level \<Rightarrow> (Some level, l\<lparr>ld_levels := drop_level p (ld_levels l),
          ld_cache := foldl (\<lambda>c ord. fmdrop (bo_ID ord) c) (ld_cache l) (bl_orders level)\<rparr>))"

definition Ladder_Top :: "Ladder \<Rightarrow> Level option" where
  "Ladder_Top l = (case ld_levels l of [] \<Rightarrow> None | level # _ \<Rightarrow> Some level)"

definition Ladder_Sizes :: "Ladder \<Rightarrow> decimal" where
  "Ladder_Sizes l = foldl (\<lambda>total level. decimal_Add total (Level_Size level)) zero_decimal (ld_levels l)"

fun ladder_exposure :: "decimal \<Rightarrow> Level list \<Rightarrow> decimal call" where
  "ladder_exposure acc [] = Inr acc"
| "ladder_exposure acc (level # levels) = call_bind (Level_Exposure level) (\<lambda>x. ladder_exposure (decimal_Add acc x) levels)"

definition Ladder_Exposures :: "Ladder \<Rightarrow> decimal call" where
  "Ladder_Exposures l = ladder_exposure zero_decimal (ld_levels l)"

text \<open>The two loops of \<open>SimulateFills\<close>: the first component says whether the walk has returned.\<close>

fun fill_orders :: "quantity \<Rightarrow> book_order list \<Rightarrow> quantity \<Rightarrow> Fill list \<Rightarrow> (bool \<times> quantity \<times> Fill list) call" where
  "fill_orders wanted [] filled fills = Inr (False, filled, fills)"
| "fill_orders wanted (resting # ords) filled fills =
     (case quantity_Add filled (bo_Quantity resting) of
        None \<Rightarrow> Inl ''fill quantity overflow''
      | Some next \<Rightarrow>
        if 0 \<le> quantity_Cmp next wanted then
          (case quantity_Sub wanted filled of
             None \<Rightarrow> Inl ''negative fill remainder''
           | Some remainder \<Rightarrow>
             Inr (True, filled, if quantity_IsPositive remainder then fills @ [\<lparr>fl_Price = bo_Price resting, fl_Quantity = remainder\<rparr>] else fills))
        else fill_orders wanted ords next (fills @ [\<lparr>fl_Price = bo_Price resting, fl_Quantity = bo_Quantity resting\<rparr>]))"

definition beyond_limit :: "book_side \<Rightarrow> book_order \<Rightarrow> Level \<Rightarrow> bool" where
  "beyond_limit s ord level =
     (s = Buy \<and> price_Cmp (bp_Value (bl_Price level)) (bo_Price ord) < 0 \<or> s = Sell \<and> 0 < price_Cmp (bp_Value (bl_Price level)) (bo_Price ord))"

fun fill_levels :: "book_side \<Rightarrow> book_order \<Rightarrow> Level list \<Rightarrow> quantity \<Rightarrow> Fill list \<Rightarrow> Fill list call" where
  "fill_levels s ord [] filled fills = Inr fills"
| "fill_levels s ord (level # levels) filled fills =
     (if beyond_limit s ord level then Inr fills
      else call_bind (fill_orders (bo_Quantity ord) (bl_orders level) filled fills) (\<lambda>(returned, filled, fills).
           if returned then Inr fills else fill_levels s ord levels filled fills))"

text \<open>A precision above the maximum leaves the zero value of \<open>Quantity\<close>.\<close>

definition SimulateFills :: "Ladder \<Rightarrow> book_order \<Rightarrow> Fill list call" where
  "SimulateFills l ord =
     (let filled = or_value \<lparr>qt_value = zero_decimal, qt_rawOverride = None, qt_undefined = False\<rparr>
            (ZeroQuantity (quantity_Precision (bo_Quantity ord)))
      in fill_levels (ld_Side l) ord (ld_levels l) filled [])"

section \<open>Books\<close>

record Book =
  bk_InstrumentID :: string
  bk_BookType :: BookType
  bk_Bids :: Ladder
  bk_Asks :: Ladder
  bk_Sequence :: u64
  bk_LastTime :: u64
  bk_UpdateCount :: u64

definition NewBook :: "string \<Rightarrow> BookType \<Rightarrow> Book" where
  "NewBook instrument t = \<lparr>bk_InstrumentID = instrument, bk_BookType = t, bk_Bids = NewLadder Buy t, bk_Asks = NewLadder Sell t,
     bk_Sequence = 0, bk_LastTime = 0, bk_UpdateCount = 0\<rparr>"

definition Book_ladder :: "Book \<Rightarrow> book_side \<Rightarrow> Ladder call" where
  "Book_ladder b s = (case s of Buy \<Rightarrow> Inr (bk_Bids b) | Sell \<Rightarrow> Inr (bk_Asks b) | NoSide \<Rightarrow> Inl ''invalid order side'')"

definition set_ladder :: "Book \<Rightarrow> book_side \<Rightarrow> Ladder \<Rightarrow> Book" where
  "set_ladder b s l = (if s = Buy then b\<lparr>bk_Bids := l\<rparr> else b\<lparr>bk_Asks := l\<rparr>)"

definition Book_advance :: "Book \<Rightarrow> u64 \<Rightarrow> u64 \<Rightarrow> Book" where
  "Book_advance b sequence eventTime = b\<lparr>bk_Sequence := sequence, bk_LastTime := eventTime, bk_UpdateCount := bk_UpdateCount b + 1\<rparr>"

definition Book_Add :: "Book \<Rightarrow> book_order \<Rightarrow> 8 word \<Rightarrow> u64 \<Rightarrow> u64 \<Rightarrow> Book call" where
  "Book_Add b ord flags sequence eventTime = call_bind (Book_ladder b (bo_Side ord)) (\<lambda>l. call_bind (Ladder_Add l ord flags) (\<lambda>l.
     Inr (Book_advance (set_ladder b (bo_Side ord) l) sequence eventTime)))"

definition Book_Update :: "Book \<Rightarrow> book_order \<Rightarrow> 8 word \<Rightarrow> u64 \<Rightarrow> u64 \<Rightarrow> Book call" where
  "Book_Update b ord flags sequence eventTime = call_bind (Book_ladder b (bo_Side ord)) (\<lambda>l. call_bind (Ladder_Update l ord flags) (\<lambda>l.
     Inr (Book_advance (set_ladder b (bo_Side ord) l) sequence eventTime)))"

definition Book_Delete :: "Book \<Rightarrow> book_order \<Rightarrow> u64 \<Rightarrow> u64 \<Rightarrow> Book call" where
  "Book_Delete b ord sequence eventTime = call_bind (Book_ladder b (bo_Side ord)) (\<lambda>l. call_bind (Ladder_Delete l ord) (\<lambda>l.
     Inr (Book_advance (set_ladder b (bo_Side ord) l) sequence eventTime)))"

definition Book_Clear :: "Book \<Rightarrow> u64 \<Rightarrow> u64 \<Rightarrow> Book" where
  "Book_Clear b sequence eventTime = Book_advance (b\<lparr>bk_Bids := Ladder_Clear (bk_Bids b), bk_Asks := Ladder_Clear (bk_Asks b)\<rparr>) sequence eventTime"

definition Book_ClearSide :: "Book \<Rightarrow> book_side \<Rightarrow> u64 \<Rightarrow> u64 \<Rightarrow> Book call" where
  "Book_ClearSide b s sequence eventTime = call_bind (Book_ladder b s) (\<lambda>l. Inr (Book_advance (set_ladder b s (Ladder_Clear l)) sequence eventTime))"

definition Book_Reset :: "Book \<Rightarrow> Book" where
  "Book_Reset b = b\<lparr>bk_Bids := Ladder_Clear (bk_Bids b), bk_Asks := Ladder_Clear (bk_Asks b), bk_Sequence := 0, bk_LastTime := 0,
     bk_UpdateCount := 0\<rparr>"

definition bestPrice :: "Ladder \<Rightarrow> price option" where
  "bestPrice l = map_option (\<lambda>level. bp_Value (bl_Price level)) (Ladder_Top l)"

definition Book_Spread :: "Book \<Rightarrow> decimal option" where
  "Book_Spread b = (case (bestPrice (bk_Bids b), bestPrice (bk_Asks b)) of
     (Some bid, Some ask) \<Rightarrow> Some (decimal_Sub (pr_value ask) (pr_value bid)) | _ \<Rightarrow> None)"

definition Book_Midpoint :: "Book \<Rightarrow> decimal option call" where
  "Book_Midpoint b = (case (bestPrice (bk_Bids b), bestPrice (bk_Asks b)) of
     (Some bid, Some ask) \<Rightarrow> call_bind (decimal_Quo (decimal_Add (pr_value bid) (pr_value ask)) (newDecimal 2 0)
         ((max (price_Precision bid) (price_Precision ask) + 1) mod 256) RoundedHalfEven) (\<lambda>mid. Inr (Some mid))
   | _ \<Rightarrow> Inr None)"

definition Book_Integrity :: "Book \<Rightarrow> bool" where
  "Book_Integrity b = (case (bestPrice (bk_Bids b), bestPrice (bk_Asks b)) of (Some bid, Some ask) \<Rightarrow> \<not> 0 < price_Cmp bid ask | _ \<Rightarrow> True)"

definition opposite :: "book_side \<Rightarrow> book_side call" where
  "opposite s = (case s of Buy \<Rightarrow> Inr Sell | Sell \<Rightarrow> Inr Buy | NoSide \<Rightarrow> Inl ''invalid order side'')"

definition opposite_ladder :: "Book \<Rightarrow> book_side \<Rightarrow> Ladder call" where
  "opposite_ladder b incoming = call_bind (opposite incoming) (Book_ladder b)"

definition QuantityAtLevel :: "Book \<Rightarrow> price \<Rightarrow> book_side \<Rightarrow> decimal call" where
  "QuantityAtLevel b p incoming = call_bind (opposite_ladder b incoming) (\<lambda>l. call_bind (opposite incoming) (\<lambda>s.
     Inr (case Ladder_find l (NewBookPrice p s) of None \<Rightarrow> zero_decimal | Some level \<Rightarrow> Level_Size level)))"

definition OrdersAtLevel :: "Book \<Rightarrow> price \<Rightarrow> book_side \<Rightarrow> book_order list call" where
  "OrdersAtLevel b p incoming = call_bind (opposite_ladder b incoming) (\<lambda>l. call_bind (opposite incoming) (\<lambda>s.
     Inr (case Ladder_find l (NewBookPrice p s) of None \<Rightarrow> [] | Some level \<Rightarrow> bl_orders level)))"

text \<open>The levels an incoming order with a limit reaches, in order.\<close>

definition past_limit :: "book_side \<Rightarrow> price \<Rightarrow> Level \<Rightarrow> bool" where
  "past_limit incoming p level =
     (incoming = Buy \<and> 0 < price_Cmp (bp_Value (bl_Price level)) p \<or> incoming = Sell \<and> price_Cmp (bp_Value (bl_Price level)) p < 0)"

definition LevelsForPrice :: "Book \<Rightarrow> price \<Rightarrow> book_side \<Rightarrow> Level list call" where
  "LevelsForPrice b p incoming = call_bind (opposite_ladder b incoming) (\<lambda>l.
     Inr (takeWhile (\<lambda>level. \<not> past_limit incoming p level) (ld_levels l)))"

definition QuantityForPrice :: "Book \<Rightarrow> price \<Rightarrow> book_side \<Rightarrow> decimal call" where
  "QuantityForPrice b p incoming = call_bind (opposite_ladder b incoming) (\<lambda>l.
     Inr (foldl (\<lambda>total level. decimal_Add total (Level_Size level)) zero_decimal
            (takeWhile (\<lambda>level. \<not> past_limit incoming p level) (ld_levels l))))"

fun average_walk :: "Level list \<Rightarrow> decimal \<Rightarrow> decimal \<Rightarrow> decimal \<Rightarrow> (decimal \<times> decimal) call" where
  "average_walk [] remaining exposure filled = Inr (exposure, filled)"
| "average_walk (level # levels) remaining exposure filled =
     (if decimal_IsZero remaining then Inr (exposure, filled)
      else let take = Level_Size level;
               take = (if 0 < decimal_Cmp take remaining then remaining else take)
           in call_bind (decimal_Mul (pr_value (bp_Value (bl_Price level))) take) (\<lambda>x.
              average_walk levels (decimal_Sub remaining take) (decimal_Add exposure x) (decimal_Add filled take)))"

definition AveragePriceForQuantity :: "Book \<Rightarrow> quantity \<Rightarrow> book_side \<Rightarrow> (decimal \<times> bool) call" where
  "AveragePriceForQuantity b q incoming = call_bind (opposite_ladder b incoming) (\<lambda>l.
     call_bind (average_walk (ld_levels l) (qt_value q) zero_decimal zero_decimal) (\<lambda>(exposure, filled).
     if decimal_IsZero filled then Inr (zero_decimal, False)
     else call_bind (decimal_Quo exposure filled MaxPrecision RoundedHalfEven) (\<lambda>v. Inr (decimal_Normalize v, True))))"

fun worst_walk :: "Level list \<Rightarrow> decimal \<Rightarrow> price option \<Rightarrow> price option" where
  "worst_walk [] remaining result = result"
| "worst_walk (level # levels) remaining result =
     (let remaining = decimal_Sub remaining (Level_Size level)
      in if decimal_Sign remaining \<le> 0 then Some (bp_Value (bl_Price level))
         else worst_walk levels remaining (Some (bp_Value (bl_Price level))))"

definition WorstPriceForQuantity :: "Book \<Rightarrow> quantity \<Rightarrow> book_side \<Rightarrow> price option call" where
  "WorstPriceForQuantity b q incoming = call_bind (opposite_ladder b incoming) (\<lambda>l. Inr (worst_walk (ld_levels l) (qt_value q) None))"

definition removeCrossed :: "Ladder \<Rightarrow> price \<Rightarrow> bool \<Rightarrow> Level list \<times> Ladder" where
  "removeCrossed l p asks =
     (let crossed = (\<lambda>level. let c = price_Cmp (bp_Value (bl_Price level)) p in asks \<and> c \<le> 0 \<or> \<not> asks \<and> 0 \<le> c);
          removed = filter crossed (ld_levels l)
      in (removed, l\<lparr>ld_levels := filter (\<lambda>level. \<not> crossed level) (ld_levels l),
           ld_cache := foldl (\<lambda>c ord. fmdrop (bo_ID ord) c) (ld_cache l) (concat (map bl_orders removed))\<rparr>))"

definition ClearStaleLevels :: "Book \<Rightarrow> book_side option \<Rightarrow> Level list \<times> Book" where
  "ClearStaleLevels b side =
     (if bk_BookType b = L1MBP then ([], b)
      else case (bestPrice (bk_Bids b), bestPrice (bk_Asks b)) of
        (Some bid, Some ask) \<Rightarrow>
          if price_Cmp bid ask < 0 then ([], b)
          else let clearBoth = (side = None \<or> side = Some NoSide);
                   (removedBids, b) = (if clearBoth \<or> side = Some Buy
                      then (case removeCrossed (bk_Bids b) ask False of (r, l) \<Rightarrow> (r, b\<lparr>bk_Bids := l\<rparr>)) else ([], b));
                   (removedAsks, b) = (if clearBoth \<or> side = Some Sell
                      then (case removeCrossed (bk_Asks b) bid True of (r, l) \<Rightarrow> (r, b\<lparr>bk_Asks := l\<rparr>)) else ([], b));
                   removed = removedBids @ removedAsks
               in if removed = [] then ([], b) else (removed, b\<lparr>bk_UpdateCount := bk_UpdateCount b + 1\<rparr>)
      | _ \<Rightarrow> ([], b))"

end
