(* ===== verification/OrderBookQueues.thy ===== *)
theory OrderBookQueues
  imports OrderBook
begin

text \<open>
  What a ladder promises (\<open>internal/matching/orderbook/ladder.go\<close>): it keeps its levels strictly ordered from the best price, its
  index and its cache consistent, and it implements a family of first-in-first-out queues, one for each price.
\<close>

section \<open>Invariant\<close>

definition book_value :: "BookPrice \<Rightarrow> rat" where "book_value p = dec_value (pr_value (bp_Value p))"
definition level_value :: "Level \<Rightarrow> rat" where "level_value level = book_value (bl_Price level)"
definition order_value :: "book_order \<Rightarrow> rat" where "order_value ord = dec_value (pr_value (bo_Price ord))"

definition book_price_ok :: "book_side \<Rightarrow> BookPrice \<Rightarrow> bool" where
  "book_price_ok s p = (bp_Side p = s \<and> pr_kind (bp_Value p) = priceNormal)"

definition order_ok :: "book_side \<Rightarrow> book_order \<Rightarrow> bool" where
  "order_ok s ord = (bo_Side ord = s \<and> pr_kind (bo_Price ord) = priceNormal)"

definition index_ok :: "Level \<Rightarrow> bool" where
  "index_ok level = (\<forall>i k. fmlookup (bl_index level) i = Some k \<longleftrightarrow> k < length (bl_orders level) \<and> bo_ID (bl_orders level ! k) = i)"

definition level_ids :: "Level \<Rightarrow> u64 set" where "level_ids level = bo_ID ` set (bl_orders level)"

definition level_ok :: "book_side \<Rightarrow> Level \<Rightarrow> bool" where
  "level_ok s level = (book_price_ok s (bl_Price level) \<and> index_ok level
     \<and> (\<forall>ord\<in>set (bl_orders level). order_ok s ord \<and> order_value ord = level_value level \<and> quantity_IsPositive (bo_Quantity ord)))"

definition better :: "book_side \<Rightarrow> rat \<Rightarrow> rat \<Rightarrow> bool" where
  "better s x y = (if s = Buy then y < x else x < y)"

definition levels_ok :: "book_side \<Rightarrow> Level list \<Rightarrow> bool" where
  "levels_ok s levels = (sorted_wrt (\<lambda>x y. better s (level_value x) (level_value y)) levels
     \<and> (\<forall>level\<in>set levels. level_ok s level \<and> bl_orders level \<noteq> []))"

definition cache_ok :: "book_side \<Rightarrow> (u64, BookPrice) fmap \<Rightarrow> Level list \<Rightarrow> bool" where
  "cache_ok s cache levels =
     ((\<forall>i p. fmlookup cache i = Some p \<longrightarrow> book_price_ok s p \<and> (\<exists>level\<in>set levels. level_value level = book_value p \<and> i \<in> level_ids level))
      \<and> (\<forall>level\<in>set levels. \<forall>i\<in>level_ids level. \<exists>p. fmlookup cache i = Some p \<and> book_value p = level_value level))"

definition ladder_ok :: "Ladder \<Rightarrow> bool" where
  "ladder_ok l = (levels_ok (ld_Side l) (ld_levels l) \<and> cache_ok (ld_Side l) (ld_cache l) (ld_levels l))"

section \<open>Queues\<close>

definition queues :: "Level list \<Rightarrow> rat \<Rightarrow> book_order list" where
  "queues levels v = concat (map bl_orders (filter (\<lambda>level. level_value level = v) levels))"

definition queue :: "Ladder \<Rightarrow> rat \<Rightarrow> book_order list" where "queue l = queues (ld_levels l)"

definition enqueue :: "book_order \<Rightarrow> (rat \<Rightarrow> book_order list) \<Rightarrow> rat \<Rightarrow> book_order list" where
  "enqueue ord q = q(order_value ord := q (order_value ord) @ [ord])"

definition dequeue :: "u64 \<Rightarrow> (rat \<Rightarrow> book_order list) \<Rightarrow> rat \<Rightarrow> book_order list" where
  "dequeue i q = (\<lambda>v. filter (\<lambda>ord. bo_ID ord \<noteq> i) (q v))"

definition replaced :: "book_order \<Rightarrow> book_order list \<Rightarrow> book_order list" where
  "replaced ord = map (\<lambda>x. if bo_ID x = bo_ID ord then ord else x)"

text \<open>An order that is in the queue of its price keeps its place; any other leaves its queue and joins the end of its price's.\<close>

definition requeue :: "book_order \<Rightarrow> (rat \<Rightarrow> book_order list) \<Rightarrow> rat \<Rightarrow> book_order list" where
  "requeue ord q = (if bo_ID ord \<in> bo_ID ` set (q (order_value ord)) then q(order_value ord := replaced ord (q (order_value ord)))
     else enqueue ord (dequeue (bo_ID ord) q))"

section \<open>Levels\<close>

lemma price_Equal_value: "pr_kind p = priceNormal \<Longrightarrow> pr_kind q = priceNormal \<Longrightarrow> price_Equal p q \<longleftrightarrow> dec_value (pr_value p) = dec_value (pr_value q)"
  by (simp add: price_Equal_def)

lemma BookPrice_Equal_value: "book_price_ok s p \<Longrightarrow> book_price_ok s q \<Longrightarrow> BookPrice_Equal p q \<longleftrightarrow> book_value p = book_value q"
  by (auto simp: book_price_ok_def BookPrice_Equal_def price_Equal_value book_value_def)

lemma index_ok_distinct: "index_ok level \<Longrightarrow> distinct (map bo_ID (bl_orders level))"
  unfolding index_ok_def distinct_conv_nth by (auto simp: nth_map) (metis option.inject)

lemma index_ok_lookup: "index_ok level \<Longrightarrow> fmlookup (bl_index level) i = Some k \<longleftrightarrow> k < length (bl_orders level) \<and> bo_ID (bl_orders level ! k) = i"
  by (simp add: index_ok_def)

lemma index_ok_mem:
  assumes "index_ok level"
  shows "i \<in> level_ids level \<longleftrightarrow> fmlookup (bl_index level) i \<noteq> None"
proof -
  have "i \<in> level_ids level \<longleftrightarrow> (\<exists>k. k < length (bl_orders level) \<and> bo_ID (bl_orders level ! k) = i)"
    unfolding level_ids_def image_iff in_set_conv_nth Bex_def by metis
  also have "\<dots> \<longleftrightarrow> (\<exists>k. fmlookup (bl_index level) i = Some k)" by (simp add: index_ok_lookup [OF assms])
  finally show ?thesis by simp
qed

lemma Level_Contains_iff: "index_ok level \<Longrightarrow> Level_Contains level i \<longleftrightarrow> i \<in> level_ids level"
  by (simp add: Level_Contains_def index_ok_mem)

lemma replaced_update:
  assumes "distinct (map bo_ID xs)" "k < length xs" "bo_ID (xs ! k) = bo_ID ord"
  shows "replaced ord xs = xs[k := ord]"
proof (rule nth_equalityI)
  fix i
  assume i: "i < length (replaced ord xs)"
  then have "bo_ID (xs ! i) = bo_ID ord \<longleftrightarrow> i = k" using assms nth_eq_iff_index_eq [OF assms(1), of i k] by (auto simp: replaced_def)
  then show "replaced ord xs ! i = xs[k := ord] ! i" using i by (simp add: replaced_def nth_list_update)
qed (simp add: replaced_def)

lemma index_ok_update: "index_ok level \<Longrightarrow> fmlookup (bl_index level) (bo_ID ord) = Some k \<Longrightarrow> index_ok (level\<lparr>bl_orders := (bl_orders level)[k := ord]\<rparr>)"
  unfolding index_ok_def by (auto simp: nth_list_update)

lemma index_ok_append:
  assumes "index_ok level" "fmlookup (bl_index level) (bo_ID ord) = None"
  shows "index_ok (level\<lparr>bl_index := fmupd (bo_ID ord) (length (bl_orders level)) (bl_index level), bl_orders := bl_orders level @ [ord]\<rparr>)"
proof -
  have "bo_ID ord \<notin> level_ids level" using index_ok_mem [OF assms(1)] assms(2) by simp
  then have "k < length (bl_orders level) \<Longrightarrow> bo_ID (bl_orders level ! k) \<noteq> bo_ID ord" for k
    unfolding level_ids_def by (metis imageI nth_mem)
  then show ?thesis using index_ok_lookup [OF assms(1)] unfolding index_ok_def by (auto simp: nth_append less_Suc_eq)
qed

lemma Level_Add_queue:
  assumes "level_ok s level" "order_ok s ord" "order_value ord = level_value level" "quantity_IsPositive (bo_Quantity ord)"
  shows "\<exists>level'. Level_Add level ord = Inr level' \<and> level_ok s level' \<and> bl_Price level' = bl_Price level \<and> bl_orders level'
    = (if bo_ID ord \<in> level_ids level then replaced ord (bl_orders level) else bl_orders level @ [ord])"
proof -
  have p: "requirePrice level ord = Inr ()" using assms(1-3)
    by (simp add: requirePrice_def price_Equal_value level_ok_def book_price_ok_def order_ok_def order_value_def level_value_def book_value_def)
  have i: "index_ok level" using assms(1) by (simp add: level_ok_def)
  show ?thesis
  proof (cases "fmlookup (bl_index level) (bo_ID ord)")
    case None
    then show ?thesis using assms p index_ok_append [OF i None] index_ok_mem [OF i]
      by (auto simp: Level_Add_def level_ok_def level_value_def)
  next
    case (Some k)
    then have k: "k < length (bl_orders level)" "bo_ID (bl_orders level ! k) = bo_ID ord" using i by (auto simp: index_ok_def)
    have r: "replaced ord (bl_orders level) = (bl_orders level)[k := ord]" using replaced_update [OF index_ok_distinct [OF i] k] .
    show ?thesis using assms p Some index_ok_update [OF i Some] index_ok_mem [OF i] set_update_subset_insert [of "bl_orders level" k ord]
      by (auto simp: Level_Add_def level_ok_def level_value_def r)
  qed
qed

lemma reindexed:
  "fmlookup (foldl (\<lambda>m k. fmupd (bo_ID (xs ! k)) k m) m [j ..< n]) i
     = (case find (\<lambda>k. bo_ID (xs ! k) = i) (rev [j ..< n]) of Some k \<Rightarrow> Some k | None \<Rightarrow> fmlookup m i)"
  by (induction n) (auto split: option.split)

lemma Level_remove_queue:
  assumes "level_ok s level"
  shows "if i \<in> level_ids level then \<exists>level'. Level_remove level i = Some level' \<and> level_ok s level' \<and> bl_Price level' = bl_Price level
      \<and> bl_orders level' = filter (\<lambda>ord. bo_ID ord \<noteq> i) (bl_orders level)
    else Level_remove level i = None"
proof (cases "fmlookup (bl_index level) i")
  case None
  then show ?thesis using assms index_ok_mem [of level i] by (simp add: level_ok_def Level_remove_def)
next
  case (Some k)
  have ok: "index_ok level" using assms by (simp add: level_ok_def)
  define xs where "xs = bl_orders level"
  define ys where "ys = take k xs @ drop (Suc k) xs"
  have k: "k < length xs" "bo_ID (xs ! k) = i" using Some index_ok_lookup [OF ok] by (simp_all add: xs_def)
  have d: "distinct (map bo_ID xs)" using index_ok_distinct [OF ok] by (simp add: xs_def)
  have split: "xs = take k xs @ xs ! k # drop (Suc k) xs" using k(1) by (rule id_take_nth_drop)
  have "i \<notin> bo_ID ` set ys" using d k(2) by (subst (asm) split) (auto simp: ys_def)
  then have "filter (\<lambda>ord. bo_ID ord \<noteq> i) ys = ys" by (auto simp: filter_id_conv)
  moreover have "filter (\<lambda>ord. bo_ID ord \<noteq> i) xs = filter (\<lambda>ord. bo_ID ord \<noteq> i) (take k xs @ xs ! k # drop (Suc k) xs)"
    using split by (rule arg_cong)
  ultimately have ys: "ys = filter (\<lambda>ord. bo_ID ord \<noteq> i) xs" using k(2) by (simp add: ys_def)
  have len: "length ys = length xs - 1" using k(1) by (simp add: ys_def)
  have yn: "ys ! n = (if n < k then xs ! n else xs ! Suc n)" if "n < length ys" for n
    using that k(1) by (auto simp: ys_def nth_append min_def)
  have dy: "distinct (map bo_ID ys)" using d by (simp add: ys distinct_map_filter)
  define m where "m = foldl (\<lambda>m n. fmupd (bo_ID (ys ! n)) n m) (fmdrop i (bl_index level)) [k ..< length ys]"
  have m: "fmlookup m j = Some n \<longleftrightarrow> n < length ys \<and> bo_ID (ys ! n) = j" for j n
  proof (cases "find (\<lambda>n. bo_ID (ys ! n) = j) (rev [k ..< length ys])")
    case found: (Some n')
    then have "n' < length ys" "bo_ID (ys ! n') = j" by (auto simp: find_Some_iff rev_nth)
    then have "n < length ys \<and> bo_ID (ys ! n) = j \<longleftrightarrow> n' = n" using nth_eq_iff_index_eq [OF dy, of n n'] by auto
    then show ?thesis using found by (simp add: m_def reindexed)
  next
    case none: None
    then have n': "bo_ID (ys ! n) \<noteq> j" if "k \<le> n" "n < length ys" for n using that by (auto simp: find_None_iff)
    have "fmlookup m j = (if j = i then None else fmlookup (bl_index level) j)" using none by (simp add: m_def reindexed)
    moreover have "n < length xs \<and> bo_ID (xs ! n) = j \<and> j \<noteq> i \<longleftrightarrow> n < length ys \<and> bo_ID (ys ! n) = j"
    proof
      assume a: "n < length xs \<and> bo_ID (xs ! n) = j \<and> j \<noteq> i"
      show "n < length ys \<and> bo_ID (ys ! n) = j"
      proof (cases "n < k")
        case True
        then show ?thesis using a k(1) len yn [of n] by simp
      next
        case False
        then have "k < n" using a k(2) by (cases "n = k") auto
        then obtain n0 where "n = Suc n0" "k \<le> n0" by (cases n) auto
        moreover from this a len have "n0 < length ys" by linarith
        ultimately show ?thesis using a n' [of n0] yn [of n0] by auto
      qed
    next
      assume a: "n < length ys \<and> bo_ID (ys ! n) = j"
      then have "n < k" using n' not_less by blast
      moreover have "j \<noteq> i" using a \<open>i \<notin> bo_ID ` set ys\<close> nth_mem by blast
      ultimately show "n < length xs \<and> bo_ID (xs ! n) = j \<and> j \<noteq> i" using a yn [of n] len by auto
    qed
    ultimately show ?thesis using index_ok_lookup [OF ok, of j n] by (auto simp: xs_def)
  qed
  have "Level_remove level i = Some (level\<lparr>bl_orders := ys, bl_index := m\<rparr>)" using Some by (simp add: Level_remove_def Let_def m_def ys_def xs_def)
  moreover have "level_ok s (level\<lparr>bl_orders := ys, bl_index := m\<rparr>)" using assms m by (auto simp: level_ok_def index_ok_def level_value_def ys xs_def)
  moreover have "i \<in> level_ids level" using Some index_ok_mem [OF ok] by simp
  ultimately show ?thesis by (simp add: ys xs_def)
qed

section \<open>Lists of levels\<close>

lemma find_level:
  assumes "find (\<lambda>level. BookPrice_Equal (bl_Price level) p) levels = Some level"
  shows "\<exists>xs ys. levels = xs @ level # ys \<and> (\<forall>new. set_level p new levels = xs @ new # ys) \<and> drop_level p levels = xs @ ys \<and> BookPrice_Equal (bl_Price level) p"
  using assms
proof (induction levels)
  case (Cons x levels)
  show ?case
  proof (cases "BookPrice_Equal (bl_Price x) p")
    case True
    then show ?thesis using Cons.prems by (intro exI [of _ "[]"] exI [of _ levels]) simp
  next
    case False
    then obtain xs ys where "levels = xs @ level # ys" "\<forall>new. set_level p new levels = xs @ new # ys" "drop_level p levels = xs @ ys" "BookPrice_Equal (bl_Price level) p"
      using Cons by auto
    then show ?thesis using False by (intro exI [of _ "x # xs"] exI [of _ ys]) simp
  qed
qed simp

lemma levels_okD: "levels_ok s levels \<Longrightarrow> level \<in> set levels \<Longrightarrow> level_ok s level" "levels_ok s levels \<Longrightarrow> level \<in> set levels \<Longrightarrow> bl_orders level \<noteq> []"
  by (simp_all add: levels_ok_def)

lemma better_irrefl: "better s x y \<Longrightarrow> x \<noteq> y" by (auto simp: better_def split: if_splits)
lemma better_trans: "better s x y \<Longrightarrow> better s y z \<Longrightarrow> better s x z" by (auto simp: better_def split: if_splits)
lemma better_linear: "x \<noteq> y \<Longrightarrow> \<not> better s x y \<Longrightarrow> better s y x" by (auto simp: better_def split: if_splits)

lemma other_levels: "levels_ok s (xs @ level # ys) \<Longrightarrow> x \<in> set xs \<union> set ys \<Longrightarrow> level_value x \<noteq> level_value level"
  unfolding levels_ok_def sorted_wrt_append by (metis Un_iff better_irrefl list.set_intros(1) sorted_wrt.simps(2))

lemma Ladder_find_cases:
  assumes "levels_ok s (ld_levels l)" "book_price_ok s p"
  shows "case Ladder_find l p of
      None \<Rightarrow> (\<forall>level\<in>set (ld_levels l). level_value level \<noteq> book_value p) \<and> queue l (book_value p) = []
    | Some level \<Rightarrow> (\<exists>xs ys. ld_levels l = xs @ level # ys \<and> (\<forall>new. set_level p new (ld_levels l) = xs @ new # ys)
        \<and> drop_level p (ld_levels l) = xs @ ys \<and> (\<forall>x\<in>set (xs @ ys). level_value x \<noteq> book_value p)) \<and> level_value level = book_value p
        \<and> queue l (book_value p) = bl_orders level \<and> level_ok s level"
proof (cases "Ladder_find l p")
  case None
  then have "\<not> BookPrice_Equal (bl_Price level) p" if "level \<in> set (ld_levels l)" for level using that by (auto simp: Ladder_find_def find_None_iff)
  then have "level_value level \<noteq> book_value p" if "level \<in> set (ld_levels l)" for level
    using that BookPrice_Equal_value [of s "bl_Price level" p] assms(2) levels_okD(1) [OF assms(1) that] by (auto simp: level_ok_def level_value_def)
  then show ?thesis using None by (auto simp: queue_def queues_def)
next
  case (Some level)
  then obtain xs ys where l: "ld_levels l = xs @ level # ys" "\<forall>new. set_level p new (ld_levels l) = xs @ new # ys" "drop_level p (ld_levels l) = xs @ ys"
    "BookPrice_Equal (bl_Price level) p" using find_level [of p "ld_levels l" level] by (auto simp: Ladder_find_def)
  have ok: "level_ok s level" using levels_okD(1) [OF assms(1)] l(1) by simp
  then have v: "level_value level = book_value p" using l(4) assms(2) BookPrice_Equal_value [of s "bl_Price level" p] by (simp add: level_ok_def level_value_def)
  have n: "level_value x \<noteq> book_value p" if "x \<in> set (xs @ ys)" for x
    using other_levels [of s xs level ys x] assms(1) that unfolding l(1) v by simp
  then have "filter (\<lambda>x. level_value x = book_value p) (xs @ ys) = []" by (auto simp: filter_empty_conv)
  then have "queue l (book_value p) = bl_orders level" using v by (simp add: queue_def queues_def l(1))
  then show ?thesis using Some l v n ok by auto
qed

lemma sift_level_spec:
  assumes "\<forall>y\<in>set ys. bp_Side (bl_Price y) = s" "bp_Side (bl_Price x) = s"
  shows "\<exists>us vs. ys = us @ vs \<and> sift_level x ys = Inr (us @ x # vs) \<and> (\<forall>u\<in>set us. better s (level_value x) (level_value u))
    \<and> (vs \<noteq> [] \<longrightarrow> \<not> better s (level_value x) (level_value (hd vs)))"
  using assms(1)
proof (induction ys)
  case Nil
  then show ?case by simp
next
  case (Cons y ys)
  have c: "BookPrice_Compare (bl_Price x) (bl_Price y) = Inr k \<Longrightarrow> k < 0 \<longleftrightarrow> better s (level_value x) (level_value y)" for k
    using Cons.prems assms(2) by (auto simp: BookPrice_Compare_def Let_def price_Cmp_def better_def level_value_def book_value_def)
  obtain k where k: "BookPrice_Compare (bl_Price x) (bl_Price y) = Inr k" using Cons.prems assms(2) by (auto simp: BookPrice_Compare_def Let_def)
  show ?case
  proof (cases "k < 0")
    case True
    obtain us vs where "ys = us @ vs" "sift_level x ys = Inr (us @ x # vs)" "\<forall>u\<in>set us. better s (level_value x) (level_value u)"
      "vs \<noteq> [] \<longrightarrow> \<not> better s (level_value x) (level_value (hd vs))" using Cons by auto
    then show ?thesis using True k c by (intro exI [of _ "y # us"] exI [of _ vs]) simp
  next
    case False
    then show ?thesis using k c by (intro exI [of _ "[]"] exI [of _ "y # ys"]) simp
  qed
qed

lemma sort_levels_sorted:
  assumes "sorted_wrt (\<lambda>x y. better s (level_value x) (level_value y)) (rev pre @ xs)" "\<forall>y\<in>set pre \<union> set xs. bp_Side (bl_Price y) = s"
  shows "sort_levels pre (xs @ zs) = sort_levels (rev xs @ pre) zs"
  using assms
proof (induction xs arbitrary: pre)
  case (Cons x xs)
  note prems = Cons.prems
  have "sift_level x pre = Inr (x # pre)"
  proof (cases pre)
    case (Cons y ys)
    have "better s (level_value y) (level_value x)" using prems(1) by (simp add: Cons sorted_wrt_append)
    then have "\<not> better s (level_value x) (level_value y)" by (auto simp: better_def split: if_splits)
    then show ?thesis using prems(2)
      by (auto simp: Cons BookPrice_Compare_def Let_def price_Cmp_def better_def level_value_def book_value_def split: if_splits)
  qed simp
  then show ?case using Cons.IH [of "x # pre"] prems by simp
qed simp

lemma sortLevels_inserts:
  assumes ok: "levels_ok s (ld_levels l)" and x: "bp_Side (bl_Price x) = s" "\<forall>level\<in>set (ld_levels l). level_value level \<noteq> level_value x"
  shows "\<exists>xs ys. ld_levels l = xs @ ys \<and> sortLevels (l\<lparr>ld_levels := ld_levels l @ [x]\<rparr>) = Inr (l\<lparr>ld_levels := xs @ x # ys\<rparr>)
    \<and> sorted_wrt (\<lambda>x y. better s (level_value x) (level_value y)) (xs @ x # ys)"
proof -
  let ?ls = "ld_levels l" and ?b = "\<lambda>x y. better s (level_value x) (level_value y)"
  have s: "sorted_wrt ?b ?ls" "\<forall>y\<in>set ?ls. bp_Side (bl_Price y) = s" using ok by (auto simp: levels_ok_def level_ok_def book_price_ok_def)
  obtain us vs where u: "rev ?ls = us @ vs" "sift_level x (rev ?ls) = Inr (us @ x # vs)" "\<forall>u\<in>set us. ?b x u" "vs \<noteq> [] \<longrightarrow> \<not> ?b x (hd vs)"
    using sift_level_spec [of "rev ?ls" s x] s(2) x(1) unfolding set_rev by blast
  have l: "?ls = rev vs @ rev us" using u(1) by (metis rev_append rev_rev_ident)
  have "?b v x" if v: "v \<in> set vs" for v
  proof -
    obtain w ws where w: "vs = w # ws" using v by (cases vs) auto
    have "?b w x" using u(4) w x(2) l by (intro better_linear) auto
    moreover have "v = w \<or> ?b v w" using s(1) v unfolding l w by (auto simp: sorted_wrt_append)
    ultimately show ?thesis using better_trans by blast
  qed
  then have "sorted_wrt ?b (rev vs @ x # rev us)" using s(1) u(3) better_trans unfolding l by (auto simp: sorted_wrt_append)
  moreover have "sortLevels (l\<lparr>ld_levels := ?ls @ [x]\<rparr>) = Inr (l\<lparr>ld_levels := rev vs @ x # rev us\<rparr>)"
    using sort_levels_sorted [of s "[]" ?ls "[x]"] s u(2) by (simp add: sortLevels_def)
  ultimately show ?thesis using l by blast
qed

section \<open>Changes of one level\<close>

lemma ladder_okD:
  assumes "ladder_ok l"
  shows "levels_ok (ld_Side l) (ld_levels l)" "cache_ok (ld_Side l) (ld_cache l) (ld_levels l)"
  using assms by (simp_all add: ladder_ok_def)

text \<open>Replacing or dropping a level that holds a price.\<close>

lemma queues_simps: "queues (level # ys) v = (if level_value level = v then bl_orders level else []) @ queues ys v"
  "queues (xs @ ys) v = queues xs v @ queues ys v"
  by (simp_all add: queues_def)

lemma queues_absent: "\<forall>x\<in>set xs. level_value x \<noteq> v \<Longrightarrow> queues xs v = []"
  by (auto simp: queues_def)

lemma replaced_level:
  assumes ok: "levels_ok s (xs @ level # ys)" and new: "level_value new = level_value level" "level_ok s new"
  shows "bl_orders new \<noteq> [] \<Longrightarrow> levels_ok s (xs @ new # ys)" "levels_ok s (xs @ ys)"
    "queues (xs @ new # ys) = (queues (xs @ level # ys))(level_value level := bl_orders new)"
    "bl_orders new = [] \<Longrightarrow> queues (xs @ ys) = (queues (xs @ level # ys))(level_value level := bl_orders new)"
proof -
  show "bl_orders new \<noteq> [] \<Longrightarrow> levels_ok s (xs @ new # ys)" "levels_ok s (xs @ ys)"
    using ok new by (auto simp: levels_ok_def sorted_wrt_append)
  have "\<forall>x\<in>set xs \<union> set ys. level_value x \<noteq> level_value level"
    using other_levels [OF ok] by blast
  then have "queues xs (level_value level) = []" "queues ys (level_value level) = []" by (simp_all add: queues_absent)
  then show "queues (xs @ new # ys) = (queues (xs @ level # ys))(level_value level := bl_orders new)"
    "bl_orders new = [] \<Longrightarrow> queues (xs @ ys) = (queues (xs @ level # ys))(level_value level := bl_orders new)"
    by (auto simp: fun_eq_iff queues_simps new(1))
qed

text \<open>Where the cache says an order is.\<close>

lemma queue_ids:
  assumes "levels_ok s levels"
  shows "i \<in> bo_ID ` set (queues levels v) \<longleftrightarrow> (\<exists>level\<in>set levels. level_value level = v \<and> i \<in> level_ids level)"
  by (auto simp: queues_def level_ids_def)

lemma cache_ok_queues:
  assumes "levels_ok s levels"
  shows "cache_ok s cache levels \<longleftrightarrow> (\<forall>i p. fmlookup cache i = Some p \<longrightarrow> book_price_ok s p)
    \<and> (\<forall>i v. i \<in> bo_ID ` set (queues levels v) \<longleftrightarrow> (\<exists>p. fmlookup cache i = Some p \<and> book_value p = v))"
  unfolding cache_ok_def queue_ids [OF assms] by (auto; metis option.inject)

lemma ladder_ok_queues:
  "ladder_ok l \<longleftrightarrow> levels_ok (ld_Side l) (ld_levels l) \<and> (\<forall>i p. fmlookup (ld_cache l) i = Some p \<longrightarrow> book_price_ok (ld_Side l) p)
    \<and> (\<forall>i v. i \<in> bo_ID ` set (queue l v) \<longleftrightarrow> (\<exists>p. fmlookup (ld_cache l) i = Some p \<and> book_value p = v))"
  unfolding ladder_ok_def queue_def using cache_ok_queues [of "ld_Side l" "ld_levels l" "ld_cache l"] by blast

lemma dequeue_absent: "(\<And>v. i \<notin> bo_ID ` set (q v)) \<Longrightarrow> dequeue i q = q"
  unfolding dequeue_def by (rule ext) (force simp: filter_id_conv)

lemma dequeue_at: "(\<And>w. w \<noteq> v \<Longrightarrow> i \<notin> bo_ID ` set (q w)) \<Longrightarrow> dequeue i q = q(v := filter (\<lambda>ord. bo_ID ord \<noteq> i) (q v))"
  unfolding dequeue_def by (rule ext) (force simp: filter_id_conv)

lemma dequeue_ids: "j \<in> bo_ID ` set (dequeue i q v) \<longleftrightarrow> j \<noteq> i \<and> j \<in> bo_ID ` set (q v)"
  by (auto simp: dequeue_def)

lemma replaced_ids: "bo_ID ` set (replaced ord xs) = bo_ID ` set xs"
  unfolding replaced_def set_map image_image by (rule image_cong) auto

lemma requeue_ids:
  assumes "\<And>v. bo_ID ord \<in> bo_ID ` set (q v) \<Longrightarrow> bo_ID ord \<in> bo_ID ` set (q (order_value ord)) \<Longrightarrow> v = order_value ord"
  shows "j \<in> bo_ID ` set (requeue ord q v) \<longleftrightarrow> (if j = bo_ID ord then v = order_value ord else j \<in> bo_ID ` set (q v))"
proof (cases "bo_ID ord \<in> bo_ID ` set (q (order_value ord))")
  case True
  then have "bo_ID ` set (requeue ord q v) = bo_ID ` set (q v)" by (simp add: requeue_def replaced_ids)
  then show ?thesis using assms [of v] True by (cases "v = order_value ord") auto
next
  case False
  then have "bo_ID ` set (requeue ord q v) = bo_ID ` set (dequeue (bo_ID ord) q v) \<union> (if v = order_value ord then {bo_ID ord} else {})"
    by (simp add: requeue_def enqueue_def)
  then show ?thesis using dequeue_ids [of j "bo_ID ord" q v] by simp
qed

lemma bookPrice_ok: "order_ok s ord \<Longrightarrow> book_price_ok s (bookPrice ord) \<and> book_value (bookPrice ord) = order_value ord"
  by (simp add: order_ok_def book_price_ok_def bookPrice_def NewBookPrice_def book_value_def order_value_def)

lemma LevelFromOrder_ok:
  assumes "order_ok s ord" "quantity_IsPositive (bo_Quantity ord)"
  shows "\<exists>level. LevelFromOrder ord = Inr level \<and> level_ok s level \<and> level_value level = order_value ord \<and> bl_orders level = [ord]"
proof -
  have n: "level_ok s (NewLevel (bookPrice ord))" "order_value ord = level_value (NewLevel (bookPrice ord))"
    using bookPrice_ok [OF assms(1)] by (simp_all add: level_ok_def NewLevel_def index_ok_def level_value_def)
  then obtain level where l: "Level_Add (NewLevel (bookPrice ord)) ord = Inr level" "level_ok s level" "bl_Price level = bl_Price (NewLevel (bookPrice ord))"
    "bl_orders level = [ord]" using Level_Add_queue [OF n(1) assms(1) n(2) assms(2)] by (auto simp: NewLevel_def level_ids_def)
  then show ?thesis using n(2) by (auto simp: LevelFromOrder_def level_value_def)
qed

lemma Ladder_insert_queue:
  assumes ok: "ladder_ok l" and ord: "order_ok (ld_Side l) ord" "quantity_IsPositive (bo_Quantity ord)"
    and located: "\<And>p. fmlookup (ld_cache l) (bo_ID ord) = Some p \<Longrightarrow> book_value p = order_value ord"
  shows "\<exists>l'. Ladder_insert l ord = Inr l' \<and> ladder_ok l' \<and> queue l' = requeue ord (queue l) \<and> ld_Side l' = ld_Side l \<and> ld_BookType l' = ld_BookType l"
proof -
  let ?s = "ld_Side l" and ?p = "bookPrice ord" and ?v = "order_value ord"
  let ?l = "l\<lparr>ld_cache := fmupd (bo_ID ord) (bookPrice ord) (ld_cache l)\<rparr>"
  note L = ok [unfolded ladder_ok_queues] and P = bookPrice_ok [OF ord(1)]
  have ids: "bo_ID ord \<in> bo_ID ` set (queue l v) \<Longrightarrow> v = ?v" for v
  proof -
    assume "bo_ID ord \<in> bo_ID ` set (queue l v)"
    then obtain p where "fmlookup (ld_cache l) (bo_ID ord) = Some p" "book_value p = v" using L by blast
    then show "v = ?v" using located by blast
  qed
  have gone: "requeue ord (queue l) = (queue l)(?v := queue l ?v @ [ord])" if "bo_ID ord \<notin> bo_ID ` set (queue l ?v)"
  proof -
    have "dequeue (bo_ID ord) (queue l) = queue l" using that ids by (intro dequeue_absent) blast
    then show ?thesis using that by (simp add: requeue_def enqueue_def)
  qed
  have main: "ladder_ok l'" if l': "ld_cache l' = ld_cache ?l" "ld_Side l' = ?s" "levels_ok ?s (ld_levels l')" "queue l' = requeue ord (queue l)" for l'
    unfolding ladder_ok_queues l' using L P requeue_ids [of ord "queue l", OF ids] l'(3) by auto
  have f: "Ladder_find ?l ?p = Ladder_find l ?p" by (simp add: Ladder_find_def)
  show ?thesis
  proof (cases "Ladder_find l ?p")
    case None
    obtain level where x: "LevelFromOrder ord = Inr level" "level_ok ?s level" "level_value level = ?v" "bl_orders level = [ord]"
      using LevelFromOrder_ok [OF ord] by blast
    have n: "\<forall>x\<in>set (ld_levels l). level_value x \<noteq> level_value level" "queue l ?v = []"
      using Ladder_find_cases [of ?s l ?p] None L P x(3) by auto
    then obtain xs ys where i: "ld_levels l = xs @ ys" "sortLevels (?l\<lparr>ld_levels := ld_levels ?l @ [level]\<rparr>) = Inr (?l\<lparr>ld_levels := xs @ level # ys\<rparr>)"
      "sorted_wrt (\<lambda>x y. better ?s (level_value x) (level_value y)) (xs @ level # ys)"
      using sortLevels_inserts [of ?s ?l level] L x(2) by (auto simp: level_ok_def book_price_ok_def)
    let ?l' = "?l\<lparr>ld_levels := xs @ level # ys\<rparr>"
    have "levels_ok ?s (ld_levels ?l')" using L i(1,3) x(2,4) by (auto simp: levels_ok_def)
    moreover have "queue ?l' = requeue ord (queue l)"
      using n(2) x(3,4) unfolding gone [unfolded n(2), simplified] by (auto simp: queue_def i(1) queues_simps fun_eq_iff)
    ultimately show ?thesis using main [of ?l'] None f i(2) x(1) by (auto simp: Ladder_insert_def Let_def)
  next
    case (Some level)
    then obtain xs ys where i: "ld_levels l = xs @ level # ys" "\<And>new. set_level ?p new (ld_levels l) = xs @ new # ys" "level_value level = ?v"
      "queue l ?v = bl_orders level" "level_ok ?s level" using Ladder_find_cases [of ?s l ?p] L P by auto
    obtain new where a: "Level_Add level ord = Inr new" "level_ok ?s new" "bl_Price new = bl_Price level"
      "bl_orders new = (if bo_ID ord \<in> level_ids level then replaced ord (bl_orders level) else bl_orders level @ [ord])"
      using Level_Add_queue [OF i(5) ord(1) _ ord(2)] i(3) by auto
    let ?l' = "?l\<lparr>ld_levels := xs @ new # ys\<rparr>"
    have v: "level_value new = level_value level" by (simp add: level_value_def a(3))
    have o: "levels_ok ?s (xs @ level # ys)" using L i(1) by simp
    have "level_ids level = bo_ID ` set (queue l ?v)" by (simp add: level_ids_def i(4))
    moreover have "bl_orders new \<noteq> []" using a(4) o levels_okD(2) [OF o, of level] by (auto simp: replaced_def)
    moreover have "queue ?l' = (queue l)(?v := bl_orders new)" using replaced_level(3) [OF o v a(2)] by (simp add: queue_def i(1,3))
    ultimately have "queue ?l' = requeue ord (queue l)" "levels_ok ?s (ld_levels ?l')"
      using a(4) gone replaced_level(1) [OF o v a(2)] by (auto simp: requeue_def i(4))
    then show ?thesis using main [of ?l'] Some f i(2) a(1) by (auto simp: Ladder_insert_def Let_def)
  qed
qed

text \<open>Taking an order out: its level shrinks, or leaves the ladder with its last order.\<close>

definition without :: "Ladder \<Rightarrow> BookPrice \<Rightarrow> u64 \<Rightarrow> Level \<Rightarrow> Ladder" where
  "without l p i new = (let l = l\<lparr>ld_cache := fmdrop i (ld_cache l), ld_levels := set_level p new (ld_levels l)\<rparr>
     in if Level_Empty new then Ladder_removeLevel l p else l)"

lemma cached_level:
  assumes ok: "ladder_ok l" and c: "fmlookup (ld_cache l) i = Some p"
  shows "\<exists>level xs ys. Ladder_find l p = Some level \<and> level_ok (ld_Side l) level \<and> i \<in> level_ids level \<and> level_value level = book_value p
    \<and> bl_orders level = queue l (book_value p) \<and> ld_levels l = xs @ level # ys \<and> (\<forall>new. set_level p new (ld_levels l) = xs @ new # ys)"
proof -
  note L = ok [unfolded ladder_ok_queues]
  have p: "book_price_ok (ld_Side l) p" "i \<in> bo_ID ` set (queue l (book_value p))" using L c by blast+
  have "queue l (book_value p) \<noteq> []" using p(2) by auto
  then have "Ladder_find l p \<noteq> None" using Ladder_find_cases [of "ld_Side l" l p] L p(1) by (auto split: option.splits)
  then obtain level where f: "Ladder_find l p = Some level" by blast
  then show ?thesis using Ladder_find_cases [of "ld_Side l" l p] L p by (auto simp: level_ids_def)
qed

lemma set_then_drop:
  assumes "levels_ok s (xs @ level # ys)" "book_price_ok s p" "level_value level = book_value p" "book_price_ok s (bl_Price new)" "level_value new = book_value p"
  shows "drop_level p (xs @ new # ys) = xs @ ys"
proof -
  have "\<not> BookPrice_Equal (bl_Price x) p" if "x \<in> set xs" for x
    using other_levels [OF assms(1), of x] levels_okD(1) [OF assms(1), of x] that assms(2,3) BookPrice_Equal_value [of s "bl_Price x" p]
    by (auto simp: level_ok_def level_value_def)
  moreover have "BookPrice_Equal (bl_Price new) p" using assms(2,4,5) BookPrice_Equal_value [of s "bl_Price new" p] by (simp add: level_value_def)
  ultimately show ?thesis by (induction xs) auto
qed

lemma without_queue:
  assumes ok: "ladder_ok l" and c: "fmlookup (ld_cache l) i = Some p" and f: "Ladder_find l p = Some level"
    and new: "level_ok (ld_Side l) new" "bl_Price new = bl_Price level" "bl_orders new = filter (\<lambda>ord. bo_ID ord \<noteq> i) (bl_orders level)"
  shows "ladder_ok (without l p i new)" "queue (without l p i new) = dequeue i (queue l)" "fmlookup (ld_cache (without l p i new)) i = None"
    "ld_Side (without l p i new) = ld_Side l" "ld_BookType (without l p i new) = ld_BookType l"
proof -
  let ?l = "without l p i new" and ?s = "ld_Side l" and ?v = "book_value p"
  note L = ok [unfolded ladder_ok_queues]
  obtain xs ys where i: "level_value level = ?v" "bl_orders level = queue l ?v" "ld_levels l = xs @ level # ys" "\<And>x. set_level p x (ld_levels l) = xs @ x # ys"
    using cached_level [OF ok c] f by auto
  have p: "book_price_ok ?s p" using L c by blast
  have v: "level_value new = level_value level" by (simp add: level_value_def new(2))
  have o: "levels_ok ?s (xs @ level # ys)" using L i(3) by simp
  have levels: "ld_levels ?l = (if bl_orders new = [] then xs @ ys else xs @ new # ys)"
    using set_then_drop [OF o p i(1), of new] new(1) v i(1) by (simp add: without_def Let_def Level_Empty_def Ladder_removeLevel_def i(4) level_ok_def)
  have cache: "ld_cache ?l = fmdrop i (ld_cache l)" by (simp add: without_def Let_def Ladder_removeLevel_def)
  show side: "ld_Side ?l = ?s" "ld_BookType ?l = ld_BookType l" by (simp_all add: without_def Let_def Ladder_removeLevel_def)
  show "fmlookup (ld_cache ?l) i = None" by (simp add: cache)
  have lo: "levels_ok ?s (ld_levels ?l)" unfolding levels using replaced_level(1,2) [OF o v new(1)] by simp
  have "queue ?l = (queue l)(?v := bl_orders new)"
    unfolding queue_def levels i(3) using replaced_level(3,4) [OF o v new(1)] by (simp add: i(1))
  moreover have "i \<notin> bo_ID ` set (queue l w)" if "w \<noteq> ?v" for w using L c that by force
  ultimately show q: "queue ?l = dequeue i (queue l)" using dequeue_at [of ?v i "queue l"] new(3) i(2) by simp
  show "ladder_ok ?l" unfolding ladder_ok_queues side q dequeue_ids cache using L lo by auto
qed

lemma Ladder_RemoveOrder_queue:
  assumes ok: "ladder_ok l"
  shows "\<exists>l'. Ladder_RemoveOrder l i = Inr l' \<and> ladder_ok l' \<and> queue l' = dequeue i (queue l) \<and> ld_Side l' = ld_Side l \<and> ld_BookType l' = ld_BookType l"
proof (cases "fmlookup (ld_cache l) i")
  case None
  then have "i \<notin> bo_ID ` set (queue l v)" for v using ok unfolding ladder_ok_queues by force
  then have "dequeue i (queue l) = queue l" by (rule dequeue_absent)
  then show ?thesis using None ok by (simp add: Ladder_RemoveOrder_def)
next
  case (Some p)
  obtain level where l: "Ladder_find l p = Some level" "level_ok (ld_Side l) level" "i \<in> level_ids level" using cached_level [OF ok Some] by blast
  obtain new where n: "Level_remove level i = Some new" "level_ok (ld_Side l) new" "bl_Price new = bl_Price level"
    "bl_orders new = filter (\<lambda>ord. bo_ID ord \<noteq> i) (bl_orders level)" using Level_remove_queue [OF l(2), of i] l(3) by auto
  have "Ladder_RemoveOrder l i = Inr (without l p i new)"
    using Some l n(1) by (simp add: Ladder_RemoveOrder_def Level_RemoveByID_def without_def Level_Contains_iff level_ok_def Let_def)
  then show ?thesis using without_queue [OF ok Some l(1) n(2-4)] by simp
qed

lemma Ladder_Add_queue:
  assumes "ladder_ok l" "ld_BookType l = L3MBO" "order_ok (ld_Side l) ord" "quantity_IsPositive (bo_Quantity ord)"
    and "\<And>p. fmlookup (ld_cache l) (bo_ID ord) = Some p \<Longrightarrow> book_value p = order_value ord"
  shows "\<exists>l'. Ladder_Add l ord flags = Inr l' \<and> ladder_ok l' \<and> queue l' = requeue ord (queue l) \<and> ld_Side l' = ld_Side l \<and> ld_BookType l' = ld_BookType l"
proof -
  obtain l' where l': "Ladder_insert l ord = Inr l'" "ladder_ok l'" "queue l' = requeue ord (queue l)" "ld_Side l' = ld_Side l" "ld_BookType l' = ld_BookType l"
    using Ladder_insert_queue [OF assms(1,3-5)] by blast
  have "Ladder_Add l ord flags = Inr l'" using l'(1,5) assms(2-4) by (simp add: Ladder_Add_def order_ok_def)
  with l' show ?thesis by blast
qed

lemma requeue_dequeued: "bo_ID ord \<notin> bo_ID ` set (q (order_value ord)) \<Longrightarrow> requeue ord (dequeue (bo_ID ord) q) = requeue ord q"
  using dequeue_ids [of "bo_ID ord" "bo_ID ord" q] by (simp add: requeue_def dequeue_def)

lemma Ladder_Update_queue:
  assumes ok: "ladder_ok l" "ld_BookType l = L3MBO" and ord: "order_ok (ld_Side l) ord"
    and q: "quantity_IsPositive (bo_Quantity ord) \<or> quantity_IsZero (bo_Quantity ord)"
  shows "\<exists>l'. Ladder_Update l ord flags = Inr l' \<and> ladder_ok l' \<and> ld_Side l' = ld_Side l \<and> ld_BookType l' = ld_BookType l
    \<and> queue l' = (if quantity_IsPositive (bo_Quantity ord) then requeue ord (queue l) else dequeue (bo_ID ord) (queue l))"
proof -
  let ?i = "bo_ID ord" and ?pos = "quantity_IsPositive (bo_Quantity ord)"
  have zero: "quantity_IsZero (bo_Quantity ord) \<longleftrightarrow> \<not> ?pos" using q by (auto simp: quantity_IsPositive_def quantity_IsZero_def)
  show ?thesis
  proof (cases "fmlookup (ld_cache l) ?i")
    case None
    then have "?i \<notin> bo_ID ` set (queue l v)" for v using ok(1) unfolding ladder_ok_queues by force
    then have "dequeue ?i (queue l) = queue l" by (rule dequeue_absent)
    then show ?thesis using None ok Ladder_Add_queue [OF ok ord, of flags] by (auto simp: Ladder_Update_def)
  next
    case (Some p)
    obtain level xs ys where l: "Ladder_find l p = Some level" "level_ok (ld_Side l) level" "?i \<in> level_ids level" "level_value level = book_value p"
      "bl_orders level = queue l (book_value p)" "ld_levels l = xs @ level # ys" "\<And>x. set_level p x (ld_levels l) = xs @ x # ys"
      using cached_level [OF ok(1) Some] by auto
    obtain new where n: "Level_remove level ?i = Some new" "level_ok (ld_Side l) new" "bl_Price new = bl_Price level"
      "bl_orders new = filter (\<lambda>x. bo_ID x \<noteq> ?i) (bl_orders level)" using Level_remove_queue [OF l(2), of ?i] l(3) by auto
    note w = without_queue [OF ok(1) Some l(1) n(2-4)]
    have same: "price_Equal (bo_Price ord) (bp_Value (bl_Price level)) \<longleftrightarrow> order_value ord = book_value p"
      using ord l(2,4) by (simp add: price_Equal_value order_ok_def level_ok_def book_price_ok_def order_value_def level_value_def book_value_def)
    show ?thesis
    proof (cases "order_value ord = book_value p")
      case False
      have "Ladder_Update l ord flags = (if ?pos then Ladder_Add (without l p ?i new) ord flags else Inr (without l p ?i new))"
        using Some l(1) False same n(1) by (simp add: Ladder_Update_def without_def Level_Delete_def Let_def)
      moreover have "?i \<notin> bo_ID ` set (queue l (order_value ord))" using False ok(1) Some unfolding ladder_ok_queues by force
      ultimately show ?thesis using w ok(2) ord Ladder_Add_queue [OF w(1), of ord flags] requeue_dequeued [of ord "queue l"] by auto
    next
      case True
      then have r: "requirePrice level ord = Inr ()" using same by (simp add: requirePrice_def)
      show ?thesis
      proof (cases ?pos)
        case False
        then have "Ladder_Update l ord flags = Inr (without l p ?i new)"
          using Some l(1) True same n(1) zero r by (simp add: Ladder_Update_def Level_Update_def without_def Level_Delete_def Let_def Ladder_removeLevel_def)
        then show ?thesis using w False by simp
      next
        case pos: True
        obtain lev where a: "Level_Add level ord = Inr lev" "level_ok (ld_Side l) lev" "bl_Price lev = bl_Price level" "bl_orders lev = replaced ord (bl_orders level)"
          using Level_Add_queue [OF l(2) ord _ pos] True l(3,4) by auto
        let ?l = "l\<lparr>ld_levels := xs @ lev # ys\<rparr>"
        have o: "levels_ok (ld_Side l) (xs @ level # ys)" using ok(1) l(6) by (simp add: ladder_ok_def)
        have v: "level_value lev = level_value level" by (simp add: level_value_def a(3))
        have e: "bl_orders lev \<noteq> []" using a(4) levels_okD(2) [OF o, of level] by (simp add: replaced_def)
        have "Ladder_Update l ord flags = Inr ?l"
          using Some l(1,7) True same zero pos r a(1) e by (simp add: Ladder_Update_def Level_Update_def Let_def Level_Empty_def)
        moreover have k: "queue ?l = (queue l)(book_value p := replaced ord (queue l (book_value p)))"
          using replaced_level(3) [OF o v a(2)] l(4-6) a(4) by (simp add: queue_def)
        moreover have "requeue ord (queue l) = (queue l)(book_value p := replaced ord (queue l (book_value p)))"
          using l(3,5) True by (simp add: requeue_def level_ids_def)
        moreover have "bo_ID ` set (queue ?l v) = bo_ID ` set (queue l v)" for v by (simp add: k replaced_ids)
        then have "ladder_ok ?l" using ok(1) replaced_level(1) [OF o v a(2) e] unfolding ladder_ok_queues by simp
        ultimately show ?thesis using pos by simp
      qed
    qed
  qed
qed

lemma new_ladder_ok: "ladder_ok (NewLadder s t)" "queue (NewLadder s t) = (\<lambda>v. [])"
  by (simp_all add: ladder_ok_def levels_ok_def cache_ok_def NewLadder_def queue_def queues_def fun_eq_iff)

end
