(* ===== verification/OrderBookFills.thy ===== *)
theory OrderBookFills
  imports OrderBookQueues
begin

text \<open>
  Sequences of ladder operations and simulated fills (\<open>internal/matching/orderbook/ladder.go\<close>): from an empty order-by-order ladder
  every sequence of operations returns the queues its specification says, best price first, and a simulated fill is the greedy
  allocation of the wanted quantity in price-time order.
\<close>

section \<open>Sequences of operations\<close>

fun run_calls :: "('s \<Rightarrow> 'o \<Rightarrow> 's call) \<Rightarrow> 's \<Rightarrow> 'o list \<Rightarrow> 's call" where
  "run_calls f s [] = Inr s"
| "run_calls f s (x # xs) = call_bind (f s x) (\<lambda>s. run_calls f s xs)"

fun feasible :: "('q \<Rightarrow> 'o \<Rightarrow> bool) \<Rightarrow> ('q \<Rightarrow> 'o \<Rightarrow> 'q) \<Rightarrow> 'q \<Rightarrow> 'o list \<Rightarrow> bool" where
  "feasible fits g q [] = True"
| "feasible fits g q (x # xs) = (fits q x \<and> feasible fits g (g q x) xs)"

text \<open>An implementation whose every step is a step of a specification, as long as the specification allows the step.\<close>

locale stepwise_refinement =
  fixes inv :: "'s \<Rightarrow> bool" and abs :: "'s \<Rightarrow> 'q" and f :: "'s \<Rightarrow> 'o \<Rightarrow> 's call" and g :: "'q \<Rightarrow> 'o \<Rightarrow> 'q" and fits :: "'q \<Rightarrow> 'o \<Rightarrow> bool"
  assumes step: "inv s \<Longrightarrow> fits (abs s) x \<Longrightarrow> \<exists>s'. f s x = Inr s' \<and> inv s' \<and> abs s' = g (abs s) x"
begin

lemma run_refines: "inv s \<Longrightarrow> feasible fits g (abs s) xs \<Longrightarrow> \<exists>s'. run_calls f s xs = Inr s' \<and> inv s' \<and> abs s' = foldl g (abs s) xs"
proof (induction xs arbitrary: s)
  case (Cons x xs)
  then obtain s' where "f s x = Inr s'" "inv s'" "abs s' = g (abs s) x" using step [of s x] by auto
  then show ?case using Cons.IH [of s'] Cons.prems by simp
qed simp

end

datatype ladder_op = AddOrder book_order "8 word" | UpdateOrder book_order "8 word" | DeleteOrder book_order

fun ladder_step :: "Ladder \<Rightarrow> ladder_op \<Rightarrow> Ladder call" where
  "ladder_step l (AddOrder ord flags) = Ladder_Add l ord flags"
| "ladder_step l (UpdateOrder ord flags) = Ladder_Update l ord flags"
| "ladder_step l (DeleteOrder ord) = Ladder_Delete l ord"

fun queue_step :: "(rat \<Rightarrow> book_order list) \<Rightarrow> ladder_op \<Rightarrow> rat \<Rightarrow> book_order list" where
  "queue_step q (AddOrder ord flags) = (if quantity_IsPositive (bo_Quantity ord) then requeue ord q else q)"
| "queue_step q (UpdateOrder ord flags) = (if quantity_IsPositive (bo_Quantity ord) then requeue ord q else dequeue (bo_ID ord) q)"
| "queue_step q (DeleteOrder ord) = dequeue (bo_ID ord) q"

text \<open>
  Orders are on the side of the ladder and have a regular price, an added identity is not queued at another price, and an updated
  quantity is defined.
\<close>

fun queue_fits :: "book_side \<Rightarrow> (rat \<Rightarrow> book_order list) \<Rightarrow> ladder_op \<Rightarrow> bool" where
  "queue_fits s q (AddOrder ord flags) = (order_ok s ord \<and> (\<forall>v. v \<noteq> order_value ord \<longrightarrow> bo_ID ord \<notin> bo_ID ` set (q v)))"
| "queue_fits s q (UpdateOrder ord flags) = (order_ok s ord \<and> (quantity_IsPositive (bo_Quantity ord) \<or> quantity_IsZero (bo_Quantity ord)))"
| "queue_fits s q (DeleteOrder ord) = True"

definition ladder_inv :: "book_side \<Rightarrow> Ladder \<Rightarrow> bool" where
  "ladder_inv s l = (ladder_ok l \<and> ld_Side l = s \<and> ld_BookType l = L3MBO)"

lemma ladder_step_refines:
  assumes "ladder_inv s l" "queue_fits s (queue l) x"
  shows "\<exists>l'. ladder_step l x = Inr l' \<and> ladder_inv s l' \<and> queue l' = queue_step (queue l) x"
proof -
  have l: "ladder_ok l" "ld_BookType l = L3MBO" "ld_Side l = s" using assms(1) by (simp_all add: ladder_inv_def)
  show ?thesis
  proof (cases x)
    case (AddOrder ord flags)
    have "book_value p = order_value ord" if "fmlookup (ld_cache l) (bo_ID ord) = Some p" for p
    proof -
      have "bo_ID ord \<in> bo_ID ` set (queue l (book_value p))" using l(1) that unfolding ladder_ok_queues by blast
      then show ?thesis using assms(2) AddOrder by auto
    qed
    note located = this
    have ord: "order_ok (ld_Side l) ord" using assms(2) AddOrder l(3) by simp
    show ?thesis
    proof (cases "quantity_IsPositive (bo_Quantity ord)")
      case True
      then show ?thesis using Ladder_Add_queue [OF l(1,2) ord True located, of flags] AddOrder l by (auto simp: ladder_inv_def)
    next
      case False
      then have "Ladder_Add l ord flags = Inr l" using ord l(2) by (simp add: Ladder_Add_def order_ok_def)
      then show ?thesis using False AddOrder assms(1) by simp
    qed
  next
    case (UpdateOrder ord flags)
    then show ?thesis using Ladder_Update_queue [OF l(1,2), of ord flags] assms l by (auto simp: ladder_inv_def)
  next
    case (DeleteOrder ord)
    then show ?thesis using Ladder_RemoveOrder_queue [OF l(1), of "bo_ID ord"] l by (auto simp: ladder_inv_def Ladder_Delete_def)
  qed
qed

interpretation order_ladder: stepwise_refinement "ladder_inv s" queue ladder_step queue_step "queue_fits s" for s
  by unfold_locales (rule ladder_step_refines)

lemma top_is_best:
  assumes "ladder_ok l"
  shows "case Ladder_Top l of None \<Rightarrow> \<forall>v. queue l v = []
    | Some level \<Rightarrow> bl_orders level \<noteq> [] \<and> queue l (level_value level) = bl_orders level
        \<and> (\<forall>v. queue l v \<noteq> [] \<longrightarrow> v = level_value level \<or> better (ld_Side l) (level_value level) v)"
proof (cases "ld_levels l")
  case Nil
  then show ?thesis by (simp add: Ladder_Top_def queue_def queues_def)
next
  case (Cons level levels)
  have ok: "levels_ok (ld_Side l) ([] @ level # levels)" using assms Cons by (simp add: ladder_ok_def)
  then have "bl_orders level \<noteq> []" "\<forall>x\<in>set levels. better (ld_Side l) (level_value level) (level_value x)" by (simp_all add: levels_ok_def)
  moreover have "queues levels (level_value level) = []" using other_levels [OF ok] by (intro queues_absent) auto
  moreover have "\<exists>x\<in>set levels. level_value x = v" if "queues levels v \<noteq> []" for v using that queues_absent [of levels v] by blast
  ultimately show ?thesis by (auto simp: Ladder_Top_def Cons queue_def queues_simps)
qed

section \<open>Simulated fills\<close>

fun allocate :: "int \<Rightarrow> book_order list \<Rightarrow> (price \<times> int) list" where
  "allocate n [] = []"
| "allocate n (ord # ords) =
     (let k = rawValue (bo_Quantity ord)
      in if n \<le> k then (if 0 < n then [(bo_Price ord, n)] else []) else (bo_Price ord, k) # allocate (n - k) ords)"

definition fill_view :: "Fill \<Rightarrow> price \<times> int" where "fill_view f = (fl_Price f, rawValue (fl_Quantity f))"

lemma fill_view_make: "fill_view \<lparr>fl_Price = p, fl_Quantity = q\<rparr> = (p, rawValue q)" by (simp add: fill_view_def)

definition raw_total :: "book_order list \<Rightarrow> int" where "raw_total ords = (\<Sum>ord\<leftarrow>ords. rawValue (bo_Quantity ord))"

text \<open>The resting orders at a price no worse than the limit, in price-time order.\<close>

definition reachable_orders :: "Ladder \<Rightarrow> book_order \<Rightarrow> book_order list" where
  "reachable_orders l ord =
     concat (map bl_orders (filter (\<lambda>level. \<not> better (ld_Side l) (order_value ord) (level_value level)) (ld_levels l)))"

lemma raw_total_simps: "raw_total [] = 0" "raw_total (ord # ords) = rawValue (bo_Quantity ord) + raw_total ords"
  by (simp_all add: raw_total_def)

lemma raw_total_nonneg: "(\<And>ord. ord \<in> set ords \<Longrightarrow> 0 \<le> rawValue (bo_Quantity ord)) \<Longrightarrow> 0 \<le> raw_total ords"
  unfolding raw_total_def by (rule sum_list_nonneg) auto

lemma allocate_total:
  "0 \<le> n \<Longrightarrow> \<forall>ord\<in>set ords. 0 \<le> rawValue (bo_Quantity ord) \<Longrightarrow> (\<Sum>p\<leftarrow>allocate n ords. snd p) = min n (raw_total ords)"
proof (induction ords arbitrary: n)
  case (Cons ord ords)
  have "0 \<le> raw_total ords" using Cons.prems(2) by (intro raw_total_nonneg) simp
  then show ?case using Cons by (auto simp: Let_def raw_total_simps min_def)
qed (simp add: raw_total_def)

lemma fill_orders_allocate:
  assumes "quantity_ok wanted" "quantity_ok filled" "rawValue filled < rawValue wanted \<or> rawValue filled = 0"
    "\<forall>ord\<in>set ords. quantity_ok (bo_Quantity ord) \<and> 0 < rawValue (bo_Quantity ord) \<and> rawValue wanted + rawValue (bo_Quantity ord) \<le> quantityRawMax"
  shows "\<exists>returned filled' fills'. fill_orders wanted ords filled fills = Inr (returned, filled', fills @ fills')
    \<and> map fill_view fills' = allocate (rawValue wanted - rawValue filled) ords \<and> (returned \<longleftrightarrow> rawValue wanted - rawValue filled \<le> raw_total ords \<and> ords \<noteq> [])
    \<and> (\<not> returned \<longrightarrow> quantity_ok filled' \<and> rawValue filled' = rawValue filled + raw_total ords \<and> (rawValue filled' < rawValue wanted \<or> rawValue filled' = 0))"
  using assms(2-4)
proof (induction ords arbitrary: filled fills)
  case Nil
  then show ?case by (intro exI [of _ False] exI [of _ filled] exI [of _ "[]"]) (simp add: raw_total_def)
next
  case (Cons ord ords)
  let ?k = "rawValue (bo_Quantity ord)"
  have k: "quantity_ok (bo_Quantity ord)" "0 < ?k" "rawValue wanted + ?k \<le> quantityRawMax" using Cons.prems(3) by simp_all
  have w: "0 \<le> rawValue wanted" using assms(1) by (simp add: quantity_ok_def)
  have total: "raw_total (ord # ords) = ?k + raw_total ords" "0 \<le> raw_total ords"
    using Cons.prems(3) raw_total_nonneg [of ords] by (simp_all add: raw_total_simps less_imp_le)
  have "rawValue filled + ?k \<le> quantityRawMax" using Cons.prems(2) k(3) w by auto
  then obtain next' where a: "quantity_Add filled (bo_Quantity ord) = Some next'" "quantity_ok next'" "rawValue next' = rawValue filled + ?k"
    using quantity_sum [OF Cons.prems(1) k(1)] by auto
  show ?case
  proof (cases "rawValue wanted \<le> rawValue next'")
    case True
    have "rawValue filled \<le> rawValue wanted" using Cons.prems(2) w by auto
    then obtain rest where r: "quantity_Sub wanted filled = Some rest" "quantity_ok rest" "rawValue rest = rawValue wanted - rawValue filled"
      using quantity_difference [OF assms(1) Cons.prems(1)] by auto
    have "quantity_IsPositive rest \<longleftrightarrow> 0 < rawValue wanted - rawValue filled" using r by (simp add: quantity_IsPositive_def quantity_ok_def)
    then show ?thesis using True a r total by (auto simp: quantity_Cmp_def fill_view_make Let_def)
  next
    case False
    obtain returned filled' fills' where i: "fill_orders wanted ords next' (fills @ [\<lparr>fl_Price = bo_Price ord, fl_Quantity = bo_Quantity ord\<rparr>])
        = Inr (returned, filled', (fills @ [\<lparr>fl_Price = bo_Price ord, fl_Quantity = bo_Quantity ord\<rparr>]) @ fills')"
      "map fill_view fills' = allocate (rawValue wanted - rawValue next') ords" "returned \<longleftrightarrow> rawValue wanted - rawValue next' \<le> raw_total ords \<and> ords \<noteq> []"
      "\<not> returned \<longrightarrow> quantity_ok filled' \<and> rawValue filled' = rawValue next' + raw_total ords \<and> (rawValue filled' < rawValue wanted \<or> rawValue filled' = 0)"
      using Cons.IH [OF a(2), of "fills @ [\<lparr>fl_Price = bo_Price ord, fl_Quantity = bo_Quantity ord\<rparr>]"] False Cons.prems(3) by auto
    have "ords \<noteq> [] \<or> raw_total ords = 0" by (auto simp: raw_total_def)
    then show ?thesis using False a(1,3) i total
      by (intro exI [of _ returned] exI [of _ filled'] exI [of _ "\<lparr>fl_Price = bo_Price ord, fl_Quantity = bo_Quantity ord\<rparr> # fills'"])
        (auto simp: quantity_Cmp_def fill_view_make Let_def diff_diff_eq)
  qed
qed

lemma allocate_append:
  "\<forall>ord\<in>set xs. 0 < rawValue (bo_Quantity ord) \<Longrightarrow>
   allocate n (xs @ ys) = (if n \<le> raw_total xs \<and> xs \<noteq> [] then allocate n xs else allocate n xs @ allocate (n - raw_total xs) ys)"
proof (induction xs arbitrary: n)
  case (Cons x xs)
  let ?k = "rawValue (bo_Quantity x)"
  have t: "0 \<le> raw_total xs" "raw_total (x # xs) = ?k + raw_total xs" "xs = [] \<Longrightarrow> raw_total xs = 0"
    using Cons.prems raw_total_nonneg [of xs] by (simp_all add: raw_total_simps less_imp_le)
  show ?case
  proof (cases "n \<le> ?k")
    case True
    then show ?thesis using t by (simp add: Let_def)
  next
    case False
    have e: "n - (?k + raw_total xs) = n - ?k - raw_total xs" by simp
    show ?thesis using False t Cons.IH [of "n - ?k"] Cons.prems by (cases "xs = []") (simp_all add: Let_def e del: diff_diff_eq)
  qed
qed (simp add: raw_total_def)

lemma beyond_limit_better: "s \<noteq> NoSide \<Longrightarrow> beyond_limit s ord level \<longleftrightarrow> better s (order_value ord) (level_value level)"
  by (cases s) (auto simp: beyond_limit_def better_def price_Cmp_def order_value_def level_value_def book_value_def)

lemma fill_levels_allocate:
  assumes "s \<noteq> NoSide" "levels_ok s levels" "quantity_ok (bo_Quantity ord)" "quantity_ok filled"
    "rawValue filled < rawValue (bo_Quantity ord) \<or> rawValue filled = 0"
    "\<forall>x\<in>set (concat (map bl_orders levels)). quantity_ok (bo_Quantity x) \<and> rawValue (bo_Quantity ord) + rawValue (bo_Quantity x) \<le> quantityRawMax"
  shows "\<exists>fills'. fill_levels s ord levels filled fills = Inr (fills @ fills') \<and> map fill_view fills'
    = allocate (rawValue (bo_Quantity ord) - rawValue filled)
        (concat (map bl_orders (filter (\<lambda>level. \<not> better s (order_value ord) (level_value level)) levels)))"
  using assms(2,4-6)
proof (induction levels arbitrary: filled fills)
  case (Cons level levels)
  let ?n = "rawValue (bo_Quantity ord)" and ?near = "\<lambda>level. \<not> better s (order_value ord) (level_value level)"
  have lv: "levels_ok s levels" "level_ok s level" "bl_orders level \<noteq> []" "\<forall>x\<in>set levels. better s (level_value level) (level_value x)"
    using Cons.prems(1) by (simp_all add: levels_ok_def)
  show ?case
  proof (cases "?near level")
    case False
    then have "filter ?near (level # levels) = []" using lv(4) better_trans by (auto simp: filter_empty_conv)
    then show ?thesis using False assms(1) by (simp add: beyond_limit_better)
  next
    case True
    have pos: "\<forall>x\<in>set (bl_orders level). 0 < rawValue (bo_Quantity x)" using lv(2) by (simp add: level_ok_def quantity_IsPositive_def)
    obtain returned filled' fills' where r:
      "fill_orders (bo_Quantity ord) (bl_orders level) filled fills = Inr (returned, filled', fills @ fills')"
      "map fill_view fills' = allocate (?n - rawValue filled) (bl_orders level)" "returned \<longleftrightarrow> ?n - rawValue filled \<le> raw_total (bl_orders level)"
      "\<not> returned \<longrightarrow> quantity_ok filled' \<and> rawValue filled' = rawValue filled + raw_total (bl_orders level) \<and> (rawValue filled' < ?n \<or> rawValue filled' = 0)"
      using fill_orders_allocate [OF assms(3) Cons.prems(2,3), of "bl_orders level" fills] Cons.prems(4) pos lv(3) by auto
    note a = allocate_append [OF pos, of "?n - rawValue filled" "concat (map bl_orders (filter ?near levels))"]
    show ?thesis
    proof (cases returned)
      case True
      then show ?thesis using \<open>?near level\<close> assms(1) r a lv(3) by (simp add: beyond_limit_better)
    next
      case False
      then have f: "quantity_ok filled'" "rawValue filled' = rawValue filled + raw_total (bl_orders level)" "rawValue filled' < ?n \<or> rawValue filled' = 0"
        using r(4) by auto
      obtain rest where "fill_levels s ord levels filled' (fills @ fills') = Inr ((fills @ fills') @ rest)"
        "map fill_view rest = allocate (?n - rawValue filled') (concat (map bl_orders (filter ?near levels)))"
        using Cons.IH [OF lv(1) f(1,3), of "fills @ fills'"] Cons.prems(4) by auto
      then show ?thesis using \<open>?near level\<close> False assms(1) r a f(2)
        by (intro exI [of _ "fills' @ rest"]) (simp add: beyond_limit_better diff_diff_eq)
    qed
  qed
qed simp

section \<open>What a ladder does\<close>

text \<open>
  C39. From an empty order-by-order ladder, every feasible sequence of Add, Update and Delete calls returns a ladder that satisfies
  its invariant and whose queues are those the specification computes: an added order joins the end of its price's queue, an
  update at the same price keeps its place, an update to another price loses it, a deletion removes it. The top level is the best
  price with a queue. A sequence is feasible when every added or updated order is on the side of the ladder and has a regular
  price, an updated quantity is zero or positive (not the undefined quantity), and an added identity is not queued at another
  price at that moment: there the code keeps the old order as a second entry (\<open>readded_order_survives_deletion\<close>).
\<close>

theorem ladder_refines_queues:
  assumes "feasible (queue_fits s) queue_step (\<lambda>v. []) ops"
  shows "\<exists>l. run_calls ladder_step (NewLadder s L3MBO) ops = Inr l \<and> ladder_ok l \<and> queue l = foldl queue_step (\<lambda>v. []) ops
    \<and> (case Ladder_Top l of None \<Rightarrow> \<forall>v. queue l v = []
       | Some level \<Rightarrow> bl_orders level \<noteq> [] \<and> queue l (level_value level) = bl_orders level
           \<and> (\<forall>v. queue l v \<noteq> [] \<longrightarrow> v = level_value level \<or> better s (level_value level) v))"
proof -
  have "ladder_inv s (NewLadder s L3MBO)" by (simp add: ladder_inv_def new_ladder_ok) (simp add: NewLadder_def)
  then obtain l where l: "run_calls ladder_step (NewLadder s L3MBO) ops = Inr l" "ladder_inv s l" "queue l = foldl queue_step (\<lambda>v. []) ops"
    using order_ladder.run_refines [of s "NewLadder s L3MBO" ops] assms by (auto simp: new_ladder_ok)
  then show ?thesis using top_is_best [of l] by (intro exI [of _ l]) (auto simp: ladder_inv_def split: option.splits)
qed

definition bid_price :: "int \<Rightarrow> price" where "bid_price n = \<lparr>pr_value = newDecimal n 1, pr_kind = priceNormal\<rparr>"
definition bid_quantity :: "int \<Rightarrow> quantity" where
  "bid_quantity n = \<lparr>qt_value = newDecimal n 0, qt_rawOverride = None, qt_undefined = False\<rparr>"
definition sample_bid :: "u64 \<Rightarrow> int \<Rightarrow> int \<Rightarrow> book_order" where
  "sample_bid i p n = \<lparr>bo_Side = Buy, bo_Price = bid_price p, bo_Quantity = bid_quantity n, bo_ID = i\<rparr>"
definition sample_ops :: "ladder_op list" where
  "sample_ops = [AddOrder (sample_bid 1 1005 4) 0, AddOrder (sample_bid 2 1005 3) 0, AddOrder (sample_bid 3 1010 2) 0,
     UpdateOrder (sample_bid 1 1005 1) 0, AddOrder (sample_bid 4 990 9) 0, DeleteOrder (sample_bid 4 990 9)]"

lemmas sample_simps = bid_price_def bid_quantity_def sample_bid_def sample_ops_def order_ok_def order_value_def quantity_IsPositive_def
  rawValue_def newDecimal_def dec_value_def powerOfTen_def MaxPrecision_def

lemma sample_feasible: "feasible (queue_fits Buy) queue_step (\<lambda>v. []) sample_ops"
  by (simp add: sample_simps requeue_def enqueue_def dequeue_def replaced_def)

theorem ladder_refines_queues_witness:
  "\<exists>l. run_calls ladder_step (NewLadder Buy L3MBO) sample_ops = Inr l \<and> queue l (201 / 2) = [sample_bid 1 1005 1, sample_bid 2 1005 3]
     \<and> queue l 101 = [sample_bid 3 1010 2] \<and> queue l 99 = []"
  using ladder_refines_queues [OF sample_feasible] by (auto simp: sample_simps requeue_def enqueue_def dequeue_def replaced_def)

text \<open>
  C40. Against a ladder that satisfies its invariant, a simulated fill of a defined quantity takes the resting orders at prices no
  worse than the limit, in price-time order, each in full until what is left of the quantity is taken from the last: the filled
  total is the lesser of the quantity wanted and the quantity resting there. It returns without a panic as long as the wanted
  quantity and any one resting quantity do not exceed the largest quantity together.
\<close>

theorem simulate_fills_price_time:
  assumes "ladder_ok l" "ld_Side l \<noteq> NoSide" "quantity_ok (bo_Quantity ord)"
    and "\<And>level x. level \<in> set (ld_levels l) \<Longrightarrow> x \<in> set (bl_orders level) \<Longrightarrow>
       quantity_ok (bo_Quantity x) \<and> rawValue (bo_Quantity ord) + rawValue (bo_Quantity x) \<le> quantityRawMax"
  shows "\<exists>fills. SimulateFills l ord = Inr fills \<and> map fill_view fills = allocate (rawValue (bo_Quantity ord)) (reachable_orders l ord)
    \<and> (\<Sum>f\<leftarrow>fills. rawValue (fl_Quantity f)) = min (rawValue (bo_Quantity ord)) (raw_total (reachable_orders l ord))"
proof -
  let ?zero = "\<lparr>qt_value = newDecimal 0 (quantity_Precision (bo_Quantity ord)), qt_rawOverride = None, qt_undefined = False\<rparr>"
  have k: "quantity_Precision (bo_Quantity ord) \<le> MaxPrecision" and n: "0 \<le> rawValue (bo_Quantity ord)"
    using assms(3) by (simp_all add: quantity_ok_def quantity_Precision_def)
  have z: "quantity_ok ?zero" "rawValue ?zero = 0" using k by (simp_all add: quantity_ok_def rawValue_def newDecimal_def quantityRawMax_def powerOfTen_def)
  have "levels_ok (ld_Side l) (ld_levels l)" using assms(1) by (simp add: ladder_ok_def)
  then obtain fills where f: "SimulateFills l ord = Inr fills" "map fill_view fills = allocate (rawValue (bo_Quantity ord)) (reachable_orders l ord)"
    using fill_levels_allocate [OF assms(2) _ assms(3) z(1), of "ld_levels l" "[]"] assms(4) z(2) k
    by (auto simp: SimulateFills_def ZeroQuantity_def or_value_def reachable_orders_def)
  have "(\<Sum>f\<leftarrow>fills. rawValue (fl_Quantity f)) = (\<Sum>p\<leftarrow>map fill_view fills. snd p)" by (simp add: fill_view_def comp_def)
  also have "\<dots> = min (rawValue (bo_Quantity ord)) (raw_total (reachable_orders l ord))"
    using allocate_total [OF n, of "reachable_orders l ord"] assms(4) f(2) by (auto simp: reachable_orders_def quantity_ok_def)
  finally show ?thesis using f by blast
qed

definition sample_ladder :: Ladder where
  "sample_ladder = or_value (NewLadder Buy L3MBO) (run_calls ladder_step (NewLadder Buy L3MBO) sample_ops)"

lemma sample_ladder_ok: "ladder_inv Buy sample_ladder" "queue sample_ladder = foldl queue_step (\<lambda>v. []) sample_ops"
proof -
  have "ladder_inv Buy (NewLadder Buy L3MBO)" by (simp add: ladder_inv_def new_ladder_ok) (simp add: NewLadder_def)
  then show "ladder_inv Buy sample_ladder" "queue sample_ladder = foldl queue_step (\<lambda>v. []) sample_ops"
    using order_ladder.run_refines [of Buy "NewLadder Buy L3MBO" sample_ops] sample_feasible
    by (auto simp: new_ladder_ok sample_ladder_def or_value_def)
qed

lemma sample_ladder_orders: "map bl_orders (ld_levels sample_ladder) = [[sample_bid 3 1010 2], [sample_bid 1 1005 1, sample_bid 2 1005 3]]"
  by code_simp

theorem simulate_fills_price_time_witness:
  "\<exists>fills. SimulateFills sample_ladder ((sample_bid 9 1005 4)\<lparr>bo_Side := Sell\<rparr>) = Inr fills
     \<and> (\<Sum>f\<leftarrow>fills. rawValue (fl_Quantity f)) = 4 * 10 ^ 16"
proof -
  let ?ord = "(sample_bid 9 1005 4)\<lparr>bo_Side := Sell\<rparr>"
  have side: "ld_Side sample_ladder = Buy" "ladder_ok sample_ladder" using sample_ladder_ok(1) by (simp_all add: ladder_inv_def)
  have "bl_orders level \<in> {[sample_bid 3 1010 2], [sample_bid 1 1005 1, sample_bid 2 1005 3]}" if "level \<in> set (ld_levels sample_ladder)" for level
    using imageI [OF that, of bl_orders] unfolding set_map [symmetric] sample_ladder_orders by simp
  then have "quantity_ok (bo_Quantity x) \<and> rawValue (bo_Quantity ?ord) + rawValue (bo_Quantity x) \<le> quantityRawMax"
    if "level \<in> set (ld_levels sample_ladder)" "x \<in> set (bl_orders level)" for level x
    using that by (fastforce simp: quantity_ok_def quantityRawMax_def sample_simps)
  then have "\<exists>fills. SimulateFills sample_ladder ?ord = Inr fills
    \<and> (\<Sum>f\<leftarrow>fills. rawValue (fl_Quantity f)) = min (rawValue (bo_Quantity ?ord)) (raw_total (reachable_orders sample_ladder ?ord))"
    using simulate_fills_price_time [of sample_ladder ?ord] side by (auto simp: quantity_ok_def quantityRawMax_def sample_simps)
  moreover have "raw_total (reachable_orders sample_ladder ?ord) = 6 * 10 ^ 16" by code_simp
  ultimately show ?thesis by (simp add: sample_simps)
qed

section \<open>Boundary behaviours\<close>

text \<open>
  An identity added again at another price stays in its first queue, where a deletion no longer finds it: this is what the
  hypothesis on added identities above excludes.
\<close>

lemma readded_order_survives_deletion:
  "map (map bo_ID \<circ> bl_orders) (ld_levels (or_value (NewLadder Buy L3MBO) (run_calls ladder_step (NewLadder Buy L3MBO)
     [AddOrder (sample_bid 1 1005 4) 0, AddOrder (sample_bid 1 1010 4) 0, DeleteOrder (sample_bid 1 1010 4)]))) = [[1]]"
  by code_simp

text \<open>A resting order too large to be added to what is filled panics, even where only a part of it is wanted.\<close>

lemma fill_panics_before_remainder:
  "SimulateFills (or_value (NewLadder Buy L3MBO) (run_calls ladder_step (NewLadder Buy L3MBO)
     [AddOrder (sample_bid 1 1010 1) 0, AddOrder (sample_bid 2 1005 34028236692093) 0])) (sample_bid 9 1005 2) = Inl ''fill quantity overflow''"
  by code_simp

text \<open>
  Clearing both sides removes the bids at or above the best ask of the crossed book, also when that ask is itself removed and the first
  surviving ask is higher.
\<close>

definition sample_crossed :: Book where
  "sample_crossed = (let b = NewBook ''BTC'' L3MBO;
     b = or_value b (Book_Add b (sample_bid 1 1020 1) 0 1 1);
     b = or_value b (Book_Add b (sample_bid 2 1010 1) 0 2 2);
     b = or_value b (Book_Add b ((sample_bid 3 1000 1)\<lparr>bo_Side := Sell\<rparr>) 0 3 3)
     in or_value b (Book_Add b ((sample_bid 4 1030 1)\<lparr>bo_Side := Sell\<rparr>) 0 4 4))"

lemma clear_stale_uses_first_ask:
  "(case ClearStaleLevels sample_crossed None of (removed, b) \<Rightarrow>
     (map (map bo_ID \<circ> bl_orders) removed, map (map bo_ID \<circ> bl_orders) (ld_levels (bk_Bids b)), map (map bo_ID \<circ> bl_orders) (ld_levels (bk_Asks b))))
   = ([[1], [2], [3]], [], [[4]])"
  by code_simp

end
