(* ===== verification/Expression.thy ===== *)
theory Expression
  imports Prelude "HOL-Library.Finite_Map"
begin

text \<open>
  The formulas of synthetic instruments (\<open>internal/expression/expression.go\<close>): bindings, lexer, precedence-climbing
  parser, type inference with its operand depth, compilation and evaluation. The \<open>float64\<close> arithmetic of the platform
  (\<open>+\<close>, \<open>math.Mod\<close>, \<open>strconv.ParseFloat\<close>, \<open>==\<close>, ...) is the parameter \<open>F\<close>. A Go error is an \<open>Err\<close> with its fields
  (the display text of a message is left out), a run-time panic is \<open>Panic\<close>; the loops of the lexer and the parser run
  on fuel, and \<open>NoFuel\<close> is shown never to occur.
\<close>

section \<open>Numbers\<close>

record 'f floats =
  f_zero :: 'f
  f_one :: 'f
  f_parse :: "string \<Rightarrow> 'f option"
  f_eq :: "'f \<Rightarrow> 'f \<Rightarrow> bool"
  f_less :: "'f \<Rightarrow> 'f \<Rightarrow> bool"
  f_le :: "'f \<Rightarrow> 'f \<Rightarrow> bool"
  f_neg :: "'f \<Rightarrow> 'f"
  f_add :: "'f \<Rightarrow> 'f \<Rightarrow> 'f"
  f_sub :: "'f \<Rightarrow> 'f \<Rightarrow> 'f"
  f_mul :: "'f \<Rightarrow> 'f \<Rightarrow> 'f"
  f_div :: "'f \<Rightarrow> 'f \<Rightarrow> 'f"
  f_mod :: "'f \<Rightarrow> 'f \<Rightarrow> 'f"
  f_pow :: "'f \<Rightarrow> 'f \<Rightarrow> 'f"
  f_abs :: "'f \<Rightarrow> 'f"
  f_ceil :: "'f \<Rightarrow> 'f"
  f_floor :: "'f \<Rightarrow> 'f"
  f_round :: "'f \<Rightarrow> 'f"
  f_min :: "'f \<Rightarrow> 'f \<Rightarrow> 'f"
  f_max :: "'f \<Rightarrow> 'f \<Rightarrow> 'f"

definition boolNumber :: "'f floats \<Rightarrow> bool \<Rightarrow> 'f" where
  "boolNumber F v = (if v then f_one F else f_zero F)"

section \<open>Types and errors\<close>

datatype ValueType = Empty | Number | Bool

datatype ErrorKind =
    ErrEmptyExpression | ErrUnexpected | ErrUnterminated | ErrDuplicateBinding | ErrUnknownSymbol | ErrTypeMismatch
  | ErrNonNumeric | ErrInputCount | ErrArgumentCount | ErrStackOverflow | ErrTooManyLocals | ErrMissingClosingParen

record ExpressionError =
  er_Kind :: ErrorKind
  er_Position :: nat
  er_Name :: string
  er_Expected :: int
  er_Actual :: int
  er_ExistingSlot :: int
  er_Slot :: int
  er_Left :: ValueType
  er_Right :: ValueType

definition error_of :: "ErrorKind \<Rightarrow> ExpressionError" where
  "error_of k = \<lparr>er_Kind = k, er_Position = 0, er_Name = [], er_Expected = 0, er_Actual = 0, er_ExistingSlot = 0, er_Slot = 0,
     er_Left = Empty, er_Right = Empty\<rparr>"

datatype failure = Err ExpressionError | Panic | NoFuel

type_synonym 'a outcome = "failure + 'a"

definition run_then :: "'a outcome \<Rightarrow> ('a \<Rightarrow> 'b outcome) \<Rightarrow> 'b outcome" where
  "run_then r k = (case r of Inl e \<Rightarrow> Inl e | Inr x \<Rightarrow> k x)"

lemma run_then_simps [simp]: "run_then (Inl e) k = Inl e" "run_then (Inr x) k = k x"
  by (simp_all add: run_then_def)

lemma run_then_Inr_iff [simp]: "run_then r k = Inr y \<longleftrightarrow> (\<exists>x. r = Inr x \<and> k x = Inr y)"
  by (cases r) simp_all

lemma run_then_cong [fundef_cong]: "r = r' \<Longrightarrow> (\<And>x. r' = Inr x \<Longrightarrow> k x = k' x) \<Longrightarrow> run_then r k = run_then r' k'"
  by (cases r') (auto simp: run_then_def)

definition raise :: "ErrorKind \<Rightarrow> nat \<Rightarrow> 'a outcome" where
  "raise k position = Inl (Err ((error_of k)\<lparr>er_Position := position\<rparr>))"

definition type_mismatch :: "ValueType \<Rightarrow> ValueType \<Rightarrow> 'a outcome" where
  "type_mismatch left right = Inl (Err ((error_of ErrTypeMismatch)\<lparr>er_Left := left, er_Right := right\<rparr>))"

definition unknown_symbol :: "string \<Rightarrow> 'a outcome" where
  "unknown_symbol n = Inl (Err ((error_of ErrUnknownSymbol)\<lparr>er_Name := n\<rparr>))"

definition argumentError :: "string \<Rightarrow> int \<Rightarrow> int \<Rightarrow> failure" where
  "argumentError n expected actual = Err ((error_of ErrArgumentCount)\<lparr>er_Name := n, er_Expected := expected, er_Actual := actual\<rparr>)"

definition EnsureArgCount :: "string \<Rightarrow> int \<Rightarrow> int \<Rightarrow> failure option" where
  "EnsureArgCount n actual expected = (if actual = expected then None else Some (argumentError n expected actual))"

section \<open>Bindings\<close>

definition isIdentStart :: "char \<Rightarrow> bool" where
  "isIdentStart ch = (ch = CHR ''_'' \<or> ch \<ge> CHR ''a'' \<and> ch \<le> CHR ''z'' \<or> ch \<ge> CHR ''A'' \<and> ch \<le> CHR ''Z'')"

definition isIdentContinue :: "char \<Rightarrow> bool" where
  "isIdentContinue ch = (isIdentStart ch \<or> ch \<ge> CHR ''0'' \<and> ch \<le> CHR ''9'')"

definition plainIdentifier :: "string \<Rightarrow> bool" where
  "plainIdentifier n = (case n of [] \<Rightarrow> False | c # cs \<Rightarrow> isIdentStart c \<and> list_all isIdentContinue cs)"

definition bindingBoundary :: "char \<Rightarrow> bool" where
  "bindingBoundary c = (unicode_IsSpace (of_char c) \<or> c \<in> set ''(),;+-*/%^!=<>&|'')"

record Bindings =
  byName :: "(string, int) fmap"
  special :: "(char, string list) fmap"
  inputLen :: int

definition NewBindings :: Bindings where
  "NewBindings = \<lparr>byName = fmempty, special = fmempty, inputLen = 0\<rparr>"

text \<open>The insertion sort of the special names: longer names first, equal lengths in byte order.\<close>

definition goes_before :: "string \<Rightarrow> string \<Rightarrow> bool" where
  "goes_before x y = (length y < length x \<or> length x = length y \<and> x < y)"

fun sift :: "string \<Rightarrow> string list \<Rightarrow> string list" where
  "sift x [] = [x]"
| "sift x (y # ys) = (if goes_before x y then y # sift x ys else x # y # ys)"

definition sort_special :: "string list \<Rightarrow> string list" where
  "sort_special names = rev (foldl (\<lambda>sorted x. sift x sorted) [] names)"

definition special_names :: "Bindings \<Rightarrow> char \<Rightarrow> string list" where
  "special_names b c = (case fmlookup (special b) c of None \<Rightarrow> [] | Some names \<Rightarrow> names)"

definition Bindings_Add :: "Bindings \<Rightarrow> int \<Rightarrow> string \<Rightarrow> Bindings outcome" where
  "Bindings_Add b slot n =
     (if n = [] then Inl (Err (error_of ErrUnexpected))
      else case fmlookup (byName b) n of
        Some previous \<Rightarrow> if previous \<noteq> slot
          then Inl (Err ((error_of ErrDuplicateBinding)\<lparr>er_Name := n, er_ExistingSlot := previous, er_Slot := slot\<rparr>))
          else Inr b
      | None \<Rightarrow>
        (let b = b\<lparr>byName := fmupd n slot (byName b), inputLen := max (inputLen b) (slot + 1)\<rparr>
         in Inr (if plainIdentifier n then b
                 else b\<lparr>special := fmupd (hd n) (sort_special (special_names b (hd n) @ [n])) (special b)\<rparr>)))"

definition AddAlias :: "Bindings \<Rightarrow> int \<Rightarrow> string \<Rightarrow> Bindings outcome" where
  "AddAlias b slot n = Bindings_Add b slot n"

definition Bindings_Resolve :: "Bindings \<Rightarrow> string \<Rightarrow> int option" where
  "Bindings_Resolve b n = fmlookup (byName b) n"

section \<open>Tokens\<close>

datatype tokenKind =
    tEOF | tNumber | tBool | tIdent | tBinding | tLParen | tRParen | tComma | tSemicolon | tAssign | tPlus | tMinus | tStar
  | tSlash | tPercent | tCaret | tBang | tEq | tNeq | tLess | tLE | tGreater | tGE | tAnd | tOr

record 'f token =
  tk_kind :: tokenKind
  tk_text :: string
  tk_num :: 'f
  tk_slot :: int
  tk_pos :: nat

text \<open>\<open>strings.Index\<close>: the first position where a text occurs.\<close>

fun index_of :: "string \<Rightarrow> string \<Rightarrow> nat option" where
  "index_of pat [] = (if pat = [] then Some 0 else None)"
| "index_of pat (c # cs) = (if prefix pat (c # cs) then Some 0 else map_option Suc (index_of pat cs))"

definition digit_or_dot :: "char \<Rightarrow> bool" where
  "digit_or_dot c = (is_digit c \<or> c = CHR ''.'')"

text \<open>The text of a number that starts here.\<close>

definition number_text :: "string \<Rightarrow> string" where
  "number_text s =
     (let body = hd s # takeWhile digit_or_dot (tl s);
          rest = drop (length body) s
      in case rest of
           e # after \<Rightarrow>
             if e = CHR ''e'' \<or> e = CHR ''E''
             then let sign = (case after of c # _ \<Rightarrow> if c = CHR ''+'' \<or> c = CHR ''-'' then [c] else [] | [] \<Rightarrow> [])
                  in body @ [e] @ sign @ takeWhile is_digit (drop (length sign) after)
             else body
         | [] \<Rightarrow> body)"

definition two_char_tokens :: "(string \<times> tokenKind) list" where
  "two_char_tokens = [(''=='', tEq), (''!='', tNeq), (''<='', tLE), (''>='', tGE), (''&&'', tAnd), (''||'', tOr)]"

definition one_char_tokens :: "(char \<times> tokenKind) list" where
  "one_char_tokens = [(CHR ''('', tLParen), (CHR '')'', tRParen), (CHR '','', tComma), (CHR '';'', tSemicolon), (CHR ''='', tAssign),
     (CHR ''+'', tPlus), (CHR ''-'', tMinus), (CHR ''*'', tStar), (CHR ''/'', tSlash), (CHR ''%'', tPercent), (CHR ''^'', tCaret),
     (CHR ''!'', tBang), (CHR ''<'', tLess), (CHR ''>'', tGreater)]"

definition matches_binding :: "string \<Rightarrow> string \<Rightarrow> bool" where
  "matches_binding s n = (prefix n s \<and> (length n = length s \<or> bindingBoundary (s ! length n)))"

text \<open>One round of the lexer at a non-empty rest: the token it appends, if any, and the bytes it consumes.\<close>

definition lex_step :: "'f floats \<Rightarrow> Bindings \<Rightarrow> string \<Rightarrow> nat \<Rightarrow> ('f token option \<times> nat) outcome" where
  "lex_step F b s position =
     (let c = hd s;
          make = (\<lambda>k w. \<lparr>tk_kind = k, tk_text = w, tk_num = f_zero F, tk_slot = 0, tk_pos = position\<rparr>)
      in
      if unicode_IsSpace (of_char c) then Inr (None, 1)
      else if prefix ''//'' s
        then Inr (None, case index_of [CHR 0x0A] s of Some e \<Rightarrow> e + 1 | None \<Rightarrow> length s)
      else if prefix ''/*'' s
        then (case index_of ''*/'' (drop 2 s) of None \<Rightarrow> raise ErrUnterminated position | Some e \<Rightarrow> Inr (None, e + 4))
      else case find (matches_binding s) (special_names b c) of
        Some n \<Rightarrow> Inr (Some ((make tBinding n)\<lparr>tk_slot := (case fmlookup (byName b) n of None \<Rightarrow> 0 | Some slot \<Rightarrow> slot)\<rparr>), length n)
      | None \<Rightarrow>
        if isIdentStart c then
          (let w = c # takeWhile isIdentContinue (tl s)
           in Inr (Some (if w = ''true'' \<or> w = ''false'' then (make tBool w)\<lparr>tk_num := boolNumber F (w = ''true'')\<rparr>
                else case Bindings_Resolve b w of
                  Some slot \<Rightarrow> (make tBinding w)\<lparr>tk_slot := slot\<rparr>
                | None \<Rightarrow> make tIdent w), length w))
        else if is_digit c \<or> c = CHR ''.'' \<and> (case tl s of d # _ \<Rightarrow> is_digit d | [] \<Rightarrow> False) then
          (let w = number_text s
           in case f_parse F w of None \<Rightarrow> raise ErrUnexpected position
              | Some x \<Rightarrow> Inr (Some ((make tNumber w)\<lparr>tk_num := x\<rparr>), length w))
        else case map_of two_char_tokens (take 2 s) of
          Some k \<Rightarrow> Inr (Some (make k (take 2 s)), 2)
        | None \<Rightarrow>
          if c = CHR ''&'' \<or> c = CHR ''|'' then raise ErrUnexpected position
          else case map_of one_char_tokens c of
            None \<Rightarrow> raise ErrUnexpected position
          | Some k \<Rightarrow> Inr (Some (make k [c]), 1))"

definition eof_token :: "'f floats \<Rightarrow> nat \<Rightarrow> 'f token" where
  "eof_token F position = \<lparr>tk_kind = tEOF, tk_text = [], tk_num = f_zero F, tk_slot = 0, tk_pos = position\<rparr>"

fun lex_from :: "'f floats \<Rightarrow> Bindings \<Rightarrow> nat \<Rightarrow> string \<Rightarrow> nat \<Rightarrow> 'f token list outcome" where
  "lex_from F b fuel [] position = Inr [eof_token F position]"
| "lex_from F b 0 (c # cs) position = Inl NoFuel"
| "lex_from F b (Suc fuel) (c # cs) position =
     run_then (lex_step F b (c # cs) position) (\<lambda>(t, n).
     run_then (lex_from F b fuel (drop n (c # cs)) (position + n)) (\<lambda>ts.
     Inr (case t of None \<Rightarrow> ts | Some t \<Rightarrow> t # ts)))"

definition tokenize :: "'f floats \<Rightarrow> string \<Rightarrow> Bindings \<Rightarrow> 'f token list outcome" where
  "tokenize F source b = lex_from F b (length source) source 0"

section \<open>Syntax and parser\<close>

datatype 'f expr =
    Literal 'f ValueType
  | Input int
  | Name string
  | Unary tokenKind "'f expr"
  | Binary "'f expr" tokenKind "'f expr"
  | Call string "'f expr list"

record 'f statement =
  assign :: string
  stmt_value :: "'f expr"

record 'f program =
  statements :: "'f statement list"
  trailing :: bool

definition parser_current :: "'f token list \<Rightarrow> nat \<Rightarrow> 'f token" where
  "parser_current ts i = ts ! min i (length ts - 1)"

definition parser_peek :: "'f token list \<Rightarrow> nat \<Rightarrow> 'f token" where
  "parser_peek ts i = ts ! min (i + 1) (length ts - 1)"

fun binaryPrecedence :: "tokenKind \<Rightarrow> int \<times> bool" where
  "binaryPrecedence tOr = (1, False)"
| "binaryPrecedence tAnd = (2, False)"
| "binaryPrecedence tEq = (3, False)"
| "binaryPrecedence tNeq = (3, False)"
| "binaryPrecedence tLess = (4, False)"
| "binaryPrecedence tLE = (4, False)"
| "binaryPrecedence tGreater = (4, False)"
| "binaryPrecedence tGE = (4, False)"
| "binaryPrecedence tPlus = (5, False)"
| "binaryPrecedence tMinus = (5, False)"
| "binaryPrecedence tStar = (6, False)"
| "binaryPrecedence tSlash = (6, False)"
| "binaryPrecedence tPercent = (6, False)"
| "binaryPrecedence tCaret = (7, True)"
| "binaryPrecedence _ = (- 1, False)"

text \<open>
  The recursive descent. \<open>parse_binary\<close> is the loop of \<open>parseExpression\<close> after its prefix, \<open>parse_args\<close> the loop over
  the arguments of a call. The index is that of the code's parser.
\<close>

fun parseExpression :: "nat \<Rightarrow> 'f token list \<Rightarrow> int \<Rightarrow> nat \<Rightarrow> ('f expr \<times> nat) outcome"
  and parse_binary :: "nat \<Rightarrow> 'f token list \<Rightarrow> int \<Rightarrow> 'f expr \<Rightarrow> nat \<Rightarrow> ('f expr \<times> nat) outcome"
  and parser_prefix :: "nat \<Rightarrow> 'f token list \<Rightarrow> nat \<Rightarrow> ('f expr \<times> nat) outcome"
  and parse_args :: "nat \<Rightarrow> 'f token list \<Rightarrow> nat \<Rightarrow> ('f expr list \<times> nat) outcome" where
  "parseExpression 0 ts minimum i = Inl NoFuel"
| "parseExpression (Suc fuel) ts minimum i =
     run_then (parser_prefix fuel ts i) (\<lambda>(left, i). parse_binary fuel ts minimum left i)"
| "parse_binary 0 ts minimum left i = Inl NoFuel"
| "parse_binary (Suc fuel) ts minimum left i =
     (let op = tk_kind (parser_current ts i); (precedence, rightAssociative) = binaryPrecedence op
      in if precedence < minimum then Inr (left, i)
         else run_then (parseExpression fuel ts (if rightAssociative then precedence else precedence + 1) (i + 1)) (\<lambda>(right, i).
              parse_binary fuel ts minimum (Binary left op right) i))"
| "parser_prefix 0 ts i = Inl NoFuel"
| "parser_prefix (Suc fuel) ts i =
     (let t = parser_current ts i; i = i + 1 in
      case tk_kind t of
        tNumber \<Rightarrow> Inr (Literal (tk_num t) Number, i)
      | tBool \<Rightarrow> Inr (Literal (tk_num t) Bool, i)
      | tBinding \<Rightarrow> Inr (Input (tk_slot t), i)
      | tIdent \<Rightarrow>
          if tk_kind (parser_current ts i) \<noteq> tLParen then Inr (Name (tk_text t), i)
          else if tk_kind (parser_current ts (i + 1)) = tRParen then Inr (Call (tk_text t) [], i + 2)
          else run_then (parse_args fuel ts (i + 1)) (\<lambda>(args, i). Inr (Call (tk_text t) args, i))
      | tLParen \<Rightarrow>
          run_then (parseExpression fuel ts 0 i) (\<lambda>(v, i).
          if tk_kind (parser_current ts i) \<noteq> tRParen then raise ErrMissingClosingParen (tk_pos t) else Inr (v, i + 1))
      | tMinus \<Rightarrow> run_then (parseExpression fuel ts 7 i) (\<lambda>(v, i). Inr (Unary tMinus v, i))
      | tBang \<Rightarrow> run_then (parseExpression fuel ts 7 i) (\<lambda>(v, i). Inr (Unary tBang v, i))
      | _ \<Rightarrow> raise ErrUnexpected (tk_pos t))"
| "parse_args 0 ts i = Inl NoFuel"
| "parse_args (Suc fuel) ts i =
     run_then (parseExpression fuel ts 0 i) (\<lambda>(arg, i).
     if tk_kind (parser_current ts i) = tRParen then Inr ([arg], i + 1)
     else if tk_kind (parser_current ts i) \<noteq> tComma then raise ErrUnexpected (tk_pos (parser_current ts i))
     else run_then (parse_args fuel ts (i + 1)) (\<lambda>(args, i). Inr (arg # args, i)))"

definition parser_fuel :: "'f token list \<Rightarrow> nat" where
  "parser_fuel ts = 4 * length ts + 4"

definition parseStatement :: "'f token list \<Rightarrow> nat \<Rightarrow> ('f statement \<times> nat) outcome" where
  "parseStatement ts i =
     (if tk_kind (parser_current ts i) = tIdent \<and> tk_kind (parser_peek ts i) = tAssign
      then run_then (parseExpression (parser_fuel ts) ts 0 (i + 2)) (\<lambda>(v, j).
           Inr (\<lparr>assign = tk_text (parser_current ts i), stmt_value = v\<rparr>, j))
      else run_then (parseExpression (parser_fuel ts) ts 0 i) (\<lambda>(v, j). Inr (\<lparr>assign = [], stmt_value = v\<rparr>, j)))"

fun parse_statements :: "nat \<Rightarrow> 'f token list \<Rightarrow> nat \<Rightarrow> ('f statement list \<times> bool \<times> nat) outcome" where
  "parse_statements 0 ts i = Inl NoFuel"
| "parse_statements (Suc fuel) ts i =
     run_then (parseStatement ts i) (\<lambda>(st, i).
     if tk_kind (parser_current ts i) \<noteq> tSemicolon then Inr ([st], False, i)
     else if tk_kind (parser_current ts (i + 1)) = tEOF then Inr ([st], True, i + 1)
     else run_then (parse_statements fuel ts (i + 1)) (\<lambda>(sts, trail, i). Inr (st # sts, trail, i)))"

definition parse :: "'f token list \<Rightarrow> 'f program outcome" where
  "parse ts =
     (if tk_kind (parser_current ts 0) = tEOF then raise ErrEmptyExpression 0
      else run_then (parse_statements (length ts) ts 0) (\<lambda>(sts, trail, i).
           if tk_kind (parser_current ts i) \<noteq> tEOF then raise ErrUnexpected (tk_pos (parser_current ts i))
           else Inr \<lparr>statements = sts, trailing = trail\<rparr>))"

section \<open>Type inference\<close>

text \<open>The type of an expression and the operands its evaluation holds at once.\<close>

definition comparison :: "tokenKind \<Rightarrow> bool" where
  "comparison k = (k \<in> {tEq, tNeq, tLess, tLE, tGreater, tGE})"

definition connective :: "tokenKind \<Rightarrow> bool" where
  "connective k = (k = tAnd \<or> k = tOr)"

definition one_argument :: "string \<Rightarrow> bool" where
  "one_argument n = (n \<in> {''abs'', ''ceil'', ''floor'', ''round''})"

definition many_arguments :: "string \<Rightarrow> bool" where
  "many_arguments n = (n \<in> {''min'', ''max''})"

fun infer :: "'f expr \<Rightarrow> (string, ValueType) fmap \<Rightarrow> (ValueType \<times> nat) outcome"
  and infer_each :: "'f expr list \<Rightarrow> (string, ValueType) fmap \<Rightarrow> (ValueType \<times> nat) list outcome"
  and infer_numbers :: "'f expr list \<Rightarrow> (string, ValueType) fmap \<Rightarrow> nat \<Rightarrow> nat \<Rightarrow> nat outcome" where
  "infer (Literal v t) types = Inr (t, 1)"
| "infer (Input slot) types = Inr (Number, 1)"
| "infer (Name n) types = (case fmlookup types n of None \<Rightarrow> unknown_symbol n | Some t \<Rightarrow> Inr (t, 1))"
| "infer (Unary op e) types =
     run_then (infer e types) (\<lambda>(t, depth).
     let want = (if op = tBang then Bool else Number)
     in if t \<noteq> want then type_mismatch t want else Inr (want, depth))"
| "infer (Binary l op r) types =
     run_then (infer l types) (\<lambda>(left, leftDepth).
     run_then (infer r types) (\<lambda>(right, rightDepth).
     let want = (if connective op then Bool else Number);
         res = (if connective op \<or> comparison op then Bool else Number)
     in if left \<noteq> want \<or> right \<noteq> want then type_mismatch left right else Inr (res, max leftDepth (1 + rightDepth))))"
| "infer (Call n args) types =
     (if n = ''if'' then
        (if length args \<noteq> 3 then Inl (argumentError n 3 (int (length args)))
         else run_then (infer_each args types) (\<lambda>ts. case ts of
              [(condition, d0), (left, d1), (right, d2)] \<Rightarrow>
                if condition \<noteq> Bool \<or> left \<noteq> right then type_mismatch left right else Inr (left, max d0 (max d1 d2))
            | _ \<Rightarrow> Inl Panic))
      else if \<not> one_argument n \<and> \<not> many_arguments n then unknown_symbol n
      else if one_argument n \<and> length args \<noteq> 1 then Inl (argumentError n 1 (int (length args)))
      else if many_arguments n \<and> length args < 2 then Inl (argumentError n 2 (int (length args)))
      else run_then (infer_numbers args types 0 0) (\<lambda>depth. Inr (Number, depth)))"
| "infer_each [] types = Inr []"
| "infer_each (e # es) types =
     run_then (infer e types) (\<lambda>t. run_then (infer_each es types) (\<lambda>ts. Inr (t # ts)))"
| "infer_numbers [] types index depth = Inr depth"
| "infer_numbers (e # es) types index depth =
     run_then (infer e types) (\<lambda>(t, childDepth).
     if t \<noteq> Number then type_mismatch t Number else infer_numbers es types (index + 1) (max depth (index + childDepth)))"

section \<open>Compilation\<close>

definition maxStack :: nat where "maxStack = 32"
definition maxLocals :: nat where "maxLocals = 16"

record 'f Compiled =
  cp_program :: "'f program"
  cp_bindings :: Bindings
  cp_typ :: ValueType

fun infer_statements :: "'f statement list \<Rightarrow> (string, ValueType) fmap \<Rightarrow> nat \<Rightarrow> ((string, ValueType) fmap \<times> nat) outcome" where
  "infer_statements [] types maxDepth = Inr (types, maxDepth)"
| "infer_statements (st # sts) types maxDepth =
     run_then (infer (stmt_value st) types) (\<lambda>(t, depth).
     let maxDepth = max maxDepth depth in
     if assign st = [] then infer_statements sts types maxDepth
     else case fmlookup types (assign st) of
            Some old \<Rightarrow> if old \<noteq> t then type_mismatch old t else infer_statements sts (fmupd (assign st) t types) maxDepth
          | None \<Rightarrow> infer_statements sts (fmupd (assign st) t types) maxDepth)"

definition Compile :: "'f floats \<Rightarrow> string \<Rightarrow> Bindings \<Rightarrow> 'f Compiled outcome" where
  "Compile F source b =
     run_then (tokenize F source b) (\<lambda>ts.
     run_then (parse ts) (\<lambda>prog.
     run_then (infer_statements (statements prog) fmempty 0) (\<lambda>(types, maxDepth).
     if maxStack < maxDepth
     then Inl (Err ((error_of ErrStackOverflow)\<lparr>er_Actual := int maxDepth, er_Expected := int maxStack\<rparr>))
     else if maxLocals < fcard (fmdom types)
     then Inl (Err ((error_of ErrTooManyLocals)\<lparr>er_Actual := int (fcard (fmdom types)), er_Expected := int maxLocals\<rparr>))
     else let final = last (statements prog);
              resultType = (if \<not> trailing prog \<and> assign final = []
                then (case infer (stmt_value final) types of Inr (t, _) \<Rightarrow> t | Inl _ \<Rightarrow> Empty) else Empty)
          in Inr \<lparr>cp_program = prog, cp_bindings = b, cp_typ = resultType\<rparr>)))"

definition CompileNumeric :: "'f floats \<Rightarrow> string \<Rightarrow> Bindings \<Rightarrow> 'f Compiled outcome" where
  "CompileNumeric F source b =
     run_then (Compile F source b) (\<lambda>c.
     if cp_typ c \<noteq> Number then Inl (Err ((error_of ErrNonNumeric)\<lparr>er_Left := cp_typ c\<rparr>)) else Inr c)"

section \<open>Evaluation\<close>

record 'f runtimeValue =
  rv_number :: 'f
  rv_typ :: ValueType

definition zero_value :: "'f floats \<Rightarrow> 'f runtimeValue" where
  "zero_value F = \<lparr>rv_number = f_zero F, rv_typ = Empty\<rparr>"

definition evalBinary :: "'f floats \<Rightarrow> tokenKind \<Rightarrow> 'f \<Rightarrow> 'f \<Rightarrow> 'f runtimeValue" where
  "evalBinary F op left right =
     (let num = (\<lambda>x. \<lparr>rv_number = x, rv_typ = Number\<rparr>);
          truth = (\<lambda>x. \<lparr>rv_number = boolNumber F x, rv_typ = Bool\<rparr>);
          nonzero = (\<lambda>x. \<not> f_eq F x (f_zero F))
      in case op of
           tPlus \<Rightarrow> num (f_add F left right)
         | tMinus \<Rightarrow> num (f_sub F left right)
         | tStar \<Rightarrow> num (f_mul F left right)
         | tSlash \<Rightarrow> num (f_div F left right)
         | tPercent \<Rightarrow> num (f_mod F left right)
         | tCaret \<Rightarrow> num (f_pow F left right)
         | tEq \<Rightarrow> truth (f_eq F left right)
         | tNeq \<Rightarrow> truth (\<not> f_eq F left right)
         | tLess \<Rightarrow> truth (f_less F left right)
         | tLE \<Rightarrow> truth (f_le F left right)
         | tGreater \<Rightarrow> truth (f_less F right left)
         | tGE \<Rightarrow> truth (f_le F right left)
         | tAnd \<Rightarrow> truth (nonzero left \<and> nonzero right)
         | tOr \<Rightarrow> truth (nonzero left \<or> nonzero right)
         | _ \<Rightarrow> num (f_zero F))"

definition apply_call :: "'f floats \<Rightarrow> string \<Rightarrow> 'f list \<Rightarrow> 'f runtimeValue outcome" where
  "apply_call F n args =
     (case args of [] \<Rightarrow> Inl Panic
      | x # xs \<Rightarrow> Inr \<lparr>rv_number =
          (if n = ''abs'' then f_abs F x else if n = ''ceil'' then f_ceil F x else if n = ''floor'' then f_floor F x
           else if n = ''round'' then f_round F x
           else if n = ''min'' then foldl (f_min F) x xs else if n = ''max'' then foldl (f_max F) x xs else x),
          rv_typ = Number\<rparr>)"

text \<open>Evaluation returns the slots it read, in order, with the value: they are what an observer is told.\<close>

fun evaluate :: "'f floats \<Rightarrow> 'f expr \<Rightarrow> 'f list \<Rightarrow> (string, 'f runtimeValue) fmap \<Rightarrow> (int list \<times> 'f runtimeValue) outcome"
  and evaluate_args :: "'f floats \<Rightarrow> 'f expr list \<Rightarrow> 'f list \<Rightarrow> (string, 'f runtimeValue) fmap \<Rightarrow> (int list \<times> 'f list) outcome" where
  "evaluate F (Literal v t) inputs locals = Inr ([], \<lparr>rv_number = v, rv_typ = t\<rparr>)"
| "evaluate F (Input slot) inputs locals =
     (if 0 \<le> slot \<and> slot < int (length inputs) then Inr ([slot], \<lparr>rv_number = inputs ! nat slot, rv_typ = Number\<rparr>) else Inl Panic)"
| "evaluate F (Name n) inputs locals = Inr ([], case fmlookup locals n of None \<Rightarrow> zero_value F | Some v \<Rightarrow> v)"
| "evaluate F (Unary op e) inputs locals =
     run_then (evaluate F e inputs locals) (\<lambda>(tr, v).
     Inr (tr, v\<lparr>rv_number := (if op = tMinus then f_neg F (rv_number v) else boolNumber F (f_eq F (rv_number v) (f_zero F)))\<rparr>))"
| "evaluate F (Binary l op r) inputs locals =
     run_then (evaluate F l inputs locals) (\<lambda>(tr, left).
     if op = tAnd \<and> f_eq F (rv_number left) (f_zero F) \<or> op = tOr \<and> \<not> f_eq F (rv_number left) (f_zero F)
     then Inr (tr, \<lparr>rv_number = rv_number left, rv_typ = Bool\<rparr>)
     else run_then (evaluate F r inputs locals) (\<lambda>(tr', right).
          Inr (tr @ tr', evalBinary F op (rv_number left) (rv_number right))))"
| "evaluate F (Call n args) inputs locals =
     (if n = ''if'' then
        (case args of [] \<Rightarrow> Inl Panic
         | c # branches \<Rightarrow>
           run_then (evaluate F c inputs locals) (\<lambda>(tr, condition).
           if \<not> f_eq F (rv_number condition) (f_zero F)
           then (case branches of l # _ \<Rightarrow> run_then (evaluate F l inputs locals) (\<lambda>(tr', v). Inr (tr @ tr', v)) | [] \<Rightarrow> Inl Panic)
           else (case branches of _ # r # _ \<Rightarrow> run_then (evaluate F r inputs locals) (\<lambda>(tr', v). Inr (tr @ tr', v)) | _ \<Rightarrow> Inl Panic)))
      else run_then (evaluate_args F args inputs locals) (\<lambda>(tr, values).
           run_then (apply_call F n values) (\<lambda>v. Inr (tr, v))))"
| "evaluate_args F [] inputs locals = Inr ([], [])"
| "evaluate_args F (e # es) inputs locals =
     run_then (evaluate F e inputs locals) (\<lambda>(tr, v).
     run_then (evaluate_args F es inputs locals) (\<lambda>(tr', vs). Inr (tr @ tr', rv_number v # vs)))"

fun eval_statements :: "'f floats \<Rightarrow> 'f statement list \<Rightarrow> 'f list \<Rightarrow> (string, 'f runtimeValue) fmap \<Rightarrow> 'f runtimeValue
    \<Rightarrow> (int list \<times> 'f runtimeValue) outcome" where
  "eval_statements F [] inputs locals res = Inr ([], res)"
| "eval_statements F (st # sts) inputs locals res =
     run_then (evaluate F (stmt_value st) inputs locals) (\<lambda>(tr, v).
     run_then (if assign st \<noteq> [] then eval_statements F sts inputs (fmupd (assign st) v locals) res
               else eval_statements F sts inputs locals v) (\<lambda>(tr', res).
     Inr (tr @ tr', res)))"

definition input_count :: "'f Compiled \<Rightarrow> 'f list \<Rightarrow> failure option" where
  "input_count c inputs =
     (if int (length inputs) < inputLen (cp_bindings c)
      then Some (Err ((error_of ErrInputCount)\<lparr>er_Expected := inputLen (cp_bindings c), er_Actual := int (length inputs)\<rparr>)) else None)"

definition Eval :: "'f floats \<Rightarrow> 'f Compiled \<Rightarrow> 'f list \<Rightarrow> 'f outcome" where
  "Eval F c inputs =
     (case input_count c inputs of Some e \<Rightarrow> Inl e | None \<Rightarrow>
      run_then (eval_statements F (statements (cp_program c)) inputs fmempty (zero_value F)) (\<lambda>(tr, res).
      if cp_typ c = Empty then raise ErrEmptyExpression 0 else Inr (rv_number res)))"

definition EvalObserved :: "'f floats \<Rightarrow> 'f Compiled \<Rightarrow> 'f list \<Rightarrow> (int list \<times> 'f) outcome" where
  "EvalObserved F c inputs =
     (case input_count c inputs of Some e \<Rightarrow> Inl e | None \<Rightarrow>
      run_then (eval_statements F (statements (cp_program c)) inputs fmempty (zero_value F)) (\<lambda>(tr, res). Inr (tr, rv_number res)))"

end
