(* ===== verification/ExpressionTypes.thy ===== *)
theory ExpressionTypes
  imports Expression "HOL-Library.Code_Target_Nat"
begin

text \<open>
  Formulas compile and evaluate safely. The lexer and the parser always return; what they produce refers to bound slots only;
  a compiled formula evaluates, on enough inputs, to a value of its inferred type and never panics; and the inferred depth is
  the operand stack that a stack machine needs.
\<close>

section \<open>No failure other than an error\<close>

definition proper :: "'a outcome \<Rightarrow> bool" where
  "proper r = (case r of Inl Panic \<Rightarrow> False | Inl NoFuel \<Rightarrow> False | _ \<Rightarrow> True)"

lemma proper_simps [simp]: "proper (Inr x)" "proper (Inl (Err e))" "\<not> proper (Inl Panic)" "\<not> proper (Inl NoFuel)"
  "proper (raise k p)" "proper (type_mismatch l r)" "proper (unknown_symbol n)" "proper (Inl (argumentError n a b))"
  by (simp_all add: proper_def raise_def type_mismatch_def unknown_symbol_def argumentError_def)

lemma proper_run_then [intro!]: "proper r \<Longrightarrow> (\<And>x. r = Inr x \<Longrightarrow> proper (k x)) \<Longrightarrow> proper (run_then r k)"
  by (cases r) (auto simp: proper_def)

section \<open>Bindings\<close>

definition bindings_ok :: "Bindings \<Rightarrow> bool" where
  "bindings_ok b \<longleftrightarrow> fmpred (\<lambda>_ slot. 0 \<le> slot \<and> slot < inputLen b) (byName b)
     \<and> (\<forall>c. \<forall>n\<in>set (special_names b c). n \<noteq> [] \<and> n |\<in>| fmdom (byName b))"

lemma new_bindings_ok: "bindings_ok NewBindings"
  by (simp add: bindings_ok_def NewBindings_def special_names_def)

lemma set_sift: "set (sift x ys) = insert x (set ys)"
  by (induction x ys rule: sift.induct) auto

lemma set_sort_special: "set (sort_special ns) = set ns"
proof -
  have "set (foldl (\<lambda>sorted x. sift x sorted) acc ns) = set acc \<union> set ns" for acc
    by (induction ns arbitrary: acc) (auto simp: set_sift)
  then show ?thesis by (simp add: sort_special_def)
qed

lemma add_bindings_ok:
  assumes "bindings_ok b" "0 \<le> slot" "Bindings_Add b slot n = Inr b'"
  shows "bindings_ok b'"
proof (cases "fmlookup (byName b) n")
  case None
  define b1 where "b1 = b\<lparr>byName := fmupd n slot (byName b), inputLen := max (inputLen b) (slot + 1)\<rparr>"
  have n: "n \<noteq> []" and b': "b' = (if plainIdentifier n then b1
      else b1\<lparr>special := fmupd (hd n) (sort_special (special_names b1 (hd n) @ [n])) (special b1)\<rparr>)"
    using assms(3) None by (auto simp: Bindings_Add_def Let_def b1_def split: if_splits)
  have "special b1 = special b" by (simp add: b1_def)
  then have names: "special_names b' c = (if \<not> plainIdentifier n \<and> c = hd n then sort_special (special_names b c @ [n]) else special_names b c)" for c
    by (auto simp: b' special_names_def)
  have "fmpred (\<lambda>_ slot. 0 \<le> slot \<and> slot < inputLen b') (byName b')"
    using assms(1,2) by (auto simp: bindings_ok_def fmpred_iff b' b1_def less_max_iff_disj)
  moreover have "fmdom (byName b') = finsert n (fmdom (byName b))" by (simp add: b' b1_def)
  ultimately show ?thesis using assms(1) n unfolding bindings_ok_def by (auto simp: names set_sort_special split: if_splits)
next
  case (Some previous)
  then show ?thesis using assms by (auto simp: Bindings_Add_def split: if_splits)
qed

section \<open>The lexer returns\<close>

lemma number_text_nonempty [simp]: "number_text s \<noteq> []"
  by (simp add: number_text_def Let_def split: list.split)

lemma lex_step_proper: "proper (lex_step F b s p)"
  by (simp add: lex_step_def Let_def split: option.split)

lemma find_in: "find P xs = Some x \<Longrightarrow> x \<in> set xs"
  by (auto simp: find_Some_iff)

lemma lex_step_consumes:
  assumes "bindings_ok b" "s \<noteq> []" "lex_step F b s p = Inr (t, n)"
  shows "0 < n"
proof -
  have "m \<noteq> []" if "find (matches_binding s) (special_names b (hd s)) = Some m" for m
    using find_in [OF that] assms(1) by (auto simp: bindings_ok_def)
  then show ?thesis using assms(2,3)
    by (auto simp: lex_step_def Let_def raise_def split: if_splits option.splits)
qed

lemma lex_proper: "bindings_ok b \<Longrightarrow> length s \<le> fuel \<Longrightarrow> proper (lex_from F b fuel s p)"
proof (induction F b fuel s p rule: lex_from.induct)
  case (3 F b fuel c cs p)
  have "proper (lex_from F b fuel (drop n (c # cs)) (p + n))" if "lex_step F b (c # cs) p = Inr (t, n)" for t n
    using lex_step_consumes [OF 3(2) _ that] 3(3) by (intro 3(1) [OF that refl 3(2)]) simp
  then show ?case by (auto simp: lex_step_proper split: option.split)
qed simp_all

text \<open>What the lexer emits.\<close>

definition token_ok :: "'f floats \<Rightarrow> Bindings \<Rightarrow> 'f token \<Rightarrow> bool" where
  "token_ok F b t \<longleftrightarrow> (tk_kind t = tBinding \<longrightarrow> 0 \<le> tk_slot t \<and> tk_slot t < inputLen b)
     \<and> (tk_kind t = tBool \<longrightarrow> tk_num t \<in> {f_zero F, f_one F}) \<and> tk_kind t \<noteq> tEOF"

lemma lex_step_token:
  assumes b: "bindings_ok b" and s: "lex_step F b s p = Inr (Some t, n)"
  shows "token_ok F b t"
proof -
  have named: "0 \<le> slot \<and> slot < inputLen b" if "fmlookup (byName b) m = Some slot" for m slot
    using b that by (auto simp: bindings_ok_def)
  have special: "\<exists>slot. fmlookup (byName b) m = Some slot" if "find (matches_binding s) (special_names b (hd s)) = Some m" for m
    using find_in [OF that] b by (auto simp: bindings_ok_def fmlookup_dom_iff)
  have two: "k \<notin> {tBinding, tBool, tEOF}" if "map_of two_char_tokens x = Some k" for k x
    using that by (auto simp: two_char_tokens_def split: if_splits)
  have one: "k \<notin> {tBinding, tBool, tEOF}" if "map_of one_char_tokens x = Some k" for k x
    using that by (auto simp: one_char_tokens_def split: if_splits)
  show ?thesis using s
    by (auto simp: lex_step_def Let_def raise_def token_ok_def boolNumber_def Bindings_Resolve_def
        dest: named special two one split: if_splits option.splits)
qed

definition tokens_ok :: "'f floats \<Rightarrow> Bindings \<Rightarrow> 'f token list \<Rightarrow> bool" where
  "tokens_ok F b ts \<longleftrightarrow> (\<exists>us p. ts = us @ [eof_token F p] \<and> list_all (token_ok F b) us)"

lemma lex_tokens: "bindings_ok b \<Longrightarrow> lex_from F b fuel s p = Inr ts \<Longrightarrow> tokens_ok F b ts"
proof (induction F b fuel s p arbitrary: ts rule: lex_from.induct)
  case (1 F b fuel p)
  then show ?case by (auto simp: tokens_ok_def intro: exI [of _ "[]"])
next
  case (3 F b fuel c cs p)
  then obtain t n us where s: "lex_step F b (c # cs) p = Inr (t, n)" "lex_from F b fuel (drop n (c # cs)) (p + n) = Inr us"
    "ts = (case t of None \<Rightarrow> us | Some t \<Rightarrow> t # us)" by auto
  have us: "tokens_ok F b us" by (rule 3(1) [OF s(1) refl 3(2) s(2)])
  show ?case
  proof (cases t)
    case None
    then show ?thesis using us s(3) by simp
  next
    case (Some u)
    obtain vs q where v: "us = vs @ [eof_token F q]" "list_all (token_ok F b) vs" using us by (auto simp: tokens_ok_def)
    have "ts = (u # vs) @ [eof_token F q]" using s(3) v(1) Some by simp
    moreover have "list_all (token_ok F b) (u # vs)" using v(2) lex_step_token [OF 3(2)] s(1) Some by simp
    ultimately show ?thesis unfolding tokens_ok_def by blast
  qed
qed simp_all

section \<open>The parser returns\<close>

definition ends :: "'f token list \<Rightarrow> bool" where
  "ends ts \<longleftrightarrow> ts \<noteq> [] \<and> tk_kind (last ts) = tEOF"

lemma tokens_ok_ends: "tokens_ok F b ts \<Longrightarrow> ends ts"
  by (auto simp: tokens_ok_def ends_def eof_token_def)

lemma before_end:
  assumes "ends ts" "tk_kind (parser_current ts i) \<noteq> tEOF"
  shows "i + 1 < length ts"
proof (rule ccontr)
  assume "\<not> ?thesis"
  then have "min i (length ts - 1) = length ts - 1" by simp
  moreover have "last ts = ts ! (length ts - 1)" using assms(1) by (simp add: ends_def last_conv_nth)
  ultimately show False using assms by (simp add: parser_current_def ends_def)
qed

lemma precedence_eof: "0 \<le> m \<Longrightarrow> binaryPrecedence k = (q, r) \<Longrightarrow> \<not> q < m \<Longrightarrow> k \<noteq> tEOF \<and> 0 \<le> q"
  by (cases k) auto

text \<open>The fuel of a call is four times the tokens left and a little; every success has moved on.\<close>

definition advances :: "nat \<Rightarrow> ('a \<times> nat) outcome \<Rightarrow> bool" where
  "advances i r \<longleftrightarrow> proper r \<and> (\<forall>x j. r = Inr (x, j) \<longrightarrow> i \<le> j)"

lemma advances_simps [simp]: "advances i (Inr (x, j)) \<longleftrightarrow> i \<le> j" "advances i (raise k p)" "\<not> advances i (Inl NoFuel)"
  by (auto simp: advances_def raise_def)

lemma advances_then: "advances j r \<Longrightarrow> (\<And>x k. r = Inr (x, k) \<Longrightarrow> j \<le> k \<Longrightarrow> advances i (f x k)) \<Longrightarrow> advances i (run_then r (\<lambda>(x, k). f x k))"
  by (cases r) (auto simp: advances_def proper_def)

lemma parser_advances:
  "ends ts \<Longrightarrow> 0 \<le> m \<Longrightarrow> 4 * (length ts - i) + 3 \<le> fuel \<Longrightarrow> advances (i + 1) (parseExpression fuel ts m i)"
  "ends ts \<Longrightarrow> 0 \<le> m \<Longrightarrow> 4 * (length ts - i) + 2 \<le> fuel \<Longrightarrow> advances i (parse_binary fuel ts m e i)"
  "ends ts \<Longrightarrow> 4 * (length ts - i) + 2 \<le> fuel \<Longrightarrow> advances (i + 1) (parser_prefix fuel ts i)"
  "ends ts \<Longrightarrow> 4 * (length ts - i) + 4 \<le> fuel \<Longrightarrow> advances (i + 1) (parse_args fuel ts i)"
proof (induction fuel ts m i and fuel ts m e i and fuel ts i and fuel ts i
    rule: parseExpression_parse_binary_parser_prefix_parse_args.induct)
  case (2 fuel ts m i)
  have "advances (i + 1) (parser_prefix fuel ts i)" using 2 by simp
  then show ?case unfolding parseExpression.simps
  proof (rule advances_then)
    fix x k
    assume x: "parser_prefix fuel ts i = Inr (x, k)" "i + 1 \<le> k"
    have "advances k (parse_binary fuel ts m x k)" using 2(2) [OF x(1) refl] 2(3-5) x(2) by simp
    then show "advances (i + 1) (parse_binary fuel ts m x k)" using x(2) by (auto simp: advances_def)
  qed
next
  case (4 fuel ts m e i)
  obtain q r where q: "binaryPrecedence (tk_kind (parser_current ts i)) = (q, r)" by fastforce
  show ?case
  proof (cases "q < m")
    case True
    then show ?thesis using q by simp
  next
    case False
    define m' where "m' = (if r then q else q + 1)"
    have k: "tk_kind (parser_current ts i) \<noteq> tEOF" "0 \<le> m'" using precedence_eof [OF 4(4) q False] by (auto simp: m'_def)
    have l: "i + 1 < length ts" by (rule before_end [OF 4(3) k(1)])
    have "advances (i + 1 + 1) (parseExpression fuel ts m' (i + 1))"
      using 4(1) [OF refl q [symmetric] refl False] 4(3,5) k l by (auto simp: m'_def)
    then have "advances i (run_then (parseExpression fuel ts m' (i + 1)) (\<lambda>(right, j).
        parse_binary fuel ts m (Binary e (tk_kind (parser_current ts i)) right) j))"
    proof (rule advances_then)
      fix x k
      assume x: "parseExpression fuel ts m' (i + 1) = Inr (x, k)" "i + 1 + 1 \<le> k"
      have "advances k (parse_binary fuel ts m (Binary e (tk_kind (parser_current ts i)) x) k)"
        using 4(2) [OF refl q [symmetric] refl False, of "(x, k)" x k] 4(3-5) l x by (auto simp: m'_def)
      then show "advances i (parse_binary fuel ts m (Binary e (tk_kind (parser_current ts i)) x) k)"
        using x(2) by (auto simp: advances_def)
    qed
    then show ?thesis using False q by (simp add: m'_def)
  qed
next
  case (6 fuel ts i)
  define t where "t = parser_current ts i"
  note prems = 6(5,6)
  have l: "i + 1 < length ts" if "tk_kind t \<noteq> tEOF" using before_end [OF prems(1)] that by (simp add: t_def)
  have args: "advances (i + 3) (parse_args fuel ts (i + 2))"
    if "tk_kind t = tIdent" "tk_kind (parser_current ts (i + 1)) = tLParen" "tk_kind (parser_current ts (i + 2)) \<noteq> tRParen"
    using 6(1) [OF refl refl] that l prems by (simp add: t_def numeral_3_eq_3)
  have sub: "advances (i + 2) (parseExpression fuel ts n (i + 1))"
    if "tk_kind t = tLParen \<and> n = 0 \<or> tk_kind t = tMinus \<and> n = 7 \<or> tk_kind t = tBang \<and> n = 7" for n
    using 6(2-4) [OF refl refl] that l prems by (auto simp: t_def)
  have weaken: "advances (i + 1) r" if "advances j r" "i + 1 \<le> j" for r :: "('a expr \<times> nat) outcome" and j
    using that by (auto simp: advances_def)
  have call: "advances (i + 1) (run_then (parse_args fuel ts (i + 2)) (\<lambda>(args, j). Inr (Call (tk_text t) args, j)))"
    if "tk_kind t = tIdent" "tk_kind (parser_current ts (i + 1)) = tLParen" "tk_kind (parser_current ts (i + 2)) \<noteq> tRParen"
    by (rule advances_then [OF args [OF that]]) simp
  have paren: "advances (i + 1) (run_then (parseExpression fuel ts 0 (i + 1)) (\<lambda>(v, j).
      if tk_kind (parser_current ts j) \<noteq> tRParen then raise ErrMissingClosingParen (tk_pos t) else Inr (v, j + 1)))" if "tk_kind t = tLParen"
    using that by (intro advances_then [OF sub [of 0]]) auto
  have un: "advances (i + 1) (run_then (parseExpression fuel ts 7 (i + 1)) (\<lambda>(v, j). Inr (Unary k v, j)))"
    if "tk_kind t = tMinus \<or> tk_kind t = tBang" for k
    using that by (intro advances_then [OF sub [of 7]]) auto
  show ?case using call paren un
    by (cases "tk_kind t") (simp_all add: Let_def t_def [symmetric] numeral_2_eq_2)
next
  case (8 fuel ts i)
  have "advances (i + 1) (parseExpression fuel ts 0 i)" using 8(1,3,4) by simp
  then show ?case unfolding parse_args.simps
  proof (rule advances_then)
    fix x k
    assume x: "parseExpression fuel ts 0 i = Inr (x, k)" "i + 1 \<le> k"
    have "advances (k + 2) (parse_args fuel ts (k + 1))" if "tk_kind (parser_current ts k) = tComma"
      using 8(2) [OF x(1) refl] that 8(3,4) x(2) before_end [OF 8(3), of k] by simp
    then have "advances (i + 1) (run_then (parse_args fuel ts (k + 1)) (\<lambda>(args, j). Inr (x # args, j)))"
      if "tk_kind (parser_current ts k) = tComma"
      using that x(2) by (intro advances_then [of "k + 2"]) auto
    then show "advances (i + 1) (if tk_kind (parser_current ts k) = tRParen then Inr ([x], k + 1)
       else if tk_kind (parser_current ts k) \<noteq> tComma then raise ErrUnexpected (tk_pos (parser_current ts k))
       else run_then (parse_args fuel ts (k + 1)) (\<lambda>(args, j). Inr (x # args, j)))"
      using x(2) by simp
  qed
qed simp_all

lemma parseStatement_advances: "ends ts \<Longrightarrow> advances (i + 1) (parseStatement ts i)"
proof -
  assume e: "ends ts"
  have "advances (j + 1) (parseExpression (parser_fuel ts) ts 0 j)" for j
    using e by (intro parser_advances(1)) (simp_all add: parser_fuel_def)
  note a = this
  show ?thesis unfolding parseStatement_def
    by (rule if_split [THEN iffD2], intro conjI impI; rule advances_then [OF a]) simp_all
qed

lemma parse_statements_proper: "ends ts \<Longrightarrow> length ts - i \<le> fuel \<Longrightarrow> 0 < fuel \<Longrightarrow> proper (parse_statements fuel ts i)"
proof (induction fuel ts i rule: parse_statements.induct)
  case (2 fuel ts i)
  note a = parseStatement_advances [OF 2(2), of i]
  show ?case unfolding parse_statements.simps
  proof (rule proper_run_then)
    show "proper (parseStatement ts i)" using a by (simp add: advances_def)
    fix x
    assume x: "parseStatement ts i = Inr x"
    obtain st k where k: "x = (st, k)" by (cases x)
    have ik: "i + 1 \<le> k" using a x k by (auto simp: advances_def)
    have "proper (parse_statements fuel ts (k + 1))" if "tk_kind (parser_current ts k) = tSemicolon" "tk_kind (parser_current ts (k + 1)) \<noteq> tEOF"
      using 2(1) [OF x k [symmetric]] that 2(2-4) before_end [OF 2(2), of k] ik by simp
    then show "proper (case x of (st, i) \<Rightarrow> if tk_kind (parser_current ts i) \<noteq> tSemicolon then Inr ([st], False, i)
        else if tk_kind (parser_current ts (i + 1)) = tEOF then Inr ([st], True, i + 1)
        else run_then (parse_statements fuel ts (i + 1)) (\<lambda>(sts, trail, i). Inr (st # sts, trail, i)))"
      by (auto simp: k)
  qed
qed simp

lemma parse_proper: "ends ts \<Longrightarrow> proper (parse ts)"
  using parse_statements_proper [of ts 0 "length ts"] by (auto simp: parse_def ends_def)

section \<open>What the parser builds\<close>

fun expr_ok :: "'f floats \<Rightarrow> Bindings \<Rightarrow> 'f expr \<Rightarrow> bool" where
  "expr_ok F b (Literal v t) \<longleftrightarrow> t = Number \<or> t = Bool \<and> v \<in> {f_zero F, f_one F}"
| "expr_ok F b (Input slot) \<longleftrightarrow> 0 \<le> slot \<and> slot < inputLen b"
| "expr_ok F b (Name n) \<longleftrightarrow> True"
| "expr_ok F b (Unary op e) \<longleftrightarrow> expr_ok F b e"
| "expr_ok F b (Binary l op r) \<longleftrightarrow> expr_ok F b l \<and> expr_ok F b r"
| "expr_ok F b (Call n args) \<longleftrightarrow> (\<forall>a\<in>set args. expr_ok F b a)"

lemma current_token:
  assumes "tokens_ok F b ts" "tk_kind (parser_current ts i) \<noteq> tEOF"
  shows "token_ok F b (parser_current ts i)"
proof -
  obtain us p where ts: "ts = us @ [eof_token F p]" "list_all (token_ok F b) us" using assms(1) by (auto simp: tokens_ok_def)
  have "i < length us" using before_end [OF tokens_ok_ends [OF assms(1)] assms(2)] by (simp add: ts(1))
  then show ?thesis using ts(2) by (simp add: parser_current_def ts(1) nth_append min_def list_all_length)
qed

lemma parser_ok:
  "tokens_ok F b ts \<Longrightarrow> parseExpression fuel ts m i = Inr (e, j) \<Longrightarrow> expr_ok F b e"
  "tokens_ok F b ts \<Longrightarrow> expr_ok F b e0 \<Longrightarrow> parse_binary fuel ts m e0 i = Inr (e, j) \<Longrightarrow> expr_ok F b e"
  "tokens_ok F b ts \<Longrightarrow> parser_prefix fuel ts i = Inr (e, j) \<Longrightarrow> expr_ok F b e"
  "tokens_ok F b ts \<Longrightarrow> parse_args fuel ts i = Inr (es, j) \<Longrightarrow> \<forall>a\<in>set es. expr_ok F b a"
proof (induction fuel ts m i and fuel ts m e0 i and fuel ts i and fuel ts i arbitrary: e j and e j and e j and es j
    rule: parseExpression_parse_binary_parser_prefix_parse_args.induct)
  case (2 fuel ts m i)
  obtain x k where x: "parser_prefix fuel ts i = Inr (x, k)" "parse_binary fuel ts m x k = Inr (e, j)" using 2(4) by auto
  show ?case by (rule 2(2) [OF x(1) refl 2(3) 2(1) [OF 2(3) x(1)] x(2)])
next
  case (4 fuel ts m e0 i)
  obtain q r where q: "binaryPrecedence (tk_kind (parser_current ts i)) = (q, r)" by fastforce
  show ?case
  proof (cases "q < m")
    case True
    then show ?thesis using 4(4,5) q by simp
  next
    case False
    note ih = 4(1,2) [OF refl q [symmetric] refl False]
    obtain x k where x: "parseExpression fuel ts (if r then q else q + 1) (i + 1) = Inr (x, k)"
      "parse_binary fuel ts m (Binary e0 (tk_kind (parser_current ts i)) x) k = Inr (e, j)"
      using 4(5) q False by auto
    have "expr_ok F b x" by (rule ih(1) [OF 4(3) x(1)])
    then show ?thesis using ih(2) [OF x(1) refl 4(3) _ x(2)] 4(4) by simp
  qed
next
  case (6 fuel ts i)
  define t where "t = parser_current ts i"
  have t: "tk_kind t \<noteq> tEOF \<Longrightarrow> token_ok F b t" using current_token [OF 6(5)] by (simp add: t_def)
  note ih = 6(1-4) [OF refl refl, folded t_def]
  show ?case using 6(6) ih t 6(5)
    by (cases "tk_kind t") (auto simp: Let_def t_def [symmetric] raise_def token_ok_def split: if_splits)
next
  case (8 fuel ts i)
  obtain x k where x: "parseExpression fuel ts 0 i = Inr (x, k)" using 8(4) by auto
  have "expr_ok F b x" by (rule 8(1) [OF 8(3) x])
  then show ?case using 8(4) x 8(2) [OF x refl _ _ 8(3)] by (auto simp: raise_def split: if_splits)
qed simp_all

lemma parseStatement_ok: "tokens_ok F b ts \<Longrightarrow> parseStatement ts i = Inr (st, j) \<Longrightarrow> expr_ok F b (stmt_value st)"
  by (auto simp: parseStatement_def dest: parser_ok(1) split: if_splits)

lemma parse_statements_ok:
  "tokens_ok F b ts \<Longrightarrow> parse_statements fuel ts i = Inr (sts, trail, j) \<Longrightarrow> sts \<noteq> [] \<and> (\<forall>st\<in>set sts. expr_ok F b (stmt_value st))"
proof (induction fuel ts i arbitrary: sts trail j rule: parse_statements.induct)
  case (2 fuel ts i)
  obtain st k where st: "parseStatement ts i = Inr (st, k)" using 2(3) by auto
  note ok = parseStatement_ok [OF 2(2) st] and ih = 2(1) [OF st refl _ _ 2(2)]
  show ?case using 2(3) st ok ih by (auto split: if_splits)
qed simp

lemma parse_ok:
  "tokens_ok F b ts \<Longrightarrow> parse ts = Inr prog \<Longrightarrow> statements prog \<noteq> [] \<and> (\<forall>st\<in>set (statements prog). expr_ok F b (stmt_value st))"
  using parse_statements_ok [of F b ts "length ts" 0] by (auto simp: parse_def raise_def split: if_splits)

section \<open>Evaluation follows the types\<close>

definition value_ok :: "'f floats \<Rightarrow> ValueType \<Rightarrow> 'f runtimeValue \<Rightarrow> bool" where
  "value_ok F t v \<longleftrightarrow> t \<noteq> Empty \<and> rv_typ v = t \<and> (t = Bool \<longrightarrow> rv_number v \<in> {f_zero F, f_one F})"

definition env_ok :: "'f floats \<Rightarrow> (string, ValueType) fmap \<Rightarrow> (string, 'f runtimeValue) fmap \<Rightarrow> bool" where
  "env_ok F types locals \<longleftrightarrow> (\<forall>n t. fmlookup types n = Some t \<longrightarrow> (\<exists>v. fmlookup locals n = Some v \<and> value_ok F t v))"

lemma env_ok_update: "env_ok F types locals \<Longrightarrow> value_ok F t v \<Longrightarrow> env_ok F (fmupd n t types) (fmupd n v locals)"
  by (simp add: env_ok_def)

lemma bool_values [simp]: "boolNumber F x = f_zero F \<or> boolNumber F x = f_one F"
  by (simp add: boolNumber_def)

lemma evalBinary_ok:
  "value_ok F (if connective op \<or> comparison op then Bool else Number) (evalBinary F op x y)"
  by (cases op) (auto simp: value_ok_def evalBinary_def connective_def comparison_def Let_def)

text \<open>Slots read by an evaluation, all bound.\<close>

definition slots_ok :: "Bindings \<Rightarrow> int list \<Rightarrow> bool" where
  "slots_ok b tr = list_all (\<lambda>slot. 0 \<le> slot \<and> slot < inputLen b) tr"

lemma slots_ok_simps [simp]: "slots_ok b []" "slots_ok b (tr @ tr') \<longleftrightarrow> slots_ok b tr \<and> slots_ok b tr'"
  by (simp_all add: slots_ok_def)

lemma evaluate_ok:
  "expr_ok F b e \<Longrightarrow> infer e types = Inr (t, d) \<Longrightarrow> env_ok F types locals \<Longrightarrow> inputLen b \<le> int (length inputs) \<Longrightarrow>
     \<exists>tr v. evaluate F e inputs locals = Inr (tr, v) \<and> value_ok F t v \<and> slots_ok b tr"
  "(\<forall>e\<in>set es. expr_ok F b e) \<Longrightarrow> infer_each es types = Inr ts \<Longrightarrow> env_ok F types locals \<Longrightarrow> inputLen b \<le> int (length inputs) \<Longrightarrow>
     list_all2 (\<lambda>e (t, _). \<exists>tr v. evaluate F e inputs locals = Inr (tr, v) \<and> value_ok F t v \<and> slots_ok b tr) es ts"
  "(\<forall>e\<in>set es. expr_ok F b e) \<Longrightarrow> infer_numbers es types index depth = Inr d \<Longrightarrow> env_ok F types locals \<Longrightarrow> inputLen b \<le> int (length inputs) \<Longrightarrow>
     \<exists>tr vs. evaluate_args F es inputs locals = Inr (tr, vs) \<and> length vs = length es \<and> slots_ok b tr"
proof (induction e types and es types and es types index depth arbitrary: t d and ts and d rule: infer_infer_each_infer_numbers.induct)
  case (3 n types)
  from 3(2) have "fmlookup types n = Some t" by (auto simp: unknown_symbol_def split: option.splits)
  with 3(3) obtain v where "fmlookup locals n = Some v" "value_ok F t v" unfolding env_ok_def by blast
  then show ?case by simp
next
  case (4 op e types)
  from 4(3) obtain t' d' where t': "infer e types = Inr (t', d')" "t' = t" "t = (if op = tBang then Bool else Number)"
    by (auto simp: Let_def type_mismatch_def split: if_splits)
  then obtain tr v where v: "evaluate F e inputs locals = Inr (tr, v)" "value_ok F t v" "slots_ok b tr"
    using 4(1) [of t' d'] 4(2,4,5) by auto
  then show ?case using t'(3) by (auto simp: value_ok_def)
next
  case (5 l op r types)
  from 5(4) obtain tl dl tr' dr where i: "infer l types = Inr (tl, dl)" "infer r types = Inr (tr', dr)"
    "tl = (if connective op then Bool else Number)" "t = (if connective op \<or> comparison op then Bool else Number)"
    by (auto simp: Let_def type_mismatch_def split: if_splits)
  obtain s v where v: "evaluate F l inputs locals = Inr (s, v)" "value_ok F tl v" "slots_ok b s"
    using 5(1) [OF _ i(1) 5(5,6)] 5(3) by auto
  obtain s' w where w: "evaluate F r inputs locals = Inr (s', w)" "slots_ok b s'"
    using 5(2) [OF i(1) refl _ i(2) 5(5,6)] 5(3) by auto
  show ?case using v w evalBinary_ok [of F op "rv_number v" "rv_number w"] i(3,4)
    by (auto simp: value_ok_def connective_def)
next
  case (6 n args types)
  show ?case
  proof (cases "n = ''if''")
    case True
    then obtain ts where a: "infer_each args types = Inr ts" "length args = 3" using 6(4) by (auto simp: argumentError_def split: if_splits)
    note all = 6(1) [OF True _ _ a(1) 6(5,6)]
    obtain c l r where args: "args = [c, l, r]" using a(2) by (auto simp: numeral_3_eq_3 length_Suc_conv)
    from all 6(3) a(2) obtain tc dc t1 d1 t2 d2 where ts: "ts = [(tc, dc), (t1, d1), (t2, d2)]"
      by (auto simp: args list_all2_Cons1)
    have t: "t1 = t" "t2 = t" using 6(4) True a by (auto simp: ts type_mismatch_def split: if_splits)
    obtain s v s1 v1 s2 v2 where "evaluate F c inputs locals = Inr (s, v)" "evaluate F l inputs locals = Inr (s1, v1)"
      "evaluate F r inputs locals = Inr (s2, v2)" "value_ok F t v1" "value_ok F t v2" "slots_ok b s" "slots_ok b s1" "slots_ok b s2"
      using all 6(3) a(2) by (auto simp: args ts t)
    then show ?thesis by (cases "f_eq F (rv_number v) (f_zero F)") (simp_all add: args True)
  next
    case False
    have ch: "one_argument n \<or> many_arguments n" "\<not> one_argument n \<or> length args = 1" "\<not> many_arguments n \<or> 2 \<le> length args"
      using 6(4) False by (auto simp: argumentError_def unknown_symbol_def split: if_splits)
    then have a: "args \<noteq> []" by auto
    obtain dd where d: "infer_numbers args types 0 0 = Inr dd" "t = Number"
      using 6(4) False ch by (auto split: if_splits)
    obtain tr vs where e: "evaluate_args F args inputs locals = Inr (tr, vs)" "length vs = length args" "slots_ok b tr"
      using 6(2) [OF False _ _ _ _ d(1) 6(5,6)] ch 6(3) by auto
    then show ?thesis using a d(2) False by (cases vs) (auto simp: apply_call_def value_ok_def)
  qed
next
  case (8 e es types)
  from 8(4) obtain t d us where i: "infer e types = Inr (t, d)" "infer_each es types = Inr us" "ts = (t, d) # us" by auto
  show ?case using 8(1) [OF _ i(1) 8(5,6)] 8(2) [OF i(1) _ i(2) 8(5,6)] 8(3) i(3) by auto
next
  case (10 e es types index depth)
  from 10(4) obtain d' where i: "infer e types = Inr (Number, d')" "infer_numbers es types (index + 1) (max depth (index + d')) = Inr d"
    by (auto simp: type_mismatch_def split: if_splits)
  show ?case using 10(1) [OF _ i(1) 10(5,6)] 10(2) [OF i(1) refl _ _ i(2) 10(5,6)] 10(3) by auto
qed (auto simp: value_ok_def slots_ok_def)

lemma eval_statements_ok:
  "(\<forall>st\<in>set sts. expr_ok F b (stmt_value st)) \<Longrightarrow> infer_statements sts types m = Inr (types', m') \<Longrightarrow> env_ok F types locals
    \<Longrightarrow> inputLen b \<le> int (length inputs) \<Longrightarrow>
    \<exists>tr v. eval_statements F sts inputs locals res = Inr (tr, v) \<and> slots_ok b tr
      \<and> (sts \<noteq> [] \<and> assign (last sts) = [] \<longrightarrow> (\<exists>t d. infer (stmt_value (last sts)) types' = Inr (t, d) \<and> value_ok F t v))"
proof (induction sts arbitrary: types m locals res)
  case (Cons st sts)
  from Cons(3) obtain t d where i: "infer (stmt_value st) types = Inr (t, d)" by auto
  obtain tr v where v: "evaluate F (stmt_value st) inputs locals = Inr (tr, v)" "value_ok F t v" "slots_ok b tr"
    using evaluate_ok(1) [OF _ i Cons(4,5)] Cons(2) by auto
  define types1 locals1 res1 where "types1 = (if assign st = [] then types else fmupd (assign st) t types)"
    and "locals1 = (if assign st = [] then locals else fmupd (assign st) v locals)" and "res1 = (if assign st = [] then v else res)"
  have r: "infer_statements sts types1 (max m d) = Inr (types', m')"
    using Cons(3) i by (auto simp: Let_def types1_def type_mismatch_def split: if_splits option.splits)
  have e: "env_ok F types1 locals1" using Cons(4) v(2) by (simp add: types1_def locals1_def env_ok_update)
  obtain tr' w where w: "eval_statements F sts inputs locals1 res1 = Inr (tr', w)" "slots_ok b tr'"
    "sts \<noteq> [] \<and> assign (last sts) = [] \<longrightarrow> (\<exists>t d. infer (stmt_value (last sts)) types' = Inr (t, d) \<and> value_ok F t w)"
    using Cons(1) [OF _ r e Cons(5), of res1] Cons(2) by auto
  have "eval_statements F (st # sts) inputs locals res = Inr (tr @ tr', w)"
    using v(1) w(1) by (simp add: locals1_def res1_def split: if_splits)
  moreover have "types' = types \<and> w = v" if "sts = []" "assign st = []"
    using that r w(1) by (simp add: types1_def res1_def)
  ultimately show ?case using v w i by (cases "sts = []") auto
qed auto

section \<open>Properties\<close>

lemma tokenize_ok: "bindings_ok b \<Longrightarrow> proper (tokenize F source b) \<and> (\<forall>ts. tokenize F source b = Inr ts \<longrightarrow> tokens_ok F b ts)"
  using lex_proper [of b source "length source" F 0] lex_tokens [of b F "length source" source 0] by (auto simp: tokenize_def)

lemma infer_proper:
  fixes e :: "'f expr" and es :: "'f expr list"
  shows
  "proper (infer e types)" "proper (infer_each es types) \<and> (\<forall>ts. infer_each es types = Inr ts \<longrightarrow> length ts = length es)"
  "proper (infer_numbers es types index depth)"
proof (induction e types and es types and es types index depth rule: infer_infer_each_infer_numbers.induct)
  case (6 n args types)
  have "proper (case ts of [(condition, d0), (left, d1), (right, d2)] \<Rightarrow>
      if condition \<noteq> Bool \<or> left \<noteq> right then type_mismatch left right else Inr (left, max d0 (max d1 d2)) | _ \<Rightarrow> Inl Panic)"
    if "length ts = 3" for ts :: "(ValueType \<times> nat) list"
    using that by (auto simp: numeral_3_eq_3 length_Suc_conv)
  with 6 show ?case by (auto split: if_splits)
qed (auto split: option.split simp: Let_def)

lemma infer_statements_proper: "proper (infer_statements sts types m)"
  by (induction sts types m rule: infer_statements.induct) (auto simp: infer_proper Let_def split: option.split)

text \<open>
  C37. Compilation always returns. For every source text and every well-formed set of bindings the lexer, the parser and the compiler
  return a result or one of the documented errors: their loops never run out of fuel and they never panic.
\<close>

theorem compile_returns:
  assumes "bindings_ok b"
  shows "proper (tokenize F source b) \<and> (\<forall>ts. tokenize F source b = Inr ts \<longrightarrow> proper (parse ts))
    \<and> proper (Compile F source b) \<and> proper (CompileNumeric F source b)"
proof -
  note t = tokenize_ok [OF assms, of F source]
  have p: "proper (parse ts)" if "tokenize F source b = Inr ts" for ts
    using t that by (intro parse_proper tokens_ok_ends) auto
  have c: "proper (Compile F source b)" unfolding Compile_def
    using t p by (auto simp: infer_statements_proper Let_def)
  then have "proper (CompileNumeric F source b)" unfolding CompileNumeric_def by auto
  with t p c show ?thesis by blast
qed

text \<open>Whole numbers as an instance of the arithmetic, and a formula over one input.\<close>

definition whole_floats :: "int floats" where
  "whole_floats = \<lparr>f_zero = 0, f_one = 1, f_parse = (\<lambda>w. if list_all is_digit w then Some (foldl (\<lambda>n c. 10 * n + int (char_digit c)) 0 w) else None),
     f_eq = (=), f_less = (<), f_le = (\<le>), f_neg = uminus, f_add = (+), f_sub = (-), f_mul = (*), f_div = (\<lambda>x y. x div y),
     f_mod = (\<lambda>x y. x mod y), f_pow = (\<lambda>x y. x ^ nat y), f_abs = abs, f_ceil = id, f_floor = id, f_round = id, f_min = min, f_max = max\<rparr>"

definition sample_bindings :: Bindings where
  "sample_bindings = (case Bindings_Add NewBindings 0 ''BTC-USD'' of Inr b \<Rightarrow> b | Inl _ \<Rightarrow> NewBindings)"

definition sample_formula :: string where
  "sample_formula = ''x = BTC-USD * 2; if(x > 3 && !(x == 4), max(x, 7) - 1, 0)''"

lemma sample_bindings_ok: "bindings_ok sample_bindings" "inputLen sample_bindings = 1"
proof -
  show "bindings_ok sample_bindings"
    using add_bindings_ok [OF new_bindings_ok, of 0 "''BTC-USD''"] new_bindings_ok by (auto simp: sample_bindings_def split: sum.split)
  show "inputLen sample_bindings = 1" by code_simp
qed

lemma sample_compiled:
  "case Compile whole_floats sample_formula sample_bindings of Inl _ \<Rightarrow> False
   | Inr c \<Rightarrow> cp_typ c = Number \<and> Eval whole_floats c [5] = Inr 9 \<and> Eval whole_floats c [2] = Inr 0 \<and> EvalObserved whole_floats c [1] = Inr ([0], 0)"
  by code_simp

theorem compile_returns_witness:
  "bindings_ok sample_bindings \<and> proper (Compile whole_floats ''(((1'' sample_bindings)
   \<and> proper (Compile whole_floats sample_formula sample_bindings)"
  using compile_returns [OF sample_bindings_ok(1), of whole_floats] sample_bindings_ok(1) by blast

text \<open>
  C38. Compiled formulas are type sound. A formula that compiles, evaluated on at least as many inputs as are bound, never panics: if its
  type is a number it returns a number, if its type is a truth value it returns zero or one, and if it has no
  result it returns the documented error; with too few inputs it returns the input-count error. An observed evaluation reads bound slots only,
  and for a formula with a result it returns the same number.
\<close>

theorem compile_type_sound:
  assumes "bindings_ok b" "Compile F source b = Inr c"
  shows "if int (length inputs) < inputLen b then \<exists>e. Eval F c inputs = Inl (Err e) \<and> er_Kind e = ErrInputCount
    else (case cp_typ c of
        Empty \<Rightarrow> \<exists>e. Eval F c inputs = Inl (Err e) \<and> er_Kind e = ErrEmptyExpression
      | Number \<Rightarrow> \<exists>x. Eval F c inputs = Inr x
      | Bool \<Rightarrow> Eval F c inputs = Inr (f_zero F) \<or> Eval F c inputs = Inr (f_one F))
      \<and> (\<exists>tr x. EvalObserved F c inputs = Inr (tr, x) \<and> (cp_typ c \<noteq> Empty \<longrightarrow> Eval F c inputs = Inr x)
          \<and> (\<forall>slot\<in>set tr. 0 \<le> slot \<and> slot < inputLen b))"
proof -
  obtain ts prog types m where t: "tokenize F source b = Inr ts" "parse ts = Inr prog" "infer_statements (statements prog) fmempty 0 = Inr (types, m)"
    and c: "cp_program c = prog" "cp_bindings c = b" "cp_typ c = (if \<not> trailing prog \<and> assign (last (statements prog)) = []
      then (case infer (stmt_value (last (statements prog))) types of Inr (t, _) \<Rightarrow> t | Inl _ \<Rightarrow> Empty) else Empty)"
    using assms(2) by (auto simp: Compile_def Let_def split: if_splits)
  note ok = parse_ok [OF _ t(2), of F b]
  have p: "statements prog \<noteq> []" "\<forall>st\<in>set (statements prog). expr_ok F b (stmt_value st)"
    using ok tokenize_ok [OF assms(1), of F source] t(1) by auto
  show ?thesis
  proof (cases "int (length inputs) < inputLen b")
    case True
    then show ?thesis by (simp add: Eval_def input_count_def c error_of_def)
  next
    case False
    then obtain tr v where v: "eval_statements F (statements prog) inputs fmempty (zero_value F) = Inr (tr, v)" "slots_ok b tr"
      "assign (last (statements prog)) = [] \<longrightarrow> (\<exists>t d. infer (stmt_value (last (statements prog))) types = Inr (t, d) \<and> value_ok F t v)"
      using eval_statements_ok [OF p(2) t(3), of fmempty inputs "zero_value F"] p(1) by (auto simp: env_ok_def)
    have n: "input_count c inputs = None" using False by (simp add: input_count_def c)
    have "cp_typ c = Empty \<or> value_ok F (cp_typ c) v" using v(3) c(3) by auto
    then show ?thesis using False v(1,2) n
      by (auto simp: Eval_def EvalObserved_def c raise_def error_of_def value_ok_def slots_ok_def list_all_iff split: ValueType.split)
  qed
qed

theorem compile_type_sound_witness:
  "\<exists>c x. Compile whole_floats sample_formula sample_bindings = Inr c \<and> cp_typ c = Number \<and> Eval whole_floats c [5] = Inr x \<and> x = 9"
proof -
  obtain c where c: "Compile whole_floats sample_formula sample_bindings = Inr c" "cp_typ c = Number" "Eval whole_floats c [5] = Inr 9"
    using sample_compiled by (auto split: sum.splits)
  from compile_type_sound [OF sample_bindings_ok(1) c(1), of "[5]"] sample_bindings_ok(2) c
  have "\<exists>x. Eval whole_floats c [5] = Inr x" by simp
  with c show ?thesis by auto
qed

text \<open>An observed evaluation of a formula without a result returns a number where \<open>Eval\<close> returns an error.\<close>

theorem observed_differs_without_result:
  "case Compile whole_floats ''BTC-USD;'' sample_bindings of Inl _ \<Rightarrow> False
   | Inr c \<Rightarrow> Eval whole_floats c [5] = Inl (Err (error_of ErrEmptyExpression)) \<and> EvalObserved whole_floats c [5] = Inr ([0], 5)"
  by code_simp

end
