(* ===== verification/DefiTicks.thy ===== *)
theory DefiTicks
  imports DefiMath "HOL-Library.Finite_Map"
begin

text \<open>
  The ticks of a liquidity pool (\<open>internal/defi/tickmap\<close>: \<open>bit_tick.go\<close>, \<open>tick_bitmap.go\<close>, \<open>tick_map.go\<close>). An \<open>int32\<close> is an
  integer, and every operation on it that can leave the range is wrapped by \<open>int32\<close>; the Go maps are
  finite maps. The bitmap refines the set of initialized ticks, its search finds the nearest one within a
  word, the tick map keeps the bitmap in step with the gross liquidity of the ticks, and fee growth is
  additive over ranges and continuous across ticks, modulo \<open>2^256\<close>.
\<close>

unbundle bit_operations_syntax

section \<open>Ticks\<close>

definition int32 :: "int \<Rightarrow> int" where "int32 v = signed_take_bit 31 v"
definition int16 :: "int \<Rightarrow> int" where "int16 v = signed_take_bit 15 v"

definition MinTick :: int where "MinTick = - 887272"
definition MaxTick :: int where "MaxTick = 887272"

definition MostSignificantBit :: "int option \<Rightarrow> int" where
  "MostSignificantBit v = (case v of None \<Rightarrow> 0 | Some v \<Rightarrow> if v = 0 then 0 else int32 (int (BitLen v) - 1))"

definition LeastSignificantBit :: "int option \<Rightarrow> int" where
  "LeastSignificantBit v = (case v of None \<Rightarrow> 0 | Some v \<Rightarrow>
     if v = 0 then 0 else case find (bit v) [0 ..< BitLen v] of None \<Rightarrow> 0 | Some b \<Rightarrow> int32 (int b))"

record PoolTick =
  Value :: int
  LiquidityGross :: int
  LiquidityNet :: int
  FeeGrowthOutside0 :: int
  FeeGrowthOutside1 :: int
  Initialized :: bool
  LastUpdatedBlock :: u64
  UpdatesCount :: u64

definition NewPoolTick :: "int \<Rightarrow> PoolTick" where
  "NewPoolTick v = \<lparr>Value = v, LiquidityGross = 0, LiquidityNet = 0, FeeGrowthOutside0 = 0, FeeGrowthOutside1 = 0,
     Initialized = False, LastUpdatedBlock = 0, UpdatesCount = 0\<rparr>"

definition tick_UpdateLiquidity :: "PoolTick \<Rightarrow> int \<Rightarrow> bool \<Rightarrow> LiquidityError + (PoolTick \<times> int)" where
  "tick_UpdateLiquidity t delta upper =
     (case LiquidityMathAdd (Some (LiquidityGross t)) (Some delta) of
        Inl e \<Rightarrow> Inl e
      | Inr gross \<Rightarrow> Inr (t\<lparr>LiquidityGross := gross,
          LiquidityNet := (if upper then LiquidityNet t - delta else LiquidityNet t + delta),
          UpdatesCount := UpdatesCount t + 1\<rparr>, LiquidityGross t))"

definition IsActive :: "PoolTick \<Rightarrow> bool" where
  "IsActive t = (Initialized t \<and> 0 < LiquidityGross t)"

definition tick_Clear :: "PoolTick \<Rightarrow> PoolTick" where
  "tick_Clear t = t\<lparr>LiquidityGross := 0, LiquidityNet := 0, FeeGrowthOutside0 := 0, FeeGrowthOutside1 := 0, Initialized := False\<rparr>"

definition tick_UpdateFeeGrowth :: "PoolTick \<Rightarrow> int \<Rightarrow> int \<Rightarrow> PoolTick" where
  "tick_UpdateFeeGrowth t global0 global1 =
     t\<lparr>FeeGrowthOutside0 := global0 - FeeGrowthOutside0 t, FeeGrowthOutside1 := global1 - FeeGrowthOutside1 t\<rparr>"

text \<open>A zero spacing divides by zero, which panics.\<close>

definition GetMaxTick :: "int \<Rightarrow> int call" where
  "GetMaxTick spacing = (if spacing = 0 then Inl ''integer divide by zero'' else Inr (int32 (int32 (MaxTick sdiv spacing) * spacing)))"

definition GetMinTick :: "int \<Rightarrow> int call" where
  "GetMinTick spacing = (if spacing = 0 then Inl ''integer divide by zero'' else Inr (int32 (int32 (MinTick sdiv spacing) * spacing)))"

definition TickSpacingToMaxLiquidityPerTick :: "int \<Rightarrow> int call" where
  "TickSpacingToMaxLiquidityPerTick spacing =
     (if spacing = 0 then Inl ''Tick spacing must be non-zero''
      else let minAligned = int32 (int32 (MinTick sdiv spacing) * spacing);
               maxAligned = int32 (int32 (MaxTick sdiv spacing) * spacing);
               numTicks = (maxAligned - minAligned) sdiv spacing + 1
           in if numTicks = 0 then Inl ''division by zero'' else Inr (maxU128 sdiv numTicks))"

section \<open>The bitmap\<close>

definition TickPosition :: "int \<Rightarrow> int \<times> nat" where
  "TickPosition tick = (int16 (drop_bit 8 tick), nat (tick AND 255))"

record TickBitmap =
  words :: "(int, int) fmap"
  tickSpacing :: int

definition NewTickBitmap :: "u32 \<Rightarrow> TickBitmap call" where
  "NewTickBitmap spacing =
     (if spacing = 0 then Inl ''Tick spacing must be greater than zero''
      else Inr \<lparr>words = fmempty, tickSpacing = int32 (uint spacing)\<rparr>)"

definition word_at :: "TickBitmap \<Rightarrow> int \<Rightarrow> int" where
  "word_at b pos = (case fmlookup (words b) pos of None \<Rightarrow> 0 | Some word \<Rightarrow> word)"

definition FlipTick :: "TickBitmap \<Rightarrow> int \<Rightarrow> TickBitmap call" where
  "FlipTick b tick =
     (if tick smod tickSpacing b \<noteq> 0 then Inl ''Tick must be multiple of tick spacing''
      else let compressed = int32 (tick sdiv tickSpacing b);
               (wordPosition, bitPosition) = TickPosition compressed;
               word = word_at b wordPosition XOR push_bit bitPosition 1
           in Inr (b\<lparr>words := (if word = 0 then fmdrop wordPosition (words b) else fmupd wordPosition word (words b))\<rparr>))"

definition IsInitialized :: "TickBitmap \<Rightarrow> int \<Rightarrow> bool" where
  "IsInitialized b tick =
     (let (wordPosition, bitPosition) = TickPosition (int32 (tick sdiv tickSpacing b))
      in bit (word_at b wordPosition) bitPosition)"

text \<open>The two loops of the search within a word; a missing word has no set bit.\<close>

fun scan_down :: "int \<Rightarrow> nat \<Rightarrow> nat option" where
  "scan_down word 0 = (if bit word 0 then Some 0 else None)"
| "scan_down word (Suc b) = (if bit word (Suc b) then Some (Suc b) else scan_down word b)"

function scan_up :: "int \<Rightarrow> nat \<Rightarrow> nat option" where
  "scan_up word b = (if 255 < b then None else if bit word b then Some b else scan_up word (b + 1))"
  by auto
termination by (relation "measure (\<lambda>(_, b). 256 - b)") auto

declare scan_up.simps [simp del]

definition floor_compressed :: "TickBitmap \<Rightarrow> int \<Rightarrow> int" where
  "floor_compressed b tick =
     (let compressed = int32 (tick sdiv tickSpacing b)
      in if tick < 0 \<and> tick smod tickSpacing b \<noteq> 0 then int32 (compressed - 1) else compressed)"

definition NextInitializedTickWithinOneWord :: "TickBitmap \<Rightarrow> int \<Rightarrow> bool \<Rightarrow> int \<times> bool" where
  "NextInitializedTickWithinOneWord b tick lessThanOrEqual =
     (let compressed = floor_compressed b tick in
      if lessThanOrEqual then
        (let (wordPosition, bitPosition) = TickPosition compressed
         in case scan_down (word_at b wordPosition) bitPosition of
              Some k \<Rightarrow> (int32 (int32 (int32 (compressed - int bitPosition) + int k) * tickSpacing b), True)
            | None \<Rightarrow> (int32 (int32 (compressed - int bitPosition) * tickSpacing b), False))
      else
        (let nextCompressed = int32 (compressed + 1);
             (wordPosition, bitPosition) = TickPosition nextCompressed
         in case scan_up (word_at b wordPosition) bitPosition of
              Some k \<Rightarrow> (int32 (int32 (int32 (nextCompressed + int k) - int bitPosition) * tickSpacing b), True)
            | None \<Rightarrow> (int32 (int32 (int32 (nextCompressed + 255) - int bitPosition) * tickSpacing b), False)))"

section \<open>The tick map\<close>

record TickMap =
  ticks :: "(int, PoolTick) fmap"
  bitmap :: TickBitmap
  Liquidity :: int
  MaxLiquidityPerTick :: int

definition NewTickMap :: "u32 \<Rightarrow> TickMap call" where
  "NewTickMap spacing =
     (if spacing = 0 then Inl ''Tick spacing must be greater than zero''
      else call_bind (NewTickBitmap spacing) (\<lambda>b.
           call_bind (TickSpacingToMaxLiquidityPerTick (int32 (uint spacing))) (\<lambda>maximum.
           Inr \<lparr>ticks = fmempty, bitmap = b, Liquidity = 0, MaxLiquidityPerTick = maximum\<rparr>)))"

definition GetTick :: "TickMap \<Rightarrow> int \<Rightarrow> PoolTick option" where
  "GetTick m v = fmlookup (ticks m) v"

definition getTickOrInit :: "TickMap \<Rightarrow> int \<Rightarrow> TickMap \<times> PoolTick" where
  "getTickOrInit m v =
     (case fmlookup (ticks m) v of
        Some tick \<Rightarrow> (m, tick)
      | None \<Rightarrow> (m\<lparr>ticks := fmupd v (NewPoolTick v) (ticks m)\<rparr>, NewPoolTick v))"

definition u256Sub :: "int \<Rightarrow> int \<Rightarrow> int" where
  "u256Sub left right = (let result = left - right in if result < 0 then result + 2 ^ 256 else result)"

definition GetFeeGrowthInside :: "TickMap \<Rightarrow> int \<Rightarrow> int \<Rightarrow> int \<Rightarrow> int \<Rightarrow> int \<Rightarrow> TickMap \<times> int \<times> int" where
  "GetFeeGrowthInside m lowerValue upperValue currentValue global0 global1 =
     (let (m, lower) = getTickOrInit m lowerValue;
          (m, upper) = getTickOrInit m upperValue;
          below0 = (if currentValue < Value lower then u256Sub global0 (FeeGrowthOutside0 lower) else FeeGrowthOutside0 lower);
          below1 = (if currentValue < Value lower then u256Sub global1 (FeeGrowthOutside1 lower) else FeeGrowthOutside1 lower);
          above0 = (if Value upper \<le> currentValue then u256Sub global0 (FeeGrowthOutside0 upper) else FeeGrowthOutside0 upper);
          above1 = (if Value upper \<le> currentValue then u256Sub global1 (FeeGrowthOutside1 upper) else FeeGrowthOutside1 upper)
      in (m, u256Sub (u256Sub global0 below0) above0, u256Sub (u256Sub global1 below1) above1))"

text \<open>The panics of an update: the liquidity arithmetic, the cap per tick, a tick off the grid.\<close>

datatype update_panic = LiquidityPanic LiquidityError | ExceedsMaximumPerTick | BitmapPanic string

definition Update :: "TickMap \<Rightarrow> int \<Rightarrow> int \<Rightarrow> int \<Rightarrow> bool \<Rightarrow> int \<Rightarrow> int \<Rightarrow> update_panic + (TickMap \<times> bool)" where
  "Update m v currentValue liquidityDelta upper global0 global1 =
     (let (m, tick) = getTickOrInit m v in
      case tick_UpdateLiquidity tick liquidityDelta upper of
        Inl e \<Rightarrow> Inl (LiquidityPanic e)
      | Inr (tick, before) \<Rightarrow>
        (let after = LiquidityGross tick in
         if MaxLiquidityPerTick m < after then Inl ExceedsMaximumPerTick
         else let tick = (if before \<noteq> 0 then tick
                else (if Value tick \<le> currentValue then tick\<lparr>FeeGrowthOutside0 := global0, FeeGrowthOutside1 := global1\<rparr>
                      else tick)\<lparr>Initialized := True\<rparr>);
              flipped = ((after = 0) \<noteq> (before = 0));
              m = m\<lparr>ticks := fmupd v tick (ticks m)\<rparr>
         in if flipped
            then (case FlipTick (bitmap m) v of Inl e \<Rightarrow> Inl (BitmapPanic e) | Inr b \<Rightarrow> Inr (m\<lparr>bitmap := b\<rparr>, flipped))
            else Inr (m, flipped)))"

definition CrossTick :: "TickMap \<Rightarrow> int \<Rightarrow> int \<Rightarrow> int \<Rightarrow> TickMap \<times> int" where
  "CrossTick m v global0 global1 =
     (let (m, tick) = getTickOrInit m v;
          tick = tick_UpdateFeeGrowth tick global0 global1
      in (m\<lparr>ticks := fmupd v tick (ticks m)\<rparr>, LiquidityNet tick))"

definition ActiveTickCount :: "TickMap \<Rightarrow> nat" where
  "ActiveTickCount m = fcard (ffilter (IsInitialized (bitmap m)) (fmdom (ticks m)))"

definition SetTick :: "TickMap \<Rightarrow> PoolTick \<Rightarrow> TickMap" where
  "SetTick m tick = m\<lparr>ticks := fmupd (Value tick) tick (ticks m)\<rparr>"

definition map_Clear :: "TickMap \<Rightarrow> int \<Rightarrow> TickMap" where
  "map_Clear m v = m\<lparr>ticks := fmdrop v (ticks m)\<rparr>"

definition IsTickInitialized :: "TickMap \<Rightarrow> int \<Rightarrow> bool" where
  "IsTickInitialized m v = IsInitialized (bitmap m) v"

definition NextInitializedTick :: "TickMap \<Rightarrow> int \<Rightarrow> bool \<Rightarrow> int \<times> bool" where
  "NextInitializedTick m v lessThanOrEqual = NextInitializedTickWithinOneWord (bitmap m) v lessThanOrEqual"

section \<open>The bitmap as a set of ticks\<close>

text \<open>
  A bitmap is sound when its spacing is positive and at most \<open>2^22\<close> (so no \<open>int32\<close> product of a search wraps).
  It stands for the set of ticks on its grid whose bit is set.
\<close>

definition bitmap_ok :: "TickBitmap \<Rightarrow> bool" where
  "bitmap_ok b = (0 < tickSpacing b \<and> tickSpacing b \<le> 2 ^ 22 \<and> fmpred (\<lambda>_ word. 0 < word \<and> word < 2 ^ 256) (words b))"

definition in_range :: "int \<Rightarrow> bool" where
  "in_range tick = (MinTick \<le> tick \<and> tick \<le> MaxTick)"

definition slot :: "TickBitmap \<Rightarrow> int \<Rightarrow> bool" where
  "slot b c = bit (word_at b (c div 256)) (nat (c mod 256))"

definition initialized :: "TickBitmap \<Rightarrow> int set" where
  "initialized b = {tick. tickSpacing b dvd tick \<and> slot b (tick div tickSpacing b)}"

lemma int32_id: "- (2 ^ 31) \<le> v \<Longrightarrow> v < 2 ^ 31 \<Longrightarrow> int32 v = v"
  unfolding int32_def by (rule signed_take_bit_int_eq_self)

lemma TickPosition_id:
  assumes "- (2 ^ 23) \<le> c" "c < 2 ^ 23"
  shows "TickPosition c = (c div 256, nat (c mod 256))"
proof -
  have "drop_bit 8 c = c div 256" by (simp add: drop_bit_eq_div)
  moreover have "int16 (c div 256) = c div 256"
    unfolding int16_def using assms by (intro signed_take_bit_int_eq_self) simp_all
  moreover have "c AND 255 = c mod 256" using take_bit_eq_mask [of 8 c] by (simp add: take_bit_eq_mod mask_eq_exp_minus_1)
  ultimately show ?thesis by (simp add: TickPosition_def)
qed

text \<open>Go's truncated quotient, and the flooring correction of the search.\<close>

lemma truncated_quotient:
  assumes "0 < (s :: int)"
  shows "t smod s = 0 \<longleftrightarrow> s dvd t" "s dvd t \<Longrightarrow> t sdiv s = t div s"
    "(if t < 0 \<and> \<not> s dvd t then t sdiv s - 1 else t sdiv s) = t div s" "\<bar>t sdiv s\<bar> \<le> \<bar>t\<bar>"
proof -
  show "t smod s = 0 \<longleftrightarrow> s dvd t" using assms by (auto simp: signed_modulo_int_def sgn_if simp flip: dvd_eq_mod_eq_0)
  show "s dvd t \<Longrightarrow> t sdiv s = t div s" by (simp add: signed_divide_int_eq_divide_int)
  show "(if t < 0 \<and> \<not> s dvd t then t sdiv s - 1 else t sdiv s) = t div s"
    using assms by (auto simp: signed_divide_int_eq_divide_int sgn_if)
  have "\<bar>t sdiv s\<bar> = \<bar>sgn t\<bar> * (\<bar>t\<bar> div s)" using assms by (simp add: signed_divide_int_def abs_mult pos_imp_zdiv_nonneg_iff)
  also have "\<dots> \<le> \<bar>t\<bar> div s" using assms by (simp add: sgn_if pos_imp_zdiv_nonneg_iff)
  also have "\<dots> \<le> \<bar>t\<bar>" using assms zdiv_mono2 [of "\<bar>t\<bar>" 1 s] by simp
  finally show "\<bar>t sdiv s\<bar> \<le> \<bar>t\<bar>" .
qed

lemma compressed_in_range:
  assumes "in_range tick" "0 < s"
  shows "int32 (tick sdiv s) = tick sdiv s" "- 887272 \<le> tick sdiv s" "tick sdiv s \<le> 887272" "- 887272 \<le> tick div s" "tick div s \<le> 887272"
proof -
  have t: "\<bar>tick\<bar> \<le> 887272" using assms by (simp add: in_range_def MinTick_def MaxTick_def abs_le_iff)
  then have q: "\<bar>tick sdiv s\<bar> \<le> 887272" using truncated_quotient(4) [OF assms(2), of tick] by linarith
  then show "int32 (tick sdiv s) = tick sdiv s" "- 887272 \<le> tick sdiv s" "tick sdiv s \<le> 887272" by (simp_all add: int32_id abs_le_iff)
  have "(if tick < 0 \<and> \<not> s dvd tick then tick sdiv s - 1 else tick sdiv s) = tick div s" by (rule truncated_quotient(3) [OF assms(2)])
  moreover have "- 887272 * s \<le> tick" using t assms(2) mult_left_mono_neg [of 1 s "- 887272"] by (simp add: abs_le_iff)
  ultimately show "- 887272 \<le> tick div s" "tick div s \<le> 887272"
    using assms(2) q le_div_iff [OF assms(2), of "- 887272" tick] by (auto simp: abs_le_iff split: if_splits)
qed

lemma IsInitialized_iff:
  assumes "bitmap_ok b" "in_range tick" "tickSpacing b dvd tick"
  shows "IsInitialized b tick \<longleftrightarrow> tick \<in> initialized b"
  using assms compressed_in_range [of tick "tickSpacing b"] truncated_quotient(2) [of "tickSpacing b" tick]
  by (simp add: IsInitialized_def bitmap_ok_def TickPosition_id initialized_def slot_def)

text \<open>Flipping a tick toggles its membership and nothing else.\<close>

lemma word_flip:
  assumes "0 \<le> w" "w < 2 ^ 256" "k < 256"
  shows "0 \<le> w XOR push_bit k 1" "w XOR push_bit k 1 < (2 :: int) ^ 256"
proof -
  have "take_bit 256 (w XOR push_bit k 1) = w XOR push_bit k (1 :: int)"
    using assms by (simp add: take_bit_xor take_bit_int_eq_self take_bit_push_bit)
  then show "0 \<le> w XOR push_bit k 1" "w XOR push_bit k 1 < (2 :: int) ^ 256"
    by (metis take_bit_nonnegative, metis take_bit_int_less_exp)
qed

lemma word_at_range: "bitmap_ok b \<Longrightarrow> 0 \<le> word_at b p \<and> word_at b p < 2 ^ 256"
  by (fastforce simp: bitmap_ok_def word_at_def fmpred_iff less_imp_le split: option.split)

lemma FlipTick_toggles:
  assumes b: "bitmap_ok b" and t: "in_range tick" "tickSpacing b dvd tick"
  shows "\<exists>b'. FlipTick b tick = Inr b' \<and> bitmap_ok b' \<and> tickSpacing b' = tickSpacing b
    \<and> (\<forall>c. slot b' c = (slot b c \<noteq> (c = tick div tickSpacing b)))"
proof -
  define s c where "s = tickSpacing b" and "c = tick div s"
  have s: "0 < s" "s dvd tick" "s \<le> 2 ^ 22" using b t by (simp_all add: s_def bitmap_ok_def)
  have c: "int32 (tick sdiv s) = c" "TickPosition c = (c div 256, nat (c mod 256))"
    using compressed_in_range [OF t(1) s(1)] truncated_quotient(2) [OF s(1,2)] by (simp_all add: c_def TickPosition_id)
  define w where "w = word_at b (c div 256) XOR push_bit (nat (c mod 256)) 1"
  define b' where "b' = b\<lparr>words := (if w = 0 then fmdrop (c div 256) (words b) else fmupd (c div 256) w (words b))\<rparr>"
  have "FlipTick b tick = Inr b'"
    unfolding FlipTick_def s_def [symmetric] c(1) using s(1,2) truncated_quotient(1) [OF s(1), of tick]
    by (simp add: c(2) w_def b'_def)
  moreover have "0 \<le> w" "w < 2 ^ 256"
    using word_flip [of "word_at b (c div 256)" "nat (c mod 256)"] word_at_range [OF b, of "c div 256"]
    by (simp_all add: w_def nat_less_iff)
  then have "bitmap_ok b'" using b by (auto simp: bitmap_ok_def b'_def fmpred_iff)
  moreover have at: "word_at b' p = (if p = c div 256 then w else word_at b p)" for p
    by (simp add: word_at_def b'_def)
  moreover have "slot b' e = (slot b e \<noteq> (e = c))" for e
  proof (cases "e div 256 = c div 256")
    case True
    then have "(nat (c mod 256) = nat (e mod 256)) = (e = c)"
      by (metis div_mult_mod_eq eq_nat_nat_iff pos_mod_sign zero_less_numeral)
    then show ?thesis using True by (simp add: slot_def at w_def bit_xor_iff bit_push_bit_iff bit_1_iff bit_exp_iff) auto
  next
    case False
    then show ?thesis by (auto simp: slot_def at)
  qed
  ultimately show ?thesis by (auto simp: b'_def c_def s_def)
qed

section \<open>The search within a word\<close>

lemma scan_down_spec:
  "case scan_down w n of Some k \<Rightarrow> k \<le> n \<and> bit w k \<and> (\<forall>j. k < j \<and> j \<le> n \<longrightarrow> \<not> bit w j) | None \<Rightarrow> \<forall>j\<le>n. \<not> bit w j"
  by (induction w n rule: scan_down.induct) (auto split: option.splits simp: le_Suc_eq)

lemma scan_up_spec:
  "case scan_up w n of Some k \<Rightarrow> n \<le> k \<and> k \<le> 255 \<and> bit w k \<and> (\<forall>j. n \<le> j \<and> j < k \<longrightarrow> \<not> bit w j)
   | None \<Rightarrow> \<forall>j. n \<le> j \<and> j \<le> 255 \<longrightarrow> \<not> bit w j"
proof (induction w n rule: scan_up.induct)
  case (1 w n)
  show ?case
  proof (cases "255 < n \<or> bit w n")
    case True
    then show ?thesis by (subst scan_up.simps) auto
  next
    case False
    have "n \<le> j \<longleftrightarrow> j = n \<or> n + 1 \<le> j" for j by auto
    then show ?thesis using False 1 by (subst scan_up.simps) (auto split: option.splits)
  qed
qed

text \<open>The slots of one word, counted from its first one.\<close>

lemma slot_in_word:
  assumes "c - c mod 256 \<le> e" "e < c - c mod 256 + 256"
  shows "slot b e = bit (word_at b (c div 256)) (nat (e - (c - c mod 256)))"
proof -
  define q where "q = c div 256"
  have "c - c mod 256 = q * 256" by (simp add: q_def minus_mod_eq_div_mult)
  then have e: "e div 256 = q" "c - c mod 256 = q * 256" using assms by simp_all
  moreover have "e mod 256 = e - e div 256 * 256" by (simp add: minus_div_mult_eq_mod)
  ultimately show ?thesis by (simp add: slot_def q_def)
qed

lemma scan_down_slot:
  assumes "scan_down (word_at b (c div 256)) (nat (c mod 256)) = r"
  defines "n \<equiv> c - c mod 256 + (case r of Some k \<Rightarrow> int k | None \<Rightarrow> 0)"
  shows "c - 256 < n \<and> n \<le> c \<and> (slot b n \<longleftrightarrow> r \<noteq> None) \<and> (\<forall>e. n < e \<and> e \<le> c \<longrightarrow> \<not> slot b e)"
proof -
  have m: "0 \<le> c mod 256" "c mod 256 < 256" by simp_all
  have bits: "slot b e = bit (word_at b (c div 256)) (nat (e - (c - c mod 256)))" if "c - c mod 256 \<le> e" "e \<le> c" for e
    using that m by (intro slot_in_word) linarith+
  show ?thesis
  proof (cases r)
    case None
    then have "\<not> bit (word_at b (c div 256)) j" if "j \<le> nat (c mod 256)" for j
      using scan_down_spec [where w = "word_at b (c div 256)" and n = "nat (c mod 256)"] assms(1) that by simp
    then show ?thesis using None m bits by (simp add: n_def)
  next
    case (Some k)
    then have k: "k \<le> nat (c mod 256)" "bit (word_at b (c div 256)) k" "\<And>j. k < j \<Longrightarrow> j \<le> nat (c mod 256) \<Longrightarrow> \<not> bit (word_at b (c div 256)) j"
      using scan_down_spec [where w = "word_at b (c div 256)" and n = "nat (c mod 256)"] assms(1) by auto
    have "int k \<le> c mod 256" using k(1) m by linarith
    moreover have "n = c - c mod 256 + int k" by (simp add: n_def Some)
    ultimately have n: "c - 256 < n" "n \<le> c" "slot b n" using m k(2) bits [of n] by simp_all
    have "\<not> slot b e" if "n < e" "e \<le> c" for e
    proof -
      have "k < nat (e - (c - c mod 256))" "nat (e - (c - c mod 256)) \<le> nat (c mod 256)"
        using that \<open>n = c - c mod 256 + int k\<close> by linarith+
      then show ?thesis using k(3) bits [of e] that \<open>n = c - c mod 256 + int k\<close> by simp
    qed
    with n Some show ?thesis by blast
  qed
qed

lemma scan_up_slot:
  assumes "scan_up (word_at b (c div 256)) (nat (c mod 256)) = r"
  defines "n \<equiv> c - c mod 256 + (case r of Some k \<Rightarrow> int k | None \<Rightarrow> 255)"
  shows "c \<le> n \<and> n < c + 256 \<and> (slot b n \<longleftrightarrow> r \<noteq> None) \<and> (\<forall>e. c \<le> e \<and> e < n \<longrightarrow> \<not> slot b e)"
proof -
  have m: "0 \<le> c mod 256" "c mod 256 < 256" by simp_all
  have bits: "slot b e = bit (word_at b (c div 256)) (nat (e - (c - c mod 256)))" if "c \<le> e" "e \<le> c - c mod 256 + 255" for e
    using that m by (intro slot_in_word) linarith+
  show ?thesis
  proof (cases r)
    case None
    then have none: "\<not> bit (word_at b (c div 256)) j" if "nat (c mod 256) \<le> j" "j \<le> 255" for j
      using scan_up_spec [where w = "word_at b (c div 256)" and n = "nat (c mod 256)"] assms(1) that by simp
    have "\<not> slot b e" if "c \<le> e" "e \<le> n" for e
    proof -
      have "e \<le> c - c mod 256 + 255" using that None by (simp add: n_def)
      moreover from this have "nat (c mod 256) \<le> nat (e - (c - c mod 256))" "nat (e - (c - c mod 256)) \<le> 255"
        using that(1) m by linarith+
      ultimately show ?thesis using bits that(1) none by simp
    qed
    moreover have "c \<le> n" "n < c + 256" using m unfolding n_def None option.case by linarith+
    ultimately show ?thesis using None by auto
  next
    case (Some k)
    then have k: "nat (c mod 256) \<le> k" "k \<le> 255" "bit (word_at b (c div 256)) k"
      "\<And>j. nat (c mod 256) \<le> j \<Longrightarrow> j < k \<Longrightarrow> \<not> bit (word_at b (c div 256)) j"
      using scan_up_spec [where w = "word_at b (c div 256)" and n = "nat (c mod 256)"] assms(1) by auto
    have n: "n = c - c mod 256 + int k" "c mod 256 \<le> int k" "int k \<le> 255" using k(1,2) m by (simp_all add: n_def Some)
    have "\<not> slot b e" if "c \<le> e" "e < n" for e
    proof -
      have "e \<le> c - c mod 256 + 255" "nat (c mod 256) \<le> nat (e - (c - c mod 256))" "nat (e - (c - c mod 256)) < k"
        using that n m by linarith+
      then show ?thesis using bits that(1) k(4) by simp
    qed
    moreover have "slot b n" using n m k(3) bits [of n] by simp
    ultimately show ?thesis using n m Some by auto
  qed
qed

text \<open>Slots are ticks on the grid.\<close>

lemma initialized_slot: "0 < tickSpacing b \<Longrightarrow> c * tickSpacing b \<in> initialized b \<longleftrightarrow> slot b c"
  by (simp add: initialized_def)

lemma initialized_between:
  assumes "0 < tickSpacing b" "tick \<in> initialized b"
  obtains e where "tick = e * tickSpacing b" "slot b e"
proof -
  have "tick = tick div tickSpacing b * tickSpacing b" "slot b (tick div tickSpacing b)" using assms by (auto simp: initialized_def)
  then show thesis by (rule that)
qed

lemma floor_compressed_eq:
  assumes "bitmap_ok b" "in_range tick"
  shows "floor_compressed b tick = tick div tickSpacing b"
proof -
  have s: "0 < tickSpacing b" using assms by (simp add: bitmap_ok_def)
  note q = compressed_in_range [OF assms(2) s]
  have "int32 (tick sdiv tickSpacing b - 1) = tick sdiv tickSpacing b - 1" using q by (simp add: int32_id)
  then show ?thesis using truncated_quotient(1,3) [OF s, of tick] q(1)
    by (simp add: floor_compressed_def Let_def split: if_splits)
qed

lemma product_in_int32:
  assumes "0 < s" "s \<le> 2 ^ 22" "in_range tick" "tick div s - 256 \<le> n" "n \<le> tick div s + 256"
  shows "int32 (n * s) = n * s"
proof -
  have d: "tick div s * s \<le> tick" "tick < tick div s * s + s"
    using assms(1) le_div_iff [of s "tick div s" tick] div_less_iff [of s tick "tick div s + 1"] by (simp_all add: algebra_simps)
  have "(tick div s - 256) * s \<le> n * s" "n * s \<le> (tick div s + 256) * s" using assms by simp_all
  then have "tick - s - 256 * s < n * s" "n * s \<le> tick + 256 * s" using d by (simp_all add: algebra_simps)
  then show ?thesis using assms(1-3) by (intro int32_id) (simp_all add: in_range_def MinTick_def MaxTick_def)
qed

text \<open>The first tick of the word that holds a tick.\<close>

definition word_start :: "TickBitmap \<Rightarrow> int \<Rightarrow> int" where
  "word_start b tick = tick - tick mod (256 * tickSpacing b)"

lemma word_start_slot: "word_start b tick = (tick div tickSpacing b - tick div tickSpacing b mod 256) * tickSpacing b"
proof -
  have "word_start b tick = tick div (tickSpacing b * 256) * (tickSpacing b * 256)"
    by (simp add: word_start_def minus_mod_eq_div_mult mult.commute)
  also have "tick div (tickSpacing b * 256) = tick div tickSpacing b div 256" by (simp add: zdiv_zmult2_eq)
  also have "\<dots> * (tickSpacing b * 256) = (tick div tickSpacing b div 256 * 256) * tickSpacing b" by (simp add: ac_simps)
  finally show ?thesis by (simp add: minus_mod_eq_div_mult)
qed

lemma next_initialized_down:
  assumes b: "bitmap_ok b" and t: "in_range tick"
  obtains n found where "NextInitializedTickWithinOneWord b tick True = (n, found)" "tickSpacing b dvd n"
    "n \<le> tick" "tick - 256 * tickSpacing b < n" "n \<in> initialized b \<longleftrightarrow> found" "initialized b \<inter> {n <.. tick} = {}"
    "word_start b tick \<le> n" "\<not> found \<longrightarrow> n = word_start b tick"
proof -
  define s c where "s = tickSpacing b" and "c = tick div s"
  have s: "0 < s" "s \<le> 2 ^ 22" using b by (simp_all add: s_def bitmap_ok_def)
  have c: "floor_compressed b tick = c" "- 887272 \<le> c" "c \<le> 887272" "TickPosition c = (c div 256, nat (c mod 256))"
    using floor_compressed_eq [OF b t] compressed_in_range [OF t s(1)] by (simp_all add: c_def s_def TickPosition_id)
  define r where "r = scan_down (word_at b (c div 256)) (nat (c mod 256))"
  define n where "n = c - c mod 256 + (case r of Some k \<Rightarrow> int k | None \<Rightarrow> 0)"
  have n: "c - 256 < n" "n \<le> c" "slot b n \<longleftrightarrow> r \<noteq> None" "\<And>e. n < e \<Longrightarrow> e \<le> c \<Longrightarrow> \<not> slot b e"
    using scan_down_slot [OF r_def [symmetric]] by (auto simp: n_def)
  have i: "int32 (c - c mod 256) = c - c mod 256" "int32 n = n" "int32 (n * s) = n * s"
    using c n s t product_in_int32 [of s tick n] pos_mod_sign [of 256 c] pos_mod_bound [of 256 c]
    by (simp_all add: int32_id c_def)
  have "NextInitializedTickWithinOneWord b tick True = (n * s, r \<noteq> None)"
    using i by (cases r) (simp_all add: NextInitializedTickWithinOneWord_def Let_def c r_def [symmetric] n_def s_def)
  moreover have "n * s \<le> tick" "tick - 256 * s < n * s"
  proof -
    have "n \<le> tick div s" "tick div s < n + 256" using n by (simp_all add: c_def)
    then have "n * s \<le> tick" "tick < (n + 256) * s" using s by (simp_all only: le_div_iff div_less_iff)
    then show "n * s \<le> tick" "tick - 256 * s < n * s" by (simp_all add: algebra_simps)
  qed
  moreover have "n * s \<in> initialized b \<longleftrightarrow> r \<noteq> None" using n(3) s by (simp add: s_def initialized_slot)
  moreover have "initialized b \<inter> {n * s <.. tick} = {}"
  proof -
    have "False" if x: "x \<in> initialized b" "n * s < x" "x \<le> tick" for x
    proof -
      obtain e where e: "x = e * s" "slot b e" using initialized_between x(1) s by (metis s_def)
      have "n < e" "e \<le> c" using x e s by (simp_all add: c_def le_div_iff)
      then show False using n(4) e by blast
    qed
    then show ?thesis by auto
  qed
  moreover have "word_start b tick \<le> n * s" "r = None \<Longrightarrow> n * s = word_start b tick"
    using s by (auto simp: word_start_slot n_def c_def s_def intro!: mult_right_mono split: option.split)
  ultimately show thesis using that by (simp add: s_def)
qed

lemma next_initialized_up:
  assumes b: "bitmap_ok b" and t: "in_range tick"
  defines "start \<equiv> tick - tick mod tickSpacing b + tickSpacing b"
  obtains n found where "NextInitializedTickWithinOneWord b tick False = (n, found)" "tickSpacing b dvd n"
    "tick < n" "n \<le> tick + 256 * tickSpacing b" "n \<in> initialized b \<longleftrightarrow> found" "initialized b \<inter> {tick <..< n} = {}"
    "n \<le> word_start b start + 255 * tickSpacing b" "\<not> found \<longrightarrow> n = word_start b start + 255 * tickSpacing b"
proof -
  define s c where "s = tickSpacing b" and "c = tick div s + 1"
  have s: "0 < s" "s \<le> 2 ^ 22" using b by (simp_all add: s_def bitmap_ok_def)
  have c: "int32 (floor_compressed b tick + 1) = c" "- 887272 \<le> c" "c \<le> 887273" "TickPosition c = (c div 256, nat (c mod 256))"
    using floor_compressed_eq [OF b t] compressed_in_range [OF t s(1)] by (simp_all add: c_def s_def TickPosition_id int32_id)
  define r where "r = scan_up (word_at b (c div 256)) (nat (c mod 256))"
  define n where "n = c - c mod 256 + (case r of Some k \<Rightarrow> int k | None \<Rightarrow> 255)"
  have n: "c \<le> n" "n < c + 256" "slot b n \<longleftrightarrow> r \<noteq> None" "\<And>e. c \<le> e \<Longrightarrow> e < n \<Longrightarrow> \<not> slot b e"
    using scan_up_slot [OF r_def [symmetric]] by (auto simp: n_def)
  have m: "0 \<le> c mod 256" "c mod 256 < 256" by simp_all
  have i: "int32 (n + c mod 256) = n + c mod 256" "int32 n = n" "int32 (n * s) = n * s"
    using c n m s t product_in_int32 [of s tick n] by (simp_all add: int32_id c_def)
  have "NextInitializedTickWithinOneWord b tick False = (n * s, r \<noteq> None)"
    using i m by (cases r) (simp_all add: NextInitializedTickWithinOneWord_def Let_def c r_def [symmetric] n_def s_def diff_add_eq)
  moreover have "tick < n * s" "n * s \<le> tick + 256 * s"
  proof -
    have "tick div s < n" "n - 256 \<le> tick div s" using n by (simp_all add: c_def)
    then have "tick < n * s" "(n - 256) * s \<le> tick" using s by (simp_all only: le_div_iff div_less_iff)
    then show "tick < n * s" "n * s \<le> tick + 256 * s" by (simp_all add: algebra_simps)
  qed
  moreover have "n * s \<in> initialized b \<longleftrightarrow> r \<noteq> None" using n(3) s by (simp add: s_def initialized_slot)
  moreover have "initialized b \<inter> {tick <..< n * s} = {}"
  proof -
    have "False" if x: "x \<in> initialized b" "tick < x" "x < n * s" for x
    proof -
      obtain e where e: "x = e * s" "slot b e" using initialized_between x(1) s by (metis s_def)
      have "tick div s < e" "e < n" using x e s by (simp_all add: div_less_iff)
      then show False using n(4) e by (simp add: c_def)
    qed
    then show ?thesis by auto
  qed
  moreover have "n * s \<le> word_start b start + 255 * s" "r = None \<Longrightarrow> n * s = word_start b start + 255 * s"
  proof -
    have "start = c * s" using minus_mod_eq_div_mult [of tick s] by (simp add: start_def c_def s_def distrib_right)
    then have "word_start b start = (c - c mod 256) * s" using s by (simp add: word_start_slot s_def)
    moreover have "int k \<le> 255" if "r = Some k" for k
      using scan_up_spec [where w = "word_at b (c div 256)" and n = "nat (c mod 256)"] that by (simp add: r_def)
    then have "n \<le> c - c mod 256 + 255" by (simp add: n_def split: option.split)
    then have "n * s \<le> (c - c mod 256 + 255) * s" using s by (intro mult_right_mono) simp_all
    ultimately show "n * s \<le> word_start b start + 255 * s" "r = None \<Longrightarrow> n * s = word_start b start + 255 * s"
      by (simp_all add: distrib_right n_def)
  qed
  ultimately show thesis using that by (simp add: s_def)
qed

section \<open>The interface of the bitmap\<close>

text \<open>
  What the tick map relies on: flipping a tick of the grid succeeds and toggles its membership. A client
  that flips a tick exactly when its count changes between zero and non-zero keeps the index in step
  with the counts.
\<close>

locale tick_index =
  fixes ok :: "'b \<Rightarrow> bool" and grid :: "'b \<Rightarrow> int \<Rightarrow> bool" and members :: "'b \<Rightarrow> int set" and flip :: "'b \<Rightarrow> int \<Rightarrow> 'b call"
  assumes flip_toggles: "ok b \<Longrightarrow> grid b t \<Longrightarrow>
    \<exists>b'. flip b t = Inr b' \<and> ok b' \<and> grid b' = grid b \<and> members b' = members b - {t} \<union> ({t} - members b)"
begin

lemma in_step:
  assumes "ok b" "grid b t" "members b = {v. amount v \<noteq> 0}"
  shows "\<exists>b'. (if (n = 0) \<noteq> (amount t = 0) then flip b t else Inr b) = Inr b' \<and> ok b' \<and> grid b' = grid b
    \<and> members b' = {v. (amount(t := n)) v \<noteq> (0 :: int)}"
proof (cases "(n = 0) \<noteq> (amount t = 0)")
  case True
  obtain b' where "flip b t = Inr b'" "ok b'" "grid b' = grid b" "members b' = members b - {t} \<union> ({t} - members b)"
    using flip_toggles [OF assms(1,2)] by blast
  moreover have "members b - {t} \<union> ({t} - members b) = {v. (amount(t := n)) v \<noteq> 0}" using True assms(3) by auto
  ultimately show ?thesis using True by auto
next
  case False
  then show ?thesis using assms by auto
qed

lemma flip_twice: "ok b \<Longrightarrow> grid b t \<Longrightarrow> flip b t = Inr b' \<Longrightarrow> \<exists>b''. flip b' t = Inr b'' \<and> members b'' = members b"
  using flip_toggles [of b t] flip_toggles [of b' t] by auto

end

definition on_grid :: "TickBitmap \<Rightarrow> int \<Rightarrow> bool" where
  "on_grid b tick = (in_range tick \<and> tickSpacing b dvd tick)"

interpretation bits: tick_index bitmap_ok on_grid initialized FlipTick
proof
  fix b t
  assume b: "bitmap_ok b" and t: "on_grid b t"
  obtain b' where f: "FlipTick b t = Inr b'" "bitmap_ok b'" "tickSpacing b' = tickSpacing b"
    "\<And>c. slot b' c = (slot b c \<noteq> (c = t div tickSpacing b))"
    using FlipTick_toggles [OF b] t by (auto simp: on_grid_def)
  have "x div tickSpacing b = t div tickSpacing b \<longleftrightarrow> x = t" if "tickSpacing b dvd x" for x
    using that t dvd_div_eq_iff [of "tickSpacing b" x t] by (simp add: on_grid_def)
  then have "initialized b' = initialized b - {t} \<union> ({t} - initialized b)"
    using t by (auto simp: initialized_def f on_grid_def)
  then show "\<exists>b'. FlipTick b t = Inr b' \<and> bitmap_ok b' \<and> on_grid b' = on_grid b \<and> initialized b' = initialized b - {t} \<union> ({t} - initialized b)"
    using f by (auto simp: on_grid_def fun_eq_iff)
qed

section \<open>The invariant of the tick map\<close>

definition gross :: "TickMap \<Rightarrow> int \<Rightarrow> int" where
  "gross m v = (case fmlookup (ticks m) v of None \<Rightarrow> 0 | Some t \<Rightarrow> LiquidityGross t)"

definition net :: "TickMap \<Rightarrow> int \<Rightarrow> int" where
  "net m v = (case fmlookup (ticks m) v of None \<Rightarrow> 0 | Some t \<Rightarrow> LiquidityNet t)"

definition outside0 :: "TickMap \<Rightarrow> int \<Rightarrow> int" where
  "outside0 m v = (case fmlookup (ticks m) v of None \<Rightarrow> 0 | Some t \<Rightarrow> FeeGrowthOutside0 t)"

definition outside1 :: "TickMap \<Rightarrow> int \<Rightarrow> int" where
  "outside1 m v = (case fmlookup (ticks m) v of None \<Rightarrow> 0 | Some t \<Rightarrow> FeeGrowthOutside1 t)"

definition tickmap_ok :: "TickMap \<Rightarrow> bool" where
  "tickmap_ok m \<longleftrightarrow> bitmap_ok (bitmap m) \<and> 0 \<le> MaxLiquidityPerTick m \<and> MaxLiquidityPerTick m \<le> maxU128
     \<and> fmpred (\<lambda>v t. Value t = v \<and> 0 \<le> LiquidityGross t \<and> LiquidityGross t \<le> MaxLiquidityPerTick m) (ticks m)
     \<and> initialized (bitmap m) = {v. gross m v \<noteq> 0}"

lemmas tick_view_defs = gross_def net_def outside0_def outside1_def

lemma getTickOrInit_view:
  assumes "getTickOrInit m v = (m', t)"
  shows "fmlookup (ticks m') v = Some t" "gross m' = gross m" "net m' = net m" "outside0 m' = outside0 m" "outside1 m' = outside1 m"
    "bitmap m' = bitmap m" "MaxLiquidityPerTick m' = MaxLiquidityPerTick m" "Liquidity m' = Liquidity m"
    "fmlookup (ticks m') w = (if w = v then Some t else fmlookup (ticks m) w)"
proof -
  have d: "m' = (if fmlookup (ticks m) v = None then m\<lparr>ticks := fmupd v (NewPoolTick v) (ticks m)\<rparr> else m)"
    "t = (case fmlookup (ticks m) v of None \<Rightarrow> NewPoolTick v | Some t \<Rightarrow> t)"
    using assms by (auto simp: getTickOrInit_def split: option.splits)
  then show "fmlookup (ticks m') v = Some t" "gross m' = gross m" "net m' = net m" "outside0 m' = outside0 m" "outside1 m' = outside1 m"
    "bitmap m' = bitmap m" "MaxLiquidityPerTick m' = MaxLiquidityPerTick m" "Liquidity m' = Liquidity m"
    "fmlookup (ticks m') w = (if w = v then Some t else fmlookup (ticks m) w)"
    by (auto simp: tick_view_defs NewPoolTick_def fun_eq_iff split: option.split)
qed

lemma getTickOrInit_ok:
  assumes "getTickOrInit m v = (m', t)" "tickmap_ok m"
  shows "tickmap_ok m' \<and> Value t = v \<and> LiquidityGross t = gross m v \<and> LiquidityNet t = net m v
    \<and> FeeGrowthOutside0 t = outside0 m v \<and> FeeGrowthOutside1 t = outside1 m v"
proof -
  note view = getTickOrInit_view [OF assms(1)]
  have t: "t = (case fmlookup (ticks m) v of None \<Rightarrow> NewPoolTick v | Some t \<Rightarrow> t)"
    using assms(1) by (auto simp: getTickOrInit_def split: option.splits)
  then have "LiquidityGross t = gross m v \<and> LiquidityNet t = net m v \<and> FeeGrowthOutside0 t = outside0 m v
    \<and> FeeGrowthOutside1 t = outside1 m v"
    by (simp add: tick_view_defs NewPoolTick_def split: option.split)
  moreover have "Value t = v \<and> 0 \<le> LiquidityGross t \<and> LiquidityGross t \<le> MaxLiquidityPerTick m"
    using assms(2) t by (auto simp: tickmap_ok_def fmpred_iff NewPoolTick_def split: option.splits)
  moreover from this have "tickmap_ok m'" using assms(2) by (simp add: tickmap_ok_def fmpred_iff view)
  ultimately show ?thesis by blast
qed

lemma gross_range: "tickmap_ok m \<Longrightarrow> 0 \<le> gross m v \<and> gross m v \<le> MaxLiquidityPerTick m"
  by (auto simp: tickmap_ok_def gross_def fmpred_iff split: option.split)

text \<open>Liquidity arithmetic is exact within \<open>u128\<close> and refuses everything else.\<close>

lemma LiquidityMathAdd_exact:
  assumes "0 \<le> c" "c \<le> maxU128"
  shows "case LiquidityMathAdd (Some c) (Some d) of Inr r \<Rightarrow> r = c + d \<and> 0 \<le> c + d \<and> c + d \<le> maxU128
    | Inl e \<Rightarrow> e = (if d < 0 then LiquidityUnderflowError c d else LiquidityOverflowError c d) \<and> \<not> (0 \<le> c + d \<and> c + d \<le> maxU128)"
  using assms by (auto simp: LiquidityMathAdd_def TryLiquidityMathAdd_def Let_def)

lemma view_of_update:
  "gross (m\<lparr>ticks := fmupd v t (ticks m)\<rparr>) = (gross m)(v := LiquidityGross t)"
  "net (m\<lparr>ticks := fmupd v t (ticks m)\<rparr>) = (net m)(v := LiquidityNet t)"
  "outside0 (m\<lparr>ticks := fmupd v t (ticks m)\<rparr>) = (outside0 m)(v := FeeGrowthOutside0 t)"
  "outside1 (m\<lparr>ticks := fmupd v t (ticks m)\<rparr>) = (outside1 m)(v := FeeGrowthOutside1 t)"
  "gross (m\<lparr>bitmap := b\<rparr>) = gross m" "net (m\<lparr>bitmap := b\<rparr>) = net m"
  by (auto simp: tick_view_defs fun_eq_iff)

lemma Update_spec:
  fixes delta :: int
  assumes m: "tickmap_ok m" and v: "on_grid (bitmap m) v"
  defines "g \<equiv> gross m v + delta"
  shows "case Update m v current delta upper global0 global1 of
    Inl _ \<Rightarrow> \<not> (0 \<le> g \<and> g \<le> MaxLiquidityPerTick m)
  | Inr (m', flipped) \<Rightarrow> 0 \<le> g \<and> g \<le> MaxLiquidityPerTick m \<and> tickmap_ok m'
      \<and> gross m' = (gross m)(v := g) \<and> net m' = (net m)(v := (if upper then net m v - delta else net m v + delta))
      \<and> (flipped \<longleftrightarrow> (v \<in> initialized (bitmap m')) \<noteq> (v \<in> initialized (bitmap m)))"
proof -
  obtain m1 t where init: "getTickOrInit m v = (m1, t)" by fastforce
  note view = getTickOrInit_view [OF init] and ok = getTickOrInit_ok [OF init m]
  have cap: "MaxLiquidityPerTick m \<le> maxU128" "gross m v \<le> maxU128" "0 \<le> gross m v"
    using m gross_range [OF m, of v] by (auto simp: tickmap_ok_def)
  show ?thesis
  proof (cases "0 \<le> g \<and> g \<le> MaxLiquidityPerTick m")
    case False
    show ?thesis
    proof (cases "LiquidityMathAdd (Some (gross m v)) (Some delta)")
      case (Inl e)
      then show ?thesis using False by (simp add: Update_def init tick_UpdateLiquidity_def ok)
    next
      case (Inr r)
      then have "r = g" "0 \<le> g" using LiquidityMathAdd_exact [OF cap(3,2), of delta] by (simp_all add: g_def)
      then show ?thesis using False Inr by (simp add: Update_def init tick_UpdateLiquidity_def ok Let_def view)
    qed
  next
    case True
    then have add: "LiquidityMathAdd (Some (gross m v)) (Some delta) = Inr g"
      using LiquidityMathAdd_exact [OF cap(3,2), of delta] cap(1) by (auto simp: g_def split: sum.splits)
    define n where "n = (if upper then net m v - delta else net m v + delta)"
    define t1 where "t1 = t\<lparr>LiquidityGross := g, LiquidityNet := n, UpdatesCount := UpdatesCount t + 1\<rparr>"
    define t2 where "t2 = (if gross m v \<noteq> 0 then t1
       else (if v \<le> current then t1\<lparr>FeeGrowthOutside0 := global0, FeeGrowthOutside1 := global1\<rparr> else t1)\<lparr>Initialized := True\<rparr>)"
    have t2: "LiquidityGross t2 = g" "LiquidityNet t2 = n" "Value t2 = v" using ok by (simp_all add: t2_def t1_def)
    define m2 where "m2 = m1\<lparr>ticks := fmupd v t2 (ticks m1)\<rparr>"
    obtain b' where b': "(if (g = 0) \<noteq> (gross m v = 0) then FlipTick (bitmap m) v else Inr (bitmap m)) = Inr b'" "bitmap_ok b'"
      "initialized b' = {w. ((gross m)(v := g)) w \<noteq> 0}"
      using bits.in_step [OF _ v, of "gross m" g] m by (auto simp: tickmap_ok_def)
    have u: "Update m v current delta upper global0 global1 = Inr (m2\<lparr>bitmap := b'\<rparr>, (g = 0) \<noteq> (gross m v = 0))"
    proof -
      have tu: "tick_UpdateLiquidity t delta upper = Inr (t1, gross m v)" using add ok by (simp add: tick_UpdateLiquidity_def t1_def n_def)
      have t1: "LiquidityGross t1 = g" "Value t1 = v" using ok by (simp_all add: t1_def)
      have same: "bitmap m2 = bitmap m" "m2\<lparr>bitmap := bitmap m\<rparr> = m2" using view by (simp_all add: m2_def)
      show ?thesis
        unfolding Update_def init prod.case tu sum.case Let_def t1 t2_def [symmetric] m2_def [symmetric] same view(7)
        using True b'(1) same(2) by (cases "(g = 0) = (gross m v = 0)") auto
    qed
    have after: "gross (m2\<lparr>bitmap := b'\<rparr>) = (gross m)(v := g)" "net (m2\<lparr>bitmap := b'\<rparr>) = (net m)(v := n)"
      by (simp_all add: view_of_update m2_def t2 view)
    have "fmpred (\<lambda>v t. Value t = v \<and> 0 \<le> LiquidityGross t \<and> LiquidityGross t \<le> MaxLiquidityPerTick m) (ticks m1)"
      using ok by (simp add: tickmap_ok_def view)
    then have "fmpred (\<lambda>v t. Value t = v \<and> 0 \<le> LiquidityGross t \<and> LiquidityGross t \<le> MaxLiquidityPerTick m) (ticks m2)"
      using t2 True by (simp add: m2_def fmpred_upd)
    then have "tickmap_ok (m2\<lparr>bitmap := b'\<rparr>)"
      using b'(2,3) cap True unfolding tickmap_ok_def after by (simp add: m2_def view)
    moreover have "v \<in> initialized (bitmap m) \<longleftrightarrow> gross m v \<noteq> 0" using m by (auto simp: tickmap_ok_def)
    ultimately show ?thesis using True b'(3) after by (simp add: u n_def) blast
  qed
qed

section \<open>Fee growth\<close>

text \<open>The growth below a tick, as an exact integer; what lies above it is the rest of the global growth.\<close>

definition below :: "(int \<Rightarrow> int) \<Rightarrow> int \<Rightarrow> int \<Rightarrow> int \<Rightarrow> int" where
  "below outside v current global = (if current < v then global - outside v else outside v)"

lemma u256Sub_mod: "u256Sub a b mod 2 ^ 256 = (a - b) mod 2 ^ 256"
  by (simp add: u256Sub_def Let_def)

lemma fee_growth_inside:
  assumes "tickmap_ok m" "GetFeeGrowthInside m lo hi current global0 global1 = (m', inside0, inside1)"
  shows "tickmap_ok m'"
    "inside0 mod 2 ^ 256 = (below (outside0 m) hi current global0 - below (outside0 m) lo current global0) mod 2 ^ 256"
    "inside1 mod 2 ^ 256 = (below (outside1 m) hi current global1 - below (outside1 m) lo current global1) mod 2 ^ 256"
proof -
  obtain m1 l where l: "getTickOrInit m lo = (m1, l)" by fastforce
  obtain m2 u where u: "getTickOrInit m1 hi = (m2, u)" by fastforce
  note lo = getTickOrInit_ok [OF l assms(1)] and lv = getTickOrInit_view [OF l]
  then have hi: "tickmap_ok m2 \<and> Value u = hi \<and> FeeGrowthOutside0 u = outside0 m hi \<and> FeeGrowthOutside1 u = outside1 m hi"
    using getTickOrInit_ok [OF u] by simp
  have sub: "u256Sub (u256Sub g (if current < lo then u256Sub g a else a)) (if hi \<le> current then u256Sub g b else b) mod 2 ^ 256
     = ((if current < hi then g - b else b) - (if current < lo then g - a else a)) mod 2 ^ 256" (is "u256Sub (u256Sub g ?A) ?B mod _ = _") for g a b
  proof -
    have A: "?A mod 2 ^ 256 = (if current < lo then g - a else a) mod 2 ^ 256"
      by (cases "current < lo") (simp_all only: if_True if_False u256Sub_mod)
    have B: "?B mod 2 ^ 256 = (if hi \<le> current then g - b else b) mod 2 ^ 256"
      by (cases "hi \<le> current") (simp_all only: if_True if_False u256Sub_mod)
    have "u256Sub (u256Sub g ?A) ?B mod 2 ^ 256 = (g - ?A - ?B) mod 2 ^ 256"
      unfolding u256Sub_mod [of "u256Sub g ?A"] by (rule mod_diff_cong [OF u256Sub_mod refl])
    also have "\<dots> = (g - (if current < lo then g - a else a) - (if hi \<le> current then g - b else b)) mod 2 ^ 256"
      by (intro mod_diff_cong A B refl)
    also have "g - (if current < lo then g - a else a) - (if hi \<le> current then g - b else b)
      = (if current < hi then g - b else b) - (if current < lo then g - a else a)" by simp
    finally show ?thesis .
  qed
  have e: "m' = m2"
    "inside0 = u256Sub (u256Sub global0 (if current < lo then u256Sub global0 (outside0 m lo) else outside0 m lo))
       (if hi \<le> current then u256Sub global0 (outside0 m hi) else outside0 m hi)"
    "inside1 = u256Sub (u256Sub global1 (if current < lo then u256Sub global1 (outside1 m lo) else outside1 m lo))
       (if hi \<le> current then u256Sub global1 (outside1 m hi) else outside1 m hi)"
  proof -
    have v: "Value l = lo" "Value u = hi" "FeeGrowthOutside0 l = outside0 m lo" "FeeGrowthOutside0 u = outside0 m hi"
      "FeeGrowthOutside1 l = outside1 m lo" "FeeGrowthOutside1 u = outside1 m hi" using lo hi by auto
    show "m' = m2"
      "inside0 = u256Sub (u256Sub global0 (if current < lo then u256Sub global0 (outside0 m lo) else outside0 m lo))
         (if hi \<le> current then u256Sub global0 (outside0 m hi) else outside0 m hi)"
      "inside1 = u256Sub (u256Sub global1 (if current < lo then u256Sub global1 (outside1 m lo) else outside1 m lo))
         (if hi \<le> current then u256Sub global1 (outside1 m hi) else outside1 m hi)"
      using assms(2) unfolding GetFeeGrowthInside_def Let_def l u prod.case v prod.inject by blast+
  qed
  show "tickmap_ok m'" using e hi by simp
  show "inside0 mod 2 ^ 256 = (below (outside0 m) hi current global0 - below (outside0 m) lo current global0) mod 2 ^ 256"
    "inside1 mod 2 ^ 256 = (below (outside1 m) hi current global1 - below (outside1 m) lo current global1) mod 2 ^ 256"
    by (simp_all only: e sub below_def)
qed

lemma CrossTick_view:
  assumes "tickmap_ok m" "CrossTick m v global0 global1 = (m', n)"
  shows "tickmap_ok m'" "n = net m v" "outside0 m' = (outside0 m)(v := global0 - outside0 m v)"
    "outside1 m' = (outside1 m)(v := global1 - outside1 m v)" "gross m' = gross m" "net m' = net m"
proof -
  obtain m1 t where init: "getTickOrInit m v = (m1, t)" by fastforce
  note view = getTickOrInit_view [OF init] and ok = getTickOrInit_ok [OF init assms(1)]
  have m': "m' = m1\<lparr>ticks := fmupd v (tick_UpdateFeeGrowth t global0 global1) (ticks m1)\<rparr>" "n = LiquidityNet t"
    using assms(2) by (auto simp: CrossTick_def init tick_UpdateFeeGrowth_def)
  then show out: "n = net m v" "outside0 m' = (outside0 m)(v := global0 - outside0 m v)"
    "outside1 m' = (outside1 m)(v := global1 - outside1 m v)" "gross m' = gross m" "net m' = net m"
    using ok by (simp_all add: view_of_update tick_UpdateFeeGrowth_def view fun_upd_idem)
  have "fmpred (\<lambda>v t. Value t = v \<and> 0 \<le> LiquidityGross t \<and> LiquidityGross t \<le> MaxLiquidityPerTick m) (ticks m1)"
    using ok by (simp add: tickmap_ok_def view)
  then have "fmpred (\<lambda>v t. Value t = v \<and> 0 \<le> LiquidityGross t \<and> LiquidityGross t \<le> MaxLiquidityPerTick m) (ticks m')"
    using ok gross_range [OF assms(1), of v] by (simp add: m'(1) fmpred_upd tick_UpdateFeeGrowth_def)
  then show "tickmap_ok m'" using assms(1) unfolding tickmap_ok_def out(4) by (simp add: m'(1) view)
qed

section \<open>Properties\<close>

text \<open>
  C26. The tick bitmap implements a set of ticks. A new bitmap is the empty set; flipping a tick in the
  tick range toggles the membership of exactly that tick, and is refused if and only if the tick is not
  a multiple of the spacing; a tick of the grid is reported initialized exactly when it is a member.
\<close>

theorem bitmap_refines_tick_set:
  assumes "bitmap_ok b" "in_range tick" "0 < spacing" "uint spacing \<le> 2 ^ 22"
  shows "(\<exists>new. NewTickBitmap spacing = Inr new \<and> bitmap_ok new \<and> initialized new = {} \<and> tickSpacing new = uint spacing)
    \<and> (case FlipTick b tick of
         Inl _ \<Rightarrow> \<not> tickSpacing b dvd tick
       | Inr b' \<Rightarrow> tickSpacing b dvd tick \<and> bitmap_ok b' \<and> initialized b' = initialized b - {tick} \<union> ({tick} - initialized b))
    \<and> (tickSpacing b dvd tick \<longrightarrow> IsInitialized b tick = (tick \<in> initialized b))"
proof (intro conjI)
  have p: "0 < uint spacing" using assms(3) by (simp add: word_less_def)
  have "- (2 ^ 31) \<le> (0 :: int)" "(2 :: int) ^ 22 < 2 ^ 31" by simp_all
  then have "int32 (uint spacing) = uint spacing" using assms(4) p by (intro int32_id) linarith+
  with p show "\<exists>new. NewTickBitmap spacing = Inr new \<and> bitmap_ok new \<and> initialized new = {} \<and> tickSpacing new = uint spacing"
    using assms(3,4) by (auto simp: NewTickBitmap_def bitmap_ok_def initialized_def slot_def word_at_def)
  have s: "0 < tickSpacing b" using assms(1) by (simp add: bitmap_ok_def)
  show "case FlipTick b tick of Inl _ \<Rightarrow> \<not> tickSpacing b dvd tick
    | Inr b' \<Rightarrow> tickSpacing b dvd tick \<and> bitmap_ok b' \<and> initialized b' = initialized b - {tick} \<union> ({tick} - initialized b)"
  proof (cases "tickSpacing b dvd tick")
    case True
    then have "on_grid b tick" using assms(2) by (simp add: on_grid_def)
    from bits.flip_toggles [OF assms(1) this] obtain b' where
      "FlipTick b tick = Inr b'" "bitmap_ok b'" "initialized b' = initialized b - {tick} \<union> ({tick} - initialized b)" by blast
    then show ?thesis using True by simp
  next
    case False
    then show ?thesis using truncated_quotient(1) [OF s, of tick] by (simp add: FlipTick_def)
  qed
  show "tickSpacing b dvd tick \<longrightarrow> IsInitialized b tick = (tick \<in> initialized b)" using IsInitialized_iff assms by blast
qed

definition sample_bitmap :: TickBitmap where
  "sample_bitmap = \<lparr>words = fmupd (- 1) 3 (fmupd 0 4 fmempty), tickSpacing = 60\<rparr>"

lemma sample_bitmap_ok: "bitmap_ok sample_bitmap"
  by (auto simp: bitmap_ok_def sample_bitmap_def fmpred_iff split: if_splits)

theorem bitmap_refines_tick_set_witness:
  "bitmap_ok sample_bitmap \<and> in_range (- 15300) \<and> (tickSpacing sample_bitmap dvd - 15300)
   \<and> IsInitialized sample_bitmap (- 15300) = ((- 15300) \<in> initialized sample_bitmap) \<and> IsInitialized sample_bitmap (- 15300)"
proof -
  have r: "in_range (- 15300)" by (simp add: in_range_def MinTick_def MaxTick_def)
  have d: "tickSpacing sample_bitmap dvd - 15300" by (simp add: sample_bitmap_def)
  have i: "IsInitialized sample_bitmap (- 15300)" by code_simp
  from bitmap_refines_tick_set [OF sample_bitmap_ok r, of 60] sample_bitmap_ok r d i show ?thesis by simp
qed

text \<open>
  C27. The search for the next initialized tick within one word is correct, for every tick of the range. Downward it
  considers the ticks from the first of the word up to the given one, upward the ticks above the given one up to the last
  of the word of the next grid tick. If one of them is initialized it returns the nearest and reports it found; otherwise it
  returns the boundary of the word and reports nothing found. The result lies on the grid and at most 256 grid steps away.
\<close>

theorem next_initialized_tick_nearest:
  assumes "bitmap_ok b" "in_range tick"
  defines "boundary \<equiv> word_start b (tick - tick mod tickSpacing b + tickSpacing b) + 255 * tickSpacing b"
  shows "NextInitializedTickWithinOneWord b tick lessThanOrEqual =
      (let seen = initialized b \<inter> (if lessThanOrEqual then {word_start b tick .. tick} else {tick <.. boundary})
       in if seen = {} then (if lessThanOrEqual then word_start b tick else boundary, False)
          else (if lessThanOrEqual then Max seen else Min seen, True))
    \<and> (case NextInitializedTickWithinOneWord b tick lessThanOrEqual of (n, found) \<Rightarrow>
      tickSpacing b dvd n \<and> (found \<longleftrightarrow> n \<in> initialized b)
      \<and> (if lessThanOrEqual
         then n \<le> tick \<and> tick - 256 * tickSpacing b < n \<and> initialized b \<inter> {n <.. tick} = {}
         else tick < n \<and> n \<le> tick + 256 * tickSpacing b \<and> initialized b \<inter> {tick <..< n} = {}))"
proof (cases lessThanOrEqual)
  case True
  let ?seen = "initialized b \<inter> {word_start b tick .. tick}"
  obtain n found where n: "NextInitializedTickWithinOneWord b tick True = (n, found)" "tickSpacing b dvd n"
    "n \<le> tick" "tick - 256 * tickSpacing b < n" "n \<in> initialized b \<longleftrightarrow> found" "initialized b \<inter> {n <.. tick} = {}"
    "word_start b tick \<le> n" "\<not> found \<longrightarrow> n = word_start b tick" by (rule next_initialized_down [OF assms(1,2)])
  have "?seen \<noteq> {} \<and> Max ?seen = n" if found using that n(3,5-7) by (auto intro!: Max_eqI simp: not_less [symmetric])
  moreover have "?seen = {}" if "\<not> found" using that n(5,6,8) by (auto simp: order_le_less)
  ultimately show ?thesis using True n by (cases found) (simp_all add: Let_def)
next
  case False
  let ?seen = "initialized b \<inter> {tick <.. boundary}"
  obtain n found where n: "NextInitializedTickWithinOneWord b tick False = (n, found)" "tickSpacing b dvd n"
    "tick < n" "n \<le> tick + 256 * tickSpacing b" "n \<in> initialized b \<longleftrightarrow> found" "initialized b \<inter> {tick <..< n} = {}"
    "n \<le> boundary" "\<not> found \<longrightarrow> n = boundary" unfolding boundary_def by (rule next_initialized_up [OF assms(1,2)])
  have "?seen \<noteq> {} \<and> Min ?seen = n" if found using that n(3,5-7) by (auto intro!: Min_eqI simp: not_less [symmetric])
  moreover have "?seen = {}" if "\<not> found" using that n(5,6,8) by (auto simp: order_le_less)
  ultimately show ?thesis using False n by (cases found) (simp_all add: Let_def)
qed

theorem next_initialized_tick_nearest_witness:
  "bitmap_ok sample_bitmap \<and> in_range 100 \<and> NextInitializedTickWithinOneWord sample_bitmap 100 False = (120, True)
   \<and> 120 \<in> initialized sample_bitmap \<and> initialized sample_bitmap \<inter> {100 <..< 120} = {}"
proof -
  have r: "in_range 100" by (simp add: in_range_def MinTick_def MaxTick_def)
  have n: "NextInitializedTickWithinOneWord sample_bitmap 100 False = (120, True)" by code_simp
  from next_initialized_tick_nearest [OF sample_bitmap_ok r, of False] n sample_bitmap_ok r show ?thesis by simp
qed

text \<open>
  C28. Updating a tick keeps the tick map consistent: the update of a tick of the grid succeeds exactly when
  the new gross liquidity lies between zero and the cap per tick; it then changes the gross and net
  liquidity of that tick only, keeps every tick within the cap, keeps the bitmap equal to the ticks with
  gross liquidity, and reports a flip exactly when the bitmap changed.
\<close>

theorem update_keeps_bitmap_in_step:
  fixes delta :: int
  assumes "tickmap_ok m" "on_grid (bitmap m) v"
  shows "case Update m v current delta upper global0 global1 of
    Inl _ \<Rightarrow> \<not> (0 \<le> gross m v + delta \<and> gross m v + delta \<le> MaxLiquidityPerTick m)
  | Inr (m', flipped) \<Rightarrow> 0 \<le> gross m v + delta \<and> gross m v + delta \<le> MaxLiquidityPerTick m \<and> tickmap_ok m'
      \<and> gross m' = (gross m)(v := gross m v + delta)
      \<and> net m' = (net m)(v := (if upper then net m v - delta else net m v + delta))
      \<and> (flipped \<longleftrightarrow> (v \<in> initialized (bitmap m')) \<noteq> (v \<in> initialized (bitmap m)))"
  using Update_spec [OF assms] by (simp split: sum.splits)

definition sample_tickmap :: TickMap where
  "sample_tickmap = \<lparr>ticks = fmempty, bitmap = \<lparr>words = fmempty, tickSpacing = 60\<rparr>, Liquidity = 0, MaxLiquidityPerTick = 1000\<rparr>"

lemma sample_tickmap_ok: "tickmap_ok sample_tickmap" "on_grid (bitmap sample_tickmap) 120"
  by (auto simp: tickmap_ok_def sample_tickmap_def bitmap_ok_def gross_def initialized_def slot_def word_at_def maxU128_def
      on_grid_def in_range_def MinTick_def MaxTick_def)

theorem update_keeps_bitmap_in_step_witness:
  "tickmap_ok sample_tickmap \<and> on_grid (bitmap sample_tickmap) 120
   \<and> (\<exists>m' flipped. Update sample_tickmap 120 5 700 False 9 8 = Inr (m', flipped) \<and> tickmap_ok m' \<and> gross m' 120 = 700)
   \<and> (\<exists>e. Update sample_tickmap 120 5 1001 False 9 8 = Inl e)"
proof -
  have z: "gross sample_tickmap 120 = 0" "MaxLiquidityPerTick sample_tickmap = 1000" by (simp_all add: gross_def sample_tickmap_def)
  show ?thesis
    using sample_tickmap_ok z update_keeps_bitmap_in_step [OF sample_tickmap_ok, where delta = 700 and current = 5 and upper = False and ?global0.0 = 9 and ?global1.0 = 8]
      update_keeps_bitmap_in_step [OF sample_tickmap_ok, where delta = 1001 and current = 5 and upper = False and ?global0.0 = 9 and ?global1.0 = 8]
    by (auto split: sum.splits)
qed

text \<open>
  C29. Fee growth inside a range is what has grown below its upper tick less what has grown below its lower tick, for either token
  and modulo \<open>2^256\<close>, where the growth below a tick is its outside growth when the current tick has passed it and the rest of the
  global growth otherwise. So it is additive over adjacent ranges; and it is continuous: when the current tick passes a
  tick and that tick is crossed, the growth inside every range that has no other boundary on the way is unchanged.
\<close>

theorem fee_growth_additive_and_continuous:
  assumes "tickmap_ok m"
    and "CrossTick m v global0 global1 = (m', n)" "(current < v) \<noteq> (current' < v)"
    and "u = v \<or> (current < u) = (current' < u)" "w = v \<or> (current < w) = (current' < w)"
  defines "inside0 \<equiv> \<lambda>m a b current. fst (snd (GetFeeGrowthInside m a b current global0 global1)) mod 2 ^ 256"
    and "inside1 \<equiv> \<lambda>m a b current. snd (snd (GetFeeGrowthInside m a b current global0 global1)) mod 2 ^ 256"
  shows "inside0 m a b current = (below (outside0 m) b current global0 - below (outside0 m) a current global0) mod 2 ^ 256
    \<and> inside1 m a b current = (below (outside1 m) b current global1 - below (outside1 m) a current global1) mod 2 ^ 256
    \<and> (inside0 m a b current + inside0 m b c current) mod 2 ^ 256 = inside0 m a c current
    \<and> (inside1 m a b current + inside1 m b c current) mod 2 ^ 256 = inside1 m a c current
    \<and> inside0 m' u w current' = inside0 m u w current \<and> inside1 m' u w current' = inside1 m u w current"
proof -
  note cross = CrossTick_view [OF assms(1,2)]
  have inside: "inside0 k x y i = (below (outside0 k) y i global0 - below (outside0 k) x i global0) mod 2 ^ 256"
    "inside1 k x y i = (below (outside1 k) y i global1 - below (outside1 k) x i global1) mod 2 ^ 256" if "tickmap_ok k" for k x y i
    using fee_growth_inside(2,3) [OF that, of x y i global0 global1] unfolding inside0_def inside1_def by (metis prod.collapse)+
  have same: "below ((f :: int \<Rightarrow> int)(v := g - f v)) x current' g = below f x current g"
    if "x = v \<or> (current < x) = (current' < x)" for f g x
    using that assms(3) by (auto simp: below_def)
  have add: "((y - x) mod k + (z - y) mod k) mod k = (z - x) mod (k :: int)" for x y z k by (simp add: mod_add_eq)
  show ?thesis
    unfolding inside [OF assms(1)] inside [OF cross(1)] cross(3,4) same [OF assms(4)] same [OF assms(5)] add by simp
qed

theorem fee_growth_additive_and_continuous_witness:
  "tickmap_ok sample_tickmap \<and> (\<exists>m' n. CrossTick sample_tickmap 120 50 60 = (m', n)
    \<and> snd (snd (GetFeeGrowthInside m' 0 120 125 50 60)) mod 2 ^ 256 = snd (snd (GetFeeGrowthInside sample_tickmap 0 120 100 50 60)) mod 2 ^ 256)"
proof -
  obtain m' n where c: "CrossTick sample_tickmap 120 50 60 = (m', n)" by fastforce
  from fee_growth_additive_and_continuous [OF sample_tickmap_ok(1) c, of 100 125 0 120] c sample_tickmap_ok(1)
  show ?thesis by simp
qed

end
