(* ===== verification/DefiTickMath.thy ===== *)
theory DefiTickMath
  imports DefiTicks
begin

text \<open>
  Prices of ticks (\<open>internal/defi/tickmap/tick_math.go\<close>). The price of a tick is the product of table entries selected by
  the bits of the tick; the tick of a price is found from a binary logarithm of fourteen fractional digits and one comparison. The
  first is within a relative error of \<open>2^-30\<close> of \<open>sqrt(1.0001^tick)\<close> and strictly increasing, the second is
  its exact inverse: the greatest tick whose price does not exceed the given one.
\<close>

unbundle bit_operations_syntax

section \<open>The functions\<close>

definition minSqrtRatio :: int where "minSqrtRatio = 4295128739"
definition maxSqrtRatio :: int where "maxSqrtRatio = 0xfffd8963efd1fc6a506488495d951d5263988d26"

definition tickMathRatios :: "int list" where
  "tickMathRatios =
    [0xfffcb933bd6fad37aa2d162d1a594001, 0xfff97272373d413259a46990580e213a, 0xfff2e50f5f656932ef12357cf3c7fdcc,
     0xffe5caca7e10e4e61c3624eaa0941cd0, 0xffcb9843d60f6159c9db58835c926644, 0xff973b41fa98c081472e6896dfb254c0,
     0xff2ea16466c96a3843ec78b326b52861, 0xfe5dee046a99a2a811c461f1969c3053, 0xfcbe86c7900a88aedcffc83b479aa3a4,
     0xf987a7253ac413176f2b074cf7815e54, 0xf3392b0822b70005940c7a398e4b70f3, 0xe7159475a2c29b7443b29c7fa6e889d9,
     0xd097f3bdfd2022b8845ad8f792aa5825, 0xa9f746462d870fdf8a65dc1f90e061e5, 0x70d869a156d2a1b890bb3df62baf32f7,
     0x31be135f97d08fd981231505542fcfa6, 0x9aa508b5b7a84e1c677de54f3e99bc9, 0x5d6af8dedb81196699c329225ee604,
     0x2216e584f5fa1ea926041bedfe98, 0x48a170391f7dc42444e8fa2]"

definition MinSqrtRatio :: int where "MinSqrtRatio = minSqrtRatio"
definition MaxSqrtRatio :: int where "MaxSqrtRatio = maxSqrtRatio"

definition tick_ratio_step :: "int \<Rightarrow> int \<Rightarrow> nat \<Rightarrow> int" where
  "tick_ratio_step absTick ratio i =
     (if absTick AND push_bit i 1 \<noteq> 0 then drop_bit 128 (ratio * tickMathRatios ! i) else ratio)"

definition GetSqrtRatioAtTick :: "int \<Rightarrow> int call" where
  "GetSqrtRatioAtTick tick =
     (if tick < MinTick \<or> MaxTick < tick
      then Inl (''Tick '' @ (if tick < 0 then ''-'' else []) @ nat_text (nat \<bar>tick\<bar>) @ '' out of bounds'')
      else let absTick = (if tick < 0 then - tick else tick);
               ratio = (if absTick AND 1 \<noteq> 0 then tickMathRatios ! 0 else push_bit 128 1);
               ratio = foldl (tick_ratio_step absTick) ratio [1 ..< length tickMathRatios];
               ratio = (if 0 < tick then maxU256 sdiv ratio else ratio)
           in requireResultU160 (drop_bit 32 (ratio + 0xffffffff)))"

definition tickMathWrapU256 :: "int \<Rightarrow> int" where
  "tickMathWrapU256 v = v AND maxU256"

text \<open>One round of the logarithm: square the mantissa, and record a digit when it reaches two.\<close>

definition log_step :: "int \<times> int \<Rightarrow> nat \<Rightarrow> int \<times> int" where
  "log_step s i = (case s of (r, decimals) \<Rightarrow>
     let r = drop_bit 127 (r * r)
     in if bit r 128 then (drop_bit 1 r, set_bit i decimals) else (r, decimals))"

text \<open>The conversion \<open>int32(uint32(bits.Uint64()))\<close> of the high half.\<close>

definition tick_of_bits :: "int \<Rightarrow> int" where
  "tick_of_bits v = int32 (take_bit 32 (take_bit 64 (drop_bit 128 v)))"

definition GetTickAtSqrtRatio :: "int option \<Rightarrow> int call" where
  "GetTickAtSqrtRatio value = call_bind (requireU160 value) (\<lambda>sqrtPriceX96.
     if sqrtPriceX96 < minSqrtRatio \<or> maxSqrtRatio \<le> sqrtPriceX96 then Inl ''Sqrt price out of bounds''
     else let ratio = push_bit 32 sqrtPriceX96;
              msb = MostSignificantBit (Some ratio);
              log2X64 = (if 128 \<le> msb then push_bit 64 (msb - 128) else maxU256 + 1 - push_bit 64 (128 - msb));
              r = (if 128 \<le> msb then drop_bit (nat (msb - 127)) ratio else push_bit (nat (127 - msb)) ratio);
              decimals = snd (foldl log_step (r, 0) (rev [50 ..< 64]));
              logSqrt10001 = tickMathWrapU256 ((log2X64 OR decimals) * 255738958999603826347141);
              tickLow = tick_of_bits (tickMathWrapU256 (logSqrt10001 - 3402992956809132418596140100660247210));
              tickHigh = tick_of_bits (tickMathWrapU256 (logSqrt10001 + 291339464771989622907027621153398088495))
          in if tickLow = tickHigh then Inr tickLow
             else call_bind (GetSqrtRatioAtTick tickHigh) (\<lambda>p. Inr (if p \<le> sqrtPriceX96 then tickHigh else tickLow)))"

section \<open>The table\<close>

text \<open>The reciprocal of the price ratio of neighbouring ticks.\<close>

definition tick_q :: real where "tick_q = sqrt (10000 / 10001)"

lemma tick_q: "0 < tick_q" "tick_q < 1" "tick_q ^ 2 = 10000 / 10001"
  by (simp_all add: tick_q_def)

definition table :: "nat \<Rightarrow> real" where "table i = real_of_int (tickMathRatios ! i) / 2 ^ 128"

lemma table_squares:
  assumes "i < 19"
  shows "(1 - 1 / 2 ^ 92) * table i ^ 2 \<le> table (Suc i)" "table (Suc i) \<le> (1 + 1 / 2 ^ 92) * table i ^ 2"
proof -
  let ?lo = "\<lambda>i. (2 ^ 92 - 1) * (tickMathRatios ! i) ^ 2 \<le> 2 ^ 220 * tickMathRatios ! Suc i"
  let ?hi = "\<lambda>i. 2 ^ 220 * tickMathRatios ! Suc i \<le> (2 ^ 92 + 1) * (tickMathRatios ! i) ^ 2"
  have "list_all (\<lambda>i. ?lo i \<and> ?hi i) [0 ..< 19]" by code_simp
  then have lo: "?lo i" and hi: "?hi i" using assms by (simp_all add: list_all_iff)
  have "real_of_int ((2 ^ 92 - 1) * (tickMathRatios ! i) ^ 2) \<le> real_of_int (2 ^ 220 * tickMathRatios ! Suc i)" using lo by (simp only: of_int_le_iff)
  then show "(1 - 1 / 2 ^ 92) * table i ^ 2 \<le> table (Suc i)" by (simp add: table_def field_simps)
  have "real_of_int (2 ^ 220 * tickMathRatios ! Suc i) \<le> real_of_int ((2 ^ 92 + 1) * (tickMathRatios ! i) ^ 2)" using hi by (simp only: of_int_le_iff)
  then show "table (Suc i) \<le> (1 + 1 / 2 ^ 92) * table i ^ 2" by (simp add: table_def field_simps)
qed

lemma table_powers:
  "i < 20 \<Longrightarrow> (1 - 1 / 2 ^ 92) ^ (2 ^ Suc i - 1) * tick_q ^ 2 ^ i \<le> table i
     \<and> table i \<le> (1 + 1 / 2 ^ 92) ^ (2 ^ Suc i - 1) * tick_q ^ 2 ^ i"
proof (induction i)
  case 0
  have t: "table 0 = 340265354078544963557816517032075149313 / 2 ^ 128" by (simp add: table_def tickMathRatios_def)
  have "((1 - 1 / 2 ^ 92) * tick_q) ^ 2 \<le> table 0 ^ 2" "table 0 ^ 2 \<le> ((1 + 1 / 2 ^ 92) * tick_q) ^ 2"
    unfolding power_mult_distrib tick_q(3) t by (simp_all add: power2_eq_square)
  moreover have "0 \<le> table 0" "0 \<le> (1 + 1 / 2 ^ 92) * tick_q" using tick_q(1) by (simp_all add: t)
  ultimately show ?case using power2_le_imp_le [of "(1 - 1 / 2 ^ 92) * tick_q" "table 0"]
      power2_le_imp_le [of "table 0" "(1 + 1 / 2 ^ 92) * tick_q"] by simp
next
  case (Suc i)
  let ?l = "1 - 1 / 2 ^ 92 :: real" and ?u = "1 + 1 / 2 ^ 92 :: real" and ?n = "2 ^ Suc i - 1 :: nat"
  have e: "2 ^ Suc (Suc i) - 1 = Suc (?n * 2)" unfolding power_Suc using one_le_power [of "2 :: nat" i] by linarith
  have s: "x ^ (2 ^ Suc (Suc i) - 1) * tick_q ^ 2 ^ Suc i = x * (x ^ ?n * tick_q ^ 2 ^ i) ^ 2" for x :: real
    unfolding e by (simp add: power_mult_distrib power_mult [symmetric] mult_ac)
  have b: "?l ^ ?n * tick_q ^ 2 ^ i \<le> table i" "table i \<le> ?u ^ ?n * tick_q ^ 2 ^ i" using Suc by auto
  have p: "0 \<le> ?l ^ ?n * tick_q ^ 2 ^ i" using tick_q(1) by simp
  have "?l * (?l ^ ?n * tick_q ^ 2 ^ i) ^ 2 \<le> ?l * table i ^ 2"
    using power_mono [OF b(1) p, of 2] by (intro mult_left_mono) simp_all
  moreover have "?u * table i ^ 2 \<le> ?u * (?u ^ ?n * tick_q ^ 2 ^ i) ^ 2"
    using power_mono [OF b(2) order_trans [OF p b(1)], of 2] by (intro mult_left_mono) simp_all
  ultimately show ?case unfolding s using table_squares [of i] Suc.prems by simp
qed


lemma power_near_one:
  assumes "0 \<le> x" "real n * x \<le> 1 / 2"
  shows "1 - real n * x \<le> (1 - x) ^ n" "(1 + x) ^ n \<le> 1 + 2 * (real n * x)"
proof -
  have x: "x \<le> 1" if "0 < n" using assms that mult_right_mono [of 1 "real n" x] by simp
  show l: "1 - real n * x \<le> (1 - x) ^ n"
    using Bernoulli_inequality [of "- x" n] x by (cases "n = 0") simp_all
  have "(1 + x) ^ n * (1 - x) ^ n = (1 - x * x) ^ n" by (simp add: power_mult_distrib [symmetric] algebra_simps)
  also have "\<dots> \<le> 1" using x assms(1) by (cases "n = 0") (simp_all add: power_le_one mult_le_one)
  finally have "(1 + x) ^ n * (1 - real n * x) \<le> 1"
    using order_trans [OF mult_left_mono [OF l, of "(1 + x) ^ n"]] assms(1) by simp
  moreover have "1 \<le> (1 + 2 * (real n * x)) * (1 - real n * x)"
  proof -
    have "(1 + 2 * (real n * x)) * (1 - real n * x) = 1 + real n * x * (1 - 2 * (real n * x))" by (simp add: algebra_simps)
    then show ?thesis using assms by simp
  qed
  ultimately have "(1 + x) ^ n * (1 - real n * x) \<le> (1 + 2 * (real n * x)) * (1 - real n * x)" by simp
  then show "(1 + x) ^ n \<le> 1 + 2 * (real n * x)" using assms(2) by (simp add: mult_le_cancel_right)
qed

lemma table_bounds:
  assumes "i < 20"
  shows "(1 - 1 / 2 ^ 50) * tick_q ^ 2 ^ i \<le> table i" "table i \<le> (1 + 1 / 2 ^ 50) * tick_q ^ 2 ^ i"
proof -
  let ?x = "1 / 2 ^ 92 :: real"
  define n :: nat where "n = 2 ^ Suc i - 1"
  have "(2 :: nat) ^ Suc i \<le> 2 ^ 20" using assms by (intro power_increasing) simp_all
  then have "n \<le> 2 ^ 20" unfolding n_def by linarith
  then have "real n * ?x \<le> real (2 ^ 20) * ?x" by (intro mult_right_mono) (simp_all only: of_nat_le_iff, simp)
  then have n: "real n * ?x \<le> 1 / 2 ^ 51" "0 \<le> real n * ?x" by simp_all
  have "1 - 1 / 2 ^ 50 \<le> (1 - ?x) ^ n" "(1 + ?x) ^ n \<le> 1 + 1 / 2 ^ 50"
    using power_near_one [of ?x n] n by simp_all
  then have "(1 - 1 / 2 ^ 50) * tick_q ^ 2 ^ i \<le> (1 - ?x) ^ n * tick_q ^ 2 ^ i"
    "(1 + ?x) ^ n * tick_q ^ 2 ^ i \<le> (1 + 1 / 2 ^ 50) * tick_q ^ 2 ^ i"
    using tick_q(1) by (intro mult_right_mono; simp)+
  then show "(1 - 1 / 2 ^ 50) * tick_q ^ 2 ^ i \<le> table i" "table i \<le> (1 + 1 / 2 ^ 50) * tick_q ^ 2 ^ i"
    using table_powers [OF assms] unfolding n_def by linarith+
qed

lemma tick_q_lower: "n \<le> 2 ^ 20 \<Longrightarrow> 1 / 2 ^ 78 \<le> tick_q ^ n"
proof -
  assume n: "n \<le> 2 ^ 20"
  have "1 / 2 ^ 38 \<le> table 19" by (simp add: table_def tickMathRatios_def)
  also have "\<dots> \<le> (1 + 1 / 2 ^ 50) * tick_q ^ 2 ^ 19" by (rule table_bounds) simp
  also have "\<dots> \<le> 2 * tick_q ^ 2 ^ 19" using tick_q(1) by (intro mult_right_mono) simp_all
  finally have "(1 / 2 ^ 39) ^ 2 \<le> (tick_q ^ 2 ^ 19) ^ 2" by (intro power_mono) (simp_all add: field_simps)
  also have "\<dots> = tick_q ^ 2 ^ 20" by (simp add: power_mult [symmetric])
  also have "\<dots> \<le> tick_q ^ n" using n tick_q by (intro power_decreasing) simp_all
  finally show ?thesis by (simp add: power2_eq_square)
qed

section \<open>The product\<close>

definition raw_ratio :: "nat \<Rightarrow> nat \<Rightarrow> int" where
  "raw_ratio n k = foldl (tick_ratio_step (int n)) (2 ^ 128) [0 ..< k]"

lemma raw_ratio_Suc:
  "raw_ratio n 0 = 2 ^ 128"
  "raw_ratio n (Suc k) = (if odd (n div 2 ^ k) then raw_ratio n k * tickMathRatios ! k div 2 ^ 128 else raw_ratio n k)"
  using bit_of_nat_iff_bit [of n k, where 'a = int] and_exp_eq_0_iff_not_bit [of "int n" k]
  by (simp_all add: raw_ratio_def tick_ratio_step_def push_bit_eq_mult drop_bit_eq_div bit_iff_odd [of n])

lemma raw_ratio_bounds:
  assumes n: "n < 2 ^ 20"
  shows "k \<le> 20 \<Longrightarrow> (1 - 1 / 2 ^ 48) ^ k * tick_q ^ (n mod 2 ^ k) * 2 ^ 128 \<le> raw_ratio n k
    \<and> raw_ratio n k \<le> (1 + 1 / 2 ^ 48) ^ k * tick_q ^ (n mod 2 ^ k) * 2 ^ 128"
proof (induction k)
  case 0
  then show ?case by (simp add: raw_ratio_Suc)
next
  case (Suc k)
  let ?l = "1 - 1 / 2 ^ 48 :: real" and ?u = "1 + 1 / 2 ^ 48 :: real" and ?q = "tick_q ^ (n mod 2 ^ k)"
  let ?r = "real_of_int (raw_ratio n k)" and ?c = "tick_q ^ 2 ^ k"
  have IH: "?l ^ k * ?q * 2 ^ 128 \<le> ?r" "?r \<le> ?u ^ k * ?q * 2 ^ 128" using Suc by simp_all
  have pos: "0 \<le> ?q" "0 \<le> ?c" "0 \<le> ?l ^ k" "0 \<le> ?u ^ k" using tick_q(1) by simp_all
  have m: "n mod 2 ^ Suc k = n mod 2 ^ k + (if odd (n div 2 ^ k) then 2 ^ k else 0)"
    by (simp add: mod_mult2_eq [of n "2 ^ k" 2] mult.commute [of 2] odd_iff_mod_2_eq_one)
  show ?case
  proof (cases "odd (n div 2 ^ k)")
    case False
    have "?l ^ Suc k * ?q * 2 ^ 128 \<le> ?l ^ k * ?q * 2 ^ 128" "?u ^ k * ?q * 2 ^ 128 \<le> ?u ^ Suc k * ?q * 2 ^ 128"
      using pos by (intro mult_right_mono; simp add: mult_le_cancel_right1)+
    then have "?l ^ Suc k * ?q * 2 ^ 128 \<le> ?r" "?r \<le> ?u ^ Suc k * ?q * 2 ^ 128" using IH by (blast intro: order_trans)+
    with m False show ?thesis by (simp only: raw_ratio_Suc if_False add_0_right)
  next
    case True
    have Q: "tick_q ^ (n mod 2 ^ Suc k) = ?q * ?c" using m True by (simp add: power_add)
    have t: "(1 - 1 / 2 ^ 50) * ?c \<le> table k" "table k \<le> (1 + 1 / 2 ^ 50) * ?c" using table_bounds [of k] Suc.prems by simp_all
    have r': "?r * table k - 1 \<le> raw_ratio n (Suc k)" "raw_ratio n (Suc k) \<le> ?r * table k"
      using True floor_divide_of_int_eq [of "raw_ratio n k * tickMathRatios ! k" "2 ^ 128", where 'a = real]
        of_int_floor_le [of "?r * table k"] real_of_int_floor_ge_diff_one [of "?r * table k"]
      by (simp_all add: raw_ratio_Suc table_def)
    have up: "?r * table k \<le> (?u ^ k * ?q * 2 ^ 128) * ((1 + 1 / 2 ^ 50) * ?c)"
      using IH(2) t(2) pos order_trans [OF _ t(1), of 0] by (intro mult_mono) simp_all
    also have "\<dots> \<le> ?u ^ Suc k * (?q * ?c) * 2 ^ 128"
    proof -
      have "(1 + 1 / 2 ^ 50) * (?u ^ k * (?q * ?c)) \<le> ?u * (?u ^ k * (?q * ?c))" using pos by (intro mult_right_mono) simp_all
      then show ?thesis by (simp add: mult_ac)
    qed
    finally have U: "raw_ratio n (Suc k) \<le> ?u ^ Suc k * (?q * ?c) * 2 ^ 128" using r'(2) by linarith
    let ?Y = "?l ^ k * (?q * ?c) * 2 ^ 128"
    have "1 / 2 \<le> ?l ^ k"
    proof -
      have "real k * (1 / 2 ^ 48) \<le> 1 / 2" using Suc.prems by (simp add: field_simps)
      then show ?thesis using power_near_one(1) [of "1 / 2 ^ 48" k] by simp
    qed
    moreover have "1 / 2 ^ 78 \<le> ?q * ?c" unfolding Q [symmetric] using n
      by (intro tick_q_lower) (meson less_imp_le mod_less_eq_dividend order_trans)
    ultimately have "1 / 2 * (1 / 2 ^ 78) * 2 ^ 128 \<le> ?Y" using pos by (intro mult_mono) simp_all
    then have Y: "2 ^ 49 \<le> ?Y" by simp
    have "?Y * (1 - 1 / 2 ^ 50) = (?l ^ k * ?q * 2 ^ 128) * ((1 - 1 / 2 ^ 50) * ?c)" by (simp add: mult_ac)
    also have "\<dots> \<le> ?r * table k" using IH(1) t(1) pos order_trans [OF _ IH(1), of 0] by (intro mult_mono) simp_all
    finally have "?Y * (1 - 1 / 2 ^ 50) - 1 \<le> raw_ratio n (Suc k)" using r'(1) by linarith
    moreover have "?Y * ?l \<le> ?Y * (1 - 1 / 2 ^ 50) - 1" using Y by (simp add: algebra_simps)
    ultimately have "?Y * ?l \<le> raw_ratio n (Suc k)" by linarith
    then have "?l ^ Suc k * (?q * ?c) * 2 ^ 128 \<le> raw_ratio n (Suc k)" by (simp add: mult_ac)
    with U show ?thesis unfolding Q by blast
  qed
qed


section \<open>The price of a tick\<close>

lemma raw_ratio_price:
  assumes "n < 2 ^ 20"
  shows "(1 - 1 / 2 ^ 43) * (tick_q ^ n * 2 ^ 128) \<le> raw_ratio n 20" "raw_ratio n 20 \<le> (1 + 1 / 2 ^ 43) * (tick_q ^ n * 2 ^ 128)"
proof -
  have p: "0 \<le> tick_q ^ n * 2 ^ 128" using tick_q(1) by simp
  have "1 - 1 / 2 ^ 43 \<le> (1 - 1 / 2 ^ 48 :: real) ^ 20" "(1 + 1 / 2 ^ 48 :: real) ^ 20 \<le> 1 + 1 / 2 ^ 43" by (simp_all add: power_divide)
  note e = mult_right_mono [OF this(1) p] mult_right_mono [OF this(2) p]
  note r = raw_ratio_bounds [OF assms order_refl, unfolded mod_less [OF assms] mult.assoc]
  show "(1 - 1 / 2 ^ 43) * (tick_q ^ n * 2 ^ 128) \<le> raw_ratio n 20" using e(1) r [THEN conjunct1] by (rule order_trans)
  show "raw_ratio n 20 \<le> (1 + 1 / 2 ^ 43) * (tick_q ^ n * 2 ^ 128)" using r [THEN conjunct2] e(2) by (rule order_trans)
qed

lemma tick_q_range:
  assumes "n \<le> 887272"
  shows "100003 / 100000 / 2 ^ 64 \<le> tick_q ^ n" "tick_q ^ n \<le> 1"
proof -
  have "foldl (tick_ratio_step 887272) (2 ^ 128) [0 ..< 20] = 18447437462383981825" by code_simp
  then have "raw_ratio 887272 20 = 18447437462383981825" by (simp add: raw_ratio_def)
  then have "100003 / 100000 / 2 ^ 64 \<le> tick_q ^ 887272" using raw_ratio_price(2) [of 887272] by (simp add: field_simps)
  also have "\<dots> \<le> tick_q ^ n" using assms tick_q by (intro power_decreasing) simp_all
  finally show "100003 / 100000 / 2 ^ 64 \<le> tick_q ^ n" .
  show "tick_q ^ n \<le> 1" using tick_q by (simp add: power_le_one)
qed

definition tick_exact :: "int \<Rightarrow> real" where
  "tick_exact tick = 2 ^ 96 * sqrt (1.0001 powr real_of_int tick)"

lemma tick_exact_nat: "tick_exact (- int n) = 2 ^ 96 * tick_q ^ n" "tick_exact (int n) = 2 ^ 96 / tick_q ^ n"
proof -
  have p: "(1.0001 :: real) powr real n = 1.0001 ^ n" by (rule powr_realpow) simp
  have "sqrt 1.0001 = 1 / tick_q" by (simp add: tick_q_def real_sqrt_divide)
  then have e: "sqrt (1.0001 ^ n) = 1 / tick_q ^ n" unfolding real_sqrt_power by (simp add: power_divide)
  show "tick_exact (- int n) = 2 ^ 96 * tick_q ^ n" "tick_exact (int n) = 2 ^ 96 / tick_q ^ n"
    unfolding tick_exact_def of_int_minus of_int_of_nat_eq powr_minus p real_sqrt_inverse e by simp_all
qed

lemma rounded_up_shift: "real_of_int v / 2 ^ 32 \<le> drop_bit 32 (v + 0xffffffff)" "drop_bit 32 (v + 0xffffffff) \<le> real_of_int v / 2 ^ 32 + 1"
proof -
  have "v \<le> drop_bit 32 (v + 0xffffffff) * 2 ^ 32" "drop_bit 32 (v + 0xffffffff) * 2 ^ 32 \<le> v + 2 ^ 32" by (simp_all add: drop_bit_eq_div)
  then have "real_of_int v \<le> real_of_int (drop_bit 32 (v + 0xffffffff) * 2 ^ 32)"
    "real_of_int (drop_bit 32 (v + 0xffffffff) * 2 ^ 32) \<le> real_of_int (v + 2 ^ 32)" by (simp_all only: of_int_le_iff)
  then show "real_of_int v / 2 ^ 32 \<le> drop_bit 32 (v + 0xffffffff)" "drop_bit 32 (v + 0xffffffff) \<le> real_of_int v / 2 ^ 32 + 1"
    by (simp_all add: field_simps)
qed

lemma inverted_ratio:
  fixes x :: real
  assumes r: "(1 - 1 / 2 ^ 43) * (x * 2 ^ 128) \<le> real_of_int r" "real_of_int r \<le> (1 + 1 / 2 ^ 43) * (x * 2 ^ 128)" and x: "1 / 2 ^ 64 \<le> x" "x \<le> 1"
  shows "(1 - 1 / 2 ^ 41) * (2 ^ 128 / x) \<le> real_of_int (maxU256 sdiv r)" "real_of_int (maxU256 sdiv r) \<le> (1 + 1 / 2 ^ 41) * (2 ^ 128 / x)"
proof -
  have "(1 - 1 / 2 ^ 43) * (1 / 2 ^ 64 * 2 ^ 128) \<le> (1 - 1 / 2 ^ 43) * (x * 2 ^ 128)" using x by (intro mult_left_mono mult_right_mono) simp_all
  with r(1) have r1: "1 \<le> real_of_int r" by simp
  then have "1 \<le> r" by linarith
  then have q: "real_of_int maxU256 / r - 1 \<le> real_of_int (maxU256 sdiv r)" "real_of_int (maxU256 sdiv r) \<le> real_of_int maxU256 / r"
    using floor_divide_of_int_eq [of maxU256 r, where 'a = real] of_int_floor_le [of "real_of_int maxU256 / r"]
      real_of_int_floor_ge_diff_one [of "real_of_int maxU256 / r"] by (simp_all add: quo_rem_nonneg maxU256_def)
  have x0: "0 < x" using x(1) by (rule less_le_trans [rotated]) simp
  have "real_of_int maxU256 / r \<le> 2 ^ 256 / r" using r1 by (intro divide_right_mono) (simp_all add: maxU256_def)
  also have "\<dots> \<le> 2 ^ 256 / ((1 - 1 / 2 ^ 43) * (x * 2 ^ 128))" using r(1) x0 by (intro divide_left_mono mult_pos_pos) (simp_all add: less_le_trans [OF _ r1])
  also have "\<dots> \<le> (1 + 1 / 2 ^ 41) * (2 ^ 128 / x)" using x0 by (simp add: field_simps)
  finally show "real_of_int (maxU256 sdiv r) \<le> (1 + 1 / 2 ^ 41) * (2 ^ 128 / x)" using q(2) by linarith
  have "(1 - 1 / 2 ^ 42) * (2 ^ 128 / x) \<le> 2 ^ 256 / ((1 + 1 / 2 ^ 43) * (x * 2 ^ 128))" using x0 by (simp add: field_simps)
  also have "\<dots> \<le> 2 ^ 256 / r" using r(2) r1 x0 by (intro divide_left_mono mult_pos_pos) (simp_all add: less_le_trans [OF _ r1])
  also have "\<dots> \<le> real_of_int maxU256 / r + 1" using r1 by (simp add: maxU256_def field_simps)
  finally have "(1 - 1 / 2 ^ 42) * (2 ^ 128 / x) - 2 \<le> real_of_int (maxU256 sdiv r)" using q(1) by linarith
  moreover have "2 \<le> 1 / 2 ^ 42 * (2 ^ 128 / x)" using x x0 by (simp add: field_simps)
  ultimately show "(1 - 1 / 2 ^ 41) * (2 ^ 128 / x) \<le> real_of_int (maxU256 sdiv r)" by (simp add: algebra_simps)
qed

lemma ratio_loop: "foldl (tick_ratio_step (int n)) (if int n AND 1 \<noteq> 0 then tickMathRatios ! 0 else push_bit 128 1) [1 ..< length tickMathRatios]
    = raw_ratio n 20"
proof -
  have u: "[0 ..< 20] = (0 :: nat) # [1 ..< 20]" by (simp add: upt_conv_Cons)
  have l: "length tickMathRatios = 20" by (simp add: tickMathRatios_def)
  show ?thesis unfolding raw_ratio_def u l by (simp add: tick_ratio_step_def push_bit_eq_mult drop_bit_eq_div)
qed

lemma GetSqrtRatioAtTick_near:
  assumes "MinTick \<le> tick" "tick \<le> MaxTick"
  shows "\<exists>v. GetSqrtRatioAtTick tick = Inr v \<and> (1 - 1 / 2 ^ 30) * tick_exact tick \<le> v \<and> v \<le> (1 + 1 / 2 ^ 30) * tick_exact tick"
proof -
  define n where "n = nat \<bar>tick\<bar>"
  define v where "v = (if 0 < tick then maxU256 sdiv raw_ratio n 20 else raw_ratio n 20)"
  define w where "w = drop_bit 32 (v + 0xffffffff)"
  have n: "n \<le> 887272" and a: "(if tick < 0 then - tick else tick) = int n" using assms by (auto simp: n_def MinTick_def MaxTick_def)
  then have r: "(1 - 1 / 2 ^ 43) * (tick_q ^ n * 2 ^ 128) \<le> raw_ratio n 20" "raw_ratio n 20 \<le> (1 + 1 / 2 ^ 43) * (tick_q ^ n * 2 ^ 128)"
    using raw_ratio_price [of n] by simp_all
  note q = tick_q_range [OF n] and w = rounded_up_shift [of v, folded w_def]
  have g: "GetSqrtRatioAtTick tick = requireResultU160 w"
    using assms ratio_loop [of n] by (simp add: GetSqrtRatioAtTick_def Let_def a not_less w_def v_def)
  have b: "(1 - 1 / 2 ^ 30) * tick_exact tick \<le> w \<and> w \<le> (1 + 1 / 2 ^ 30) * tick_exact tick \<and> 0 \<le> real_of_int w \<and> real_of_int w < 2 ^ 160"
  proof (cases "0 < tick")
    case False
    then have t: "tick_exact tick = 2 ^ 96 * tick_q ^ n" using tick_exact_nat(1) [of n] by (simp add: n_def)
    from False w r q show ?thesis unfolding t v_def by simp
  next
    case True
    define y where "y = 1 / tick_q ^ n"
    have t: "tick_exact tick = 2 ^ 96 * y" using True tick_exact_nat(2) [of n] by (simp add: n_def y_def)
    have y: "1 \<le> y" "y \<le> 100000 / 100003 * 2 ^ 64" using q tick_q(1) by (simp_all add: y_def field_simps)
    have "(1 - 1 / 2 ^ 41) * (2 ^ 128 * y) \<le> v" "v \<le> (1 + 1 / 2 ^ 41) * (2 ^ 128 * y)"
      using inverted_ratio [OF r] q True by (simp_all add: y_def v_def)
    with w y show ?thesis unfolding t by simp
  qed
  then have "real_of_int w < real_of_int (2 ^ 160)" "0 \<le> w" by simp_all
  then have "w < 2 ^ 160" "0 \<le> w" by (simp_all only: of_int_less_iff)
  with g b show ?thesis by auto
qed

lemma tick_exact_pos: "0 < tick_exact tick" by (simp add: tick_exact_def)

lemma tick_exact_step:
  assumes "t < t'"
  shows "1.00004 * tick_exact t \<le> tick_exact t'"
proof -
  have "1.00004 * tick_exact t \<le> tick_exact (t + 1)"
  proof -
    have "(1.0001 :: real) powr real_of_int (t + 1) = 1.0001 * 1.0001 powr real_of_int t" by (simp add: powr_add)
    then have "tick_exact (t + 1) = sqrt 1.0001 * tick_exact t" by (simp only: tick_exact_def real_sqrt_mult mult_ac)
    moreover have "1.00004 \<le> sqrt (1.0001 :: real)" by (rule real_le_rsqrt) (simp add: power2_eq_square)
    ultimately show ?thesis using tick_exact_pos [of t] by simp
  qed
  also have "tick_exact (t + 1) \<le> tick_exact t'" using assms by (simp add: tick_exact_def)
  finally show ?thesis .
qed

lemma tick_price_less:
  assumes "MinTick \<le> t" "t < t'" "t' \<le> MaxTick" "GetSqrtRatioAtTick t = Inr v" "GetSqrtRatioAtTick t' = Inr v'"
  shows "v < v'"
proof -
  have "v \<le> (1 + 1 / 2 ^ 30) * tick_exact t" "(1 - 1 / 2 ^ 30) * tick_exact t' \<le> v'"
    using GetSqrtRatioAtTick_near [of t] GetSqrtRatioAtTick_near [of t'] assms by auto
  moreover have "(1 + 1 / 2 ^ 30) * tick_exact t < (1 - 1 / 2 ^ 30) * tick_exact t'"
    using tick_exact_step [OF assms(2)] tick_exact_pos [of t] by simp
  ultimately have "real_of_int v < real_of_int v'" by linarith
  then show ?thesis by simp
qed

lemma tick_price_ends: "GetSqrtRatioAtTick MinTick = Inr minSqrtRatio" "GetSqrtRatioAtTick MaxTick = Inr maxSqrtRatio"
  by code_simp+

section \<open>Binary logarithms\<close>

text \<open>The digits of the logarithm as the loop finds them, most significant first.\<close>

fun log_digits :: "nat \<Rightarrow> int \<Rightarrow> int \<times> nat" where
  "log_digits 0 r = (r, 0)"
| "log_digits (Suc k) r = (case log_digits k r of (r, d) \<Rightarrow>
     let r = r * r div 2 ^ 127 in if 2 ^ 128 \<le> r then (r div 2, 2 * d + 1) else (r, 2 * d))"

lemma mantissa_step:
  fixes r :: int
  assumes "2 ^ 127 \<le> r" "r < 2 ^ 128"
  defines "s \<equiv> r * r div 2 ^ 127"
  shows "2 ^ 127 \<le> s" "s < 2 ^ 129"
    "real_of_int s / 2 ^ 127 \<le> (r / 2 ^ 127) ^ 2" "(r / 2 ^ 127) ^ 2 \<le> (1 + 1 / 2 ^ 127) * (s / 2 ^ 127)"
proof -
  have "2 ^ 127 * 2 ^ 127 \<le> r * r" "r * r < 2 ^ 128 * 2 ^ 128" using assms by (intro mult_mono mult_strict_mono; simp)+
  then show s: "2 ^ 127 \<le> s" "s < 2 ^ 129" by (simp_all add: s_def le_div_iff div_less_iff)
  have "s * 2 ^ 127 \<le> r * r" "r * r \<le> s * 2 ^ 127 + 2 ^ 127" by (simp_all add: s_def)
  then have "real_of_int (s * 2 ^ 127) \<le> real_of_int (r * r)" "real_of_int (r * r) \<le> real_of_int (s * 2 ^ 127 + 2 ^ 127)"
    by (simp_all only: of_int_le_iff)
  moreover have "2 ^ 127 \<le> real_of_int s" using of_int_le_iff [of "2 ^ 127" s, where 'a = real] s(1) by simp
  ultimately show "real_of_int s / 2 ^ 127 \<le> (r / 2 ^ 127) ^ 2" "(r / 2 ^ 127) ^ 2 \<le> (1 + 1 / 2 ^ 127) * (s / 2 ^ 127)"
    by (simp_all add: power2_eq_square field_simps)
qed

lemma log_digits_bounds:
  assumes r: "2 ^ 127 \<le> r" "r < 2 ^ 128"
  shows "log_digits k r = (s, d) \<Longrightarrow> 2 ^ 127 \<le> s \<and> s < 2 ^ 128 \<and> d < 2 ^ k \<and> (s / 2 ^ 127) * 2 ^ d \<le> (r / 2 ^ 127) ^ 2 ^ k
    \<and> (r / 2 ^ 127) ^ 2 ^ k \<le> (1 + 1 / 2 ^ 125) ^ (2 ^ k - 1) * ((s / 2 ^ 127) * 2 ^ d)"
proof (induction k arbitrary: s d)
  case 0
  then show ?case using r by simp
next
  case (Suc k)
  obtain s0 d0 where l: "log_digits k r = (s0, d0)" by fastforce
  define s1 where "s1 = s0 * s0 div 2 ^ 127"
  let ?x = "real_of_int r / 2 ^ 127" and ?y = "\<lambda>s. real_of_int s / 2 ^ 127" and ?u = "1 + 1 / 2 ^ 125 :: real" and ?n = "2 ^ k - 1 :: nat"
  have IH: "2 ^ 127 \<le> s0" "s0 < 2 ^ 128" "d0 < 2 ^ k" "?y s0 * 2 ^ d0 \<le> ?x ^ 2 ^ k" "?x ^ 2 ^ k \<le> ?u ^ ?n * (?y s0 * 2 ^ d0)"
    using Suc.IH [OF l] by auto
  note m = mantissa_step [OF IH(1,2), folded s1_def]
  have s: "2 ^ 127 \<le> s \<and> s < 2 ^ 128 \<and> d < 2 ^ Suc k \<and> ?y s * 2 ^ d \<le> ?y s1 * 2 ^ (2 * d0) \<and> ?y s1 * 2 ^ (2 * d0) \<le> (1 + 1 / 2 ^ 127) * (?y s * 2 ^ d)"
  proof (cases "2 ^ 128 \<le> s1")
    case False
    then have "s = s1" "d = 2 * d0" using Suc.prems by (simp_all add: l s1_def Let_def)
    then show ?thesis using m(1) IH(3) False by simp
  next
    case True
    then have sd: "s = s1 div 2" "d = 2 * d0 + 1" using Suc.prems by (simp_all add: l s1_def Let_def)
    have b: "2 ^ 127 \<le> s" "s < 2 ^ 128" "2 * s \<le> s1" "s1 \<le> 2 * s + 1" using True m(2) by (simp_all add: sd)
    then have "real_of_int (2 ^ 127) \<le> s" "real_of_int (2 * s) \<le> s1" "s1 \<le> real_of_int (2 * s + 1)" by (simp_all only: of_int_le_iff)
    then have "2 * ?y s \<le> ?y s1" "?y s1 \<le> (1 + 1 / 2 ^ 127) * (2 * ?y s)" by (simp_all add: field_simps)
    then show ?thesis using b(1,2) IH(3) by (simp add: sd(2))
  qed
  have x: "?x ^ 2 ^ Suc k = (?x ^ 2 ^ k) ^ 2" by (simp add: power_mult [symmetric] mult.commute)
  have sq: "(a * 2 ^ d0) ^ 2 = a ^ 2 * 2 ^ (2 * d0)" for a :: real by (simp add: power_mult_distrib power_mult [symmetric] mult.commute)
  have "0 \<le> ?y s0" using IH(1) by simp
  then have "(?y s0 * 2 ^ d0) ^ 2 \<le> ?x ^ 2 ^ Suc k" unfolding x using IH(4) by (intro power_mono) simp_all
  moreover have "?y s1 * 2 ^ (2 * d0) \<le> ?y s0 ^ 2 * 2 ^ (2 * d0)" using m(3) by (intro mult_right_mono) simp_all
  ultimately have lo: "?y s * 2 ^ d \<le> ?x ^ 2 ^ Suc k" using s unfolding sq by linarith
  have e: "2 ^ Suc k - 1 = Suc (?n * 2)" unfolding power_Suc using one_le_power [of "2 :: nat" k] by linarith
  have "?x ^ 2 ^ Suc k \<le> (?u ^ ?n * (?y s0 * 2 ^ d0)) ^ 2" unfolding x using IH(5) order_trans [OF _ IH(4), of 0] \<open>0 \<le> ?y s0\<close>
    by (intro power_mono) simp_all
  also have "\<dots> = ?u ^ (?n * 2) * (?y s0 ^ 2 * 2 ^ (2 * d0))" by (simp only: power_mult_distrib [of "?u ^ ?n"] sq power_mult)
  also have "\<dots> \<le> ?u ^ (?n * 2) * (?u * (?y s * 2 ^ d))"
  proof (intro mult_left_mono)
    have "?y s0 ^ 2 * 2 ^ (2 * d0) \<le> (1 + 1 / 2 ^ 127) * (?y s1 * 2 ^ (2 * d0))" using mult_right_mono [OF m(4), of "2 ^ (2 * d0)"] by (simp add: mult.assoc)
    also have "\<dots> \<le> (1 + 1 / 2 ^ 127) * ((1 + 1 / 2 ^ 127) * (?y s * 2 ^ d))" using s by (intro mult_left_mono) simp_all
    also have "\<dots> \<le> ?u * (?y s * 2 ^ d)" unfolding mult.assoc [symmetric] using s by (intro mult_right_mono) simp_all
    finally show "?y s0 ^ 2 * 2 ^ (2 * d0) \<le> ?u * (?y s * 2 ^ d)" .
  qed simp
  finally have "?x ^ 2 ^ Suc k \<le> ?u ^ (2 ^ Suc k - 1) * (?y s * 2 ^ d)" unfolding e by (simp add: mult_ac)
  with s lo show ?case by blast
qed

lemma log2_near_one: "0 \<le> y \<Longrightarrow> log 2 (1 + y) \<le> 2 * y"
proof -
  assume y: "0 \<le> y"
  have "exp (1 / 2) ^ 2 = exp (1 :: real)" by (simp add: power2_eq_square exp_add [symmetric])
  then have "exp (1 / 2) ^ 2 \<le> (2 :: real) ^ 2" using exp_le by simp
  then have "exp (1 / 2) \<le> (2 :: real)" by (rule power2_le_imp_le) simp
  then have l: "1 / 2 \<le> ln (2 :: real)" by (subst ln_ge_iff) simp_all
  have "ln (1 + y) \<le> y" using y by (rule ln_add_one_self_le_self)
  also have "y \<le> 2 * y * ln 2" using mult_left_mono [OF l, of "2 * y"] y by simp
  finally show ?thesis by (simp add: log_def field_simps)
qed

lemma log_digits_log:
  assumes r: "2 ^ 127 \<le> r" "r < 2 ^ 128" and k: "k \<le> 30" and l: "log_digits k r = (s, d)"
  shows "real d \<le> 2 ^ k * log 2 (r / 2 ^ 127)" "2 ^ k * log 2 (r / 2 ^ 127) \<le> real d + 1 + 1 / 2 ^ 90" "d < 2 ^ k"
proof -
  let ?x = "real_of_int r / 2 ^ 127" and ?y = "real_of_int s / 2 ^ 127" and ?u = "1 + 1 / 2 ^ 125 :: real" 
  define n :: nat where "n = 2 ^ k - 1"
  note b = log_digits_bounds [OF r l, folded n_def]
  then show "d < 2 ^ k" by blast
  have "real_of_int (2 ^ 127) \<le> s" "s \<le> real_of_int (2 ^ 128)" "real_of_int (2 ^ 127) \<le> r" using b r(1) by (simp_all only: of_int_le_iff) auto
  then have y: "1 \<le> ?y" "?y \<le> 2" and x: "0 < ?x" by (simp_all add: field_simps)
  have lx: "log 2 (?x ^ 2 ^ k) = 2 ^ k * log 2 ?x" using x by (simp add: log_nat_power)
  have "1 * 2 ^ d \<le> ?y * 2 ^ d" using y(1) by (rule mult_right_mono) simp
  then have "2 ^ d \<le> ?x ^ 2 ^ k" using b by linarith
  then have "log 2 (2 ^ d) \<le> log 2 (?x ^ 2 ^ k)" using x by (subst log_le_cancel_iff) simp_all
  then show "real d \<le> 2 ^ k * log 2 ?x" unfolding lx by (simp add: log_nat_power)
  have "(2 :: nat) ^ k \<le> 2 ^ 30" using k by (intro power_increasing) simp_all
  then have "n \<le> 2 ^ 30" unfolding n_def by linarith
  then have "real n * (1 / 2 ^ 125) \<le> real (2 ^ 30) * (1 / 2 ^ 125)" by (intro mult_right_mono) (simp_all only: of_nat_le_iff, simp)
  then have "?u ^ n \<le> 1 + 1 / 2 ^ 94" using power_near_one(2) [of "1 / 2 ^ 125" n] by simp
  then have "?u ^ n * (?y * 2 ^ d) \<le> (1 + 1 / 2 ^ 94) * (2 * 2 ^ d)" using y by (intro mult_mono) simp_all
  then have "?x ^ 2 ^ k \<le> (1 + 1 / 2 ^ 94) * 2 ^ Suc d" using b unfolding power_Suc by linarith
  then have "log 2 (?x ^ 2 ^ k) \<le> log 2 ((1 + 1 / 2 ^ 94) * 2 ^ Suc d)" using x by (subst log_le_cancel_iff) simp_all
  also have "\<dots> = log 2 (1 + 1 / 2 ^ 94) + real (Suc d)" by (subst log_mult) (simp_all add: log_nat_power del: power_Suc)
  also have "\<dots> \<le> real d + 1 + 1 / 2 ^ 90" using log2_near_one [of "1 / 2 ^ 94"] by simp
  finally show "2 ^ k * log 2 ?x \<le> real d + 1 + 1 / 2 ^ 90" unfolding lx .
qed

lemma log_loop:
  assumes "2 ^ 127 \<le> r" "r < 2 ^ 128"
  shows "k \<le> 64 \<Longrightarrow> foldl log_step (r, 0) (rev [64 - k ..< 64]) = (fst (log_digits k r), int (snd (log_digits k r)) * 2 ^ (64 - k))"
proof (induction k)
  case 0
  then show ?case by simp
next
  case (Suc k)
  obtain s d where l: "log_digits k r = (s, d)" by fastforce
  have s: "2 ^ 127 \<le> s" "s < 2 ^ 128" using log_digits_bounds [OF assms l] by blast+
  have u: "rev [64 - Suc k ..< 64] = rev [64 - k ..< 64] @ [63 - k]"
  proof -
    have "64 - k = Suc (63 - k)" "64 - Suc k = 63 - k" using Suc.prems by simp_all
    then show ?thesis by (simp add: upt_conv_Cons)
  qed
  have e: "int d * 2 ^ (64 - k) = 2 * int d * 2 ^ (63 - k)"
  proof -
    have "64 - k = Suc (63 - k)" using Suc.prems by simp
    then show ?thesis by simp
  qed
  have "\<not> bit (2 * int d * 2 ^ (63 - k)) (63 - k)" by (simp add: bit_iff_odd)
  then have b: "set_bit (63 - k) (2 * int d * 2 ^ (63 - k)) = (2 * int d + 1) * 2 ^ (63 - k)" by (simp add: set_bit_eq algebra_simps)
  define q where "q = s * s div 2 ^ 127"
  have q: "2 ^ 127 \<le> q" "q < 2 ^ 129" using mantissa_step(1,2) [OF s] by (simp_all add: q_def)
  have "bit q 128 \<longleftrightarrow> 2 ^ 128 \<le> q"
  proof (cases "2 ^ 128 \<le> q")
    case True
    with q have "1 \<le> q div 2 ^ 128" "q div 2 ^ 128 < 2" by (simp_all add: le_div_iff div_less_iff)
    then have "q div 2 ^ 128 = 1" by linarith
    with True show ?thesis by (simp add: bit_iff_odd)
  next
    case False
    with q have "q div 2 ^ 128 = 0" by (intro div_pos_pos_trivial) simp_all
    with False show ?thesis by (simp add: bit_iff_odd)
  qed
  then have "log_step (s, 2 * int d * 2 ^ (63 - k)) (63 - k)
    = (if 2 ^ 128 \<le> q then (q div 2, (2 * int d + 1) * 2 ^ (63 - k)) else (q, 2 * int d * 2 ^ (63 - k)))"
    unfolding log_step_def prod.case Let_def drop_bit_eq_div q_def [symmetric] b by simp
  moreover have "log_digits (Suc k) r = (if 2 ^ 128 \<le> q then (q div 2, 2 * d + 1) else (q, 2 * d))"
    unfolding log_digits.simps l prod.case Let_def q_def [symmetric] ..
  ultimately show ?case unfolding u using Suc l e by simp
qed

text \<open>The logarithm of the price ratio of neighbouring ticks, from the smallest table entry.\<close>

definition tick_log :: real where "tick_log = - log 2 tick_q"

lemma log_digits_numeral:
  "log_digits (numeral n) r = (case log_digits (pred_numeral n) r of (r, d) \<Rightarrow>
     let r = r * r div 2 ^ 127 in if 2 ^ 128 \<le> r then (r div 2, 2 * d + 1) else (r, 2 * d))"
  by (simp only: numeral_eq_Suc log_digits.simps)

lemma tick_log_bounds:
  "38 - 195964286 / 2 ^ 30 - 1 / 2 ^ 40 \<le> 2 ^ 19 * tick_log" "2 ^ 19 * tick_log \<le> 38 - 195964285 / 2 ^ 30 + 1 / 2 ^ 40"
proof -
  define r :: int where "r = 0x48a170391f7dc42444e8fa2 * 2 ^ 37"
  have r: "2 ^ 127 \<le> r" "r < 2 ^ 128" by (simp_all add: r_def)
  have "snd (log_digits 30 r) = 195964285" by (simp add: r_def log_digits_numeral)
  then obtain s where l: "log_digits 30 r = (s, 195964285)" by (metis prod.collapse)
  note d = log_digits_log [OF r _ l]
  have t: "table 19 = (r / 2 ^ 127) / 2 ^ 38" by (simp add: table_def tickMathRatios_def r_def)
  have p: "0 < tick_q ^ 2 ^ 19" "0 < r / 2 ^ 127" using tick_q(1) by (simp_all add: r_def)
  have lt: "log 2 (table 19) = log 2 (r / 2 ^ 127) - 38" unfolding t using p(2) log_pow_cancel [of 2 38] by (subst log_divide) simp_all
  have lq: "log 2 (tick_q ^ 2 ^ 19) = - (2 ^ 19 * tick_log)" using tick_q(1) by (simp add: log_nat_power tick_log_def)
  have "table 19 \<le> (1 + 1 / 2 ^ 50) * tick_q ^ 2 ^ 19" by (rule table_bounds) simp
  then have "log 2 (table 19) \<le> log 2 ((1 + 1 / 2 ^ 50) * tick_q ^ 2 ^ 19)" using p by (subst log_le_cancel_iff) (simp_all add: t)
  also have "\<dots> = log 2 (1 + 1 / 2 ^ 50) - 2 ^ 19 * tick_log" using p(1) by (subst log_mult) (simp_all only: lq, simp_all)
  finally show "2 ^ 19 * tick_log \<le> 38 - 195964285 / 2 ^ 30 + 1 / 2 ^ 40"
    using log2_near_one [of "1 / 2 ^ 50"] d(1) unfolding lt by simp
  have "(1 - 1 / 2 ^ 50) * tick_q ^ 2 ^ 19 \<le> table 19" by (rule table_bounds) simp
  moreover have "y \<le> (1 + 1 / 2 ^ 49) * x" if "(1 - 1 / 2 ^ 50) * y \<le> x" "0 < y" for x y :: real using that by simp
  ultimately have "tick_q ^ 2 ^ 19 \<le> (1 + 1 / 2 ^ 49) * table 19" using p(1) by blast
  then have "log 2 (tick_q ^ 2 ^ 19) \<le> log 2 ((1 + 1 / 2 ^ 49) * table 19)" using p by (subst log_le_cancel_iff) (simp_all add: t)
  also have "\<dots> = log 2 (1 + 1 / 2 ^ 49) + log 2 (table 19)" using p by (subst log_mult) (simp_all add: t)
  finally show "38 - 195964286 / 2 ^ 30 - 1 / 2 ^ 40 \<le> 2 ^ 19 * tick_log"
    using log2_near_one [of "1 / 2 ^ 49"] d(2) unfolding lt lq by simp
qed

lemma log2_sqrt: "0 < x \<Longrightarrow> log 2 (sqrt x) = log 2 x / 2"
  by (simp add: log_def ln_sqrt)

lemma log_tick_exact: "log 2 (tick_exact t / 2 ^ 96) = t * tick_log"
proof -
  have "log 2 (sqrt (1.0001 powr real_of_int t)) = t * (log 2 1.0001 / 2)" by (simp add: log_powr log2_sqrt)
  moreover have "log 2 tick_q = - (log 2 1.0001 / 2)" unfolding tick_q_def by (simp add: log2_sqrt log_divide field_simps)
  ultimately show ?thesis by (simp add: tick_exact_def tick_log_def)
qed

section \<open>The tick of a price\<close>

lemma most_significant_bit:
  assumes "0 < v" "v < 2 ^ 256"
  obtains b where "MostSignificantBit (Some v) = int b" "2 ^ b \<le> v" "v < 2 ^ Suc b" "b < 256"
proof -
  have "BitLen v \<noteq> 0" using BitLen_le_iff [of v 0] assms by auto
  then obtain b where b: "BitLen v = Suc b" by (cases "BitLen v") auto
  then have "v < 2 ^ Suc b" "\<not> v < 2 ^ b" "b < 256" using BitLen_le_iff [of v "Suc b"] BitLen_le_iff [of v b] BitLen_le_iff [of v 256] assms by auto
  moreover have "MostSignificantBit (Some v) = int b" using \<open>b < 256\<close> assms(1) by (simp add: MostSignificantBit_def b int32_id)
  ultimately show ?thesis by (intro that) auto
qed

lemma mantissa:
  fixes v :: int
  assumes "2 ^ b \<le> v" "v < 2 ^ Suc b"
  defines "r \<equiv> if 128 \<le> int b then drop_bit (nat (int b - 127)) v else push_bit (nat (127 - int b)) v"
  shows "2 ^ 127 \<le> r" "r < 2 ^ 128" "r / 2 ^ 127 \<le> v / 2 ^ b" "v / 2 ^ b \<le> (1 + 1 / 2 ^ 127) * (r / 2 ^ 127)"
proof -
  have "2 ^ 127 \<le> r \<and> r < 2 ^ 128 \<and> r / 2 ^ 127 \<le> v / 2 ^ b \<and> v / 2 ^ b \<le> (1 + 1 / 2 ^ 127) * (r / 2 ^ 127)"
  proof (cases "128 \<le> b")
    case True
    define j where "j = b - 127"
    have b: "b = 127 + j" using True by (simp add: j_def)
    have r: "r = v div 2 ^ j" using True by (simp add: r_def drop_bit_eq_div j_def nat_diff_distrib)
    have "2 ^ 127 \<le> r" "r < 2 ^ 128" using assms(1,2) by (simp_all add: r b power_add le_div_iff div_less_iff)
    moreover have m: "0 \<le> v mod 2 ^ j" "v mod 2 ^ j < 2 ^ j" by simp_all
    have "r * 2 ^ j \<le> v" "v \<le> r * 2 ^ j + 2 ^ j" unfolding r
      using minus_mod_eq_div_mult [of v "2 ^ j"] m by linarith+
    then have "real_of_int (r * 2 ^ j) \<le> v" "v \<le> real_of_int (r * 2 ^ j + 2 ^ j)" by (simp_all only: of_int_le_iff)
    then have "real_of_int r \<le> v / 2 ^ j" "v / 2 ^ j \<le> real_of_int r + 1" by (simp_all add: field_simps)
    moreover have "real_of_int (2 ^ 127) \<le> r" using \<open>2 ^ 127 \<le> r\<close> by (simp only: of_int_le_iff)
    moreover have "v / 2 ^ b = (v / 2 ^ j) / 2 ^ 127" by (simp add: b power_add)
    moreover have "x \<le> y \<and> y \<le> (1 + 1 / 2 ^ 127) * x" if "x = r / 2 ^ 127" "y = z / 2 ^ 127" "real_of_int r \<le> z" "z \<le> real_of_int r + 1"
      "real_of_int (2 ^ 127) \<le> r" for x y z :: real using that by simp
    ultimately show ?thesis by blast
  next
    case False
    define j where "j = 127 - b"
    have b: "127 = b + j" using False by (simp add: j_def)
    have r: "r = v * 2 ^ j" using False by (simp add: r_def push_bit_eq_mult j_def nat_diff_distrib)
    have p: "(2 :: int) ^ 127 = 2 ^ b * 2 ^ j" "(2 :: real) ^ 127 = 2 ^ b * 2 ^ j" unfolding b power_add by (rule refl)+
    have "2 ^ b * 2 ^ j \<le> v * 2 ^ j" "v * 2 ^ j < 2 ^ Suc b * 2 ^ j" using assms(1,2) by (intro mult_right_mono mult_strict_right_mono; simp)+
    then have "2 ^ 127 \<le> r" "r < 2 * 2 ^ 127" unfolding r p(1) by simp_all
    moreover have "real_of_int r / 2 ^ 127 = v / 2 ^ b" unfolding p(2) r by simp
    moreover have "0 \<le> real_of_int v / 2 ^ b" using assms(1) order_trans [of 0 "2 ^ b" v] by simp
    ultimately show ?thesis by (simp add: mult_le_cancel_right1)
  qed
  then show "2 ^ 127 \<le> r" "r < 2 ^ 128" "r / 2 ^ 127 \<le> v / 2 ^ b" "v / 2 ^ b \<le> (1 + 1 / 2 ^ 127) * (r / 2 ^ 127)" by blast+
qed

lemma log_of_price:
  assumes v: "2 ^ b \<le> v" "v < 2 ^ Suc b" and r: "r = (if 128 \<le> int b then drop_bit (nat (int b - 127)) v else push_bit (nat (127 - int b)) v)"
  obtains d where "snd (foldl log_step (r, 0) (rev [50 ..< 64])) = int d * 2 ^ 50" "d < 2 ^ 14"
    "real b + real d / 2 ^ 14 \<le> log 2 v" "log 2 v \<le> real b + (real d + 1) / 2 ^ 14 + 1 / 2 ^ 90"
proof -
  note m = mantissa [OF v, folded r]
  obtain s d where l: "log_digits 14 r = (s, d)" by fastforce
  note d = log_digits_log [OF m(1,2) _ l]
  have f: "snd (foldl log_step (r, 0) (rev [50 ..< 64])) = int d * 2 ^ 50" using log_loop [OF m(1,2), of 14] l by simp
  have "real_of_int (2 ^ 127) \<le> r" "real_of_int (2 ^ b) \<le> v" using m(1) v(1) by (simp_all only: of_int_le_iff)
  then have p: "0 < r / 2 ^ 127" "0 < real_of_int v" by (simp_all add: less_le_trans [of 0 "2 ^ b"])
  have lv: "log 2 (v / 2 ^ b) = log 2 v - b" using p(2) by (subst log_divide) simp_all
  have "log 2 (r / 2 ^ 127) \<le> log 2 (v / 2 ^ b)" using m(3) p by (subst log_le_cancel_iff) simp_all
  then have lo: "real b + real d / 2 ^ 14 \<le> log 2 v" using d(1) lv by simp
  have "log 2 (v / 2 ^ b) \<le> log 2 ((1 + 1 / 2 ^ 127) * (r / 2 ^ 127))" using m(4) p by (subst log_le_cancel_iff) simp_all
  then have "log 2 (v / 2 ^ b) \<le> log 2 (1 + 1 / 2 ^ 127) + log 2 (r / 2 ^ 127)" using p by (subst (asm) log_mult) simp_all
  moreover have "log 2 (1 + 1 / 2 ^ 127) \<le> (1 / 2 ^ 100 :: real)" using log2_near_one [of "1 / 2 ^ 127"] by simp
  moreover have "log 2 (r / 2 ^ 127) \<le> (real d + 1) / 2 ^ 14 + 1 / 2 ^ 100" using d(2) by (simp add: field_simps)
  moreover have "1 / 2 ^ 100 + 1 / 2 ^ 100 \<le> (1 / 2 ^ 90 :: real)" by simp
  ultimately have "log 2 v \<le> real b + (real d + 1) / 2 ^ 14 + 1 / 2 ^ 90" using lv by linarith
  then show ?thesis using f lo d(3) by (intro that) simp_all
qed

lemma shifted_or: "0 \<le> y \<Longrightarrow> y < 2 ^ n \<Longrightarrow> push_bit n x OR y = push_bit n x + y" for x y :: int
proof (rule sym, rule disjunctive_add)
  fix i
  assume y: "0 \<le> y" "y < 2 ^ n"
  have "\<not> bit y i" if "n \<le> i" using bit_take_bit_iff [of n y i] take_bit_int_eq_self [OF y] that by simp
  then show "\<not> bit (push_bit n x) i \<or> \<not> bit y i" by (auto simp: bit_push_bit_iff)
qed

lemma tick_of_bits_div:
  assumes "- (2 ^ 31) \<le> v div 2 ^ 128" "v div 2 ^ 128 < 2 ^ 31" "v mod 2 ^ 256 = w mod 2 ^ 256"
  shows "tick_of_bits (tickMathWrapU256 w) = v div 2 ^ 128"
proof -
  have "drop_bit 128 (tickMathWrapU256 w) = take_bit 128 (v div 2 ^ 128)"
  proof -
    have "tickMathWrapU256 w = take_bit 256 v" by (simp only: tickMathWrapU256_def and_maxU256 assms(3) [symmetric] take_bit_eq_mod)
    then show ?thesis by (simp only: drop_bit_take_bit drop_bit_eq_div [of 128 v]) simp
  qed
  then have "tick_of_bits (tickMathWrapU256 w) = int32 (v div 2 ^ 128)"
    by (simp add: tick_of_bits_def int32_def signed_take_bit_take_bit)
  also have "\<dots> = v div 2 ^ 128" using assms(1,2) by (intro int32_id) simp_all
  finally show ?thesis .
qed

text \<open>The quantities of \<open>GetTickAtSqrtRatio\<close> in exact terms: an integer \<open>m\<close> with the digits of the logarithm, and the two candidates.\<close>

definition tick_low :: "int \<Rightarrow> int" where
  "tick_low m = (m * 2 ^ 50 * 255738958999603826347141 - 3402992956809132418596140100660247210) div 2 ^ 128"

definition tick_high :: "int \<Rightarrow> int" where
  "tick_high m = (m * 2 ^ 50 * 255738958999603826347141 + 291339464771989622907027621153398088495) div 2 ^ 128"

lemma GetTickAtSqrtRatio_candidates:
  assumes "minSqrtRatio \<le> p" "p < maxSqrtRatio"
  obtains m where "real_of_int m / 2 ^ 14 \<le> log 2 (p / 2 ^ 96)" "log 2 (p / 2 ^ 96) \<le> (m + 1) / 2 ^ 14 + 1 / 2 ^ 90" "\<bar>m\<bar> \<le> 2 ^ 20"
    "GetTickAtSqrtRatio (Some p) = (if tick_low m = tick_high m then Inr (tick_low m)
       else call_bind (GetSqrtRatioAtTick (tick_high m)) (\<lambda>v. Inr (if v \<le> p then tick_high m else tick_low m)))"
proof -
  define v where "v = push_bit 32 p"
  have p: "2 ^ 32 \<le> p" "p < 2 ^ 160" using assms by (simp_all add: minSqrtRatio_def maxSqrtRatio_def)
  then have v: "2 ^ 64 \<le> v" "v < 2 ^ 192" by (simp_all add: v_def push_bit_eq_mult)
  obtain b where b: "MostSignificantBit (Some v) = int b" "2 ^ b \<le> v" "v < 2 ^ Suc b" using most_significant_bit [of v] v by auto
  have "(2 :: int) ^ 64 < 2 ^ Suc b" "(2 :: int) ^ b < 2 ^ 192" using v b by linarith+
  then have b': "64 \<le> b" "b < 192" using power_strict_increasing_iff [of "2 :: int" 64 "Suc b"] power_strict_increasing_iff [of "2 :: int" b 192] by simp_all
  define r where "r = (if 128 \<le> int b then drop_bit (nat (int b - 127)) v else push_bit (nat (127 - int b)) v)"
  obtain d where d: "snd (foldl log_step (r, 0) (rev [50 ..< 64])) = int d * 2 ^ 50" "d < 2 ^ 14"
    "real b + real d / 2 ^ 14 \<le> log 2 v" "log 2 v \<le> real b + (real d + 1) / 2 ^ 14 + 1 / 2 ^ 90" using log_of_price [OF b(2,3) r_def] by blast
  define m where "m = (int b - 128) * 2 ^ 14 + int d"
  have lv: "log 2 v = log 2 (p / 2 ^ 96) + 128"
  proof -
    have "real_of_int v = p / 2 ^ 96 * 2 ^ 128" by (simp add: v_def push_bit_eq_mult)
    moreover have "log 2 (p / 2 ^ 96 * 2 ^ 128) = log 2 (p / 2 ^ 96) + 128" using p(1) log_pow_cancel [of 2 128] by (subst log_mult) simp_all
    ultimately show ?thesis by simp
  qed
  have m: "real_of_int m / 2 ^ 14 = real b + real d / 2 ^ 14 - 128" "(real_of_int m + 1) / 2 ^ 14 = real b + (real d + 1) / 2 ^ 14 - 128"
    by (simp_all add: m_def field_simps)
  have dd: "0 \<le> int d * 2 ^ 50" "int d * 2 ^ 50 < 2 ^ 64" using d(2) by simp_all
  let ?L = "(if 128 \<le> int b then push_bit 64 (int b - 128) else maxU256 + 1 - push_bit 64 (128 - int b)) OR int d * 2 ^ 50"
  have L: "?L mod 2 ^ 256 = m * 2 ^ 50 mod 2 ^ 256"
  proof (cases "128 \<le> int b")
    case True
    then have "?L = push_bit 64 (int b - 128) + int d * 2 ^ 50" using shifted_or [OF dd, of "int b - 128"] by simp
    also have "\<dots> = m * 2 ^ 50" by (simp add: m_def push_bit_eq_mult algebra_simps)
    finally show ?thesis by (rule arg_cong)
  next
    case False
    have "maxU256 + 1 - push_bit 64 (128 - int b) = push_bit 64 (2 ^ 192 - (128 - int b))" by (simp add: maxU256_def push_bit_eq_mult algebra_simps)
    then have "?L = push_bit 64 (2 ^ 192 - (128 - int b)) + int d * 2 ^ 50" using False shifted_or [OF dd, of "2 ^ 192 - (128 - int b)"] by simp
    also have "\<dots> = m * 2 ^ 50 + 2 ^ 256" by (simp add: m_def push_bit_eq_mult algebra_simps)
    finally show ?thesis by (simp only: mod_add_self2)
  qed
  have range: "- (2 ^ 31) \<le> tick_low m" "tick_low m < 2 ^ 31" "- (2 ^ 31) \<le> tick_high m" "tick_high m < 2 ^ 31" and m20: "\<bar>m\<bar> \<le> 2 ^ 20"
    using b' d(2) by (simp_all add: m_def tick_low_def tick_high_def le_div_iff div_less_iff)
  have W: "(tickMathWrapU256 (?L * k) + e) mod 2 ^ 256 = (m * 2 ^ 50 * k + e) mod 2 ^ 256" for k e
    unfolding tickMathWrapU256_def and_maxU256 using L by (metis mod_add_left_eq mod_mult_left_eq)
  have lo: "tick_of_bits (tickMathWrapU256 (tickMathWrapU256 (?L * 255738958999603826347141) - 3402992956809132418596140100660247210)) = tick_low m"
    unfolding tick_low_def using range(1,2) W [of 255738958999603826347141 "- 3402992956809132418596140100660247210"] unfolding tick_low_def
    by (intro tick_of_bits_div) simp_all
  have hi: "tick_of_bits (tickMathWrapU256 (tickMathWrapU256 (?L * 255738958999603826347141) + 291339464771989622907027621153398088495)) = tick_high m"
    unfolding tick_high_def using range(3,4) W [of 255738958999603826347141 291339464771989622907027621153398088495] unfolding tick_high_def
    by (intro tick_of_bits_div) simp_all
  have U: "requireU160 (Some p) = Inr p" using p by (simp add: require_defs)
  have "GetTickAtSqrtRatio (Some p) = (if tick_low m = tick_high m then Inr (tick_low m)
       else call_bind (GetSqrtRatioAtTick (tick_high m)) (\<lambda>v. Inr (if v \<le> p then tick_high m else tick_low m)))"
    unfolding GetTickAtSqrtRatio_def U call_bind_simps Let_def v_def [symmetric] b(1) r_def [symmetric] d(1) lo hi using assms by simp
  moreover have "real_of_int m / 2 ^ 14 \<le> log 2 (p / 2 ^ 96)" "log 2 (p / 2 ^ 96) \<le> (real_of_int m + 1) / 2 ^ 14 + 1 / 2 ^ 90"
    using d(3,4) lv m by linarith+
  ultimately show ?thesis using m20 by (intro that)
qed

text \<open>The scaled logarithm of the ratio of neighbouring ticks is within \<open>2^-28\<close> of one.\<close>

lemma tick_log_scaled: "\<bar>tick_log * (255738958999603826347141 / 2 ^ 64) - 1\<bar> \<le> 1 / 2 ^ 28" "7.2 / 10 ^ 5 \<le> tick_log"
proof -
  have "tick_log * (255738958999603826347141 / 2 ^ 64) \<le> 1 + 1 / 2 ^ 28" "1 - 1 / 2 ^ 28 \<le> tick_log * (255738958999603826347141 / 2 ^ 64)"
    using tick_log_bounds by simp_all
  then show "\<bar>tick_log * (255738958999603826347141 / 2 ^ 64) - 1\<bar> \<le> 1 / 2 ^ 28" by linarith
  show "7.2 / 10 ^ 5 \<le> tick_log" using tick_log_bounds(1) by simp
qed

lemma candidate_ticks:
  fixes p :: real
  assumes p: "real_of_int m / 2 ^ 14 \<le> p" "p \<le> (m + 1) / 2 ^ 14 + 1 / 2 ^ 90" and m: "\<bar>m\<bar> \<le> 2 ^ 20"
  shows "tick_low m * tick_log + 1 / 2 ^ 28 \<le> p" "p + 1 / 2 ^ 27 \<le> (tick_high m + 1) * tick_log"
    "tick_high m * tick_log \<le> p + 0.87 * tick_log" "tick_high m \<le> tick_low m + 1" "tick_low m \<le> tick_high m"
proof -
  let ?A = "m * 2 ^ 50 * 255738958999603826347141" and ?l = "3402992956809132418596140100660247210 :: int" and ?h = "291339464771989622907027621153398088495 :: int"
  define x where "x = real_of_int m / 2 ^ 14"
  define w where "w = x * (tick_log * (255738958999603826347141 / 2 ^ 64))"
  have "\<bar>real_of_int m\<bar> \<le> 2 ^ 20" using of_int_le_iff [of "\<bar>m\<bar>" "2 ^ 20", where 'a = real] m by simp
  then have x: "\<bar>x\<bar> \<le> 64" by (simp add: x_def)
  have "\<bar>w - x\<bar> = \<bar>x\<bar> * \<bar>tick_log * (255738958999603826347141 / 2 ^ 64) - 1\<bar>"
    by (simp add: w_def abs_mult [symmetric] algebra_simps)
  also have "\<dots> \<le> 64 * (1 / 2 ^ 28)" using x tick_log_scaled(1) by (intro mult_mono) simp_all
  finally have "\<bar>w - x\<bar> \<le> 1 / 2 ^ 22" by simp
  then have w: "w \<le> x + 1 / 2 ^ 22" "x - 1 / 2 ^ 22 \<le> w" by linarith+
  have A: "tick_log * (real_of_int ?A / 2 ^ 128) = w" by (simp add: w_def x_def)
  have d: "v div 2 ^ 128 * 2 ^ 128 \<le> v" "v < (v div 2 ^ 128 + 1) * 2 ^ 128" for v :: int by simp_all
  have f: "real_of_int (v div 2 ^ 128) \<le> v / 2 ^ 128" "v / 2 ^ 128 \<le> real_of_int (v div 2 ^ 128) + 1" for v :: int
  proof -
    have "real_of_int (v div 2 ^ 128 * 2 ^ 128) \<le> v" "v \<le> real_of_int ((v div 2 ^ 128 + 1) * 2 ^ 128)" using d [of v] by (simp_all only: of_int_le_iff less_imp_le)
    then show "real_of_int (v div 2 ^ 128) \<le> v / 2 ^ 128" "v / 2 ^ 128 \<le> real_of_int (v div 2 ^ 128) + 1" by (simp_all add: field_simps)
  qed
  have "tick_log * tick_low m \<le> tick_log * ((?A - ?l) / 2 ^ 128)" unfolding tick_low_def using f(1) tick_log_scaled(2) by (intro mult_left_mono) simp_all
  also have "\<dots> = w - tick_log * (real_of_int ?l / 2 ^ 128)" unfolding A [symmetric] of_int_diff diff_divide_distrib right_diff_distrib ..
  finally show "tick_low m * tick_log + 1 / 2 ^ 28 \<le> p" using w p(1) tick_log_scaled(2) unfolding x_def [symmetric] by (simp add: mult.commute)
  have "w + tick_log * (real_of_int ?h / 2 ^ 128) = tick_log * ((?A + ?h) / 2 ^ 128)" unfolding A [symmetric] of_int_add add_divide_distrib distrib_left ..
  also have "\<dots> \<le> tick_log * (tick_high m + 1)" unfolding tick_high_def using f(2) tick_log_scaled(2) by (intro mult_left_mono) simp_all
  finally show "p + 1 / 2 ^ 27 \<le> (tick_high m + 1) * tick_log"
    using w p(2) tick_log_scaled(2) unfolding add_divide_distrib x_def [symmetric] by (simp add: mult.commute)
  have "tick_log * tick_high m \<le> tick_log * ((?A + ?h) / 2 ^ 128)" unfolding tick_high_def using f(1) tick_log_scaled(2) by (intro mult_left_mono) simp_all
  also have "\<dots> = w + tick_log * (real_of_int ?h / 2 ^ 128)" unfolding A [symmetric] of_int_add add_divide_distrib distrib_left ..
  finally show "tick_high m * tick_log \<le> p + 0.87 * tick_log" using w p(1) tick_log_scaled(2) unfolding x_def [symmetric] by (simp add: mult.commute)
  show "tick_low m \<le> tick_high m" unfolding tick_low_def tick_high_def by (intro zdiv_mono1) simp_all
  have "(?A + ?h) div 2 ^ 128 \<le> (?A - ?l + 2 ^ 128) div 2 ^ 128" by (intro zdiv_mono1) simp_all
  also have "\<dots> = (?A - ?l) div 2 ^ 128 + 1" by (rule div_add_self2) simp
  finally show "tick_high m \<le> tick_low m + 1" unfolding tick_low_def tick_high_def .
qed

lemma log_price:
  assumes "MinTick \<le> t" "t \<le> MaxTick" "GetSqrtRatioAtTick t = Inr v"
  shows "0 < v" "log 2 (v / 2 ^ 96) \<le> t * tick_log + 1 / 2 ^ 28" "t * tick_log \<le> log 2 (v / 2 ^ 96) + 1 / 2 ^ 28"
proof -
  let ?e = "tick_exact t"
  have b: "(1 - 1 / 2 ^ 30) * ?e \<le> v" "v \<le> (1 + 1 / 2 ^ 30) * ?e" using GetSqrtRatioAtTick_near [OF assms(1,2)] assms(3) by auto
  have e: "0 < ?e" by (rule tick_exact_pos)
  have "0 < (1 - 1 / 2 ^ 30) * ?e" using e by simp
  then have v: "0 < real_of_int v" using b(1) by linarith
  then show "0 < v" by simp
  have "log 2 (v / 2 ^ 96) \<le> log 2 ((1 + 1 / 2 ^ 30) * (?e / 2 ^ 96))" using b(2) v e by (subst log_le_cancel_iff) simp_all
  also have "\<dots> = log 2 (1 + 1 / 2 ^ 30) + t * tick_log" using e by (subst log_mult) (simp_all add: log_tick_exact [simplified])
  finally show "log 2 (v / 2 ^ 96) \<le> t * tick_log + 1 / 2 ^ 28" using log2_near_one [of "1 / 2 ^ 30"] by simp
  have "?e \<le> (1 + 1 / 2 ^ 29) * v" using b(1) e by simp
  then have "log 2 (?e / 2 ^ 96) \<le> log 2 ((1 + 1 / 2 ^ 29) * (v / 2 ^ 96))" using v e by (subst log_le_cancel_iff) simp_all
  also have "\<dots> = log 2 (1 + 1 / 2 ^ 29) + log 2 (v / 2 ^ 96)" using v by (subst log_mult) simp_all
  finally show "t * tick_log \<le> log 2 (v / 2 ^ 96) + 1 / 2 ^ 28" using log2_near_one [of "1 / 2 ^ 29"] unfolding log_tick_exact by simp
qed

lemma log_price_le: "0 < p \<Longrightarrow> 0 < q \<Longrightarrow> log 2 (real_of_int p / 2 ^ 96) \<le> log 2 (real_of_int q / 2 ^ 96) \<longleftrightarrow> p \<le> q"
  by (subst log_le_cancel_iff) simp_all

lemma candidate_range:
  assumes p: "minSqrtRatio \<le> p" "p < maxSqrtRatio" and m: "real_of_int m / 2 ^ 14 \<le> log 2 (p / 2 ^ 96)"
    "log 2 (p / 2 ^ 96) \<le> (m + 1) / 2 ^ 14 + 1 / 2 ^ 90" "\<bar>m\<bar> \<le> 2 ^ 20"
  shows "MinTick \<le> tick_high m" "tick_high m \<le> MaxTick"
proof -
  note c = candidate_ticks [OF m]
  have t: "MinTick \<le> MinTick" "MinTick \<le> MaxTick" "MaxTick \<le> MaxTick" by (simp_all add: MinTick_def MaxTick_def)
  note lowest = log_price [OF t(1,2) tick_price_ends(1)] and highest = log_price [OF t(2,3) tick_price_ends(2)]
  have half: "1 / 2 ^ 28 < (1 / 2 ^ 27 :: real)" by simp
  have p0: "0 < p" using p(1) by (simp add: minSqrtRatio_def)
  have l: "0 < tick_log" using tick_log_scaled(2) by simp
  have "log 2 (minSqrtRatio / 2 ^ 96) \<le> log 2 (p / 2 ^ 96)" using log_price_le [of minSqrtRatio p] p p0 lowest(1) by simp
  then have "MinTick * tick_log < (tick_high m + 1) * tick_log" using lowest(3) c(2) half by linarith
  then have "real_of_int MinTick < real_of_int (tick_high m + 1)" using l by (simp add: mult_less_cancel_right)
  then show "MinTick \<le> tick_high m" by linarith
  have "log 2 (p / 2 ^ 96) \<le> log 2 (maxSqrtRatio / 2 ^ 96)" using log_price_le [of p maxSqrtRatio] p p0 by (simp add: maxSqrtRatio_def)
  then have "tick_high m * tick_log \<le> MaxTick * tick_log + 0.87 * tick_log + 1 / 2 ^ 28" using highest(2) c(3) by linarith
  also have "\<dots> < (MaxTick + 1) * tick_log" using tick_log_scaled(2) by (simp add: distrib_right)
  finally have "real_of_int (tick_high m) < real_of_int (MaxTick + 1)" using l by (simp add: mult_less_cancel_right)
  then show "tick_high m \<le> MaxTick" by linarith
qed

lemma tick_of_price:
  assumes p: "minSqrtRatio \<le> p" "p < maxSqrtRatio"
  shows "\<exists>t v v'. GetTickAtSqrtRatio (Some p) = Inr t \<and> MinTick \<le> t \<and> t < MaxTick
      \<and> GetSqrtRatioAtTick t = Inr v \<and> GetSqrtRatioAtTick (t + 1) = Inr v' \<and> v \<le> p \<and> p < v'"
proof -
  obtain m where m: "real_of_int m / 2 ^ 14 \<le> log 2 (p / 2 ^ 96)" "log 2 (p / 2 ^ 96) \<le> (m + 1) / 2 ^ 14 + 1 / 2 ^ 90" "\<bar>m\<bar> \<le> 2 ^ 20"
    and g: "GetTickAtSqrtRatio (Some p) = (if tick_low m = tick_high m then Inr (tick_low m)
       else call_bind (GetSqrtRatioAtTick (tick_high m)) (\<lambda>v. Inr (if v \<le> p then tick_high m else tick_low m)))"
    using GetTickAtSqrtRatio_candidates [OF p] by blast
  note c = candidate_ticks [OF m] and r = candidate_range [OF p m]
  have p0: "0 < p" using p(1) by (simp add: minSqrtRatio_def)
  have low: "v \<le> p" if "MinTick \<le> tick_low m" "GetSqrtRatioAtTick (tick_low m) = Inr v" for v
  proof -
    have "tick_low m \<le> MaxTick" using c(5) r(2) by linarith
    note q = log_price [OF that(1) this that(2)]
    from q(2) c(1) have "log 2 (v / 2 ^ 96) \<le> log 2 (p / 2 ^ 96)" by linarith
    then show ?thesis using log_price_le [OF q(1) p0] by blast
  qed
  have high: "p < v" if "tick_high m < MaxTick" "GetSqrtRatioAtTick (tick_high m + 1) = Inr v" for v
  proof -
    have "MinTick \<le> tick_high m + 1" "tick_high m + 1 \<le> MaxTick" using that(1) r(1) by linarith+
    note q = log_price [OF this that(2)]
    have "1 / 2 ^ 28 < (1 / 2 ^ 27 :: real)" by simp
    with q(3) c(2) have "\<not> log 2 (v / 2 ^ 96) \<le> log 2 (p / 2 ^ 96)" by linarith
    then show ?thesis using log_price_le [OF q(1) p0] by linarith
  qed
  have below: "t < MaxTick" if "t \<le> MaxTick" "GetSqrtRatioAtTick t = Inr v" "v \<le> p" for t v
    using that p tick_price_ends(2) by (cases "t = MaxTick") auto
  have price: "\<exists>v. GetSqrtRatioAtTick t = Inr v" if "MinTick \<le> t" "t \<le> MaxTick" for t using GetSqrtRatioAtTick_near [OF that] by blast
  obtain v where v: "GetSqrtRatioAtTick (tick_high m) = Inr v" using price r by blast
  have found: ?thesis if "GetTickAtSqrtRatio (Some p) = Inr (tick_high m)" "v \<le> p"
    using that v below [OF r(2) v] high price [of "tick_high m + 1"] r(1) by fastforce
  show ?thesis
  proof (cases "tick_low m = tick_high m \<or> v \<le> p")
    case True
    then show ?thesis using found low v g r by (auto split: if_splits)
  next
    case False
    then have t: "tick_high m = tick_low m + 1" "GetTickAtSqrtRatio (Some p) = Inr (tick_low m)" using c(4,5) g v by auto
    have "tick_high m \<noteq> MinTick" using False v tick_price_ends(1) p(1) by auto
    then have "MinTick \<le> tick_low m" "tick_low m < MaxTick" using r t(1) by linarith+
    then show ?thesis using price [of "tick_low m"] low False v t by fastforce
  qed
qed

section \<open>Properties\<close>

text \<open>
  C35. The price of a tick is exact to thirty bits and strictly increasing. Every tick in range has a price, within a relative error of
  \<open>2^-30\<close> of \<open>2^96 * sqrt(1.0001^tick)\<close>; a higher tick has a higher price; the prices of the lowest and the highest tick are the
  documented bounds; a tick out of range panics.
\<close>

theorem tick_price_accurate_and_increasing:
  shows "(MinTick \<le> t \<and> t \<le> MaxTick \<longrightarrow> (\<exists>v. GetSqrtRatioAtTick t = Inr v
      \<and> \<bar>v - 2 ^ 96 * sqrt (1.0001 powr t)\<bar> \<le> 2 ^ 96 * sqrt (1.0001 powr t) / 2 ^ 30))
    \<and> (MinTick \<le> t \<and> t < t' \<and> t' \<le> MaxTick \<longrightarrow> (\<exists>v v'. GetSqrtRatioAtTick t = Inr v \<and> GetSqrtRatioAtTick t' = Inr v' \<and> v < v'))
    \<and> GetSqrtRatioAtTick MinTick = Inr MinSqrtRatio \<and> GetSqrtRatioAtTick MaxTick = Inr MaxSqrtRatio
    \<and> (t < MinTick \<or> MaxTick < t \<longrightarrow> (\<exists>e. GetSqrtRatioAtTick t = Inl e))"
proof -
  have "\<exists>v. GetSqrtRatioAtTick t = Inr v \<and> \<bar>v - tick_exact t\<bar> \<le> tick_exact t / 2 ^ 30" if r: "MinTick \<le> t" "t \<le> MaxTick"
  proof -
    obtain v where v: "GetSqrtRatioAtTick t = Inr v" "(1 - 1 / 2 ^ 30) * tick_exact t \<le> v" "v \<le> (1 + 1 / 2 ^ 30) * tick_exact t"
      using GetSqrtRatioAtTick_near [OF r] by blast
    then have "v - tick_exact t \<le> tick_exact t / 2 ^ 30" "tick_exact t - v \<le> tick_exact t / 2 ^ 30" by (simp_all add: field_simps)
    then show ?thesis using v(1) by (auto simp only: abs_le_iff minus_diff_eq)
  qed
  moreover have "\<exists>v v'. GetSqrtRatioAtTick t = Inr v \<and> GetSqrtRatioAtTick t' = Inr v' \<and> v < v'" if "MinTick \<le> t" "t < t'" "t' \<le> MaxTick"
    using GetSqrtRatioAtTick_near [of t] GetSqrtRatioAtTick_near [of t'] tick_price_less [OF that] that by fastforce
  moreover have "\<exists>e. GetSqrtRatioAtTick t = Inl e" if "t < MinTick \<or> MaxTick < t" using that by (auto simp: GetSqrtRatioAtTick_def)
  ultimately show ?thesis using tick_price_ends by (simp add: tick_exact_def MinSqrtRatio_def MaxSqrtRatio_def)
qed

theorem tick_price_accurate_and_increasing_witness:
  "\<exists>v. GetSqrtRatioAtTick 50 = Inr v \<and> \<bar>v - 2 ^ 96 * sqrt (1.0001 powr 50)\<bar> \<le> 2 ^ 96 * sqrt (1.0001 powr 50) / 2 ^ 30"
  using tick_price_accurate_and_increasing [of 50 51] by (simp add: MinTick_def MaxTick_def)

text \<open>
  C36. The tick of a price is the greatest tick whose price does not exceed it. Every price from the lowest tick's up to,
  excluding, the highest tick's has such a tick, the two candidates of the fourteen-digit logarithm always include it, and no
  call panics; in particular the tick of the price of a tick is that tick. Any other price panics.
\<close>

theorem tick_of_price_greatest:
  shows "(MinSqrtRatio \<le> p \<and> p < MaxSqrtRatio \<longrightarrow> (\<exists>t v v'. GetTickAtSqrtRatio (Some p) = Inr t \<and> MinTick \<le> t \<and> t < MaxTick
      \<and> GetSqrtRatioAtTick t = Inr v \<and> GetSqrtRatioAtTick (t + 1) = Inr v' \<and> v \<le> p \<and> p < v'))
    \<and> (MinTick \<le> t \<and> t < MaxTick \<longrightarrow> (\<exists>v. GetSqrtRatioAtTick t = Inr v \<and> GetTickAtSqrtRatio (Some v) = Inr t))
    \<and> (p < MinSqrtRatio \<or> MaxSqrtRatio \<le> p \<longrightarrow> (\<exists>e. GetTickAtSqrtRatio (Some p) = Inl e))"
proof -
  have "\<exists>v. GetSqrtRatioAtTick t = Inr v \<and> GetTickAtSqrtRatio (Some v) = Inr t" if t: "MinTick \<le> t" "t < MaxTick"
  proof -
    obtain v where v: "GetSqrtRatioAtTick t = Inr v" using GetSqrtRatioAtTick_near [of t] t by auto
    have "minSqrtRatio \<le> v" "v < maxSqrtRatio"
      using tick_price_less [OF _ _ _ tick_price_ends(1) v] tick_price_less [OF _ _ _ v tick_price_ends(2)] t v tick_price_ends(1)
      by (cases "t = MinTick"; force)+
    then obtain u w w' where u: "GetTickAtSqrtRatio (Some v) = Inr u" "MinTick \<le> u" "u < MaxTick" "GetSqrtRatioAtTick u = Inr w"
      "GetSqrtRatioAtTick (u + 1) = Inr w'" "w \<le> v" "v < w'" using tick_of_price by blast
    have "\<not> t < u" using tick_price_less [OF t(1) _ _ v u(4)] u by auto
    moreover have "\<not> u + 1 < t" "u + 1 \<noteq> t" using tick_price_less [OF _ _ _ u(5) v] u t v by auto
    ultimately have "u = t" by linarith
    with u v show ?thesis by blast
  qed
  moreover have "\<exists>e. GetTickAtSqrtRatio (Some p) = Inl e" if "p < minSqrtRatio \<or> maxSqrtRatio \<le> p"
  proof (cases "requireU160 (Some p)")
    case (Inr x)
    then have "x = p" by (simp add: requireU160_def requireUnsigned_Inr_iff)
    then show ?thesis using that Inr by (simp add: GetTickAtSqrtRatio_def)
  qed (simp add: GetTickAtSqrtRatio_def)
  ultimately show ?thesis using tick_of_price [of p] unfolding MinSqrtRatio_def MaxSqrtRatio_def by blast
qed

theorem tick_of_price_greatest_witness:
  "\<exists>t v v'. GetTickAtSqrtRatio (Some 79426470787362580746886972461) = Inr t \<and> MinTick \<le> t \<and> t < MaxTick
     \<and> GetSqrtRatioAtTick t = Inr v \<and> GetSqrtRatioAtTick (t + 1) = Inr v' \<and> v \<le> 79426470787362580746886972461
     \<and> 79426470787362580746886972461 < v'"
  using tick_of_price_greatest [of 79426470787362580746886972461 0] by (simp add: MinSqrtRatio_def MaxSqrtRatio_def minSqrtRatio_def maxSqrtRatio_def)

end
