(* ===== verification/DefiSwap.thy ===== *)
theory DefiSwap
  imports DefiMath
begin

text \<open>
  One step of a concentrated-liquidity swap (\<open>internal/defi/swap_math.go\<close>): for prices, liquidity and amounts in
  their ranges a step always returns, its price stays between the current and the target price, an exact
  input is never exceeded by what is taken in with the fee, and an exact output is never exceeded by
  what is paid out.
\<close>

section \<open>What goes in and what comes out\<close>

definition amount_in :: "bool \<Rightarrow> int \<Rightarrow> int \<Rightarrow> int \<Rightarrow> int" where
  "amount_in zeroForOne p x l = (if zeroForOne then cdiv (l * 2 ^ 96 * \<bar>x - p\<bar>) (x * p) else cdiv (l * \<bar>x - p\<bar>) (2 ^ 96))"

definition amount_out :: "bool \<Rightarrow> int \<Rightarrow> int \<Rightarrow> int \<Rightarrow> int" where
  "amount_out zeroForOne p x l = (if zeroForOne then l * \<bar>x - p\<bar> div 2 ^ 96 else l * 2 ^ 96 * \<bar>x - p\<bar> div (x * p))"

lemma amounts_between:
  assumes "u160 p" "0 < p" "u160 x" "0 < x" "u128 l"
  shows "amount_in_between z p x (Some l) = Inr (amount_in z p x l)" "amount_out_between z p x (Some l) = Inr (amount_out z p x l)"
  using assms GetAmount0Delta_formula [of p x l] GetAmount0Delta_formula [of x p l] GetAmount1Delta_formula [of p x l]
    GetAmount1Delta_formula [of x p l]
  by (simp_all add: amount_in_between_def amount_out_between_def amount_in_def amount_out_def abs_minus_commute mult.commute)

lemma amount_in_less_iff:
  assumes "0 < p" "0 < x"
  shows "a < amount_in z p x l \<longleftrightarrow> (if z then a * (x * p) < l * 2 ^ 96 * \<bar>x - p\<bar> else a * 2 ^ 96 < l * \<bar>x - p\<bar>)"
  using assms by (simp add: amount_in_def less_cdiv_iff)

lemma amount_out_ge_iff:
  assumes "0 < p" "0 < x"
  shows "a \<le> amount_out z p x l \<longleftrightarrow> (if z then a * 2 ^ 96 \<le> l * \<bar>x - p\<bar> else a * (x * p) \<le> l * 2 ^ 96 * \<bar>x - p\<bar>)"
  using assms by (simp add: amount_out_def le_div_iff)

lemma amounts_nonneg:
  assumes "0 < p" "0 < x" "0 \<le> l"
  shows "0 \<le> amount_in z p x l" "0 \<le> amount_out z p x l"
proof -
  have "- 1 * 2 ^ 96 < l * \<bar>x - p\<bar>" "- 1 * (x * p) < l * 2 ^ 96 * \<bar>x - p\<bar>"
    using assms by (auto intro: less_le_trans [of _ 0])
  then have "- 1 < amount_in z p x l" using assms by (simp only: amount_in_less_iff) simp
  then show "0 \<le> amount_in z p x l" by simp
  show "0 \<le> amount_out z p x l" using assms by (simp add: amount_out_ge_iff)
qed

lemma amounts_without_liquidity:
  assumes "0 < p" "0 < x"
  shows "amount_in z p x 0 = 0" "amount_out z p x 0 = 0"
  using assms by (simp_all add: amount_in_def amount_out_def cdiv_def)

lemma amount_in_bound:
  assumes "u160 p" "0 < p" "u160 x" "0 < x" "u128 l"
  shows "amount_in z p x l < 2 ^ 224"
proof -
  have "x \<le> x * p" "p \<le> x * p" using assms(2,4) by simp_all
  then have d: "\<bar>x - p\<bar> \<le> x * p" using assms(2,4) by linarith
  have w: "\<bar>x - p\<bar> \<le> 2 ^ 160" using assms by (simp add: u160_def abs_le_iff)
  define m where "m = l * 2 ^ 96"
  have m: "0 \<le> m" "m \<le> 2 ^ 224 - 2 ^ 96" "0 \<le> l" "l < 2 ^ 128" using assms(5) by (simp_all add: u128_def m_def)
  have "m * \<bar>x - p\<bar> \<le> (2 ^ 224 - 2 ^ 96) * (x * p)" using m d assms by (intro mult_mono) simp_all
  then have z: "cdiv (m * \<bar>x - p\<bar>) (x * p) \<le> 2 ^ 224 - 2 ^ 96" using assms(2,4) by (simp add: cdiv_le_iff)
  have "l * \<bar>x - p\<bar> \<le> 2 ^ 128 * 2 ^ 160" using m w by (intro mult_mono) simp_all
  then have "cdiv (l * \<bar>x - p\<bar>) (2 ^ 96) \<le> 2 ^ 192" by (subst cdiv_le_iff) simp_all
  then show ?thesis using z unfolding amount_in_def m_def [symmetric] by simp
qed

section \<open>Prices short of the target\<close>

text \<open>
  An input too small to reach the target moves the price towards it but not to it, and pays for the
  whole move.
\<close>

lemma next_price_from_input:
  assumes p: "u160 p" "0 < p" and t: "u160 t" "0 < t" and l: "u128 l" and a: "u256 a"
    and short: "a < amount_in (t \<le> p) p t l"
  shows "\<exists>q. GetNextSqrtPriceFromInput (Some p) (Some l) (Some a) (t \<le> p) = Inr q \<and> q \<noteq> t
    \<and> (if t \<le> p then t \<le> q \<and> q \<le> p else p \<le> q \<and> q \<le> t) \<and> amount_in (t \<le> p) p q l \<le> a"
proof -
  have a0: "0 \<le> a" using a by (simp add: u256_def)
  have lp: "0 < l" using short a0 amounts_without_liquidity(1) [of p t "t \<le> p"] p t l by (cases "l = 0") (simp_all add: u128_def)
  have g: "GetNextSqrtPriceFromInput (Some p) (Some l) (Some a) z = (if z then nextSqrtPriceAmount0RoundingUp p l a True
      else nextSqrtPriceAmount1RoundingDown p l a True)" for z
    using p l a lp by (simp add: GetNextSqrtPriceFromInput_def require_defs requireUnsigned_ok u160_def u128_def u256_def)
  show ?thesis
  proof (cases "t \<le> p")
    case True
    define n where "n = l * 2 ^ 96"
    obtain q where q: "nextSqrtPriceAmount0RoundingUp p l a True = Inr q" "0 < q" "q \<le> p" "n * p \<le> q * (n + a * p)"
      using next_price_amount0_add [OF p l lp a] by (auto simp: n_def)
    have "a * (t * p) < n * (p - t)" using short True p t by (simp add: amount_in_less_iff n_def)
    then have "t * (n + a * p) < n * p" by (simp add: algebra_simps)
    also have "\<dots> \<le> q * (n + a * p)" by (fact q)
    finally have tq: "t < q" using lp a0 p by (simp add: n_def mult_less_cancel_right add_pos_nonneg)
    have "n * (p - q) \<le> a * (q * p)" using q(4) by (simp add: algebra_simps)
    then have "amount_in True p q l \<le> a" using q p amount_in_less_iff [of p q a True l] by (simp add: n_def not_less [symmetric])
    with q tq True show ?thesis by (auto simp: g)
  next
    case False
    then have "a * 2 ^ 96 < l * (t - p)" using short p t by (simp add: amount_in_less_iff)
    define d where "d = a * 2 ^ 96 div l"
    note q = next_price_amount1_add [OF p(1) l lp a0 t(1) \<open>a * 2 ^ 96 < l * (t - p)\<close>, folded d_def]
    have d: "0 \<le> d" "d * l \<le> a * 2 ^ 96" using lp a0 le_div_iff [of l d "a * 2 ^ 96"] by (simp_all add: d_def pos_imp_zdiv_nonneg_iff)
    then have "amount_in False p (p + d) l \<le> a"
      using p amount_in_less_iff [of p "p + d" a False l] by (simp add: not_less [symmetric] mult.commute)
    with q d False show ?thesis by (simp add: g)
  qed
qed

text \<open>An output the range holds moves the price towards the target and not past it.\<close>

lemma next_price_from_output:
  assumes p: "u160 p" "0 < p" and t: "u160 t" "0 < t" and l: "u128 l" and a: "u256 a"
    and short: "a < amount_out (t \<le> p) p t l"
  shows "\<exists>q. GetNextSqrtPriceFromOutput (Some p) (Some l) (Some a) (t \<le> p) = Inr q
    \<and> (if t \<le> p then t \<le> q \<and> q \<le> p else p \<le> q \<and> q \<le> t)"
proof -
  have a0: "0 \<le> a" using a by (simp add: u256_def)
  have lp: "0 < l" using short a0 amounts_without_liquidity(2) [of p t "t \<le> p"] p t l by (cases "l = 0") (simp_all add: u128_def)
  have g: "GetNextSqrtPriceFromOutput (Some p) (Some l) (Some a) z = (if z then nextSqrtPriceAmount1RoundingDown p l a False
      else nextSqrtPriceAmount0RoundingUp p l a False)" for z
    using p l a lp by (simp add: GetNextSqrtPriceFromOutput_def require_defs requireUnsigned_ok u160_def u128_def u256_def)
  have le: "a \<le> amount_out (t \<le> p) p t l" using short by simp
  show ?thesis
  proof (cases "t \<le> p")
    case True
    then have "a * 2 ^ 96 \<le> l * (p - t)" using le p t by (simp add: amount_out_ge_iff)
    from next_price_amount1_sub [OF p(1) l lp a0 t(2) this] True show ?thesis by (simp add: g)
  next
    case False
    then have "a * (t * p) \<le> l * 2 ^ 96 * (t - p)" using le p t by (simp add: amount_out_ge_iff)
    from next_price_amount0_sub [OF p _ t(1) l lp a0 this] False show ?thesis by (simp add: g)
  qed
qed

section \<open>The step\<close>

definition toward :: "int \<Rightarrow> int \<Rightarrow> int \<Rightarrow> bool" where
  "toward p t q = (if t \<le> p then t \<le> q \<and> q \<le> p else p \<le> q \<and> q \<le> t)"

lemma toward_range: "toward p t q \<Longrightarrow> u160 p \<Longrightarrow> 0 < p \<Longrightarrow> u160 t \<Longrightarrow> 0 < t \<Longrightarrow> u160 q \<and> 0 < q"
  by (auto simp: toward_def u160_def split: if_splits)

text \<open>The fee on an amount in, and what it promises.\<close>

lemma fee_on_amount:
  assumes "0 \<le> a" "a < 2 ^ 224" "0 \<le> f" "f < 1000000"
  shows "MulDivRoundingUp (Some a) (Some f) (Some (1000000 - f)) = Inr (cdiv (a * f) (1000000 - f))"
    "a * f \<le> cdiv (a * f) (1000000 - f) * (1000000 - f)" "0 \<le> cdiv (a * f) (1000000 - f)"
proof -
  have "a * f \<le> 2 ^ 224 * 1000000" using assms by (intro mult_mono) simp_all
  then have "cdiv (a * f) (1000000 - f) \<le> 2 ^ 224 * 1000000"
    using assms mult_left_mono [of 1 "1000000 - f" "2 ^ 224 * 1000000"] by (subst cdiv_le_iff) simp_all
  then show "MulDivRoundingUp (Some a) (Some f) (Some (1000000 - f)) = Inr (cdiv (a * f) (1000000 - f))"
    using assms by (simp add: MulDivRoundingUp_Inr_iff u256_def)
  show "a * f \<le> cdiv (a * f) (1000000 - f) * (1000000 - f)" using assms cdiv_le_iff [of "1000000 - f" "a * f" "cdiv (a * f) (1000000 - f)"] by simp
  have "- 1 * (1000000 - f) < 0" using assms by simp
  also have "0 \<le> a * f" using assms by simp
  finally have "- 1 < cdiv (a * f) (1000000 - f)" using assms by (subst less_cdiv_iff) simp_all
  then show "0 \<le> cdiv (a * f) (1000000 - f)" by simp
qed

text \<open>An amount in that the remainder less the fee covers is covered together with its fee.\<close>

lemma fee_within_remaining:
  assumes "0 \<le> f" "f < 1000000" "a \<le> r * (1000000 - f) div 1000000"
  shows "a + cdiv (a * f) (1000000 - f) \<le> r" "a * f \<le> (r - a) * (1000000 - f)"
proof -
  have m: "a * 1000000 \<le> r * (1000000 - f)" using assms by (simp add: le_div_iff)
  then show le: "a * f \<le> (r - a) * (1000000 - f)" by (simp add: algebra_simps)
  then have "cdiv (a * f) (1000000 - f) \<le> r - a" using assms by (subst cdiv_le_iff) simp_all
  then show "a + cdiv (a * f) (1000000 - f) \<le> r" by simp
qed

lemma swap_step_exact_in:
  assumes p: "u160 p" "0 < p" and t: "u160 t" "0 < t" and l: "u128 l" and r: "u256 r" and f: "uint feePips < 1000000"
  defines "C \<equiv> 1000000 - uint feePips"
  shows "\<exists>s. ComputeSwapStep p t (Some l) (Some r) feePips = Inr s \<and> toward p t (SqrtRatioNextX96 s)
    \<and> AmountIn s = amount_in (t \<le> p) p (SqrtRatioNextX96 s) l \<and> AmountOut s = amount_out (t \<le> p) p (SqrtRatioNextX96 s) l
    \<and> AmountIn s + FeeAmount s \<le> r \<and> (SqrtRatioNextX96 s \<noteq> t \<longrightarrow> AmountIn s + FeeAmount s = r)
    \<and> AmountIn s * uint feePips \<le> FeeAmount s * C"
proof -
  have C: "0 < C" "C \<le> 1000000" "\<not> MaxSwapFee < uint feePips" "MaxSwapFee - uint feePips = C" using f by (simp_all add: C_def MaxSwapFee_def)
  define a where "a = r * C div 1000000"
  have "r * C \<le> r * 1000000" using r C by (intro mult_left_mono) (simp_all add: u256_def)
  then have "a \<le> r" by (simp add: a_def div_less_iff [of 1000000 _ "r + 1"] less_iff_succ_less_eq [symmetric] flip: zless_add1_eq not_less)
  moreover have "0 \<le> a" using r C by (simp add: a_def u256_def pos_imp_zdiv_nonneg_iff)
  ultimately have a: "u256 a" "a \<le> r" using r by (simp_all add: u256_def)
  have m: "MulDiv (Some r) (Some C) (Some MaxSwapFee) = Inr a"
    using a r C by (simp add: MulDiv_Inr_iff a_def MaxSwapFee_def u256_def)
  note bt = amounts_between [OF p t l, of "t \<le> p"]
  note step = ComputeSwapStep_def Let_def C m bt
  show ?thesis
  proof (cases "amount_in (t \<le> p) p t l \<le> a")
    case True
    note fee = fee_on_amount [of "amount_in (t \<le> p) p t l" "uint feePips", folded C_def]
    have n: "0 \<le> amount_in (t \<le> p) p t l" "amount_in (t \<le> p) p t l < 2 ^ 224"
      using amounts_nonneg [of p t l] amount_in_bound [OF p t l] p t l by (simp_all add: u128_def)
    show ?thesis using True r fee [OF n _ f] fee_within_remaining [of "uint feePips" "amount_in (t \<le> p) p t l" r, folded C_def, folded a_def] f
      by (simp add: step u256_def toward_def)
  next
    case False
    then obtain q where q: "GetNextSqrtPriceFromInput (Some p) (Some l) (Some a) (t \<le> p) = Inr q" "q \<noteq> t" "toward p t q"
      "amount_in (t \<le> p) p q l \<le> a"
      using next_price_from_input [OF p t l a(1)] by (auto simp: toward_def)
    note bq = amounts_between [OF p _ _ l, of q "t \<le> p"] toward_range [OF q(3) p t]
    show ?thesis using False q r bq fee_within_remaining(2) [of "uint feePips" "amount_in (t \<le> p) p q l" r, folded C_def, folded a_def] f
      by (simp add: step u256_def)
  qed
qed

lemma swap_step_exact_out:
  assumes p: "u160 p" "0 < p" and t: "u160 t" "0 < t" and l: "u128 l" and r: "r < 0" "u256 (- r)" and f: "uint feePips < 1000000"
  defines "C \<equiv> 1000000 - uint feePips"
  shows "\<exists>s. ComputeSwapStep p t (Some l) (Some r) feePips = Inr s \<and> toward p t (SqrtRatioNextX96 s)
    \<and> AmountIn s = amount_in (t \<le> p) p (SqrtRatioNextX96 s) l
    \<and> AmountOut s = min (- r) (amount_out (t \<le> p) p (SqrtRatioNextX96 s) l)
    \<and> AmountIn s * uint feePips \<le> FeeAmount s * C"
proof -
  have C: "0 < C" "C \<le> 1000000" "\<not> MaxSwapFee < uint feePips" "MaxSwapFee - uint feePips = C" using f by (simp_all add: C_def MaxSwapFee_def)
  note bt = amounts_between [OF p t l, of "t \<le> p"]
  obtain q where q: "(if amount_out (t \<le> p) p t l \<le> - r then Inr t
      else GetNextSqrtPriceFromOutput (Some p) (Some l) (Some (- r)) (t \<le> p)) = Inr q" "toward p t q"
    using next_price_from_output [OF p t l r(2)] by (cases "amount_out (t \<le> p) p t l \<le> - r") (auto simp: toward_def)
  have x: "u160 q" "0 < q" using toward_range [OF q(2) p t] by simp_all
  note bq = amounts_between [OF p x l, of "t \<le> p"]
  have n: "0 \<le> amount_in (t \<le> p) p q l" "amount_in (t \<le> p) p q l < 2 ^ 224"
    using amounts_nonneg [of p q l] amount_in_bound [OF p x l] p x l by (simp_all add: u128_def)
  show ?thesis using q r bq fee_on_amount [OF n _ f, folded C_def]
    by (cases "q = t") (simp_all add: ComputeSwapStep_def Let_def C bt split: if_splits)
qed

section \<open>Rounding as floor and ceiling\<close>

lemma cdiv_ceiling: "\<lceil>real_of_int n / real_of_int d\<rceil> = cdiv n d"
  using floor_divide_of_int_eq [of "- n" d, where ?'a = real] by (simp add: cdiv_def ceiling_def)

section \<open>Properties\<close>

text \<open>
  C30. One swap step is total and fair. For prices in \<open>(0, 2^160)\<close>, a \<open>u128\<close> liquidity, a remaining amount whose
  magnitude fits 256 bits and a fee below 100%, the step returns; the next price lies between the current
  and the target price; the amount in is the exact amount for that move rounded up, the amount out the
  exact amount rounded down (cut to an exact output that was asked for); an exact input is never
  exceeded by the amount in and its fee, and is used up when the target is not reached; the fee is
  never below the fee rate.
\<close>

theorem swap_step_total_and_fair:
  assumes "u160 current" "0 < current" "u160 target" "0 < target" "u128 liquidity" "u256 \<bar>remaining\<bar>" "uint feePips < 1000000"
  shows "\<exists>s. ComputeSwapStep current target (Some liquidity) (Some remaining) feePips = Inr s
    \<and> toward current target (SqrtRatioNextX96 s)
    \<and> AmountIn s = amount_in (target \<le> current) current (SqrtRatioNextX96 s) liquidity
    \<and> (if 0 \<le> remaining
       then AmountOut s = amount_out (target \<le> current) current (SqrtRatioNextX96 s) liquidity
         \<and> AmountIn s + FeeAmount s \<le> remaining \<and> (SqrtRatioNextX96 s = target \<or> AmountIn s + FeeAmount s = remaining)
       else AmountOut s = min (- remaining) (amount_out (target \<le> current) current (SqrtRatioNextX96 s) liquidity))
    \<and> AmountIn s * uint feePips \<le> FeeAmount s * (1000000 - uint feePips)"
proof (cases "0 \<le> remaining")
  case True
  then show ?thesis using swap_step_exact_in [OF assms(1-5) _ assms(7), of remaining] assms(6) by auto
next
  case False
  then show ?thesis using swap_step_exact_out [OF assms(1-5) _ _ assms(7), of remaining] assms(6) by auto
qed

theorem swap_step_total_and_fair_witness:
  "u128 1000000 \<and> u256 \<bar>500\<bar> \<and> (\<exists>s. ComputeSwapStep (2 ^ 96) (2 ^ 97) (Some 1000000) (Some 500) 3000 = Inr s
    \<and> toward (2 ^ 96) (2 ^ 97) (SqrtRatioNextX96 s) \<and> AmountIn s + FeeAmount s \<le> 500)"
  using swap_step_total_and_fair [of "2 ^ 96" "2 ^ 97" 1000000 500 3000] by (auto simp: u160_def u128_def u256_def)

text \<open>
  C31. The two token amounts of a price move are rounded once. For prices in \<open>(0, 2^160)\<close> and a \<open>u128\<close>
  liquidity both calls return; the amount of token 0 is the exact rational
  \<open>l * 2^96 * |b - a| / (a * b)\<close> and the amount of token 1 is \<open>l * |b - a| / 2^96\<close>, each rounded in the direction asked
  for, although the code divides twice; the order of the two prices does not matter.
\<close>

theorem amount_deltas_rounded_once:
  assumes "u160 a" "0 < a" "u160 b" "0 < b" "u128 l"
  shows "GetAmount0Delta (Some a) (Some b) (Some l) True = Inr \<lceil>real_of_int (l * 2 ^ 96 * \<bar>b - a\<bar>) / real_of_int (a * b)\<rceil>
    \<and> GetAmount0Delta (Some a) (Some b) (Some l) False = Inr \<lfloor>real_of_int (l * 2 ^ 96 * \<bar>b - a\<bar>) / real_of_int (a * b)\<rfloor>
    \<and> GetAmount1Delta (Some a) (Some b) (Some l) True = Inr \<lceil>real_of_int (l * \<bar>b - a\<bar>) / real_of_int (2 ^ 96)\<rceil>
    \<and> GetAmount1Delta (Some a) (Some b) (Some l) False = Inr \<lfloor>real_of_int (l * \<bar>b - a\<bar>) / real_of_int (2 ^ 96)\<rfloor>"
  using assms unfolding cdiv_ceiling floor_divide_of_int_eq
  by (simp add: GetAmount0Delta_formula GetAmount1Delta_formula)

theorem amount_deltas_rounded_once_witness:
  "u160 (2 ^ 96) \<and> u160 (2 ^ 97) \<and> GetAmount0Delta (Some (2 ^ 96)) (Some (2 ^ 97)) (Some 1001) True = Inr 501
   \<and> GetAmount0Delta (Some (2 ^ 96)) (Some (2 ^ 97)) (Some 1001) False = Inr 500"
  using amount_deltas_rounded_once [of "2 ^ 96" "2 ^ 97" 1001] by (simp add: u160_def u128_def)

text \<open>
  Outside the ranges of a swap step an exact input of token 1 does not stay exact: the sum of price and
  quotient wraps at 256 bits before it is range-checked, so an input of almost \<open>2^160\<close> against a liquidity
  of one lowers the price to zero instead of being refused.
\<close>

theorem token1_input_wraps_price:
  "GetNextSqrtPriceFromInput (Some (2 ^ 96)) (Some 1) (Some (2 ^ 160 - 1)) False = Inr 0"
  by (simp add: GetNextSqrtPriceFromInput_def require_defs requireUnsigned_ok nextSqrtPriceAmount1RoundingDown_def u256_wrap
      maxU160_def quo_rem_nonneg push_bit_eq_mult)

end
