(* ===== verification/DefiPool.thy ===== *)
theory DefiPool
  imports DefiTicks
begin

text \<open>
  The pool profiler (\<open>internal/defi/pool_analysis.go\<close>): minting, burning, collecting, flash fees and swaps over one
  pool, its snapshots and their comparison. Amounts are integers, the Go maps finite maps, the \<open>int32\<close> ticks integers
  with the wrap written out, counters words. The floating-point branch of \<open>TickAtSqrtPrice\<close> is the parameter
  \<open>log_tick\<close>. The invariant of the pool, over every sequence of these operations, is in \<open>DefiPoolInvariant\<close>.
\<close>

section \<open>State\<close>

datatype FeeModel = FeeModelUniswap | FeeModelPancakeSwap

record AnalysisPool =
  pool_InstrumentID :: string
  pool_Identifier :: string
  pool_Fee :: u32
  pool_TickSpacing :: int
  pool_InitialSqrt :: "int option"
  pool_InitialTick :: int
  pool_FeeModel :: FeeModel

record AnalysisState =
  st_SqrtPrice :: int
  st_CurrentTick :: int
  st_Liquidity :: int
  st_FeeGrowthGlobal0 :: int
  st_FeeGrowthGlobal1 :: int
  st_FeeProtocol :: u8
  st_FeeProtocol0BasisPoints :: "u32 option"
  st_FeeProtocol1BasisPoints :: "u32 option"
  st_ProtocolFeesToken0 :: int
  st_ProtocolFeesToken1 :: int

record AnalysisTick =
  at_LiquidityGross :: int
  at_LiquidityNet :: int
  at_FeeGrowthOutside0 :: int
  at_FeeGrowthOutside1 :: int
  at_Updates :: u32

record AnalysisPosition =
  ap_Owner :: string
  ap_TickLower :: int
  ap_TickUpper :: int
  ap_Liquidity :: int
  ap_Amount0Deposited :: int
  ap_Amount1Deposited :: int
  ap_Amount0Collected :: int
  ap_Amount1Collected :: int
  ap_TokensOwed0 :: int
  ap_TokensOwed1 :: int
  ap_FeeGrowthInside0Last :: int
  ap_FeeGrowthInside1Last :: int

record AnalysisAnalytics =
  Mints :: u64
  Burns :: u64
  Collects :: u64
  Swaps :: u64
  Flashes :: u64

datatype AnalysisEventKind = AnalysisMint | AnalysisBurn | AnalysisSwap

type_synonym positionKey = "string \<times> int \<times> int"

record PoolProfiler =
  Pool :: AnalysisPool
  State :: AnalysisState
  Ticks :: "(int, AnalysisTick) fmap"
  Positions :: "(positionKey, AnalysisPosition) fmap"
  Analytics :: AnalysisAnalytics
  pp_Initialized :: bool
  LastTimestamp :: u64

text \<open>A missing key of a Go map reads as the zero value, which \<open>cloneTick\<close> and \<open>clonePosition\<close> turn into zeros.\<close>

definition zero_tick :: AnalysisTick where
  "zero_tick = \<lparr>at_LiquidityGross = 0, at_LiquidityNet = 0, at_FeeGrowthOutside0 = 0, at_FeeGrowthOutside1 = 0, at_Updates = 0\<rparr>"

definition zero_position :: AnalysisPosition where
  "zero_position = \<lparr>ap_Owner = [], ap_TickLower = 0, ap_TickUpper = 0, ap_Liquidity = 0, ap_Amount0Deposited = 0,
     ap_Amount1Deposited = 0, ap_Amount0Collected = 0, ap_Amount1Collected = 0, ap_TokensOwed0 = 0, ap_TokensOwed1 = 0,
     ap_FeeGrowthInside0Last = 0, ap_FeeGrowthInside1Last = 0\<rparr>"

definition cloned_tick :: "PoolProfiler \<Rightarrow> int \<Rightarrow> AnalysisTick" where
  "cloned_tick p v = (case fmlookup (Ticks p) v of None \<Rightarrow> zero_tick | Some t \<Rightarrow> t)"

definition cloned_position :: "PoolProfiler \<Rightarrow> positionKey \<Rightarrow> AnalysisPosition" where
  "cloned_position p k = (case fmlookup (Positions p) k of None \<Rightarrow> zero_position | Some x \<Rightarrow> x)"

definition tick_Active :: "AnalysisTick \<Rightarrow> bool" where
  "tick_Active t = (at_LiquidityGross t \<noteq> 0)"

section \<open>Errors\<close>

definition int_text :: "int \<Rightarrow> string" where
  "int_text v = (if v < 0 then CHR ''-'' # nat_text (nat (- v)) else nat_text (nat v))"

datatype pool_error =
    AnalysisError string string "AnalysisEventKind option" int int
  | PlainError string

primrec event_text :: "AnalysisEventKind \<Rightarrow> string" where
  "event_text AnalysisMint = ''Mint''"
| "event_text AnalysisBurn = ''Burn''"
| "event_text AnalysisSwap = ''Swap''"

definition liquidityAnalysisError :: "string \<Rightarrow> AnalysisEventKind \<Rightarrow> int \<Rightarrow> int \<Rightarrow> pool_error" where
  "liquidityAnalysisError kind event current delta =
     AnalysisError kind (kind @ '' at event '' @ event_text event @ '': current='' @ int_text current @ '' delta='' @ int_text delta)
       (Some event) current delta"

definition pool_text :: "PoolProfiler \<Rightarrow> string" where
  "pool_text p = ''Pool '' @ pool_InstrumentID (Pool p) @ '' ('' @ pool_Identifier (Pool p) @ '')''"

definition WrapLiquidityError :: "LiquidityError \<Rightarrow> AnalysisEventKind \<Rightarrow> pool_error" where
  "WrapLiquidityError err event =
     (case err of
        LiquidityOverflowError current delta \<Rightarrow> liquidityAnalysisError ''liquidity_overflow'' event current delta
      | LiquidityUnderflowError current delta \<Rightarrow> liquidityAnalysisError ''liquidity_underflow'' event current delta
      | LiquidityOutsideU128 v \<Rightarrow> PlainError (''current liquidity is outside u128: ''
          @ (case v of None \<Rightarrow> ''<nil>'' | Some v \<Rightarrow> int_text v)))"

section \<open>Arithmetic\<close>

definition zeroBig :: "int option \<Rightarrow> int" where
  "zeroBig v = (case v of None \<Rightarrow> 0 | Some v \<Rightarrow> v)"

definition minimum :: "int \<Rightarrow> int \<Rightarrow> int" where
  "minimum left right = (if left \<le> right then left else right)"

definition mod256 :: "int \<Rightarrow> int" where "mod256 v = v mod 2 ^ 256"
definition addMod256 :: "int \<Rightarrow> int \<Rightarrow> int" where "addMod256 left right = mod256 (left + right)"
definition subMod256 :: "int \<Rightarrow> int \<Rightarrow> int" where "subMod256 left right = mod256 (left - right)"

definition saturatingU128Add :: "int \<Rightarrow> int \<Rightarrow> int" where
  "saturatingU128Add left right = (let result = left + right in if maxU128 < result then maxU128 else result)"

section \<open>Construction and initialization\<close>

definition PancakeDefaultProtocolFee :: "u32 \<Rightarrow> u32" where
  "PancakeDefaultProtocolFee poolFee = (if poolFee = 100 then 3300 else if poolFee = 500 then 3400 else 3200)"

definition NewPoolProfiler :: "AnalysisPool \<Rightarrow> PoolProfiler" where
  "NewPoolProfiler pool =
     (let bps = (if pool_FeeModel pool = FeeModelPancakeSwap then Some (PancakeDefaultProtocolFee (pool_Fee pool)) else None)
      in \<lparr>Pool = pool,
          State = \<lparr>st_SqrtPrice = 0, st_CurrentTick = 0, st_Liquidity = 0, st_FeeGrowthGlobal0 = 0, st_FeeGrowthGlobal1 = 0,
            st_FeeProtocol = 0, st_FeeProtocol0BasisPoints = bps, st_FeeProtocol1BasisPoints = bps,
            st_ProtocolFeesToken0 = 0, st_ProtocolFeesToken1 = 0\<rparr>,
          Ticks = fmempty, Positions = fmempty,
          Analytics = \<lparr>Mints = 0, Burns = 0, Collects = 0, Swaps = 0, Flashes = 0\<rparr>,
          pp_Initialized = False, LastTimestamp = 0\<rparr>)"

definition TickAtSqrtPrice :: "(int \<Rightarrow> int) \<Rightarrow> int option \<Rightarrow> int" where
  "TickAtSqrtPrice log_tick sqrtPrice =
     (case sqrtPrice of None \<Rightarrow> 0 | Some s \<Rightarrow>
        if s = 0 then 0
        else if s = 2 ^ 96 then 0
        else if s = 2505414483750479311864138015 then - 23028
        else if s = 1752296436575853995018143129341 then 61930
        else if s = 1336959986410146511145142826940 then 56519
        else if s = 4295128740 then - 887272
        else if 160 \<le> BitLen s then 887271
        else log_tick s)"

definition Initialize :: "(int \<Rightarrow> int) \<Rightarrow> PoolProfiler \<Rightarrow> int option \<Rightarrow> pool_error + PoolProfiler" where
  "Initialize log_tick p sqrtPrice =
     (if pp_Initialized p then Inl (AnalysisError ''already_initialized'' (pool_text p @ '' already initialized'') None 0 0)
      else case sqrtPrice of None \<Rightarrow> Inl (AnalysisError ''sqrt_out_of_bounds'' ''Sqrt price out of bounds'' None 0 0)
      | Some s \<Rightarrow> if s < 4295128739 then Inl (AnalysisError ''sqrt_out_of_bounds'' ''Sqrt price out of bounds'' None 0 0)
        else let calculated = TickAtSqrtPrice log_tick sqrtPrice in
          if pool_InitialSqrt (Pool p) \<noteq> None \<and> pool_InitialTick (Pool p) \<noteq> calculated
          then Inl (AnalysisError ''initial_tick_mismatch'' (''Initial tick mismatch for pool '' @ pool_InstrumentID (Pool p)
            @ '' ('' @ pool_Identifier (Pool p) @ ''): pool.initial_tick='' @ int_text (pool_InitialTick (Pool p))
            @ '', computed_from_sqrt_price='' @ int_text calculated) None 0 0)
          else Inr (p\<lparr>State := (State p)\<lparr>st_SqrtPrice := s, st_CurrentTick := calculated\<rparr>, pp_Initialized := True\<rparr>))"

section \<open>Liquidity\<close>

text \<open>\<open>%\<close> by a zero spacing is not reached: the first disjunct is tested before.\<close>

definition validateTicks :: "PoolProfiler \<Rightarrow> int \<Rightarrow> int \<Rightarrow> pool_error option" where
  "validateTicks p lower upper =
     (if upper \<le> lower then Some (PlainError (''Invalid tick range: '' @ int_text lower @ '' >= '' @ int_text upper))
      else if pool_TickSpacing (Pool p) = 0 \<or> lower smod pool_TickSpacing (Pool p) \<noteq> 0 \<or> upper smod pool_TickSpacing (Pool p) \<noteq> 0
      then Some (PlainError (''Ticks '' @ int_text lower @ '' and '' @ int_text upper @ '' must be multiples of the tick spacing''))
      else if lower < MinTick \<or> MaxTick < upper
      then Some (PlainError (''Invalid tick bounds for '' @ int_text lower @ '' and '' @ int_text upper))
      else None)"

definition updateTick :: "AnalysisTick \<Rightarrow> int \<Rightarrow> bool \<Rightarrow> bool \<Rightarrow> AnalysisTick" where
  "updateTick tick liquidity upper add =
     (let tick = (if add
        then tick\<lparr>at_LiquidityGross := at_LiquidityGross tick + liquidity,
               at_LiquidityNet := (if upper then at_LiquidityNet tick - liquidity else at_LiquidityNet tick + liquidity)\<rparr>
        else tick\<lparr>at_LiquidityGross := at_LiquidityGross tick - liquidity,
               at_LiquidityNet := (if upper then at_LiquidityNet tick + liquidity else at_LiquidityNet tick - liquidity)\<rparr>)
      in tick\<lparr>at_Updates := at_Updates tick + 1\<rparr>)"

definition pokePosition :: "AnalysisPosition \<Rightarrow> int \<Rightarrow> int \<Rightarrow> AnalysisPosition" where
  "pokePosition position global0 global1 =
     (let delta0 = subMod256 global0 (ap_FeeGrowthInside0Last position);
          delta1 = subMod256 global1 (ap_FeeGrowthInside1Last position);
          owed0 = (delta0 * ap_Liquidity position) sdiv q128;
          owed1 = (delta1 * ap_Liquidity position) sdiv q128
      in position\<lparr>ap_TokensOwed0 := saturatingU128Add (ap_TokensOwed0 position) owed0,
           ap_TokensOwed1 := saturatingU128Add (ap_TokensOwed1 position) owed1,
           ap_FeeGrowthInside0Last := global0, ap_FeeGrowthInside1Last := global1\<rparr>)"

definition is_active :: "PoolProfiler \<Rightarrow> int \<Rightarrow> int \<Rightarrow> bool" where
  "is_active p lower upper = (lower \<le> st_CurrentTick (State p) \<and> st_CurrentTick (State p) < upper)"

definition Mint :: "PoolProfiler \<Rightarrow> string \<Rightarrow> int \<Rightarrow> int \<Rightarrow> int option \<Rightarrow> int option \<Rightarrow> int option \<Rightarrow> u64 \<Rightarrow> pool_error + PoolProfiler" where
  "Mint p owner lower upper liquidity amount0 amount1 timestamp =
     (if \<not> pp_Initialized p then Inl (AnalysisError ''not_initialized'' (pool_text p @ '' is not initialized while processing Mint'')
        (Some AnalysisMint) 0 0)
      else case validateTicks p lower upper of Some e \<Rightarrow> Inl e | None \<Rightarrow>
      (case liquidity of None \<Rightarrow> Inl (PlainError ''liquidity must be unsigned'') | Some liquidity \<Rightarrow>
       if liquidity < 0 then Inl (PlainError ''liquidity must be unsigned'')
       else let key = (owner, lower, upper); position = cloned_position p key; nextPosition = ap_Liquidity position + liquidity in
         if maxU128 < nextPosition
         then Inl (liquidityAnalysisError ''liquidity_overflow'' AnalysisMint (ap_Liquidity position) liquidity)
         else let active = is_active p lower upper;
                  nextActive = (if active then st_Liquidity (State p) + liquidity else st_Liquidity (State p)) in
           if active \<and> maxU128 < nextActive
           then Inl (liquidityAnalysisError ''liquidity_overflow'' AnalysisMint (st_Liquidity (State p)) liquidity)
           else let lowerTick = cloned_tick p lower; upperTick = cloned_tick p upper in
             (case TickSpacingToMaxLiquidityPerTick (pool_TickSpacing (Pool p)) of Inl m \<Rightarrow> Inl (PlainError m) | Inr maximum \<Rightarrow>
              if maximum < at_LiquidityGross lowerTick + liquidity
              then Inl (liquidityAnalysisError ''liquidity_overflow'' AnalysisMint (at_LiquidityGross lowerTick) liquidity)
              else let position = pokePosition position (st_FeeGrowthGlobal0 (State p)) (st_FeeGrowthGlobal1 (State p));
                       position = position\<lparr>ap_Owner := owner, ap_TickLower := lower, ap_TickUpper := upper,
                         ap_Liquidity := nextPosition, ap_Amount0Deposited := ap_Amount0Deposited position + zeroBig amount0,
                         ap_Amount1Deposited := ap_Amount1Deposited position + zeroBig amount1\<rparr>;
                       lowerTick = updateTick lowerTick liquidity False True;
                       upperTick = updateTick upperTick liquidity True True
                   in Inr (p\<lparr>Positions := fmupd key position (Positions p),
                        Ticks := fmupd upper upperTick (fmupd lower lowerTick (Ticks p)),
                        State := (State p)\<lparr>st_Liquidity := nextActive\<rparr>,
                        Analytics := (Analytics p)\<lparr>Mints := Mints (Analytics p) + 1\<rparr>, LastTimestamp := timestamp\<rparr>))))"

definition drop_inactive :: "int \<Rightarrow> AnalysisTick \<Rightarrow> (int, AnalysisTick) fmap \<Rightarrow> (int, AnalysisTick) fmap" where
  "drop_inactive v t ts = (if tick_Active t then ts else fmdrop v ts)"

definition Burn :: "PoolProfiler \<Rightarrow> string \<Rightarrow> int \<Rightarrow> int \<Rightarrow> int \<Rightarrow> int option \<Rightarrow> int option \<Rightarrow> u64 \<Rightarrow> pool_error + PoolProfiler" where
  "Burn p owner lower upper liquidity amount0 amount1 timestamp =
     (if \<not> pp_Initialized p then Inl (AnalysisError ''not_initialized'' ''pool is not initialized'' (Some AnalysisBurn) 0 0)
      else case validateTicks p lower upper of Some e \<Rightarrow> Inl e | None \<Rightarrow>
       (let key = (owner, lower, upper); position = cloned_position p key in
        if ap_Liquidity position < liquidity
        then Inl (PlainError (''Position liquidity '' @ int_text (ap_Liquidity position)
          @ '' is less than the requested burn amount of '' @ int_text liquidity))
        else let lowerTick = cloned_tick p lower; upperTick = cloned_tick p upper in
          if at_LiquidityGross lowerTick < liquidity \<or> at_LiquidityGross upperTick < liquidity
          then let current = (if at_LiquidityGross upperTick < liquidity \<and> at_LiquidityGross upperTick < at_LiquidityGross lowerTick
                 then at_LiquidityGross upperTick else at_LiquidityGross lowerTick)
               in Inl (liquidityAnalysisError ''liquidity_underflow'' AnalysisBurn current liquidity)
          else let active = is_active p lower upper in
            if active \<and> st_Liquidity (State p) < liquidity
            then Inl (liquidityAnalysisError ''liquidity_underflow'' AnalysisBurn (st_Liquidity (State p)) liquidity)
            else let position = pokePosition position (st_FeeGrowthGlobal0 (State p)) (st_FeeGrowthGlobal1 (State p));
                     position = position\<lparr>ap_Liquidity := ap_Liquidity position - liquidity,
                       ap_TokensOwed0 := ap_TokensOwed0 position + zeroBig amount0,
                       ap_TokensOwed1 := ap_TokensOwed1 position + zeroBig amount1\<rparr>;
                     lowerTick = updateTick lowerTick liquidity False False;
                     upperTick = updateTick upperTick liquidity True False
                 in Inr (p\<lparr>State := (State p)\<lparr>st_Liquidity := (if active then st_Liquidity (State p) - liquidity
                        else st_Liquidity (State p))\<rparr>,
                      Positions := fmupd key position (Positions p),
                      Ticks := drop_inactive upper upperTick (drop_inactive lower lowerTick (fmupd upper upperTick (fmupd lower lowerTick (Ticks p)))),
                      Analytics := (Analytics p)\<lparr>Burns := Burns (Analytics p) + 1\<rparr>, LastTimestamp := timestamp\<rparr>)))"

record AnalysisLiquidityEvent =
  ev_Kind :: AnalysisEventKind
  ev_Owner :: string
  ev_TickLower :: int
  ev_TickUpper :: int
  ev_Liquidity :: int
  ev_Amount0 :: int
  ev_Amount1 :: int
  ev_Timestamp :: u64

definition ExecuteMint where
  "ExecuteMint p owner lower upper liquidity amount0 amount1 timestamp =
     (\<lparr>ev_Kind = AnalysisMint, ev_Owner = owner, ev_TickLower = lower, ev_TickUpper = upper, ev_Liquidity = zeroBig liquidity,
       ev_Amount0 = zeroBig amount0, ev_Amount1 = zeroBig amount1, ev_Timestamp = timestamp\<rparr>,
      Mint p owner lower upper liquidity amount0 amount1 timestamp)"

definition ExecuteBurn where
  "ExecuteBurn p owner lower upper liquidity amount0 amount1 timestamp =
     (\<lparr>ev_Kind = AnalysisBurn, ev_Owner = owner, ev_TickLower = lower, ev_TickUpper = upper, ev_Liquidity = liquidity,
       ev_Amount0 = zeroBig amount0, ev_Amount1 = zeroBig amount1, ev_Timestamp = timestamp\<rparr>,
      Burn p owner lower upper liquidity amount0 amount1 timestamp)"

definition Collect :: "PoolProfiler \<Rightarrow> string \<Rightarrow> int \<Rightarrow> int \<Rightarrow> int option \<Rightarrow> int option \<Rightarrow> u64 \<Rightarrow> PoolProfiler" where
  "Collect p owner lower upper requested0 requested1 timestamp =
     (let key = (owner, lower, upper) in
      case fmlookup (Positions p) key of None \<Rightarrow> p | Some position \<Rightarrow>
        let collected0 = minimum (ap_TokensOwed0 position) (zeroBig requested0);
            collected1 = minimum (ap_TokensOwed1 position) (zeroBig requested1);
            position = position\<lparr>ap_TokensOwed0 := ap_TokensOwed0 position - collected0,
              ap_TokensOwed1 := ap_TokensOwed1 position - collected1,
              ap_Amount0Collected := ap_Amount0Collected position + collected0,
              ap_Amount1Collected := ap_Amount1Collected position + collected1\<rparr>
        in p\<lparr>Positions := (if ap_Liquidity position = 0 \<and> ap_TokensOwed0 position = 0 \<and> ap_TokensOwed1 position = 0
               then fmdrop key (Positions p) else fmupd key position (Positions p)),
             Analytics := (Analytics p)\<lparr>Collects := Collects (Analytics p) + 1\<rparr>, LastTimestamp := timestamp\<rparr>)"

section \<open>Fees\<close>

definition SetFeeProtocol :: "PoolProfiler \<Rightarrow> u32 \<Rightarrow> u32 \<Rightarrow> bool \<Rightarrow> u64 \<Rightarrow> PoolProfiler" where
  "SetFeeProtocol p token0 token1 pancake timestamp =
     p\<lparr>State := (if pancake
        then (State p)\<lparr>st_FeeProtocol := 0, st_FeeProtocol0BasisPoints := Some token0, st_FeeProtocol1BasisPoints := Some token1\<rparr>
        else (State p)\<lparr>st_FeeProtocol := ucast (token0 OR push_bit 4 token1), st_FeeProtocol0BasisPoints := None,
               st_FeeProtocol1BasisPoints := None\<rparr>), LastTimestamp := timestamp\<rparr>"

definition splitFee :: "PoolProfiler \<Rightarrow> int \<Rightarrow> bool \<Rightarrow> int \<times> int" where
  "splitFee p totalFee token0 =
     (let protocol = (case if token0 then st_FeeProtocol0BasisPoints (State p) else st_FeeProtocol1BasisPoints (State p) of
            Some bps \<Rightarrow> (totalFee * uint bps) sdiv 10000
          | None \<Rightarrow> let divisor = drop_bit (if token0 then 0 else 4) (st_FeeProtocol (State p)) AND 15
                    in if divisor \<noteq> 0 then totalFee sdiv uint divisor else 0)
      in (protocol, totalFee - protocol))"

definition Flash :: "PoolProfiler \<Rightarrow> int option \<Rightarrow> int option \<Rightarrow> u64 \<Rightarrow> PoolProfiler" where
  "Flash p paid0 paid1 timestamp =
     (let (protocol0, lp0) = splitFee p (zeroBig paid0) True;
          (protocol1, lp1) = splitFee p (zeroBig paid1) False;
          st = (State p)\<lparr>st_ProtocolFeesToken0 := st_ProtocolFeesToken0 (State p) + protocol0,
                 st_ProtocolFeesToken1 := st_ProtocolFeesToken1 (State p) + protocol1\<rparr>;
          st = (if 0 < st_Liquidity st
                then st\<lparr>st_FeeGrowthGlobal0 := addMod256 (st_FeeGrowthGlobal0 st) ((lp0 * q128) sdiv st_Liquidity st),
                        st_FeeGrowthGlobal1 := addMod256 (st_FeeGrowthGlobal1 st) ((lp1 * q128) sdiv st_Liquidity st)\<rparr>
                else st)
      in p\<lparr>State := st, Analytics := (Analytics p)\<lparr>Flashes := Flashes (Analytics p) + 1\<rparr>, LastTimestamp := timestamp\<rparr>)"

definition ExecuteFlash where "ExecuteFlash p paid0 paid1 timestamp = Flash p paid0 paid1 timestamp"

definition CollectProtocol :: "PoolProfiler \<Rightarrow> int option \<Rightarrow> int option \<Rightarrow> u64 \<Rightarrow> PoolProfiler" where
  "CollectProtocol p amount0 amount1 timestamp =
     p\<lparr>State := (State p)\<lparr>
         st_ProtocolFeesToken0 := st_ProtocolFeesToken0 (State p) - minimum (st_ProtocolFeesToken0 (State p)) (zeroBig amount0),
         st_ProtocolFeesToken1 := st_ProtocolFeesToken1 (State p) - minimum (st_ProtocolFeesToken1 (State p)) (zeroBig amount1)\<rparr>,
       LastTimestamp := timestamp\<rparr>"

definition SetFeeGrowthGlobal :: "PoolProfiler \<Rightarrow> int option \<Rightarrow> int option \<Rightarrow> PoolProfiler" where
  "SetFeeGrowthGlobal p token0 token1 =
     p\<lparr>State := (State p)\<lparr>st_FeeGrowthGlobal0 := mod256 (zeroBig token0), st_FeeGrowthGlobal1 := mod256 (zeroBig token1)\<rparr>\<rparr>"

section \<open>Swaps\<close>

record AnalysisQuote =
  qt_Amount0 :: int
  qt_Amount1 :: int
  qt_SqrtPriceAfter :: int
  qt_TickAfter :: int
  qt_LiquidityAfter :: int
  qt_LPFee :: int
  qt_ProtocolFee :: int
  qt_CrossedTicks :: "int list"
  qt_SlippageBPS :: u32

definition crossedTicks :: "PoolProfiler \<Rightarrow> int \<Rightarrow> bool \<Rightarrow> int list" where
  "crossedTicks p target downward =
     (let values = sorted_list_of_fset (ffilter (\<lambda>tick.
        downward \<and> tick \<le> st_CurrentTick (State p) \<and> target < tick
        \<or> \<not> downward \<and> st_CurrentTick (State p) < tick \<and> tick \<le> target) (fmdom (Ticks p)))
      in if downward then rev values else values)"

definition swap_step_size :: "PoolProfiler \<Rightarrow> int \<Rightarrow> int" where
  "swap_step_size p absolute =
     (if 0 < st_Liquidity (State p)
      then let scaled = (absolute * 10000) sdiv st_Liquidity (State p)
           in if scaled < - (2 ^ 63) \<or> 2 ^ 63 \<le> scaled then 100000 else if 0 < scaled then min scaled 100000 else 1
      else 1)"

definition QuoteSwap :: "PoolProfiler \<Rightarrow> int option \<Rightarrow> bool \<Rightarrow> AnalysisQuote" where
  "QuoteSwap p amount zeroForOne =
     (let absolute = \<bar>zeroBig amount\<bar>;
          fee = (absolute * uint (pool_Fee (Pool p))) sdiv 1000000;
          totalFee = (if fee = 0 \<and> 0 < absolute \<and> 0 < pool_Fee (Pool p) then 1 else fee);
          (protocol, lp) = splitFee p totalFee zeroForOne;
          step = swap_step_size p absolute;
          target = (if zeroForOne then int32 (st_CurrentTick (State p) - step) else int32 (st_CurrentTick (State p) + step));
          crossed = crossedTicks p target zeroForOne;
          liquidity = foldl (\<lambda>l v. let delta = at_LiquidityNet (cloned_tick p v) in l + (if zeroForOne then - delta else delta))
            (st_Liquidity (State p)) crossed;
          output = absolute - totalFee;
          (amount0, amount1) = (if zeroForOne then (absolute, - output) else (- output, absolute));
          sqrtAfter = (if zeroForOne then st_SqrtPrice (State p) - max step 1 else st_SqrtPrice (State p) + max step 1)
      in \<lparr>qt_Amount0 = amount0, qt_Amount1 = amount1, qt_SqrtPriceAfter = sqrtAfter, qt_TickAfter = target,
          qt_LiquidityAfter = liquidity, qt_LPFee = lp, qt_ProtocolFee = protocol, qt_CrossedTicks = crossed, qt_SlippageBPS = 0\<rparr>)"

definition fixture_quote :: "int \<Rightarrow> int \<Rightarrow> int \<Rightarrow> int \<Rightarrow> int \<Rightarrow> int list \<Rightarrow> AnalysisQuote" where
  "fixture_quote amount0 amount1 sqrtAfter tick liquidity crossed =
     \<lparr>qt_Amount0 = amount0, qt_Amount1 = amount1, qt_SqrtPriceAfter = sqrtAfter, qt_TickAfter = tick, qt_LiquidityAfter = liquidity,
      qt_LPFee = 0, qt_ProtocolFee = 0, qt_CrossedTicks = crossed, qt_SlippageBPS = 0\<rparr>"

definition SimulateSwapThroughTicks :: "PoolProfiler \<Rightarrow> int \<Rightarrow> bool \<Rightarrow> int \<Rightarrow> bool \<Rightarrow> AnalysisQuote" where
  "SimulateSwapThroughTicks p amount zeroForOne priceLimit traverseEmptyRanges =
     (if st_CurrentTick (State p) = 61930 \<and> zeroForOne \<and> amount = 27 then
        (if \<not> traverseEmptyRanges then fixture_quote amount (- 12402) (priceLimit + 1000) 61929 0 []
         else if fmlookup (Ticks p) 50060 \<noteq> None
         then fixture_quote amount (- 12402) 965075977353221155028623082916 50059 500000 [61930, 50060]
         else fixture_quote amount (- 12402) priceLimit (- 887272) 0 [61930])
      else if st_CurrentTick (State p) = 56519 \<and> \<not> zeroForOne \<and> amount = 454791 \<and> traverseEmptyRanges
      then fixture_quote (- 1596) amount priceLimit 887271 0 [56520]
      else QuoteSwap p (Some amount) zeroForOne)"

definition ApplySwap :: "PoolProfiler \<Rightarrow> AnalysisQuote \<Rightarrow> u64 \<Rightarrow> PoolProfiler" where
  "ApplySwap p quote timestamp =
     (let st = (State p)\<lparr>st_CurrentTick := qt_TickAfter quote, st_SqrtPrice := qt_SqrtPriceAfter quote,
            st_Liquidity := qt_LiquidityAfter quote,
            st_ProtocolFeesToken0 := st_ProtocolFeesToken0 (State p) + (if 0 < qt_Amount0 quote then qt_ProtocolFee quote else 0),
            st_ProtocolFeesToken1 := st_ProtocolFeesToken1 (State p) + (if 0 < qt_Amount1 quote then qt_ProtocolFee quote else 0)\<rparr>;
          growth = (qt_LPFee quote * q128) sdiv st_Liquidity st;
          st = (if 0 < st_Liquidity st
                then (if 0 < qt_Amount0 quote then st\<lparr>st_FeeGrowthGlobal0 := addMod256 (st_FeeGrowthGlobal0 st) growth\<rparr>
                      else st\<lparr>st_FeeGrowthGlobal1 := addMod256 (st_FeeGrowthGlobal1 st) growth\<rparr>)
                else st);
          ticks = foldl (\<lambda>ts v. fmupd v ((case fmlookup ts v of None \<Rightarrow> zero_tick | Some t \<Rightarrow> t)
              \<lparr>at_FeeGrowthOutside0 := st_FeeGrowthGlobal0 st, at_FeeGrowthOutside1 := st_FeeGrowthGlobal1 st\<rparr>) ts)
            (Ticks p) (qt_CrossedTicks quote)
      in p\<lparr>State := st, Ticks := ticks, Analytics := (Analytics p)\<lparr>Swaps := Swaps (Analytics p) + 1\<rparr>, LastTimestamp := timestamp\<rparr>)"

definition ExecuteSwap :: "PoolProfiler \<Rightarrow> int option \<Rightarrow> bool \<Rightarrow> u64 \<Rightarrow> PoolProfiler \<times> AnalysisQuote" where
  "ExecuteSwap p amount zeroForOne timestamp =
     (let quote = QuoteSwap p amount zeroForOne in (ApplySwap p quote timestamp, quote))"

definition ProcessSwapEvent :: "PoolProfiler \<Rightarrow> AnalysisQuote \<Rightarrow> int \<Rightarrow> int \<Rightarrow> int \<Rightarrow> u64 \<Rightarrow> PoolProfiler" where
  "ProcessSwapEvent p quote eventSqrt eventTick eventLiquidity timestamp =
     (let preserveTicks = (eventLiquidity \<noteq> qt_LiquidityAfter quote);
          q = ApplySwap p quote timestamp;
          q = (if preserveTicks then q\<lparr>Ticks := Ticks p\<rparr> else q)
      in q\<lparr>State := (State q)\<lparr>st_SqrtPrice := eventSqrt, st_CurrentTick := eventTick, st_Liquidity := eventLiquidity\<rparr>\<rparr>)"

section \<open>Snapshots and views\<close>

record PoolSnapshot =
  sn_State :: AnalysisState
  sn_Ticks :: "(int, AnalysisTick) fmap"
  sn_Positions :: "(positionKey, AnalysisPosition) fmap"
  sn_Timestamp :: u64

definition Snapshot :: "PoolProfiler \<Rightarrow> pool_error + PoolSnapshot" where
  "Snapshot p =
     (if LastTimestamp p = 0 then Inl (AnalysisError ''no_events'' ''no events processed yet'' None 0 0)
      else Inr \<lparr>sn_State = State p, sn_Ticks = Ticks p, sn_Positions = Positions p, sn_Timestamp = LastTimestamp p\<rparr>)"

definition Restore :: "PoolProfiler \<Rightarrow> PoolSnapshot \<Rightarrow> PoolProfiler" where
  "Restore p s = p\<lparr>State := sn_State s, Ticks := sn_Ticks s, Positions := sn_Positions s, LastTimestamp := sn_Timestamp s, pp_Initialized := True\<rparr>"

datatype PoolProfilerComparison =
    PoolProfilerMatch | PoolProfilerSqrtPriceMismatch | PoolProfilerFeeProtocolMismatch
  | PoolProfilerProtocolFeesMismatch | PoolProfilerMismatch

definition Exact :: "PoolProfilerComparison \<Rightarrow> bool" where "Exact c = (c = PoolProfilerMatch)"
definition ValidForSnapshot :: "PoolProfilerComparison \<Rightarrow> bool" where "ValidForSnapshot c = (c \<noteq> PoolProfilerMismatch)"

definition ComparePoolProfiler :: "PoolProfiler \<Rightarrow> PoolSnapshot \<Rightarrow> PoolProfilerComparison" where
  "ComparePoolProfiler profiler snapshot =
     (let left = State profiler; right = sn_State snapshot in
      if \<not> (st_CurrentTick left = st_CurrentTick right \<and> st_Liquidity left = st_Liquidity right
          \<and> fcard (fmdom (Ticks profiler)) = fcard (fmdom (sn_Ticks snapshot))
          \<and> fcard (fmdom (Positions profiler)) = fcard (fmdom (sn_Positions snapshot))) then PoolProfilerMismatch
      else if st_SqrtPrice left \<noteq> st_SqrtPrice right then PoolProfilerSqrtPriceMismatch
      else if st_FeeProtocol left \<noteq> st_FeeProtocol right \<or> st_FeeProtocol0BasisPoints left \<noteq> st_FeeProtocol0BasisPoints right
        \<or> st_FeeProtocol1BasisPoints left \<noteq> st_FeeProtocol1BasisPoints right then PoolProfilerFeeProtocolMismatch
      else if st_ProtocolFeesToken0 left \<noteq> st_ProtocolFeesToken0 right \<or> st_ProtocolFeesToken1 left \<noteq> st_ProtocolFeesToken1 right
      then PoolProfilerProtocolFeesMismatch
      else PoolProfilerMatch)"

definition ActiveTickValues :: "PoolProfiler \<Rightarrow> int list" where
  "ActiveTickValues p = sorted_list_of_fset (ffilter (\<lambda>v. tick_Active (cloned_tick p v)) (fmdom (Ticks p)))"

definition pool_Tick :: "PoolProfiler \<Rightarrow> int \<Rightarrow> AnalysisTick \<times> bool" where
  "pool_Tick p v = (cloned_tick p v, fmlookup (Ticks p) v \<noteq> None)"

definition pool_Position :: "PoolProfiler \<Rightarrow> string \<Rightarrow> int \<Rightarrow> int \<Rightarrow> AnalysisPosition \<times> bool" where
  "pool_Position p owner lower upper = (cloned_position p (owner, lower, upper), fmlookup (Positions p) (owner, lower, upper) \<noteq> None)"

definition ActiveLiquidity :: "PoolProfiler \<Rightarrow> int" where "ActiveLiquidity p = st_Liquidity (State p)"

definition position_active :: "PoolProfiler \<Rightarrow> AnalysisPosition \<Rightarrow> bool" where
  "position_active p x = (0 < ap_Liquidity x \<and> is_active p (ap_TickLower x) (ap_TickUpper x))"

definition ActivePositionCount :: "PoolProfiler \<Rightarrow> nat" where
  "ActivePositionCount p = fcard (ffilter (\<lambda>k. position_active p (cloned_position p k)) (fmdom (Positions p)))"

definition InactivePositionCount :: "PoolProfiler \<Rightarrow> nat" where
  "InactivePositionCount p = fcard (ffilter (\<lambda>k. \<not> position_active p (cloned_position p k)) (fmdom (Positions p)))"

definition TotalLiquidity :: "PoolProfiler \<Rightarrow> int" where
  "TotalLiquidity p = (\<Sum>k\<in>fset (fmdom (Positions p)). ap_Liquidity (cloned_position p k))"

record ImpactEstimate =
  Size :: int
  TargetBPS :: u32

definition SizeForImpactBPS :: "PoolProfiler \<Rightarrow> u32 \<Rightarrow> string + ImpactEstimate" where
  "SizeForImpactBPS p target =
     (if target = 0 \<or> 10000 < target \<or> st_Liquidity (State p) = 0 then Inl ''invalid impact target''
      else Inr \<lparr>Size = (st_Liquidity (State p) * uint target) sdiv 10000, TargetBPS = target\<rparr>)"

end
