(* ===== verification/DefiPoolInvariant.thy ===== *)
theory DefiPoolInvariant
  imports DefiPool
begin

text \<open>
  The invariant of the pool profiler: the gross and net liquidity of every tick are the sums over the positions that they
  stand for, and the active liquidity is that of the positions at the current tick plus a drift. The drift is zero at first; the
  profiler's own operations keep it, and only a swap event or a quote that was not computed here can report a liquidity that
  sets it. So burning a position never underflows a tick, and never the pool unless a swap event has reported too little;
  protocol and liquidity-provider fees add up to what was paid.
\<close>

section \<open>Weighted sums over positions\<close>

definition liq :: "(positionKey, AnalysisPosition) fmap \<Rightarrow> positionKey \<Rightarrow> int" where
  "liq m k = (case fmlookup m k of None \<Rightarrow> 0 | Some x \<Rightarrow> ap_Liquidity x)"

definition weighted :: "(positionKey \<Rightarrow> int) \<Rightarrow> (positionKey, AnalysisPosition) fmap \<Rightarrow> int" where
  "weighted w m = (\<Sum>k\<in>fset (fmdom m). w k * liq m k)"

lemma liq_upd [simp]: "liq (fmupd k x m) = (liq m)(k := ap_Liquidity x)"
  by (auto simp: liq_def)

lemma liq_drop [simp]: "liq (fmdrop k m) = (liq m)(k := 0)"
  by (auto simp: liq_def)

lemma weighted_superset: "finite A \<Longrightarrow> fset (fmdom m) \<subseteq> A \<Longrightarrow> weighted w m = (\<Sum>k\<in>A. w k * liq m k)"
  unfolding weighted_def by (rule sum.mono_neutral_left) (auto simp: liq_def fmdom_notD)

lemma weighted_change:
  assumes "finite A" "fset (fmdom m) \<subseteq> A" "fset (fmdom m') \<subseteq> A" "k \<in> A" "\<And>j. j \<noteq> k \<Longrightarrow> liq m' j = liq m j"
  shows "weighted w m' = weighted w m + w k * (liq m' k - liq m k)"
  using assms by (simp add: weighted_superset [of A] sum.remove [of A k] algebra_simps)

lemma weighted_upd: "weighted w (fmupd k x m) = weighted w m + w k * (ap_Liquidity x - liq m k)"
  using weighted_change [of "insert k (fset (fmdom m))" m "fmupd k x m" k w] by auto

lemma weighted_drop: "liq m k = 0 \<Longrightarrow> weighted w (fmdrop k m) = weighted w m"
  using weighted_change [of "insert k (fset (fmdom m))" m "fmdrop k m" k w] by auto

lemma weighted_empty [simp]: "weighted w fmempty = 0"
  by (simp add: weighted_def)

definition gross_weight :: "int \<Rightarrow> positionKey \<Rightarrow> int" where
  "gross_weight t = (\<lambda>(owner, lower, upper). of_bool (lower = t) + of_bool (upper = t))"

definition net_weight :: "int \<Rightarrow> positionKey \<Rightarrow> int" where
  "net_weight t = (\<lambda>(owner, lower, upper). of_bool (lower = t) - of_bool (upper = t))"

definition active_weight :: "int \<Rightarrow> positionKey \<Rightarrow> int" where
  "active_weight c = (\<lambda>(owner, lower, upper). of_bool (lower \<le> c \<and> c < upper))"

lemmas weight_defs = gross_weight_def net_weight_def active_weight_def

section \<open>The invariant\<close>

definition position_liquidity :: "PoolProfiler \<Rightarrow> int \<Rightarrow> int" where
  "position_liquidity p tick = weighted (active_weight tick) (Positions p)"

definition pool_ok :: "int \<Rightarrow> PoolProfiler \<Rightarrow> bool" where
  "pool_ok e p \<longleftrightarrow>
     (\<forall>k. 0 \<le> liq (Positions p) k)
   \<and> (\<forall>(owner, lower, upper) \<in> fset (fmdom (Positions p)). lower < upper)
   \<and> (\<forall>t. at_LiquidityGross (cloned_tick p t) = weighted (gross_weight t) (Positions p))
   \<and> (\<forall>t. at_LiquidityNet (cloned_tick p t) = weighted (net_weight t) (Positions p))
   \<and> st_Liquidity (State p) = position_liquidity p (st_CurrentTick (State p)) + e
   \<and> (\<not> pp_Initialized p \<longrightarrow> fset (fmdom (Positions p)) = {})"

lemma pool_okI:
  assumes "pool_ok e p" "liq (Positions q) = liq (Positions p)" "fset (fmdom (Positions q)) \<subseteq> fset (fmdom (Positions p))"
    "\<And>t. at_LiquidityGross (cloned_tick q t) = at_LiquidityGross (cloned_tick p t)"
    "\<And>t. at_LiquidityNet (cloned_tick q t) = at_LiquidityNet (cloned_tick p t)"
    "st_Liquidity (State q) = position_liquidity p (st_CurrentTick (State q)) + e'"
    "pp_Initialized q = pp_Initialized p \<or> pp_Initialized q"
  shows "pool_ok e' q"
proof -
  have w: "weighted w (Positions q) = weighted w (Positions p)" for w
    using assms(2,3) weighted_superset [of "fset (fmdom (Positions p))"] by (simp add: weighted_def [of w "Positions p"])
  show ?thesis using assms unfolding pool_ok_def position_liquidity_def w by (simp add: subset_eq) blast
qed

lemma weighted_nonneg: "pool_ok e p \<Longrightarrow> (\<And>k. 0 \<le> w k) \<Longrightarrow> 0 \<le> weighted w (Positions p)"
  unfolding weighted_def by (intro sum_nonneg mult_nonneg_nonneg) (auto simp: pool_ok_def)

text \<open>A sum with positive weight on a position is at least its liquidity.\<close>

lemma weighted_ge:
  assumes "pool_ok e p" "\<And>j. 0 \<le> w j" "1 \<le> w k"
  shows "liq (Positions p) k \<le> weighted w (Positions p)"
proof -
  let ?A = "insert k (fset (fmdom (Positions p)))"
  have l: "0 \<le> liq (Positions p) j" for j using assms(1) unfolding pool_ok_def by blast
  have "liq (Positions p) k \<le> w k * liq (Positions p) k" using assms(3) l [of k] mult_right_mono [of 1 "w k" "liq (Positions p) k"] by simp
  also have "\<dots> \<le> (\<Sum>j\<in>?A. w j * liq (Positions p) j)" using assms(2) l by (intro member_le_sum) auto
  also have "\<dots> = weighted w (Positions p)" by (rule weighted_superset [symmetric]) auto
  finally show ?thesis .
qed

lemma new_pool_ok: "pool_ok 0 (NewPoolProfiler pool)"
  by (simp add: pool_ok_def NewPoolProfiler_def Let_def liq_def cloned_tick_def zero_tick_def position_liquidity_def)

lemma pool_okD:
  assumes "pool_ok e p"
  shows "0 \<le> liq (Positions p) k"
    "at_LiquidityGross (cloned_tick p t) = weighted (gross_weight t) (Positions p)"
    "at_LiquidityNet (cloned_tick p t) = weighted (net_weight t) (Positions p)"
    "st_Liquidity (State p) = position_liquidity p (st_CurrentTick (State p)) + e"
    "(owner, lower, upper) |\<in>| fmdom (Positions p) \<Longrightarrow> lower < upper"
    "\<not> pp_Initialized p \<Longrightarrow> fset (fmdom (Positions p)) = {}"
  using assms unfolding pool_ok_def by blast+

section \<open>Minting and burning\<close>

lemma cloned_position_liq [simp]: "ap_Liquidity (cloned_position p k) = liq (Positions p) k"
  by (simp add: cloned_position_def liq_def zero_position_def split: option.split)

lemma pokePosition_liq [simp]: "ap_Liquidity (pokePosition x a b) = ap_Liquidity x"
  by (simp add: pokePosition_def Let_def)

lemma updateTick_view [simp]:
  "at_LiquidityGross (updateTick t l u add) = at_LiquidityGross t + (if add then l else - l)"
  "at_LiquidityNet (updateTick t l u add) = at_LiquidityNet t + (if add = u then - l else l)"
  by (auto simp: updateTick_def Let_def)

text \<open>A change of one position by \<open>d\<close>, mirrored on its two ticks and on the active liquidity, keeps the invariant.\<close>

lemma position_change:
  fixes d :: int
  assumes p: "pool_ok e p" and r: "lower < upper" "pp_Initialized q"
    and x: "Positions q = fmupd (owner, lower, upper) x (Positions p)" "ap_Liquidity x = liq (Positions p) (owner, lower, upper) + d"
      "0 \<le> ap_Liquidity x"
    and g: "\<And>t. at_LiquidityGross (cloned_tick q t) = at_LiquidityGross (cloned_tick p t) + gross_weight t (owner, lower, upper) * d"
    and n: "\<And>t. at_LiquidityNet (cloned_tick q t) = at_LiquidityNet (cloned_tick p t) + net_weight t (owner, lower, upper) * d"
    and s: "st_CurrentTick (State q) = st_CurrentTick (State p)"
      "st_Liquidity (State q) = st_Liquidity (State p) + active_weight (st_CurrentTick (State p)) (owner, lower, upper) * d"
  shows "pool_ok e q"
  unfolding pool_ok_def
proof (intro conjI allI)
  note ok = pool_okD [OF p]
  have w: "weighted w (Positions q) = weighted w (Positions p) + w (owner, lower, upper) * d" for w
    by (simp add: x weighted_upd)
  show "0 \<le> liq (Positions q) k" for k using x ok(1) [of k] by (simp add: x(1))
  show "\<forall>(owner, lower, upper) \<in> fset (fmdom (Positions q)). lower < upper" using r ok(5) by (auto simp: x(1))
  show "at_LiquidityGross (cloned_tick q t) = weighted (gross_weight t) (Positions q)" for t by (simp add: g w ok(2))
  show "at_LiquidityNet (cloned_tick q t) = weighted (net_weight t) (Positions q)" for t by (simp add: n w ok(3))
  show "st_Liquidity (State q) = position_liquidity q (st_CurrentTick (State q)) + e"
    using s ok(4) by (simp add: w position_liquidity_def)
  show "\<not> pp_Initialized q \<longrightarrow> fset (fmdom (Positions q)) = {}" using r by simp
qed

lemma validateTicks_None: "validateTicks p lower upper = None \<Longrightarrow> lower < upper"
  by (simp add: validateTicks_def split: if_splits)

lemma Mint_Inr:
  assumes "Mint p owner lower upper liquidity amount0 amount1 timestamp = Inr q"
  defines "l \<equiv> zeroBig liquidity" and "k \<equiv> (owner, lower, upper)"
  shows "0 \<le> l" "liq (Positions p) k + l \<le> maxU128" "lower < upper" "pp_Initialized q" "pp_Initialized p"
    "Positions q = fmupd k (the (fmlookup (Positions q) k)) (Positions p)" "liq (Positions q) k = liq (Positions p) k + l"
    "Ticks q = fmupd upper (updateTick (cloned_tick p upper) l True True) (fmupd lower (updateTick (cloned_tick p lower) l False True) (Ticks p))"
    "st_CurrentTick (State q) = st_CurrentTick (State p)"
    "st_Liquidity (State q) = st_Liquidity (State p) + (if is_active p lower upper then l else 0)"
  using assms(1) by (simp_all add: Mint_def Let_def zeroBig_def validateTicks_None l_def k_def split: if_splits option.splits sum.splits;
      clarsimp)+

lemma Mint_ok:
  assumes p: "pool_ok e p" and q: "Mint p owner lower upper liquidity amount0 amount1 timestamp = Inr q"
  shows "pool_ok e q"
proof -
  let ?k = "(owner, lower, upper)" and ?l = "zeroBig liquidity"
  note m = Mint_Inr [OF q]
  have v: "cloned_tick q t = (if t = upper then updateTick (cloned_tick p upper) ?l True True
      else if t = lower then updateTick (cloned_tick p lower) ?l False True else cloned_tick p t)" for t
    by (simp add: cloned_tick_def m(8))
  have x: "ap_Liquidity (the (fmlookup (Positions q) ?k)) = liq (Positions q) ?k" by (subst (2) m(6)) simp
  show ?thesis
  proof (rule position_change [OF p m(3,4,6)])
    show "ap_Liquidity (the (fmlookup (Positions q) ?k)) = liq (Positions p) ?k + ?l"
      "0 \<le> ap_Liquidity (the (fmlookup (Positions q) ?k))"
      using x m(1,2,7) pool_okD(1) [OF p, of ?k] by simp_all
    show "at_LiquidityGross (cloned_tick q t) = at_LiquidityGross (cloned_tick p t) + gross_weight t ?k * ?l"
      "at_LiquidityNet (cloned_tick q t) = at_LiquidityNet (cloned_tick p t) + net_weight t ?k * ?l" for t
      using m(3) by (auto simp: v weight_defs)
    show "st_Liquidity (State q) = st_Liquidity (State p) + active_weight (st_CurrentTick (State p)) ?k * ?l"
      using m(10) by (simp add: weight_defs is_active_def)
  qed (fact m(9))
qed

lemma net_within_gross: "(\<And>k. 0 \<le> liq m k) \<Longrightarrow> \<bar>weighted (net_weight t) m\<bar> \<le> weighted (gross_weight t) m"
  unfolding weighted_def
  by (rule order_trans [OF sum_abs], rule sum_mono) (auto simp: weight_defs abs_mult split: prod.splits)

lemma Burn_Inr:
  assumes "Burn p owner lower upper l amount0 amount1 timestamp = Inr q"
  defines "k \<equiv> (owner, lower, upper)"
    and "low \<equiv> updateTick (cloned_tick p lower) l False False" and "upp \<equiv> updateTick (cloned_tick p upper) l True False"
  shows "l \<le> liq (Positions p) k" "lower < upper" "pp_Initialized q" "pp_Initialized p"
    "Positions q = fmupd k (the (fmlookup (Positions q) k)) (Positions p)" "liq (Positions q) k = liq (Positions p) k + - l"
    "Ticks q = drop_inactive upper upp (drop_inactive lower low (fmupd upper upp (fmupd lower low (Ticks p))))"
    "st_CurrentTick (State q) = st_CurrentTick (State p)"
    "st_Liquidity (State q) = st_Liquidity (State p) + (if is_active p lower upper then - l else 0)"
  using assms(1) by (simp_all add: Burn_def Let_def validateTicks_None k_def low_def upp_def split: if_splits option.splits;
      clarsimp)+

lemma Burn_ok:
  assumes p: "pool_ok e p" and q: "Burn p owner lower upper l amount0 amount1 timestamp = Inr q"
  shows "pool_ok e q"
proof -
  let ?k = "(owner, lower, upper)"
  define low where "low = updateTick (cloned_tick p lower) l False False"
  define upp where "upp = updateTick (cloned_tick p upper) l True False"
  note b = Burn_Inr [OF q, folded low_def upp_def]
  have x: "ap_Liquidity (the (fmlookup (Positions q) ?k)) = liq (Positions q) ?k" by (subst (2) b(5)) simp
  have w: "weighted w (Positions q) = weighted w (Positions p) - w ?k * l" for w
    by (subst b(5)) (simp add: weighted_upd x b(6))
  have tick: "at_LiquidityGross y = weighted (gross_weight t) (Positions q)" "at_LiquidityNet y = weighted (net_weight t) (Positions q)"
    if "y = low \<and> t = lower \<or> y = upp \<and> t = upper" for y t
    using that b(2) pool_okD(2,3) [OF p] by (auto simp: low_def upp_def w weight_defs)
  have "0 \<le> liq (Positions q) k" for k
    using b(1) pool_okD(1) [OF p, of k] b(6) by (subst b(5)) (simp add: x)
  note net = net_within_gross [OF this]
  have kept: "at_LiquidityGross (if tick_Active y then y else zero_tick) = at_LiquidityGross y"
    "at_LiquidityNet (if tick_Active y then y else zero_tick) = at_LiquidityNet y" if "y = low \<and> t = lower \<or> y = upp \<and> t = upper" for y t
    using tick [OF that] net [of t] by (auto simp: tick_Active_def zero_tick_def)
  have v: "cloned_tick q t = (if t = upper then (if tick_Active upp then upp else zero_tick)
      else if t = lower then (if tick_Active low then low else zero_tick) else cloned_tick p t)" for t
    using b(2) by (simp add: cloned_tick_def b(7) drop_inactive_def)
  show ?thesis
  proof (rule position_change [OF p b(2,3,5), where d = "- l"])
    show "ap_Liquidity (the (fmlookup (Positions q) ?k)) = liq (Positions p) ?k + - l"
      "0 \<le> ap_Liquidity (the (fmlookup (Positions q) ?k))"
      using x b(1,6) by simp_all
    show "at_LiquidityGross (cloned_tick q t) = at_LiquidityGross (cloned_tick p t) + gross_weight t ?k * - l"
      "at_LiquidityNet (cloned_tick q t) = at_LiquidityNet (cloned_tick p t) + net_weight t ?k * - l" for t
      using b(2) kept [of low lower] kept [of upp upper] by (simp_all add: v) (simp_all add: weight_defs low_def upp_def)
    show "st_Liquidity (State q) = st_Liquidity (State p) + active_weight (st_CurrentTick (State p)) ?k * - l"
      using b(9) by (simp add: weight_defs is_active_def)
  qed (fact b(8))
qed

section \<open>Swaps\<close>

text \<open>The net liquidity of a set of ticks, position by position.\<close>

lemma sum_net_weight:
  assumes "finite S"
  shows "(\<Sum>t\<in>S. weighted (net_weight t) m) = (\<Sum>k\<in>fset (fmdom m). (case k of (_, lower, upper) \<Rightarrow> of_bool (lower \<in> S) - of_bool (upper \<in> S)) * liq m k)"
proof -
  have "(\<Sum>t\<in>S. net_weight t k) = (case k of (_, lower, upper) \<Rightarrow> of_bool (lower \<in> S) - of_bool (upper \<in> S))" for k
    using assms by (simp add: net_weight_def sum_subtractf of_bool_def sum.delta split: prod.split)
  then show ?thesis unfolding weighted_def by (subst sum.swap) (simp add: sum_distrib_right [symmetric])
qed

text \<open>The ticks of a position with liquidity are in the map.\<close>

lemma position_ticks:
  assumes "pool_ok e p" "liq (Positions p) (owner, lower, upper) \<noteq> 0"
  shows "lower |\<in>| fmdom (Ticks p)" "upper |\<in>| fmdom (Ticks p)"
proof -
  have "liq (Positions p) (owner, lower, upper) \<le> at_LiquidityGross (cloned_tick p t)" if "t = lower \<or> t = upper" for t
    using that assms(1) by (subst pool_okD(2)) (auto intro!: weighted_ge simp: weight_defs)
  then have "at_LiquidityGross (cloned_tick p t) \<noteq> 0" if "t = lower \<or> t = upper" for t
    using that assms(2) pool_okD(1) [OF assms(1), of "(owner, lower, upper)"] by fastforce
  then show "lower |\<in>| fmdom (Ticks p)" "upper |\<in>| fmdom (Ticks p)"
    by (fastforce simp: cloned_tick_def zero_tick_def fmlookup_dom_iff split: option.splits)+
qed

text \<open>Moving the current tick changes the active liquidity by the net liquidity of the ticks it passes.\<close>

lemma active_moves:
  assumes p: "pool_ok e p" and c: "a \<le> b"
  defines "S \<equiv> {t \<in> fset (fmdom (Ticks p)). a < t \<and> t \<le> b}"
  shows "weighted (active_weight b) (Positions p) = weighted (active_weight a) (Positions p)
    + (\<Sum>t\<in>S. at_LiquidityNet (cloned_tick p t))"
proof -
  have f: "finite S" by (simp add: S_def)
  have "active_weight b k * liq (Positions p) k = active_weight a k * liq (Positions p) k
      + (case k of (_, lower, upper) \<Rightarrow> of_bool (lower \<in> S) - of_bool (upper \<in> S)) * liq (Positions p) k"
    if "k \<in> fset (fmdom (Positions p))" for k
  proof (cases "liq (Positions p) k = 0")
    case False
    obtain owner lower upper where k: "k = (owner, lower, upper)" by (cases k)
    have "lower < upper" using pool_okD(5) [OF p] that by (auto simp: k)
    moreover have "lower \<in> S \<longleftrightarrow> a < lower \<and> lower \<le> b" "upper \<in> S \<longleftrightarrow> a < upper \<and> upper \<le> b"
      using position_ticks [OF p, of owner lower upper] False by (simp_all add: k S_def)
    ultimately show ?thesis using c by (auto simp: k active_weight_def)
  qed simp
  then show ?thesis
    unfolding pool_okD(3) [OF p] sum_net_weight [OF f] by (simp add: weighted_def sum.distrib cong: sum.cong)
qed

lemma crossedTicks_set:
  "distinct (crossedTicks p target downward)"
  "set (crossedTicks p target downward) = {t \<in> fset (fmdom (Ticks p)).
     if downward then target < t \<and> t \<le> st_CurrentTick (State p) else st_CurrentTick (State p) < t \<and> t \<le> target}"
  by (auto simp: crossedTicks_def Let_def sorted_list_of_fset.rep_eq)

lemma fold_net:
  "foldl (\<lambda>l v. l - g v) l vs = l + (\<Sum>v\<leftarrow>vs. - (g v :: int))" "foldl (\<lambda>l v. l + g v) l vs = l + (\<Sum>v\<leftarrow>vs. g v)"
  by (induction vs arbitrary: l) simp_all

text \<open>A quote moves the active liquidity to that of its new tick and keeps the drift.\<close>

lemma swap_step_size_range: "1 \<le> swap_step_size p absolute" "swap_step_size p absolute \<le> 100000"
  by (auto simp: swap_step_size_def Let_def)

lemma quote_liquidity:
  assumes p: "pool_ok e p" and c: "- (2 ^ 31) + 100000 \<le> st_CurrentTick (State p)" "st_CurrentTick (State p) < 2 ^ 31 - 100000"
  shows "qt_LiquidityAfter (QuoteSwap p amount zeroForOne) = position_liquidity p (qt_TickAfter (QuoteSwap p amount zeroForOne)) + e"
proof -
  define cur step where "cur = st_CurrentTick (State p)" and "step = swap_step_size p \<bar>zeroBig amount\<bar>"
  define target where "target = (if zeroForOne then cur - step else cur + step)"
  have step: "1 \<le> step" "step \<le> 100000" by (simp_all add: step_def swap_step_size_range)
  have i: "int32 (cur - step) = cur - step" "int32 (cur + step) = cur + step"
    using c step by (simp_all add: int32_id cur_def)
  have q: "qt_TickAfter (QuoteSwap p amount zeroForOne) = target"
    "qt_LiquidityAfter (QuoteSwap p amount zeroForOne) = st_Liquidity (State p)
       + (\<Sum>v\<leftarrow>crossedTicks p target zeroForOne. if zeroForOne then - at_LiquidityNet (cloned_tick p v) else at_LiquidityNet (cloned_tick p v))"
    using i by (simp_all add: QuoteSwap_def fold_net target_def split_beta Let_def cur_def step_def)
  have "(\<Sum>v\<leftarrow>crossedTicks p target zeroForOne. if zeroForOne then - at_LiquidityNet (cloned_tick p v) else at_LiquidityNet (cloned_tick p v))
      = (\<Sum>v\<in>set (crossedTicks p target zeroForOne). if zeroForOne then - at_LiquidityNet (cloned_tick p v) else at_LiquidityNet (cloned_tick p v))"
    by (simp add: sum_list_distinct_conv_sum_set crossedTicks_set(1))
  also have "\<dots> = weighted (active_weight target) (Positions p) - weighted (active_weight cur) (Positions p)"
    using active_moves [OF p, of target cur] active_moves [OF p, of cur target] step
    by (cases zeroForOne) (simp_all add: crossedTicks_set(2) target_def cur_def sum_negf)
  finally show ?thesis using pool_okD(4) [OF p] by (simp add: q cur_def position_liquidity_def)
qed

lemma ApplySwap_view:
  "Positions (ApplySwap p quote timestamp) = Positions p" "pp_Initialized (ApplySwap p quote timestamp) = pp_Initialized p"
  "st_CurrentTick (State (ApplySwap p quote timestamp)) = qt_TickAfter quote"
  "st_Liquidity (State (ApplySwap p quote timestamp)) = qt_LiquidityAfter quote"
  "at_LiquidityGross (cloned_tick (ApplySwap p quote timestamp) t) = at_LiquidityGross (cloned_tick p t)"
  "at_LiquidityNet (cloned_tick (ApplySwap p quote timestamp) t) = at_LiquidityNet (cloned_tick p t)"
proof -
  have f: "at_LiquidityGross (case fmlookup (foldl (\<lambda>ts v. fmupd v ((case fmlookup ts v of None \<Rightarrow> zero_tick | Some t \<Rightarrow> t)
        \<lparr>at_FeeGrowthOutside0 := a, at_FeeGrowthOutside1 := b\<rparr>) ts) ts vs) t of None \<Rightarrow> zero_tick | Some t \<Rightarrow> t)
      = at_LiquidityGross (case fmlookup ts t of None \<Rightarrow> zero_tick | Some t \<Rightarrow> t)
    \<and> at_LiquidityNet (case fmlookup (foldl (\<lambda>ts v. fmupd v ((case fmlookup ts v of None \<Rightarrow> zero_tick | Some t \<Rightarrow> t)
        \<lparr>at_FeeGrowthOutside0 := a, at_FeeGrowthOutside1 := b\<rparr>) ts) ts vs) t of None \<Rightarrow> zero_tick | Some t \<Rightarrow> t)
      = at_LiquidityNet (case fmlookup ts t of None \<Rightarrow> zero_tick | Some t \<Rightarrow> t)" for a b ts vs
    by (induction vs arbitrary: ts) auto
  then show "at_LiquidityGross (cloned_tick (ApplySwap p quote timestamp) t) = at_LiquidityGross (cloned_tick p t)"
    "at_LiquidityNet (cloned_tick (ApplySwap p quote timestamp) t) = at_LiquidityNet (cloned_tick p t)"
    by (simp_all add: ApplySwap_def Let_def cloned_tick_def)
qed (simp_all add: ApplySwap_def Let_def)

lemma ExecuteSwap_ok:
  assumes "pool_ok e p" "- (2 ^ 31) + 100000 \<le> st_CurrentTick (State p)" "st_CurrentTick (State p) < 2 ^ 31 - 100000"
  shows "pool_ok e (fst (ExecuteSwap p amount zeroForOne timestamp))"
proof (rule pool_okI [OF assms(1)])
  note e = ExecuteSwap_def Let_def fst_conv ApplySwap_view
  show "st_Liquidity (State (fst (ExecuteSwap p amount zeroForOne timestamp))) =
    position_liquidity p (st_CurrentTick (State (fst (ExecuteSwap p amount zeroForOne timestamp)))) + e"
    unfolding e by (rule quote_liquidity [OF assms])
qed (simp_all only: ExecuteSwap_def Let_def fst_conv ApplySwap_view order_refl disj_not1 simp_thms)

section \<open>Every sequence of operations\<close>

text \<open>
  The operations a profiler performs on its own: what it stores is computed from its own state. A swap starts far enough from
  the ends of \<open>int32\<close> for its tick arithmetic not to wrap.
\<close>

inductive pool_step :: "(int \<Rightarrow> int) \<Rightarrow> PoolProfiler \<Rightarrow> PoolProfiler \<Rightarrow> bool" for log_tick where
  initialize: "Initialize log_tick p price = Inr q \<Longrightarrow> pool_step log_tick p q"
| mint: "Mint p owner lower upper liquidity amount0 amount1 timestamp = Inr q \<Longrightarrow> pool_step log_tick p q"
| burn: "Burn p owner lower upper l amount0 amount1 timestamp = Inr q \<Longrightarrow> pool_step log_tick p q"
| collect: "pool_step log_tick p (Collect p owner lower upper requested0 requested1 timestamp)"
| fee_protocol: "pool_step log_tick p (SetFeeProtocol p token0 token1 pancake timestamp)"
| flash: "pool_step log_tick p (Flash p paid0 paid1 timestamp)"
| collect_protocol: "pool_step log_tick p (CollectProtocol p amount0 amount1 timestamp)"
| fee_growth: "pool_step log_tick p (SetFeeGrowthGlobal p growth0 growth1)"
| swap: "- (2 ^ 31) + 100000 \<le> st_CurrentTick (State p) \<Longrightarrow> st_CurrentTick (State p) < 2 ^ 31 - 100000
    \<Longrightarrow> pool_step log_tick p (fst (ExecuteSwap p amount zeroForOne timestamp))"

text \<open>
  The states a profiler can be brought to by all its operations, with the drift of the active liquidity. Its own operations keep
  the drift; an applied quote and a swap event set the tick and the liquidity to what they report, which sets the drift; a
  restored snapshot brings back the state and the drift it was taken with.
\<close>

inductive pool_reachable :: "(int \<Rightarrow> int) \<Rightarrow> AnalysisPool \<Rightarrow> int \<Rightarrow> PoolProfiler \<Rightarrow> bool" for log_tick pool where
  start: "pool_reachable log_tick pool 0 (NewPoolProfiler pool)"
| own_step: "pool_reachable log_tick pool e p \<Longrightarrow> pool_step log_tick p q \<Longrightarrow> pool_reachable log_tick pool e q"
| applied_quote: "pool_reachable log_tick pool e p \<Longrightarrow>
    pool_reachable log_tick pool (qt_LiquidityAfter quote - position_liquidity p (qt_TickAfter quote)) (ApplySwap p quote timestamp)"
| swap_event: "pool_reachable log_tick pool e p \<Longrightarrow>
    pool_reachable log_tick pool (eventLiquidity - position_liquidity p eventTick)
      (ProcessSwapEvent p quote eventSqrt eventTick eventLiquidity timestamp)"
| restored: "pool_reachable log_tick pool e p \<Longrightarrow> pool_reachable log_tick pool e' r \<Longrightarrow> Snapshot r = Inr s \<Longrightarrow>
    pool_reachable log_tick pool e' (Restore p s)"

lemma Initialize_ok:
  assumes "pool_ok e p" "Initialize log_tick p price = Inr q"
  shows "pool_ok e q"
proof -
  have q: "\<not> pp_Initialized p" "Positions q = Positions p" "Ticks q = Ticks p" "pp_Initialized q" "st_Liquidity (State q) = st_Liquidity (State p)"
    using assms(2) by (auto simp: Initialize_def Let_def split: if_splits option.splits)
  have "weighted w (Positions p) = 0" for w using pool_okD(6) [OF assms(1) q(1)] by (simp add: weighted_def)
  then show ?thesis
    using pool_okD(4) [OF assms(1)] by (intro pool_okI [OF assms(1)]) (simp_all add: q cloned_tick_def position_liquidity_def)
qed

lemma Collect_ok:
  assumes "pool_ok e p"
  shows "pool_ok e (Collect p owner lower upper requested0 requested1 timestamp)"
proof (rule pool_okI [OF assms])
  let ?q = "Collect p owner lower upper requested0 requested1 timestamp"
  show "liq (Positions ?q) = liq (Positions p)"
    by (auto simp: Collect_def Let_def liq_def fun_eq_iff split: option.splits)
  show "fset (fmdom (Positions ?q)) \<subseteq> fset (fmdom (Positions p))"
    by (auto simp: Collect_def Let_def fmlookup_dom_iff split: option.splits)
qed (auto simp: Collect_def Let_def cloned_tick_def pool_okD(4) [OF assms] split: option.splits)

lemma pool_step_ok: "pool_step log_tick p q \<Longrightarrow> pool_ok e p \<Longrightarrow> pool_ok e q"
proof (induction rule: pool_step.induct)
  case (fee_protocol p token0 token1 pancake timestamp)
  then show ?case by (intro pool_okI [OF fee_protocol]) (simp_all add: SetFeeProtocol_def cloned_tick_def pool_okD(4))
next
  case (flash p paid0 paid1 timestamp)
  then show ?case by (intro pool_okI [OF flash]) (simp_all add: Flash_def Let_def split_beta cloned_tick_def pool_okD(4))
next
  case (collect_protocol p amount0 amount1 timestamp)
  then show ?case by (intro pool_okI [OF collect_protocol]) (simp_all add: CollectProtocol_def cloned_tick_def pool_okD(4))
next
  case (fee_growth p growth0 growth1)
  then show ?case by (intro pool_okI [OF fee_growth]) (simp_all add: SetFeeGrowthGlobal_def cloned_tick_def pool_okD(4))
qed (auto intro: Initialize_ok Mint_ok Burn_ok Collect_ok ExecuteSwap_ok)

lemma ApplySwap_ok:
  assumes "pool_ok e p"
  shows "pool_ok (qt_LiquidityAfter quote - position_liquidity p (qt_TickAfter quote)) (ApplySwap p quote timestamp)"
  by (rule pool_okI [OF assms]) (simp_all add: ApplySwap_view)

lemma ProcessSwapEvent_ok:
  assumes "pool_ok e p"
  shows "pool_ok (eventLiquidity - position_liquidity p eventTick) (ProcessSwapEvent p quote eventSqrt eventTick eventLiquidity timestamp)"
  using ApplySwap_view [of p quote timestamp]
  by (intro pool_okI [OF assms]) (simp_all add: ProcessSwapEvent_def Let_def cloned_tick_def)

lemma Restore_ok:
  assumes "pool_ok e r" "Snapshot r = Inr s"
  shows "pool_ok e (Restore p s)"
  using assms(2) pool_okD(4) [OF assms(1)]
  by (intro pool_okI [OF assms(1)]) (auto simp: Snapshot_def Restore_def cloned_tick_def split: if_splits)

lemma pool_reachable_ok: "pool_reachable log_tick pool e p \<Longrightarrow> pool_ok e p"
  by (induction rule: pool_reachable.induct) (auto intro: new_pool_ok pool_step_ok ApplySwap_ok ProcessSwapEvent_ok Restore_ok)

section \<open>Fees\<close>

definition fee_rates_ok :: "PoolProfiler \<Rightarrow> bool" where
  "fee_rates_ok p \<longleftrightarrow> uint (pool_Fee (Pool p)) \<le> 1000000
     \<and> (\<forall>b \<in> set_option (st_FeeProtocol0BasisPoints (State p)) \<union> set_option (st_FeeProtocol1BasisPoints (State p)). uint b \<le> 10000)"

lemma part_of: "0 \<le> (t :: int) \<Longrightarrow> 0 \<le> n \<Longrightarrow> n \<le> d \<Longrightarrow> 0 < d \<Longrightarrow> 0 \<le> (t * n) sdiv d \<and> (t * n) sdiv d \<le> t"
  using mult_left_mono [of n d t] le_div_iff [of d 0 "t * n"] div_less_iff [of d "t * n" "t + 1"]
  by (simp add: quo_rem_nonneg algebra_simps)

lemma splitFee_parts:
  assumes "fee_rates_ok p" "0 \<le> t" "splitFee p t token0 = (protocol, lp)"
  shows "protocol + lp = t" "0 \<le> protocol" "0 \<le> lp"
proof -
  have d: "0 \<le> t sdiv n" "t sdiv n \<le> t" if "0 < n" for n :: int
    using part_of [OF assms(2), of 1 n] that by simp_all
  have w: "0 < uint x" if "x \<noteq> 0" for x :: u8 using that by (metis uint_0_iff uint_ge_0 order_less_le)
  have "0 \<le> protocol \<and> protocol \<le> t"
    using assms d w part_of [OF assms(2), of _ 10000]
    by (auto simp: splitFee_def Let_def fee_rates_ok_def split: option.splits if_splits)
  then show "protocol + lp = t" "0 \<le> protocol" "0 \<le> lp" using assms(3) by (auto simp: splitFee_def Let_def)
qed

section \<open>A sample pool\<close>

definition sample_pool :: AnalysisPool where
  "sample_pool = \<lparr>pool_InstrumentID = ''WETH/USDC'', pool_Identifier = ''0xpool'', pool_Fee = 3000, pool_TickSpacing = 60,
     pool_InitialSqrt = None, pool_InitialTick = 0, pool_FeeModel = FeeModelUniswap\<rparr>"

text \<open>The pool at price one, with \<open>a\<close> holding the given liquidity between the ticks -60 and 60.\<close>

definition sample_opened :: "int \<Rightarrow> pool_error + PoolProfiler" where
  "sample_opened l = (case Initialize (\<lambda>_. 0) (NewPoolProfiler sample_pool) (Some (2 ^ 96)) of Inl e \<Rightarrow> Inl e
     | Inr p \<Rightarrow> Mint p ''a'' (- 60) 60 (Some l) None None 7)"

lemma sample_opened_reachable: "sample_opened l = Inr p \<Longrightarrow> pool_reachable (\<lambda>_. 0) sample_pool 0 p"
  unfolding sample_opened_def
  by (auto split: sum.splits intro: pool_reachable.own_step [OF pool_reachable.own_step [OF pool_reachable.start]] initialize mint)

lemma sample_opened_evaluated:
  "case sample_opened 1000 of Inl _ \<Rightarrow> False | Inr p \<Rightarrow> pp_Initialized p \<and> validateTicks p (- 60) 60 = None
     \<and> liq (Positions p) (''a'', - 60, 60) = 1000 \<and> ActiveLiquidity p = 1000 \<and> position_liquidity p 0 = 1000
     \<and> at_LiquidityNet (fst (pool_Tick p 60)) = - 1000"
  by code_simp

section \<open>Properties\<close>

text \<open>
  C32. Liquidity follows the positions. In every state a profiler can be brought to by any of its operations, swap events,
  applied quotes, restored snapshots and negative burns included, the gross liquidity of a tick is the liquidity of the
  positions that start or end there, its net liquidity is what starts less what ends there, and no position has negative
  liquidity. The active liquidity is that of the positions whose range holds the current tick plus the drift: zero until a swap
  event or an applied quote reports another liquidity than that of the positions at its tick, kept by initializing, minting,
  burning, collecting, fee operations and executed swaps, and restored with a snapshot.
\<close>

theorem pool_liquidity_follows_positions:
  assumes "pool_reachable log_tick pool e p"
  shows "at_LiquidityGross (fst (pool_Tick p t))
      = (\<Sum>(owner, lower, upper)\<in>fset (fmdom (Positions p)). (of_bool (lower = t) + of_bool (upper = t)) * liq (Positions p) (owner, lower, upper))
    \<and> at_LiquidityNet (fst (pool_Tick p t))
      = (\<Sum>(owner, lower, upper)\<in>fset (fmdom (Positions p)). (of_bool (lower = t) - of_bool (upper = t)) * liq (Positions p) (owner, lower, upper))
    \<and> ActiveLiquidity p
      = (\<Sum>(owner, lower, upper)\<in>fset (fmdom (Positions p)).
           of_bool (lower \<le> st_CurrentTick (State p) \<and> st_CurrentTick (State p) < upper) * liq (Positions p) (owner, lower, upper)) + e
    \<and> 0 \<le> liq (Positions p) k"
  using pool_okD [OF pool_reachable_ok [OF assms]]
  by (simp add: pool_Tick_def ActiveLiquidity_def position_liquidity_def weighted_def weight_defs split_beta)

text \<open>A swap event that reports 316 while the only position, at its tick, holds 1000.\<close>

theorem pool_liquidity_follows_positions_witness:
  "\<exists>p q. pool_reachable (\<lambda>_. 0) sample_pool 0 p \<and> ActiveLiquidity p = 1000
     \<and> q = ProcessSwapEvent p (QuoteSwap p (Some 10) True) (2 ^ 96) 0 316 9 \<and> pool_reachable (\<lambda>_. 0) sample_pool (- 684) q
     \<and> at_LiquidityNet (fst (pool_Tick q 60))
       = (\<Sum>(owner, lower, upper)\<in>fset (fmdom (Positions q)). (of_bool (lower = 60) - of_bool (upper = 60)) * liq (Positions q) (owner, lower, upper))"
proof -
  obtain p where p: "sample_opened 1000 = Inr p" "ActiveLiquidity p = 1000" "position_liquidity p 0 = 1000"
    using sample_opened_evaluated by (auto split: sum.splits)
  note r = sample_opened_reachable [OF p(1)]
  let ?q = "ProcessSwapEvent p (QuoteSwap p (Some 10) True) (2 ^ 96) 0 316 9"
  have q: "pool_reachable (\<lambda>_. 0) sample_pool (- 684) ?q"
    using swap_event [OF r, of 316 0 "QuoteSwap p (Some 10) True" "2 ^ 96" 9] p(3) by simp
  show ?thesis using r p(2) q conjunct1 [OF conjunct2 [OF pool_liquidity_follows_positions [OF q, of 60]]] by blast
qed

text \<open>
  C33. Burning does not underflow. In every state a profiler can be brought to, burning any unsigned part of a position's
  liquidity on a valid tick range succeeds, provided that the range does not hold the current tick or that the swap events so far
  have not left the active liquidity below that of the positions (a drift below zero). It takes exactly that part from
  the position, from the gross liquidity of its two ticks, and from the active liquidity when the range holds the current tick.
\<close>

theorem burn_never_underflows:
  assumes "pool_reachable log_tick pool e p" "pp_Initialized p" "validateTicks p lower upper = None"
    "0 \<le> l" "l \<le> liq (Positions p) (owner, lower, upper)" "is_active p lower upper \<longrightarrow> 0 \<le> e"
  shows "\<exists>q. Burn p owner lower upper l amount0 amount1 timestamp = Inr q \<and> pool_reachable log_tick pool e q
    \<and> liq (Positions q) (owner, lower, upper) = liq (Positions p) (owner, lower, upper) - l
    \<and> st_Liquidity (State q) = st_Liquidity (State p) - (if is_active p lower upper then l else 0)
    \<and> (\<forall>t \<in> {lower, upper}. at_LiquidityGross (fst (pool_Tick q t)) = at_LiquidityGross (fst (pool_Tick p t)) - l)"
proof -
  let ?k = "(owner, lower, upper)"
  note ok = pool_reachable_ok [OF assms(1)]
  have "liq (Positions p) ?k \<le> at_LiquidityGross (cloned_tick p t)" if "t = lower \<or> t = upper" for t
    using that ok by (subst pool_okD(2)) (auto intro!: weighted_ge simp: weight_defs)
  moreover have "liq (Positions p) ?k \<le> st_Liquidity (State p)" if "is_active p lower upper"
    using that assms(6) weighted_ge [OF ok, of "active_weight (st_CurrentTick (State p))" ?k] pool_okD(4) [OF ok]
    by (auto simp: weight_defs is_active_def position_liquidity_def)
  ultimately have g: "\<not> at_LiquidityGross (cloned_tick p lower) < l" "\<not> at_LiquidityGross (cloned_tick p upper) < l"
    "is_active p lower upper \<Longrightarrow> \<not> st_Liquidity (State p) < l" using assms(5) by fastforce+
  then obtain q where q: "Burn p owner lower upper l amount0 amount1 timestamp = Inr q"
    using assms(2,3,5) by (auto simp: Burn_def Let_def)
  have r: "pool_reachable log_tick pool e q" using own_step [OF assms(1) burn [OF q]] .
  have w: "weighted w (Positions q) = weighted w (Positions p) - w ?k * l" for w
  proof -
    have "ap_Liquidity (the (fmlookup (Positions q) ?k)) = liq (Positions q) ?k" by (subst (2) Burn_Inr(5) [OF q]) simp
    then show ?thesis by (subst Burn_Inr(5) [OF q]) (simp add: weighted_upd Burn_Inr(6) [OF q])
  qed
  have "\<forall>t \<in> {lower, upper}. at_LiquidityGross (fst (pool_Tick q t)) = at_LiquidityGross (fst (pool_Tick p t)) - l"
    using Burn_Inr(2) [OF q] by (auto simp: pool_Tick_def pool_okD(2) [OF ok] pool_okD(2) [OF pool_reachable_ok [OF r]] w gross_weight_def)
  with Burn_Inr(6,9) [OF q] q r show ?thesis by auto
qed

theorem burn_never_underflows_witness:
  "\<exists>p q. pool_reachable (\<lambda>_. 0) sample_pool 0 p \<and> Burn p ''a'' (- 60) 60 400 None None 8 = Inr q
     \<and> liq (Positions q) (''a'', - 60, 60) = 600"
proof -
  obtain p where p: "sample_opened 1000 = Inr p" "pp_Initialized p" "validateTicks p (- 60) 60 = None" "liq (Positions p) (''a'', - 60, 60) = 1000"
    using sample_opened_evaluated by (auto split: sum.splits)
  from burn_never_underflows [OF sample_opened_reachable [OF p(1)] p(2,3), of 400 "''a''" None None 8] p(4) sample_opened_reachable [OF p(1)]
  show ?thesis by auto
qed

text \<open>The proviso is needed: after a swap event that reports 316, burning 400 of a position of 1000 is refused.\<close>

lemma burn_refused_after_low_event:
  "case sample_opened 1000 of Inl _ \<Rightarrow> False | Inr p \<Rightarrow>
     (case Burn (ProcessSwapEvent p (QuoteSwap p (Some 10) True) (2 ^ 96) 0 316 9) ''a'' (- 60) 60 400 None None 10 of
        Inl _ \<Rightarrow> True | Inr _ \<Rightarrow> False)"
  by code_simp

text \<open>
  C34. A quoted swap conserves value: with a pool fee of at most 100% and protocol shares of at most 100%, what goes in is what comes out
  plus the fee of the liquidity providers plus the protocol fee, no fee is negative and together they do not exceed the
  amount; executing the swap adds exactly the protocol fee to the protocol's account of the input token.
\<close>

theorem quote_conserves_value:
  assumes "fee_rates_ok p" "QuoteSwap p amount zeroForOne = q" "ExecuteSwap p amount zeroForOne timestamp = (p', q')"
  shows "q' = q \<and> qt_Amount0 q + qt_Amount1 q = qt_LPFee q + qt_ProtocolFee q
    \<and> (if zeroForOne then qt_Amount0 q else qt_Amount1 q) = \<bar>zeroBig amount\<bar>
    \<and> 0 \<le> qt_LPFee q \<and> 0 \<le> qt_ProtocolFee q \<and> qt_LPFee q + qt_ProtocolFee q \<le> \<bar>zeroBig amount\<bar>
    \<and> st_ProtocolFeesToken0 (State p') = st_ProtocolFeesToken0 (State p) + (if zeroForOne then qt_ProtocolFee q else 0)
    \<and> st_ProtocolFeesToken1 (State p') = st_ProtocolFeesToken1 (State p) + (if zeroForOne then 0 else qt_ProtocolFee q)"
proof -
  define a f where "a = \<bar>zeroBig amount\<bar>" and "f = (a * uint (pool_Fee (Pool p))) sdiv 1000000"
  define t where "t = (if f = 0 \<and> 0 < a \<and> 0 < pool_Fee (Pool p) then 1 else f)"
  have a: "0 \<le> a" by (simp add: a_def)
  then have "0 \<le> f \<and> f \<le> a" using part_of [OF a, of "uint (pool_Fee (Pool p))" 1000000] assms(1) by (simp add: f_def fee_rates_ok_def)
  then have t: "0 \<le> t" "t \<le> a" "a = 0 \<Longrightarrow> t = 0" by (auto simp: t_def)
  obtain protocol lp where s: "splitFee p t zeroForOne = (protocol, lp)" by fastforce
  note parts = splitFee_parts [OF assms(1) t(1) s]
  have q: "qt_LPFee q = lp" "qt_ProtocolFee q = protocol" "qt_Amount0 q = (if zeroForOne then a else - (a - t))"
    "qt_Amount1 q = (if zeroForOne then - (a - t) else a)"
    unfolding assms(2) [symmetric] QuoteSwap_def Let_def a_def [symmetric] f_def [symmetric] t_def [symmetric] s prod.case split_beta
    by simp_all
  have e: "q' = q" "p' = ApplySwap p q timestamp" using assms(3) unfolding ExecuteSwap_def Let_def assms(2) by auto
  have "protocol = 0" if "a = 0" using that t(3) parts by simp
  then show ?thesis using parts t a q by (auto simp: e ApplySwap_def Let_def a_def [symmetric])
qed

theorem quote_conserves_value_witness:
  "fee_rates_ok (NewPoolProfiler sample_pool) \<and> (let q = QuoteSwap (NewPoolProfiler sample_pool) (Some 100000) True in
     qt_Amount0 q + qt_Amount1 q = qt_LPFee q + qt_ProtocolFee q \<and> qt_Amount0 q = 100000)"
proof -
  have ok: "fee_rates_ok (NewPoolProfiler sample_pool)" by (simp add: fee_rates_ok_def NewPoolProfiler_def sample_pool_def)
  from quote_conserves_value [OF ok refl, of "Some 100000" True 1] ok show ?thesis
    by (simp add: zeroBig_def Let_def) (metis prod.collapse)
qed

section \<open>Two gaps in the guards\<close>

text \<open>
  Minting checks the cap per tick for the lower tick only: a second position ending on the same tick pushes its gross
  liquidity over the cap. A burn with a negative liquidity is accepted and adds liquidity without any check.
\<close>

definition sample_cap :: int where "sample_cap = 11505743598341114571880798222544994"

theorem mint_ignores_upper_tick_cap:
  "TickSpacingToMaxLiquidityPerTick 60 = Inr sample_cap
   \<and> (case sample_opened sample_cap of Inl _ \<Rightarrow> False | Inr p \<Rightarrow>
      (case Mint p ''b'' 0 60 (Some sample_cap) None None 8 of Inl _ \<Rightarrow> False
       | Inr q \<Rightarrow> at_LiquidityGross (fst (pool_Tick q 60)) = 2 * sample_cap))"
  by code_simp

theorem burn_accepts_negative_liquidity:
  "case sample_opened sample_cap of Inl _ \<Rightarrow> False | Inr p \<Rightarrow>
     (case Burn p ''a'' (- 60) 60 (- (2 ^ 128)) None None 8 of Inl _ \<Rightarrow> False
      | Inr q \<Rightarrow> liq (Positions q) (''a'', - 60, 60) = sample_cap + 2 ^ 128)"
  by code_simp

end
