(* ===== verification/Sha256.thy ===== *)
theory Sha256
  imports Prelude
begin

text \<open>
  Go's \<open>crypto/sha256\<close> as FIPS 180-4 defines it, on 32-bit words. The engine uses it to derive
  identities (\<open>IDFromSequence\<close>) and to chain its state hashes. Nothing in the development assumes
  that the function is collision free.
\<close>

unbundle bit_operations_syntax

text \<open>The round constants and the initial value, two of the 32-bit constants to a literal.\<close>

definition halves :: "u64 \<Rightarrow> u32 list" where
  "halves w = [ucast (drop_bit 32 w), ucast w]"

definition sha_K :: "u32 list" where
  "sha_K = concat (map halves [
      0x428a2f9871374491, 0xb5c0fbcfe9b5dba5, 0x3956c25b59f111f1, 0x923f82a4ab1c5ed5,
      0xd807aa9812835b01, 0x243185be550c7dc3, 0x72be5d7480deb1fe, 0x9bdc06a7c19bf174,
      0xe49b69c1efbe4786, 0x0fc19dc6240ca1cc, 0x2de92c6f4a7484aa, 0x5cb0a9dc76f988da,
      0x983e5152a831c66d, 0xb00327c8bf597fc7, 0xc6e00bf3d5a79147, 0x06ca635114292967,
      0x27b70a852e1b2138, 0x4d2c6dfc53380d13, 0x650a7354766a0abb, 0x81c2c92e92722c85,
      0xa2bfe8a1a81a664b, 0xc24b8b70c76c51a3, 0xd192e819d6990624, 0xf40e3585106aa070,
      0x19a4c1161e376c08, 0x2748774c34b0bcb5, 0x391c0cb34ed8aa4a, 0x5b9cca4f682e6ff3,
      0x748f82ee78a5636f, 0x84c878148cc70208, 0x90befffaa4506ceb, 0xbef9a3f7c67178f2])"

definition sha_H0 :: "u32 list" where
  "sha_H0 = concat (map halves [
      0x6a09e667bb67ae85, 0x3c6ef372a54ff53a, 0x510e527f9b05688c, 0x1f83d9ab5be0cd19])"

definition sha_ch :: "u32 \<Rightarrow> u32 \<Rightarrow> u32 \<Rightarrow> u32" where
  "sha_ch x y z = ((x AND y) XOR (NOT x AND z))"

definition sha_maj :: "u32 \<Rightarrow> u32 \<Rightarrow> u32 \<Rightarrow> u32" where
  "sha_maj x y z = ((x AND y) XOR (x AND z) XOR (y AND z))"

definition sha_S0 :: "u32 \<Rightarrow> u32" where
  "sha_S0 x = (word_rotr 2 x XOR word_rotr 13 x XOR word_rotr 22 x)"

definition sha_S1 :: "u32 \<Rightarrow> u32" where
  "sha_S1 x = (word_rotr 6 x XOR word_rotr 11 x XOR word_rotr 25 x)"

definition sha_s0 :: "u32 \<Rightarrow> u32" where
  "sha_s0 x = (word_rotr 7 x XOR word_rotr 18 x XOR drop_bit 3 x)"

definition sha_s1 :: "u32 \<Rightarrow> u32" where
  "sha_s1 x = (word_rotr 17 x XOR word_rotr 19 x XOR drop_bit 10 x)"

fun be_words :: "bytes \<Rightarrow> u32 list" where
  "be_words (a # b # c # d # bs) =
     (push_bit 24 (ucast a) OR push_bit 16 (ucast b) OR push_bit 8 (ucast c) OR ucast d)
     # be_words bs"
| "be_words _ = []"

text \<open>The message schedule: 48 more words, each from the words 2, 7, 15 and 16 places before it.\<close>

definition sha_schedule :: "u32 list \<Rightarrow> u32 list" where
  "sha_schedule ws = fold (\<lambda>i w. w @ [sha_s1 (w ! (i - 2)) + w ! (i - 7)
      + sha_s0 (w ! (i - 15)) + w ! (i - 16)]) [16..<64] ws"

fun sha_round :: "u32 \<times> u32 \<Rightarrow> u32 list \<Rightarrow> u32 list" where
  "sha_round (k, w) [a, b, c, d, e, f, g, h] =
     (let t1 = h + sha_S1 e + sha_ch e f g + k + w;
          t2 = sha_S0 a + sha_maj a b c
      in [t1 + t2, a, b, c, d + t1, e, f, g])"
| "sha_round _ v = v"

definition sha_block :: "bytes \<Rightarrow> u32 list \<Rightarrow> u32 list" where
  "sha_block block h = map2 (+) h (fold sha_round (zip sha_K (sha_schedule (be_words block))) h)"

definition sha_pad :: "bytes \<Rightarrow> bytes" where
  "sha_pad m = m @ [0x80] @ replicate ((119 - length m mod 64) mod 64) 0
     @ PutUint64 (of_nat (8 * length m))"

function sha_blocks :: "bytes \<Rightarrow> u32 list \<Rightarrow> u32 list" where
  "sha_blocks m h = (if m = [] then h else sha_blocks (drop 64 m) (sha_block (take 64 m) h))"
  by pat_completeness auto
termination
  by (relation "measure (\<lambda>(m, h). length m)") auto

declare sha_blocks.simps [simp del]

definition sha256 :: "bytes \<Rightarrow> bytes" where
  "sha256 m = concat (map PutUint32 (sha_blocks (sha_pad m) sha_H0))"

lemma length_PutUint32 [simp]: "length (PutUint32 w) = 4"
  by (simp add: PutUint32_def)

lemma length_sha_round [simp]: "length (sha_round kw v) = length v"
  by (induction kw v rule: sha_round.induct) (auto simp: Let_def)

lemma length_fold_sha_round [simp]: "length (fold sha_round kws v) = length v"
  by (induction kws arbitrary: v) auto

lemma length_sha_block [simp]: "length (sha_block b h) = length h"
  by (simp add: sha_block_def)

lemma length_sha_blocks [simp]: "length (sha_blocks m h) = length h"
  by (induction m h rule: sha_blocks.induct) (subst sha_blocks.simps, simp)

text \<open>A digest always has the 32 bytes of a \<open>Hash\<close>.\<close>

lemma length_sha256 [simp]: "length (sha256 m) = 32"
proof -
  have "length (concat (map PutUint32 ws)) = 4 * length ws" for ws
    by (induction ws) auto
  then show ?thesis by (simp add: sha256_def sha_H0_def halves_def)
qed

end
