(* ===== verification/Apd.thy ===== *)
theory Apd
  imports Prelude
begin

text \<open>
  The decimal library \<open>github.com/cockroachdb/apd/v3\<close> that the source wraps is not part of the
  repository. It enters the model as the parameter \<open>X :: Extern\<close>: one field per operation the source
  calls. The locale \<open>apd_lib\<close> states what the documentation of the library promises of these
  operations (decimal values are \<open>(-1)^Negative * Coeff * 10^Exponent\<close>; arithmetic follows the
  General Decimal Arithmetic rules: a result that needs no rounding and stays within the exponent
  limits is exact and raises no condition, and a result that was changed raises \<open>Inexact\<close> or
  \<open>Rounded\<close>). The reference instance \<open>apd_ref\<close> is an executable implementation of these rules; it
  shows that the laws can hold and is what the witnesses of the properties compute with.
  Besides the library, \<open>Extern\<close> carries two formatting functions whose text enters a state hash but
  no decision: \<open>strconv.Quote\<close> and the text of a wrapped error.
\<close>

section \<open>Data of the library\<close>

datatype apd_Form = Finite | Infinite | NaNSignaling | NaN

record apd_Decimal =
  Form :: apd_Form
  Negative :: bool
  Exponent :: int
  Coeff :: nat

datatype apd_Flag = SystemOverflow | SystemUnderflow | Overflow | Underflow | Inexact | Subnormal
  | Rounded | DivisionUndefined | DivisionByZero | DivisionImpossible | InvalidOperation | Clamped

type_synonym apd_Condition = "apd_Flag set"

datatype apd_Rounder = apd_RoundHalfEven | apd_RoundDown | apd_RoundOther string

record apd_Context =
  ctx_Precision :: nat
  ctx_MaxExponent :: int
  ctx_MinExponent :: int
  ctx_Traps :: apd_Condition
  ctx_Rounding :: apd_Rounder

text \<open>Result, condition flags and whether an error was returned.\<close>

type_synonym apd_outcome = "apd_Decimal \<times> apd_Condition \<times> bool"

record Extern =
  x_NewFromString :: "string \<Rightarrow> (apd_Decimal \<times> apd_Condition) option"
  x_NewWithBigInt :: "int \<Rightarrow> int \<Rightarrow> apd_Decimal"
  x_SetInt64 :: "int \<Rightarrow> apd_Decimal"
  x_Set :: "apd_Decimal \<Rightarrow> apd_Decimal"
  x_Reduce :: "apd_Decimal \<Rightarrow> apd_Decimal"
  x_NumDigits :: "apd_Decimal \<Rightarrow> int"
  x_IsZero :: "apd_Decimal \<Rightarrow> bool"
  x_Sign :: "apd_Decimal \<Rightarrow> int"
  x_Cmp :: "apd_Decimal \<Rightarrow> apd_Decimal \<Rightarrow> int"
  x_Text :: "apd_Decimal \<Rightarrow> string"
  x_BaseContext :: apd_Context
  x_Add :: "apd_Context \<Rightarrow> apd_Decimal \<Rightarrow> apd_Decimal \<Rightarrow> apd_outcome"
  x_Sub :: "apd_Context \<Rightarrow> apd_Decimal \<Rightarrow> apd_Decimal \<Rightarrow> apd_outcome"
  x_Mul :: "apd_Context \<Rightarrow> apd_Decimal \<Rightarrow> apd_Decimal \<Rightarrow> apd_outcome"
  x_Quantize :: "apd_Context \<Rightarrow> apd_Decimal \<Rightarrow> int \<Rightarrow> apd_outcome"
  x_Quote :: "string \<Rightarrow> string"
  x_ErrorText :: "go_error \<Rightarrow> string"

section \<open>The value of a decimal\<close>

definition scoef :: "apd_Decimal \<Rightarrow> int" where
  "scoef d = (if Negative d then - int (Coeff d) else int (Coeff d))"

definition dval :: "apd_Decimal \<Rightarrow> rat" where
  "dval d = of_int (scoef d) * 10 powi Exponent d"

text \<open>The coefficient of \<open>d\<close> written with the exponent \<open>e\<close>, for \<open>e\<close> at most its own.\<close>

definition scoef_at :: "int \<Rightarrow> apd_Decimal \<Rightarrow> int" where
  "scoef_at e d = scoef d * 10 ^ nat (Exponent d - e)"

definition mk_finite :: "int \<Rightarrow> int \<Rightarrow> apd_Decimal" where
  "mk_finite c e = \<lparr>Form = Finite, Negative = c < 0, Exponent = e, Coeff = nat \<bar>c\<bar>\<rparr>"

text \<open>An integer coefficient with an exponent that the context represents without rounding.\<close>

definition fits :: "apd_Context \<Rightarrow> int \<Rightarrow> int \<Rightarrow> bool" where
  "fits ctx c e = (if c = 0 then ctx_MinExponent ctx \<le> e \<and> e \<le> ctx_MaxExponent ctx
     else ndigits (nat \<bar>c\<bar>) \<le> ctx_Precision ctx
       \<and> ctx_MinExponent ctx \<le> e + int (ndigits (nat \<bar>c\<bar>)) - 1
       \<and> e + int (ndigits (nat \<bar>c\<bar>)) - 1 \<le> ctx_MaxExponent ctx)"

section \<open>Plain decimal notation\<close>

definition plain_body :: "string \<Rightarrow> string" where
  "plain_body s = (case s of c # t \<Rightarrow> if c = CHR ''-'' then t else s | [] \<Rightarrow> [])"

definition plain_frac :: "string \<Rightarrow> string" where
  "plain_frac s = tl (dropWhile is_digit (plain_body s))"

definition plain_whole :: "string \<Rightarrow> string" where
  "plain_whole s = takeWhile is_digit (plain_body s)"

text \<open>An optional minus sign, digits, and optionally a point followed by digits.\<close>

definition plain_decimal :: "string \<Rightarrow> bool" where
  "plain_decimal s = (plain_whole s \<noteq> [] \<and>
     (case dropWhile is_digit (plain_body s) of [] \<Rightarrow> True
      | c # t \<Rightarrow> c = CHR ''.'' \<and> t \<noteq> [] \<and> list_all is_digit t))"

definition plain_value :: "string \<Rightarrow> apd_Decimal" where
  "plain_value s = \<lparr>Form = Finite, Negative = (s \<noteq> [] \<and> hd s = CHR ''-''),
     Exponent = - int (length (plain_frac s)),
     Coeff = digits_value (plain_whole s @ plain_frac s)\<rparr>"

text \<open>The format \<open>'f'\<close>: sign, digits and point, never an exponent.\<close>

definition plain_text :: "apd_Decimal \<Rightarrow> string" where
  "plain_text d = (if Negative d then ''-'' else '''') @
     (let ds = nat_text (Coeff d); k = nat (- Exponent d) in
      if 0 \<le> Exponent d then ds @ replicate (nat (Exponent d)) (CHR ''0'')
      else if k < length ds then take (length ds - k) ds @ ''.'' @ drop (length ds - k) ds
      else ''0.'' @ replicate (k - length ds) (CHR ''0'') @ ds)"

section \<open>The documented laws\<close>

locale apd_lib =
  fixes X :: Extern
  assumes NewFromString_plain: "plain_decimal s \<Longrightarrow> x_NewFromString X s = Some (plain_value s, {})"
    and NewWithBigInt: "x_NewWithBigInt X c e = mk_finite c e"
    and SetInt64: "x_SetInt64 X c = mk_finite c 0"
    and Set_copies: "x_Set X d = d"
    and Reduce_nonzero: "Form d = Finite \<Longrightarrow> Coeff d \<noteq> 0 \<Longrightarrow>
      Form (x_Reduce X d) = Finite \<and> Negative (x_Reduce X d) = Negative d
      \<and> dval (x_Reduce X d) = dval d \<and> \<not> 10 dvd Coeff (x_Reduce X d)"
    and Reduce_zero: "Form d = Finite \<Longrightarrow> Coeff d = 0 \<Longrightarrow>
      Form (x_Reduce X d) = Finite \<and> Coeff (x_Reduce X d) = 0"
    and NumDigits: "Form d = Finite \<Longrightarrow> Coeff d \<noteq> 0 \<Longrightarrow> x_NumDigits X d = int (ndigits (Coeff d))"
    and IsZero: "Form d = Finite \<Longrightarrow> x_IsZero X d = (Coeff d = 0)"
    and Sign: "Form d = Finite \<Longrightarrow> x_Sign X d = sgn (scoef d)"
    and Cmp: "Form a = Finite \<Longrightarrow> Form b = Finite \<Longrightarrow>
      x_Cmp X a b = (if dval a < dval b then -1 else if dval a = dval b then 0 else 1)"
    and Text: "Form d = Finite \<Longrightarrow> Coeff d \<noteq> 0 \<Longrightarrow> x_Text X d = plain_text d"
    and Add_exact: "Form a = Finite \<Longrightarrow> Form b = Finite \<Longrightarrow> x_Add X ctx a b = (r, fl, False) \<Longrightarrow>
      Inexact \<notin> fl \<Longrightarrow> Rounded \<notin> fl \<Longrightarrow> Form r = Finite \<and> dval r = dval a + dval b"
    and Sub_exact: "Form a = Finite \<Longrightarrow> Form b = Finite \<Longrightarrow> x_Sub X ctx a b = (r, fl, False) \<Longrightarrow>
      Inexact \<notin> fl \<Longrightarrow> Rounded \<notin> fl \<Longrightarrow> Form r = Finite \<and> dval r = dval a - dval b"
    and Mul_exact: "Form a = Finite \<Longrightarrow> Form b = Finite \<Longrightarrow> x_Mul X ctx a b = (r, fl, False) \<Longrightarrow>
      Inexact \<notin> fl \<Longrightarrow> Rounded \<notin> fl \<Longrightarrow> Form r = Finite \<and> dval r = dval a * dval b"
    and Add_fits: "Form a = Finite \<Longrightarrow> Form b = Finite \<Longrightarrow> e = min (Exponent a) (Exponent b) \<Longrightarrow>
      fits ctx (scoef_at e a + scoef_at e b) e \<Longrightarrow> \<exists>r. x_Add X ctx a b = (r, {}, False)"
    and Sub_fits: "Form a = Finite \<Longrightarrow> Form b = Finite \<Longrightarrow> e = min (Exponent a) (Exponent b) \<Longrightarrow>
      fits ctx (scoef_at e a - scoef_at e b) e \<Longrightarrow> \<exists>r. x_Sub X ctx a b = (r, {}, False)"
    and Mul_fits: "Form a = Finite \<Longrightarrow> Form b = Finite \<Longrightarrow>
      fits ctx (scoef a * scoef b) (Exponent a + Exponent b) \<Longrightarrow>
      \<exists>r. x_Mul X ctx a b = (r, {}, False)"

section \<open>Elementary facts about values\<close>

lemma dval_scoef_at: "e \<le> Exponent d \<Longrightarrow> dval d = of_int (scoef_at e d) * 10 powi e"
proof -
  assume "e \<le> Exponent d"
  then have "Exponent d = int (nat (Exponent d - e)) + e" by simp
  then have "(10 :: rat) powi Exponent d = 10 ^ nat (Exponent d - e) * 10 powi e"
    by (metis power_int_add power_int_of_nat zero_neq_numeral)
  then show ?thesis by (simp add: dval_def scoef_at_def)
qed

lemma dval_mk_finite [simp]: "dval (mk_finite c e) = of_int c * 10 powi e"
  by (simp add: dval_def scoef_def mk_finite_def)

lemma mk_finite_sel [simp]: "Form (mk_finite c e) = Finite" "Exponent (mk_finite c e) = e"
  "scoef (mk_finite c e) = c" "Coeff (mk_finite c e) = nat \<bar>c\<bar>"
  by (simp_all add: mk_finite_def scoef_def)

lemma sgn_dval: "sgn (dval d) = of_int (sgn (scoef d))"
  by (simp add: dval_def sgn_mult) (simp add: sgn_if)

lemma dval_eq_0_iff: "dval d = 0 \<longleftrightarrow> Coeff d = 0"
  by (simp add: dval_def scoef_def)

lemma dval_compare:
  "dval a < dval b \<longleftrightarrow> scoef_at (min (Exponent a) (Exponent b)) a
     < scoef_at (min (Exponent a) (Exponent b)) b"
  by (simp add: dval_scoef_at [of "min (Exponent a) (Exponent b)"] power_int_def)

lemma dval_compare_eq:
  "dval a = dval b \<longleftrightarrow> scoef_at (min (Exponent a) (Exponent b)) a
     = scoef_at (min (Exponent a) (Exponent b)) b"
  by (metis dval_compare linorder_cases min.commute order_less_irrefl)

section \<open>The shape of plain notation\<close>

text \<open>The shape of plain notation: sign, whole digits, and the fraction digits behind a point.\<close>

definition plain_form :: "bool \<Rightarrow> string \<Rightarrow> string \<Rightarrow> string" where
  "plain_form neg w f = (if neg then ''-'' else '''') @ w @ (if f = [] then [] else CHR ''.'' # f)"

lemma digit_hd: "list_all is_digit w \<Longrightarrow> w \<noteq> [] \<Longrightarrow> is_digit (hd w)"
  by (cases w) auto

lemma plain_body_form:
  assumes "list_all is_digit w" "w \<noteq> []"
  shows "plain_body (plain_form neg w f) = w @ (if f = [] then [] else CHR ''.'' # f)"
    and "hd (plain_form neg w f) = CHR ''-'' \<longleftrightarrow> neg"
proof -
  obtain c w' where w: "w = c # w'" using assms(2) by (cases w) auto
  then have "c \<noteq> CHR ''-''" using assms(1) not_digit by auto
  with w show "plain_body (plain_form neg w f) = w @ (if f = [] then [] else CHR ''.'' # f)"
    and "hd (plain_form neg w f) = CHR ''-'' \<longleftrightarrow> neg"
    by (simp_all add: plain_form_def plain_body_def)
qed

lemma plain_form_parts:
  assumes "list_all is_digit w" "w \<noteq> []" "list_all is_digit f"
  shows "plain_whole (plain_form neg w f) = w" "plain_frac (plain_form neg w f) = f"
    "dropWhile is_digit (plain_body (plain_form neg w f)) = (if f = [] then [] else CHR ''.'' # f)"
  using takeWhile_digits [OF assms(1), of f] takeWhile_digits_all [OF assms(1)]
  by (auto simp: plain_whole_def plain_frac_def plain_body_form [OF assms(1,2)])

lemma plain_value_form:
  assumes "list_all is_digit w" "w \<noteq> []" "list_all is_digit f"
  shows "plain_value (plain_form neg w f) = \<lparr>Form = Finite, Negative = neg,
    Exponent = - int (length f), Coeff = digits_value (w @ f)\<rparr>"
proof -
  have "plain_form neg w f \<noteq> []" using assms(2) by (simp add: plain_form_def)
  then show ?thesis using plain_form_parts [OF assms] plain_body_form(2) [OF assms(1,2)]
    by (simp add: plain_value_def)
qed

lemma plain_decimal_form:
  "list_all is_digit w \<Longrightarrow> w \<noteq> [] \<Longrightarrow> list_all is_digit f \<Longrightarrow> plain_decimal (plain_form neg w f)"
  using plain_form_parts [of w f neg] by (auto simp: plain_decimal_def)


lemma plain_text_form:
  assumes "Coeff d \<noteq> 0"
  obtains w f where "plain_text d = plain_form (Negative d) w f" "list_all is_digit w" "w \<noteq> []"
    "list_all is_digit f" "length f = nat (- Exponent d)"
    "digits_value (w @ f) = Coeff d * 10 ^ nat (Exponent d)"
    "length w + length f \<le> 1 + ndigits (Coeff d) + nat \<bar>Exponent d\<bar>"
proof -
  define ds where "ds = nat_text (Coeff d)"
  define k where "k = nat (- Exponent d)"
  have ds: "list_all is_digit ds" "ds \<noteq> []" "length ds = ndigits (Coeff d)" "digits_value ds = Coeff d"
    by (simp_all add: ds_def nat_text_digits length_nat_text digits_value_nat_text)
  consider (int) "0 \<le> Exponent d" | (point) "Exponent d < 0" "k < length ds"
    | (zeros) "Exponent d < 0" "length ds \<le> k" by linarith
  then show thesis
  proof cases
    case int
    let ?w = "ds @ replicate (nat (Exponent d)) (CHR ''0'')"
    have "plain_text d = plain_form (Negative d) ?w []"
      using int by (simp add: plain_text_def plain_form_def ds_def)
    then show thesis using int ds
      by (intro that [of ?w "[]"]) (auto simp: list_all_iff digits_value_append digits_value_zeros)
  next
    case point
    let ?w = "take (length ds - k) ds" and ?f = "drop (length ds - k) ds"
    have f: "?f \<noteq> []" using point by (simp add: k_def)
    have "plain_text d = plain_form (Negative d) ?w ?f"
      using point f by (simp add: plain_text_def plain_form_def ds_def k_def Let_def)
    then show thesis using point ds
      by (intro that [of ?w ?f])
        (auto simp: list_all_iff k_def dest: in_set_takeD in_set_dropD)
  next
    case zeros
    let ?f = "replicate (k - length ds) (CHR ''0'') @ ds"
    have "plain_text d = plain_form (Negative d) ''0'' ?f"
      using zeros ds(2) by (simp add: plain_text_def plain_form_def ds_def k_def Let_def)
    moreover have "digits_value (''0'' @ ?f) = Coeff d"
      using ds digits_value_zeros [of 1] digits_value_zeros [of "k - length ds"]
      by (simp only: digits_value_append) simp
    ultimately show thesis using zeros ds
      by (intro that [of "''0''" ?f]) (auto simp: list_all_iff k_def)
  qed
qed


section \<open>The reference instance\<close>

function strip_zeros :: "nat \<Rightarrow> int \<Rightarrow> nat \<times> int" where
  "strip_zeros c e = (if c = 0 \<or> c mod 10 \<noteq> 0 then (c, e) else strip_zeros (c div 10) (e + 1))"
  by pat_completeness auto
termination
  by (relation "measure fst") auto

declare strip_zeros.simps [simp del]

definition ref_reduce :: "apd_Decimal \<Rightarrow> apd_Decimal" where
  "ref_reduce d = (let (c, e) = strip_zeros (Coeff d) (Exponent d)
     in d\<lparr>Coeff := c, Exponent := (if c = 0 then 0 else e)\<rparr>)"

definition ref_outcome :: "apd_Context \<Rightarrow> int \<Rightarrow> int \<Rightarrow> apd_outcome" where
  "ref_outcome ctx c e = (if fits ctx c e then (mk_finite c e, {}, False)
     else (mk_finite c e, {Inexact, Rounded}, True))"

definition ref_cmp :: "apd_Decimal \<Rightarrow> apd_Decimal \<Rightarrow> int" where
  "ref_cmp a b = (let e = min (Exponent a) (Exponent b); x = scoef_at e a; y = scoef_at e b
     in if x < y then -1 else if x = y then 0 else 1)"

definition apd_ref :: Extern where
  "apd_ref = \<lparr>
     x_NewFromString = (\<lambda>s. if plain_decimal s then Some (plain_value s, {}) else None),
     x_NewWithBigInt = mk_finite,
     x_SetInt64 = (\<lambda>c. mk_finite c 0),
     x_Set = (\<lambda>d. d),
     x_Reduce = ref_reduce,
     x_NumDigits = (\<lambda>d. int (ndigits (Coeff d))),
     x_IsZero = (\<lambda>d. Coeff d = 0),
     x_Sign = (\<lambda>d. sgn (scoef d)),
     x_Cmp = ref_cmp,
     x_Text = plain_text,
     x_BaseContext = \<lparr>ctx_Precision = 0, ctx_MaxExponent = 100000, ctx_MinExponent = -100000,
       ctx_Traps = {}, ctx_Rounding = apd_RoundHalfEven\<rparr>,
     x_Add = (\<lambda>ctx a b. let e = min (Exponent a) (Exponent b)
       in ref_outcome ctx (scoef_at e a + scoef_at e b) e),
     x_Sub = (\<lambda>ctx a b. let e = min (Exponent a) (Exponent b)
       in ref_outcome ctx (scoef_at e a - scoef_at e b) e),
     x_Mul = (\<lambda>ctx a b. ref_outcome ctx (scoef a * scoef b) (Exponent a + Exponent b)),
     x_Quantize = (\<lambda>ctx d e. if e \<le> Exponent d then (mk_finite (scoef_at e d) e, {}, False)
       else (d, {InvalidOperation}, True)),
     x_Quote = (\<lambda>s. CHR 0x22 # s @ [CHR 0x22]),
     x_ErrorText = (\<lambda>e. '''')\<rparr>"

lemma strip_zeros_spec:
  "strip_zeros c e = (c', e') \<Longrightarrow> c \<noteq> 0 \<Longrightarrow>
     \<not> 10 dvd c' \<and> (of_nat c' :: rat) * 10 powi e' = of_nat c * 10 powi e"
proof (induction c e rule: strip_zeros.induct)
  case (1 c e)
  show ?case
  proof (cases "c mod 10 = 0")
    case True
    then have c: "c = 10 * (c div 10)" by presburger
    with 1 True have "\<not> 10 dvd c' \<and> (of_nat c' :: rat) * 10 powi e' = of_nat (c div 10) * 10 powi (e + 1)"
      by (subst (asm) (2) strip_zeros.simps) auto
    moreover have "(of_nat (c div 10) :: rat) * 10 powi (e + 1) = of_nat (10 * (c div 10)) * 10 powi e"
      by (simp add: power_int_add)
    ultimately show ?thesis using c by simp
  next
    case False
    with 1 show ?thesis by (subst (asm) (2) strip_zeros.simps) (auto simp: dvd_eq_mod_eq_0)
  qed
qed

lemma strip_zeros_0 [simp]: "strip_zeros 0 e = (0, e)"
  by (simp add: strip_zeros.simps)

lemma ref_reduce_nonzero:
  assumes "Form d = Finite" and "Coeff d \<noteq> 0"
  shows "Form (ref_reduce d) = Finite \<and> Negative (ref_reduce d) = Negative d
    \<and> dval (ref_reduce d) = dval d \<and> \<not> 10 dvd Coeff (ref_reduce d)"
proof -
  obtain c e where ce: "strip_zeros (Coeff d) (Exponent d) = (c, e)" by force
  have "\<not> 10 dvd c" and "(of_nat c :: rat) * 10 powi e = of_nat (Coeff d) * 10 powi Exponent d"
    using strip_zeros_spec [OF ce assms(2)] by auto
  then show ?thesis using assms ce
    by (cases "c = 0") (auto simp: ref_reduce_def dval_def scoef_def)
qed

lemma ref_outcome_exact:
  "ref_outcome ctx c e = (r, f, False) \<Longrightarrow> Form r = Finite \<and> dval r = of_int c * 10 powi e"
  by (auto simp: ref_outcome_def split: if_splits)

interpretation ref: apd_lib apd_ref
proof
  fix a b r :: apd_Decimal and ctx c e
  let ?e = "min (Exponent a) (Exponent b)"
  show "x_Add apd_ref ctx a b = (r, c, False) \<Longrightarrow> Form r = Finite \<and> dval r = dval a + dval b"
    using dval_scoef_at [of ?e a] dval_scoef_at [of ?e b]
    by (auto simp: apd_ref_def Let_def dest!: ref_outcome_exact) (simp add: algebra_simps)
  show "x_Sub apd_ref ctx a b = (r, c, False) \<Longrightarrow> Form r = Finite \<and> dval r = dval a - dval b"
    using dval_scoef_at [of ?e a] dval_scoef_at [of ?e b]
    by (auto simp: apd_ref_def Let_def dest!: ref_outcome_exact) (simp add: algebra_simps)
  show "x_Mul apd_ref ctx a b = (r, c, False) \<Longrightarrow> Form r = Finite \<and> dval r = dval a * dval b"
    by (auto simp: apd_ref_def dest!: ref_outcome_exact) (simp add: dval_def power_int_add)
  show "x_Cmp apd_ref a b = (if dval a < dval b then -1 else if dval a = dval b then 0 else 1)"
    by (simp add: apd_ref_def ref_cmp_def Let_def dval_compare dval_compare_eq)
qed (use ref_reduce_nonzero in
  \<open>auto simp: apd_ref_def Let_def ref_outcome_def ref_reduce_def\<close>)

end
