(* ===== verification/Decimal.thy ===== *)
theory Decimal
  imports Apd
begin

text \<open>
  The package \<open>internal/decimal/economic\<close>: the exact economic decimal, a canonical wrapper around the
  external decimal library. The definitions follow \<open>decimal.go\<close> function by function; the parameter
  \<open>X\<close> stands for the external library. The lemmas of the context \<open>apd_lib\<close> show that every value that
  leaves the package is canonical (\<open>dec_ok\<close>), that a canonical value is determined by the number it
  denotes, that addition, subtraction and multiplication are exact when they succeed and addition and
  subtraction succeed whenever the sum is in range, that \<open>MulQuantized\<close> and \<open>QuoQuantized\<close> round
  correctly and only once, and that parsing inverts printing.
\<close>

type_synonym Decimal = apd_Decimal

datatype RoundingMode = roundingModeInvalid | RoundHalfEven | RoundTowardZero | RoundingMode_other nat

definition MaxSignificantDigits :: nat where "MaxSignificantDigits = 38"
definition MaxScale :: nat where "MaxScale = 18"
definition maxIntegerDigits :: nat where "maxIntegerDigits = MaxSignificantDigits - MaxScale"
definition maxParseLength :: nat where "maxParseLength = 128"

lemmas decimal_limits = MaxSignificantDigits_def MaxScale_def maxIntegerDigits_def maxParseLength_def

text \<open>The zero value of the type: numeric zero.\<close>

definition zeroDecimal :: Decimal where
  "zeroDecimal = \<lparr>Form = Finite, Negative = False, Exponent = 0, Coeff = 0\<rparr>"

section \<open>Construction\<close>

definition fromAPD :: "Extern \<Rightarrow> apd_Decimal \<Rightarrow> Decimal result" where
  "fromAPD X input = (if Form input \<noteq> Finite then Inl [ErrInvalidSyntax] else
     let reduced = x_Reduce X input in
     if x_IsZero X reduced then Inr (x_SetInt64 X 0)
     else if int MaxSignificantDigits < x_NumDigits X reduced then Inl [ErrPrecision]
     else if int maxIntegerDigits < x_NumDigits X reduced + Exponent reduced then Inl [ErrPrecision]
     else if Exponent reduced < - int MaxScale then Inl [ErrScale]
     else Inr (x_Set X reduced))"

definition lexicalScale :: "string \<Rightarrow> nat" where
  "lexicalScale text = (case first_index (\<lambda>c. c = CHR ''.'') text of
     None \<Rightarrow> 0 | Some point \<Rightarrow> length text - point - 1)"

text \<open>
  The scanner of \<open>validPlainDecimal\<close>: the text behind the sign, the digits it skips, and what must
  follow them.
\<close>

definition validPlainDecimal :: "string \<Rightarrow> bool" where
  "validPlainDecimal text =
     (if text = [] \<or> maxParseLength < length text \<or> \<not> TrimSpace_unchanged text
         \<or> hd text = CHR ''+'' then False
      else let rest = (if hd text = CHR ''-'' then tl text else text) in
        if hd text = CHR ''-'' \<and> rest = [] then False
        else if takeWhile is_digit rest = [] then False
        else let after = dropWhile is_digit rest in
          if after = [] then True
          else if hd after \<noteq> CHR ''.'' then False
          else dropWhile is_digit (tl after) = [] \<and> takeWhile is_digit (tl after) \<noteq> [])"

definition ParseWithMaxScale :: "Extern \<Rightarrow> string \<Rightarrow> nat \<Rightarrow> Decimal result" where
  "ParseWithMaxScale X text maxScale =
     (if MaxScale < maxScale then Inl [ErrScale]
      else if \<not> validPlainDecimal text then Inl [ErrInvalidSyntax]
      else if maxScale < lexicalScale text then Inl [ErrScale]
      else case x_NewFromString X text of
          None \<Rightarrow> Inl [ErrInvalidSyntax]
        | Some (v, condition) \<Rightarrow>
            if condition \<noteq> {} then Inl [ErrInvalidSyntax] else fromAPD X v)"

definition Parse :: "Extern \<Rightarrow> string \<Rightarrow> Decimal result" where
  "Parse X text = ParseWithMaxScale X text MaxScale"

definition NewScaled :: "Extern \<Rightarrow> int \<Rightarrow> nat \<Rightarrow> Decimal result" where
  "NewScaled X coefficient scale =
     (if MaxScale < scale then Inl [ErrScale]
      else fromAPD X (x_NewWithBigInt X coefficient (- int scale)))"

section \<open>Queries\<close>

definition Decimal_IsZero :: "Extern \<Rightarrow> Decimal \<Rightarrow> bool" where
  "Decimal_IsZero X d = x_IsZero X d"

definition Decimal_Sign :: "Extern \<Rightarrow> Decimal \<Rightarrow> int" where
  "Decimal_Sign X d = x_Sign X d"

definition Decimal_Cmp :: "Extern \<Rightarrow> Decimal \<Rightarrow> Decimal \<Rightarrow> int" where
  "Decimal_Cmp X d other = x_Cmp X d other"

definition Decimal_Equal :: "Extern \<Rightarrow> Decimal \<Rightarrow> Decimal \<Rightarrow> bool" where
  "Decimal_Equal X d other = (x_Cmp X d other = 0)"

definition Decimal_String :: "Extern \<Rightarrow> Decimal \<Rightarrow> string" where
  "Decimal_String X d = (if Decimal_IsZero X d then ''0'' else x_Text X d)"

text \<open>The conversion to \<open>uint8\<close> keeps the low eight bits.\<close>

definition Decimal_Scale :: "Extern \<Rightarrow> Decimal \<Rightarrow> nat" where
  "Decimal_Scale X d = (if Decimal_IsZero X d \<or> 0 \<le> Exponent d then 0
     else nat ((- Exponent d) mod 256))"

section \<open>Exact arithmetic\<close>

definition exactContext :: "Extern \<Rightarrow> apd_Context" where
  "exactContext X = (x_BaseContext X)\<lparr>
     ctx_Precision := MaxSignificantDigits,
     ctx_MaxExponent := int maxIntegerDigits - 1,
     ctx_MinExponent := - int MaxScale,
     ctx_Rounding := apd_RoundHalfEven,
     ctx_Traps := ctx_Traps (x_BaseContext X) \<union> {Inexact, Rounded, Clamped}\<rparr>"

definition classifyArithmeticError :: "apd_Condition \<Rightarrow> go_error" where
  "classifyArithmeticError condition =
     (if DivisionByZero \<in> condition then [ErrDivisionByZero]
      else if Inexact \<in> condition \<or> Rounded \<in> condition then [ErrPrecision, ErrInexact]
      else if Overflow \<in> condition \<or> SystemOverflow \<in> condition \<or> Underflow \<in> condition
        \<or> SystemUnderflow \<in> condition \<or> Subnormal \<in> condition \<or> Clamped \<in> condition
        then [ErrPrecision]
      else [ErrArithmetic])"

definition exactBinary ::
  "Extern \<Rightarrow> Decimal \<Rightarrow> Decimal \<Rightarrow> (apd_Context \<Rightarrow> Decimal \<Rightarrow> Decimal \<Rightarrow> apd_outcome) \<Rightarrow> Decimal result"
where
  "exactBinary X left right operation =
     (case operation (exactContext X) (x_Set X left) (x_Set X right) of (r, condition, err) \<Rightarrow>
        if err \<or> Inexact \<in> condition \<or> Rounded \<in> condition
        then Inl (classifyArithmeticError condition) else fromAPD X r)"

definition Decimal_Add :: "Extern \<Rightarrow> Decimal \<Rightarrow> Decimal \<Rightarrow> Decimal result" where
  "Decimal_Add X d other = exactBinary X d other (x_Add X)"

definition Decimal_Sub :: "Extern \<Rightarrow> Decimal \<Rightarrow> Decimal \<Rightarrow> Decimal result" where
  "Decimal_Sub X d other = exactBinary X d other (x_Sub X)"

definition Decimal_Mul :: "Extern \<Rightarrow> Decimal \<Rightarrow> Decimal \<Rightarrow> Decimal result" where
  "Decimal_Mul X d other = exactBinary X d other (x_Mul X)"

section \<open>Rounding at a named boundary\<close>

definition roundingContext :: "Extern \<Rightarrow> RoundingMode \<Rightarrow> apd_Context result" where
  "roundingContext X mode =
     (let context = (x_BaseContext X)\<lparr>
        ctx_Precision := MaxSignificantDigits,
        ctx_MaxExponent := int maxIntegerDigits - 1,
        ctx_MinExponent := - int MaxScale\<rparr>
      in case mode of
          RoundHalfEven \<Rightarrow> Inr (context\<lparr>ctx_Rounding := apd_RoundHalfEven\<rparr>)
        | RoundTowardZero \<Rightarrow> Inr (context\<lparr>ctx_Rounding := apd_RoundDown\<rparr>)
        | roundingModeInvalid \<Rightarrow> Inl [ErrRoundingMode]
        | RoundingMode_other _ \<Rightarrow> Inl [ErrRoundingMode])"

definition validateRoundingBoundary ::
  "Extern \<Rightarrow> nat \<Rightarrow> RoundingMode \<Rightarrow> string \<Rightarrow> apd_Context result"
where
  "validateRoundingBoundary X scale mode operation =
     (if operation = [] then Inl [ErrOperation]
      else if MaxScale < scale then Inl [ErrScale]
      else roundingContext X mode)"

definition Decimal_Quantize ::
  "Extern \<Rightarrow> Decimal \<Rightarrow> nat \<Rightarrow> RoundingMode \<Rightarrow> string \<Rightarrow> Decimal result"
where
  "Decimal_Quantize X d scale mode operation =
     and_then (validateRoundingBoundary X scale mode operation) (\<lambda>context.
       case x_Quantize X context (x_Set X d) (- int scale) of (r, condition, err) \<Rightarrow>
         if err \<or> condition - {Inexact, Rounded} \<noteq> {}
         then Inl (classifyArithmeticError condition) else fromAPD X r)"

definition powerOfTen :: "nat \<Rightarrow> int" where
  "powerOfTen exponent = 10 ^ exponent"

text \<open>
  The correction of a truncated quotient. \<open>QuoRem\<close> of \<open>math/big\<close> truncates toward zero, so the
  remainder has the sign of the dividend.
\<close>

definition roundQuotient :: "int \<Rightarrow> int \<Rightarrow> int \<Rightarrow> RoundingMode \<Rightarrow> int" where
  "roundQuotient quo remainder divisor mode =
     (if mode = RoundTowardZero \<or> remainder = 0 then quo
      else let twiceRemainder = 2 * \<bar>remainder\<bar>; absoluteDivisor = \<bar>divisor\<bar>;
               isOdd = odd \<bar>quo\<bar> in
        if twiceRemainder < absoluteDivisor \<or> (twiceRemainder = absoluteDivisor \<and> \<not> isOdd)
        then quo
        else if sgn remainder = sgn divisor then quo + 1 else quo - 1)"

definition quantizedCoefficient :: "int \<Rightarrow> int \<Rightarrow> RoundingMode \<Rightarrow> int" where
  "quantizedCoefficient coefficient exponent mode =
     (if 0 \<le> exponent then coefficient * powerOfTen (nat exponent)
      else let divisor = powerOfTen (nat (- exponent)) in
        roundQuotient (coefficient sdiv divisor) (coefficient smod divisor) divisor mode)"

definition MulQuantized ::
  "Extern \<Rightarrow> Decimal \<Rightarrow> Decimal \<Rightarrow> nat \<Rightarrow> RoundingMode \<Rightarrow> string \<Rightarrow> Decimal result"
where
  "MulQuantized X left right scale mode operation =
     and_then (validateRoundingBoundary X scale mode operation) (\<lambda>_.
       let product = int (Coeff left) * int (Coeff right);
           coefficient = (if Negative left \<noteq> Negative right then - product else product);
           exponent = Exponent left + Exponent right + int scale
       in NewScaled X (quantizedCoefficient coefficient exponent mode) scale)"

definition QuoQuantized ::
  "Extern \<Rightarrow> Decimal \<Rightarrow> Decimal \<Rightarrow> nat \<Rightarrow> RoundingMode \<Rightarrow> string \<Rightarrow> Decimal result"
where
  "QuoQuantized X numerator denominator scale mode operation =
     and_then (validateRoundingBoundary X scale mode operation) (\<lambda>_.
       if Decimal_IsZero X denominator then Inl [ErrDivisionByZero] else
       let dividend0 = (if Negative numerator then - int (Coeff numerator) else int (Coeff numerator));
           divisor0 = (if Negative denominator then - int (Coeff denominator)
                       else int (Coeff denominator));
           exponent = Exponent numerator - Exponent denominator + int scale;
           dividend = (if 0 \<le> exponent then dividend0 * powerOfTen (nat exponent) else dividend0);
           divisor = (if 0 \<le> exponent then divisor0 else divisor0 * powerOfTen (nat (- exponent)))
       in NewScaled X (roundQuotient (dividend sdiv divisor) (dividend smod divisor) divisor mode) scale)"

section \<open>Text encoding\<close>

definition MarshalText :: "Extern \<Rightarrow> Decimal \<Rightarrow> bytes" where
  "MarshalText X d = string_bytes (Decimal_String X d)"

definition UnmarshalText :: "Extern \<Rightarrow> string \<Rightarrow> Decimal result" where
  "UnmarshalText X data = Parse X data"

section \<open>Canonical values\<close>

definition dec_ok :: "Decimal \<Rightarrow> bool" where
  "dec_ok d = (if Coeff d = 0 then d = zeroDecimal
     else Form d = Finite \<and> \<not> 10 dvd Coeff d \<and> ndigits (Coeff d) \<le> 38
       \<and> int (ndigits (Coeff d)) + Exponent d \<le> 20 \<and> - 18 \<le> Exponent d)"

lemma dec_ok_zero [simp]: "dec_ok zeroDecimal"
  by (simp add: dec_ok_def zeroDecimal_def)

lemma dval_zero [simp]: "dval zeroDecimal = 0"
  by (simp add: dval_def scoef_def zeroDecimal_def)

lemma dec_ok_Finite: "dec_ok d \<Longrightarrow> Form d = Finite"
  by (auto simp: dec_ok_def zeroDecimal_def split: if_splits)

lemma mk_finite_0: "mk_finite 0 0 = zeroDecimal"
  by (simp add: mk_finite_def zeroDecimal_def)

text \<open>A number has one coefficient without trailing zeros.\<close>

lemma coeff_strip_unique:
  assumes "\<not> 10 dvd a" and "\<not> 10 dvd b" and "(of_nat a :: rat) * 10 powi e = of_nat b * 10 powi f"
    and "e \<le> f"
  shows "a = b \<and> e = f"
proof -
  define k where "k = nat (f - e)"
  have f: "f = int k + e" using assms(4) by (simp add: k_def)
  have "(of_nat a :: rat) * 10 powi e = of_nat b * 10 ^ k * 10 powi e"
    using assms(3) by (simp add: f power_int_add)
  then have "(of_nat a :: rat) = of_nat (b * 10 ^ k)" by simp
  then have ab: "a = b * 10 ^ k" by (metis of_nat_eq_iff)
  with assms(1) have "k = 0" by (cases k) auto
  with ab f show ?thesis by simp
qed

text \<open>The representation without the limits: what \<open>Reduce\<close> returns for a non-zero value.\<close>

lemma reduced_unique:
  assumes "Form a = Finite" "Form b = Finite" "\<not> 10 dvd Coeff a" "\<not> 10 dvd Coeff b" "dval a = dval b"
  shows "a = b"
proof -
  have nz: "Coeff a \<noteq> 0" "Coeff b \<noteq> 0" using assms(3,4) by (metis dvd_0_right)+
  have "sgn (scoef a) = sgn (scoef b)"
    using assms(5) sgn_dval by (metis of_int_eq_iff)
  then have neg: "Negative a = Negative b"
    using nz by (auto simp: scoef_def split: if_splits)
  then have "(of_nat (Coeff a) :: rat) * 10 powi Exponent a = of_nat (Coeff b) * 10 powi Exponent b"
    using assms(5) by (auto simp: dval_def scoef_def split: if_splits)
  then have "Coeff a = Coeff b \<and> Exponent a = Exponent b"
    using coeff_strip_unique [OF assms(3,4)] coeff_strip_unique [OF assms(4,3)]
    by (metis linorder_linear)
  with neg assms(1,2) show ?thesis by (simp add: apd_Decimal.equality)
qed


text \<open>Two canonical decimals that denote the same number are the same representation.\<close>

lemma dec_ok_unique:
  assumes "dec_ok a" and "dec_ok b" and eq: "dval a = dval b"
  shows "a = b"
proof (cases "Coeff a = 0")
  case True
  with eq have "Coeff b = 0" by (metis dval_eq_0_iff)
  with True assms show ?thesis by (simp add: dec_ok_def)
next
  case False
  with eq have "Coeff b \<noteq> 0" by (metis dval_eq_0_iff)
  with False assms show ?thesis by (intro reduced_unique) (auto simp: dec_ok_def)
qed

section \<open>Scale, grid and rounding\<close>

lemma dval_ndigits_bound: "Form d = Finite \<Longrightarrow> \<bar>dval d\<bar> < 10 powi (int (ndigits (Coeff d)) + Exponent d)"
proof -
  have "(of_nat (Coeff d) :: rat) < of_nat (10 ^ ndigits (Coeff d))"
    using ndigits_upper by (simp only: of_nat_less_iff)
  then have "(of_nat (Coeff d) :: rat) * 10 powi Exponent d < 10 powi (int (ndigits (Coeff d)) + Exponent d)"
    by (simp add: power_int_add)
  then show ?thesis by (auto simp: dval_def scoef_def abs_mult)
qed

lemma roundQuotient_half_even:
  assumes "b \<noteq> 0" and q: "q = roundQuotient (a sdiv b) (a smod b) b RoundHalfEven"
  shows "2 * \<bar>a - q * b\<bar> \<le> \<bar>b\<bar> \<and> (2 * \<bar>a - q * b\<bar> = \<bar>b\<bar> \<longrightarrow> even q)"
proof -
  define t where "t = a sdiv b"
  define r where "r = a smod b"
  have e: "a = t * b + r" unfolding t_def r_def by (simp add: sdiv_mult_smod_eq)
  have r: "\<bar>r\<bar> < \<bar>b\<bar>" using smod_int_range [OF assms(1), of a] by (auto simp: r_def)
  have q': "q = roundQuotient t r b RoundHalfEven" using q by (simp add: t_def r_def)
  have up: "a - (t + 1) * b = r - b" and down: "a - (t - 1) * b = r + b" and stay: "a - t * b = r"
    using e by (simp_all add: algebra_simps)
  show ?thesis
  proof (cases "r = 0 \<or> 2 * \<bar>r\<bar> < \<bar>b\<bar> \<or> (2 * \<bar>r\<bar> = \<bar>b\<bar> \<and> even t)")
    case True
    then have "q = t" by (auto simp: q' roundQuotient_def)
    with True r stay show ?thesis by auto
  next
    case False
    have opp: "2 * \<bar>r\<bar> = \<bar>b\<bar> \<longrightarrow> odd t" using False by auto
    have ge: "\<bar>b\<bar> \<le> 2 * \<bar>r\<bar>" using False by auto
    show ?thesis
    proof (cases "sgn r = sgn b")
      case True
      then have "\<bar>r - b\<bar> = \<bar>b\<bar> - \<bar>r\<bar>" using r by (auto simp: sgn_if split: if_splits)
      moreover have "q = t + 1" using False True by (auto simp: q' roundQuotient_def Let_def)
      ultimately show ?thesis using ge opp up by auto
    next
      case neq: False
      then have "\<bar>r + b\<bar> = \<bar>b\<bar> - \<bar>r\<bar>" using r False assms(1) by (auto simp: sgn_if split: if_splits)
      moreover have "q = t - 1" using False neq by (auto simp: q' roundQuotient_def Let_def)
      ultimately show ?thesis using ge opp down by auto
    qed
  qed
qed

definition on_grid :: "nat \<Rightarrow> rat \<Rightarrow> bool" where
  "on_grid s v = (\<exists>n::int. v = of_int n * 10 powi (- int s))"

definition dscale :: "Decimal \<Rightarrow> nat" where
  "dscale d = nat (- Exponent d)"

lemma on_grid_add: "on_grid s a \<Longrightarrow> on_grid s b \<Longrightarrow> on_grid s (a + b)"
  unfolding on_grid_def by (metis distrib_right of_int_add)

lemma on_grid_diff: "on_grid s a \<Longrightarrow> on_grid s b \<Longrightarrow> on_grid s (a - b)"
  unfolding on_grid_def by (metis left_diff_distrib of_int_diff)

lemma on_grid_0 [simp]: "on_grid s 0"
  unfolding on_grid_def by (rule exI [of _ 0]) simp

lemma on_grid_mono: "on_grid s a \<Longrightarrow> s \<le> t \<Longrightarrow> on_grid t a"
proof -
  assume "on_grid s a" "s \<le> t"
  then obtain n where n: "a = of_int n * 10 powi (- int s)" by (auto simp: on_grid_def)
  have "- int s = int (t - s) + (- int t)" using \<open>s \<le> t\<close> by simp
  then have "(10::rat) powi (- int s) = 10 ^ (t - s) * 10 powi (- int t)"
    by (metis power_int_add power_int_of_nat zero_neq_numeral)
  with n show ?thesis unfolding on_grid_def
    by (intro exI [of _ "n * 10 ^ (t - s)"]) simp
qed

lemma grid_exponent:
  assumes "\<not> 10 dvd c" and "(of_nat c :: rat) * 10 powi e = of_int n * 10 powi f"
  shows "f \<le> e"
proof (rule ccontr)
  assume "\<not> f \<le> e"
  define k where "k = nat (f - e - 1)"
  have f: "f = int (Suc k) + e" using \<open>\<not> f \<le> e\<close> by (simp add: k_def)
  have "(of_nat c :: rat) * 10 powi e = of_int n * 10 ^ Suc k * 10 powi e"
    using assms(2) power_int_add [of "10 :: rat" "int (Suc k)" e] unfolding f
    by (simp add: power_int_of_nat mult.assoc del: of_nat_Suc)
  then have "(of_nat c :: rat) = of_int (n * 10 ^ Suc k)" by simp
  then have "int c = 10 * (n * 10 ^ k)"
    by (metis mult.left_commute of_int_eq_iff of_int_of_nat_eq power_Suc)
  then have "10 dvd int c" by simp
  then have "10 dvd c" by presburger
  with assms(1) show False ..
qed

lemma dec_ok_grid: "dec_ok d \<Longrightarrow> dscale d \<le> s \<longleftrightarrow> on_grid s (dval d)"
proof (cases "Coeff d = 0")
  case True
  assume "dec_ok d"
  with True show ?thesis by (simp add: dec_ok_def dscale_def zeroDecimal_def dval_def scoef_def)
next
  case False
  assume ok: "dec_ok d"
  show ?thesis
  proof
    assume "dscale d \<le> s"
    then have "- int s \<le> Exponent d" by (simp add: dscale_def)
    then show "on_grid s (dval d)" unfolding on_grid_def by (metis dval_scoef_at)
  next
    assume "on_grid s (dval d)"
    then obtain n where n: "dval d = of_int n * 10 powi (- int s)" by (auto simp: on_grid_def)
    define m where "m = (if Negative d then - n else n)"
    have "(of_nat (Coeff d) :: rat) * 10 powi Exponent d = of_int m * 10 powi (- int s)"
      using n by (auto simp: dval_def scoef_def m_def)
    then have "- int s \<le> Exponent d" using grid_exponent ok False by (auto simp: dec_ok_def)
    then show "dscale d \<le> s" by (simp add: dscale_def)
  qed
qed

lemma dec_ok_range: "dec_ok d \<Longrightarrow> \<bar>dval d\<bar> < 10 ^ 20"
proof (cases "Coeff d = 0")
  case False
  assume ok: "dec_ok d"
  have "\<bar>dval d\<bar> < 10 powi (int (ndigits (Coeff d)) + Exponent d)"
    using ok dval_ndigits_bound dec_ok_Finite by blast
  also have "\<dots> \<le> 10 powi 20" using ok False unfolding powi10_le_iff by (simp add: dec_ok_def)
  finally show ?thesis by (simp add: power_int_def)
qed (simp add: dec_ok_def)

lemma dec_ok_dscale: "dec_ok d \<Longrightarrow> dscale d \<le> 18"
  by (auto simp: dec_ok_def dscale_def zeroDecimal_def split: if_splits)

definition half_even :: "rat \<Rightarrow> int \<Rightarrow> bool" where
  "half_even v q = (2 * \<bar>v - of_int q\<bar> \<le> 1 \<and> (2 * \<bar>v - of_int q\<bar> = 1 \<longrightarrow> even q))"

definition rounded_at :: "nat \<Rightarrow> rat \<Rightarrow> rat \<Rightarrow> bool" where
  "rounded_at s v w = (\<exists>q. w = of_int q * 10 powi (- int s) \<and> half_even (v * 10 ^ s) q)"

lemma half_even_unique: "half_even v p \<Longrightarrow> half_even v q \<Longrightarrow> p = q"
proof (rule ccontr)
  assume p: "half_even v p" and q: "half_even v q" and "p \<noteq> q"
  have tri: "\<bar>of_int p - of_int q :: rat\<bar> \<le> \<bar>v - of_int p\<bar> + \<bar>v - of_int q\<bar>" by simp
  have "1 \<le> \<bar>p - q\<bar>" using \<open>p \<noteq> q\<close> by simp
  then have one: "(1::rat) \<le> \<bar>of_int p - of_int q\<bar>" by (metis of_int_1_le_iff of_int_abs of_int_diff)
  have le: "2 * \<bar>v - of_int p\<bar> \<le> 1" "2 * \<bar>v - of_int q\<bar> \<le> 1"
    using p q by (auto simp: half_even_def)
  have key: "c \<le> a + b \<Longrightarrow> 1 \<le> c \<Longrightarrow> 2 * a \<le> 1 \<Longrightarrow> 2 * b \<le> 1 \<Longrightarrow> 2 * a = 1 \<and> 2 * b = 1" for a b c :: rat
    by auto
  have key2: "c \<le> a + b \<Longrightarrow> 2 * a = 1 \<and> 2 * b = 1 \<Longrightarrow> c \<le> 1" for a b c :: rat
    by auto
  have ties: "2 * \<bar>v - of_int p\<bar> = 1 \<and> 2 * \<bar>v - of_int q\<bar> = 1"
    using key [OF tri one le] .
  then have "even p" "even q" using p q by (auto simp: half_even_def)
  moreover have "\<bar>of_int p - of_int q :: rat\<bar> \<le> 1"
    using tri ties key2 by blast
  then have "\<bar>p - q\<bar> \<le> 1" by (metis of_int_abs of_int_diff of_int_le_1_iff)
  ultimately show False using \<open>1 \<le> \<bar>p - q\<bar>\<close> by presburger
qed

lemma rounded_at_unique: "rounded_at s v a \<Longrightarrow> rounded_at s v b \<Longrightarrow> a = b"
  by (auto simp: rounded_at_def dest: half_even_unique)

lemma rounded_at_grid: "rounded_at s v w \<Longrightarrow> on_grid s w"
  by (auto simp: rounded_at_def on_grid_def)

lemma rounded_at_exact: "on_grid s v \<Longrightarrow> rounded_at s v v"
  unfolding on_grid_def rounded_at_def by (auto simp: half_even_def power_int_minus field_simps)

lemma roundQuotient_rat:
  assumes "b \<noteq> 0" and q: "q = roundQuotient (a sdiv b) (a smod b) b RoundHalfEven"
  shows "half_even (of_int a / of_int b) q"
proof -
  have r: "2 * \<bar>a - q * b\<bar> \<le> \<bar>b\<bar>" "2 * \<bar>a - q * b\<bar> = \<bar>b\<bar> \<longrightarrow> even q"
    using roundQuotient_half_even [OF assms] by auto
  have b: "0 < \<bar>of_int b :: rat\<bar>" using assms(1) by simp
  have "(of_int a / of_int b - of_int q :: rat) = of_int (a - q * b) / of_int b"
    using assms(1) by (simp add: field_simps)
  then have eq: "2 * \<bar>of_int a / of_int b - of_int q :: rat\<bar> = of_int (2 * \<bar>a - q * b\<bar>) / of_int \<bar>b\<bar>"
    by (simp add: abs_divide)
  have "of_int (2 * \<bar>a - q * b\<bar>) \<le> (of_int \<bar>b\<bar> :: rat)" using r(1) by (simp only: of_int_le_iff)
  moreover have "of_int (2 * \<bar>a - q * b\<bar>) = (of_int \<bar>b\<bar> :: rat) \<longrightarrow> even q"
    using r(2) by (simp only: of_int_eq_iff)
  ultimately show ?thesis using b unfolding half_even_def eq by simp
qed

lemma quantizedCoefficient_half_even:
  "half_even (of_int c * 10 powi e) (quantizedCoefficient c e RoundHalfEven)"
proof (cases "0 \<le> e")
  case True
  then show ?thesis by (simp add: half_even_def quantizedCoefficient_def powerOfTen_def power_int_def)
next
  case False
  have "half_even (of_int c / of_int (10 ^ nat (- e)))
      (roundQuotient (c sdiv 10 ^ nat (- e)) (c smod 10 ^ nat (- e)) (10 ^ nat (- e)) RoundHalfEven)"
    by (rule roundQuotient_rat) simp_all
  moreover have "(of_int c / of_int (10 ^ nat (- e)) :: rat) = of_int c * 10 powi e"
    using False by (simp add: power_int_def power_inverse field_simps)
  ultimately show ?thesis using False
    by (simp add: quantizedCoefficient_def powerOfTen_def Let_def)
qed


text \<open>Half-even rounding is rounding to nearest.\<close>

lemma half_even_nearest:
  assumes "half_even v n"
  shows "\<bar>v - of_int n\<bar> \<le> \<bar>v - of_int m\<bar>"
    and "m \<noteq> n \<Longrightarrow> \<bar>v - of_int n\<bar> = \<bar>v - of_int m\<bar> \<Longrightarrow> even n"
proof -
  have apart: "1 \<le> \<bar>v - of_int n\<bar> + \<bar>v - of_int m\<bar>" if "m \<noteq> n"
  proof -
    have "1 \<le> \<bar>n - m\<bar>" using that by simp
    then have "(1 :: rat) \<le> \<bar>of_int n - of_int m\<bar>" by (metis of_int_1_le_iff of_int_abs of_int_diff)
    then show ?thesis by linarith
  qed
  show "\<bar>v - of_int n\<bar> \<le> \<bar>v - of_int m\<bar>"
    using apart assms by (cases "m = n") (auto simp: half_even_def)
  show "even n" if "m \<noteq> n" "\<bar>v - of_int n\<bar> = \<bar>v - of_int m\<bar>"
    using apart [OF that(1)] that(2) assms by (auto simp: half_even_def)
qed

lemma rounded_at_nearest:
  assumes "rounded_at s v w"
  shows "\<exists>n :: int. w = of_int n / 10 ^ s
    \<and> (\<forall>m :: int. \<bar>v - of_int n / 10 ^ s\<bar> \<le> \<bar>v - of_int m / 10 ^ s\<bar>)
    \<and> (\<forall>m :: int. m \<noteq> n \<longrightarrow> \<bar>v - of_int n / 10 ^ s\<bar> = \<bar>v - of_int m / 10 ^ s\<bar> \<longrightarrow> even n)"
proof -
  obtain n where w: "w = of_int n / 10 ^ s" and h: "half_even (v * 10 ^ s) n"
    using assms by (auto simp: rounded_at_def power_int_minus divide_inverse)
  have scale: "\<bar>v - of_int m / 10 ^ s\<bar> = \<bar>v * 10 ^ s - of_int m\<bar> / 10 ^ s" for m :: int
  proof -
    have "v - of_int m / 10 ^ s = (v * 10 ^ s - of_int m) / 10 ^ s" by (simp add: field_simps)
    then show ?thesis by (simp add: abs_divide)
  qed
  show ?thesis using w half_even_nearest [OF h]
    by (intro exI [of _ n]) (auto simp: scale divide_le_cancel)
qed

section \<open>Scanning\<close>

definition plain_char :: "char \<Rightarrow> bool" where
  "plain_char c = (is_digit c \<or> c = CHR ''.'' \<or> c = CHR ''-'')"

lemma plain_char_props: "plain_char c \<Longrightarrow> (of_char c :: nat) < 128 \<and> \<not> unicode_IsSpace (of_char c)"
  by (auto simp: plain_char_def is_digit_def unicode_IsSpace_def)

lemma TrimSpace_plain: "list_all plain_char s \<Longrightarrow> TrimSpace_unchanged s"
proof -
  assume a: "list_all plain_char s"
  then have r: "runes s = map (\<lambda>c. (of_char c, 1)) s"
    by (intro runes_ascii) (auto simp: list_all_iff plain_char_props)
  have "s \<noteq> [] \<Longrightarrow> last s \<in> set s" by simp
  with a r plain_char_props show ?thesis
    by (cases s) (auto simp: TrimSpace_unchanged_def list_all_iff last_map)
qed

lemma validPlainDecimal_form:
  assumes "list_all is_digit w" "w \<noteq> []" "list_all is_digit f" "length w + length f < 126"
  shows "validPlainDecimal (plain_form neg w f)"
proof -
  let ?t = "plain_form neg w f"
  have chars: "list_all plain_char ?t"
    using assms(1,3) by (auto simp: plain_form_def list_all_iff plain_char_def)
  have hd: "hd ?t = (if neg then CHR ''-'' else hd w)" and ne: "?t \<noteq> []"
    using assms(2) by (auto simp: plain_form_def)
  have body: "(if hd ?t = CHR ''-'' then tl ?t else ?t) = plain_body ?t"
    using ne by (cases ?t) (auto simp: plain_body_def)
  have "hd ?t \<noteq> CHR ''+''" using hd digit_hd [OF assms(1,2)] by auto
  moreover have "length ?t \<le> 128" using assms(4) by (auto simp: plain_form_def)
  moreover have "takeWhile is_digit (plain_body ?t) = w"
    using plain_form_parts(1) [OF assms(1-3)] by (simp add: plain_whole_def)
  moreover have "dropWhile is_digit (plain_body ?t) = (if f = [] then [] else CHR ''.'' # f)"
    by (rule plain_form_parts(3) [OF assms(1-3)])
  moreover have "f \<noteq> [] \<Longrightarrow> takeWhile is_digit f \<noteq> []"
    using takeWhile_digits_all [OF assms(3)] by metis
  moreover have "dropWhile is_digit f = []"
    using takeWhile_digits_all [OF assms(3)] by metis
  moreover have "plain_body ?t \<noteq> []" using plain_body_form(1) [OF assms(1,2)] assms(2) by simp
  ultimately show ?thesis using TrimSpace_plain [OF chars] ne assms(2)
    by (simp add: validPlainDecimal_def maxParseLength_def Let_def body)
qed

lemma lexicalScale_form:
  assumes "list_all is_digit w" "list_all is_digit f"
  shows "lexicalScale (plain_form neg w f) = length f"
proof -
  have skip: "first_index (\<lambda>c. c = CHR ''.'') (u @ v) = map_option ((+) (length u)) (first_index (\<lambda>c. c = CHR ''.'') v)"
    if "CHR ''.'' \<notin> set u" for u v
    using that by (induction u) (cases "first_index (\<lambda>c. c = CHR ''.'') v"; auto)+
  have none: "CHR ''.'' \<notin> set ((if neg then ''-'' else '''') @ w)"
    using assms(1) by (auto simp: list_all_iff)
  show ?thesis using skip [OF none, of "if f = [] then [] else CHR ''.'' # f"]
    by (auto simp: lexicalScale_def plain_form_def)
qed

lemma validPlainDecimal_obtain:
  assumes "validPlainDecimal s"
  obtains neg w f where "s = plain_form neg w f" "list_all is_digit w" "w \<noteq> []" "list_all is_digit f"
proof -
  define rest where "rest = (if hd s = CHR ''-'' then tl s else s)"
  define after where "after = dropWhile is_digit rest"
  have s: "s \<noteq> []" "takeWhile is_digit rest \<noteq> []"
    and a: "after = [] \<or> (hd after = CHR ''.'' \<and> dropWhile is_digit (tl after) = []
      \<and> takeWhile is_digit (tl after) \<noteq> [])"
    using assms by (auto simp: validPlainDecimal_def Let_def rest_def after_def split: if_splits)
  have split: "rest = takeWhile is_digit rest @ after" by (simp add: after_def)
  have dig: "list_all is_digit (takeWhile is_digit rest)"
    by (auto simp: list_all_iff dest: set_takeWhileD)
  have aform: "after = (if tl after = [] then [] else CHR ''.'' # tl after) \<and> list_all is_digit (tl after)"
  proof (cases "after = []")
    case False
    then have h: "hd after = CHR ''.''" "dropWhile is_digit (tl after) = []" "tl after \<noteq> []" using a by auto
    then have "after = CHR ''.'' # tl after" using False by (metis list.collapse)
    with h show ?thesis by (simp add: dropWhile_eq_Nil_conv list_all_iff)
  qed simp
  have sform: "s = (if hd s = CHR ''-'' then ''-'' else '''') @ rest"
    using s(1) by (cases s) (auto simp: rest_def)
  define f where "f = tl after"
  have f: "(if f = [] then [] else CHR ''.'' # f) = after" "list_all is_digit f"
    using aform by (auto simp: f_def)
  have "plain_form (hd s = CHR ''-'') (takeWhile is_digit rest) f
      = (if hd s = CHR ''-'' then ''-'' else '''') @ rest"
    unfolding plain_form_def f(1) by (simp add: after_def)
  then have "s = plain_form (hd s = CHR ''-'') (takeWhile is_digit rest) f" using sform by simp
  then show thesis using that dig s(2) f(2) by blast
qed

section \<open>The contract of the package\<close>

context apd_lib
begin

lemma fromAPD_nonzero:
  assumes "Form v = Finite" "Coeff v \<noteq> 0"
  shows "fromAPD X v = (let r = x_Reduce X v in
     if dec_ok r then Inr r else if 38 < ndigits (Coeff r) \<or> 20 < int (ndigits (Coeff r)) + Exponent r
     then Inl [ErrPrecision] else Inl [ErrScale])"
proof -
  define r where "r = x_Reduce X v"
  have r: "Form r = Finite" "\<not> 10 dvd Coeff r" using Reduce_nonzero [OF assms] by (auto simp: r_def)
  have "Coeff r \<noteq> 0" using r(2) by (metis dvd_0_right)
  with r show ?thesis using assms(1)
    by (auto simp: fromAPD_def Let_def IsZero NumDigits Set_copies decimal_limits dec_ok_def
        simp flip: r_def)
qed

lemma fromAPD_zero: "Form v = Finite \<Longrightarrow> Coeff v = 0 \<Longrightarrow> fromAPD X v = Inr zeroDecimal"
  using Reduce_zero by (simp add: fromAPD_def Let_def IsZero SetInt64 mk_finite_0)

lemma fromAPD_ok: "fromAPD X v = Inr d \<Longrightarrow> dec_ok d \<and> dval d = dval v"
proof -
  assume d: "fromAPD X v = Inr d"
  then have fin: "Form v = Finite" by (auto simp: fromAPD_def split: if_splits)
  show ?thesis
  proof (cases "Coeff v = 0")
    case True
    then show ?thesis using d fin fromAPD_zero by (auto simp: dval_eq_0_iff)
  next
    case False
    then show ?thesis using d fromAPD_nonzero [OF fin] Reduce_nonzero [OF fin]
      by (auto simp: Let_def split: if_splits)
  qed
qed

lemma fromAPD_dval: "Form v = Finite \<Longrightarrow> dec_ok d \<Longrightarrow> dval d = dval v \<Longrightarrow> fromAPD X v = Inr d"
proof (cases "Coeff v = 0")
  case True
  assume "Form v = Finite" "dec_ok d" "dval d = dval v"
  with True show ?thesis
    by (metis dec_ok_zero dec_ok_unique dval_eq_0_iff dval_zero fromAPD_zero)
next
  case False
  assume a: "Form v = Finite" "dec_ok d" "dval d = dval v"
  then have "Coeff d \<noteq> 0" using False by (metis dval_eq_0_iff)
  then have "\<not> 10 dvd Coeff d" using a by (simp add: dec_ok_def)
  then have "x_Reduce X v = d" using Reduce_nonzero [OF a(1) False] a
    by (intro reduced_unique) (auto simp: dec_ok_Finite)
  then show ?thesis using fromAPD_nonzero [OF a(1) False] a(2) by simp
qed

lemma fromAPD_total:
  assumes fin: "Form v = Finite" and grid: "on_grid 18 (dval v)" and range: "\<bar>dval v\<bar> < 10 ^ 20"
  shows "\<exists>d. fromAPD X v = Inr d"
proof (cases "Coeff v = 0")
  case True
  then show ?thesis using fin fromAPD_zero by blast
next
  case False
  define r where "r = x_Reduce X v"
  have r: "Form r = Finite" "\<not> 10 dvd Coeff r" "dval r = dval v"
    using Reduce_nonzero [OF fin False] by (auto simp: r_def)
  have nz: "Coeff r \<noteq> 0" using r(2) by (metis dvd_0_right)
  obtain n where n: "dval v = of_int n * 10 powi (- int 18)" using grid by (auto simp: on_grid_def)
  define m where "m = (if Negative r then - n else n)"
  have "(of_nat (Coeff r) :: rat) * 10 powi Exponent r = of_int m * 10 powi (- 18)"
    using n r(3) by (auto simp: dval_def scoef_def m_def)
  then have e: "- 18 \<le> Exponent r" using grid_exponent [OF r(2)] by blast
  have "(of_nat (Coeff r) :: rat) * 10 powi Exponent r = \<bar>dval r\<bar>"
    by (simp add: dval_def scoef_def abs_mult)
  then have "(of_nat (Coeff r) :: rat) * 10 powi Exponent r < 10 powi 20"
    using range r(3) by (simp add: power_int_def)
  then have "int (ndigits (Coeff r)) + Exponent r \<le> 20" by (rule ndigits_dval [OF nz])
  then have "dec_ok r" using e r nz by (simp add: dec_ok_def)
  then show ?thesis using fromAPD_nonzero [OF fin False] by (simp add: r_def)
qed

lemma NewScaled_ok: "NewScaled X c s = Inr d \<Longrightarrow> dec_ok d \<and> dval d = of_int c * 10 powi (- int s) \<and> s \<le> 18"
  by (auto simp: NewScaled_def NewWithBigInt decimal_limits dest: fromAPD_ok split: if_splits)

lemma NewScaled_total:
  assumes "s \<le> 18" "\<bar>of_int c * 10 powi (- int s)\<bar> < (10 ^ 20 :: rat)"
  shows "\<exists>d. NewScaled X c s = Inr d"
proof -
  have "on_grid s (of_int c * 10 powi (- int s))" by (auto simp: on_grid_def)
  then have "on_grid 18 (dval (mk_finite c (- int s)))" using assms(1) on_grid_mono by simp
  then show ?thesis using fromAPD_total [of "mk_finite c (- int s)"] assms
    by (simp add: NewScaled_def NewWithBigInt decimal_limits)
qed

lemma Cmp_dec: "dec_ok a \<Longrightarrow> dec_ok b \<Longrightarrow>
    Decimal_Cmp X a b = (if dval a < dval b then -1 else if dval a = dval b then 0 else 1)"
  by (simp add: Decimal_Cmp_def Cmp dec_ok_Finite)

lemma Equal_dec: "dec_ok a \<Longrightarrow> dec_ok b \<Longrightarrow> Decimal_Equal X a b = (dval a = dval b)"
  by (simp add: Decimal_Equal_def Cmp dec_ok_Finite)

lemma Sign_dec: "dec_ok a \<Longrightarrow>
    Decimal_Sign X a = (if dval a < 0 then -1 else if dval a = 0 then 0 else 1)"
  using sgn_dval [of a] by (auto simp: Decimal_Sign_def Sign dec_ok_Finite sgn_if split: if_splits)

lemma IsZero_dec: "dec_ok a \<Longrightarrow> Decimal_IsZero X a = (dval a = 0)"
  by (simp add: Decimal_IsZero_def IsZero dec_ok_Finite dval_eq_0_iff)

lemma Scale_dec: "dec_ok a \<Longrightarrow> Decimal_Scale X a = dscale a"
proof -
  assume ok: "dec_ok a"
  then have "- 18 \<le> Exponent a" by (auto simp: dec_ok_def zeroDecimal_def split: if_splits)
  moreover have "Coeff a = 0 \<Longrightarrow> Exponent a = 0" using ok by (auto simp: dec_ok_def zeroDecimal_def)
  ultimately show ?thesis using ok
    by (auto simp: Decimal_Scale_def Decimal_IsZero_def IsZero dec_ok_Finite dscale_def)
qed

lemmas dec_queries = Cmp_dec Equal_dec Sign_dec IsZero_dec Scale_dec

lemma Add_ok: "dec_ok a \<Longrightarrow> dec_ok b \<Longrightarrow> Decimal_Add X a b = Inr c \<Longrightarrow> dec_ok c \<and> dval c = dval a + dval b"
  by (auto simp: Decimal_Add_def exactBinary_def Set_copies split: prod.splits if_splits
      dest!: fromAPD_ok dest: Add_exact [OF dec_ok_Finite dec_ok_Finite])

lemma Sub_ok: "dec_ok a \<Longrightarrow> dec_ok b \<Longrightarrow> Decimal_Sub X a b = Inr c \<Longrightarrow> dec_ok c \<and> dval c = dval a - dval b"
  by (auto simp: Decimal_Sub_def exactBinary_def Set_copies split: prod.splits if_splits
      dest!: fromAPD_ok dest: Sub_exact [OF dec_ok_Finite dec_ok_Finite])

lemma Mul_ok: "dec_ok a \<Longrightarrow> dec_ok b \<Longrightarrow> Decimal_Mul X a b = Inr c \<Longrightarrow> dec_ok c \<and> dval c = dval a * dval b"
  by (auto simp: Decimal_Mul_def exactBinary_def Set_copies split: prod.splits if_splits
      dest!: fromAPD_ok dest: Mul_exact [OF dec_ok_Finite dec_ok_Finite])

lemma exact_fits:
  assumes "on_grid 18 (of_int n * 10 powi e)" "-18 \<le> e" "e \<le> 19" "\<bar>of_int n * 10 powi e\<bar> < (10 ^ 20 :: rat)"
  shows "fits (exactContext X) n e"
proof (cases "n = 0")
  case False
  have "(of_nat (nat \<bar>n\<bar>) :: rat) * 10 powi e < 10 powi 20"
    using assms(4) by (simp add: abs_mult power_int_def)
  then have "int (ndigits (nat \<bar>n\<bar>)) + e \<le> 20" using False by (intro ndigits_dval) auto
  moreover have "0 < ndigits (nat \<bar>n\<bar>)" by (rule ndigits_pos)
  ultimately show ?thesis using assms(2) False
    by (simp add: fits_def exactContext_def decimal_limits)
qed (use assms in \<open>simp add: fits_def exactContext_def decimal_limits\<close>)

lemma dec_ok_exponent: "dec_ok a \<Longrightarrow> -18 \<le> Exponent a \<and> Exponent a \<le> 19"
  using ndigits_pos [of "Coeff a"] by (auto simp: dec_ok_def zeroDecimal_def split: if_splits)

lemma Add_total:
  assumes "dec_ok a" "dec_ok b" "\<bar>dval a + dval b\<bar> < 10 ^ 20"
  shows "\<exists>c. Decimal_Add X a b = Inr c"
proof -
  define e where "e = min (Exponent a) (Exponent b)"
  have e: "-18 \<le> e" "e \<le> 19" "e \<le> Exponent a" "e \<le> Exponent b"
    using assms(1,2) dec_ok_exponent [of a] dec_ok_exponent [of b] by (auto simp: e_def)
  have sum: "of_int (scoef_at e a + scoef_at e b) * 10 powi e = dval a + dval b"
    using dval_scoef_at e by (simp add: algebra_simps)
  have grid: "on_grid 18 (dval a + dval b)"
    using assms(1,2) dec_ok_dscale dec_ok_grid on_grid_add by blast
  have "fits (exactContext X) (scoef_at e a + scoef_at e b) e"
    using exact_fits [of "scoef_at e a + scoef_at e b" e] e grid assms(3) by (simp only: sum)
  then obtain r where r: "x_Add X (exactContext X) a b = (r, {}, False)"
    using Add_fits assms(1,2) dec_ok_Finite e_def by blast
  then have "Form r = Finite \<and> dval r = dval a + dval b"
    using Add_exact assms(1,2) dec_ok_Finite by blast
  then show ?thesis using fromAPD_total [of r] r grid assms(3)
    by (simp add: Decimal_Add_def exactBinary_def Set_copies)
qed

lemma Sub_total:
  assumes "dec_ok a" "dec_ok b" "\<bar>dval a - dval b\<bar> < 10 ^ 20"
  shows "\<exists>c. Decimal_Sub X a b = Inr c"
proof -
  define e where "e = min (Exponent a) (Exponent b)"
  have e: "-18 \<le> e" "e \<le> 19" "e \<le> Exponent a" "e \<le> Exponent b"
    using assms(1,2) dec_ok_exponent [of a] dec_ok_exponent [of b] by (auto simp: e_def)
  have sum: "of_int (scoef_at e a - scoef_at e b) * 10 powi e = dval a - dval b"
    using dval_scoef_at e by (simp add: algebra_simps)
  have grid: "on_grid 18 (dval a - dval b)"
    using assms(1,2) dec_ok_dscale dec_ok_grid on_grid_diff by blast
  have "fits (exactContext X) (scoef_at e a - scoef_at e b) e"
    using exact_fits [of "scoef_at e a - scoef_at e b" e] e grid assms(3) by (simp only: sum)
  then obtain r where r: "x_Sub X (exactContext X) a b = (r, {}, False)"
    using Sub_fits assms(1,2) dec_ok_Finite e_def by blast
  then have "Form r = Finite \<and> dval r = dval a - dval b"
    using Sub_exact assms(1,2) dec_ok_Finite by blast
  then show ?thesis using fromAPD_total [of r] r grid assms(3)
    by (simp add: Decimal_Sub_def exactBinary_def Set_copies)
qed


lemma MulQuantized_ok:
  assumes "MulQuantized X a b s RoundHalfEven name = Inr d"
  shows "dec_ok d \<and> rounded_at s (dval a * dval b) (dval d) \<and> s \<le> 18"
proof -
  define c where "c = (if Negative a \<noteq> Negative b then - (int (Coeff a) * int (Coeff b)) else int (Coeff a) * int (Coeff b))"
  define q where "q = quantizedCoefficient c (Exponent a + Exponent b + int s) RoundHalfEven"
  have d: "NewScaled X q s = Inr d" using assms
    by (auto simp: MulQuantized_def Let_def q_def c_def)
  have "c = scoef a * scoef b" by (auto simp: c_def scoef_def)
  then have "of_int c * 10 powi (Exponent a + Exponent b + int s) = dval a * dval b * 10 ^ s"
    by (simp add: dval_def power_int_add)
  then have "half_even (dval a * dval b * 10 ^ s) q"
    using quantizedCoefficient_half_even [of c "Exponent a + Exponent b + int s"] by (simp add: q_def)
  then show ?thesis using NewScaled_ok [OF d] by (auto simp: rounded_at_def)
qed

lemma QuoQuantized_ok:
  assumes "dec_ok b" "QuoQuantized X a b s RoundHalfEven name = Inr d"
  shows "dec_ok d \<and> rounded_at s (dval a / dval b) (dval d) \<and> s \<le> 18 \<and> dval b \<noteq> 0"
proof -
  define e where "e = Exponent a - Exponent b + int s"
  define n where "n = (if 0 \<le> e then scoef a * 10 ^ nat e else scoef a)"
  define m where "m = (if 0 \<le> e then scoef b else scoef b * 10 ^ nat (- e))"
  define q where "q = roundQuotient (n sdiv m) (n smod m) m RoundHalfEven"
  have nz: "dval b \<noteq> 0" and d: "NewScaled X q s = Inr d" using assms
    by (auto simp: QuoQuantized_def Let_def q_def n_def m_def e_def scoef_def powerOfTen_def IsZero_dec
        split: if_splits)
  then have sb: "scoef b \<noteq> 0" by (auto simp: dval_def)
  then have "m \<noteq> 0" by (simp add: m_def)
  then have "half_even (of_int n / of_int m) q" using roundQuotient_rat q_def by blast
  moreover have "(of_int n / of_int m :: rat) = of_int (scoef a) / of_int (scoef b) * 10 powi e"
    by (cases "0 \<le> e") (simp_all add: n_def m_def power_int_def power_inverse field_simps)
  moreover have "\<dots> = dval a / dval b * 10 ^ s"
    by (simp add: e_def dval_def power_int_add power_int_diff)
  ultimately show ?thesis using NewScaled_ok [OF d] nz by (auto simp: rounded_at_def)
qed


lemma ParseWithMaxScale_form:
  assumes "list_all is_digit w" "w \<noteq> []" "list_all is_digit f" "length w + length f < 126"
    "length f \<le> k" "k \<le> 18"
  shows "ParseWithMaxScale X (plain_form neg w f) k = fromAPD X (plain_value (plain_form neg w f))"
  using assms by (simp add: ParseWithMaxScale_def decimal_limits validPlainDecimal_form
      lexicalScale_form NewFromString_plain plain_decimal_form)

text \<open>Parsing inverts printing, at any scale limit the value respects.\<close>

lemma Parse_String:
  assumes ok: "dec_ok d" and "dscale d \<le> k" "k \<le> 18"
  shows "ParseWithMaxScale X (Decimal_String X d) k = Inr d"
proof (cases "Coeff d = 0")
  case True
  then have d: "d = zeroDecimal" using ok by (simp add: dec_ok_def)
  have "Decimal_String X d = plain_form False ''0'' []"
    using True by (simp add: Decimal_String_def Decimal_IsZero_def IsZero dec_ok_Finite ok plain_form_def)
  moreover have "dval (plain_value (plain_form False ''0'' [])) = 0"
    by (subst plain_value_form) (simp_all add: dval_def scoef_def digits_value_def char_digit_def)
  ultimately show ?thesis using ParseWithMaxScale_form [of "''0''" "[]" k False] assms(3) d
    by (simp add: fromAPD_dval plain_value_def)
next
  case False
  obtain w f where wf: "plain_text d = plain_form (Negative d) w f" "list_all is_digit w" "w \<noteq> []"
    "list_all is_digit f" "length f = nat (- Exponent d)"
    "digits_value (w @ f) = Coeff d * 10 ^ nat (Exponent d)"
    "length w + length f \<le> 1 + ndigits (Coeff d) + nat \<bar>Exponent d\<bar>"
    using plain_text_form [OF False] by blast
  have S: "Decimal_String X d = plain_form (Negative d) w f"
    using False wf(1) by (simp add: Decimal_String_def Decimal_IsZero_def IsZero Text dec_ok_Finite ok)
  have lim: "ndigits (Coeff d) \<le> 38" "-18 \<le> Exponent d" "Exponent d \<le> 19"
    using ok False dec_ok_exponent [OF ok] by (auto simp: dec_ok_def)
  have "dval (plain_value (plain_form (Negative d) w f)) = dval d"
    using wf(2-6) by (simp add: plain_value_form dval_def scoef_def power_int_def)
  moreover have "Form (plain_value (plain_form (Negative d) w f)) = Finite" by (simp add: plain_value_def)
  ultimately have "fromAPD X (plain_value (plain_form (Negative d) w f)) = Inr d"
    using fromAPD_dval ok by simp
  moreover have "length w + length f < 126" using wf(7) lim by linarith
  ultimately show ?thesis using ParseWithMaxScale_form [OF wf(2-4)] wf(5) assms(2,3)
    by (simp add: S dscale_def)
qed

lemma Parse_String_full: "dec_ok d \<Longrightarrow> Parse X (Decimal_String X d) = Inr d"
  by (simp add: Parse_def MaxScale_def Parse_String dec_ok_dscale)

lemma ParseWithMaxScale_ok:
  assumes "ParseWithMaxScale X s k = Inr d"
  shows "dec_ok d \<and> dscale d \<le> k \<and> k \<le> 18 \<and> dval d = dval (plain_value s) \<and> validPlainDecimal s"
proof -
  have v: "validPlainDecimal s" and k: "k \<le> 18" "lexicalScale s \<le> k"
    using assms by (auto simp: ParseWithMaxScale_def MaxScale_def split: if_splits)
  obtain neg w f where s: "s = plain_form neg w f" "list_all is_digit w" "w \<noteq> []" "list_all is_digit f"
    using validPlainDecimal_obtain [OF v] by blast
  have "x_NewFromString X s = Some (plain_value s, {})"
    using s by (simp add: NewFromString_plain plain_decimal_form)
  then have "fromAPD X (plain_value s) = Inr d"
    using assms v k by (auto simp: ParseWithMaxScale_def split: if_splits)
  then have d: "dec_ok d" "dval d = dval (plain_value s)" using fromAPD_ok by auto
  have "dval (plain_value s) = of_int (scoef (plain_value s)) * 10 powi (- int (length f))"
    using s by (simp add: dval_def plain_value_form)
  then have "on_grid (length f) (dval d)" using d(2) unfolding on_grid_def by metis
  then have "dscale d \<le> length f" using dec_ok_grid d(1) by blast
  then show ?thesis using d k v s lexicalScale_form by auto
qed

lemma String_inj: "dec_ok a \<Longrightarrow> dec_ok b \<Longrightarrow> Decimal_String X a = Decimal_String X b \<Longrightarrow> a = b"
  by (metis Parse_String_full Inr_inject)

end

section \<open>Properties\<close>

lemma dec_ok_one_half [simp]: "dec_ok (mk_finite 15 (- 1))" "dec_ok (mk_finite (- 25) (- 2))"
  by code_simp+

text \<open>
  C17. Parsing inverts printing, and what is accepted is exact: the decimal that \<open>Parse\<close> returns denotes
  the number its text denotes, has at most 18 fraction digits and 20 integer digits, and printing it and
  parsing the result gives the same representation back.
\<close>

theorem parse_print_parse:
  assumes "apd_lib X" "Parse X text = Inr d"
  shows "Parse X (Decimal_String X d) = Inr d \<and> dval d = dval (plain_value text)
    \<and> Decimal_Scale X d \<le> 18 \<and> \<bar>dval d\<bar> < 10 ^ 20"
proof -
  have "dec_ok d" "dval d = dval (plain_value text)"
    using apd_lib.ParseWithMaxScale_ok [OF assms(1)] assms(2) by (auto simp: Parse_def)
  with apd_lib.Parse_String_full [OF assms(1)] apd_lib.Scale_dec [OF assms(1)] show ?thesis
    using dec_ok_dscale dec_ok_range by metis
qed

theorem parse_print_parse_witness:
  "Parse apd_ref ''-1.50'' = Inr (mk_finite (- 15) (- 1))
   \<and> Decimal_String apd_ref (mk_finite (- 15) (- 1)) = ''-1.5''
   \<and> Parse apd_ref (Decimal_String apd_ref (mk_finite (- 15) (- 1))) = Inr (mk_finite (- 15) (- 1))"
proof -
  have "Parse apd_ref ''-1.50'' = Inr (mk_finite (- 15) (- 1))" by code_simp
  moreover have "Decimal_String apd_ref (mk_finite (- 15) (- 1)) = ''-1.5''" by code_simp
  ultimately show ?thesis using parse_print_parse [OF ref.apd_lib_axioms] by blast
qed

text \<open>
  C18. Addition of canonical decimals never rounds and never fails needlessly: it succeeds exactly when
  the sum has at most 20 integer digits, and then returns the canonical decimal of the exact sum.
\<close>

theorem addition_exact_and_total:
  assumes "apd_lib X" "dec_ok a" "dec_ok b"
  shows "((\<exists>c. Decimal_Add X a b = Inr c) \<longleftrightarrow> \<bar>dval a + dval b\<bar> < 10 ^ 20)
    \<and> (\<forall>c. Decimal_Add X a b = Inr c \<longrightarrow> dec_ok c \<and> dval c = dval a + dval b)"
  using apd_lib.Add_total [OF assms] apd_lib.Add_ok [OF assms] dec_ok_range by metis

theorem addition_exact_and_total_witness:
  "Decimal_Add apd_ref (mk_finite 15 (- 1)) (mk_finite (- 25) (- 2)) = Inr (mk_finite 125 (- 2))
   \<and> dval (mk_finite 125 (- 2)) = dval (mk_finite 15 (- 1)) + dval (mk_finite (- 25) (- 2))"
proof -
  have "Decimal_Add apd_ref (mk_finite 15 (- 1)) (mk_finite (- 25) (- 2)) = Inr (mk_finite 125 (- 2))"
    by code_simp
  with addition_exact_and_total [OF ref.apd_lib_axioms dec_ok_one_half] show ?thesis by blast
qed

text \<open>
  C19. Division at a rounding boundary rounds once and to nearest, ties to even: the result is a
  multiple of \<open>10^-scale\<close>, no other multiple is closer to the exact quotient, and of two equally close
  ones it is the even one. A zero divisor is an error.
\<close>

theorem quotient_rounded_half_even:
  assumes "apd_lib X" "dec_ok b" "QuoQuantized X a b scale RoundHalfEven name = Inr d"
  shows "dval b \<noteq> 0 \<and> dec_ok d
    \<and> (\<exists>n :: int. dval d = of_int n / 10 ^ scale
         \<and> (\<forall>m :: int. \<bar>dval a / dval b - of_int n / 10 ^ scale\<bar> \<le> \<bar>dval a / dval b - of_int m / 10 ^ scale\<bar>)
         \<and> (\<forall>m :: int. m \<noteq> n \<longrightarrow> \<bar>dval a / dval b - of_int n / 10 ^ scale\<bar> = \<bar>dval a / dval b - of_int m / 10 ^ scale\<bar>
              \<longrightarrow> even n))"
  using apd_lib.QuoQuantized_ok [OF assms] rounded_at_nearest by blast

theorem quotient_rounded_half_even_witness:
  "QuoQuantized apd_ref (mk_finite (- 25) (- 2)) (mk_finite 15 (- 1)) 2 RoundHalfEven ''rate''
     = Inr (mk_finite (- 17) (- 2))
   \<and> (\<forall>m :: int. \<bar>dval (mk_finite (- 25) (- 2)) / dval (mk_finite 15 (- 1)) - dval (mk_finite (- 17) (- 2))\<bar>
       \<le> \<bar>dval (mk_finite (- 25) (- 2)) / dval (mk_finite 15 (- 1)) - of_int m / 10 ^ 2\<bar>)"
proof -
  have "QuoQuantized apd_ref (mk_finite (- 25) (- 2)) (mk_finite 15 (- 1)) 2 RoundHalfEven ''rate''
     = Inr (mk_finite (- 17) (- 2))" by code_simp
  with quotient_rounded_half_even [OF ref.apd_lib_axioms dec_ok_one_half(1) this] show ?thesis by metis
qed

end
