(* ===== verification/Domain.thy ===== *)
theory Domain
  imports Decimal
begin

text \<open>
  The package \<open>internal/domain\<close>: currencies, instrument revisions, and the unit-carrying values
  \<open>Money\<close>, \<open>Price\<close> and \<open>Quantity\<close> with their arithmetic (\<open>value.go\<close>), and the trading formulas: fees
  (\<open>fee_math.go\<close>), realized profit and loss (\<open>position_math.go\<close>), notional, margin and funding
  (\<open>risk_math.go\<close>), the quantity-weighted average price (\<open>trading_math.go\<close>) and the slippage band
  (\<open>slippage.go\<close>). A scale is a \<open>uint8\<close> in Go; it is only compared here, so it is a \<open>nat\<close>.
\<close>

section \<open>Units\<close>

record Currency =
  cur_code :: string
  cur_scale :: nat

definition validCurrencyCode :: "string \<Rightarrow> bool" where
  "validCurrencyCode code = (3 \<le> length code \<and> length code \<le> 12 \<and> utf8_ValidString code
     \<and> list_all (\<lambda>r. (65 \<le> fst r \<and> fst r \<le> 90) \<or> (48 \<le> fst r \<and> fst r \<le> 57)) (runes code))"

definition NewCurrency :: "string \<Rightarrow> nat \<Rightarrow> Currency result" where
  "NewCurrency code scale =
     (if \<not> validCurrencyCode code then Inl [ErrInvalidCurrency]
      else if MaxScale < scale then Inl [ErrUnitScale]
      else Inr \<lparr>cur_code = code, cur_scale = scale\<rparr>)"

definition zeroCurrency :: Currency where
  "zeroCurrency = \<lparr>cur_code = '''', cur_scale = 0\<rparr>"

record InstrumentRevision =
  ir_id :: string
  ir_revision :: u64
  ir_priceScale :: nat
  ir_quantityScale :: nat

definition maxInstrumentIDLength :: nat where "maxInstrumentIDLength = 255"

definition validInstrumentID :: "string \<Rightarrow> bool" where
  "validInstrumentID i = (\<not> (i = [] \<or> maxInstrumentIDLength < length i
       \<or> \<not> utf8_ValidString i \<or> \<not> TrimSpace_unchanged i)
     \<and> list_all (\<lambda>r. \<not> (unicode_IsSpace (fst r) \<or> unicode_IsControl (fst r))) (runes i))"

definition NewInstrumentRevision :: "string \<Rightarrow> u64 \<Rightarrow> nat \<Rightarrow> nat \<Rightarrow> InstrumentRevision result" where
  "NewInstrumentRevision i revision priceScale quantityScale =
     (if \<not> validInstrumentID i \<or> revision = 0 then Inl [ErrInvalidInstrument]
      else if MaxScale < priceScale \<or> MaxScale < quantityScale then Inl [ErrUnitScale]
      else Inr \<lparr>ir_id = i, ir_revision = revision, ir_priceScale = priceScale,
        ir_quantityScale = quantityScale\<rparr>)"

definition zeroInstrument :: InstrumentRevision where
  "zeroInstrument = \<lparr>ir_id = '''', ir_revision = 0, ir_priceScale = 0, ir_quantityScale = 0\<rparr>"

text \<open>\<open>NewMoney\<close>, \<open>NewPrice\<close> and \<open>NewQuantity\<close> add their own sentinel to a scale error of the parser.\<close>

definition wrapScale :: "'a result \<Rightarrow> 'a result" where
  "wrapScale r = (case r of
     Inl e \<Rightarrow> if errors_Is e ErrScale then Inl (ErrUnitScale # e) else Inl e | Inr x \<Rightarrow> Inr x)"

section \<open>Money\<close>

record Money =
  m_amount :: Decimal
  m_currency :: Currency

definition zeroMoney :: Money where
  "zeroMoney = \<lparr>m_amount = zeroDecimal, m_currency = zeroCurrency\<rparr>"

definition moneyFromDecimal :: "Extern \<Rightarrow> Decimal \<Rightarrow> Currency \<Rightarrow> Money result" where
  "moneyFromDecimal X amount currency =
     (if cur_code currency = [] then Inl [ErrInvalidCurrency]
      else if cur_scale currency < Decimal_Scale X amount then Inl [ErrUnitScale]
      else Inr \<lparr>m_amount = amount, m_currency = currency\<rparr>)"

definition NewMoney :: "Extern \<Rightarrow> string \<Rightarrow> Currency \<Rightarrow> Money result" where
  "NewMoney X text currency =
     (if cur_code currency = [] then Inl [ErrInvalidCurrency]
      else and_then (wrapScale (ParseWithMaxScale X text (cur_scale currency)))
        (\<lambda>amount. moneyFromDecimal X amount currency))"

definition Money_Add :: "Extern \<Rightarrow> Money \<Rightarrow> Money \<Rightarrow> Money result" where
  "Money_Add X m other = (if m_currency m \<noteq> m_currency other then Inl [ErrUnitMismatch]
     else and_then (Decimal_Add X (m_amount m) (m_amount other))
       (\<lambda>r. moneyFromDecimal X r (m_currency m)))"

definition Money_Sub :: "Extern \<Rightarrow> Money \<Rightarrow> Money \<Rightarrow> Money result" where
  "Money_Sub X m other = (if m_currency m \<noteq> m_currency other then Inl [ErrUnitMismatch]
     else and_then (Decimal_Sub X (m_amount m) (m_amount other))
       (\<lambda>r. moneyFromDecimal X r (m_currency m)))"

definition Money_String :: "Extern \<Rightarrow> Money \<Rightarrow> string" where
  "Money_String X m = Decimal_String X (m_amount m) @ '' '' @ cur_code (m_currency m)"

section \<open>Price\<close>

record Price =
  p_value :: Decimal
  p_instrument :: InstrumentRevision

definition zeroPrice :: Price where
  "zeroPrice = \<lparr>p_value = zeroDecimal, p_instrument = zeroInstrument\<rparr>"

definition priceFromDecimal :: "Extern \<Rightarrow> Decimal \<Rightarrow> InstrumentRevision \<Rightarrow> Price result" where
  "priceFromDecimal X v instrument =
     (if ir_id instrument = [] then Inl [ErrInvalidInstrument]
      else if ir_priceScale instrument < Decimal_Scale X v then Inl [ErrUnitScale]
      else Inr \<lparr>p_value = v, p_instrument = instrument\<rparr>)"

definition NewPrice :: "Extern \<Rightarrow> string \<Rightarrow> InstrumentRevision \<Rightarrow> Price result" where
  "NewPrice X text instrument =
     (if ir_id instrument = [] then Inl [ErrInvalidInstrument]
      else and_then (wrapScale (ParseWithMaxScale X text (ir_priceScale instrument)))
        (\<lambda>v. priceFromDecimal X v instrument))"

definition NewPriceScaled :: "Extern \<Rightarrow> int \<Rightarrow> nat \<Rightarrow> InstrumentRevision \<Rightarrow> Price result" where
  "NewPriceScaled X coefficient scale instrument =
     (if ir_id instrument = [] then Inl [ErrInvalidInstrument]
      else and_then (NewScaled X coefficient scale) (\<lambda>v. priceFromDecimal X v instrument))"

definition Price_Add :: "Extern \<Rightarrow> Price \<Rightarrow> Price \<Rightarrow> Price result" where
  "Price_Add X p other = (if p_instrument p \<noteq> p_instrument other then Inl [ErrUnitMismatch]
     else and_then (Decimal_Add X (p_value p) (p_value other))
       (\<lambda>v. priceFromDecimal X v (p_instrument p)))"

definition Price_Sub :: "Extern \<Rightarrow> Price \<Rightarrow> Price \<Rightarrow> Price result" where
  "Price_Sub X p other = (if p_instrument p \<noteq> p_instrument other then Inl [ErrUnitMismatch]
     else and_then (Decimal_Sub X (p_value p) (p_value other))
       (\<lambda>v. priceFromDecimal X v (p_instrument p)))"

section \<open>Quantity\<close>

record Quantity =
  q_value :: Decimal
  q_instrument :: InstrumentRevision

definition zeroQuantity :: Quantity where
  "zeroQuantity = \<lparr>q_value = zeroDecimal, q_instrument = zeroInstrument\<rparr>"

definition quantityFromDecimal :: "Extern \<Rightarrow> Decimal \<Rightarrow> InstrumentRevision \<Rightarrow> Quantity result" where
  "quantityFromDecimal X v instrument =
     (if ir_id instrument = [] then Inl [ErrInvalidInstrument]
      else if Decimal_Sign X v < 0 then Inl [ErrNegativeQuantity]
      else if ir_quantityScale instrument < Decimal_Scale X v then Inl [ErrUnitScale]
      else Inr \<lparr>q_value = v, q_instrument = instrument\<rparr>)"

definition NewQuantity :: "Extern \<Rightarrow> string \<Rightarrow> InstrumentRevision \<Rightarrow> Quantity result" where
  "NewQuantity X text instrument =
     (if ir_id instrument = [] then Inl [ErrInvalidInstrument]
      else and_then (wrapScale (ParseWithMaxScale X text (ir_quantityScale instrument)))
        (\<lambda>v. quantityFromDecimal X v instrument))"

definition Quantity_Add :: "Extern \<Rightarrow> Quantity \<Rightarrow> Quantity \<Rightarrow> Quantity result" where
  "Quantity_Add X q other = (if q_instrument q \<noteq> q_instrument other then Inl [ErrUnitMismatch]
     else and_then (Decimal_Add X (q_value q) (q_value other))
       (\<lambda>v. quantityFromDecimal X v (q_instrument q)))"

definition Quantity_Sub :: "Extern \<Rightarrow> Quantity \<Rightarrow> Quantity \<Rightarrow> Quantity result" where
  "Quantity_Sub X q other = (if q_instrument q \<noteq> q_instrument other then Inl [ErrUnitMismatch]
     else and_then (Decimal_Sub X (q_value q) (q_value other))
       (\<lambda>v. quantityFromDecimal X v (q_instrument q)))"

section \<open>Rates and ratios\<close>

record Rate =
  rate_value :: Decimal

record Ratio =
  ratio_value :: Decimal

definition NewRate :: "Extern \<Rightarrow> string \<Rightarrow> Rate result" where
  "NewRate X text = and_then (Parse X text) (\<lambda>v. Inr \<lparr>rate_value = v\<rparr>)"

definition NewRatio :: "Extern \<Rightarrow> string \<Rightarrow> Ratio result" where
  "NewRatio X text = and_then (Parse X text) (\<lambda>v. Inr \<lparr>ratio_value = v\<rparr>)"

text \<open>\<open>BasisPoints\<close> is an \<open>int32\<close>.\<close>

definition BasisPoints_Rate :: "Extern \<Rightarrow> 32 word \<Rightarrow> Rate result" where
  "BasisPoints_Rate X b = and_then (NewScaled X (sint b) 4) (\<lambda>v. Inr \<lparr>rate_value = v\<rparr>)"

section \<open>Trading formulas\<close>

text \<open>The last step of every formula: print the rounded amount and parse it as money.\<close>

definition TradingFee :: "Extern \<Rightarrow> Price \<Rightarrow> Quantity \<Rightarrow> Rate \<Rightarrow> Currency \<Rightarrow> Money result" where
  "TradingFee X price quantity rate settlementCurrency =
     (if p_instrument price \<noteq> q_instrument quantity then Inl [ErrUnitMismatch] else
      and_then (Parse X ''1'') (\<lambda>one.
      and_then (Parse X ''-1'') (\<lambda>negativeOne.
      if 0 < Decimal_Cmp X (rate_value rate) one \<or> Decimal_Cmp X (rate_value rate) negativeOne < 0
      then Inl [ErrInvalidFeeRate] else
      and_then (Decimal_Mul X (p_value price) (q_value quantity)) (\<lambda>notional.
      and_then (MulQuantized X notional (rate_value rate) (cur_scale settlementCurrency)
          RoundHalfEven ''trading fee'') (\<lambda>amount.
      NewMoney X (Decimal_String X amount) settlementCurrency)))))"

definition RealizedPnL ::
  "Extern \<Rightarrow> Price \<Rightarrow> Price \<Rightarrow> Quantity \<Rightarrow> bool \<Rightarrow> Currency \<Rightarrow> Money result"
where
  "RealizedPnL X entry exit quantity long settlementCurrency =
     (if p_instrument entry \<noteq> p_instrument exit \<or> p_instrument entry \<noteq> q_instrument quantity
      then Inl [ErrUnitMismatch] else
      and_then (if long then Price_Sub X exit entry else Price_Sub X entry exit) (\<lambda>priceChange.
      and_then (MulQuantized X (p_value priceChange) (q_value quantity)
          (cur_scale settlementCurrency) RoundHalfEven ''position realized PnL'') (\<lambda>amount.
      NewMoney X (Decimal_String X amount) settlementCurrency)))"

definition PositionNotional :: "Extern \<Rightarrow> Price \<Rightarrow> Quantity \<Rightarrow> Currency \<Rightarrow> Money result" where
  "PositionNotional X price quantity settlementCurrency =
     (if p_instrument price \<noteq> q_instrument quantity then Inl [ErrUnitMismatch] else
      and_then (MulQuantized X (p_value price) (q_value quantity) (cur_scale settlementCurrency)
          RoundHalfEven ''position notional'') (\<lambda>amount.
      NewMoney X (Decimal_String X amount) settlementCurrency))"

definition PositionMargin ::
  "Extern \<Rightarrow> Price \<Rightarrow> Quantity \<Rightarrow> Rate \<Rightarrow> Ratio \<Rightarrow> Currency \<Rightarrow> Money result"
where
  "PositionMargin X price quantity marginRate leverage settlementCurrency =
     (if p_instrument price \<noteq> q_instrument quantity then Inl [ErrUnitMismatch]
      else if Decimal_Sign X (rate_value marginRate) < 0 then Inl [ErrInvalidMarginRate]
      else if Decimal_Sign X (ratio_value leverage) \<le> 0 then Inl [ErrInvalidLeverage] else
      and_then (Decimal_Mul X (p_value price) (q_value quantity)) (\<lambda>notional.
      and_then (Decimal_Mul X notional (rate_value marginRate)) (\<lambda>numerator.
      and_then (QuoQuantized X numerator (ratio_value leverage) (cur_scale settlementCurrency)
          RoundHalfEven ''position used margin'') (\<lambda>amount.
      NewMoney X (Decimal_String X amount) settlementCurrency))))"

definition FundingPayment ::
  "Extern \<Rightarrow> Price \<Rightarrow> Quantity \<Rightarrow> Rate \<Rightarrow> bool \<Rightarrow> Currency \<Rightarrow> Money result"
where
  "FundingPayment X oraclePrice quantity rate long settlementCurrency =
     (if p_instrument oraclePrice \<noteq> q_instrument quantity then Inl [ErrUnitMismatch] else
      and_then (Decimal_Mul X (p_value oraclePrice) (q_value quantity)) (\<lambda>notional.
      and_then (MulQuantized X notional (rate_value rate) (cur_scale settlementCurrency)
          RoundHalfEven ''funding payment'') (\<lambda>amount.
      and_then (if long then Decimal_Sub X zeroDecimal amount else Inr amount) (\<lambda>signed.
      NewMoney X (Decimal_String X signed) settlementCurrency))))"

record PriceQuantity =
  pq_Price :: Price
  pq_Quantity :: Quantity

fun weighted_totals ::
  "Extern \<Rightarrow> InstrumentRevision \<Rightarrow> PriceQuantity list \<Rightarrow> Decimal \<Rightarrow> Decimal \<Rightarrow> (Decimal \<times> Decimal) result"
where
  "weighted_totals X instrument [] totalNotional totalQuantity = Inr (totalNotional, totalQuantity)"
| "weighted_totals X instrument (v # vs) totalNotional totalQuantity =
     (if p_instrument (pq_Price v) \<noteq> instrument \<or> q_instrument (pq_Quantity v) \<noteq> instrument
      then Inl [ErrUnitMismatch] else
      and_then (Decimal_Mul X (p_value (pq_Price v)) (q_value (pq_Quantity v))) (\<lambda>notional.
      and_then (Decimal_Add X totalNotional notional) (\<lambda>tn.
      and_then (Decimal_Add X totalQuantity (q_value (pq_Quantity v))) (\<lambda>tq.
      weighted_totals X instrument vs tn tq))))"

definition WeightedAveragePrice :: "Extern \<Rightarrow> PriceQuantity list \<Rightarrow> Price result" where
  "WeightedAveragePrice X values = (case values of [] \<Rightarrow> Inl [ErrEmptyPriceQuantity] | v # _ \<Rightarrow>
     let instrument = p_instrument (pq_Price v) in
     and_then (weighted_totals X instrument values zeroDecimal zeroDecimal)
       (\<lambda>(totalNotional, totalQuantity).
     if Decimal_IsZero X totalQuantity then Inl [ErrEmptyPriceQuantity] else
     and_then (QuoQuantized X totalNotional totalQuantity (ir_priceScale instrument)
         RoundHalfEven ''weighted average fill price'') (\<lambda>average.
     priceFromDecimal X average instrument)))"

definition PriceWithinAdverseBasisPoints ::
  "Extern \<Rightarrow> Price \<Rightarrow> Price \<Rightarrow> bool \<Rightarrow> u32 \<Rightarrow> bool result"
where
  "PriceWithinAdverseBasisPoints X reference candidate buy basisPoints =
     (if p_instrument reference \<noteq> p_instrument candidate then Inl [ErrUnitMismatch]
      else if Decimal_Sign X (p_value reference) \<le> 0 \<or> Decimal_Sign X (p_value candidate) \<le> 0
      then Inl [ErrInvalidReferencePrice] else
      and_then (if buy then Decimal_Sub X (p_value candidate) (p_value reference)
                else Decimal_Sub X (p_value reference) (p_value candidate)) (\<lambda>adverse.
      if Decimal_Sign X adverse \<le> 0 then Inr True else
      and_then (NewScaled X (int (unat basisPoints)) 4) (\<lambda>rate.
      and_then (Decimal_Mul X (p_value reference) rate) (\<lambda>maximumAdverse.
      Inr (Decimal_Cmp X adverse maximumAdverse \<le> 0)))))"

section \<open>Well-formed values\<close>

definition money_ok :: "Money \<Rightarrow> bool" where
  "money_ok m = (dec_ok (m_amount m) \<and> dscale (m_amount m) \<le> cur_scale (m_currency m)
     \<and> cur_code (m_currency m) \<noteq> [])"

definition price_ok :: "Price \<Rightarrow> bool" where
  "price_ok p = (dec_ok (p_value p) \<and> dscale (p_value p) \<le> ir_priceScale (p_instrument p)
     \<and> ir_id (p_instrument p) \<noteq> [])"

definition qty_ok :: "Quantity \<Rightarrow> bool" where
  "qty_ok q = (dec_ok (q_value q) \<and> dscale (q_value q) \<le> ir_quantityScale (q_instrument q)
     \<and> ir_id (q_instrument q) \<noteq> [] \<and> 0 \<le> dval (q_value q))"

definition mval :: "Money \<Rightarrow> rat" where "mval m = dval (m_amount m)"
definition pval :: "Price \<Rightarrow> rat" where "pval p = dval (p_value p)"
definition qval :: "Quantity \<Rightarrow> rat" where "qval q = dval (q_value q)"

lemmas unit_defs = money_ok_def price_ok_def qty_ok_def mval_def pval_def qval_def

definition rate_ok :: "Rate \<Rightarrow> bool" where "rate_ok r = dec_ok (rate_value r)"
definition ratio_ok :: "Ratio \<Rightarrow> bool" where "ratio_ok r = dec_ok (ratio_value r)"


section \<open>Shared arithmetic contract\<close>

text \<open>
  The contract that \<open>Money\<close>, \<open>Price\<close> and \<open>Quantity\<close> share: arithmetic is exact, keeps the unit and
  refuses operands of different units, and a value is determined by its unit and its number.
\<close>

locale unit_arith =
  fixes add sub :: "'v \<Rightarrow> 'v \<Rightarrow> 'v result"
    and val :: "'v \<Rightarrow> rat" and unit :: "'v \<Rightarrow> 'u" and ok :: "'v \<Rightarrow> bool"
  assumes add_ok: "ok a \<Longrightarrow> ok b \<Longrightarrow> add a b = Inr c \<Longrightarrow>
      ok c \<and> val c = val a + val b \<and> unit c = unit a \<and> unit b = unit a"
    and sub_ok: "ok a \<Longrightarrow> ok b \<Longrightarrow> sub a b = Inr c \<Longrightarrow>
      ok c \<and> val c = val a - val b \<and> unit c = unit a \<and> unit b = unit a"
    and add_total: "ok a \<Longrightarrow> ok b \<Longrightarrow> unit a = unit b \<Longrightarrow> ok c \<Longrightarrow> unit c = unit a \<Longrightarrow>
      val c = val a + val b \<Longrightarrow> add a b = Inr c"
    and sub_total: "ok a \<Longrightarrow> ok b \<Longrightarrow> unit a = unit b \<Longrightarrow> ok c \<Longrightarrow> unit c = unit a \<Longrightarrow>
      val c = val a - val b \<Longrightarrow> sub a b = Inr c"
    and mismatch: "unit a \<noteq> unit b \<Longrightarrow> add a b = Inl [ErrUnitMismatch] \<and> sub a b = Inl [ErrUnitMismatch]"
begin

lemma sub_add_cancel: "ok a \<Longrightarrow> ok b \<Longrightarrow> add a b = Inr c \<Longrightarrow> sub c b = Inr a"
  using add_ok [of a b c] by (intro sub_total) auto

lemma add_sub_cancel: "ok a \<Longrightarrow> ok b \<Longrightarrow> sub a b = Inr c \<Longrightarrow> add c b = Inr a"
  using sub_ok [of a b c] by (intro add_total) auto

lemma add_commute: "ok a \<Longrightarrow> ok b \<Longrightarrow> add a b = Inr c \<Longrightarrow> add b a = Inr c"
  using add_ok [of a b c] by (intro add_total) (auto simp: add.commute)

end

context apd_lib
begin

lemma moneyFromDecimal_ok:
  "dec_ok d \<Longrightarrow> moneyFromDecimal X d c = Inr m \<longleftrightarrow>
     cur_code c \<noteq> [] \<and> dscale d \<le> cur_scale c \<and> m = \<lparr>m_amount = d, m_currency = c\<rparr>"
  by (auto simp: moneyFromDecimal_def Scale_dec)

lemma priceFromDecimal_ok:
  "dec_ok d \<Longrightarrow> priceFromDecimal X d i = Inr p \<longleftrightarrow>
     ir_id i \<noteq> [] \<and> dscale d \<le> ir_priceScale i \<and> p = \<lparr>p_value = d, p_instrument = i\<rparr>"
  by (auto simp: priceFromDecimal_def Scale_dec)

lemma quantityFromDecimal_ok:
  "dec_ok d \<Longrightarrow> quantityFromDecimal X d i = Inr q \<longleftrightarrow>
     ir_id i \<noteq> [] \<and> 0 \<le> dval d \<and> dscale d \<le> ir_quantityScale i \<and> q = \<lparr>q_value = d, q_instrument = i\<rparr>"
  by (auto simp: quantityFromDecimal_def Scale_dec Sign_dec)

lemmas fromDecimal_ok = moneyFromDecimal_ok priceFromDecimal_ok quantityFromDecimal_ok

lemma Add_exists: "dec_ok a \<Longrightarrow> dec_ok b \<Longrightarrow> dec_ok c \<Longrightarrow> dval c = dval a + dval b \<Longrightarrow> Decimal_Add X a b = Inr c"
  by (metis Add_ok Add_total dec_ok_range dec_ok_unique)

lemma Sub_exists: "dec_ok a \<Longrightarrow> dec_ok b \<Longrightarrow> dec_ok c \<Longrightarrow> dval c = dval a - dval b \<Longrightarrow> Decimal_Sub X a b = Inr c"
  by (metis Sub_ok Sub_total dec_ok_range dec_ok_unique)

lemma money_arith: "unit_arith (Money_Add X) (Money_Sub X) mval m_currency money_ok"
proof
  fix a b c
  assume ok: "money_ok a" "money_ok b"
  show "Money_Add X a b = Inr c \<Longrightarrow> money_ok c \<and> mval c = mval a + mval b
      \<and> m_currency c = m_currency a \<and> m_currency b = m_currency a"
    using ok Add_ok [of "m_amount a" "m_amount b"]
    by (auto simp: Money_Add_def unit_defs fromDecimal_ok split: if_splits)
  show "Money_Sub X a b = Inr c \<Longrightarrow> money_ok c \<and> mval c = mval a - mval b
      \<and> m_currency c = m_currency a \<and> m_currency b = m_currency a"
    using ok Sub_ok [of "m_amount a" "m_amount b"]
    by (auto simp: Money_Sub_def unit_defs fromDecimal_ok split: if_splits)
  assume eq: "m_currency a = m_currency b" "money_ok c" "m_currency c = m_currency a"
  show "mval c = mval a + mval b \<Longrightarrow> Money_Add X a b = Inr c"
    using ok eq Add_exists [of "m_amount a" "m_amount b" "m_amount c"]
    by (auto simp: Money_Add_def unit_defs fromDecimal_ok)
  show "mval c = mval a - mval b \<Longrightarrow> Money_Sub X a b = Inr c"
    using ok eq Sub_exists [of "m_amount a" "m_amount b" "m_amount c"]
    by (auto simp: Money_Sub_def unit_defs fromDecimal_ok)
qed (simp add: Money_Add_def Money_Sub_def)

lemma price_arith: "unit_arith (Price_Add X) (Price_Sub X) pval p_instrument price_ok"
proof
  fix a b c
  assume ok: "price_ok a" "price_ok b"
  show "Price_Add X a b = Inr c \<Longrightarrow> price_ok c \<and> pval c = pval a + pval b
      \<and> p_instrument c = p_instrument a \<and> p_instrument b = p_instrument a"
    using ok Add_ok [of "p_value a" "p_value b"]
    by (auto simp: Price_Add_def unit_defs fromDecimal_ok split: if_splits)
  show "Price_Sub X a b = Inr c \<Longrightarrow> price_ok c \<and> pval c = pval a - pval b
      \<and> p_instrument c = p_instrument a \<and> p_instrument b = p_instrument a"
    using ok Sub_ok [of "p_value a" "p_value b"]
    by (auto simp: Price_Sub_def unit_defs fromDecimal_ok split: if_splits)
  assume eq: "p_instrument a = p_instrument b" "price_ok c" "p_instrument c = p_instrument a"
  show "pval c = pval a + pval b \<Longrightarrow> Price_Add X a b = Inr c"
    using ok eq Add_exists [of "p_value a" "p_value b" "p_value c"]
    by (auto simp: Price_Add_def unit_defs fromDecimal_ok)
  show "pval c = pval a - pval b \<Longrightarrow> Price_Sub X a b = Inr c"
    using ok eq Sub_exists [of "p_value a" "p_value b" "p_value c"]
    by (auto simp: Price_Sub_def unit_defs fromDecimal_ok)
qed (simp add: Price_Add_def Price_Sub_def)

lemma quantity_arith: "unit_arith (Quantity_Add X) (Quantity_Sub X) qval q_instrument qty_ok"
proof
  fix a b c
  assume ok: "qty_ok a" "qty_ok b"
  show "Quantity_Add X a b = Inr c \<Longrightarrow> qty_ok c \<and> qval c = qval a + qval b
      \<and> q_instrument c = q_instrument a \<and> q_instrument b = q_instrument a"
    using ok Add_ok [of "q_value a" "q_value b"]
    by (auto simp: Quantity_Add_def unit_defs fromDecimal_ok split: if_splits)
  show "Quantity_Sub X a b = Inr c \<Longrightarrow> qty_ok c \<and> qval c = qval a - qval b
      \<and> q_instrument c = q_instrument a \<and> q_instrument b = q_instrument a"
    using ok Sub_ok [of "q_value a" "q_value b"]
    by (auto simp: Quantity_Sub_def unit_defs fromDecimal_ok split: if_splits)
  assume eq: "q_instrument a = q_instrument b" "qty_ok c" "q_instrument c = q_instrument a"
  show "qval c = qval a + qval b \<Longrightarrow> Quantity_Add X a b = Inr c"
    using ok eq Add_exists [of "q_value a" "q_value b" "q_value c"]
    by (auto simp: Quantity_Add_def unit_defs fromDecimal_ok)
  show "qval c = qval a - qval b \<Longrightarrow> Quantity_Sub X a b = Inr c"
    using ok eq Sub_exists [of "q_value a" "q_value b" "q_value c"]
    by (auto simp: Quantity_Sub_def unit_defs fromDecimal_ok)
qed (simp add: Quantity_Add_def Quantity_Sub_def)

end

sublocale apd_lib \<subseteq> money: unit_arith "Money_Add X" "Money_Sub X" mval m_currency money_ok
  by (rule money_arith)

sublocale apd_lib \<subseteq> price: unit_arith "Price_Add X" "Price_Sub X" pval p_instrument price_ok
  by (rule price_arith)

sublocale apd_lib \<subseteq> quantity: unit_arith "Quantity_Add X" "Quantity_Sub X" qval q_instrument qty_ok
  by (rule quantity_arith)


section \<open>Rounding and the grid\<close>

text \<open>Rounding to the grid never crosses a point of the grid.\<close>

lemma half_even_mono_upper: "half_even v q \<Longrightarrow> v \<le> of_int g \<Longrightarrow> q \<le> g"
proof (rule ccontr)
  assume h: "half_even v q" and v: "v \<le> of_int g" and "\<not> q \<le> g"
  then have "(of_int g :: rat) + 1 \<le> of_int q" by (metis linorder_not_le of_int_1 of_int_add of_int_le_iff zless_imp_add1_zle)
  with v have "1 \<le> of_int q - v" by linarith
  with h show False by (simp add: half_even_def abs_if split: if_splits)
qed

lemma half_even_neg: "half_even v q \<Longrightarrow> half_even (- v) (- q)"
proof -
  have "\<bar>- v - of_int (- q)\<bar> = \<bar>v - of_int q\<bar>" by simp
  then show "half_even v q \<Longrightarrow> half_even (- v) (- q)" by (simp only: half_even_def) simp
qed

lemma rounded_at_le: "rounded_at s v w \<Longrightarrow> on_grid s g \<Longrightarrow> v \<le> g \<Longrightarrow> w \<le> g"
proof -
  assume "rounded_at s v w" "on_grid s g" "v \<le> g"
  then obtain q n where q: "w = of_int q * 10 powi (- int s)" "half_even (v * 10 ^ s) q"
    and g: "g = of_int n * 10 powi (- int s)" by (auto simp: rounded_at_def on_grid_def)
  have "v * 10 ^ s \<le> of_int n" using \<open>v \<le> g\<close> by (simp add: g power_int_minus field_simps)
  then have "q \<le> n" using q(2) half_even_mono_upper by blast
  then show ?thesis by (simp add: q g)
qed

lemma rounded_at_neg: "rounded_at s v w \<Longrightarrow> rounded_at s (- v) (- w)"
  unfolding rounded_at_def using half_even_neg by (metis minus_mult_left of_int_minus)

lemma on_grid_neg: "on_grid s v \<Longrightarrow> on_grid s (- v)"
  unfolding on_grid_def by (metis minus_mult_left of_int_minus)

lemma rounded_at_ge: "rounded_at s v w \<Longrightarrow> on_grid s g \<Longrightarrow> g \<le> v \<Longrightarrow> g \<le> w"
  using rounded_at_le [OF rounded_at_neg on_grid_neg] by fastforce

lemma rounded_at_0: "rounded_at s 0 w \<Longrightarrow> w = 0"
  using rounded_at_unique [OF _ rounded_at_exact [of s 0]] by simp

lemma weighted_mean_le:
  assumes "\<forall>v \<in> set vs. (0::rat) \<le> w v \<and> x v \<le> g"
  shows "(\<Sum>v\<leftarrow>vs. x v * w v) \<le> g * (\<Sum>v\<leftarrow>vs. w v)"
  using assms by (induction vs) (auto simp: distrib_left intro: add_mono mult_right_mono)

lemma weighted_mean_ge:
  assumes "\<forall>v \<in> set vs. (0::rat) \<le> w v \<and> g \<le> x v"
  shows "g * (\<Sum>v\<leftarrow>vs. w v) \<le> (\<Sum>v\<leftarrow>vs. x v * w v)"
  using assms by (induction vs) (auto simp: distrib_left intro: add_mono mult_right_mono)


section \<open>What the formulas compute\<close>

context apd_lib
begin

lemma wrapScale_Inr [simp]: "wrapScale r = Inr x \<longleftrightarrow> r = Inr x"
  by (auto simp: wrapScale_def split: sum.splits if_splits)

lemma NewMoney_ok: "NewMoney X t c = Inr m \<Longrightarrow> money_ok m \<and> m_currency m = c \<and> mval m = dval (plain_value t)"
  by (auto simp: NewMoney_def unit_defs fromDecimal_ok split: if_splits dest!: ParseWithMaxScale_ok)

lemma NewPrice_ok: "NewPrice X t i = Inr p \<Longrightarrow> price_ok p \<and> p_instrument p = i \<and> pval p = dval (plain_value t)"
  by (auto simp: NewPrice_def unit_defs fromDecimal_ok split: if_splits dest!: ParseWithMaxScale_ok)

lemma NewQuantity_ok: "NewQuantity X t i = Inr q \<Longrightarrow> qty_ok q \<and> q_instrument q = i \<and> qval q = dval (plain_value t)"
  by (auto simp: NewQuantity_def unit_defs fromDecimal_ok split: if_splits dest!: ParseWithMaxScale_ok)

lemma NewRate_ok: "NewRate X t = Inr r \<Longrightarrow> rate_ok r"
  by (auto simp: NewRate_def Parse_def rate_ok_def dest!: ParseWithMaxScale_ok)

lemma NewRatio_ok: "NewRatio X t = Inr r \<Longrightarrow> ratio_ok r"
  by (auto simp: NewRatio_def Parse_def ratio_ok_def dest!: ParseWithMaxScale_ok)

lemma NewMoney_String:
  assumes "dec_ok d"
  shows "NewMoney X (Decimal_String X d) c = Inr m \<Longrightarrow> m = \<lparr>m_amount = d, m_currency = c\<rparr> \<and> money_ok m"
proof -
  assume m: "NewMoney X (Decimal_String X d) c = Inr m"
  then obtain v where v: "ParseWithMaxScale X (Decimal_String X d) (cur_scale c) = Inr v"
    "moneyFromDecimal X v c = Inr m" by (auto simp: NewMoney_def split: if_splits)
  have ok: "dec_ok v" "dscale v \<le> cur_scale c" "cur_scale c \<le> 18"
    using ParseWithMaxScale_ok [OF v(1)] by auto
  have "v = d"
  proof -
    have "ParseWithMaxScale X (Decimal_String X d) 18 = Inr v"
      using v(1) ok(3) by (auto simp: ParseWithMaxScale_def MaxScale_def split: if_splits)
    with Parse_String [OF assms dec_ok_dscale [OF assms]] show ?thesis by simp
  qed
  with v(2) ok show ?thesis by (auto simp: fromDecimal_ok unit_defs)
qed

lemma settle_amount:
  assumes "dec_ok d" "rounded_at (cur_scale c) v (dval d)" "NewMoney X (Decimal_String X d) c = Inr m"
  shows "money_ok m \<and> m_currency m = c \<and> rounded_at (cur_scale c) v (mval m)"
  using NewMoney_String [OF assms(1,3)] assms(2) by (auto simp: mval_def)

lemma TradingFee_ok:
  assumes "TradingFee X p q r c = Inr m" "price_ok p" "qty_ok q" "rate_ok r"
  shows "money_ok m \<and> m_currency m = c \<and> rounded_at (cur_scale c) (pval p * qval q * dval (rate_value r)) (mval m)
    \<and> p_instrument p = q_instrument q"
proof -
  obtain n a where n: "Decimal_Mul X (p_value p) (q_value q) = Inr n"
    and a: "MulQuantized X n (rate_value r) (cur_scale c) RoundHalfEven ''trading fee'' = Inr a"
    and m: "NewMoney X (Decimal_String X a) c = Inr m" and i: "p_instrument p = q_instrument q"
    using assms(1) by (auto simp: TradingFee_def split: if_splits)
  have "dval n = pval p * qval q" using Mul_ok [OF _ _ n] assms(2,3) by (auto simp: unit_defs)
  with MulQuantized_ok [OF a] settle_amount [OF _ _ m] i show ?thesis by metis
qed

lemma RealizedPnL_ok:
  assumes "RealizedPnL X entry ex q long c = Inr m" "price_ok entry" "price_ok ex" "qty_ok q"
  shows "money_ok m \<and> m_currency m = c
    \<and> rounded_at (cur_scale c) ((if long then pval ex - pval entry else pval entry - pval ex) * qval q) (mval m)"
proof -
  obtain ch a where ch: "(if long then Price_Sub X ex entry else Price_Sub X entry ex) = Inr ch"
    and a: "MulQuantized X (p_value ch) (q_value q) (cur_scale c) RoundHalfEven ''position realized PnL'' = Inr a"
    and m: "NewMoney X (Decimal_String X a) c = Inr m"
    using assms(1) by (auto simp: RealizedPnL_def split: if_splits)
  have "dval (p_value ch) = (if long then pval ex - pval entry else pval entry - pval ex)"
    using ch assms(2,3) price.sub_ok [of ex entry ch] price.sub_ok [of entry ex ch]
    by (auto simp: pval_def split: if_splits)
  with MulQuantized_ok [OF a] settle_amount [OF _ _ m] show ?thesis by (metis qval_def)
qed

lemma PositionNotional_ok:
  assumes "PositionNotional X p q c = Inr m"
  shows "money_ok m \<and> m_currency m = c \<and> rounded_at (cur_scale c) (pval p * qval q) (mval m)"
proof -
  obtain a where a: "MulQuantized X (p_value p) (q_value q) (cur_scale c) RoundHalfEven ''position notional'' = Inr a"
    and m: "NewMoney X (Decimal_String X a) c = Inr m"
    using assms(1) by (auto simp: PositionNotional_def split: if_splits)
  with MulQuantized_ok [OF a] settle_amount [OF _ _ m] show ?thesis by (auto simp: unit_defs)
qed

lemma PositionMargin_ok:
  assumes "PositionMargin X p q r l c = Inr m" "price_ok p" "qty_ok q" "rate_ok r" "ratio_ok l"
  shows "money_ok m \<and> m_currency m = c \<and> 0 < dval (ratio_value l) \<and> 0 \<le> dval (rate_value r)
    \<and> rounded_at (cur_scale c) (pval p * qval q * dval (rate_value r) / dval (ratio_value l)) (mval m)"
proof -
  obtain n k a where n: "Decimal_Mul X (p_value p) (q_value q) = Inr n"
    and k: "Decimal_Mul X n (rate_value r) = Inr k"
    and a: "QuoQuantized X k (ratio_value l) (cur_scale c) RoundHalfEven ''position used margin'' = Inr a"
    and m: "NewMoney X (Decimal_String X a) c = Inr m"
    and s: "0 < dval (ratio_value l)" "0 \<le> dval (rate_value r)"
    using assms(1,4,5) by (auto simp: PositionMargin_def Sign_dec rate_ok_def ratio_ok_def split: if_splits)
  have nv: "dec_ok n \<and> dval n = pval p * qval q" using Mul_ok [OF _ _ n] assms(2,3) by (auto simp: unit_defs)
  then have "dval k = pval p * qval q * dval (rate_value r)" using Mul_ok [OF _ _ k] assms(4) by (auto simp: rate_ok_def)
  with QuoQuantized_ok [OF _ a] settle_amount [OF _ _ m] s assms(5) show ?thesis
    by (metis ratio_ok_def)
qed

lemma FundingPayment_ok:
  assumes "FundingPayment X p q r long c = Inr m" "price_ok p" "qty_ok q" "rate_ok r"
  shows "money_ok m \<and> m_currency m = c
    \<and> rounded_at (cur_scale c) ((if long then -1 else 1) * (pval p * qval q * dval (rate_value r))) (mval m)"
proof -
  have i: "p_instrument p = q_instrument q" using assms(1) by (simp add: FundingPayment_def split: if_splits)
  obtain n a s where n: "Decimal_Mul X (p_value p) (q_value q) = Inr n"
    and a: "MulQuantized X n (rate_value r) (cur_scale c) RoundHalfEven ''funding payment'' = Inr a"
    and s: "(if long then Decimal_Sub X zeroDecimal a else Inr a) = Inr s"
    and m: "NewMoney X (Decimal_String X s) c = Inr m"
    using i assms(1) by (auto simp: FundingPayment_def)
  have nv: "dval n = pval p * qval q" using Mul_ok [OF _ _ n] assms(2,3) by (auto simp: unit_defs)
  have av: "dec_ok a" "rounded_at (cur_scale c) (dval n * dval (rate_value r)) (dval a)"
    using MulQuantized_ok [OF a] by auto
  have "dec_ok s \<and> dval s = (if long then - dval a else dval a)"
    using s av(1) Sub_ok [of zeroDecimal a s] by (auto split: if_splits)
  then have "dec_ok s" "rounded_at (cur_scale c) ((if long then -1 else 1) * (pval p * qval q * dval (rate_value r))) (dval s)"
    using av(2) rounded_at_neg by (auto simp: nv)
  then show ?thesis using settle_amount [OF _ _ m] by blast
qed

lemma weighted_totals_ok:
  assumes "weighted_totals X i vs tn tq = Inr (n, q)" "dec_ok tn" "dec_ok tq"
    "\<forall>v \<in> set vs. price_ok (pq_Price v) \<and> qty_ok (pq_Quantity v)"
  shows "dec_ok n \<and> dec_ok q
    \<and> dval n = dval tn + (\<Sum>v\<leftarrow>vs. pval (pq_Price v) * qval (pq_Quantity v))
    \<and> dval q = dval tq + (\<Sum>v\<leftarrow>vs. qval (pq_Quantity v))
    \<and> (\<forall>v \<in> set vs. p_instrument (pq_Price v) = i \<and> q_instrument (pq_Quantity v) = i)"
  using assms
proof (induction vs arbitrary: tn tq)
  case (Cons v vs)
  obtain a b c where a: "Decimal_Mul X (p_value (pq_Price v)) (q_value (pq_Quantity v)) = Inr a"
    and b: "Decimal_Add X tn a = Inr b" and c: "Decimal_Add X tq (q_value (pq_Quantity v)) = Inr c"
    and rest: "weighted_totals X i vs b c = Inr (n, q)"
    and i: "p_instrument (pq_Price v) = i" "q_instrument (pq_Quantity v) = i"
    using Cons.prems(1) by (auto split: if_splits)
  have va: "dec_ok a \<and> dval a = pval (pq_Price v) * qval (pq_Quantity v)"
    using Mul_ok [OF _ _ a] Cons.prems(4) by (auto simp: unit_defs)
  have vb: "dec_ok b \<and> dval b = dval tn + dval a" using Add_ok [OF _ _ b] va Cons.prems(2) by auto
  have vc: "dec_ok c \<and> dval c = dval tq + qval (pq_Quantity v)"
    using Add_ok [OF _ _ c] Cons.prems(3,4) by (auto simp: unit_defs)
  show ?case using Cons.IH [OF rest] va vb vc Cons.prems(4) i by simp
qed auto

lemma WeightedAveragePrice_ok:
  assumes "WeightedAveragePrice X vs = Inr p"
    "\<forall>v \<in> set vs. price_ok (pq_Price v) \<and> qty_ok (pq_Quantity v)"
  shows "price_ok p \<and> (\<forall>v \<in> set vs. p_instrument (pq_Price v) = p_instrument p
        \<and> q_instrument (pq_Quantity v) = p_instrument p)
    \<and> 0 < (\<Sum>v\<leftarrow>vs. qval (pq_Quantity v))
    \<and> rounded_at (ir_priceScale (p_instrument p)) ((\<Sum>v\<leftarrow>vs. pval (pq_Price v) * qval (pq_Quantity v))
        / (\<Sum>v\<leftarrow>vs. qval (pq_Quantity v))) (pval p)"
proof -
  obtain v vs' where vs: "vs = v # vs'" using assms(1) by (cases vs) (auto simp: WeightedAveragePrice_def)
  define i where "i = p_instrument (pq_Price v)"
  obtain n q a where w: "weighted_totals X i vs zeroDecimal zeroDecimal = Inr (n, q)"
    and nz: "\<not> Decimal_IsZero X q"
    and a: "QuoQuantized X n q (ir_priceScale i) RoundHalfEven ''weighted average fill price'' = Inr a"
    and p: "priceFromDecimal X a i = Inr p"
    using assms(1) vs by (auto simp: WeightedAveragePrice_def i_def Let_def split: if_splits)
  note t = weighted_totals_ok [OF w dec_ok_zero dec_ok_zero assms(2)]
  have av: "dec_ok a" "rounded_at (ir_priceScale i) (dval n / dval q) (dval a)"
    using QuoQuantized_ok [OF _ a] t by auto
  have "0 \<le> (\<Sum>v\<leftarrow>vs. qval (pq_Quantity v))"
    using assms(2) by (intro sum_list_nonneg) (auto simp: unit_defs)
  then have pos: "0 < (\<Sum>v\<leftarrow>vs. qval (pq_Quantity v))"
    using nz t by (auto simp: IsZero_dec order_less_le)
  have "p = \<lparr>p_value = a, p_instrument = i\<rparr>" "price_ok p"
    using p av by (auto simp: fromDecimal_ok unit_defs)
  then show ?thesis using t av(2) pos by (auto simp: pval_def)
qed

lemma slippage_ok:
  assumes "PriceWithinAdverseBasisPoints X ref cand buy bps = Inr b" "price_ok ref" "price_ok cand"
  shows "0 < pval ref \<and> 0 < pval cand \<and> (b \<longleftrightarrow> (if buy then pval cand - pval ref else pval ref - pval cand)
     \<le> pval ref * of_nat (unat bps) / 10 ^ 4)"
proof -
  have dec: "dec_ok (p_value ref)" "dec_ok (p_value cand)" using assms(2,3) by (auto simp: unit_defs)
  obtain adv where adv: "(if buy then Decimal_Sub X (p_value cand) (p_value ref)
      else Decimal_Sub X (p_value ref) (p_value cand)) = Inr adv"
    and pos: "0 < pval ref" "0 < pval cand"
    and rest: "(if Decimal_Sign X adv \<le> 0 then Inr True else
      and_then (NewScaled X (int (unat bps)) 4) (\<lambda>rate.
      and_then (Decimal_Mul X (p_value ref) rate) (\<lambda>mx. Inr (Decimal_Cmp X adv mx \<le> 0)))) = Inr b"
    using assms(1) dec by (auto simp: PriceWithinAdverseBasisPoints_def Sign_dec pval_def split: if_splits)
  have va: "dec_ok adv" "dval adv = (if buy then pval cand - pval ref else pval ref - pval cand)"
    using adv dec Sub_ok [of "p_value cand" "p_value ref" adv] Sub_ok [of "p_value ref" "p_value cand" adv]
    by (auto simp: pval_def split: if_splits)
  have nn: "0 \<le> pval ref * of_nat (unat bps) / 10 ^ 4"
    using pos by (intro divide_nonneg_pos mult_nonneg_nonneg of_nat_0_le_iff) auto
  show ?thesis
  proof (cases "dval adv \<le> 0")
    case True
    then have "b" using rest va(1) by (auto simp: Sign_dec split: if_splits)
    then show ?thesis using pos True nn va(2) by linarith
  next
    case False
    then obtain rate mx where r: "NewScaled X (int (unat bps)) 4 = Inr rate"
      and mx: "Decimal_Mul X (p_value ref) rate = Inr mx" and b: "b = (Decimal_Cmp X adv mx \<le> 0)"
      using rest va(1) by (auto simp: Sign_dec split: if_splits)
    have rv: "dec_ok rate" "dval rate = of_nat (unat bps) / 10 ^ 4"
      using NewScaled_ok [OF r] by (simp_all add: power_int_minus field_simps)
    have "dec_ok mx \<and> dval mx = pval ref * of_nat (unat bps) / 10 ^ 4"
      using Mul_ok [OF dec(1) rv(1) mx] by (simp only: pval_def rv times_divide_eq_right)
    then show ?thesis using b va pos by (auto simp: Cmp_dec)
  qed
qed


text \<open>The average fill price lies between the lowest and the highest price it averages.\<close>

lemma WeightedAveragePrice_between:
  assumes avg: "WeightedAveragePrice X vs = Inr p"
    and ok: "\<forall>v \<in> set vs. price_ok (pq_Price v) \<and> qty_ok (pq_Quantity v)"
    and lo: "price_ok l" "p_instrument l = p_instrument p" "\<forall>v \<in> set vs. pval l \<le> pval (pq_Price v)"
    and hi: "price_ok h" "p_instrument h = p_instrument p" "\<forall>v \<in> set vs. pval (pq_Price v) \<le> pval h"
  shows "pval l \<le> pval p \<and> pval p \<le> pval h"
proof -
  note a = WeightedAveragePrice_ok [OF avg ok]
  let ?n = "\<Sum>v\<leftarrow>vs. pval (pq_Price v) * qval (pq_Quantity v)" and ?q = "\<Sum>v\<leftarrow>vs. qval (pq_Quantity v)"
  have nn: "\<forall>v \<in> set vs. 0 \<le> qval (pq_Quantity v)" using ok by (auto simp: unit_defs)
  have grid: "on_grid (ir_priceScale (p_instrument p)) (pval l)" "on_grid (ir_priceScale (p_instrument p)) (pval h)"
    using lo(1,2) hi(1,2) dec_ok_grid by (auto simp: unit_defs)
  have "?n \<le> pval h * ?q" using weighted_mean_le [of vs] nn hi(3) by auto
  then have "?n / ?q \<le> pval h" using a by (simp add: pos_divide_le_eq)
  moreover have "pval l * ?q \<le> ?n" using weighted_mean_ge [of vs] nn lo(3) by auto
  then have "pval l \<le> ?n / ?q" using a by (simp add: pos_le_divide_eq)
  ultimately show ?thesis using rounded_at_le [OF _ grid(2)] rounded_at_ge [OF _ grid(1)] a by blast
qed

text \<open>What a long pays a short receives, to the last unit of the currency.\<close>

lemma FundingPayment_opposite:
  assumes "FundingPayment X p q r True c = Inr a" "FundingPayment X p q r False c = Inr b"
    "price_ok p" "qty_ok q" "rate_ok r"
  shows "mval a + mval b = 0 \<and> m_currency a = m_currency b"
proof -
  have "rounded_at (cur_scale c) (- (pval p * qval q * dval (rate_value r))) (mval a)"
    "rounded_at (cur_scale c) (pval p * qval q * dval (rate_value r)) (mval b)"
    and c: "m_currency a = c" "m_currency b = c"
    using FundingPayment_ok [OF assms(1,3-5)] FundingPayment_ok [OF assms(2,3-5)] by auto
  then have "mval a = - mval b" using rounded_at_neg rounded_at_unique by blast
  with c show ?thesis by simp
qed
end

section \<open>Properties\<close>

definition sample_instrument :: InstrumentRevision where
  "sample_instrument = \<lparr>ir_id = ''BTC-PERP'', ir_revision = 1, ir_priceScale = 1, ir_quantityScale = 3\<rparr>"

definition sample_price :: "int \<Rightarrow> int \<Rightarrow> Price" where
  "sample_price c e = \<lparr>p_value = mk_finite c e, p_instrument = sample_instrument\<rparr>"

definition sample_quantity :: "int \<Rightarrow> int \<Rightarrow> Quantity" where
  "sample_quantity c e = \<lparr>q_value = mk_finite c e, q_instrument = sample_instrument\<rparr>"

definition sample_currency :: Currency where
  "sample_currency = \<lparr>cur_code = ''USD'', cur_scale = 2\<rparr>"

definition sample_money :: "int \<Rightarrow> int \<Rightarrow> Money" where
  "sample_money c e = \<lparr>m_amount = mk_finite c e, m_currency = sample_currency\<rparr>"

lemma sample_units_ok [simp]:
  "price_ok (sample_price 1001 (- 1))" "price_ok (sample_price 1 2)" "price_ok (sample_price 103 0)"
  "qty_ok (sample_quantity 1 0)" "qty_ok (sample_quantity 15 (- 1))"
  "rate_ok \<lparr>rate_value = mk_finite 1 (- 4)\<rparr>"
  by code_simp+

text \<open>
  C20. Realized profit and loss is the price difference in the direction of the position times the
  closed quantity, rounded once to the currency, and it is zero-sum: what a long position realizes
  between two prices, a short position of the same size loses, to the last unit.
\<close>

theorem realized_pnl_rounded_and_zero_sum:
  assumes "apd_lib X" "price_ok entry" "price_ok close" "qty_ok q"
    and "RealizedPnL X entry close q True c = Inr long" "RealizedPnL X entry close q False c = Inr short"
  shows "rounded_at (cur_scale c) ((pval close - pval entry) * qval q) (mval long)
    \<and> mval long + mval short = 0 \<and> m_currency long = c \<and> m_currency short = c"
proof -
  have l: "rounded_at (cur_scale c) ((pval close - pval entry) * qval q) (mval long)" "m_currency long = c"
    using apd_lib.RealizedPnL_ok [OF assms(1,5,2-4)] by auto
  have s: "rounded_at (cur_scale c) ((pval entry - pval close) * qval q) (mval short)" "m_currency short = c"
    using apd_lib.RealizedPnL_ok [OF assms(1,6,2-4)] by auto
  have "(pval entry - pval close) * qval q = - ((pval close - pval entry) * qval q)"
    by (simp add: algebra_simps)
  with l s rounded_at_neg rounded_at_unique have "mval short = - mval long" by metis
  with l s show ?thesis by simp
qed

theorem realized_pnl_rounded_and_zero_sum_witness:
  "RealizedPnL apd_ref (sample_price 1001 (- 1)) (sample_price 103 0) (sample_quantity 15 (- 1)) True sample_currency
     = Inr (sample_money 435 (- 2))
   \<and> RealizedPnL apd_ref (sample_price 1001 (- 1)) (sample_price 103 0) (sample_quantity 15 (- 1)) False sample_currency
     = Inr (sample_money (- 435) (- 2))
   \<and> mval (sample_money 435 (- 2)) + mval (sample_money (- 435) (- 2)) = 0"
proof -
  have l: "RealizedPnL apd_ref (sample_price 1001 (- 1)) (sample_price 103 0) (sample_quantity 15 (- 1)) True sample_currency
     = Inr (sample_money 435 (- 2))" by code_simp
  have s: "RealizedPnL apd_ref (sample_price 1001 (- 1)) (sample_price 103 0) (sample_quantity 15 (- 1)) False sample_currency
     = Inr (sample_money (- 435) (- 2))" by code_simp
  from realized_pnl_rounded_and_zero_sum [OF ref.apd_lib_axioms _ _ _ l s] l s show ?thesis by simp
qed

text \<open>
  C21. The average price of a set of fills lies between its lowest and its highest price and is the
  quantity-weighted mean rounded once to the price scale of the instrument.
\<close>

theorem average_price_between:
  assumes "apd_lib X" "WeightedAveragePrice X vs = Inr p"
    and "\<forall>v \<in> set vs. price_ok (pq_Price v) \<and> qty_ok (pq_Quantity v)"
    and "l \<in> set vs" "\<forall>v \<in> set vs. pval (pq_Price l) \<le> pval (pq_Price v)"
    and "h \<in> set vs" "\<forall>v \<in> set vs. pval (pq_Price v) \<le> pval (pq_Price h)"
  shows "pval (pq_Price l) \<le> pval p \<and> pval p \<le> pval (pq_Price h)
    \<and> rounded_at (ir_priceScale (p_instrument p)) ((\<Sum>v\<leftarrow>vs. pval (pq_Price v) * qval (pq_Quantity v))
        / (\<Sum>v\<leftarrow>vs. qval (pq_Quantity v))) (pval p)"
  using apd_lib.WeightedAveragePrice_ok [OF assms(1,2,3)] assms(3-7)
    apd_lib.WeightedAveragePrice_between [OF assms(1,2,3), of "pq_Price l" "pq_Price h"] by simp

theorem average_price_between_witness:
  "let vs = [\<lparr>pq_Price = sample_price 1 2, pq_Quantity = sample_quantity 1 0\<rparr>,
             \<lparr>pq_Price = sample_price 103 0, pq_Quantity = sample_quantity 15 (- 1)\<rparr>]
   in WeightedAveragePrice apd_ref vs = Inr (sample_price 1018 (- 1))
     \<and> pval (sample_price 1 2) \<le> pval (sample_price 1018 (- 1))
     \<and> pval (sample_price 1018 (- 1)) \<le> pval (sample_price 103 0)"
proof -
  let ?a = "\<lparr>pq_Price = sample_price 1 2, pq_Quantity = sample_quantity 1 0\<rparr>"
  let ?b = "\<lparr>pq_Price = sample_price 103 0, pq_Quantity = sample_quantity 15 (- 1)\<rparr>"
  have w: "WeightedAveragePrice apd_ref [?a, ?b] = Inr (sample_price 1018 (- 1))" by code_simp
  have "pval (sample_price 1 2) \<le> pval (sample_price 103 0)"
    by (simp add: pval_def sample_price_def)
  with average_price_between [OF ref.apd_lib_axioms w, of ?a ?b] w show ?thesis by simp
qed

text \<open>
  C22. Funding moves money and creates none: at one oracle price and rate, a long and a short of the
  same quantity get opposite payments, and a positive rate is paid by the long.
\<close>

theorem funding_zero_sum:
  assumes "apd_lib X" "price_ok p" "qty_ok q" "rate_ok r"
    and "FundingPayment X p q r True c = Inr a" "FundingPayment X p q r False c = Inr b"
  shows "mval a + mval b = 0 \<and> m_currency a = m_currency b
    \<and> rounded_at (cur_scale c) (pval p * qval q * dval (rate_value r)) (mval b)"
  using apd_lib.FundingPayment_opposite [OF assms(1,5,6,2-4)] apd_lib.FundingPayment_ok [OF assms(1,6,2-4)]
  by simp

theorem funding_zero_sum_witness:
  "FundingPayment apd_ref (sample_price 103 0) (sample_quantity 15 (- 1)) \<lparr>rate_value = mk_finite 1 (- 4)\<rparr> True
     sample_currency = Inr (sample_money (- 2) (- 2))
   \<and> FundingPayment apd_ref (sample_price 103 0) (sample_quantity 15 (- 1)) \<lparr>rate_value = mk_finite 1 (- 4)\<rparr> False
     sample_currency = Inr (sample_money 2 (- 2))
   \<and> mval (sample_money (- 2) (- 2)) + mval (sample_money 2 (- 2)) = 0"
proof -
  have l: "FundingPayment apd_ref (sample_price 103 0) (sample_quantity 15 (- 1)) \<lparr>rate_value = mk_finite 1 (- 4)\<rparr> True
     sample_currency = Inr (sample_money (- 2) (- 2))" by code_simp
  have s: "FundingPayment apd_ref (sample_price 103 0) (sample_quantity 15 (- 1)) \<lparr>rate_value = mk_finite 1 (- 4)\<rparr> False
     sample_currency = Inr (sample_money 2 (- 2))" by code_simp
  from funding_zero_sum [OF ref.apd_lib_axioms _ _ _ l s] l s show ?thesis by simp
qed

text \<open>
  C23. The slippage band is exact: a price is within the band if and only if its adverse distance from
  the reference is at most the given basis points of the reference, with no rounding anywhere.
\<close>

theorem slippage_band_exact:
  assumes "apd_lib X" "price_ok reference" "price_ok candidate"
    and "PriceWithinAdverseBasisPoints X reference candidate buy bps = Inr inside"
  shows "inside \<longleftrightarrow> (if buy then pval candidate - pval reference else pval reference - pval candidate)
     \<le> pval reference * of_nat (unat bps) / 10 ^ 4"
  using apd_lib.slippage_ok [OF assms(1,4,2,3)] by blast

theorem slippage_band_exact_witness:
  "PriceWithinAdverseBasisPoints apd_ref (sample_price 1 2) (sample_price 103 0) True 300 = Inr True
   \<and> PriceWithinAdverseBasisPoints apd_ref (sample_price 1 2) (sample_price 103 0) True 299 = Inr False
   \<and> pval (sample_price 103 0) - pval (sample_price 1 2) \<le> pval (sample_price 1 2) * of_nat (unat (300 :: u32)) / 10 ^ 4"
proof -
  have a: "PriceWithinAdverseBasisPoints apd_ref (sample_price 1 2) (sample_price 103 0) True 300 = Inr True"
    by code_simp
  have b: "PriceWithinAdverseBasisPoints apd_ref (sample_price 1 2) (sample_price 103 0) True 299 = Inr False"
    by code_simp
  from slippage_band_exact [OF ref.apd_lib_axioms _ _ a] a b show ?thesis by simp
qed

end
