(* ===== verification/EngineTypes.thy ===== *)
theory EngineTypes
  imports Sha256 Domain
begin

text \<open>
  The public vocabulary of \<open>internal/engine\<close>: canonical identities and the envelope (\<open>types.go\<close>), typed
  errors (\<open>errors.go\<close>), the closed union of trading actions and the snapshots a decision carries
  (\<open>trading_types.go\<close>), and receipts (\<open>receipts.go\<close>). Go's string enumerations that come from outside
  keep a constructor for any other string; those the engine alone produces do not. A Go field whose
  zero value the code relies on has an explicit constructor for it (\<open>...None\<close>).
\<close>

section \<open>Identities\<close>

type_synonym ID = bytes
type_synonym Hash = bytes

definition zeroID :: ID where "zeroID = replicate 16 0"
definition zeroHash :: Hash where "zeroHash = replicate 32 0"

definition ID_IsZero :: "ID \<Rightarrow> bool" where "ID_IsZero i = (i = zeroID)"

definition ID_String :: "ID \<Rightarrow> string" where
  "ID_String i = hex_Encode (take 4 i) @ ''-'' @ hex_Encode (take 2 (drop 4 i)) @ ''-''
     @ hex_Encode (take 2 (drop 6 i)) @ ''-'' @ hex_Encode (take 2 (drop 8 i)) @ ''-''
     @ hex_Encode (take 6 (drop 10 i))"

definition ParseID :: "string \<Rightarrow> ID result" where
  "ParseID input =
     (if length input \<noteq> 36 \<or> input ! 8 \<noteq> CHR ''-'' \<or> input ! 13 \<noteq> CHR ''-''
         \<or> input ! 18 \<noteq> CHR ''-'' \<or> input ! 23 \<noteq> CHR ''-'' then Inl [ErrInvalidID]
      else case hex_Decode (take 8 input @ take 4 (drop 9 input) @ take 4 (drop 14 input)
          @ take 4 (drop 19 input) @ take 12 (drop 24 input)) of
          None \<Rightarrow> Inl [ErrInvalidID]
        | Some i \<Rightarrow> if ID_String i \<noteq> input then Inl [ErrInvalidID] else Inr i)"

definition IDFromSequence :: "ID \<Rightarrow> u64 \<Rightarrow> ID" where
  "IDFromSequence namespace sequence =
     (let sum = sha256 (string_bytes ''platformgo.engine.id.v1'' @ namespace @ PutUint64 sequence);
          i = take 16 sum
      in i[6 := or (and (i ! 6) 0x0f) 0x40, 8 := or (and (i ! 8) 0x3f) 0x80])"

text \<open>Unix nanoseconds, the bit pattern of an \<open>int64\<close>.\<close>

type_synonym LogicalTime = u64
type_synonym ShardID = u32

section \<open>Enumerations\<close>

datatype TradingActionKind = TradingActionConfigureInstrument | TradingActionConfigureAccount
  | TradingActionConfigureRisk | TradingActionAdjustBalance | TradingActionSettleFunding
  | TradingActionLiquidateAccount | TradingActionUpdateBook | TradingActionSubmitOrder
  | TradingActionPlaceBracket | TradingActionAmendOrder | TradingActionCancelOrder
  | TradingActionKindOther string

datatype Side = SideBuy | SideSell | SideOther string

fun Side_valid :: "Side \<Rightarrow> bool" where
  "Side_valid (SideOther _) = False"
| "Side_valid _ = True"

datatype OrderType = OrderTypeMarket | OrderTypeLimit | OrderTypeStopMarket | OrderTypeStopLimit
  | OrderTypeTakeProfitMarket | OrderTypeTakeProfitLimit | OrderTypeOther string

fun OrderType_valid :: "OrderType \<Rightarrow> bool" where
  "OrderType_valid (OrderTypeOther _) = False"
| "OrderType_valid _ = True"

datatype TimeInForce = TimeInForceGTC | TimeInForceIOC | TimeInForceFOK | TimeInForceOther string

fun TimeInForce_valid :: "TimeInForce \<Rightarrow> bool" where
  "TimeInForce_valid (TimeInForceOther _) = False"
| "TimeInForce_valid _ = True"

datatype OmsMode = OmsModeNetting | OmsModeHedging | OmsModeOther string

fun OmsMode_valid :: "OmsMode \<Rightarrow> bool" where
  "OmsMode_valid (OmsModeOther _) = False"
| "OmsMode_valid _ = True"

datatype MarginMode = MarginModeCross | MarginModeIsolated | MarginModeOther string

fun MarginMode_valid :: "MarginMode \<Rightarrow> bool" where
  "MarginMode_valid (MarginModeOther _) = False"
| "MarginMode_valid _ = True"

datatype LiquiditySide = LiquiditySideNone | LiquiditySideMaker | LiquiditySideTaker

datatype BalanceOperation = BalanceOperationDeposit | BalanceOperationSet | BalanceOperationOther string

fun BalanceOperation_valid :: "BalanceOperation \<Rightarrow> bool" where
  "BalanceOperation_valid (BalanceOperationOther _) = False"
| "BalanceOperation_valid _ = True"

datatype PositionSide = PositionSideLong | PositionSideShort
datatype PositionStatus = PositionStatusOpen | PositionStatusClosed

datatype PositionEffect = PositionEffectNone | PositionEffectOpen | PositionEffectIncrease
  | PositionEffectReduce | PositionEffectFlip | PositionEffectClose

datatype OrderStatus = OrderStatusHeld | OrderStatusWorking | OrderStatusPartiallyFilled
  | OrderStatusFilled | OrderStatusCancelled | OrderStatusRejected

datatype BracketLeg = BracketLegNone | BracketLegEntry | BracketLegTakeProfit | BracketLegStopLoss

datatype CommandStatus = CommandStatusNone | CommandStatusAccepted | CommandStatusRejected

datatype RejectionReason = RejectionNone | RejectionInvalidAction | RejectionInvalidInstrument
  | RejectionInvalidOrder | RejectionOrderNotFound | RejectionOrderOwnership
  | RejectionOrderTerminal | RejectionInsufficientMarket | RejectionDuplicateOrderID
  | RejectionSlippageExceeded | RejectionReduceOnly | RejectionInsufficientFunds
  | RejectionInsufficientMargin | RejectionRiskConfigLocked | RejectionDuplicateSettlement
  | RejectionMarketDataStale

datatype InputKind = InputKindCommand | InputKindMarket | InputKindTimer
  | InputKindConfiguration | InputKindControl | InputKindOther u8

text \<open>\<open>InputKind\<close> is a \<open>uint8\<close> counted from one.\<close>

fun InputKind_byte :: "InputKind \<Rightarrow> u8" where
  "InputKind_byte InputKindCommand = 1"
| "InputKind_byte InputKindMarket = 2"
| "InputKind_byte InputKindTimer = 3"
| "InputKind_byte InputKindConfiguration = 4"
| "InputKind_byte InputKindControl = 5"
| "InputKind_byte (InputKindOther b) = b"

definition InputKind_valid :: "InputKind \<Rightarrow> bool" where
  "InputKind_valid k = (1 \<le> InputKind_byte k \<and> InputKind_byte k \<le> 5)"

section \<open>Typed errors\<close>

datatype ErrorKind = ErrInvalidEnvelope | ErrUnknownSchema | ErrUnknownInputKind | ErrShardMismatch
  | ErrPayloadMismatch | ErrSequenceGap | ErrSequenceRegression | ErrSequenceExhausted
  | ErrInputConflict | ErrDurableInputConflict | ErrUnknownHashVersion | ErrInvalidEffect
  | ErrShardNotReady

record EngineError =
  err_Kind :: ErrorKind
  err_Sequence :: u64
  err_Detail :: string

section \<open>Actions\<close>

record ConfigureInstrument =
  ci_InstrumentID :: string
  ci_Revision :: u64
  ci_PriceScale :: nat
  ci_QuantityScale :: nat
  ci_SettlementCurrency :: string
  ci_SettlementCurrencyScale :: nat
  ci_InitialMarginRate :: string
  ci_MaintenanceMarginRate :: string
  ci_MaxLeverage :: string
  ci_MakerFeeRate :: string
  ci_TakerFeeRate :: string

record ConfigureAccount =
  ca_AccountID :: string
  ca_OmsMode :: OmsMode

record ConfigureRisk =
  cr_AccountID :: string
  cr_InstrumentID :: string
  cr_MarginMode :: MarginMode
  cr_Leverage :: string

record AdjustBalance =
  ab_AccountID :: string
  ab_Currency :: string
  ab_CurrencyScale :: nat
  ab_Operation :: BalanceOperation
  ab_Amount :: string

record SettleFunding =
  sf_SettlementID :: ID
  sf_InstrumentID :: string
  sf_OraclePrice :: string
  sf_Rate :: string

record LiquidateAccount =
  la_AccountID :: string

record BookLevel =
  bl_Price :: string
  bl_Quantity :: string

text \<open>A slice that may be nil (\<open>None\<close>): ranging over it is ranging over the empty slice.\<close>

definition slice :: "'a list option \<Rightarrow> 'a list" where
  "slice s = (case s of None \<Rightarrow> [] | Some xs \<Rightarrow> xs)"

record UpdateBook =
  ub_InstrumentID :: string
  ub_MarkPrice :: string
  ub_Bids :: "BookLevel list option"
  ub_Asks :: "BookLevel list option"

record SubmitOrder =
  so_OrderID :: ID
  so_AccountID :: string
  so_InstrumentID :: string
  so_Side :: Side
  so_Type :: OrderType
  so_TimeInForce :: TimeInForce
  so_Quantity :: string
  so_Price :: string
  so_TriggerPrice :: string
  so_ReduceOnly :: bool
  so_PositionID :: ID
  so_MaxSlippageBPS :: "u32 option"

record ProtectiveLeg =
  pl_OrderID :: ID
  pl_Price :: string
  pl_Quantity :: string

record PlaceBracket =
  pb_BracketID :: ID
  pb_EntryOrderID :: ID
  pb_AccountID :: string
  pb_InstrumentID :: string
  pb_Side :: Side
  pb_EntryType :: OrderType
  pb_TimeInForce :: TimeInForce
  pb_Quantity :: string
  pb_EntryPrice :: string
  pb_TakeProfits :: "ProtectiveLeg list option"
  pb_StopLossOrderID :: ID
  pb_StopLoss :: string

record AmendOrder =
  ao_AccountID :: string
  ao_OrderID :: ID
  ao_Quantity :: string
  ao_Price :: string

record CancelOrder =
  co_AccountID :: string
  co_OrderID :: ID

record TradingAction =
  act_Kind :: TradingActionKind
  act_ConfigureInstrument :: "ConfigureInstrument option"
  act_ConfigureAccount :: "ConfigureAccount option"
  act_ConfigureRisk :: "ConfigureRisk option"
  act_AdjustBalance :: "AdjustBalance option"
  act_SettleFunding :: "SettleFunding option"
  act_LiquidateAccount :: "LiquidateAccount option"
  act_UpdateBook :: "UpdateBook option"
  act_SubmitOrder :: "SubmitOrder option"
  act_PlaceBracket :: "PlaceBracket option"
  act_AmendOrder :: "AmendOrder option"
  act_CancelOrder :: "CancelOrder option"

text \<open>The account lane of an account-scoped action; \<open>None\<close> is Go's \<open>("", false)\<close>.\<close>

definition TradingActionAccountID :: "TradingAction \<Rightarrow> string option" where
  "TradingActionAccountID a = (case act_Kind a of
     TradingActionConfigureAccount \<Rightarrow> map_option ca_AccountID (act_ConfigureAccount a)
   | TradingActionConfigureRisk \<Rightarrow> map_option cr_AccountID (act_ConfigureRisk a)
   | TradingActionAdjustBalance \<Rightarrow> map_option ab_AccountID (act_AdjustBalance a)
   | TradingActionLiquidateAccount \<Rightarrow> map_option la_AccountID (act_LiquidateAccount a)
   | TradingActionSubmitOrder \<Rightarrow> map_option so_AccountID (act_SubmitOrder a)
   | TradingActionPlaceBracket \<Rightarrow> map_option pb_AccountID (act_PlaceBracket a)
   | TradingActionAmendOrder \<Rightarrow> map_option ao_AccountID (act_AmendOrder a)
   | TradingActionCancelOrder \<Rightarrow> map_option co_AccountID (act_CancelOrder a)
   | _ \<Rightarrow> None)"

section \<open>Snapshots\<close>

record InstrumentSnapshot =
  is_InstrumentID :: string
  is_Revision :: u64
  is_PriceScale :: nat
  is_QuantityScale :: nat
  is_SettlementCurrency :: string
  is_SettlementCurrencyScale :: nat
  is_InitialMarginRate :: string
  is_MaintenanceMarginRate :: string
  is_MaxLeverage :: string
  is_MakerFeeRate :: string
  is_TakerFeeRate :: string

record AccountSnapshot =
  as_AccountID :: string
  as_OmsMode :: OmsMode

record RiskSnapshot =
  rs_AccountID :: string
  rs_InstrumentID :: string
  rs_MarginMode :: MarginMode
  rs_Leverage :: string

record BalanceSnapshot =
  bs_AccountID :: string
  bs_Currency :: string
  bs_Total :: string
  bs_Used :: string
  bs_Free :: string
  bs_Equity :: string

definition SystemClearingAccount :: string where "SystemClearingAccount = ''system:clearing''"

record LedgerEntrySnapshot =
  le_EntryID :: ID
  le_AccountID :: string
  le_Currency :: string
  le_Amount :: string

record LedgerTransactionSnapshot =
  lt_TransactionID :: ID
  lt_BusinessKey :: string
  lt_InputID :: ID
  lt_LogicalTime :: LogicalTime
  lt_Entries :: "LedgerEntrySnapshot list"

record FundingSnapshot =
  fs_FundingID :: ID
  fs_SettlementID :: ID
  fs_PositionID :: ID
  fs_AccountID :: string
  fs_InstrumentID :: string
  fs_SignedQuantity :: string
  fs_OraclePrice :: string
  fs_Rate :: string
  fs_Amount :: string
  fs_SettlementCurrency :: string

record BookSnapshot =
  bk_InstrumentID :: string
  bk_MarkPrice :: string
  bk_Bids :: "BookLevel list"
  bk_Asks :: "BookLevel list"

record OrderSnapshot =
  os_OrderID :: ID
  os_AccountID :: string
  os_InstrumentID :: string
  os_Side :: Side
  os_Type :: OrderType
  os_TimeInForce :: TimeInForce
  os_Status :: OrderStatus
  os_Quantity :: string
  os_FilledQuantity :: string
  os_AverageFillPrice :: string
  os_Price :: string
  os_TriggerPrice :: string
  os_Triggered :: bool
  os_TriggeredAt :: LogicalTime
  os_ReduceOnly :: bool
  os_PositionID :: ID
  os_BracketID :: ID
  os_BracketLeg :: BracketLeg
  os_BracketLegIndex :: u32
  os_HasRested :: bool
  os_HasSlippageBand :: bool
  os_MaxSlippageBPS :: u32
  os_SlippageReference :: string
  os_RejectReason :: RejectionReason
  os_Version :: u64

record FillSnapshot =
  fl_FillID :: ID
  fl_OrderID :: ID
  fl_AccountID :: string
  fl_InstrumentID :: string
  fl_Side :: Side
  fl_Price :: string
  fl_Quantity :: string
  fl_PositionID :: ID
  fl_PositionEffect :: PositionEffect
  fl_RealizedPnL :: string
  fl_SettlementCurrency :: string
  fl_LiquiditySide :: LiquiditySide
  fl_Fee :: string
  fl_FeeCurrency :: string
  fl_LogicalTime :: LogicalTime
  fl_EffectiveLeverage :: string

record PositionSnapshot =
  ps_PositionID :: ID
  ps_AccountID :: string
  ps_InstrumentID :: string
  ps_Side :: PositionSide
  ps_Status :: PositionStatus
  ps_SignedQuantity :: string
  ps_AverageOpenPrice :: string
  ps_RealizedPnL :: string
  ps_SettlementCurrency :: string
  ps_MarginMode :: MarginMode
  ps_IsolatedCollateral :: string
  ps_Version :: u64

record DomainEvent =
  ev_EventID :: ID
  ev_Kind :: string
  ev_AggregateID :: ID
  ev_AggregateVersion :: u64
  ev_LogicalTime :: LogicalTime

record CommandResult =
  cmd_Status :: CommandStatus
  cmd_Reason :: RejectionReason

section \<open>Envelopes, decisions and receipts\<close>

record InputEnvelope =
  in_InputID :: ID
  in_SchemaVersion :: u32
  in_ShardID :: ShardID
  in_Kind :: InputKind
  in_SourceID :: string
  in_SourceSequence :: u64
  in_StreamSequence :: u64
  in_MarketSequence :: u64
  in_LogicalTime :: LogicalTime
  in_ConfigurationVersion :: u64
  in_InstrumentVersion :: u64
  in_Payload :: bytes

record Decision =
  d_InputID :: ID
  d_SourceSequence :: u64
  d_StreamSequence :: u64
  d_MarketSequence :: u64
  d_LogicalTime :: LogicalTime
  d_ConfigurationVersion :: u64
  d_InstrumentVersion :: u64
  d_InputHashVersion :: u32
  d_DecisionHashVersion :: u32
  d_PreviousStateHash :: Hash
  d_InputHash :: Hash
  d_EffectsHash :: Hash
  d_DecisionHash :: Hash
  d_DuplicateOfDecisionHash :: Hash
  d_NextStateHash :: Hash
  d_CommandResult :: CommandResult
  d_InstrumentChanges :: "InstrumentSnapshot list"
  d_AccountChanges :: "AccountSnapshot list"
  d_RiskChanges :: "RiskSnapshot list"
  d_BalanceChanges :: "BalanceSnapshot list"
  d_LedgerChanges :: "LedgerTransactionSnapshot list"
  d_FundingChanges :: "FundingSnapshot list"
  d_BookChanges :: "BookSnapshot list"
  d_OrderChanges :: "OrderSnapshot list"
  d_Fills :: "FillSnapshot list"
  d_PositionChanges :: "PositionSnapshot list"
  d_Events :: "DomainEvent list"

definition zeroDecision :: Decision where
  "zeroDecision = \<lparr>d_InputID = zeroID, d_SourceSequence = 0, d_StreamSequence = 0,
     d_MarketSequence = 0, d_LogicalTime = 0, d_ConfigurationVersion = 0, d_InstrumentVersion = 0,
     d_InputHashVersion = 0, d_DecisionHashVersion = 0, d_PreviousStateHash = zeroHash,
     d_InputHash = zeroHash, d_EffectsHash = zeroHash, d_DecisionHash = zeroHash,
     d_DuplicateOfDecisionHash = zeroHash, d_NextStateHash = zeroHash,
     d_CommandResult = \<lparr>cmd_Status = CommandStatusNone, cmd_Reason = RejectionNone\<rparr>,
     d_InstrumentChanges = [], d_AccountChanges = [], d_RiskChanges = [], d_BalanceChanges = [],
     d_LedgerChanges = [], d_FundingChanges = [], d_BookChanges = [], d_OrderChanges = [],
     d_Fills = [], d_PositionChanges = [], d_Events = []\<rparr>"

text \<open>The effect collections of a decision, all empty in a decision without economic effect.\<close>

definition no_effects :: "Decision \<Rightarrow> bool" where
  "no_effects d = (d_InstrumentChanges d = [] \<and> d_AccountChanges d = [] \<and> d_RiskChanges d = []
     \<and> d_BalanceChanges d = [] \<and> d_LedgerChanges d = [] \<and> d_FundingChanges d = []
     \<and> d_BookChanges d = [] \<and> d_OrderChanges d = [] \<and> d_Fills d = [] \<and> d_PositionChanges d = []
     \<and> d_Events d = [])"

record Receipt =
  r_InputID :: ID
  r_StreamSequence :: u64
  r_SchemaVersion :: u32
  r_InputHashVersion :: u32
  r_InputHash :: Hash
  r_BusinessHashVersion :: u32
  r_BusinessInputHash :: Hash
  r_Decision :: Decision

record CurrencyScaleSnapshot =
  cs_Currency :: string
  cs_Scale :: nat

definition CurrentSchemaVersion :: u32 where "CurrentSchemaVersion = 1"
definition CurrentInputHashVersion :: u32 where "CurrentInputHashVersion = 1"
definition CurrentBusinessHashVersion :: u32 where "CurrentBusinessHashVersion = 1"
definition CurrentDecisionHashVersion :: u32 where "CurrentDecisionHashVersion = 4"

lemmas current_versions = CurrentSchemaVersion_def CurrentInputHashVersion_def
  CurrentBusinessHashVersion_def CurrentDecisionHashVersion_def

section \<open>Identities and their text\<close>

lemma hex_value_char: "d < 16 \<Longrightarrow> hex_value (hex_char d) = Some d"
  by (simp add: hex_value_def hex_char_def Let_def)

lemma hex_Encode_append: "hex_Encode (a @ b) = hex_Encode a @ hex_Encode b"
  by (simp add: hex_Encode_def)

lemma length_hex_Encode [simp]: "length (hex_Encode bs) = 2 * length bs"
  by (induction bs) (auto simp: hex_Encode_def)

lemma hex_Decode_Encode [simp]: "hex_Decode (hex_Encode bs) = Some bs"
proof (induction bs)
  case (Cons b bs)
  have "unat b div 16 < 16" using unsigned_less [of b, where ?'a = nat] by (simp add: less_mult_imp_div_less)
  then show ?case using Cons by (simp add: hex_Encode_def hex_value_char)
qed (simp add: hex_Encode_def)

lemma hex_Decode_length: "hex_Decode s = Some bs \<Longrightarrow> length s = 2 * length bs"
  by (induction s arbitrary: bs rule: hex_Decode.induct) (auto split: option.splits)

lemma ParseID_ID_String:
  assumes "length i = 16"
  shows "ParseID (ID_String i) = Inr i"
proof -
  let ?h = "\<lambda>n k. hex_Encode (take n (drop k i))"
  have len: "length (?h 4 0) = 8" "length (?h 2 4) = 4" "length (?h 2 6) = 4" "length (?h 2 8) = 4"
    "length (?h 6 10) = 12" using assms by simp_all
  have s: "ID_String i = ?h 4 0 @ ''-'' @ ?h 2 4 @ ''-'' @ ?h 2 6 @ ''-'' @ ?h 2 8 @ ''-'' @ ?h 6 10"
    by (simp add: ID_String_def)
  have "take 4 i @ take 2 (drop 4 i) @ take 2 (drop 6 i) @ take 2 (drop 8 i) @ take 6 (drop 10 i) = i"
  proof -
    have step: "take n (drop k i) @ drop (n + k) i = drop k i" for n k
      by (metis append_take_drop_id drop_drop)
    have "take 2 (drop 8 i) @ drop 10 i = drop 8 i" "take 2 (drop 6 i) @ drop 8 i = drop 6 i"
      "take 2 (drop 4 i) @ drop 6 i = drop 4 i"
      using step [of 2 8] step [of 2 6] step [of 2 4] by simp_all
    moreover have "take 6 (drop 10 i) = drop 10 i" using assms by simp
    ultimately show ?thesis by simp
  qed
  then have "hex_Decode (?h 4 0 @ ?h 2 4 @ ?h 2 6 @ ?h 2 8 @ ?h 6 10) = Some i"
    by (metis hex_Encode_append hex_Decode_Encode drop0)
  moreover have "take 8 (ID_String i) @ take 4 (drop 9 (ID_String i)) @ take 4 (drop 14 (ID_String i))
      @ take 4 (drop 19 (ID_String i)) @ take 12 (drop 24 (ID_String i))
      = ?h 4 0 @ ?h 2 4 @ ?h 2 6 @ ?h 2 8 @ ?h 6 10"
    unfolding s using len by simp
  moreover have "length (ID_String i) = 36" "ID_String i ! 8 = CHR ''-''" "ID_String i ! 13 = CHR ''-''"
    "ID_String i ! 18 = CHR ''-''" "ID_String i ! 23 = CHR ''-''"
    unfolding s using len by (simp_all add: nth_append nth_Cons')
  ultimately show ?thesis by (simp add: ParseID_def)
qed

text \<open>
  Identities and their canonical text determine each other: a text is accepted if and only if it
  is the printed form of a 16-byte identity, and then that identity is returned. No second spelling
  of an identity (upper case, other hyphens) is accepted.
\<close>

theorem parse_id_iff_printed: "ParseID s = Inr i \<longleftrightarrow> length i = 16 \<and> ID_String i = s"
proof
  assume "ParseID s = Inr i"
  then have len: "length s = 36" and dec: "hex_Decode (take 8 s @ take 4 (drop 9 s) @ take 4 (drop 14 s)
      @ take 4 (drop 19 s) @ take 12 (drop 24 s)) = Some i" and printed: "ID_String i = s"
    by (auto simp: ParseID_def split: if_splits option.splits)
  from hex_Decode_length [OF dec] len printed show "length i = 16 \<and> ID_String i = s" by simp
qed (use ParseID_ID_String in auto)

end
