(* ===== verification/EngineState.thy ===== *)
theory EngineState
  imports EngineTypes
begin

text \<open>
  The economic state of one shard (\<open>trading_state.go\<close>, the \<open>State\<close> of \<open>kernel.go\<close>): the records it keeps,
  the registries with their lookup and replace operations, the snapshots and the queries. Go's
  \<open>clone\<close> separates the memory of two states; HOL values are never shared, so it is the identity.
  The registries (instruments, accounts, risk settings, balances, books) all follow one contract, stated once as
  the locale \<open>registry\<close> and interpreted on each.
\<close>

section \<open>Records\<close>

record instrumentRecord =
  im_revision :: InstrumentRevision
  im_settlementCurrency :: Currency
  im_initialMarginRate :: Rate
  im_maintenanceMarginRate :: Rate
  im_maxLeverage :: Ratio
  im_makerFeeRate :: Rate
  im_takerFeeRate :: Rate

record accountRecord =
  ac_accountID :: string
  ac_omsMode :: OmsMode

record riskRecord =
  rk_accountID :: string
  rk_instrumentID :: string
  rk_marginMode :: MarginMode
  rk_leverage :: Ratio

record balanceRecord =
  ba_accountID :: string
  ba_total :: Money

record fundingRecord =
  fu_fundingID :: ID
  fu_settlementID :: ID
  fu_positionID :: ID
  fu_accountID :: string
  fu_instrument :: InstrumentRevision
  fu_signedQuantity :: string
  fu_oraclePrice :: Price
  fu_rate :: Rate
  fu_amount :: Money

record fundingSettlementRecord =
  se_settlementID :: ID
  se_instrument :: InstrumentRevision
  se_oraclePrice :: Price
  se_rate :: Rate

record levelRecord =
  lv_price :: Price
  lv_quantity :: Quantity

record bookRecord =
  bo_instrumentID :: string
  bo_markPrice :: Price
  bo_hasMark :: bool
  bo_bids :: "levelRecord list"
  bo_asks :: "levelRecord list"

record orderRecord =
  or_orderID :: ID
  or_accountID :: string
  or_instrument :: InstrumentRevision
  or_side :: Side
  or_orderType :: OrderType
  or_timeInForce :: TimeInForce
  or_status :: OrderStatus
  or_quantity :: Quantity
  or_filledQuantity :: Quantity
  or_averagePrice :: Price
  or_hasAverage :: bool
  or_price :: Price
  or_hasPrice :: bool
  or_triggerPrice :: Price
  or_hasTrigger :: bool
  or_triggered :: bool
  or_triggeredAt :: LogicalTime
  or_reduceOnly :: bool
  or_positionID :: ID
  or_bracketID :: ID
  or_bracketLeg :: BracketLeg
  or_bracketLegIndex :: u32
  or_originalQuantity :: Quantity
  or_hasRested :: bool
  or_hasSlippageBand :: bool
  or_maxSlippageBPS :: u32
  or_slippageReference :: Price
  or_rejectReason :: RejectionReason
  or_version :: u64

record fillRecord =
  fi_fillID :: ID
  fi_orderID :: ID
  fi_accountID :: string
  fi_instrument :: InstrumentRevision
  fi_side :: Side
  fi_price :: Price
  fi_quantity :: Quantity
  fi_positionID :: ID
  fi_positionEffect :: PositionEffect
  fi_realizedPnL :: Money
  fi_hasRealizedPnL :: bool
  fi_liquiditySide :: LiquiditySide
  fi_fee :: Money
  fi_hasFee :: bool
  fi_logicalTime :: LogicalTime
  fi_effectiveLeverage :: Ratio
  fi_hasEffectiveLeverage :: bool

record positionRecord =
  po_positionID :: ID
  po_accountID :: string
  po_instrument :: InstrumentRevision
  po_settlementCurrency :: Currency
  po_side :: PositionSide
  po_status :: PositionStatus
  po_quantity :: Quantity
  po_averageOpenPrice :: Price
  po_realizedPnL :: Money
  po_marginMode :: MarginMode
  po_isolatedCollateral :: Money
  po_version :: u64

record tradingState =
  ts_instruments :: "instrumentRecord list"
  ts_currencyScales :: "Currency list"
  ts_accounts :: "accountRecord list"
  ts_risks :: "riskRecord list"
  ts_balances :: "balanceRecord list"
  ts_funding :: "fundingRecord list"
  ts_settlements :: "fundingSettlementRecord list"
  ts_books :: "bookRecord list"
  ts_orders :: "orderRecord list"
  ts_fills :: "fillRecord list"
  ts_positions :: "positionRecord list"

definition emptyTrading :: tradingState where
  "emptyTrading = \<lparr>ts_instruments = [], ts_currencyScales = [], ts_accounts = [], ts_risks = [],
     ts_balances = [], ts_funding = [], ts_settlements = [], ts_books = [], ts_orders = [],
     ts_fills = [], ts_positions = []\<rparr>"

record State =
  st_shardID :: ShardID
  st_nextStreamSequence :: u64
  st_marketSequence :: u64
  st_ready :: bool
  st_hash :: Hash
  st_lastReceipt :: Receipt
  st_hasLastReceipt :: bool
  st_trading :: tradingState

section \<open>Registries\<close>

text \<open>
  The upsert every registry of the engine uses: overwrite the first record with the same key, or
  append the record and sort by key.
\<close>

definition upsert :: "('a \<Rightarrow> 'k :: linorder) \<Rightarrow> 'a \<Rightarrow> 'a list \<Rightarrow> 'a list" where
  "upsert key r xs = (case first_index (\<lambda>x. key x = key r) xs of
     Some i \<Rightarrow> xs[i := r]
   | None \<Rightarrow> sort_by (\<lambda>x y. key x < key y) (xs @ [r]))"

definition currencyScale :: "tradingState \<Rightarrow> string \<Rightarrow> Currency option" where
  "currencyScale state code = find (\<lambda>c. cur_code c = code) (ts_currencyScales state)"

definition rememberCurrencyScale :: "tradingState \<Rightarrow> Currency \<Rightarrow> tradingState" where
  "rememberCurrencyScale state currency =
     (if currencyScale state (cur_code currency) \<noteq> None then state
      else state\<lparr>ts_currencyScales := sort_by (\<lambda>x y. cur_code x < cur_code y)
        (ts_currencyScales state @ [currency])\<rparr>)"

definition find_instrumentRecord :: "tradingState \<Rightarrow> string \<Rightarrow> instrumentRecord option" where
  "find_instrumentRecord state instrumentID =
     find (\<lambda>r. ir_id (im_revision r) = instrumentID) (ts_instruments state)"

definition find_instrument :: "tradingState \<Rightarrow> string \<Rightarrow> InstrumentRevision option" where
  "find_instrument state instrumentID =
     map_option im_revision (find (\<lambda>r. ir_id (im_revision r) = instrumentID) (ts_instruments state))"

definition replaceInstrument :: "tradingState \<Rightarrow> instrumentRecord \<Rightarrow> tradingState" where
  "replaceInstrument state r =
     state\<lparr>ts_instruments := upsert (\<lambda>x. ir_id (im_revision x)) r (ts_instruments state)\<rparr>"

definition accountMode :: "tradingState \<Rightarrow> string \<Rightarrow> OmsMode" where
  "accountMode state accountID =
     (case find (\<lambda>a. ac_accountID a = accountID) (ts_accounts state) of
        Some a \<Rightarrow> ac_omsMode a | None \<Rightarrow> OmsModeNetting)"

definition replaceAccount :: "tradingState \<Rightarrow> accountRecord \<Rightarrow> tradingState" where
  "replaceAccount state a = state\<lparr>ts_accounts := upsert ac_accountID a (ts_accounts state)\<rparr>"

definition hasOpenPositions :: "tradingState \<Rightarrow> string \<Rightarrow> bool" where
  "hasOpenPositions state accountID = list_ex (\<lambda>p. po_accountID p = accountID
     \<and> po_status p = PositionStatusOpen) (ts_positions state)"

definition active_status :: "OrderStatus \<Rightarrow> bool" where
  "active_status s = (s = OrderStatusHeld \<or> s = OrderStatusWorking \<or> s = OrderStatusPartiallyFilled)"

definition hasActiveOrders :: "tradingState \<Rightarrow> string \<Rightarrow> bool" where
  "hasActiveOrders state accountID = list_ex (\<lambda>order. or_accountID order = accountID
     \<and> active_status (or_status order)) (ts_orders state)"

definition find_book :: "tradingState \<Rightarrow> string \<Rightarrow> bookRecord option" where
  "find_book state instrumentID = find (\<lambda>b. bo_instrumentID b = instrumentID) (ts_books state)"

definition replaceBook :: "tradingState \<Rightarrow> bookRecord \<Rightarrow> tradingState" where
  "replaceBook state b = state\<lparr>ts_books := upsert bo_instrumentID b (ts_books state)\<rparr>"

definition orderIndex :: "tradingState \<Rightarrow> ID \<Rightarrow> nat option" where
  "orderIndex state orderID = first_index (\<lambda>order. or_orderID order = orderID) (ts_orders state)"

section \<open>Snapshots\<close>

definition order_snapshot :: "Extern \<Rightarrow> orderRecord \<Rightarrow> OrderSnapshot" where
  "order_snapshot X order = \<lparr>
     os_OrderID = or_orderID order,
     os_AccountID = or_accountID order,
     os_InstrumentID = ir_id (or_instrument order),
     os_Side = or_side order,
     os_Type = or_orderType order,
     os_TimeInForce = or_timeInForce order,
     os_Status = or_status order,
     os_Quantity = Decimal_String X (q_value (or_quantity order)),
     os_FilledQuantity = Decimal_String X (q_value (or_filledQuantity order)),
     os_AverageFillPrice = (if or_hasAverage order
        then Decimal_String X (p_value (or_averagePrice order)) else ''''),
     os_Price = (if or_hasPrice order then Decimal_String X (p_value (or_price order)) else ''''),
     os_TriggerPrice = (if or_hasTrigger order
        then Decimal_String X (p_value (or_triggerPrice order)) else ''''),
     os_Triggered = or_triggered order,
     os_TriggeredAt = or_triggeredAt order,
     os_ReduceOnly = or_reduceOnly order,
     os_PositionID = or_positionID order,
     os_BracketID = or_bracketID order,
     os_BracketLeg = or_bracketLeg order,
     os_BracketLegIndex = or_bracketLegIndex order,
     os_HasRested = or_hasRested order,
     os_HasSlippageBand = or_hasSlippageBand order,
     os_MaxSlippageBPS = or_maxSlippageBPS order,
     os_SlippageReference = (if or_hasSlippageBand order
        then Decimal_String X (p_value (or_slippageReference order)) else ''''),
     os_RejectReason = or_rejectReason order,
     os_Version = or_version order\<rparr>"

definition fill_snapshot :: "Extern \<Rightarrow> fillRecord \<Rightarrow> FillSnapshot" where
  "fill_snapshot X fill = \<lparr>
     fl_FillID = fi_fillID fill,
     fl_OrderID = fi_orderID fill,
     fl_AccountID = fi_accountID fill,
     fl_InstrumentID = ir_id (fi_instrument fill),
     fl_Side = fi_side fill,
     fl_Price = Decimal_String X (p_value (fi_price fill)),
     fl_Quantity = Decimal_String X (q_value (fi_quantity fill)),
     fl_PositionID = fi_positionID fill,
     fl_PositionEffect = fi_positionEffect fill,
     fl_RealizedPnL = (if fi_hasRealizedPnL fill
        then Decimal_String X (m_amount (fi_realizedPnL fill)) else ''''),
     fl_SettlementCurrency = (if fi_hasRealizedPnL fill
        then cur_code (m_currency (fi_realizedPnL fill)) else ''''),
     fl_LiquiditySide = fi_liquiditySide fill,
     fl_Fee = (if fi_hasFee fill then Decimal_String X (m_amount (fi_fee fill)) else ''''),
     fl_FeeCurrency = (if fi_hasFee fill then cur_code (m_currency (fi_fee fill)) else ''''),
     fl_LogicalTime = fi_logicalTime fill,
     fl_EffectiveLeverage = (if fi_hasEffectiveLeverage fill
        then Decimal_String X (ratio_value (fi_effectiveLeverage fill)) else '''')\<rparr>"

definition signed_quantity_text :: "Extern \<Rightarrow> PositionSide \<Rightarrow> Quantity \<Rightarrow> string" where
  "signed_quantity_text X side q =
     (if side = PositionSideShort \<and> \<not> Decimal_IsZero X (q_value q)
      then ''-'' @ Decimal_String X (q_value q) else Decimal_String X (q_value q))"

definition position_snapshot :: "Extern \<Rightarrow> positionRecord \<Rightarrow> PositionSnapshot" where
  "position_snapshot X p = \<lparr>
     ps_PositionID = po_positionID p,
     ps_AccountID = po_accountID p,
     ps_InstrumentID = ir_id (po_instrument p),
     ps_Side = po_side p,
     ps_Status = po_status p,
     ps_SignedQuantity = signed_quantity_text X (po_side p) (po_quantity p),
     ps_AverageOpenPrice = Decimal_String X (p_value (po_averageOpenPrice p)),
     ps_RealizedPnL = Decimal_String X (m_amount (po_realizedPnL p)),
     ps_SettlementCurrency = cur_code (po_settlementCurrency p),
     ps_MarginMode = po_marginMode p,
     ps_IsolatedCollateral = Decimal_String X (m_amount (po_isolatedCollateral p)),
     ps_Version = po_version p\<rparr>"

definition levelSnapshots :: "Extern \<Rightarrow> levelRecord list \<Rightarrow> BookLevel list" where
  "levelSnapshots X levels = map (\<lambda>l. \<lparr>bl_Price = Decimal_String X (p_value (lv_price l)),
     bl_Quantity = Decimal_String X (q_value (lv_quantity l))\<rparr>) levels"

definition book_snapshot :: "Extern \<Rightarrow> bookRecord \<Rightarrow> BookSnapshot" where
  "book_snapshot X b = \<lparr>
     bk_InstrumentID = bo_instrumentID b,
     bk_MarkPrice = (if bo_hasMark b then Decimal_String X (p_value (bo_markPrice b)) else ''''),
     bk_Bids = levelSnapshots X (bo_bids b),
     bk_Asks = levelSnapshots X (bo_asks b)\<rparr>"

section \<open>Queries of the shard state\<close>

definition State_Order :: "Extern \<Rightarrow> State \<Rightarrow> ID \<Rightarrow> OrderSnapshot option" where
  "State_Order X state orderID = map_option (\<lambda>i. order_snapshot X (ts_orders (st_trading state) ! i))
     (orderIndex (st_trading state) orderID)"

definition State_Orders :: "Extern \<Rightarrow> State \<Rightarrow> OrderSnapshot list" where
  "State_Orders X state = sort_by (\<lambda>x y. ID_String (os_OrderID x) < ID_String (os_OrderID y))
     (map (order_snapshot X) (ts_orders (st_trading state)))"

definition FillsForOrder :: "Extern \<Rightarrow> State \<Rightarrow> ID \<Rightarrow> FillSnapshot list" where
  "FillsForOrder X state orderID = sort_by (\<lambda>x y. ID_String (fl_FillID x) < ID_String (fl_FillID y))
     (map (fill_snapshot X) (filter (\<lambda>f. fi_orderID f = orderID) (ts_fills (st_trading state))))"

definition State_Position :: "Extern \<Rightarrow> State \<Rightarrow> ID \<Rightarrow> PositionSnapshot option" where
  "State_Position X state positionID = map_option (position_snapshot X)
     (find (\<lambda>p. po_positionID p = positionID) (ts_positions (st_trading state)))"

definition OpenPositions :: "Extern \<Rightarrow> State \<Rightarrow> string \<Rightarrow> PositionSnapshot list" where
  "OpenPositions X state accountID =
     sort_by (\<lambda>x y. ID_String (ps_PositionID x) < ID_String (ps_PositionID y))
       (map (position_snapshot X) (filter (\<lambda>p. po_accountID p = accountID
          \<and> po_status p = PositionStatusOpen) (ts_positions (st_trading state))))"

definition State_Positions :: "Extern \<Rightarrow> State \<Rightarrow> PositionSnapshot list" where
  "State_Positions X state = sort_by (\<lambda>x y. ID_String (ps_PositionID x) < ID_String (ps_PositionID y))
     (map (position_snapshot X) (ts_positions (st_trading state)))"

section \<open>The contract of a registry\<close>

text \<open>A registry is sorted by key and holds each key once.\<close>

definition keyed :: "('r \<Rightarrow> 'k :: linorder) \<Rightarrow> 'r list \<Rightarrow> bool" where
  "keyed key xs = (distinct (map key xs) \<and> sorted (map key xs))"

lemma keyed_sort_by: "keyed key (sort_by (\<lambda>x y. key x < key y) xs) \<longleftrightarrow> distinct (map key xs)"
  using key_order.sort_by_sorted [of key xs] by (auto simp: keyed_def sorted_wrt_map not_less)

locale registry =
  fixes key :: "'r \<Rightarrow> 'k :: linorder" and recs :: "'s \<Rightarrow> 'r list" and put :: "'s \<Rightarrow> 'r \<Rightarrow> 's"
  assumes put_recs: "recs (put s r) = upsert key r (recs s)"
begin

lemma put_new: "first_index (\<lambda>x. key x = key r) (recs s) = None \<Longrightarrow>
    recs (put s r) = sort_by (\<lambda>x y. key x < key y) (recs s @ [r])"
  by (simp add: put_recs upsert_def)

lemma put_existing: "first_index (\<lambda>x. key x = key r) (recs s) = Some i \<Longrightarrow>
    recs (put s r) = (recs s)[i := r]"
  by (simp add: put_recs upsert_def)

lemma put_keyed: "keyed key (recs s) \<Longrightarrow> keyed key (recs (put s r))"
proof (cases "first_index (\<lambda>x. key x = key r) (recs s)")
  case None
  moreover assume "keyed key (recs s)"
  ultimately have "distinct (map key (recs s @ [r]))"
    by (auto simp: keyed_def first_index_None_iff)
  then show ?thesis by (simp only: put_new [OF None] keyed_sort_by)
next
  case (Some i)
  then have "map key ((recs s)[i := r]) = map key (recs s)"
    using first_index_sat [OF Some] by (intro map_update_same) simp
  moreover assume "keyed key (recs s)"
  ultimately show ?thesis by (simp add: keyed_def put_existing [OF Some])
qed

lemma get_put:
  assumes ok: "keyed key (recs s)"
  shows "find (\<lambda>x. key x = k) (recs (put s r)) =
    (if k = key r then Some r else find (\<lambda>x. key x = k) (recs s))"
proof (cases "first_index (\<lambda>x. key x = key r) (recs s)")
  case None
  have d: "distinct (map key (recs s @ [r]))"
    using ok None by (auto simp: keyed_def first_index_None_iff)
  have nr: "find (\<lambda>x. key x = key r) (recs s) = None"
    using None by (simp add: find_first_index)
  have "find (\<lambda>x. key x = k) (recs (put s r)) = find (\<lambda>x. key x = k) (recs s @ [r])"
    unfolding put_new [OF None] by (rule find_mset_cong) (use d in auto)
  with nr show ?thesis by (auto simp: find_snoc split: option.splits)
next
  case (Some i)
  have "find (\<lambda>x. key x = k) (xs[i := r]) = (if k = key r then Some r else find (\<lambda>x. key x = k) xs)"
    if "first_index (\<lambda>x. key x = key r) xs = Some i" for xs i
    using that by (induction xs arbitrary: i) (auto split: if_splits nat.splits)
  from this [OF Some] show ?thesis by (simp add: put_existing [OF Some])
qed

end

interpretation instruments: registry "\<lambda>r. ir_id (im_revision r)" ts_instruments replaceInstrument
  by unfold_locales (simp add: replaceInstrument_def)

interpretation accounts: registry ac_accountID ts_accounts replaceAccount
  by unfold_locales (simp add: replaceAccount_def)

interpretation books: registry bo_instrumentID ts_books replaceBook
  by unfold_locales (simp add: replaceBook_def)

end
