(* ===== verification/EngineMatching.thy ===== *)
theory EngineMatching
  imports EngineState
begin

text \<open>
  Pricing and matching of one order against one book (\<open>trading_matching.go\<close>): which levels an order may
  execute against, whether the visible depth can fill it, the matching loop itself, the fees and the
  average price of its fills. A call that reports failure with \<open>false\<close> returns \<open>None\<close>; the caller drops
  whatever it had changed by then.
\<close>

section \<open>Eligibility\<close>

definition executableLevels :: "bookRecord \<Rightarrow> Side \<Rightarrow> levelRecord list" where
  "executableLevels book side = (if side = SideBuy then bo_asks book else bo_bids book)"

definition marketUsesDeepestFallback :: "orderRecord \<Rightarrow> bool" where
  "marketUsesDeepestFallback order = (or_orderType order = OrderTypeMarket
     \<or> or_orderType order = OrderTypeStopMarket \<or> or_orderType order = OrderTypeTakeProfitMarket)"

definition priceViolatesSlippage :: "Extern \<Rightarrow> Price \<Rightarrow> orderRecord \<Rightarrow> bool" where
  "priceViolatesSlippage X price order =
     (if \<not> or_hasSlippageBand order then False
      else case PriceWithinAdverseBasisPoints X (or_slippageReference order) price
          (or_side order = SideBuy) (or_maxSlippageBPS order) of
          Inl _ \<Rightarrow> True
        | Inr withinBand \<Rightarrow> \<not> withinBand)"

definition levelEligible :: "Extern \<Rightarrow> levelRecord \<Rightarrow> orderRecord \<Rightarrow> bool" where
  "levelEligible X level order =
     (if \<not> marketUsesDeepestFallback order \<and> or_side order = SideBuy
         \<and> 0 < Decimal_Cmp X (p_value (lv_price level)) (p_value (or_price order)) then False
      else if \<not> marketUsesDeepestFallback order \<and> or_side order = SideSell
         \<and> Decimal_Cmp X (p_value (lv_price level)) (p_value (or_price order)) < 0 then False
      else \<not> priceViolatesSlippage X (lv_price level) order)"

definition allLevelsEligible :: "Extern \<Rightarrow> levelRecord list \<Rightarrow> orderRecord \<Rightarrow> bool" where
  "allLevelsEligible X levels order = list_all (\<lambda>level. levelEligible X level order) levels"

section \<open>Fillability of the visible depth\<close>

fun fillability_from :: "Extern \<Rightarrow> orderRecord \<Rightarrow> Decimal \<Rightarrow> levelRecord list \<Rightarrow> RejectionReason" where
  "fillability_from X order remaining [] = RejectionInsufficientMarket"
| "fillability_from X order remaining (level # levels) =
     (if \<not> levelEligible X level order then
        (if or_hasSlippageBand order \<and> priceViolatesSlippage X (lv_price level) order
         then RejectionSlippageExceeded else RejectionInsufficientMarket)
      else case Decimal_Sub X remaining (q_value (lv_quantity level)) of
          Inl _ \<Rightarrow> RejectionInvalidOrder
        | Inr rest \<Rightarrow>
            if Decimal_Sign X rest \<le> 0 then RejectionNone
            else if levels = [] \<and> marketUsesDeepestFallback order then RejectionNone
            else fillability_from X order rest levels)"

definition bookFillability :: "Extern \<Rightarrow> bookRecord \<Rightarrow> orderRecord \<Rightarrow> RejectionReason" where
  "bookFillability X book order =
     fillability_from X order (q_value (or_quantity order)) (executableLevels book (or_side order))"

section \<open>The matching loop\<close>

definition nextOrderFillSequence :: "fillRecord list \<Rightarrow> ID \<Rightarrow> u64" where
  "nextOrderFillSequence fills orderID =
     foldl (\<lambda>sequence fill. if fi_orderID fill = orderID then sequence + 1 else sequence) 1 fills"

definition zeroRatio :: Ratio where "zeroRatio = \<lparr>ratio_value = zeroDecimal\<rparr>"

definition new_fill ::
  "orderRecord \<Rightarrow> InputEnvelope \<Rightarrow> fillRecord list \<Rightarrow> Price \<Rightarrow> Quantity \<Rightarrow> fillRecord"
where
  "new_fill order input fills price quantity = \<lparr>
     fi_fillID = IDFromSequence (or_orderID order) (nextOrderFillSequence fills (or_orderID order)),
     fi_orderID = or_orderID order,
     fi_accountID = or_accountID order,
     fi_instrument = or_instrument order,
     fi_side = or_side order,
     fi_price = price,
     fi_quantity = quantity,
     fi_positionID = zeroID,
     fi_positionEffect = PositionEffectNone,
     fi_realizedPnL = zeroMoney,
     fi_hasRealizedPnL = False,
     fi_liquiditySide = LiquiditySideNone,
     fi_fee = zeroMoney,
     fi_hasFee = False,
     fi_logicalTime = in_LogicalTime input,
     fi_effectiveLeverage = zeroRatio,
     fi_hasEffectiveLeverage = False\<rparr>"

text \<open>
  The loop over the levels: the levels with what is left of them, the order, the fills and the
  deepest eligible price seen.
\<close>

fun match_levels ::
  "Extern \<Rightarrow> InputEnvelope \<Rightarrow> orderRecord \<Rightarrow> fillRecord list \<Rightarrow> Price option \<Rightarrow> levelRecord list
     \<Rightarrow> (levelRecord list \<times> orderRecord \<times> fillRecord list \<times> Price option) option"
where
  "match_levels X input order fills deepest [] = Some ([], order, fills, deepest)"
| "match_levels X input order fills deepest (level # levels) =
     (if \<not> levelEligible X level order then Some (level # levels, order, fills, deepest)
      else case Quantity_Sub X (or_quantity order) (or_filledQuantity order) of
        Inl _ \<Rightarrow> None
      | Inr remaining \<Rightarrow>
          if Decimal_IsZero X (q_value remaining)
          then Some (level # levels, order, fills, Some (lv_price level))
          else let fillQuantity = (if Decimal_Cmp X (q_value (lv_quantity level)) (q_value remaining) < 0
                    then lv_quantity level else remaining)
            in case Quantity_Add X (or_filledQuantity order) fillQuantity of
              Inl _ \<Rightarrow> None
            | Inr filled \<Rightarrow>
                (case Quantity_Sub X (lv_quantity level) fillQuantity of
                   Inl _ \<Rightarrow> None
                 | Inr left \<Rightarrow>
                     (case match_levels X input (order\<lparr>or_filledQuantity := filled\<rparr>)
                         (fills @ [new_fill order input fills (lv_price level) fillQuantity])
                         (Some (lv_price level)) levels of
                        None \<Rightarrow> None
                      | Some (rest, order', fills', deepest') \<Rightarrow>
                          Some (level\<lparr>lv_quantity := left\<rparr> # rest, order', fills', deepest'))))"

text \<open>What follows the loop: liquidity past the visible depth at the deepest admissible level.\<close>

definition match_fallback ::
  "Extern \<Rightarrow> InputEnvelope \<Rightarrow> levelRecord list \<Rightarrow> orderRecord \<Rightarrow> fillRecord list \<Rightarrow> Price option
     \<Rightarrow> (orderRecord \<times> fillRecord list) option"
where
  "match_fallback X input levels order fills deepestEligible =
     (case Quantity_Sub X (or_quantity order) (or_filledQuantity order) of
        Inl _ \<Rightarrow> None
      | Inr remaining \<Rightarrow>
          (case deepestEligible of
             Some deepest \<Rightarrow>
               if 0 < Decimal_Sign X (q_value remaining) \<and> marketUsesDeepestFallback order
                  \<and> allLevelsEligible X levels order
               then (case Quantity_Add X (or_filledQuantity order) remaining of
                   Inl _ \<Rightarrow> None
                 | Inr filled \<Rightarrow> Some (order\<lparr>or_filledQuantity := filled\<rparr>,
                     fills @ [new_fill order input fills deepest remaining]))
               else Some (order, fills)
           | None \<Rightarrow> Some (order, fills)))"

definition matchOrder ::
  "Extern \<Rightarrow> bookRecord \<Rightarrow> orderRecord \<Rightarrow> InputEnvelope \<Rightarrow> fillRecord list
     \<Rightarrow> (bookRecord \<times> orderRecord \<times> fillRecord list) option"
where
  "matchOrder X book order input fills =
     (case match_levels X input order fills None (executableLevels book (or_side order)) of
        None \<Rightarrow> None
      | Some (levels, order', fills', deepest) \<Rightarrow>
          (case match_fallback X input levels order' fills' deepest of
             None \<Rightarrow> None
           | Some (order'', fills'') \<Rightarrow>
               let compacted = filter (\<lambda>level. \<not> Decimal_IsZero X (q_value (lv_quantity level))) levels
               in Some (if or_side order = SideBuy then book\<lparr>bo_asks := compacted\<rparr>
                        else book\<lparr>bo_bids := compacted\<rparr>, order'', fills'')))"

section \<open>Fees, average price and change detection\<close>

definition executionLiquiditySide :: "orderRecord \<Rightarrow> LiquiditySide" where
  "executionLiquiditySide order = (if or_orderType order = OrderTypeLimit \<and> or_hasRested order
     then LiquiditySideMaker else LiquiditySideTaker)"

fun fee_fills ::
  "Extern \<Rightarrow> Rate \<Rightarrow> Currency \<Rightarrow> LiquiditySide \<Rightarrow> fillRecord list \<Rightarrow> fillRecord list result"
where
  "fee_fills X rate currency side [] = Inr []"
| "fee_fills X rate currency side (fill # fills) =
     and_then (TradingFee X (fi_price fill) (fi_quantity fill) rate currency) (\<lambda>fee.
     and_then (fee_fills X rate currency side fills) (\<lambda>rest.
     Inr (fill\<lparr>fi_liquiditySide := side, fi_fee := fee, fi_hasFee := True\<rparr> # rest)))"

definition applyTradingFees ::
  "Extern \<Rightarrow> tradingState \<Rightarrow> orderRecord \<Rightarrow> nat \<Rightarrow> tradingState result"
where
  "applyTradingFees X state order firstFillIndex =
     (case find_instrumentRecord state (ir_id (or_instrument order)) of
        None \<Rightarrow> Inl []
      | Some instrument \<Rightarrow>
          let liquiditySide = executionLiquiditySide order;
              rate = (if liquiditySide = LiquiditySideMaker then im_makerFeeRate instrument
                      else im_takerFeeRate instrument)
          in and_then (fee_fills X rate (im_settlementCurrency instrument) liquiditySide
                 (drop firstFillIndex (ts_fills state))) (\<lambda>charged.
             Inr (state\<lparr>ts_fills := take firstFillIndex (ts_fills state) @ charged\<rparr>)))"

definition averageOrderFillPrice :: "Extern \<Rightarrow> fillRecord list \<Rightarrow> ID \<Rightarrow> Price result" where
  "averageOrderFillPrice X fills orderID = WeightedAveragePrice X
     (map (\<lambda>fill. \<lparr>pq_Price = fi_price fill, pq_Quantity = fi_quantity fill\<rparr>)
       (filter (\<lambda>fill. fi_orderID fill = orderID) fills))"

definition orderExecutionChanged :: "Extern \<Rightarrow> orderRecord \<Rightarrow> orderRecord \<Rightarrow> bool \<Rightarrow> bool" where
  "orderExecutionChanged X beforeOrder afterOrder hasNewFills =
     (hasNewFills \<or> or_status beforeOrder \<noteq> or_status afterOrder
      \<or> \<not> Decimal_Equal X (q_value (or_quantity beforeOrder)) (q_value (or_quantity afterOrder))
      \<or> \<not> Decimal_Equal X (q_value (or_filledQuantity beforeOrder)) (q_value (or_filledQuantity afterOrder))
      \<or> or_hasAverage beforeOrder \<noteq> or_hasAverage afterOrder)"

end
