(* ===== verification/EngineRisk.thy ===== *)
theory EngineRisk
  imports EngineMatching "HOL-Library.Product_Lexorder"
begin

text \<open>
  Balances, risk settings and margin (the queries and updates of \<open>trading_risk.go\<close>): leverage and
  margin mode per account and instrument, the funded balance per account and currency, used margin
  and unrealized profit over the open positions and resting orders of an account, the margin one
  order needs, and the admission test built on them. A Go error that carries only a message is the
  error without sentinels.
\<close>

section \<open>Predicates\<close>

definition hasSettlementCurrency :: "tradingState \<Rightarrow> Currency \<Rightarrow> bool" where
  "hasSettlementCurrency state currency =
     list_ex (\<lambda>instrument. im_settlementCurrency instrument = currency) (ts_instruments state)"

definition hasOpenPositionForInstrument :: "tradingState \<Rightarrow> string \<Rightarrow> string \<Rightarrow> bool" where
  "hasOpenPositionForInstrument state accountID instrumentID = list_ex (\<lambda>p. po_accountID p = accountID
     \<and> ir_id (po_instrument p) = instrumentID \<and> po_status p = PositionStatusOpen) (ts_positions state)"

definition hasEconomicStateForInstrument :: "tradingState \<Rightarrow> string \<Rightarrow> bool" where
  "hasEconomicStateForInstrument state instrumentID =
     (list_ex (\<lambda>p. ir_id (po_instrument p) = instrumentID \<and> po_status p = PositionStatusOpen)
        (ts_positions state)
      \<or> list_ex (\<lambda>order. ir_id (or_instrument order) = instrumentID
          \<and> active_status (or_status order)) (ts_orders state))"

definition hasRiskAboveMaxLeverage :: "Extern \<Rightarrow> tradingState \<Rightarrow> string \<Rightarrow> Ratio \<Rightarrow> bool" where
  "hasRiskAboveMaxLeverage X state instrumentID maxLeverage = list_ex (\<lambda>risk.
     rk_instrumentID risk = instrumentID
     \<and> 0 < Decimal_Cmp X (ratio_value (rk_leverage risk)) (ratio_value maxLeverage)) (ts_risks state)"

definition resting_status :: "OrderStatus \<Rightarrow> bool" where
  "resting_status s = (s = OrderStatusWorking \<or> s = OrderStatusPartiallyFilled)"

definition hasActiveOrderForInstrument :: "tradingState \<Rightarrow> string \<Rightarrow> string \<Rightarrow> bool" where
  "hasActiveOrderForInstrument state accountID instrumentID = list_ex (\<lambda>order.
     or_accountID order = accountID \<and> ir_id (or_instrument order) = instrumentID
     \<and> resting_status (or_status order)) (ts_orders state)"

section \<open>Risk settings\<close>

definition risk_of :: "tradingState \<Rightarrow> string \<Rightarrow> instrumentRecord \<Rightarrow> riskRecord" where
  "risk_of state accountID instrument =
     (case find (\<lambda>risk. rk_accountID risk = accountID
         \<and> rk_instrumentID risk = ir_id (im_revision instrument)) (ts_risks state) of
        Some risk \<Rightarrow> risk
      | None \<Rightarrow> \<lparr>rk_accountID = accountID, rk_instrumentID = ir_id (im_revision instrument),
          rk_marginMode = MarginModeCross, rk_leverage = im_maxLeverage instrument\<rparr>)"

definition replaceRisk :: "tradingState \<Rightarrow> riskRecord \<Rightarrow> tradingState" where
  "replaceRisk state risk =
     state\<lparr>ts_risks := upsert (\<lambda>r. (rk_accountID r, rk_instrumentID r)) risk (ts_risks state)\<rparr>"

section \<open>Balances\<close>

definition balanceIndex :: "tradingState \<Rightarrow> string \<Rightarrow> Currency \<Rightarrow> nat option" where
  "balanceIndex state accountID currency = first_index (\<lambda>b. ba_accountID b = accountID
     \<and> m_currency (ba_total b) = currency) (ts_balances state)"

definition balance_key :: "balanceRecord \<Rightarrow> string \<times> string" where
  "balance_key b = (ba_accountID b, cur_code (m_currency (ba_total b)))"

definition sortBalances :: "tradingState \<Rightarrow> tradingState" where
  "sortBalances state =
     state\<lparr>ts_balances := sort_by (\<lambda>x y. balance_key x < balance_key y) (ts_balances state)\<rparr>"

definition set_balance :: "tradingState \<Rightarrow> nat \<Rightarrow> Money \<Rightarrow> tradingState" where
  "set_balance state i amount =
     state\<lparr>ts_balances := (ts_balances state)[i := (ts_balances state ! i)\<lparr>ba_total := amount\<rparr>]\<rparr>"

definition applyBalanceDelta ::
  "Extern \<Rightarrow> tradingState \<Rightarrow> string \<Rightarrow> Money \<Rightarrow> tradingState result"
where
  "applyBalanceDelta X state accountID delta =
     (case balanceIndex state accountID (m_currency delta) of
        None \<Rightarrow> Inl []
      | Some i \<Rightarrow> and_then (Money_Add X (ba_total (ts_balances state ! i)) delta) (\<lambda>total.
          Inr (set_balance state i total)))"

definition applyBalanceDebit ::
  "Extern \<Rightarrow> tradingState \<Rightarrow> string \<Rightarrow> Money \<Rightarrow> tradingState result"
where
  "applyBalanceDebit X state accountID amount =
     (case balanceIndex state accountID (m_currency amount) of
        None \<Rightarrow> Inl []
      | Some i \<Rightarrow> and_then (Money_Sub X (ba_total (ts_balances state ! i)) amount) (\<lambda>total.
          Inr (set_balance state i total)))"

definition find_settlement :: "tradingState \<Rightarrow> ID \<Rightarrow> fundingSettlementRecord option" where
  "find_settlement state settlementID =
     find (\<lambda>s. se_settlementID s = settlementID) (ts_settlements state)"

definition funding_snapshot :: "Extern \<Rightarrow> fundingRecord \<Rightarrow> FundingSnapshot" where
  "funding_snapshot X f = \<lparr>
     fs_FundingID = fu_fundingID f,
     fs_SettlementID = fu_settlementID f,
     fs_PositionID = fu_positionID f,
     fs_AccountID = fu_accountID f,
     fs_InstrumentID = ir_id (fu_instrument f),
     fs_SignedQuantity = fu_signedQuantity f,
     fs_OraclePrice = Decimal_String X (p_value (fu_oraclePrice f)),
     fs_Rate = Decimal_String X (rate_value (fu_rate f)),
     fs_Amount = Decimal_String X (m_amount (fu_amount f)),
     fs_SettlementCurrency = cur_code (m_currency (fu_amount f))\<rparr>"

section \<open>Margin\<close>

definition max_price :: "Extern \<Rightarrow> Price \<Rightarrow> Price \<Rightarrow> Price" where
  "max_price X price candidate =
     (if 0 < Decimal_Cmp X (p_value candidate) (p_value price) then candidate else price)"

text \<open>The worst price among the eligible levels, in book order up to the first ineligible one.\<close>

fun worst_level_price :: "Extern \<Rightarrow> orderRecord \<Rightarrow> Price \<Rightarrow> levelRecord list \<Rightarrow> Price" where
  "worst_level_price X order price [] = price"
| "worst_level_price X order price (level # levels) =
     (if \<not> levelEligible X level order then price
      else worst_level_price X order (max_price X price (lv_price level)) levels)"

definition margin_price :: "Extern \<Rightarrow> bookRecord \<Rightarrow> orderRecord \<Rightarrow> Price" where
  "margin_price X book order =
     (let price = bo_markPrice book;
          price = (if or_hasPrice order then max_price X price (or_price order) else price);
          price = (if or_hasTrigger order then max_price X price (or_triggerPrice order) else price)
      in worst_level_price X order price (executableLevels book (or_side order)))"

definition orderMargin ::
  "Extern \<Rightarrow> tradingState \<Rightarrow> orderRecord \<Rightarrow> instrumentRecord \<Rightarrow> Money result"
where
  "orderMargin X state order instrument =
     and_then (Quantity_Sub X (or_quantity order) (or_filledQuantity order)) (\<lambda>remaining.
     case find_book state (ir_id (or_instrument order)) of
       None \<Rightarrow> Inl []
     | Some book \<Rightarrow> if \<not> bo_hasMark book then Inl [] else
         let price = margin_price X book order;
             risk = risk_of state (or_accountID order) instrument
         in and_then (PositionMargin X price remaining (im_initialMarginRate instrument)
              (rk_leverage risk) (im_settlementCurrency instrument)) (\<lambda>margin.
            let feeRate = (if 0 < Decimal_Cmp X (rate_value (im_makerFeeRate instrument))
                    (rate_value (im_takerFeeRate instrument))
                  then im_makerFeeRate instrument else im_takerFeeRate instrument)
            in and_then (if Decimal_Sign X (rate_value feeRate) < 0 then NewRate X ''0''
                         else Inr feeRate) (\<lambda>rate.
               and_then (TradingFee X price remaining rate (im_settlementCurrency instrument)) (\<lambda>fee.
               Money_Add X margin fee))))"

fun position_totals ::
  "Extern \<Rightarrow> tradingState \<Rightarrow> string \<Rightarrow> Currency \<Rightarrow> positionRecord list \<Rightarrow> Money \<Rightarrow> Money
     \<Rightarrow> (Money \<times> Money) result"
where
  "position_totals X state accountID currency [] used unrealized = Inr (used, unrealized)"
| "position_totals X state accountID currency (p # ps) used unrealized =
     (if po_accountID p \<noteq> accountID \<or> po_status p \<noteq> PositionStatusOpen
         \<or> po_settlementCurrency p \<noteq> currency
      then position_totals X state accountID currency ps used unrealized
      else case find_instrumentRecord state (ir_id (po_instrument p)) of
        None \<Rightarrow> Inl []
      | Some instrument \<Rightarrow>
          and_then (PositionMargin X (po_averageOpenPrice p) (po_quantity p)
            (im_initialMarginRate instrument) (rk_leverage (risk_of state accountID instrument))
            currency) (\<lambda>margin.
          and_then (Money_Add X used margin) (\<lambda>used'.
          case find_book state (ir_id (po_instrument p)) of
            None \<Rightarrow> Inl []
          | Some book \<Rightarrow> if \<not> bo_hasMark book then Inl [] else
              and_then (RealizedPnL X (po_averageOpenPrice p) (bo_markPrice book) (po_quantity p)
                (po_side p = PositionSideLong) currency) (\<lambda>pnl.
              and_then (Money_Add X unrealized pnl) (\<lambda>unrealized'.
              position_totals X state accountID currency ps used' unrealized')))))"

fun order_totals ::
  "Extern \<Rightarrow> tradingState \<Rightarrow> string \<Rightarrow> Currency \<Rightarrow> orderRecord list \<Rightarrow> Money \<Rightarrow> Money result"
where
  "order_totals X state accountID currency [] used = Inr used"
| "order_totals X state accountID currency (order # orders) used =
     (if or_accountID order \<noteq> accountID \<or> or_reduceOnly order \<or> \<not> resting_status (or_status order)
      then order_totals X state accountID currency orders used
      else case find_instrumentRecord state (ir_id (or_instrument order)) of
        None \<Rightarrow> order_totals X state accountID currency orders used
      | Some instrument \<Rightarrow>
          if im_settlementCurrency instrument \<noteq> currency
          then order_totals X state accountID currency orders used
          else and_then (orderMargin X state order instrument) (\<lambda>margin.
            and_then (Money_Add X used margin) (\<lambda>used'.
            order_totals X state accountID currency orders used')))"

definition accountRiskTotals ::
  "Extern \<Rightarrow> tradingState \<Rightarrow> string \<Rightarrow> Currency \<Rightarrow> (Money \<times> Money) result"
where
  "accountRiskTotals X state accountID currency =
     and_then (NewMoney X ''0'' currency) (\<lambda>zeroUsed.
     and_then (NewMoney X ''0'' currency) (\<lambda>zeroUnrealized.
     and_then (position_totals X state accountID currency (ts_positions state) zeroUsed
         zeroUnrealized) (\<lambda>(used, unrealized).
     and_then (order_totals X state accountID currency (ts_orders state) used) (\<lambda>used'.
     Inr (used', unrealized)))))"

definition balanceSnapshot :: "Extern \<Rightarrow> tradingState \<Rightarrow> string \<Rightarrow> Currency \<Rightarrow> BalanceSnapshot option" where
  "balanceSnapshot X state accountID currency =
     (case balanceIndex state accountID currency of
        None \<Rightarrow> None
      | Some i \<Rightarrow>
          (case and_then (accountRiskTotals X state accountID currency) (\<lambda>(used, unrealized).
              let total = ba_total (ts_balances state ! i) in
              and_then (Money_Add X total unrealized) (\<lambda>equity.
              and_then (Money_Sub X equity used) (\<lambda>free.
              Inr \<lparr>bs_AccountID = accountID, bs_Currency = cur_code currency,
                bs_Total = Decimal_String X (m_amount total),
                bs_Used = Decimal_String X (m_amount used),
                bs_Free = Decimal_String X (m_amount free),
                bs_Equity = Decimal_String X (m_amount equity)\<rparr>))) of
             Inl _ \<Rightarrow> None
           | Inr snapshot \<Rightarrow> Some snapshot))"

definition State_Balance :: "Extern \<Rightarrow> State \<Rightarrow> string \<Rightarrow> string \<Rightarrow> BalanceSnapshot option" where
  "State_Balance X state accountID currencyCode =
     (case find (\<lambda>b. ba_accountID b = accountID \<and> cur_code (m_currency (ba_total b)) = currencyCode)
         (ts_balances (st_trading state)) of
        Some b \<Rightarrow> balanceSnapshot X (st_trading state) accountID (m_currency (ba_total b))
      | None \<Rightarrow> None)"

definition marginAdmissionReason :: "Extern \<Rightarrow> tradingState \<Rightarrow> orderRecord \<Rightarrow> RejectionReason" where
  "marginAdmissionReason X state order =
     (if or_reduceOnly order then RejectionNone
      else case find_instrumentRecord state (ir_id (or_instrument order)) of
        None \<Rightarrow> RejectionInvalidInstrument
      | Some instrument \<Rightarrow>
          (case balanceIndex state (or_accountID order) (im_settlementCurrency instrument) of
             None \<Rightarrow> RejectionInsufficientFunds
           | Some i \<Rightarrow>
               if Decimal_Sign X (m_amount (ba_total (ts_balances state ! i))) \<le> 0
               then RejectionInsufficientFunds
               else case balanceSnapshot X state (or_accountID order) (im_settlementCurrency instrument) of
                 None \<Rightarrow> RejectionMarketDataStale
               | Some snapshot \<Rightarrow>
                   (case NewMoney X (bs_Free snapshot) (im_settlementCurrency instrument) of
                      Inl _ \<Rightarrow> RejectionInvalidOrder
                    | Inr free \<Rightarrow>
                        (case orderMargin X state order instrument of
                           Inl _ \<Rightarrow> RejectionMarketDataStale
                         | Inr required \<Rightarrow>
                             if 0 < Decimal_Cmp X (m_amount required) (m_amount free)
                             then RejectionInsufficientMargin else RejectionNone))))"

interpretation risks: registry "\<lambda>r. (rk_accountID r, rk_instrumentID r)" ts_risks replaceRisk
  by unfold_locales (simp add: replaceRisk_def)

end
