(* ===== verification/EngineText.thy ===== *)
theory EngineText
  imports EngineTypes
begin

text \<open>
  The strings behind the engine's string-typed enumerations (\<open>trading_types.go\<close>, \<open>errors.go\<close>), as they
  appear in hashes, events and payloads.
\<close>

fun TradingActionKind_text :: "TradingActionKind \<Rightarrow> string" where
  "TradingActionKind_text TradingActionConfigureInstrument = ''configure_instrument''"
| "TradingActionKind_text TradingActionConfigureAccount = ''configure_account''"
| "TradingActionKind_text TradingActionConfigureRisk = ''configure_risk''"
| "TradingActionKind_text TradingActionAdjustBalance = ''adjust_balance''"
| "TradingActionKind_text TradingActionSettleFunding = ''settle_funding''"
| "TradingActionKind_text TradingActionLiquidateAccount = ''liquidate_account''"
| "TradingActionKind_text TradingActionUpdateBook = ''update_book''"
| "TradingActionKind_text TradingActionSubmitOrder = ''submit_order''"
| "TradingActionKind_text TradingActionPlaceBracket = ''place_bracket''"
| "TradingActionKind_text TradingActionAmendOrder = ''amend_order''"
| "TradingActionKind_text TradingActionCancelOrder = ''cancel_order''"
| "TradingActionKind_text (TradingActionKindOther s) = s"

fun Side_text :: "Side \<Rightarrow> string" where
  "Side_text SideBuy = ''BUY''"
| "Side_text SideSell = ''SELL''"
| "Side_text (SideOther s) = s"

fun OrderType_text :: "OrderType \<Rightarrow> string" where
  "OrderType_text OrderTypeMarket = ''MARKET''"
| "OrderType_text OrderTypeLimit = ''LIMIT''"
| "OrderType_text OrderTypeStopMarket = ''STOP_MARKET''"
| "OrderType_text OrderTypeStopLimit = ''STOP_LIMIT''"
| "OrderType_text OrderTypeTakeProfitMarket = ''TAKE_PROFIT_MARKET''"
| "OrderType_text OrderTypeTakeProfitLimit = ''TAKE_PROFIT_LIMIT''"
| "OrderType_text (OrderTypeOther s) = s"

fun TimeInForce_text :: "TimeInForce \<Rightarrow> string" where
  "TimeInForce_text TimeInForceGTC = ''GTC''"
| "TimeInForce_text TimeInForceIOC = ''IOC''"
| "TimeInForce_text TimeInForceFOK = ''FOK''"
| "TimeInForce_text (TimeInForceOther s) = s"

fun OmsMode_text :: "OmsMode \<Rightarrow> string" where
  "OmsMode_text OmsModeNetting = ''NETTING''"
| "OmsMode_text OmsModeHedging = ''HEDGING''"
| "OmsMode_text (OmsModeOther s) = s"

fun MarginMode_text :: "MarginMode \<Rightarrow> string" where
  "MarginMode_text MarginModeCross = ''CROSS''"
| "MarginMode_text MarginModeIsolated = ''ISOLATED''"
| "MarginMode_text (MarginModeOther s) = s"

fun LiquiditySide_text :: "LiquiditySide \<Rightarrow> string" where
  "LiquiditySide_text LiquiditySideNone = ''''"
| "LiquiditySide_text LiquiditySideMaker = ''MAKER''"
| "LiquiditySide_text LiquiditySideTaker = ''TAKER''"

fun BalanceOperation_text :: "BalanceOperation \<Rightarrow> string" where
  "BalanceOperation_text BalanceOperationDeposit = ''DEPOSIT''"
| "BalanceOperation_text BalanceOperationSet = ''SET''"
| "BalanceOperation_text (BalanceOperationOther s) = s"

fun PositionSide_text :: "PositionSide \<Rightarrow> string" where
  "PositionSide_text PositionSideLong = ''LONG''"
| "PositionSide_text PositionSideShort = ''SHORT''"

fun PositionStatus_text :: "PositionStatus \<Rightarrow> string" where
  "PositionStatus_text PositionStatusOpen = ''open''"
| "PositionStatus_text PositionStatusClosed = ''closed''"

fun PositionEffect_text :: "PositionEffect \<Rightarrow> string" where
  "PositionEffect_text PositionEffectNone = ''''"
| "PositionEffect_text PositionEffectOpen = ''open''"
| "PositionEffect_text PositionEffectIncrease = ''increase''"
| "PositionEffect_text PositionEffectReduce = ''reduce''"
| "PositionEffect_text PositionEffectFlip = ''flip''"
| "PositionEffect_text PositionEffectClose = ''close''"

fun OrderStatus_text :: "OrderStatus \<Rightarrow> string" where
  "OrderStatus_text OrderStatusHeld = ''held''"
| "OrderStatus_text OrderStatusWorking = ''working''"
| "OrderStatus_text OrderStatusPartiallyFilled = ''partially_filled''"
| "OrderStatus_text OrderStatusFilled = ''filled''"
| "OrderStatus_text OrderStatusCancelled = ''cancelled''"
| "OrderStatus_text OrderStatusRejected = ''rejected''"

fun BracketLeg_text :: "BracketLeg \<Rightarrow> string" where
  "BracketLeg_text BracketLegNone = ''''"
| "BracketLeg_text BracketLegEntry = ''entry''"
| "BracketLeg_text BracketLegTakeProfit = ''take_profit''"
| "BracketLeg_text BracketLegStopLoss = ''stop_loss''"

fun CommandStatus_text :: "CommandStatus \<Rightarrow> string" where
  "CommandStatus_text CommandStatusNone = ''''"
| "CommandStatus_text CommandStatusAccepted = ''accepted''"
| "CommandStatus_text CommandStatusRejected = ''rejected''"

fun RejectionReason_text :: "RejectionReason \<Rightarrow> string" where
  "RejectionReason_text RejectionNone = ''''"
| "RejectionReason_text RejectionInvalidAction = ''invalid_action''"
| "RejectionReason_text RejectionInvalidInstrument = ''invalid_instrument''"
| "RejectionReason_text RejectionInvalidOrder = ''invalid_order''"
| "RejectionReason_text RejectionOrderNotFound = ''order_not_found''"
| "RejectionReason_text RejectionOrderOwnership = ''order_ownership''"
| "RejectionReason_text RejectionOrderTerminal = ''order_terminal''"
| "RejectionReason_text RejectionInsufficientMarket = ''insufficient_market''"
| "RejectionReason_text RejectionDuplicateOrderID = ''duplicate_order_id''"
| "RejectionReason_text RejectionSlippageExceeded = ''slippage_exceeded''"
| "RejectionReason_text RejectionReduceOnly = ''reduce_only''"
| "RejectionReason_text RejectionInsufficientFunds = ''insufficient_funds''"
| "RejectionReason_text RejectionInsufficientMargin = ''insufficient_margin''"
| "RejectionReason_text RejectionRiskConfigLocked = ''risk_config_locked''"
| "RejectionReason_text RejectionDuplicateSettlement = ''duplicate_settlement''"
| "RejectionReason_text RejectionMarketDataStale = ''market_data_stale''"

fun ErrorKind_text :: "ErrorKind \<Rightarrow> string" where
  "ErrorKind_text ErrInvalidEnvelope = ''invalid_envelope''"
| "ErrorKind_text ErrUnknownSchema = ''unknown_schema''"
| "ErrorKind_text ErrUnknownInputKind = ''unknown_input_kind''"
| "ErrorKind_text ErrShardMismatch = ''shard_mismatch''"
| "ErrorKind_text ErrPayloadMismatch = ''payload_mismatch''"
| "ErrorKind_text ErrSequenceGap = ''sequence_gap''"
| "ErrorKind_text ErrSequenceRegression = ''sequence_regression''"
| "ErrorKind_text ErrSequenceExhausted = ''sequence_exhausted''"
| "ErrorKind_text ErrInputConflict = ''input_conflict''"
| "ErrorKind_text ErrDurableInputConflict = ''durable_input_conflict''"
| "ErrorKind_text ErrUnknownHashVersion = ''unknown_hash_version''"
| "ErrorKind_text ErrInvalidEffect = ''invalid_economic_effect''"
| "ErrorKind_text ErrShardNotReady = ''shard_not_ready''"

text \<open>The text of a typed error, and how \<open>errors.Is\<close> matches it by kind.\<close>

definition Error_text :: "EngineError \<Rightarrow> string" where
  "Error_text e =
     (if err_Detail e = '''' then ErrorKind_text (err_Kind e)
      else if err_Sequence e = 0 then ErrorKind_text (err_Kind e) @ '': '' @ err_Detail e
      else ErrorKind_text (err_Kind e) @ '' at stream sequence '' @ nat_text (unat (err_Sequence e))
        @ '': '' @ err_Detail e)"

definition Error_Is :: "EngineError \<Rightarrow> ErrorKind \<Rightarrow> bool" where
  "Error_Is e kind = (err_Kind e = kind)"

lemma CommandStatus_text_inj [simp]: "CommandStatus_text a = CommandStatus_text b \<longleftrightarrow> a = b"
  by (cases a; cases b; simp)

lemma RejectionReason_text_inj [simp]: "RejectionReason_text a = RejectionReason_text b \<longleftrightarrow> a = b"
  by (cases a; cases b; simp)

lemma ErrorKind_text_inj [simp]: "ErrorKind_text a = ErrorKind_text b \<longleftrightarrow> a = b"
  by (cases a; cases b; simp)

end
