(* ===== verification/EnginePositions.thy ===== *)
theory EnginePositions
  imports EngineRisk EngineText
begin

text \<open>
  Positions (\<open>trading_positions.go\<close>): which position a fill goes to, how it changes it, the isolated
  collateral, and the settlement of realized profit and fees. A failing call leaves the caller with
  the decision entries appended so far: \<open>applyFillsToPositions\<close> returns the decision beside its result.
\<close>

section \<open>Events\<close>

definition nextEventSequence :: "DomainEvent list \<Rightarrow> u64" where
  "nextEventSequence events = foldl (\<lambda>sequence _. sequence + 1) 1 events"

definition orderEvent :: "InputEnvelope \<Rightarrow> OrderSnapshot \<Rightarrow> u64 \<Rightarrow> DomainEvent" where
  "orderEvent input order sequence = \<lparr>
     ev_EventID = IDFromSequence (in_InputID input) sequence,
     ev_Kind = ''order.'' @ OrderStatus_text (os_Status order),
     ev_AggregateID = os_OrderID order,
     ev_AggregateVersion = os_Version order,
     ev_LogicalTime = in_LogicalTime input\<rparr>"

definition positionEvent ::
  "InputEnvelope \<Rightarrow> PositionSnapshot \<Rightarrow> PositionEffect \<Rightarrow> u64 \<Rightarrow> DomainEvent"
where
  "positionEvent input position effect sequence = \<lparr>
     ev_EventID = IDFromSequence (in_InputID input) sequence,
     ev_Kind = ''position.'' @ PositionEffect_text effect,
     ev_AggregateID = ps_PositionID position,
     ev_AggregateVersion = ps_Version position,
     ev_LogicalTime = in_LogicalTime input\<rparr>"

definition appendOrderTransition :: "Decision \<Rightarrow> InputEnvelope \<Rightarrow> OrderSnapshot \<Rightarrow> Decision" where
  "appendOrderTransition decision input snapshot = decision\<lparr>
     d_OrderChanges := d_OrderChanges decision @ [snapshot],
     d_Events := d_Events decision
       @ [orderEvent input snapshot (nextEventSequence (d_Events decision))]\<rparr>"

section \<open>Reduce-only orders\<close>

definition netPositionIndex :: "tradingState \<Rightarrow> string \<Rightarrow> string \<Rightarrow> nat option" where
  "netPositionIndex state accountID instrumentID = first_index (\<lambda>p. po_accountID p = accountID
     \<and> ir_id (po_instrument p) = instrumentID \<and> po_status p = PositionStatusOpen) (ts_positions state)"

definition reduceOnlyPositionIndex :: "tradingState \<Rightarrow> orderRecord \<Rightarrow> nat option" where
  "reduceOnlyPositionIndex state order =
     (if \<not> ID_IsZero (or_positionID order) then
        first_index (\<lambda>p. po_positionID p = or_positionID order \<and> po_accountID p = or_accountID order
          \<and> po_instrument p = or_instrument order \<and> po_status p = PositionStatusOpen) (ts_positions state)
      else if accountMode state (or_accountID order) = OmsModeHedging then None
      else netPositionIndex state (or_accountID order) (ir_id (or_instrument order)))"

text \<open>
  The order is a pointer in Go: the result is the reason (none is success) with the order as the
  call leaves it, in the failing branches too.
\<close>

definition clampReduceOnlyOrder ::
  "Extern \<Rightarrow> tradingState \<Rightarrow> orderRecord \<Rightarrow> RejectionReason \<times> orderRecord"
where
  "clampReduceOnlyOrder X state order =
     (if \<not> or_reduceOnly order then
        (if \<not> ID_IsZero (or_positionID order) then (RejectionInvalidOrder, order)
         else (RejectionNone, order))
      else case reduceOnlyPositionIndex state order of
        None \<Rightarrow> (RejectionReduceOnly, order)
      | Some i \<Rightarrow>
          let position = ts_positions state ! i in
          if (po_side position = PositionSideLong \<and> or_side order \<noteq> SideSell)
             \<or> (po_side position = PositionSideShort \<and> or_side order \<noteq> SideBuy)
          then (RejectionReduceOnly, order)
          else case Quantity_Sub X (or_quantity order) (or_filledQuantity order) of
            Inl _ \<Rightarrow> (RejectionInvalidOrder, order)
          | Inr remaining \<Rightarrow>
              if 0 < Decimal_Cmp X (q_value remaining) (q_value (po_quantity position)) then
                (case Quantity_Add X (or_filledQuantity order) (po_quantity position) of
                   Inl _ \<Rightarrow> (RejectionInvalidOrder, order\<lparr>or_quantity := zeroQuantity\<rparr>)
                 | Inr quantity \<Rightarrow> (RejectionNone,
                     order\<lparr>or_quantity := quantity, or_positionID := po_positionID position\<rparr>))
              else (RejectionNone, order\<lparr>or_positionID := po_positionID position\<rparr>))"

section \<open>Fills and positions\<close>

definition positionSide :: "Side \<Rightarrow> PositionSide" where
  "positionSide side = (if side = SideBuy then PositionSideLong else PositionSideShort)"

definition refreshPositionMargin ::
  "Extern \<Rightarrow> tradingState \<Rightarrow> positionRecord \<Rightarrow> positionRecord result"
where
  "refreshPositionMargin X state position =
     and_then (NewMoney X ''0'' (po_settlementCurrency position)) (\<lambda>zero.
     if po_status position = PositionStatusClosed \<or> po_marginMode position \<noteq> MarginModeIsolated
     then Inr (position\<lparr>po_isolatedCollateral := zero\<rparr>)
     else case find_instrumentRecord state (ir_id (po_instrument position)) of
       None \<Rightarrow> Inl []
     | Some instrument \<Rightarrow>
         and_then (PositionMargin X (po_averageOpenPrice position) (po_quantity position)
           (im_initialMarginRate instrument)
           (rk_leverage (risk_of state (po_accountID position) instrument))
           (po_settlementCurrency position)) (\<lambda>collateral.
         Inr (position\<lparr>po_isolatedCollateral := collateral\<rparr>)))"

definition applyFillToPosition ::
  "Extern \<Rightarrow> positionRecord \<Rightarrow> fillRecord \<Rightarrow> (positionRecord \<times> fillRecord) result"
where
  "applyFillToPosition X position fill =
     (let fillSide = positionSide (fi_side fill) in
      if fillSide = po_side position then
        and_then (WeightedAveragePrice X
            [\<lparr>pq_Price = po_averageOpenPrice position, pq_Quantity = po_quantity position\<rparr>,
             \<lparr>pq_Price = fi_price fill, pq_Quantity = fi_quantity fill\<rparr>]) (\<lambda>average.
        and_then (Quantity_Add X (po_quantity position) (fi_quantity fill)) (\<lambda>quantity.
        Inr (position\<lparr>po_quantity := quantity, po_averageOpenPrice := average,
               po_status := PositionStatusOpen\<rparr>,
             fill\<lparr>fi_positionEffect := PositionEffectIncrease\<rparr>)))
      else
        let comparison = Decimal_Cmp X (q_value (fi_quantity fill)) (q_value (po_quantity position));
            closingQuantity = (if 0 < comparison then po_quantity position else fi_quantity fill)
        in and_then (RealizedPnL X (po_averageOpenPrice position) (fi_price fill) closingQuantity
             (po_side position = PositionSideLong) (po_settlementCurrency position)) (\<lambda>realized.
           and_then (Money_Add X (po_realizedPnL position) realized) (\<lambda>totalRealized.
           let position = position\<lparr>po_realizedPnL := totalRealized\<rparr>;
               fill = fill\<lparr>fi_realizedPnL := realized, fi_hasRealizedPnL := True\<rparr>
           in if comparison = -1 then
                and_then (Quantity_Sub X (po_quantity position) (fi_quantity fill)) (\<lambda>quantity.
                Inr (position\<lparr>po_quantity := quantity\<rparr>,
                     fill\<lparr>fi_positionEffect := PositionEffectReduce\<rparr>))
              else if comparison = 0 then
                and_then (Quantity_Sub X (po_quantity position) (fi_quantity fill)) (\<lambda>quantity.
                Inr (position\<lparr>po_quantity := quantity, po_status := PositionStatusClosed\<rparr>,
                     fill\<lparr>fi_positionEffect := PositionEffectClose\<rparr>))
              else if comparison = 1 then
                and_then (Quantity_Sub X (fi_quantity fill) (po_quantity position)) (\<lambda>quantity.
                Inr (position\<lparr>po_quantity := quantity, po_side := fillSide,
                       po_averageOpenPrice := fi_price fill, po_status := PositionStatusOpen\<rparr>,
                     fill\<lparr>fi_positionEffect := PositionEffectFlip\<rparr>))
              else Inr (position, fill))))"

text \<open>The position a fill goes to, and whether it was created for it.\<close>

definition positionForFill ::
  "Extern \<Rightarrow> tradingState \<Rightarrow> orderRecord \<Rightarrow> fillRecord \<Rightarrow> (tradingState \<times> nat \<times> bool) result"
where
  "positionForFill X state order fill =
     (if or_reduceOnly order then
        (case first_index (\<lambda>p. po_positionID p = or_positionID order
             \<and> po_status p = PositionStatusOpen) (ts_positions state) of
           Some i \<Rightarrow> Inr (state, i, False)
         | None \<Rightarrow> Inl [])
      else
        let mode = accountMode state (or_accountID order);
            existing = (if mode = OmsModeNetting
                then netPositionIndex state (or_accountID order) (ir_id (or_instrument order))
              else if mode = OmsModeHedging
                then first_index (\<lambda>p. po_positionID p = IDFromSequence (or_orderID order) 0)
                  (ts_positions state)
              else None)
        in case existing of
          Some i \<Rightarrow> Inr (state, i, False)
        | None \<Rightarrow>
            (case find_instrumentRecord state (ir_id (or_instrument order)) of
               None \<Rightarrow> Inl []
             | Some instrument \<Rightarrow>
                 and_then (NewMoney X ''0'' (im_settlementCurrency instrument)) (\<lambda>zeroRealized.
                 and_then (NewMoney X ''0'' (im_settlementCurrency instrument)) (\<lambda>zeroCollateral.
                 let risk = risk_of state (or_accountID order) instrument;
                     marginMode = (if mode = OmsModeHedging \<and> rk_marginMode risk = MarginModeIsolated
                       then MarginModeCross else rk_marginMode risk);
                     position = \<lparr>
                       po_positionID = IDFromSequence (or_orderID order) 0,
                       po_accountID = or_accountID order,
                       po_instrument = or_instrument order,
                       po_settlementCurrency = im_settlementCurrency instrument,
                       po_side = positionSide (fi_side fill),
                       po_status = PositionStatusOpen,
                       po_quantity = fi_quantity fill,
                       po_averageOpenPrice = fi_price fill,
                       po_realizedPnL = zeroRealized,
                       po_marginMode = marginMode,
                       po_isolatedCollateral = zeroCollateral,
                       po_version = 0\<rparr>
                 in Inr (state\<lparr>ts_positions := ts_positions state @ [position]\<rparr>,
                      length (ts_positions state), True)))))"

text \<open>The settlement of one fill on the account balance; the flag says whether it moved.\<close>

definition settle_fill ::
  "Extern \<Rightarrow> tradingState \<Rightarrow> string \<Rightarrow> fillRecord \<Rightarrow> (tradingState \<times> bool) result"
where
  "settle_fill X state accountID fill =
     and_then (if fi_hasRealizedPnL fill
         then and_then (applyBalanceDelta X state accountID (fi_realizedPnL fill)) (\<lambda>s.
              Inr (s, Decimal_Sign X (m_amount (fi_realizedPnL fill)) \<noteq> 0))
         else Inr (state, False)) (\<lambda>(state, balanceChanged).
     if fi_hasFee fill \<and> Decimal_Sign X (m_amount (fi_fee fill)) \<noteq> 0
     then and_then (applyBalanceDebit X state accountID (fi_fee fill)) (\<lambda>s. Inr (s, True))
     else Inr (state, balanceChanged))"

text \<open>One iteration of the loop over the new fills; an error precedes every append to the decision.\<close>

definition apply_fill ::
  "Extern \<Rightarrow> orderRecord \<Rightarrow> InputEnvelope \<Rightarrow> nat \<Rightarrow> tradingState \<Rightarrow> Decision
     \<Rightarrow> (tradingState \<times> Decision) result"
where
  "apply_fill X order input fillIndex state decision =
     and_then (positionForFill X state order (ts_fills state ! fillIndex)) (\<lambda>(state, i, created).
     and_then (if created
         then Inr (ts_positions state ! i,
                   (ts_fills state ! fillIndex)\<lparr>fi_positionEffect := PositionEffectOpen\<rparr>)
         else applyFillToPosition X (ts_positions state ! i) (ts_fills state ! fillIndex))
       (\<lambda>(position, fill).
     let fill = fill\<lparr>fi_positionID := po_positionID position\<rparr>;
         state = state\<lparr>ts_fills := (ts_fills state)[fillIndex := fill],
                       ts_positions := (ts_positions state)[i := position]\<rparr>
     in and_then (refreshPositionMargin X state position) (\<lambda>position.
        let position = position\<lparr>po_version := po_version position + 1\<rparr>;
            state = state\<lparr>ts_positions := (ts_positions state)[i := position]\<rparr>
        in and_then (settle_fill X state (po_accountID position) fill) (\<lambda>(state, balanceChanged).
           and_then (if balanceChanged
               then (case balanceSnapshot X state (po_accountID position)
                         (po_settlementCurrency position) of
                       None \<Rightarrow> Inl []
                     | Some balance \<Rightarrow> Inr (d_BalanceChanges decision @ [balance]))
               else Inr (d_BalanceChanges decision)) (\<lambda>balanceChanges.
           let snapshot = position_snapshot X position
           in Inr (state, decision\<lparr>
                d_BalanceChanges := balanceChanges,
                d_PositionChanges := d_PositionChanges decision @ [snapshot],
                d_Events := d_Events decision @ [positionEvent input snapshot (fi_positionEffect fill)
                   (nextEventSequence (d_Events decision))]\<rparr>))))))"

fun apply_fills ::
  "Extern \<Rightarrow> orderRecord \<Rightarrow> InputEnvelope \<Rightarrow> nat list \<Rightarrow> tradingState \<Rightarrow> Decision
     \<Rightarrow> tradingState result \<times> Decision"
where
  "apply_fills X order input [] state decision = (Inr state, decision)"
| "apply_fills X order input (i # is) state decision =
     (case apply_fill X order input i state decision of
        Inl e \<Rightarrow> (Inl e, decision)
      | Inr (state', decision') \<Rightarrow> apply_fills X order input is state' decision')"

definition applyFillsToPositions ::
  "Extern \<Rightarrow> tradingState \<Rightarrow> orderRecord \<Rightarrow> nat \<Rightarrow> InputEnvelope \<Rightarrow> Decision
     \<Rightarrow> tradingState result \<times> Decision"
where
  "applyFillsToPositions X state order firstFillIndex input decision =
     apply_fills X order input [firstFillIndex ..< length (ts_fills state)] state decision"

end
