(* ===== verification/EngineBrackets.thy ===== *)
theory EngineBrackets
  imports EnginePositions
begin

text \<open>
  Bracket protection (\<open>trading_brackets.go\<close>): a bracket is an entry order with held take-profit and
  stop-loss orders that become working once the entry has a position, follow its size, and cancel
  each other. Every loop over the order slice is a fold over its indices that threads the state and
  the decision. Placing a bracket is in \<open>EngineApply\<close>.
\<close>

definition set_order :: "tradingState \<Rightarrow> nat \<Rightarrow> orderRecord \<Rightarrow> tradingState" where
  "set_order state i order = state\<lparr>ts_orders := (ts_orders state)[i := order]\<rparr>"

definition containsID :: "ID list \<Rightarrow> ID \<Rightarrow> bool" where
  "containsID ids candidate = list_ex (\<lambda>i. i = candidate) ids"

definition oppositeSide :: "Side \<Rightarrow> Side" where
  "oppositeSide side = (if side = SideBuy then SideSell else SideBuy)"

definition replaceDecisionOrderChange :: "Decision \<Rightarrow> OrderSnapshot \<Rightarrow> Decision" where
  "replaceDecisionOrderChange decision snapshot =
     (case first_index (\<lambda>c. os_OrderID c = os_OrderID snapshot) (d_OrderChanges decision) of
        Some i \<Rightarrow> decision\<lparr>d_OrderChanges := (d_OrderChanges decision)[i := snapshot]\<rparr>
      | None \<Rightarrow> decision)"

definition decisionHasOrderChange :: "Decision \<Rightarrow> ID \<Rightarrow> bool" where
  "decisionHasOrderChange decision orderID =
     list_ex (\<lambda>c. os_OrderID c = orderID) (d_OrderChanges decision)"

definition latestOrderPositionID :: "tradingState \<Rightarrow> ID \<Rightarrow> ID option" where
  "latestOrderPositionID state orderID = map_option fi_positionID
     (find (\<lambda>f. fi_orderID f = orderID \<and> \<not> ID_IsZero (fi_positionID f)) (rev (ts_fills state)))"

definition protectiveSideMatchesPosition :: "Side \<Rightarrow> PositionSide \<Rightarrow> bool" where
  "protectiveSideMatchesPosition orderSide side =
     ((side = PositionSideLong \<and> orderSide = SideSell) \<or> (side = PositionSideShort \<and> orderSide = SideBuy))"

text \<open>The end of an order: cancelled, one version later, and recorded in the decision.\<close>

definition cancelled :: "orderRecord \<Rightarrow> orderRecord" where
  "cancelled order = order\<lparr>or_status := OrderStatusCancelled, or_version := or_version order + 1\<rparr>"

definition cancel_at ::
  "Extern \<Rightarrow> InputEnvelope \<Rightarrow> nat \<Rightarrow> orderRecord \<Rightarrow> tradingState \<times> Decision \<Rightarrow> tradingState \<times> Decision"
where
  "cancel_at X input i order = (\<lambda>(state, decision).
     (set_order state i (cancelled order),
      appendOrderTransition decision input (order_snapshot X (cancelled order))))"

text \<open>An order resized in place: a new version is recorded only when its quantity changed.\<close>

definition resize_at ::
  "Extern \<Rightarrow> InputEnvelope \<Rightarrow> nat \<Rightarrow> string \<Rightarrow> orderRecord \<Rightarrow> tradingState \<times> Decision
     \<Rightarrow> tradingState \<times> Decision"
where
  "resize_at X input i beforeQuantity order = (\<lambda>(state, decision).
     if Decimal_String X (q_value (or_quantity order)) \<noteq> beforeQuantity
     then let order = order\<lparr>or_version := or_version order + 1\<rparr>
          in (set_order state i order, appendOrderTransition decision input (order_snapshot X order))
     else (set_order state i order, decision))"

section \<open>Cancelling and arming the protection of a bracket\<close>

definition protective_of :: "ID \<Rightarrow> orderRecord \<Rightarrow> bool" where
  "protective_of bracketID order = (or_bracketID order = bracketID
     \<and> or_bracketLeg order \<noteq> BracketLegEntry \<and> active_status (or_status order))"

definition cancel_protection_step ::
  "Extern \<Rightarrow> ID \<Rightarrow> InputEnvelope \<Rightarrow> tradingState \<times> Decision \<Rightarrow> nat \<Rightarrow> tradingState \<times> Decision"
where
  "cancel_protection_step X bracketID input sd i =
     (let order = ts_orders (fst sd) ! i in
      if \<not> protective_of bracketID order then sd else cancel_at X input i order sd)"

definition cancelBracketProtection ::
  "Extern \<Rightarrow> tradingState \<Rightarrow> ID \<Rightarrow> InputEnvelope \<Rightarrow> Decision \<Rightarrow> tradingState \<times> Decision"
where
  "cancelBracketProtection X state bracketID input decision =
     foldl (cancel_protection_step X bracketID input) (state, decision) [0 ..< length (ts_orders state)]"

definition resizeProtectionToPosition ::
  "Extern \<Rightarrow> tradingState \<Rightarrow> orderRecord \<Rightarrow> bool \<times> orderRecord"
where
  "resizeProtectionToPosition X state order =
     (case reduceOnlyPositionIndex state order of
        None \<Rightarrow> (False, order)
      | Some i \<Rightarrow>
          let position = ts_positions state ! i in
          case Quantity_Sub X (or_originalQuantity order) (or_filledQuantity order) of
            Inl _ \<Rightarrow> (False, order)
          | Inr unfilledCap \<Rightarrow>
              let desiredRemaining = (if 0 < Decimal_Cmp X (q_value unfilledCap)
                    (q_value (po_quantity position)) then po_quantity position else unfilledCap)
              in case Quantity_Add X (or_filledQuantity order) desiredRemaining of
                   Inl _ \<Rightarrow> (False, order\<lparr>or_quantity := zeroQuantity\<rparr>)
                 | Inr quantity \<Rightarrow> (True, order\<lparr>or_quantity := quantity\<rparr>))"

definition arm_step ::
  "Extern \<Rightarrow> ID \<Rightarrow> ID \<Rightarrow> InputEnvelope \<Rightarrow> tradingState \<times> Decision \<Rightarrow> nat \<Rightarrow> tradingState \<times> Decision"
where
  "arm_step X bracketID positionID input sd i =
     (let (state, decision) = sd;
          order = ts_orders state ! i
      in if \<not> protective_of bracketID order then (state, decision)
         else let beforeStatus = or_status order;
                  beforeQuantity = Decimal_String X (q_value (or_quantity order));
                  (resized, order) = resizeProtectionToPosition X state
                    (order\<lparr>or_positionID := positionID\<rparr>)
              in if \<not> resized then (set_order state i order, decision)
                 else let order = (if or_status order = OrderStatusHeld
                            then order\<lparr>or_status := OrderStatusWorking\<rparr> else order)
                      in if or_status order \<noteq> beforeStatus
                            \<or> Decimal_String X (q_value (or_quantity order)) \<noteq> beforeQuantity
                         then let order = order\<lparr>or_version := or_version order + 1\<rparr>
                              in (set_order state i order,
                                  appendOrderTransition decision input (order_snapshot X order))
                         else (set_order state i order, decision))"

definition armBracketProtection ::
  "Extern \<Rightarrow> tradingState \<Rightarrow> ID \<Rightarrow> ID \<Rightarrow> InputEnvelope \<Rightarrow> Decision \<Rightarrow> tradingState \<times> Decision"
where
  "armBracketProtection X state bracketID positionID input decision =
     foldl (arm_step X bracketID positionID input) (state, decision) [0 ..< length (ts_orders state)]"

fun appendBracketCreationChanges ::
  "Extern \<Rightarrow> orderRecord list \<Rightarrow> ID \<Rightarrow> InputEnvelope \<Rightarrow> Decision \<Rightarrow> Decision"
where
  "appendBracketCreationChanges X [] bracketID input decision = decision"
| "appendBracketCreationChanges X (order # orders) bracketID input decision =
     (if or_bracketID order \<noteq> bracketID \<or> or_bracketLeg order = BracketLegEntry
         \<or> decisionHasOrderChange decision (or_orderID order)
      then appendBracketCreationChanges X orders bracketID input decision
      else appendBracketCreationChanges X orders bracketID input
        (appendOrderTransition decision input (order_snapshot X order)))"

section \<open>Reconciliation after an execution\<close>

definition sibling_step ::
  "Extern \<Rightarrow> orderRecord \<Rightarrow> bool \<Rightarrow> InputEnvelope \<Rightarrow> tradingState \<times> Decision \<Rightarrow> nat
     \<Rightarrow> tradingState \<times> Decision"
where
  "sibling_step X order positionOpen input sd i =
     (let sibling = ts_orders (fst sd) ! i in
      if or_orderID sibling = or_orderID order \<or> \<not> protective_of (or_bracketID order) sibling then sd
      else if \<not> positionOpen then cancel_at X input i sibling sd
      else let beforeQuantity = Decimal_String X (q_value (or_quantity sibling));
               (reason, sibling) = clampReduceOnlyOrder X (fst sd) sibling
           in if reason \<noteq> RejectionNone then cancel_at X input i sibling sd
              else resize_at X input i beforeQuantity sibling sd)"

definition reconcileBracketAfterExecution ::
  "Extern \<Rightarrow> tradingState \<Rightarrow> nat \<Rightarrow> InputEnvelope \<Rightarrow> Decision \<Rightarrow> tradingState \<times> Decision"
where
  "reconcileBracketAfterExecution X state oi input decision =
     (let order = ts_orders state ! oi in
      if ID_IsZero (or_bracketID order) then (state, decision)
      else if or_bracketLeg order = BracketLegEntry then
        (case latestOrderPositionID state (or_orderID order) of
           Some positionID \<Rightarrow>
             armBracketProtection X state (or_bracketID order) positionID input decision
         | None \<Rightarrow> (state, decision))
      else if or_bracketLeg order \<noteq> BracketLegTakeProfit \<and> or_bracketLeg order \<noteq> BracketLegStopLoss
      then (state, decision)
      else foldl (sibling_step X order (reduceOnlyPositionIndex state order \<noteq> None) input)
        (state, decision) [0 ..< length (ts_orders state)])"

definition protection_step ::
  "Extern \<Rightarrow> InputEnvelope \<Rightarrow> tradingState \<times> Decision \<Rightarrow> nat \<Rightarrow> tradingState \<times> Decision"
where
  "protection_step X input sd i =
     (let order = ts_orders (fst sd) ! i in
      if or_bracketLeg order = BracketLegEntry \<or> ID_IsZero (or_bracketID order)
         \<or> ID_IsZero (or_positionID order) \<or> \<not> resting_status (or_status order) then sd
      else let matched = (case reduceOnlyPositionIndex (fst sd) order of
               None \<Rightarrow> False
             | Some p \<Rightarrow> protectiveSideMatchesPosition (or_side order) (po_side (ts_positions (fst sd) ! p)))
      in if \<not> matched then cancel_at X input i order sd
         else let beforeQuantity = Decimal_String X (q_value (or_quantity order));
                  (reason, order) = clampReduceOnlyOrder X (fst sd) order
              in if reason \<noteq> RejectionNone then cancel_at X input i order sd
                 else resize_at X input i beforeQuantity order sd)"

definition reconcilePositionProtection ::
  "Extern \<Rightarrow> tradingState \<Rightarrow> InputEnvelope \<Rightarrow> Decision \<Rightarrow> tradingState \<times> Decision"
where
  "reconcilePositionProtection X state input decision =
     foldl (protection_step X input) (state, decision) [0 ..< length (ts_orders state)]"

end
