(* ===== verification/EngineExecute.thy ===== *)
theory EngineExecute
  imports EngineBrackets
begin

text \<open>
  Execution of one order on the shard state (\<open>executeOrder\<close> of \<open>trading_matching.go\<close>), the triggers of
  stop and take-profit orders and the sweep over the resting orders after a book update
  (\<open>trading_apply.go\<close>). \<open>executeOrder\<close> works on a candidate copy and returns a reason, the state and
  the decision: the state is the candidate only where the code commits it, while the decision keeps
  what a failing call had appended.
\<close>

section \<open>Triggers\<close>

definition stopTriggered :: "Extern \<Rightarrow> bookRecord \<Rightarrow> orderRecord \<Rightarrow> bool" where
  "stopTriggered X book order = (case or_side order of
     SideBuy \<Rightarrow> bo_asks book \<noteq> []
       \<and> 0 \<le> Decimal_Cmp X (p_value (lv_price (hd (bo_asks book)))) (p_value (or_triggerPrice order))
   | SideSell \<Rightarrow> bo_bids book \<noteq> []
       \<and> Decimal_Cmp X (p_value (lv_price (hd (bo_bids book)))) (p_value (or_triggerPrice order)) \<le> 0
   | SideOther _ \<Rightarrow> False)"

definition takeProfitTriggered :: "Extern \<Rightarrow> bookRecord \<Rightarrow> orderRecord \<Rightarrow> bool" where
  "takeProfitTriggered X book order = (case or_side order of
     SideBuy \<Rightarrow> bo_asks book \<noteq> []
       \<and> Decimal_Cmp X (p_value (lv_price (hd (bo_asks book)))) (p_value (or_triggerPrice order)) \<le> 0
   | SideSell \<Rightarrow> bo_bids book \<noteq> []
       \<and> 0 \<le> Decimal_Cmp X (p_value (lv_price (hd (bo_bids book)))) (p_value (or_triggerPrice order))
   | SideOther _ \<Rightarrow> False)"

definition orderReadyToMatch :: "Extern \<Rightarrow> tradingState \<Rightarrow> orderRecord \<Rightarrow> bool" where
  "orderReadyToMatch X state order =
     (case find_book state (ir_id (or_instrument order)) of
        None \<Rightarrow> False
      | Some book \<Rightarrow>
          (case or_orderType order of
             OrderTypeMarket \<Rightarrow> True
           | OrderTypeLimit \<Rightarrow> True
           | OrderTypeStopMarket \<Rightarrow> or_triggered order \<or> stopTriggered X book order
           | OrderTypeStopLimit \<Rightarrow> or_triggered order \<or> stopTriggered X book order
           | OrderTypeTakeProfitMarket \<Rightarrow> or_triggered order \<or> takeProfitTriggered X book order
           | OrderTypeTakeProfitLimit \<Rightarrow> or_triggered order \<or> takeProfitTriggered X book order
           | OrderTypeOther _ \<Rightarrow> False))"

definition trigger_type :: "OrderType \<Rightarrow> bool" where
  "trigger_type t = (t = OrderTypeStopMarket \<or> t = OrderTypeStopLimit
     \<or> t = OrderTypeTakeProfitMarket \<or> t = OrderTypeTakeProfitLimit)"

text \<open>\<open>(ready, triggeredNow)\<close> and the state with the order marked as triggered.\<close>

definition activateOrderIfReady ::
  "Extern \<Rightarrow> tradingState \<Rightarrow> nat \<Rightarrow> InputEnvelope \<Rightarrow> bool \<times> bool \<times> tradingState"
where
  "activateOrderIfReady X state oi input =
     (let order = ts_orders state ! oi in
      if or_triggered order then (True, False, state)
      else if \<not> orderReadyToMatch X state order then (False, False, state)
      else if trigger_type (or_orderType order) then
        (True, True, set_order state oi (order\<lparr>or_triggered := True,
           or_triggeredAt := in_LogicalTime input, or_version := or_version order + 1\<rparr>))
      else if or_orderType order = OrderTypeMarket \<or> or_orderType order = OrderTypeLimit
      then (True, False, state)
      else (False, False, state))"

section \<open>Execution\<close>

definition requires_full_fill :: "orderRecord \<Rightarrow> bool" where
  "requires_full_fill order = ((marketUsesDeepestFallback order \<and> or_timeInForce order \<noteq> TimeInForceIOC)
     \<or> or_timeInForce order = TimeInForceFOK)"

text \<open>The status after matching.\<close>

definition executed_status :: "Extern \<Rightarrow> orderRecord \<Rightarrow> OrderStatus" where
  "executed_status X order =
     (if Decimal_Equal X (q_value (or_filledQuantity order)) (q_value (or_quantity order))
      then OrderStatusFilled
      else if or_timeInForce order = TimeInForceIOC then OrderStatusCancelled
      else if 0 < Decimal_Sign X (q_value (or_filledQuantity order)) then OrderStatusPartiallyFilled
      else OrderStatusWorking)"

text \<open>
  Matching with its consequences for fills and positions: the candidate with the order updated, or
  nothing when the code rejects the order; the decision in either case.
\<close>

definition match_candidate ::
  "Extern \<Rightarrow> tradingState \<Rightarrow> InputEnvelope \<Rightarrow> nat \<Rightarrow> bookRecord \<Rightarrow> Decision
     \<Rightarrow> tradingState option \<times> Decision"
where
  "match_candidate X candidate input oi book decision =
     (let start = length (ts_fills candidate);
          pricingBook = \<lparr>bo_instrumentID = bo_instrumentID book, bo_markPrice = zeroPrice,
            bo_hasMark = False, bo_bids = bo_bids book, bo_asks = bo_asks book\<rparr>
      in case matchOrder X pricingBook (ts_orders candidate ! oi) input (ts_fills candidate) of
        None \<Rightarrow> (None, decision)
      | Some (_, order, fills) \<Rightarrow>
          let candidate = set_order (candidate\<lparr>ts_fills := fills\<rparr>) oi order in
          if length fills \<le> start then (Some candidate, decision)
          else case applyTradingFees X candidate order start of
            Inl _ \<Rightarrow> (None, decision)
          | Inr candidate \<Rightarrow>
              (case averageOrderFillPrice X (ts_fills candidate) (or_orderID order) of
                 Inl _ \<Rightarrow> (None, decision)
               | Inr average \<Rightarrow>
                   let order = order\<lparr>or_averagePrice := average, or_hasAverage := True\<rparr>;
                       candidate = set_order candidate oi order
                   in case applyFillsToPositions X candidate order start input decision of
                        (Inl _, decision) \<Rightarrow> (None, decision)
                      | (Inr candidate, decision) \<Rightarrow> (Some candidate, decision)))"

text \<open>The rest of the function once the candidate has been matched.\<close>

definition finish_execution ::
  "Extern \<Rightarrow> tradingState \<Rightarrow> InputEnvelope \<Rightarrow> nat \<Rightarrow> orderRecord \<Rightarrow> nat \<Rightarrow> Decision
     \<Rightarrow> tradingState \<times> Decision"
where
  "finish_execution X candidate input oi beforeExecution start decision =
     (let order = ts_orders candidate ! oi;
          hasNewFills = (start < length (ts_fills candidate));
          order = order\<lparr>or_status := executed_status X order\<rparr>;
          order = (if orderExecutionChanged X beforeExecution order hasNewFills
                   then order\<lparr>or_version := or_version order + 1\<rparr> else order);
          candidate = set_order candidate oi order;
          (candidate, decision) = reconcileBracketAfterExecution X candidate oi input decision;
          (candidate, decision) = reconcilePositionProtection X candidate input decision
      in (candidate, decision\<lparr>d_Fills := d_Fills decision
            @ map (fill_snapshot X) (drop start (ts_fills candidate))\<rparr>))"

definition executeOrder ::
  "Extern \<Rightarrow> tradingState \<Rightarrow> InputEnvelope \<Rightarrow> nat \<Rightarrow> Decision
     \<Rightarrow> RejectionReason \<times> tradingState \<times> Decision"
where
  "executeOrder X state input oi decision =
     (let beforeExecution = ts_orders state ! oi;
          (clamped, order) = (if or_reduceOnly beforeExecution
            then clampReduceOnlyOrder X state beforeExecution else (RejectionNone, beforeExecution));
          candidate = set_order state oi order
      in if clamped \<noteq> RejectionNone
         then (RejectionNone, set_order candidate oi (cancelled order), decision)
         else case find_book candidate (ir_id (or_instrument order)) of
           None \<Rightarrow> (if or_orderType order = OrderTypeMarket then RejectionInsufficientMarket
                    else RejectionNone, state, decision)
         | Some book \<Rightarrow>
             let fillability = (if requires_full_fill order then bookFillability X book order
                                else RejectionNone)
             in if fillability \<noteq> RejectionNone then
                  (if or_timeInForce order = TimeInForceFOK
                   then (RejectionNone, set_order candidate oi (cancelled order), decision)
                   else (fillability, state, decision))
                else case match_candidate X candidate input oi book decision of
                  (None, decision) \<Rightarrow> (RejectionInvalidOrder, state, decision)
                | (Some matched, decision) \<Rightarrow>
                    let (final, decision) = finish_execution X matched input oi
                          beforeExecution (length (ts_fills state)) decision
                    in (RejectionNone, final, decision))"

section \<open>The sweep over the resting orders\<close>

definition rejected_order :: "RejectionReason \<Rightarrow> orderRecord \<Rightarrow> orderRecord" where
  "rejected_order reason order = order\<lparr>or_status := OrderStatusRejected,
     or_rejectReason := reason, or_version := or_version order + 1\<rparr>"

definition match_working_step ::
  "Extern \<Rightarrow> InputEnvelope \<Rightarrow> string \<Rightarrow> tradingState \<times> Decision \<Rightarrow> nat \<Rightarrow> tradingState \<times> Decision"
where
  "match_working_step X input instrumentID sd index =
     (let (state, decision) = sd;
          order = ts_orders state ! index
      in if ir_id (or_instrument order) \<noteq> instrumentID \<or> \<not> resting_status (or_status order)
         then (state, decision)
         else let (ready, triggeredNow, state) = activateOrderIfReady X state index input
              in if \<not> ready then (state, decision)
                 else let beforeFills = length (d_Fills decision);
                          (reason, state, decision) = executeOrder X state input index decision
                      in if reason \<noteq> RejectionNone then
                           (if reason = RejectionSlippageExceeded then
                              let order = rejected_order reason (ts_orders state ! index)
                              in (set_order state index order,
                                  appendOrderTransition decision input (order_snapshot X order))
                            else (state, decision))
                         else if triggeredNow \<or> beforeFills < length (d_Fills decision)
                            \<or> or_status (ts_orders state ! index) = OrderStatusCancelled
                         then (state, appendOrderTransition decision input
                                 (order_snapshot X (ts_orders state ! index)))
                         else (state, decision))"

definition matchWorkingOrders ::
  "Extern \<Rightarrow> tradingState \<Rightarrow> InputEnvelope \<Rightarrow> string \<Rightarrow> Decision \<Rightarrow> tradingState \<times> Decision"
where
  "matchWorkingOrders X state input instrumentID decision =
     foldl (match_working_step X input instrumentID) (state, decision) [0 ..< length (ts_orders state)]"

end
