(* ===== verification/EngineApply.thy ===== *)
theory EngineApply
  imports EngineExecute
begin

text \<open>
  The action handlers (\<open>trading_apply.go\<close>, \<open>trading_risk.go\<close>, \<open>trading_brackets.go\<close>): each takes the shard
  state and returns the next state with a decision that accepts or rejects the action. The dispatch
  checks that exactly the member named by the kind is present.
\<close>

section \<open>Decisions\<close>

definition acceptedDecision :: Decision where
  "acceptedDecision = zeroDecision\<lparr>d_CommandResult :=
     \<lparr>cmd_Status = CommandStatusAccepted, cmd_Reason = RejectionNone\<rparr>\<rparr>"

definition acceptedTradingDecision :: "State \<Rightarrow> State \<times> Decision" where
  "acceptedTradingDecision state = (state, acceptedDecision)"

definition rejectedDecision :: "RejectionReason \<Rightarrow> Decision" where
  "rejectedDecision reason = zeroDecision\<lparr>d_CommandResult :=
     \<lparr>cmd_Status = CommandStatusRejected, cmd_Reason = reason\<rparr>\<rparr>"

definition rejectedTradingDecision :: "State \<Rightarrow> RejectionReason \<Rightarrow> State \<times> Decision" where
  "rejectedTradingDecision state reason = (state, rejectedDecision reason)"

definition with_trading :: "State \<Rightarrow> tradingState \<Rightarrow> State" where
  "with_trading state trading = state\<lparr>st_trading := trading\<rparr>"

section \<open>Authority and shape of an action\<close>

definition TradingActionAllowedForInputKind :: "InputKind \<Rightarrow> TradingActionKind \<Rightarrow> bool" where
  "TradingActionAllowedForInputKind inputKind actionKind = (case inputKind of
     InputKindCommand \<Rightarrow> (case actionKind of
         TradingActionConfigureInstrument \<Rightarrow> True
       | TradingActionConfigureAccount \<Rightarrow> True
       | TradingActionConfigureRisk \<Rightarrow> True
       | TradingActionAdjustBalance \<Rightarrow> True
       | TradingActionSubmitOrder \<Rightarrow> True
       | TradingActionPlaceBracket \<Rightarrow> True
       | TradingActionAmendOrder \<Rightarrow> True
       | TradingActionCancelOrder \<Rightarrow> True
       | _ \<Rightarrow> False)
   | InputKindMarket \<Rightarrow> actionKind = TradingActionUpdateBook
   | InputKindTimer \<Rightarrow> actionKind = TradingActionSettleFunding
       \<or> actionKind = TradingActionLiquidateAccount
   | InputKindConfiguration \<Rightarrow> actionKind = TradingActionConfigureInstrument
       \<or> actionKind = TradingActionConfigureAccount \<or> actionKind = TradingActionConfigureRisk
   | InputKindControl \<Rightarrow> actionKind = TradingActionLiquidateAccount
   | InputKindOther _ \<Rightarrow> False)"

definition members_present :: "TradingAction \<Rightarrow> bool list" where
  "members_present a = [act_ConfigureInstrument a \<noteq> None, act_ConfigureAccount a \<noteq> None,
     act_ConfigureRisk a \<noteq> None, act_AdjustBalance a \<noteq> None, act_SettleFunding a \<noteq> None,
     act_LiquidateAccount a \<noteq> None, act_UpdateBook a \<noteq> None, act_SubmitOrder a \<noteq> None,
     act_PlaceBracket a \<noteq> None, act_AmendOrder a \<noteq> None, act_CancelOrder a \<noteq> None]"

definition validTradingActionUnion :: "TradingAction \<Rightarrow> bool" where
  "validTradingActionUnion a =
     (if length (filter id (members_present a)) \<noteq> 1 then False
      else case act_Kind a of
        TradingActionConfigureInstrument \<Rightarrow> act_ConfigureInstrument a \<noteq> None
      | TradingActionConfigureAccount \<Rightarrow> act_ConfigureAccount a \<noteq> None
      | TradingActionConfigureRisk \<Rightarrow> act_ConfigureRisk a \<noteq> None
      | TradingActionAdjustBalance \<Rightarrow> act_AdjustBalance a \<noteq> None
      | TradingActionSettleFunding \<Rightarrow> act_SettleFunding a \<noteq> None
      | TradingActionLiquidateAccount \<Rightarrow> act_LiquidateAccount a \<noteq> None
      | TradingActionUpdateBook \<Rightarrow> act_UpdateBook a \<noteq> None
      | TradingActionSubmitOrder \<Rightarrow> act_SubmitOrder a \<noteq> None
      | TradingActionPlaceBracket \<Rightarrow> act_PlaceBracket a \<noteq> None
      | TradingActionAmendOrder \<Rightarrow> act_AmendOrder a \<noteq> None
      | TradingActionCancelOrder \<Rightarrow> act_CancelOrder a \<noteq> None
      | TradingActionKindOther _ \<Rightarrow> False)"

section \<open>Configuration\<close>

definition validConfiguredFeeRate :: "Extern \<Rightarrow> Rate \<Rightarrow> bool" where
  "validConfiguredFeeRate X rate =
     (case NewRate X ''1'' of
        Inl _ \<Rightarrow> False
      | Inr one \<Rightarrow>
          (case NewRate X ''-1'' of
             Inl _ \<Rightarrow> False
           | Inr negativeOne \<Rightarrow> Decimal_Cmp X (rate_value rate) (rate_value one) \<le> 0
               \<and> 0 \<le> Decimal_Cmp X (rate_value rate) (rate_value negativeOne)))"

text \<open>The validated record of a configuration, \<open>None\<close> where the code rejects it as invalid.\<close>

definition configured_instrument ::
  "Extern \<Rightarrow> tradingState \<Rightarrow> ConfigureInstrument \<Rightarrow> instrumentRecord option"
where
  "configured_instrument X trading configure =
     (case and_then (NewInstrumentRevision (ci_InstrumentID configure) (ci_Revision configure)
               (ci_PriceScale configure) (ci_QuantityScale configure)) (\<lambda>revision.
           and_then (NewCurrency (ci_SettlementCurrency configure)
               (ci_SettlementCurrencyScale configure)) (\<lambda>currency.
           if currencyScale trading (cur_code currency) \<notin> {None, Some currency} then Inl [] else
           and_then (NewRate X (ci_InitialMarginRate configure)) (\<lambda>initialMarginRate.
           if Decimal_Sign X (rate_value initialMarginRate) < 0 then Inl [] else
           and_then (NewRate X (ci_MaintenanceMarginRate configure)) (\<lambda>maintenanceMarginRate.
           if Decimal_Sign X (rate_value maintenanceMarginRate) < 0 then Inl [] else
           and_then (NewRatio X (ci_MaxLeverage configure)) (\<lambda>maxLeverage.
           if Decimal_Sign X (ratio_value maxLeverage) \<le> 0 then Inl [] else
           and_then (NewRate X (ci_MakerFeeRate configure)) (\<lambda>makerFeeRate.
           if \<not> validConfiguredFeeRate X makerFeeRate then Inl [] else
           and_then (NewRate X (ci_TakerFeeRate configure)) (\<lambda>takerFeeRate.
           if \<not> validConfiguredFeeRate X takerFeeRate then Inl [] else
           Inr \<lparr>im_revision = revision, im_settlementCurrency = currency,
             im_initialMarginRate = initialMarginRate,
             im_maintenanceMarginRate = maintenanceMarginRate, im_maxLeverage = maxLeverage,
             im_makerFeeRate = makerFeeRate, im_takerFeeRate = takerFeeRate\<rparr>))))))) of
        Inl _ \<Rightarrow> None
      | Inr r \<Rightarrow> Some r)"

definition instrument_snapshot :: "Extern \<Rightarrow> instrumentRecord \<Rightarrow> InstrumentSnapshot" where
  "instrument_snapshot X r = \<lparr>
     is_InstrumentID = ir_id (im_revision r),
     is_Revision = ir_revision (im_revision r),
     is_PriceScale = ir_priceScale (im_revision r),
     is_QuantityScale = ir_quantityScale (im_revision r),
     is_SettlementCurrency = cur_code (im_settlementCurrency r),
     is_SettlementCurrencyScale = cur_scale (im_settlementCurrency r),
     is_InitialMarginRate = Decimal_String X (rate_value (im_initialMarginRate r)),
     is_MaintenanceMarginRate = Decimal_String X (rate_value (im_maintenanceMarginRate r)),
     is_MaxLeverage = Decimal_String X (ratio_value (im_maxLeverage r)),
     is_MakerFeeRate = Decimal_String X (rate_value (im_makerFeeRate r)),
     is_TakerFeeRate = Decimal_String X (rate_value (im_takerFeeRate r))\<rparr>"

definition configureTradingInstrument ::
  "Extern \<Rightarrow> State \<Rightarrow> ConfigureInstrument \<Rightarrow> State \<times> Decision"
where
  "configureTradingInstrument X state configure =
     (if hasEconomicStateForInstrument (st_trading state) (ci_InstrumentID configure)
      then rejectedTradingDecision state RejectionRiskConfigLocked
      else case configured_instrument X (st_trading state) configure of
        None \<Rightarrow> rejectedTradingDecision state RejectionInvalidInstrument
      | Some r \<Rightarrow>
          (with_trading state (replaceInstrument
             (rememberCurrencyScale (st_trading state) (im_settlementCurrency r)) r),
           acceptedDecision\<lparr>d_InstrumentChanges := [instrument_snapshot X r]\<rparr>))"

definition configureTradingAccount :: "State \<Rightarrow> ConfigureAccount \<Rightarrow> State \<times> Decision" where
  "configureTradingAccount state configure =
     (if ca_AccountID configure = '''' \<or> \<not> OmsMode_valid (ca_OmsMode configure)
      then rejectedTradingDecision state RejectionInvalidAction
      else if hasOpenPositions (st_trading state) (ca_AccountID configure)
         \<or> hasActiveOrders (st_trading state) (ca_AccountID configure)
      then rejectedTradingDecision state RejectionInvalidAction
      else (with_trading state (replaceAccount (st_trading state)
              \<lparr>ac_accountID = ca_AccountID configure, ac_omsMode = ca_OmsMode configure\<rparr>),
            acceptedDecision\<lparr>d_AccountChanges := [\<lparr>as_AccountID = ca_AccountID configure,
              as_OmsMode = ca_OmsMode configure\<rparr>]\<rparr>))"

definition configureTradingRisk :: "Extern \<Rightarrow> State \<Rightarrow> ConfigureRisk \<Rightarrow> State \<times> Decision" where
  "configureTradingRisk X state configure =
     (case find_instrumentRecord (st_trading state) (cr_InstrumentID configure) of
        None \<Rightarrow> rejectedTradingDecision state RejectionInvalidAction
      | Some instrument \<Rightarrow>
          if cr_AccountID configure = '''' \<or> \<not> MarginMode_valid (cr_MarginMode configure)
          then rejectedTradingDecision state RejectionInvalidAction
          else case NewRatio X (cr_Leverage configure) of
            Inl _ \<Rightarrow> rejectedTradingDecision state RejectionInvalidAction
          | Inr leverage \<Rightarrow>
              if Decimal_Sign X (ratio_value leverage) \<le> 0
                 \<or> 0 < Decimal_Cmp X (ratio_value leverage) (ratio_value (im_maxLeverage instrument))
              then rejectedTradingDecision state RejectionInvalidAction
              else if hasOpenPositionForInstrument (st_trading state) (cr_AccountID configure)
                     (cr_InstrumentID configure)
                 \<or> hasActiveOrderForInstrument (st_trading state) (cr_AccountID configure)
                     (cr_InstrumentID configure)
              then rejectedTradingDecision state RejectionRiskConfigLocked
              else (with_trading state (replaceRisk (st_trading state)
                      \<lparr>rk_accountID = cr_AccountID configure,
                       rk_instrumentID = cr_InstrumentID configure,
                       rk_marginMode = cr_MarginMode configure, rk_leverage = leverage\<rparr>),
                    acceptedDecision\<lparr>d_RiskChanges := [\<lparr>rs_AccountID = cr_AccountID configure,
                      rs_InstrumentID = cr_InstrumentID configure,
                      rs_MarginMode = cr_MarginMode configure,
                      rs_Leverage = Decimal_String X (ratio_value leverage)\<rparr>]\<rparr>))"

section \<open>Balances\<close>

text \<open>The balance slot of an account and currency, created at zero when it is missing.\<close>

definition balance_slot ::
  "Extern \<Rightarrow> tradingState \<Rightarrow> string \<Rightarrow> Currency \<Rightarrow> (tradingState \<times> nat) result"
where
  "balance_slot X trading accountID currency =
     (case balanceIndex trading accountID currency of
        Some i \<Rightarrow> Inr (trading, i)
      | None \<Rightarrow> and_then (NewMoney X ''0'' currency) (\<lambda>zero.
          Inr (trading\<lparr>ts_balances := ts_balances trading
                 @ [\<lparr>ba_accountID = accountID, ba_total = zero\<rparr>]\<rparr>, length (ts_balances trading))))"

definition adjustTradingBalance :: "Extern \<Rightarrow> State \<Rightarrow> AdjustBalance \<Rightarrow> State \<times> Decision" where
  "adjustTradingBalance X state adjust =
     (if ab_AccountID adjust = '''' \<or> \<not> BalanceOperation_valid (ab_Operation adjust)
      then rejectedTradingDecision state RejectionInvalidAction
      else case NewCurrency (ab_Currency adjust) (ab_CurrencyScale adjust) of
        Inl _ \<Rightarrow> rejectedTradingDecision state RejectionInvalidAction
      | Inr currency \<Rightarrow>
          if \<not> hasSettlementCurrency (st_trading state) currency
          then rejectedTradingDecision state RejectionInvalidAction
          else case NewMoney X (ab_Amount adjust) currency of
            Inl _ \<Rightarrow> rejectedTradingDecision state RejectionInvalidAction
          | Inr amount \<Rightarrow>
              if Decimal_Sign X (m_amount amount) < 0
                 \<or> (ab_Operation adjust = BalanceOperationDeposit
                    \<and> Decimal_Sign X (m_amount amount) = 0)
              then rejectedTradingDecision state RejectionInvalidAction
              else case and_then (balance_slot X (st_trading state) (ab_AccountID adjust) currency)
                    (\<lambda>(trading, i).
                  and_then (if ab_Operation adjust = BalanceOperationDeposit
                      then Money_Add X (ba_total (ts_balances trading ! i)) amount
                      else Inr amount) (\<lambda>total.
                  Inr (sortBalances (set_balance trading i total)))) of
                Inl _ \<Rightarrow> rejectedTradingDecision state RejectionInvalidAction
              | Inr trading \<Rightarrow>
                  (case balanceSnapshot X trading (ab_AccountID adjust) currency of
                     None \<Rightarrow> rejectedTradingDecision state RejectionMarketDataStale
                   | Some snapshot \<Rightarrow> (with_trading state trading,
                       acceptedDecision\<lparr>d_BalanceChanges := [snapshot]\<rparr>)))"

section \<open>Funding\<close>

definition funding_event :: "InputEnvelope \<Rightarrow> ID \<Rightarrow> u64 \<Rightarrow> DomainEvent" where
  "funding_event input fundingID sequence = \<lparr>
     ev_EventID = IDFromSequence (in_InputID input) sequence,
     ev_Kind = ''funding.settled'',
     ev_AggregateID = fundingID,
     ev_AggregateVersion = 1,
     ev_LogicalTime = in_LogicalTime input\<rparr>"

text \<open>The payment of one open position.\<close>

definition fund_position ::
  "Extern \<Rightarrow> InputEnvelope \<Rightarrow> ID \<Rightarrow> instrumentRecord \<Rightarrow> Price \<Rightarrow> Rate \<Rightarrow> positionRecord
     \<Rightarrow> tradingState \<Rightarrow> Decision \<Rightarrow> u64 \<Rightarrow> RejectionReason + (tradingState \<times> Decision)"
where
  "fund_position X input settlementID instrument oracle rate position trading decision sequence =
     (case and_then (FundingPayment X oracle (po_quantity position) rate
             (po_side position = PositionSideLong) (im_settlementCurrency instrument)) (\<lambda>amount.
           and_then (applyBalanceDelta X trading (po_accountID position) amount) (\<lambda>trading.
           Inr (amount, trading))) of
        Inl _ \<Rightarrow> Inl RejectionInvalidAction
      | Inr (amount, trading) \<Rightarrow>
          let funding = \<lparr>
                fu_fundingID = IDFromSequence settlementID sequence,
                fu_settlementID = settlementID,
                fu_positionID = po_positionID position,
                fu_accountID = po_accountID position,
                fu_instrument = po_instrument position,
                fu_signedQuantity = ps_SignedQuantity (position_snapshot X position),
                fu_oraclePrice = oracle,
                fu_rate = rate,
                fu_amount = amount\<rparr>;
              trading = trading\<lparr>ts_funding := ts_funding trading @ [funding]\<rparr>
          in case balanceSnapshot X trading (po_accountID position)
               (im_settlementCurrency instrument) of
               None \<Rightarrow> Inl RejectionMarketDataStale
             | Some balance \<Rightarrow> Inr (trading, decision\<lparr>
                 d_FundingChanges := d_FundingChanges decision @ [funding_snapshot X funding],
                 d_BalanceChanges := d_BalanceChanges decision @ [balance],
                 d_Events := d_Events decision @ [funding_event input (fu_fundingID funding)
                    (nextEventSequence (d_Events decision))]\<rparr>))"

fun settle_positions ::
  "Extern \<Rightarrow> InputEnvelope \<Rightarrow> SettleFunding \<Rightarrow> instrumentRecord \<Rightarrow> Price \<Rightarrow> Rate \<Rightarrow> positionRecord list
     \<Rightarrow> tradingState \<Rightarrow> Decision \<Rightarrow> u64 \<Rightarrow> RejectionReason + (tradingState \<times> Decision)"
where
  "settle_positions X input settle instrument oracle rate [] trading decision sequence =
     Inr (trading, decision)"
| "settle_positions X input settle instrument oracle rate (p # ps) trading decision sequence =
     (if ir_id (po_instrument p) \<noteq> sf_InstrumentID settle \<or> po_status p \<noteq> PositionStatusOpen
      then settle_positions X input settle instrument oracle rate ps trading decision sequence
      else case fund_position X input (sf_SettlementID settle) instrument oracle rate p trading
             decision sequence of
        Inl reason \<Rightarrow> Inl reason
      | Inr (trading, decision) \<Rightarrow>
          settle_positions X input settle instrument oracle rate ps trading decision (sequence + 1))"

definition settleTradingFunding ::
  "Extern \<Rightarrow> State \<Rightarrow> InputEnvelope \<Rightarrow> SettleFunding \<Rightarrow> State \<times> Decision"
where
  "settleTradingFunding X state input settle =
     (case find_instrumentRecord (st_trading state) (sf_InstrumentID settle) of
        None \<Rightarrow> rejectedTradingDecision state RejectionInvalidAction
      | Some instrument \<Rightarrow>
          if ID_IsZero (sf_SettlementID settle)
          then rejectedTradingDecision state RejectionInvalidAction
          else case NewPrice X (sf_OraclePrice settle) (im_revision instrument) of
            Inl _ \<Rightarrow> rejectedTradingDecision state RejectionInvalidAction
          | Inr oracle \<Rightarrow>
              if Decimal_Sign X (p_value oracle) \<le> 0
              then rejectedTradingDecision state RejectionInvalidAction
              else case NewRate X (sf_Rate settle) of
                Inl _ \<Rightarrow> rejectedTradingDecision state RejectionInvalidAction
              | Inr rate \<Rightarrow>
                  (case find_settlement (st_trading state) (sf_SettlementID settle) of
                     Some existing \<Rightarrow>
                       if se_instrument existing \<noteq> im_revision instrument
                          \<or> \<not> Decimal_Equal X (p_value (se_oraclePrice existing)) (p_value oracle)
                          \<or> \<not> Decimal_Equal X (rate_value (se_rate existing)) (rate_value rate)
                       then rejectedTradingDecision state RejectionDuplicateSettlement
                       else acceptedTradingDecision state
                   | None \<Rightarrow>
                       let trading = (st_trading state)\<lparr>ts_settlements :=
                             ts_settlements (st_trading state) @ [\<lparr>
                               se_settlementID = sf_SettlementID settle,
                               se_instrument = im_revision instrument,
                               se_oraclePrice = oracle, se_rate = rate\<rparr>]\<rparr>
                       in case settle_positions X input settle instrument oracle rate
                            (ts_positions trading) trading acceptedDecision 1 of
                            Inl reason \<Rightarrow> rejectedTradingDecision state reason
                          | Inr (trading, decision) \<Rightarrow> (with_trading state trading, decision)))"

section \<open>Books\<close>

fun newLevelRecords ::
  "Extern \<Rightarrow> InstrumentRevision \<Rightarrow> BookLevel list \<Rightarrow> levelRecord list result"
where
  "newLevelRecords X instrument [] = Inr []"
| "newLevelRecords X instrument (level # levels) =
     and_then (NewPrice X (bl_Price level) instrument) (\<lambda>price.
     if Decimal_Sign X (p_value price) \<le> 0 then Inl [] else
     and_then (NewQuantity X (bl_Quantity level) instrument) (\<lambda>quantity.
     if Decimal_Sign X (q_value quantity) \<le> 0 then Inl [] else
     and_then (newLevelRecords X instrument levels) (\<lambda>records.
     Inr (\<lparr>lv_price = price, lv_quantity = quantity\<rparr> # records))))"

definition bid_before :: "Extern \<Rightarrow> levelRecord \<Rightarrow> levelRecord \<Rightarrow> bool" where
  "bid_before X x y = (0 < Decimal_Cmp X (p_value (lv_price x)) (p_value (lv_price y)))"

definition ask_before :: "Extern \<Rightarrow> levelRecord \<Rightarrow> levelRecord \<Rightarrow> bool" where
  "ask_before X x y = (Decimal_Cmp X (p_value (lv_price x)) (p_value (lv_price y)) < 0)"

definition newBookRecord :: "Extern \<Rightarrow> InstrumentRevision \<Rightarrow> UpdateBook \<Rightarrow> bookRecord result" where
  "newBookRecord X instrument update =
     (let hasMark = (ub_MarkPrice update \<noteq> '''') in
      and_then (if hasMark then and_then (NewPrice X (ub_MarkPrice update) instrument) (\<lambda>price.
                  if Decimal_Sign X (p_value price) \<le> 0 then Inl [] else Inr price)
                else Inr zeroPrice) (\<lambda>markPrice.
      and_then (newLevelRecords X instrument (slice (ub_Bids update))) (\<lambda>bids.
      and_then (newLevelRecords X instrument (slice (ub_Asks update))) (\<lambda>asks.
      let bids = sort_by (bid_before X) bids;
          asks = sort_by (ask_before X) asks
      in if bids \<noteq> [] \<and> asks \<noteq> []
            \<and> 0 \<le> Decimal_Cmp X (p_value (lv_price (hd bids))) (p_value (lv_price (hd asks)))
         then Inl []
         else Inr \<lparr>bo_instrumentID = ir_id instrument, bo_markPrice = markPrice,
                bo_hasMark = hasMark, bo_bids = bids, bo_asks = asks\<rparr>))))"

definition updateTradingBook ::
  "Extern \<Rightarrow> State \<Rightarrow> InputEnvelope \<Rightarrow> UpdateBook \<Rightarrow> State \<times> Decision"
where
  "updateTradingBook X state input update =
     (case find_instrument (st_trading state) (ub_InstrumentID update) of
        None \<Rightarrow> rejectedTradingDecision state RejectionInvalidInstrument
      | Some instrument \<Rightarrow>
          if ir_revision instrument \<noteq> in_InstrumentVersion input
          then rejectedTradingDecision state RejectionInvalidInstrument
          else case newBookRecord X instrument update of
            Inl _ \<Rightarrow> rejectedTradingDecision state RejectionInvalidAction
          | Inr book \<Rightarrow>
              let (trading, decision) = matchWorkingOrders X (replaceBook (st_trading state) book)
                    input (ub_InstrumentID update) acceptedDecision
              in (with_trading state trading, decision\<lparr>d_BookChanges :=
                    [book_snapshot X (the (find_book trading (ub_InstrumentID update)))]\<rparr>))"

section \<open>Orders\<close>

text \<open>An order record with the fields every producer sets; the others have their zero values.\<close>

definition base_order ::
  "ID \<Rightarrow> string \<Rightarrow> InstrumentRevision \<Rightarrow> Side \<Rightarrow> OrderType \<Rightarrow> TimeInForce \<Rightarrow> Quantity \<Rightarrow> Quantity
     \<Rightarrow> bool \<Rightarrow> ID \<Rightarrow> Quantity \<Rightarrow> orderRecord"
where
  "base_order orderID accountID instrument side orderType timeInForce quantity filled reduceOnly
     positionID originalQuantity = \<lparr>
     or_orderID = orderID,
     or_accountID = accountID,
     or_instrument = instrument,
     or_side = side,
     or_orderType = orderType,
     or_timeInForce = timeInForce,
     or_status = OrderStatusWorking,
     or_quantity = quantity,
     or_filledQuantity = filled,
     or_averagePrice = zeroPrice,
     or_hasAverage = False,
     or_price = zeroPrice,
     or_hasPrice = False,
     or_triggerPrice = zeroPrice,
     or_hasTrigger = False,
     or_triggered = False,
     or_triggeredAt = 0,
     or_reduceOnly = reduceOnly,
     or_positionID = positionID,
     or_bracketID = zeroID,
     or_bracketLeg = BracketLegNone,
     or_bracketLegIndex = 0,
     or_originalQuantity = originalQuantity,
     or_hasRested = False,
     or_hasSlippageBand = False,
     or_maxSlippageBPS = 0,
     or_slippageReference = zeroPrice,
     or_rejectReason = RejectionNone,
     or_version = 1\<rparr>"

definition setOrderPrice :: "Extern \<Rightarrow> orderRecord \<Rightarrow> string \<Rightarrow> orderRecord option" where
  "setOrderPrice X order t = (case NewPrice X t (or_instrument order) of
     Inl _ \<Rightarrow> None
   | Inr price \<Rightarrow> if Decimal_Sign X (p_value price) \<le> 0 then None
       else Some (order\<lparr>or_price := price, or_hasPrice := True\<rparr>))"

definition setOrderTrigger :: "Extern \<Rightarrow> orderRecord \<Rightarrow> string \<Rightarrow> orderRecord option" where
  "setOrderTrigger X order t = (case NewPrice X t (or_instrument order) of
     Inl _ \<Rightarrow> None
   | Inr price \<Rightarrow> if Decimal_Sign X (p_value price) \<le> 0 then None
       else Some (order\<lparr>or_triggerPrice := price, or_hasTrigger := True\<rparr>))"

text \<open>The prices each order type must and must not carry.\<close>

definition set_order_prices :: "Extern \<Rightarrow> SubmitOrder \<Rightarrow> orderRecord \<Rightarrow> orderRecord option" where
  "set_order_prices X submit order = (case so_Type submit of
     OrderTypeMarket \<Rightarrow>
       if so_Price submit \<noteq> '''' \<or> so_TriggerPrice submit \<noteq> '''' then None else Some order
   | OrderTypeLimit \<Rightarrow>
       if so_TriggerPrice submit \<noteq> '''' then None else setOrderPrice X order (so_Price submit)
   | OrderTypeStopMarket \<Rightarrow>
       if so_Price submit \<noteq> '''' then None else setOrderTrigger X order (so_TriggerPrice submit)
   | OrderTypeStopLimit \<Rightarrow> Option.bind (setOrderPrice X order (so_Price submit))
       (\<lambda>order. setOrderTrigger X order (so_TriggerPrice submit))
   | OrderTypeTakeProfitMarket \<Rightarrow>
       if so_Price submit \<noteq> '''' then None else setOrderTrigger X order (so_TriggerPrice submit)
   | OrderTypeTakeProfitLimit \<Rightarrow> Option.bind (setOrderPrice X order (so_Price submit))
       (\<lambda>order. setOrderTrigger X order (so_TriggerPrice submit))
   | OrderTypeOther _ \<Rightarrow> None)"

definition newOrderRecord ::
  "Extern \<Rightarrow> InstrumentRevision \<Rightarrow> SubmitOrder \<Rightarrow> orderRecord option"
where
  "newOrderRecord X instrument submit =
     (case NewQuantity X (so_Quantity submit) instrument of
        Inl _ \<Rightarrow> None
      | Inr quantity \<Rightarrow>
          if Decimal_Sign X (q_value quantity) \<le> 0 then None
          else case NewQuantity X ''0'' instrument of
            Inl _ \<Rightarrow> None
          | Inr filled \<Rightarrow>
              let order = base_order (so_OrderID submit) (so_AccountID submit) instrument
                    (so_Side submit) (so_Type submit) (so_TimeInForce submit) quantity filled
                    (so_ReduceOnly submit) (so_PositionID submit) quantity;
                  order = (case so_MaxSlippageBPS submit of
                    None \<Rightarrow> order
                  | Some bps \<Rightarrow> order\<lparr>or_hasSlippageBand := True, or_maxSlippageBPS := bps\<rparr>)
              in set_order_prices X submit order)"

definition marketContextAvailable :: "tradingState \<Rightarrow> string \<Rightarrow> Side \<Rightarrow> bool" where
  "marketContextAvailable trading instrumentID side =
     (case find_book trading instrumentID of
        None \<Rightarrow> False
      | Some book \<Rightarrow> if side = SideBuy then bo_asks book \<noteq> [] else bo_bids book \<noteq> [])"

definition orderCanRest :: "orderRecord \<Rightarrow> bool" where
  "orderCanRest order = (or_status order = OrderStatusWorking
     \<or> or_status order = OrderStatusPartiallyFilled)"

definition removeLastTradingOrder :: "State \<Rightarrow> State" where
  "removeLastTradingOrder state = with_trading state
     ((st_trading state)\<lparr>ts_orders := butlast (ts_orders (st_trading state))\<rparr>)"

text \<open>The order a valid submission creates, or the reason it is refused before it exists.\<close>

definition admitted_order ::
  "Extern \<Rightarrow> tradingState \<Rightarrow> InputEnvelope \<Rightarrow> SubmitOrder \<Rightarrow> RejectionReason + orderRecord"
where
  "admitted_order X trading input submit =
     (case find_instrument trading (so_InstrumentID submit) of
        None \<Rightarrow> Inl RejectionInvalidInstrument
      | Some instrument \<Rightarrow>
          if ir_revision instrument \<noteq> in_InstrumentVersion input then Inl RejectionInvalidInstrument
          else if ID_IsZero (so_OrderID submit) \<or> so_AccountID submit = ''''
             \<or> \<not> Side_valid (so_Side submit) \<or> \<not> OrderType_valid (so_Type submit)
             \<or> \<not> TimeInForce_valid (so_TimeInForce submit) then Inl RejectionInvalidOrder
          else if orderIndex trading (so_OrderID submit) \<noteq> None then Inl RejectionDuplicateOrderID
          else if \<not> marketContextAvailable trading (so_InstrumentID submit) (so_Side submit)
          then Inl RejectionInsufficientMarket
          else case newOrderRecord X instrument submit of
            None \<Rightarrow> Inl RejectionInvalidOrder
          | Some order \<Rightarrow>
              (case (if or_hasSlippageBand order
                 then (case find_book trading (so_InstrumentID submit) of
                         None \<Rightarrow> None
                       | Some book \<Rightarrow> if bo_hasMark book
                           then Some (order\<lparr>or_slippageReference := bo_markPrice book\<rparr>) else None)
                 else Some order) of
                 None \<Rightarrow> Inl RejectionInsufficientMarket
               | Some order \<Rightarrow>
                   (case clampReduceOnlyOrder X trading order of (reason, order) \<Rightarrow>
                      if reason \<noteq> RejectionNone then Inl reason
                      else let reason = marginAdmissionReason X trading order
                           in if reason \<noteq> RejectionNone then Inl reason else Inr order)))"

text \<open>The last steps of a submission and of an amendment: rest, snapshot, event.\<close>

definition rest_order ::
  "Extern \<Rightarrow> InputEnvelope \<Rightarrow> nat \<Rightarrow> tradingState \<Rightarrow> Decision \<Rightarrow> tradingState \<times> Decision"
where
  "rest_order X input i trading decision =
     (let order = ts_orders trading ! i;
          trading = (if orderCanRest order
                     then set_order trading i (order\<lparr>or_hasRested := True\<rparr>) else trading)
      in (trading, appendOrderTransition decision input (order_snapshot X (ts_orders trading ! i))))"

text \<open>Both handlers first trigger the order if its condition holds and execute it if it is ready.\<close>

definition run_order ::
  "Extern \<Rightarrow> tradingState \<Rightarrow> InputEnvelope \<Rightarrow> nat \<Rightarrow> RejectionReason \<times> tradingState \<times> Decision"
where
  "run_order X trading input i =
     (case activateOrderIfReady X trading i input of (ready, _, trading) \<Rightarrow>
        if ready then executeOrder X trading input i acceptedDecision
        else (RejectionNone, trading, acceptedDecision))"

definition submitTradingOrder ::
  "Extern \<Rightarrow> State \<Rightarrow> InputEnvelope \<Rightarrow> SubmitOrder \<Rightarrow> State \<times> Decision"
where
  "submitTradingOrder X state input submit =
     (case admitted_order X (st_trading state) input submit of
        Inl reason \<Rightarrow> rejectedTradingDecision state reason
      | Inr order \<Rightarrow>
          let i = length (ts_orders (st_trading state));
              trading = (st_trading state)\<lparr>ts_orders := ts_orders (st_trading state) @ [order]\<rparr>;
              (reason, trading, decision) = run_order X trading input i
          in if reason = RejectionSlippageExceeded then
               let order = rejected_order reason (ts_orders trading ! i)
               in (with_trading state (set_order trading i order),
                   appendOrderTransition (decision\<lparr>d_CommandResult :=
                     \<lparr>cmd_Status = CommandStatusRejected, cmd_Reason = reason\<rparr>\<rparr>) input
                     (order_snapshot X order))
             else if reason \<noteq> RejectionNone then
               rejectedTradingDecision (removeLastTradingOrder (with_trading state trading)) reason
             else let (trading, decision) = rest_order X input i trading decision
                  in (with_trading state trading, decision))"

definition amendTradingOrder ::
  "Extern \<Rightarrow> State \<Rightarrow> InputEnvelope \<Rightarrow> AmendOrder \<Rightarrow> State \<times> Decision"
where
  "amendTradingOrder X state input amend =
     (case orderIndex (st_trading state) (ao_OrderID amend) of
        None \<Rightarrow> rejectedTradingDecision state RejectionOrderNotFound
      | Some i \<Rightarrow>
          let current = ts_orders (st_trading state) ! i in
          if or_accountID current \<noteq> ao_AccountID amend
          then rejectedTradingDecision state RejectionOrderOwnership
          else if \<not> resting_status (or_status current)
          then rejectedTradingDecision state RejectionOrderTerminal
          else case NewQuantity X (ao_Quantity amend) (or_instrument current) of
            Inl _ \<Rightarrow> rejectedTradingDecision state RejectionInvalidOrder
          | Inr quantity \<Rightarrow>
              if Decimal_Sign X (q_value quantity) \<le> 0
                 \<or> Decimal_Cmp X (q_value quantity) (q_value (or_filledQuantity current)) < 0
              then rejectedTradingDecision state RejectionInvalidOrder
              else case NewPrice X (ao_Price amend) (or_instrument current) of
                Inl _ \<Rightarrow> rejectedTradingDecision state RejectionInvalidOrder
              | Inr price \<Rightarrow>
                  if Decimal_Sign X (p_value price) \<le> 0
                  then rejectedTradingDecision state RejectionInvalidOrder
                  else let trading = set_order (st_trading state) i (current\<lparr>or_hasRested := False,
                             or_quantity := quantity, or_price := price, or_hasPrice := True,
                             or_version := or_version current + 1\<rparr>);
                           (reason, trading, decision) = run_order X trading input i
                       in if reason \<noteq> RejectionNone then rejectedTradingDecision state reason
                          else let (trading, decision) = rest_order X input i trading decision
                               in (with_trading state trading, decision))"

definition cancelTradingOrder ::
  "Extern \<Rightarrow> State \<Rightarrow> InputEnvelope \<Rightarrow> CancelOrder \<Rightarrow> State \<times> Decision"
where
  "cancelTradingOrder X state input cancel =
     (case orderIndex (st_trading state) (co_OrderID cancel) of
        None \<Rightarrow> rejectedTradingDecision state RejectionOrderNotFound
      | Some i \<Rightarrow>
          let current = ts_orders (st_trading state) ! i in
          if or_accountID current \<noteq> co_AccountID cancel
          then rejectedTradingDecision state RejectionOrderOwnership
          else if \<not> active_status (or_status current)
          then rejectedTradingDecision state RejectionOrderTerminal
          else let (trading, decision) = cancel_at X input i current
                     (st_trading state, acceptedDecision);
                   (trading, decision) = (if or_bracketLeg current = BracketLegEntry
                        \<and> latestOrderPositionID trading (or_orderID current) = None
                     then cancelBracketProtection X trading (or_bracketID current) input decision
                     else (trading, decision))
               in (with_trading state trading, decision))"

section \<open>Brackets\<close>

text \<open>The take-profit legs: distinct new IDs, positive quantities, and their total.\<close>

fun bracket_legs ::
  "Extern \<Rightarrow> InstrumentRevision \<Rightarrow> ID list \<Rightarrow> Quantity \<Rightarrow> ProtectiveLeg list \<Rightarrow> (ID list \<times> Quantity) option"
where
  "bracket_legs X instrument seen totalQuantity [] = Some (seen, totalQuantity)"
| "bracket_legs X instrument seen totalQuantity (leg # legs) =
     (if ID_IsZero (pl_OrderID leg) \<or> containsID seen (pl_OrderID leg) then None
      else case NewQuantity X (pl_Quantity leg) instrument of
        Inl _ \<Rightarrow> None
      | Inr quantity \<Rightarrow>
          if Decimal_Sign X (q_value quantity) \<le> 0 then None
          else case Quantity_Add X totalQuantity quantity of
            Inl _ \<Rightarrow> None
          | Inr t \<Rightarrow> bracket_legs X instrument (seen @ [pl_OrderID leg]) t legs)"

definition validBracketEnvelope ::
  "Extern \<Rightarrow> tradingState \<Rightarrow> InstrumentRevision \<Rightarrow> PlaceBracket \<Rightarrow> bool"
where
  "validBracketEnvelope X trading instrument bracket =
     (if ID_IsZero (pb_BracketID bracket) \<or> ID_IsZero (pb_EntryOrderID bracket)
         \<or> ID_IsZero (pb_StopLossOrderID bracket) \<or> pb_AccountID bracket = ''''
         \<or> \<not> Side_valid (pb_Side bracket) \<or> \<not> TimeInForce_valid (pb_TimeInForce bracket)
         \<or> (pb_EntryType bracket \<noteq> OrderTypeMarket \<and> pb_EntryType bracket \<noteq> OrderTypeLimit)
         \<or> slice (pb_TakeProfits bracket) = [] then False
      else if pb_EntryType bracket = OrderTypeMarket \<and> pb_EntryPrice bracket \<noteq> '''' then False
      else if pb_EntryType bracket = OrderTypeLimit \<and> pb_EntryPrice bracket = '''' then False
      else case NewQuantity X (pb_Quantity bracket) instrument of
        Inl _ \<Rightarrow> False
      | Inr entryQuantity \<Rightarrow>
          if Decimal_Sign X (q_value entryQuantity) \<le> 0 then False
          else if pb_EntryOrderID bracket = pb_StopLossOrderID bracket then False
          else case NewQuantity X ''0'' instrument of
            Inl _ \<Rightarrow> False
          | Inr zero \<Rightarrow>
              (case bracket_legs X instrument [pb_EntryOrderID bracket, pb_StopLossOrderID bracket]
                   zero (slice (pb_TakeProfits bracket)) of
                 None \<Rightarrow> False
               | Some (seen, totalQuantity) \<Rightarrow>
                   if 0 < Decimal_Cmp X (q_value totalQuantity) (q_value entryQuantity) then False
                   else list_all (\<lambda>i. orderIndex trading i = None) seen
                     \<and> list_all (\<lambda>order. or_bracketID order \<noteq> pb_BracketID bracket)
                         (ts_orders trading)))"

definition protective_submit ::
  "PlaceBracket \<Rightarrow> ID \<Rightarrow> OrderType \<Rightarrow> string \<Rightarrow> string \<Rightarrow> string \<Rightarrow> SubmitOrder"
where
  "protective_submit bracket orderID orderType quantity price trigger = \<lparr>
     so_OrderID = orderID,
     so_AccountID = pb_AccountID bracket,
     so_InstrumentID = pb_InstrumentID bracket,
     so_Side = oppositeSide (pb_Side bracket),
     so_Type = orderType,
     so_TimeInForce = TimeInForceGTC,
     so_Quantity = quantity,
     so_Price = price,
     so_TriggerPrice = trigger,
     so_ReduceOnly = True,
     so_PositionID = zeroID,
     so_MaxSlippageBPS = None\<rparr>"

definition held_leg :: "ID \<Rightarrow> BracketLeg \<Rightarrow> u32 \<Rightarrow> orderRecord \<Rightarrow> orderRecord" where
  "held_leg bracketID leg index order = order\<lparr>or_status := OrderStatusHeld,
     or_bracketID := bracketID, or_bracketLeg := leg, or_bracketLegIndex := index\<rparr>"

fun take_profit_orders ::
  "Extern \<Rightarrow> InstrumentRevision \<Rightarrow> PlaceBracket \<Rightarrow> nat \<Rightarrow> ProtectiveLeg list \<Rightarrow> orderRecord list option"
where
  "take_profit_orders X instrument bracket index [] = Some []"
| "take_profit_orders X instrument bracket index (leg # legs) =
     (case newOrderRecord X instrument (protective_submit bracket (pl_OrderID leg)
          OrderTypeTakeProfitLimit (pl_Quantity leg) (pl_Price leg) (pl_Price leg)) of
        None \<Rightarrow> None
      | Some child \<Rightarrow>
          map_option ((#) (held_leg (pb_BracketID bracket) BracketLegTakeProfit
              (of_nat (index + 1)) child))
            (take_profit_orders X instrument bracket (index + 1) legs))"

text \<open>All protective orders of a bracket, in the order they are appended.\<close>

definition bracket_children ::
  "Extern \<Rightarrow> InstrumentRevision \<Rightarrow> PlaceBracket \<Rightarrow> orderRecord list option"
where
  "bracket_children X instrument bracket =
     (case take_profit_orders X instrument bracket 0 (slice (pb_TakeProfits bracket)) of
        None \<Rightarrow> None
      | Some children \<Rightarrow>
          (case newOrderRecord X instrument (protective_submit bracket (pb_StopLossOrderID bracket)
               OrderTypeStopMarket (pb_Quantity bracket) '''' (pb_StopLoss bracket)) of
             None \<Rightarrow> None
           | Some stop \<Rightarrow>
               Some (children @ [held_leg (pb_BracketID bracket) BracketLegStopLoss 0 stop])))"

definition entry_submit :: "PlaceBracket \<Rightarrow> SubmitOrder" where
  "entry_submit bracket = \<lparr>
     so_OrderID = pb_EntryOrderID bracket,
     so_AccountID = pb_AccountID bracket,
     so_InstrumentID = pb_InstrumentID bracket,
     so_Side = pb_Side bracket,
     so_Type = pb_EntryType bracket,
     so_TimeInForce = pb_TimeInForce bracket,
     so_Quantity = pb_Quantity bracket,
     so_Price = pb_EntryPrice bracket,
     so_TriggerPrice = '''',
     so_ReduceOnly = False,
     so_PositionID = zeroID,
     so_MaxSlippageBPS = None\<rparr>"

text \<open>Once the entry is accepted: mark it, append its protection, and arm it if the entry has filled.\<close>

definition attach_protection ::
  "Extern \<Rightarrow> InputEnvelope \<Rightarrow> PlaceBracket \<Rightarrow> orderRecord list \<Rightarrow> State \<Rightarrow> Decision \<Rightarrow> State \<times> Decision"
where
  "attach_protection X input bracket children nextState decision =
     (let trading = st_trading nextState;
          i = (case orderIndex trading (pb_EntryOrderID bracket) of Some i \<Rightarrow> i | None \<Rightarrow> 0);
          entryOrder = (ts_orders trading ! i)\<lparr>or_bracketID := pb_BracketID bracket,
            or_bracketLeg := BracketLegEntry\<rparr>;
          trading = set_order trading i entryOrder;
          decision = replaceDecisionOrderChange decision (order_snapshot X entryOrder);
          trading = trading\<lparr>ts_orders := ts_orders trading @ children\<rparr>;
          (trading, decision) =
            (case latestOrderPositionID trading (pb_EntryOrderID bracket) of
               Some positionID \<Rightarrow> armBracketProtection X trading (pb_BracketID bracket) positionID
                 input decision
             | None \<Rightarrow> (trading, decision))
      in (with_trading nextState trading,
          appendBracketCreationChanges X (ts_orders trading) (pb_BracketID bracket) input decision))"

definition placeTradingBracket ::
  "Extern \<Rightarrow> State \<Rightarrow> InputEnvelope \<Rightarrow> PlaceBracket \<Rightarrow> State \<times> Decision"
where
  "placeTradingBracket X state input bracket =
     (case find_instrument (st_trading state) (pb_InstrumentID bracket) of
        None \<Rightarrow> rejectedTradingDecision state RejectionInvalidOrder
      | Some instrument \<Rightarrow>
          if ir_revision instrument \<noteq> in_InstrumentVersion input
             \<or> \<not> validBracketEnvelope X (st_trading state) instrument bracket
          then rejectedTradingDecision state RejectionInvalidOrder
          else let (nextState, decision) = submitTradingOrder X state input (entry_submit bracket)
               in if cmd_Status (d_CommandResult decision) = CommandStatusRejected
                  then (nextState, decision)
                  else case bracket_children X instrument bracket of
                    None \<Rightarrow> rejectedTradingDecision state RejectionInvalidOrder
                  | Some children \<Rightarrow>
                      attach_protection X input bracket children nextState decision)"

section \<open>Liquidation\<close>

record liquidationCandidate =
  lc_index :: nat
  lc_notional :: Money

text \<open>The accumulators of the scan; the currency is present once the scan is initialized.\<close>

record liquidation_scan =
  ls_currency :: "Currency option"
  ls_maintenance :: Money
  ls_unrealized :: Money
  ls_isolated :: Money
  ls_candidates :: "liquidationCandidate list"
  ls_cross :: "liquidationCandidate list"

definition start_scan :: "Extern \<Rightarrow> Currency \<Rightarrow> liquidation_scan \<Rightarrow> liquidation_scan result" where
  "start_scan X currency s =
     (case ls_currency s of
        Some c \<Rightarrow> if c = currency then Inr s else Inl []
      | None \<Rightarrow>
          and_then (NewMoney X ''0'' currency) (\<lambda>maintenance.
          and_then (NewMoney X ''0'' currency) (\<lambda>unrealized.
          and_then (NewMoney X ''0'' currency) (\<lambda>isolated.
          Inr (s\<lparr>ls_currency := Some currency, ls_maintenance := maintenance,
                 ls_unrealized := unrealized, ls_isolated := isolated\<rparr>)))))"

definition scan_position ::
  "Extern \<Rightarrow> Ratio \<Rightarrow> nat \<Rightarrow> positionRecord \<Rightarrow> instrumentRecord \<Rightarrow> bookRecord \<Rightarrow> liquidation_scan
     \<Rightarrow> liquidation_scan result"
where
  "scan_position X unitLeverage index position instrument book s =
     and_then (start_scan X (im_settlementCurrency instrument) s) (\<lambda>s.
     let currency = im_settlementCurrency instrument in
     and_then (PositionMargin X (bo_markPrice book) (po_quantity position)
         (im_maintenanceMarginRate instrument) unitLeverage currency) (\<lambda>maintenance.
     and_then (RealizedPnL X (po_averageOpenPrice position) (bo_markPrice book)
         (po_quantity position) (po_side position = PositionSideLong) currency) (\<lambda>unrealized.
     and_then (PositionNotional X (bo_markPrice book) (po_quantity position) currency) (\<lambda>notional.
     let candidate = \<lparr>lc_index = index, lc_notional = notional\<rparr> in
     if po_marginMode position = MarginModeIsolated then
       and_then (Money_Add X (po_isolatedCollateral position) unrealized) (\<lambda>bucketEquity.
       and_then (Money_Add X (ls_isolated s) (po_isolatedCollateral position)) (\<lambda>isolated.
       Inr (s\<lparr>ls_isolated := isolated,
              ls_candidates := (if Decimal_Cmp X (m_amount bucketEquity) (m_amount maintenance) < 0
                then ls_candidates s @ [candidate] else ls_candidates s)\<rparr>)))
     else
       and_then (Money_Add X (ls_maintenance s) maintenance) (\<lambda>totalMaintenance.
       and_then (Money_Add X (ls_unrealized s) unrealized) (\<lambda>totalUnrealized.
       Inr (s\<lparr>ls_maintenance := totalMaintenance, ls_unrealized := totalUnrealized,
              ls_cross := ls_cross s @ [candidate]\<rparr>)))))))"

fun scan_positions ::
  "Extern \<Rightarrow> tradingState \<Rightarrow> string \<Rightarrow> Ratio \<Rightarrow> nat \<Rightarrow> positionRecord list \<Rightarrow> liquidation_scan
     \<Rightarrow> RejectionReason + liquidation_scan"
where
  "scan_positions X trading accountID unitLeverage index [] s = Inr s"
| "scan_positions X trading accountID unitLeverage index (p # ps) s =
     (if po_accountID p \<noteq> accountID \<or> po_status p \<noteq> PositionStatusOpen
      then scan_positions X trading accountID unitLeverage (index + 1) ps s
      else case (find_instrumentRecord trading (ir_id (po_instrument p)),
                 find_book trading (ir_id (po_instrument p))) of
        (Some instrument, Some book) \<Rightarrow>
          if \<not> bo_hasMark book then Inl RejectionMarketDataStale
          else (case scan_position X unitLeverage index p instrument book s of
            Inl _ \<Rightarrow> Inl RejectionInvalidAction
          | Inr s' \<Rightarrow> scan_positions X trading accountID unitLeverage (index + 1) ps s')
      | _ \<Rightarrow> Inl RejectionMarketDataStale)"

definition candidate_before ::
  "Extern \<Rightarrow> tradingState \<Rightarrow> liquidationCandidate \<Rightarrow> liquidationCandidate \<Rightarrow> bool"
where
  "candidate_before X trading x y =
     (let comparison = Decimal_Cmp X (m_amount (lc_notional x)) (m_amount (lc_notional y))
      in if comparison \<noteq> 0 then 0 < comparison
         else ID_String (po_positionID (ts_positions trading ! lc_index x))
            < ID_String (po_positionID (ts_positions trading ! lc_index y)))"

text \<open>\<open>Inr None\<close>: not breached; \<open>Inr (Some cs)\<close>: breached, with the positions to close in order.\<close>

definition liquidationCandidates ::
  "Extern \<Rightarrow> tradingState \<Rightarrow> string \<Rightarrow> RejectionReason + liquidationCandidate list option"
where
  "liquidationCandidates X trading accountID =
     (case NewRatio X ''1'' of
        Inl _ \<Rightarrow> Inl RejectionInvalidAction
      | Inr unitLeverage \<Rightarrow>
          (case scan_positions X trading accountID unitLeverage 0 (ts_positions trading)
               \<lparr>ls_currency = None, ls_maintenance = zeroMoney, ls_unrealized = zeroMoney,
                ls_isolated = zeroMoney, ls_candidates = [], ls_cross = []\<rparr> of
             Inl reason \<Rightarrow> Inl reason
           | Inr s \<Rightarrow>
               (case ls_currency s of
                  None \<Rightarrow> Inr None
                | Some currency \<Rightarrow>
                    (case balanceIndex trading accountID currency of
                       None \<Rightarrow> Inl RejectionInsufficientFunds
                     | Some i \<Rightarrow>
                         (case and_then (Money_Sub X (ba_total (ts_balances trading ! i))
                                 (ls_isolated s)) (\<lambda>crossEquity.
                               Money_Add X crossEquity (ls_unrealized s)) of
                            Inl _ \<Rightarrow> Inl RejectionInvalidAction
                          | Inr crossEquity \<Rightarrow>
                              let candidates = (if ls_cross s \<noteq> []
                                     \<and> Decimal_Cmp X (m_amount crossEquity)
                                         (m_amount (ls_maintenance s)) < 0
                                   then ls_candidates s @ ls_cross s else ls_candidates s)
                              in Inr (if candidates = [] then None
                                      else Some (sort_by (candidate_before X trading) candidates)))))))"

definition oppositePositionSide :: "PositionSide \<Rightarrow> Side" where
  "oppositePositionSide side = (if side = PositionSideLong then SideSell else SideBuy)"

definition liquidationSequence :: "nat \<Rightarrow> u64" where
  "liquidationSequence index = 1 + of_nat index"

definition liquidation_order :: "ID \<Rightarrow> positionRecord \<Rightarrow> Quantity \<Rightarrow> orderRecord" where
  "liquidation_order orderID position zero =
     base_order orderID (po_accountID position) (po_instrument position)
       (oppositePositionSide (po_side position)) OrderTypeMarket TimeInForceGTC
       (po_quantity position) zero True (po_positionID position) zeroQuantity"

fun liquidate_positions ::
  "Extern \<Rightarrow> InputEnvelope \<Rightarrow> nat \<Rightarrow> liquidationCandidate list \<Rightarrow> tradingState \<Rightarrow> Decision
     \<Rightarrow> RejectionReason + (tradingState \<times> Decision)"
where
  "liquidate_positions X input sequence [] trading decision = Inr (trading, decision)"
| "liquidate_positions X input sequence (candidate # candidates) trading decision =
     (let position = ts_positions trading ! lc_index candidate;
          orderID = IDFromSequence (in_InputID input) (liquidationSequence sequence)
      in if orderIndex trading orderID \<noteq> None then Inl RejectionDuplicateOrderID
         else case NewQuantity X ''0'' (po_instrument position) of
           Inl _ \<Rightarrow> Inl RejectionInvalidOrder
         | Inr zero \<Rightarrow>
             let i = length (ts_orders trading) in
             (case executeOrder X (trading\<lparr>ts_orders := ts_orders trading
                    @ [liquidation_order orderID position zero]\<rparr>) input i decision of
                (rejection, trading, decision) \<Rightarrow>
                  if rejection \<noteq> RejectionNone then Inl rejection
                  else liquidate_positions X input (sequence + 1) candidates trading
                    (appendOrderTransition decision input
                      (order_snapshot X (ts_orders trading ! i)))))"

definition liquidateTradingAccount ::
  "Extern \<Rightarrow> State \<Rightarrow> InputEnvelope \<Rightarrow> LiquidateAccount \<Rightarrow> State \<times> Decision"
where
  "liquidateTradingAccount X state input liquidate =
     (if la_AccountID liquidate = '''' then rejectedTradingDecision state RejectionInvalidAction
      else case liquidationCandidates X (st_trading state) (la_AccountID liquidate) of
        Inl reason \<Rightarrow> rejectedTradingDecision state reason
      | Inr None \<Rightarrow> acceptedTradingDecision state
      | Inr (Some positions) \<Rightarrow>
          (case liquidate_positions X input 0 positions (st_trading state) acceptedDecision of
             Inl reason \<Rightarrow> rejectedTradingDecision state reason
           | Inr (trading, decision) \<Rightarrow> (with_trading state trading, decision)))"

section \<open>Dispatch\<close>

definition applyTradingAction ::
  "Extern \<Rightarrow> State \<Rightarrow> InputEnvelope \<Rightarrow> TradingAction \<Rightarrow> State \<times> Decision"
where
  "applyTradingAction X state input action =
     (if \<not> validTradingActionUnion action then rejectedTradingDecision state RejectionInvalidAction
      else case act_Kind action of
        TradingActionConfigureInstrument \<Rightarrow>
          configureTradingInstrument X state (the (act_ConfigureInstrument action))
      | TradingActionConfigureAccount \<Rightarrow>
          configureTradingAccount state (the (act_ConfigureAccount action))
      | TradingActionConfigureRisk \<Rightarrow> configureTradingRisk X state (the (act_ConfigureRisk action))
      | TradingActionAdjustBalance \<Rightarrow> adjustTradingBalance X state (the (act_AdjustBalance action))
      | TradingActionSettleFunding \<Rightarrow>
          settleTradingFunding X state input (the (act_SettleFunding action))
      | TradingActionLiquidateAccount \<Rightarrow>
          liquidateTradingAccount X state input (the (act_LiquidateAccount action))
      | TradingActionUpdateBook \<Rightarrow> updateTradingBook X state input (the (act_UpdateBook action))
      | TradingActionSubmitOrder \<Rightarrow> submitTradingOrder X state input (the (act_SubmitOrder action))
      | TradingActionPlaceBracket \<Rightarrow> placeTradingBracket X state input (the (act_PlaceBracket action))
      | TradingActionAmendOrder \<Rightarrow> amendTradingOrder X state input (the (act_AmendOrder action))
      | TradingActionCancelOrder \<Rightarrow> cancelTradingOrder X state input (the (act_CancelOrder action))
      | TradingActionKindOther _ \<Rightarrow> rejectedTradingDecision state RejectionInvalidAction)"

definition risk_locked :: "Extern \<Rightarrow> tradingState \<Rightarrow> ConfigureInstrument \<Rightarrow> bool" where
  "risk_locked X trading configure = (case NewRatio X (ci_MaxLeverage configure) of
     Inl _ \<Rightarrow> False
   | Inr maxLeverage \<Rightarrow> 0 < Decimal_Sign X (ratio_value maxLeverage)
       \<and> hasRiskAboveMaxLeverage X trading (ci_InstrumentID configure) maxLeverage)"

definition applyTradingActionAtDecisionHashVersion ::
  "Extern \<Rightarrow> State \<Rightarrow> InputEnvelope \<Rightarrow> TradingAction \<Rightarrow> u32 \<Rightarrow> State \<times> Decision"
where
  "applyTradingActionAtDecisionHashVersion X state input action decisionHashVersion =
     (if 4 \<le> decisionHashVersion \<and> validTradingActionUnion action
         \<and> act_Kind action = TradingActionConfigureInstrument
         \<and> risk_locked X (st_trading state) (the (act_ConfigureInstrument action))
      then rejectedTradingDecision state RejectionRiskConfigLocked
      else applyTradingAction X state input action)"

end
