(* ===== verification/EngineEvolution.thy ===== *)
theory EngineEvolution
  imports EngineApply
begin

text \<open>
  What an execution and an action may change. A handler touches only the trading part of the shard
  state (\<open>trading_only\<close>); an execution keeps configuration, books, funding and earlier fills and lets
  orders, positions and balances evolve in place (\<open>exec_frame\<close>), where an order that has reached a
  terminal status is never touched again (\<open>order_evolves\<close>); a decision only grows
  (\<open>decision_grows\<close>). The loops of the engine are folds of steps that respect these preorders: the
  locale \<open>evolution\<close> carries a step through a fold. The last sections treat whole actions: a rejected
  action leaves no trace, and every action lets the trading state evolve.
\<close>

section \<open>The part of the state a handler changes\<close>

lemma with_trading_simps [simp]:
  "st_trading (with_trading s t) = t" "with_trading (with_trading s t) u = with_trading s u"
  "with_trading s (st_trading s) = s" "st_shardID (with_trading s t) = st_shardID s"
  "st_nextStreamSequence (with_trading s t) = st_nextStreamSequence s"
  "st_marketSequence (with_trading s t) = st_marketSequence s"
  "st_ready (with_trading s t) = st_ready s" "st_hash (with_trading s t) = st_hash s"
  "st_lastReceipt (with_trading s t) = st_lastReceipt s"
  "st_hasLastReceipt (with_trading s t) = st_hasLastReceipt s"
  by (simp_all add: with_trading_def)

text \<open>A handler changes nothing of the shard state but its trading part.\<close>

definition trading_only :: "State \<Rightarrow> State \<Rightarrow> bool" where
  "trading_only s s' = (s' = with_trading s (st_trading s'))"

lemma trading_only_refl [simp]: "trading_only s s"
  by (simp add: trading_only_def)

lemma trading_only_with [simp]: "trading_only s (with_trading s t)"
  by (simp add: trading_only_def)

lemma trading_only_trans: "trading_only s s' \<Longrightarrow> trading_only s' s'' \<Longrightarrow> trading_only s s''"
  by (metis trading_only_def with_trading_simps(2))

lemmas decision_defs = rejectedTradingDecision_def acceptedTradingDecision_def

lemma configure_trading_only:
  "trading_only s (fst (configureTradingInstrument X s ci))"
  "trading_only s (fst (configureTradingAccount s ca))"
  "trading_only s (fst (configureTradingRisk X s cr))"
  "trading_only s (fst (adjustTradingBalance X s ab))"
  by (simp_all add: configureTradingInstrument_def configureTradingAccount_def
    configureTradingRisk_def adjustTradingBalance_def decision_defs split: option.split sum.split)

lemma settle_trading_only: "trading_only s (fst (settleTradingFunding X s input sf))"
  by (simp add: settleTradingFunding_def decision_defs Let_def split: option.split sum.split prod.split)

lemma liquidate_trading_only: "trading_only s (fst (liquidateTradingAccount X s input la))"
  by (simp add: liquidateTradingAccount_def decision_defs Let_def split: option.split sum.split prod.split)

lemma book_trading_only: "trading_only s (fst (updateTradingBook X s input ub))"
  by (simp add: updateTradingBook_def decision_defs Let_def split: option.split sum.split prod.split)

lemma submit_trading_only: "trading_only s (fst (submitTradingOrder X s input so))"
  by (simp add: submitTradingOrder_def removeLastTradingOrder_def decision_defs Let_def split: option.split sum.split prod.split)

lemma amend_trading_only: "trading_only s (fst (amendTradingOrder X s input ao))"
  by (simp add: amendTradingOrder_def decision_defs Let_def split: option.split sum.split prod.split)

lemma cancel_trading_only: "trading_only s (fst (cancelTradingOrder X s input co))"
  by (simp add: cancelTradingOrder_def decision_defs Let_def split: option.split sum.split prod.split)

lemma attach_trading_only: "trading_only n (fst (attach_protection X input pb cs n d))"
  by (simp add: attach_protection_def Let_def split: prod.split)

lemma bracket_trading_only: "trading_only s (fst (placeTradingBracket X s input pb))"
  using submit_trading_only [of s X input "entry_submit pb"]
  by (auto simp: placeTradingBracket_def decision_defs
    intro: trading_only_trans [OF _ attach_trading_only] split: option.split sum.split prod.split)

lemmas handler_trading_only = configure_trading_only settle_trading_only liquidate_trading_only
  book_trading_only submit_trading_only amend_trading_only cancel_trading_only bracket_trading_only

lemma action_trading_only: "trading_only s (fst (applyTradingAction X s input a))"
  by (simp add: applyTradingAction_def handler_trading_only decision_defs split: TradingActionKind.split)

lemma action_version_trading_only:
  "trading_only s (fst (applyTradingActionAtDecisionHashVersion X s input a v))"
  by (simp add: applyTradingActionAtDecisionHashVersion_def action_trading_only decision_defs)

section \<open>Evolution\<close>

text \<open>A preorder on states, and folds of steps that respect it.\<close>

locale evolution =
  fixes R :: "'s \<Rightarrow> 's \<Rightarrow> bool"
  assumes R_refl: "R s s" and R_trans: "R s t \<Longrightarrow> R t u \<Longrightarrow> R s u"
begin

lemma fold_evolves:
  assumes "\<And>t i. i \<in> set is \<Longrightarrow> R s t \<Longrightarrow> R t (f t i)" "R s t"
  shows "R s (foldl f t is)"
  using assms by (induction "is" arbitrary: t) (simp_all, metis R_trans)

end

definition order_evolves :: "orderRecord \<Rightarrow> orderRecord \<Rightarrow> bool" where
  "order_evolves a b = (or_orderID b = or_orderID a \<and> or_accountID b = or_accountID a
     \<and> or_instrument b = or_instrument a \<and> or_side b = or_side a \<and> or_orderType b = or_orderType a
     \<and> or_timeInForce b = or_timeInForce a \<and> or_reduceOnly b = or_reduceOnly a
     \<and> or_originalQuantity b = or_originalQuantity a \<and> or_bracketID b = or_bracketID a
     \<and> or_bracketLeg b = or_bracketLeg a \<and> or_hasSlippageBand b = or_hasSlippageBand a
     \<and> or_maxSlippageBPS b = or_maxSlippageBPS a \<and> or_slippageReference b = or_slippageReference a
     \<and> or_hasTrigger b = or_hasTrigger a \<and> or_triggerPrice b = or_triggerPrice a
     \<and> (\<not> active_status (or_status a) \<longrightarrow> b = a))"

lemma order_evolves_refl [simp]: "order_evolves a a"
  by (simp add: order_evolves_def)

lemma order_evolves_trans: "order_evolves a b \<Longrightarrow> order_evolves b c \<Longrightarrow> order_evolves a c"
  by (auto simp: order_evolves_def)

text \<open>Pointwise growth of a list: entries evolve in place, new ones are appended.\<close>

definition grows :: "('a \<Rightarrow> 'a \<Rightarrow> bool) \<Rightarrow> 'a list \<Rightarrow> 'a list \<Rightarrow> bool" where
  "grows R xs ys = (length xs \<le> length ys \<and> (\<forall>i < length xs. R (xs ! i) (ys ! i)))"

lemma grows_refl: "(\<And>x. R x x) \<Longrightarrow> grows R xs xs"
  by (simp add: grows_def)

lemma grows_trans: "(\<And>x y z. R x y \<Longrightarrow> R y z \<Longrightarrow> R x z) \<Longrightarrow> grows R xs ys \<Longrightarrow> grows R ys zs \<Longrightarrow> grows R xs zs"
  unfolding grows_def by (meson le_trans less_le_trans)

lemma grows_append: "(\<And>x. R x x) \<Longrightarrow> grows R xs (xs @ ys)"
  by (simp add: grows_def nth_append)

lemma grows_update:
  "(\<And>x. R x x) \<Longrightarrow> (i < length xs \<Longrightarrow> R (xs ! i) y) \<Longrightarrow> grows R xs (xs[i := y])"
  by (cases "i < length xs") (auto simp: grows_def nth_list_update list_update_beyond)

lemma grows_map_prefix:
  assumes "grows R xs ys" "\<And>x y. R x y \<Longrightarrow> f y = f x"
  shows "\<exists>zs. map f ys = map f xs @ zs"
proof -
  have "take (length xs) (map f ys) = map f xs"
    using assms by (auto simp: grows_def list_eq_iff_nth_eq)
  then show ?thesis by (metis append_take_drop_id)
qed

definition position_evolves :: "positionRecord \<Rightarrow> positionRecord \<Rightarrow> bool" where
  "position_evolves a b = (po_positionID b = po_positionID a \<and> po_accountID b = po_accountID a
     \<and> po_instrument b = po_instrument a \<and> po_settlementCurrency b = po_settlementCurrency a
     \<and> po_marginMode b = po_marginMode a)"

definition balance_evolves :: "balanceRecord \<Rightarrow> balanceRecord \<Rightarrow> bool" where
  "balance_evolves a b = (ba_accountID b = ba_accountID a \<and> m_currency (ba_total b) = m_currency (ba_total a))"

text \<open>
  What an execution may do to the trading state: configuration, books, funding and the first \<open>n\<close>
  fills stay; orders, positions and balances evolve in place.
\<close>

definition exec_frame :: "nat \<Rightarrow> tradingState \<Rightarrow> tradingState \<Rightarrow> bool" where
  "exec_frame n s t = (ts_instruments t = ts_instruments s \<and> ts_currencyScales t = ts_currencyScales s
     \<and> ts_accounts t = ts_accounts s \<and> ts_risks t = ts_risks s \<and> ts_funding t = ts_funding s
     \<and> ts_settlements t = ts_settlements s \<and> ts_books t = ts_books s
     \<and> length (ts_orders t) = length (ts_orders s) \<and> grows order_evolves (ts_orders s) (ts_orders t)
     \<and> length (ts_fills s) \<le> length (ts_fills t) \<and> take n (ts_fills t) = take n (ts_fills s)
     \<and> grows position_evolves (ts_positions s) (ts_positions t)
     \<and> length (ts_balances t) = length (ts_balances s) \<and> grows balance_evolves (ts_balances s) (ts_balances t))"

definition decision_grows :: "Decision \<Rightarrow> Decision \<Rightarrow> bool" where
  "decision_grows d d' = (\<exists>bs os fs ps es. d' = d\<lparr>d_BalanceChanges := d_BalanceChanges d @ bs,
     d_OrderChanges := d_OrderChanges d @ os, d_Fills := d_Fills d @ fs,
     d_PositionChanges := d_PositionChanges d @ ps, d_Events := d_Events d @ es\<rparr>)"

definition exec_step :: "nat \<Rightarrow> tradingState \<times> Decision \<Rightarrow> tradingState \<times> Decision \<Rightarrow> bool" where
  "exec_step n a b = (exec_frame n (fst a) (fst b) \<and> decision_grows (snd a) (snd b))"

lemma position_evolves_refl [simp]: "position_evolves a a" by (simp add: position_evolves_def)
lemma balance_evolves_refl [simp]: "balance_evolves a a" by (simp add: balance_evolves_def)

lemma exec_frame_refl [simp]: "exec_frame n s s"
  by (simp add: exec_frame_def grows_refl)

lemma exec_frame_trans: "exec_frame n s t \<Longrightarrow> exec_frame n t u \<Longrightarrow> exec_frame n s u"
  unfolding exec_frame_def
  by (auto intro: grows_trans [OF order_evolves_trans] grows_trans [of position_evolves]
    grows_trans [of balance_evolves] simp: position_evolves_def balance_evolves_def)

lemma decision_grows_refl [simp]: "decision_grows d d"
  unfolding decision_grows_def by (intro exI [of _ "[]"]) simp

lemma decision_grows_trans: "decision_grows a b \<Longrightarrow> decision_grows b c \<Longrightarrow> decision_grows a c"
  by (fastforce simp: decision_grows_def)

lemma decision_grows_result: "decision_grows d d' \<Longrightarrow> d_CommandResult d' = d_CommandResult d"
  by (auto simp: decision_grows_def)

lemma decision_grows_append [simp]: "decision_grows d (appendOrderTransition d input os)"
  unfolding decision_grows_def appendOrderTransition_def
  by (intro exI [of _ "[]"] exI [of _ "[os]"]
    exI [of _ "[orderEvent input os (nextEventSequence (d_Events d))]"]) simp

interpretation exec: evolution "exec_step n" for n
  by unfold_locales (auto simp: exec_step_def intro: exec_frame_trans decision_grows_trans)

lemma exec_step_refl [simp]: "exec_step n a a" by (rule exec.R_refl)

lemma exec_frame_set_order:
  assumes "i < length (ts_orders s) \<Longrightarrow> order_evolves (ts_orders s ! i) order"
  shows "exec_frame n s (set_order s i order)"
  using assms by (auto simp: exec_frame_def set_order_def intro: grows_update grows_refl)

section \<open>Shapes\<close>

lemma clamp_shape: "\<exists>q p. snd (clampReduceOnlyOrder X s order) = order\<lparr>or_quantity := q, or_positionID := p\<rparr>"
proof -
  have i: "\<exists>q p. order = order\<lparr>or_quantity := q, or_positionID := p\<rparr>"
    by (intro exI [of _ "or_quantity order"] exI [of _ "or_positionID order"]) simp
  have q: "\<exists>qq p. order\<lparr>or_quantity := q\<rparr> = order\<lparr>or_quantity := qq, or_positionID := p\<rparr>" for q
    by (intro exI [of _ q] exI [of _ "or_positionID order"]) simp
  have p: "\<exists>qq p. order\<lparr>or_positionID := r\<rparr> = order\<lparr>or_quantity := qq, or_positionID := p\<rparr>" for r
    by (intro exI [of _ "or_quantity order"] exI [of _ r]) simp
  show ?thesis using i q p
    by (auto simp: clampReduceOnlyOrder_def Let_def split: option.split sum.split)
qed

lemma clamp_evolves:
  "active_status (or_status order) \<Longrightarrow> order_evolves order (snd (clampReduceOnlyOrder X s order))"
  "or_status (snd (clampReduceOnlyOrder X s order)) = or_status order"
  using clamp_shape [of X s order] by (auto simp: order_evolves_def)

lemma resize_shape: "\<exists>q. snd (resizeProtectionToPosition X s order) = order\<lparr>or_quantity := q\<rparr>"
proof -
  have i: "\<exists>q. order = order\<lparr>or_quantity := q\<rparr>" by (intro exI [of _ "or_quantity order"]) simp
  show ?thesis using i
    by (auto simp: resizeProtectionToPosition_def Let_def split: option.split sum.split)
qed

section \<open>Bracket steps\<close>

lemma cancelled_evolves: "active_status (or_status a) \<Longrightarrow> order_evolves a b \<Longrightarrow> order_evolves a (cancelled b)"
  by (auto simp: order_evolves_def cancelled_def)

lemma cancel_at_step:
  assumes "i < length (ts_orders (fst sd)) \<Longrightarrow>
      active_status (or_status (ts_orders (fst sd) ! i)) \<and> order_evolves (ts_orders (fst sd) ! i) order"
  shows "exec_step n sd (cancel_at X input i order sd)"
  using assms by (cases sd) (auto simp: cancel_at_def exec_step_def intro: exec_frame_set_order cancelled_evolves)

lemma resize_at_step:
  assumes "i < length (ts_orders (fst sd)) \<Longrightarrow>
      active_status (or_status (ts_orders (fst sd) ! i)) \<and> order_evolves (ts_orders (fst sd) ! i) order"
  shows "exec_step n sd (resize_at X input i q order sd)"
  using assms by (cases sd) (auto simp: resize_at_def exec_step_def Let_def order_evolves_def intro: exec_frame_set_order)

lemma cancel_protection_step_evolves: "exec_step n sd (cancel_protection_step X b input sd i)"
  by (auto simp: cancel_protection_step_def Let_def protective_of_def intro: cancel_at_step)

lemma clamp_pair: "clampReduceOnlyOrder X s order = (r, order') \<Longrightarrow> active_status (or_status order) \<Longrightarrow> order_evolves order order'"
  using clamp_evolves(1) [of order X s] by simp

lemma sibling_step_evolves: "exec_step n sd (sibling_step X order po input sd i)"
  by (auto simp: sibling_step_def Let_def protective_of_def dest: clamp_pair split: prod.splits
    intro!: cancel_at_step resize_at_step)

lemma protection_step_evolves: "exec_step n sd (protection_step X input sd i)"
  by (auto simp: protection_step_def Let_def resting_status_def active_status_def dest: clamp_pair split: prod.splits option.splits
    intro!: cancel_at_step resize_at_step)

lemma arm_step_evolves: "exec_step n sd (arm_step X b p input sd i)"
proof (cases sd)
  case (Pair state decision)
  let ?o = "ts_orders state ! i"
  show ?thesis
  proof (cases "protective_of b ?o")
    case True
    obtain q where q: "snd (resizeProtectionToPosition X state (?o\<lparr>or_positionID := p\<rparr>)) =
        ?o\<lparr>or_positionID := p, or_quantity := q\<rparr>"
      using resize_shape by blast
    obtain r where r: "resizeProtectionToPosition X state (?o\<lparr>or_positionID := p\<rparr>) =
        (r, ?o\<lparr>or_positionID := p, or_quantity := q\<rparr>)"
      using q by (metis prod.collapse)
    show ?thesis using True
      by (auto simp: Pair arm_step_def r Let_def exec_step_def protective_of_def order_evolves_def
        intro!: exec_frame_set_order)
  qed (simp add: Pair arm_step_def)
qed

lemma reconcile_evolves:
  "exec_step n (s, d) (cancelBracketProtection X s b input d)"
  "exec_step n (s, d) (armBracketProtection X s b p input d)"
  "exec_step n (s, d) (reconcileBracketAfterExecution X s oi input d)"
  "exec_step n (s, d) (reconcilePositionProtection X s input d)"
  by (auto simp: cancelBracketProtection_def armBracketProtection_def reconcileBracketAfterExecution_def
    reconcilePositionProtection_def Let_def split: option.splits
    intro!: exec.fold_evolves cancel_protection_step_evolves arm_step_evolves sibling_step_evolves protection_step_evolves)

section \<open>Fills and positions\<close>

lemma match_levels_shape:
  "match_levels X input order fills deepest levels = Some (ls, order', fills', dp) \<Longrightarrow>
    (\<exists>f. order' = order\<lparr>or_filledQuantity := f\<rparr>) \<and> (\<exists>new. fills' = fills @ new)"
proof (induction levels arbitrary: order fills deepest ls)
  case Nil
  then show ?case by (auto intro: exI [of _ "or_filledQuantity order"])
next
  case (Cons l levels)
  have i: "\<exists>f. order = order\<lparr>or_filledQuantity := f\<rparr>" by (intro exI [of _ "or_filledQuantity order"]) simp
  from Cons show ?case using i
    by (fastforce simp: Let_def split: if_splits sum.splits option.splits prod.splits)
qed

lemma matchOrder_shape:
  assumes "matchOrder X book order input fills = Some (book', order', fills')"
  shows "(\<exists>f. order' = order\<lparr>or_filledQuantity := f\<rparr>) \<and> (\<exists>new. fills' = fills @ new)"
proof -
  from assms obtain ls o1 f1 dp where m: "match_levels X input order fills None (executableLevels book (or_side order))
      = Some (ls, o1, f1, dp)" and fb: "match_fallback X input ls o1 f1 dp = Some (order', fills')"
    by (auto simp: matchOrder_def Let_def split: option.splits prod.splits)
  from fb have "(\<exists>f. order' = o1\<lparr>or_filledQuantity := f\<rparr>) \<and> (\<exists>new. fills' = f1 @ new)"
    by (auto simp: match_fallback_def intro: exI [of _ "or_filledQuantity o1"]
      split: sum.splits option.splits if_splits)
  with match_levels_shape [OF m] show ?thesis by auto
qed

lemma fee_fills_length: "fee_fills X r c l fs = Inr gs \<Longrightarrow> length gs = length fs"
  by (induction fs arbitrary: gs) auto

lemma applyTradingFees_frame:
  "applyTradingFees X s order n = Inr t \<Longrightarrow> n \<le> length (ts_fills s) \<Longrightarrow> exec_frame n s t
     \<and> length (ts_fills t) = length (ts_fills s)"
  by (auto simp: applyTradingFees_def Let_def exec_frame_def grows_refl split: option.splits dest: fee_fills_length)

lemma Money_currency: "Money_Add X a b = Inr c \<Longrightarrow> m_currency c = m_currency a"
  "Money_Sub X a b = Inr c \<Longrightarrow> m_currency c = m_currency a"
  by (auto simp: Money_Add_def Money_Sub_def moneyFromDecimal_def split: if_splits)

lemma set_balance_frame:
  assumes "m_currency m = m_currency (ba_total (ts_balances s ! i))"
  shows "exec_frame n s (set_balance s i m)"
  using assms by (auto simp: exec_frame_def set_balance_def balance_evolves_def grows_refl intro!: grows_update)

lemma settle_fill_frame: "settle_fill X s a f = Inr (t, ch) \<Longrightarrow> exec_frame n s t \<and> ts_fills t = ts_fills s
    \<and> ts_positions t = ts_positions s \<and> ts_orders t = ts_orders s"
  by (auto simp: settle_fill_def applyBalanceDelta_def applyBalanceDebit_def set_balance_def
    split: if_splits option.splits prod.splits
    intro!: exec_frame_trans [OF set_balance_frame set_balance_frame, unfolded set_balance_def]
      set_balance_frame [unfolded set_balance_def]
    dest: Money_currency)

lemma exec_frame_fills:
  "n \<le> i \<Longrightarrow> exec_frame n s (s\<lparr>ts_fills := (ts_fills s)[i := f]\<rparr>)"
  by (simp add: exec_frame_def grows_refl)

lemma exec_frame_position:
  assumes "i < length (ts_positions s) \<Longrightarrow> position_evolves (ts_positions s ! i) p"
  shows "exec_frame n s (s\<lparr>ts_positions := (ts_positions s)[i := p]\<rparr>)"
  using assms by (auto simp: exec_frame_def grows_refl intro!: grows_update)

lemma exec_frame_new_position: "exec_frame n s (s\<lparr>ts_positions := ts_positions s @ ps\<rparr>)"
  by (auto simp: exec_frame_def grows_refl intro!: grows_append)

lemma positionForFill_frame:
  "positionForFill X s order f = Inr (t, i, cr) \<Longrightarrow> exec_frame n s t \<and> ts_fills t = ts_fills s
     \<and> ts_orders t = ts_orders s \<and> i < length (ts_positions t)"
  by (auto simp: positionForFill_def Let_def netPositionIndex_def exec_frame_new_position
    dest: first_index_bound split: if_splits option.splits)

lemma applyFillToPosition_evolves:
  "applyFillToPosition X p f = Inr (p', f') \<Longrightarrow> position_evolves p p'"
  by (auto simp: applyFillToPosition_def Let_def position_evolves_def split: if_splits)

lemma refreshPositionMargin_evolves: "refreshPositionMargin X s p = Inr p' \<Longrightarrow> position_evolves p p'"
  by (auto simp: refreshPositionMargin_def position_evolves_def split: if_splits option.splits)

lemma position_evolves_trans: "position_evolves a b \<Longrightarrow> position_evolves b c \<Longrightarrow> position_evolves a c"
  by (simp add: position_evolves_def)

lemma apply_fill_cases:
  assumes "apply_fill X order input i s d = Inr (t, d')"
  obtains s1 j cr p f p' ch where
    "positionForFill X s order (ts_fills s ! i) = Inr (s1, j, cr)"
    "(if cr then Inr (ts_positions s1 ! j, (ts_fills s1 ! i)\<lparr>fi_positionEffect := PositionEffectOpen\<rparr>)
         else applyFillToPosition X (ts_positions s1 ! j) (ts_fills s1 ! i)) = Inr (p, f)"
    "refreshPositionMargin X (s1\<lparr>ts_fills := (ts_fills s1)[i := f\<lparr>fi_positionID := po_positionID p\<rparr>],
         ts_positions := (ts_positions s1)[j := p]\<rparr>) p = Inr p'"
    "settle_fill X (s1\<lparr>ts_fills := (ts_fills s1)[i := f\<lparr>fi_positionID := po_positionID p\<rparr>],
         ts_positions := (ts_positions s1)[j := p'\<lparr>po_version := po_version p' + 1\<rparr>]\<rparr>)
         (po_accountID p') (f\<lparr>fi_positionID := po_positionID p\<rparr>) = Inr (t, ch)"
    "\<exists>bs ps es. d' = d\<lparr>d_BalanceChanges := d_BalanceChanges d @ bs,
         d_PositionChanges := d_PositionChanges d @ ps, d_Events := d_Events d @ es\<rparr>"
proof -
  obtain s1 j cr where a: "positionForFill X s order (ts_fills s ! i) = Inr (s1, j, cr)"
    using assms unfolding apply_fill_def and_then_Inr_iff by (metis prod_cases3)
  let ?r = "if cr then Inr (ts_positions s1 ! j, (ts_fills s1 ! i)\<lparr>fi_positionEffect := PositionEffectOpen\<rparr>)
       else applyFillToPosition X (ts_positions s1 ! j) (ts_fills s1 ! i)"
  obtain p f where b: "?r = Inr (p, f)"
    using assms unfolding apply_fill_def a and_then_simps prod.case
    by (cases ?r) (simp_all only: and_then_simps, simp, metis prod.collapse)
  let ?f = "f\<lparr>fi_positionID := po_positionID p\<rparr>"
  let ?s2 = "s1\<lparr>ts_fills := (ts_fills s1)[i := ?f], ts_positions := (ts_positions s1)[j := p]\<rparr>"
  obtain p' where c: "refreshPositionMargin X ?s2 p = Inr p'"
    using assms by (auto simp: apply_fill_def a b Let_def)
  obtain t' ch where e: "settle_fill X (s1\<lparr>ts_fills := (ts_fills s1)[i := ?f],
       ts_positions := (ts_positions s1)[j := p'\<lparr>po_version := po_version p' + 1\<rparr>]\<rparr>)
       (po_accountID p') ?f = Inr (t', ch)"
    using assms by (auto simp: apply_fill_def a b c Let_def)
  have "t' = t \<and> (\<exists>bs ps es. d' = d\<lparr>d_BalanceChanges := d_BalanceChanges d @ bs,
       d_PositionChanges := d_PositionChanges d @ ps, d_Events := d_Events d @ es\<rparr>)"
  proof (cases ch)
    case True
    then show ?thesis using assms
      by (auto simp: apply_fill_def a b c e Let_def split: option.splits)
  next
    case False
    show ?thesis using assms
      by (intro conjI, simp add: apply_fill_def a b c e Let_def False)
        (rule exI [of _ "[]"], auto simp: apply_fill_def a b c e Let_def False)
  qed
  with a b c e that show thesis by blast
qed

lemma apply_fill_step:
  assumes "apply_fill X order input i s d = Inr (t, d')" "n \<le> i"
  shows "exec_step n (s, d) (t, d') \<and> length (ts_fills t) = length (ts_fills s) \<and> ts_orders t = ts_orders s
    \<and> d_Fills d' = d_Fills d"
  using assms(1)
proof (rule apply_fill_cases)
  fix s1 j cr p f p' ch
  assume a: "positionForFill X s order (ts_fills s ! i) = Inr (s1, j, cr)"
    and b: "(if cr then Inr (ts_positions s1 ! j, (ts_fills s1 ! i)\<lparr>fi_positionEffect := PositionEffectOpen\<rparr>)
         else applyFillToPosition X (ts_positions s1 ! j) (ts_fills s1 ! i)) = Inr (p, f)"
    and c: "refreshPositionMargin X (s1\<lparr>ts_fills := (ts_fills s1)[i := f\<lparr>fi_positionID := po_positionID p\<rparr>],
         ts_positions := (ts_positions s1)[j := p]\<rparr>) p = Inr p'"
    and e: "settle_fill X (s1\<lparr>ts_fills := (ts_fills s1)[i := f\<lparr>fi_positionID := po_positionID p\<rparr>],
         ts_positions := (ts_positions s1)[j := p'\<lparr>po_version := po_version p' + 1\<rparr>]\<rparr>)
         (po_accountID p') (f\<lparr>fi_positionID := po_positionID p\<rparr>) = Inr (t, ch)"
    and g: "\<exists>bs ps es. d' = d\<lparr>d_BalanceChanges := d_BalanceChanges d @ bs,
         d_PositionChanges := d_PositionChanges d @ ps, d_Events := d_Events d @ es\<rparr>"
  note pf = positionForFill_frame [OF a]
  let ?s2 = "s1\<lparr>ts_fills := (ts_fills s1)[i := f\<lparr>fi_positionID := po_positionID p\<rparr>]\<rparr>"
  let ?s3 = "?s2\<lparr>ts_positions := (ts_positions ?s2)[j := p'\<lparr>po_version := po_version p' + 1\<rparr>]\<rparr>"
  have "position_evolves (ts_positions s1 ! j) p"
    using b by (auto split: if_splits dest: applyFillToPosition_evolves)
  then have pe: "position_evolves (ts_positions s1 ! j) (p'\<lparr>po_version := po_version p' + 1\<rparr>)"
    using refreshPositionMargin_evolves [OF c] by (simp add: position_evolves_def)
  have "exec_frame n s1 ?s2" by (rule exec_frame_fills [OF assms(2)])
  moreover have "exec_frame n ?s2 ?s3" using pe by (intro exec_frame_position) simp
  moreover have "exec_frame n ?s3 t" using settle_fill_frame [OF e] by simp
  ultimately have "exec_frame n s t" using pf by (blast intro: exec_frame_trans)
  moreover have "decision_grows d d'"
  proof -
    obtain bs ps es where "d' = d\<lparr>d_BalanceChanges := d_BalanceChanges d @ bs,
         d_OrderChanges := d_OrderChanges d @ [], d_Fills := d_Fills d @ [],
         d_PositionChanges := d_PositionChanges d @ ps, d_Events := d_Events d @ es\<rparr>"
      using g by auto
    then show ?thesis unfolding decision_grows_def by blast
  qed
  moreover have "length (ts_fills t) = length (ts_fills s) \<and> ts_orders t = ts_orders s"
    using settle_fill_frame [OF e] pf by simp
  moreover have "d_Fills d' = d_Fills d" using g by auto
  ultimately show ?thesis by (simp add: exec_step_def)
qed

lemma apply_fills_step:
  assumes "apply_fills X order input is s d = (r, d')" "\<forall>i \<in> set is. n \<le> i"
  shows "decision_grows d d' \<and> d_Fills d' = d_Fills d \<and> (\<forall>t. r = Inr t \<longrightarrow> exec_frame n s t
    \<and> length (ts_fills t) = length (ts_fills s) \<and> ts_orders t = ts_orders s)"
  using assms
proof (induction "is" arbitrary: s d)
  case (Cons i "is")
  show ?case
  proof (cases "apply_fill X order input i s d")
    case (Inr q)
    obtain s1 d1 where q: "q = (s1, d1)" by (cases q)
    have st: "exec_step n (s, d) (s1, d1) \<and> length (ts_fills s1) = length (ts_fills s) \<and> ts_orders s1 = ts_orders s
      \<and> d_Fills d1 = d_Fills d"
      using apply_fill_step Inr q Cons.prems(2) by auto
    have "decision_grows d1 d' \<and> d_Fills d' = d_Fills d1 \<and> (\<forall>t. r = Inr t \<longrightarrow> exec_frame n s1 t
      \<and> length (ts_fills t) = length (ts_fills s1) \<and> ts_orders t = ts_orders s1)"
      by (rule Cons.IH) (use Cons.prems Inr q in simp_all)
    with st show ?thesis by (auto simp: exec_step_def intro: exec_frame_trans decision_grows_trans)
  qed (use Cons.prems in auto)
qed auto

lemma applyFillsToPositions_step:
  assumes "applyFillsToPositions X s order n input d = (r, d')"
  shows "decision_grows d d' \<and> d_Fills d' = d_Fills d \<and> (\<forall>t. r = Inr t \<longrightarrow> exec_frame n s t
    \<and> length (ts_fills t) = length (ts_fills s) \<and> ts_orders t = ts_orders s)"
  using assms apply_fills_step unfolding applyFillsToPositions_def by (metis atLeastLessThan_iff set_upt)

lemma set_order_simps [simp]:
  "ts_orders (set_order s i order) = (ts_orders s)[i := order]" "ts_fills (set_order s i order) = ts_fills s"
  "ts_positions (set_order s i order) = ts_positions s" "ts_books (set_order s i order) = ts_books s"
  "ts_instruments (set_order s i order) = ts_instruments s" "ts_balances (set_order s i order) = ts_balances s"
  "ts_accounts (set_order s i order) = ts_accounts s" "ts_risks (set_order s i order) = ts_risks s"
  by (simp_all add: set_order_def)

lemma match_candidate_step:
  assumes "match_candidate X s input oi book d = (r, d')"
    and "oi < length (ts_orders s)" "active_status (or_status (ts_orders s ! oi))"
  shows "decision_grows d d' \<and> d_Fills d' = d_Fills d \<and> (\<forall>t. r = Some t \<longrightarrow> exec_frame (length (ts_fills s)) s t
    \<and> (\<exists>f a h. ts_orders t ! oi = (ts_orders s ! oi)\<lparr>or_filledQuantity := f, or_averagePrice := a, or_hasAverage := h\<rparr>))"
proof -
  let ?n = "length (ts_fills s)" and ?o = "ts_orders s ! oi"
  let ?pb = "\<lparr>bo_instrumentID = bo_instrumentID book, bo_markPrice = zeroPrice,
            bo_hasMark = False, bo_bids = bo_bids book, bo_asks = bo_asks book\<rparr>"
  show ?thesis
  proof (cases "matchOrder X ?pb ?o input (ts_fills s)")
    case None
    then show ?thesis using assms(1) by (auto simp: match_candidate_def Let_def)
  next
    case (Some q)
    obtain pb order fills where q: "q = (pb, order, fills)" by (cases q)
    note m = matchOrder_shape [OF Some [unfolded q]]
    obtain f new where o: "order = ?o\<lparr>or_filledQuantity := f\<rparr>" and fl: "fills = ts_fills s @ new" using m by blast
    let ?c = "set_order (s\<lparr>ts_fills := fills\<rparr>) oi order"
    have oe: "order_evolves ?o (?o\<lparr>or_filledQuantity := f, or_averagePrice := a, or_hasAverage := h\<rparr>)" for f a h
      using assms(3) by (simp add: order_evolves_def)
    have f1: "exec_frame ?n s (s\<lparr>ts_fills := fills\<rparr>)" by (simp add: exec_frame_def grows_refl fl)
    have c: "exec_frame ?n s ?c"
      by (rule exec_frame_trans [OF f1 exec_frame_set_order])
        (use oe [where f = f and a = "or_averagePrice ?o" and h = "or_hasAverage ?o"] in \<open>simp add: o\<close>)
    show ?thesis
    proof (cases "length fills \<le> ?n")
      case True
      then have "r = Some ?c \<and> d' = d" using assms(1) Some q by (simp add: match_candidate_def Let_def)
      moreover have "ts_orders ?c ! oi = ?o\<lparr>or_filledQuantity := f, or_averagePrice := or_averagePrice ?o,
          or_hasAverage := or_hasAverage ?o\<rparr>" using assms(2) o by simp
      ultimately show ?thesis using c by (metis decision_grows_refl option.inject)
    next
      case False
      show ?thesis
      proof (cases "r")
        case None
        then show ?thesis using assms(1) Some q False applyFillsToPositions_step
          by (auto simp: match_candidate_def Let_def split: sum.splits prod.splits)
      next
        case (Some t)
        with assms(1) \<open>matchOrder X ?pb ?o input (ts_fills s) = Some q\<close> q False obtain c1 av where
          a: "applyTradingFees X ?c order ?n = Inr c1"
          and ap: "applyFillsToPositions X (set_order c1 oi (order\<lparr>or_averagePrice := av, or_hasAverage := True\<rparr>))
             (order\<lparr>or_averagePrice := av, or_hasAverage := True\<rparr>) ?n input d = (Inr t, d')"
          by (auto simp: match_candidate_def Let_def split: sum.splits prod.splits)
        let ?o2 = "order\<lparr>or_averagePrice := av, or_hasAverage := True\<rparr>"
        have af: "exec_frame ?n ?c c1" using applyTradingFees_frame [OF a] by (simp add: fl)
        have oc1: "ts_orders c1 = ts_orders ?c"
          using a by (auto simp: applyTradingFees_def Let_def split: option.splits)
        have "order_evolves (ts_orders c1 ! oi) ?o2"
          using assms(2,3) by (simp add: oc1 o order_evolves_def)
        then have sf: "exec_frame ?n c1 (set_order c1 oi ?o2)" by (intro exec_frame_set_order)
        note pp = applyFillsToPositions_step [OF ap]
        have "exec_frame ?n s t" using c af sf pp by (blast intro: exec_frame_trans)
        moreover have "ts_orders t ! oi = ?o\<lparr>or_filledQuantity := f, or_averagePrice := av, or_hasAverage := True\<rparr>"
          using pp assms(2) by (simp add: oc1 o)
        ultimately show ?thesis using pp Some by blast
      qed
    qed
  qed
qed

section \<open>Execution\<close>

lemma exec_step_trans: "exec_step n a b \<Longrightarrow> exec_step n b c \<Longrightarrow> exec_step n a c"
  by (rule exec.R_trans)

lemma grows_nth: "grows R xs ys \<Longrightarrow> i < length xs \<Longrightarrow> R (xs ! i) (ys ! i)"
  by (simp add: grows_def)

lemma finish_execution_step:
  assumes "oi < length (ts_orders s)" "active_status (or_status (ts_orders s ! oi))"
  shows "exec_step n (s, d) (finish_execution X s input oi b start d)"
proof -
  let ?o = "ts_orders s ! oi"
  let ?o1 = "?o\<lparr>or_status := executed_status X ?o\<rparr>"
  let ?o2 = "if orderExecutionChanged X b ?o1 (start < length (ts_fills s))
      then ?o1\<lparr>or_version := or_version ?o1 + 1\<rparr> else ?o1"
  let ?s = "set_order s oi ?o2"
  have "exec_frame n s ?s" using assms(2) by (intro exec_frame_set_order) (simp add: order_evolves_def)
  then have 1: "exec_step n (s, d) (?s, d)" by (simp add: exec_step_def)
  obtain s1 d1 where r1: "reconcileBracketAfterExecution X ?s oi input d = (s1, d1)" by fastforce
  obtain s2 d2 where r2: "reconcilePositionProtection X s1 input d1 = (s2, d2)" by fastforce
  have "exec_step n (?s, d) (s1, d1)" using reconcile_evolves(3) r1 by metis
  moreover have "exec_step n (s1, d1) (s2, d2)" using reconcile_evolves(4) r2 by metis
  moreover have "exec_step n (s2, d2) (s2, d2\<lparr>d_Fills := d_Fills d2 @ fs\<rparr>)" for fs
  proof -
    have "d2\<lparr>d_Fills := d_Fills d2 @ fs\<rparr> = d2\<lparr>d_BalanceChanges := d_BalanceChanges d2 @ [],
       d_OrderChanges := d_OrderChanges d2 @ [], d_Fills := d_Fills d2 @ fs,
       d_PositionChanges := d_PositionChanges d2 @ [], d_Events := d_Events d2 @ []\<rparr>" by simp
    then have "decision_grows d2 (d2\<lparr>d_Fills := d_Fills d2 @ fs\<rparr>)" unfolding decision_grows_def by blast
    then show ?thesis by (simp add: exec_step_def)
  qed
  ultimately show ?thesis using 1
    by (simp add: finish_execution_def Let_def r1 r2) (blast intro: exec_step_trans)
qed

lemma executeOrder_clamped:
  assumes "(if or_reduceOnly (ts_orders s ! oi) then clampReduceOnlyOrder X s (ts_orders s ! oi)
    else (RejectionNone, ts_orders s ! oi)) = (cl, order)"
  shows "executeOrder X s input oi d = (if cl \<noteq> RejectionNone
      then (RejectionNone, set_order (set_order s oi order) oi (cancelled order), d)
      else case find_book (set_order s oi order) (ir_id (or_instrument order)) of
        None \<Rightarrow> (if or_orderType order = OrderTypeMarket then RejectionInsufficientMarket else RejectionNone, s, d)
      | Some book \<Rightarrow>
          if (if requires_full_fill order then bookFillability X book order else RejectionNone) \<noteq> RejectionNone
          then (if or_timeInForce order = TimeInForceFOK
                then (RejectionNone, set_order (set_order s oi order) oi (cancelled order), d)
                else ((if requires_full_fill order then bookFillability X book order else RejectionNone), s, d))
          else case match_candidate X (set_order s oi order) input oi book d of
              (None, d) \<Rightarrow> (RejectionInvalidOrder, s, d)
            | (Some matched, d) \<Rightarrow>
                let (final, d) = finish_execution X matched input oi (ts_orders s ! oi) (length (ts_fills s)) d in (RejectionNone, final, d))"
  unfolding executeOrder_def Let_def assms prod.case by (rule refl)

lemma executeOrder_step:
  assumes "executeOrder X s input oi d = (reason, t, d')"
    and "oi < length (ts_orders s)" "active_status (or_status (ts_orders s ! oi))"
  shows "exec_frame (length (ts_fills s)) s t \<and> decision_grows d d' \<and> (reason \<noteq> RejectionNone \<longrightarrow> t = s)"
proof -
  let ?b = "ts_orders s ! oi"
  obtain cl order where co: "(if or_reduceOnly ?b then clampReduceOnlyOrder X s ?b else (RejectionNone, ?b)) = (cl, order)"
    by fastforce
  have oe: "order_evolves ?b order" "or_status order = or_status ?b"
    using co assms(3) clamp_evolves(1) [of ?b X s] clamp_evolves(2) [of X s ?b] by (auto split: if_splits)
  let ?c = "set_order s oi order"
  let ?n = "length (ts_fills s)"
  have c: "exec_frame ?n s ?c" using oe by (intro exec_frame_set_order)
  have cc: "exec_frame ?n s (set_order ?c oi (cancelled order))"
    using c by (rule exec_frame_trans) (intro exec_frame_set_order, use oe assms(2,3) in \<open>auto intro!: cancelled_evolves\<close>)
  note simps = executeOrder_clamped [OF co, of input d]
  show ?thesis
  proof (cases "cl = RejectionNone \<and> (\<exists>book. find_book ?c (ir_id (or_instrument order)) = Some book
      \<and> (if requires_full_fill order then bookFillability X book order else RejectionNone) = RejectionNone)")
    case True
    then obtain book where bk: "find_book ?c (ir_id (or_instrument order)) = Some book"
      "(if requires_full_fill order then bookFillability X book order else RejectionNone) = RejectionNone" by blast
    obtain r d1 where mc: "match_candidate X ?c input oi book d = (r, d1)" by fastforce
    have ms: "decision_grows d d1 \<and> d_Fills d1 = d_Fills d \<and> (\<forall>t. r = Some t \<longrightarrow> exec_frame (length (ts_fills ?c)) ?c t
      \<and> (\<exists>f a h. ts_orders t ! oi = (ts_orders ?c ! oi)\<lparr>or_filledQuantity := f, or_averagePrice := a, or_hasAverage := h\<rparr>))"
      by (rule match_candidate_step [OF mc]) (use assms(2,3) oe in simp_all)
    show ?thesis
    proof (cases r)
      case None
      then show ?thesis using assms(1) True bk mc ms by (simp add: simps)
    next
      case (Some m)
      obtain f d2 where fe: "finish_execution X m input oi ?b ?n d1 = (f, d2)" by fastforce
      have m: "exec_frame ?n ?c m" "or_status (ts_orders m ! oi) = or_status ?b"
        using ms Some assms(2) oe by auto
      have ml: "oi < length (ts_orders m)" using m(1) assms(2) by (simp add: exec_frame_def)
      have "exec_step ?n (m, d1) (f, d2)"
        using finish_execution_step [OF ml] m(2) assms(3) fe by metis
      moreover have "t = f \<and> d' = d2 \<and> reason = RejectionNone"
        using assms(1) True bk mc Some fe by (simp add: simps)
      ultimately show ?thesis using m(1) c ms
        by (auto simp: exec_step_def intro: exec_frame_trans decision_grows_trans)
    qed
  next
    case False
    then show ?thesis using assms(1) cc by (auto simp: simps split: if_splits option.splits)
  qed
qed

lemma activate_frame:
  assumes "activateOrderIfReady X s i input = (r, tr, t)" "i < length (ts_orders s) \<Longrightarrow> active_status (or_status (ts_orders s ! i))"
  shows "exec_frame n s t \<and> ts_fills t = ts_fills s
    \<and> (i < length (ts_orders s) \<longrightarrow> or_status (ts_orders t ! i) = or_status (ts_orders s ! i))
    \<and> (\<exists>order. t = set_order s i order)"
proof -
  have "s = set_order s i (ts_orders s ! i)" by (simp add: set_order_def)
  then have e: "\<exists>order. s = set_order s i order" by blast
  show ?thesis using assms e
    by (auto simp: activateOrderIfReady_def Let_def order_evolves_def split: if_splits intro!: exec_frame_set_order)
qed

lemma resting_active: "resting_status s \<Longrightarrow> active_status s"
  by (auto simp: resting_status_def active_status_def)

lemma exec_frame_status_len: "exec_frame n s t \<Longrightarrow> length (ts_orders t) = length (ts_orders s)"
  by (simp add: exec_frame_def)

lemma rejected_evolves: "active_status (or_status a) \<Longrightarrow> order_evolves a (rejected_order r a)"
  by (simp add: order_evolves_def rejected_order_def)

lemma exec_frame_mono: "exec_frame n s t \<Longrightarrow> m \<le> n \<Longrightarrow> exec_frame m s t"
  by (auto simp: exec_frame_def) (metis min.absorb1 take_take)

lemma match_working_step_evolves:
  assumes "i < length (ts_orders (fst sd))" "n \<le> length (ts_fills (fst sd))"
  shows "exec_step n sd (match_working_step X input iid sd i)"
proof -
  obtain s d where sd: "sd = (s, d)" by (cases sd)
  let ?o = "ts_orders s ! i"
  show ?thesis
  proof (cases "ir_id (or_instrument ?o) \<noteq> iid \<or> \<not> resting_status (or_status ?o)")
    case True
    then show ?thesis by (simp add: sd match_working_step_def)
  next
    case False
    then have ac: "active_status (or_status ?o)" by (simp add: resting_active)
    obtain r tr s1 where a: "activateOrderIfReady X s i input = (r, tr, s1)" by (cases "activateOrderIfReady X s i input")
    note af = activate_frame [OF a, of n]
    have s1: "exec_frame n s s1" "ts_fills s1 = ts_fills s" "i < length (ts_orders s1)"
      "active_status (or_status (ts_orders s1 ! i))"
      using af ac assms sd exec_frame_status_len by auto
    obtain reason s2 d2 where ex: "executeOrder X s1 input i d = (reason, s2, d2)" by (cases "executeOrder X s1 input i d")
    note es = executeOrder_step [OF ex s1(3,4)]
    have s2: "exec_frame n s1 s2" using es exec_frame_mono s1(2) assms(2) sd by auto
    have rj: "exec_frame n s1 (set_order s1 i (rejected_order reason (ts_orders s1 ! i)))"
      using s1 by (intro exec_frame_set_order rejected_evolves)
    show ?thesis
      using False s1(1) s2 rj es exec_frame_trans [OF s1(1) s2] exec_frame_trans [OF s1(1) rj]
      by (auto simp: sd match_working_step_def a ex exec_step_def Let_def intro: decision_grows_trans [OF _ decision_grows_append])
  qed
qed

lemma matchWorkingOrders_step:
  "exec_step (length (ts_fills s)) (s, d) (matchWorkingOrders X s input iid d)"
  unfolding matchWorkingOrders_def
proof (rule exec.fold_evolves)
  fix t i
  assume "i \<in> set [0..<length (ts_orders s)]" "exec_step (length (ts_fills s)) (s, d) t"
  then show "exec_step (length (ts_fills s)) t (match_working_step X input iid t i)"
    by (intro match_working_step_evolves) (auto simp: exec_step_def exec_frame_def)
qed simp

lemma rest_order_step: "exec_step n (s, d) (rest_order X input i s d)"
proof -
  let ?o = "ts_orders s ! i"
  have "exec_frame n s (set_order s i (?o\<lparr>or_hasRested := True\<rparr>))" if "orderCanRest ?o"
    using that by (intro exec_frame_set_order) (auto simp: order_evolves_def orderCanRest_def active_status_def)
  then show ?thesis by (simp add: rest_order_def Let_def exec_step_def)
qed

section \<open>Rejections\<close>

lemma accepted_result [simp]: "cmd_Status (d_CommandResult acceptedDecision) = CommandStatusAccepted"
  by (simp add: acceptedDecision_def)

lemma grown_accepted: "decision_grows acceptedDecision d \<Longrightarrow> cmd_Status (d_CommandResult d) = CommandStatusAccepted"
  by (simp add: decision_grows_result)

lemma rejected_effects [simp]: "no_effects (rejectedDecision r)"
  "cmd_Status (d_CommandResult (rejectedDecision r)) = CommandStatusRejected"
  "cmd_Reason (d_CommandResult (rejectedDecision r)) = r"
  by (simp_all add: rejectedDecision_def no_effects_def zeroDecision_def)

text \<open>A rejected decision other than for slippage: nothing changed, nothing recorded.\<close>

definition clean_rejection :: "State \<Rightarrow> State \<times> Decision \<Rightarrow> bool" where
  "clean_rejection s sd = (cmd_Status (d_CommandResult (snd sd)) = CommandStatusRejected \<longrightarrow>
     fst sd = s \<and> no_effects (snd sd) \<and> snd sd = rejectedDecision (cmd_Reason (d_CommandResult (snd sd))))"

lemma clean_rejected [simp]: "clean_rejection s (rejectedTradingDecision s r)"
  by (simp add: clean_rejection_def rejectedTradingDecision_def)

lemma clean_accepted [simp]: "clean_rejection s (acceptedTradingDecision s)"
  by (simp add: clean_rejection_def acceptedTradingDecision_def)

lemma clean_grown: "decision_grows acceptedDecision d \<Longrightarrow> clean_rejection s (t, d)"
  by (simp add: clean_rejection_def grown_accepted)

lemma accepted_updates [simp]:
  "cmd_Status (d_CommandResult (acceptedDecision\<lparr>d_InstrumentChanges := a\<rparr>)) = CommandStatusAccepted"
  "cmd_Status (d_CommandResult (acceptedDecision\<lparr>d_AccountChanges := b\<rparr>)) = CommandStatusAccepted"
  "cmd_Status (d_CommandResult (acceptedDecision\<lparr>d_RiskChanges := c\<rparr>)) = CommandStatusAccepted"
  "cmd_Status (d_CommandResult (acceptedDecision\<lparr>d_BalanceChanges := e\<rparr>)) = CommandStatusAccepted"
  by (simp_all add: acceptedDecision_def)

lemma configure_clean:
  "clean_rejection s (configureTradingInstrument X s ci)" "clean_rejection s (configureTradingAccount s ca)"
  "clean_rejection s (configureTradingRisk X s cr)" "clean_rejection s (adjustTradingBalance X s ab)"
  by (auto simp: configureTradingInstrument_def configureTradingAccount_def configureTradingRisk_def
    adjustTradingBalance_def split: option.split sum.split) (simp_all add: clean_rejection_def)

lemma settle_positions_result:
  "settle_positions X input sf im o' r ps t d q = Inr (t', d') \<Longrightarrow> d_CommandResult d' = d_CommandResult d"
proof (induction ps arbitrary: t d q)
  case (Cons p ps)
  then show ?case
    by (auto simp: fund_position_def Let_def split: if_splits sum.splits option.splits prod.splits)
qed simp

lemma settle_clean: "clean_rejection s (settleTradingFunding X s input sf)"
  by (auto simp: settleTradingFunding_def Let_def split: option.split sum.split)
    (auto simp: clean_rejection_def dest: settle_positions_result)

lemma book_clean: "clean_rejection s (updateTradingBook X s input ub)"
proof -
  have "cmd_Status (d_CommandResult (d\<lparr>d_BookChanges := b\<rparr>)) = CommandStatusAccepted"
    if "matchWorkingOrders X u input iid acceptedDecision = (t, d)" for u iid t d b
    using matchWorkingOrders_step [of u acceptedDecision X input iid] that
    by (auto simp: exec_step_def dest: grown_accepted)
  then show ?thesis
    by (auto simp: updateTradingBook_def Let_def clean_rejection_def rejectedTradingDecision_def
      split: option.split sum.split prod.split)
qed

lemma liquidate_positions_step:
  "liquidate_positions X input q cs t d = Inr (t', d') \<Longrightarrow> decision_grows d d'
    \<and> grows order_evolves (ts_orders t) (ts_orders t') \<and> (\<exists>fs. ts_fills t' = ts_fills t @ fs)
    \<and> grows position_evolves (ts_positions t) (ts_positions t')
    \<and> ts_settlements t' = ts_settlements t \<and> ts_funding t' = ts_funding t
    \<and> ts_currencyScales t' = ts_currencyScales t"
proof (induction cs arbitrary: q t d)
  case Nil
  then show ?case by (simp add: grows_refl)
next
  case (Cons c cs)
  let ?p = "ts_positions t ! lc_index c"
  let ?id = "IDFromSequence (in_InputID input) (liquidationSequence q)"
  from Cons.prems obtain z where z: "NewQuantity X ''0'' (po_instrument ?p) = Inr z"
    by (auto simp: Let_def split: if_splits sum.splits)
  let ?o = "liquidation_order ?id ?p z"
  let ?t = "t\<lparr>ts_orders := ts_orders t @ [?o]\<rparr>"
  obtain r t1 d1 where e: "executeOrder X ?t input (length (ts_orders t)) d = (r, t1, d1)"
    by (cases "executeOrder X ?t input (length (ts_orders t)) d")
  have es: "exec_frame (length (ts_fills ?t)) ?t t1 \<and> decision_grows d d1 \<and> (r \<noteq> RejectionNone \<longrightarrow> t1 = ?t)"
    by (rule executeOrder_step [OF e]) (simp_all add: liquidation_order_def base_order_def active_status_def)
  let ?d2 = "appendOrderTransition d1 input (order_snapshot X (ts_orders t1 ! length (ts_orders t)))"
  from Cons.prems z e have rest: "liquidate_positions X input (q + 1) cs t1 ?d2 = Inr (t', d')"
    by (auto simp: Let_def split: if_splits)
  note ih = Cons.IH [OF rest]
  have "decision_grows d d'" using es ih by (blast intro: decision_grows_trans decision_grows_append)
  moreover have "grows order_evolves (ts_orders t) (ts_orders t')"
  proof (rule grows_trans [OF order_evolves_trans])
    show "grows order_evolves (ts_orders t) (ts_orders ?t)" by (simp add: grows_append)
    show "grows order_evolves (ts_orders ?t) (ts_orders t')"
      using es ih by (auto simp: exec_frame_def intro: grows_trans [OF order_evolves_trans])
  qed
  moreover have "\<exists>fs. ts_fills t1 = ts_fills t @ fs"
    using es by (auto simp: exec_frame_def) (metis append_take_drop_id)
  moreover have "grows position_evolves (ts_positions t) (ts_positions t')"
    using es ih by (auto simp: exec_frame_def intro: grows_trans [OF position_evolves_trans])
  ultimately show ?case using es ih by (auto simp: exec_frame_def)
qed

lemma liquidate_clean: "clean_rejection s (liquidateTradingAccount X s input la)"
  by (auto simp: liquidateTradingAccount_def split: option.split sum.split)
    (auto dest!: liquidate_positions_step intro: clean_grown)

lemma run_order_step:
  assumes "run_order X s input i = (reason, t, d)" "i < length (ts_orders s)"
    "active_status (or_status (ts_orders s ! i))"
  shows "exec_frame (length (ts_fills s)) s t" "decision_grows acceptedDecision d"
    "reason \<noteq> RejectionNone \<Longrightarrow> \<exists>order. t = set_order s i order"
proof -
  obtain r tr s1 where a: "activateOrderIfReady X s i input = (r, tr, s1)" by (cases "activateOrderIfReady X s i input")
  note af = activate_frame [OF a, of "length (ts_fills s)"]
  have s1: "i < length (ts_orders s1)" "active_status (or_status (ts_orders s1 ! i))" "ts_fills s1 = ts_fills s"
    using af assms(2,3) by (auto simp: exec_frame_def)
  have "exec_frame (length (ts_fills s)) s t \<and> decision_grows acceptedDecision d
      \<and> (reason \<noteq> RejectionNone \<longrightarrow> (\<exists>order. t = set_order s i order))"
  proof (cases r)
    case True
    then have e: "executeOrder X s1 input i acceptedDecision = (reason, t, d)"
      using assms(1) by (simp add: run_order_def a)
    from executeOrder_step [OF e s1(1,2)] af assms(2,3) s1(3) show ?thesis
      by (auto intro: exec_frame_trans)
  next
    case False
    then show ?thesis using assms af by (auto simp: run_order_def a)
  qed
  then show "exec_frame (length (ts_fills s)) s t" "decision_grows acceptedDecision d"
    "reason \<noteq> RejectionNone \<Longrightarrow> \<exists>order. t = set_order s i order" by auto
qed

lemma rest_order_grows: "rest_order X input i t d = (t', d') \<Longrightarrow> decision_grows d d' \<and> exec_frame n t t'"
  using rest_order_step [of n t d X input i] by (simp add: exec_step_def)

lemma run_rest_clean:
  assumes "i < length (ts_orders u)" "active_status (or_status (ts_orders u ! i))"
  shows "clean_rejection s (case run_order X u input i of (reason, trading, decision) \<Rightarrow>
     if reason \<noteq> RejectionNone then rejectedTradingDecision s reason
     else case rest_order X input i trading decision of (trading, decision) \<Rightarrow> (with_trading s trading, decision))"
proof -
  obtain reason t d where r: "run_order X u input i = (reason, t, d)" by (cases "run_order X u input i")
  obtain t' d' where q: "rest_order X input i t d = (t', d')" by fastforce
  have "decision_grows acceptedDecision d'"
    using run_order_step(2) [OF r assms] rest_order_grows [OF q] decision_grows_trans by blast
  then show ?thesis by (simp add: r q clean_grown)
qed

lemma amend_clean: "clean_rejection s (amendTradingOrder X s input ao)"
proof (cases "orderIndex (st_trading s) (ao_OrderID ao)")
  case None
  then show ?thesis by (simp add: amendTradingOrder_def)
next
  case (Some i)
  then have i: "i < length (ts_orders (st_trading s))" by (simp add: orderIndex_def first_index_bound)
  let ?c = "ts_orders (st_trading s) ! i"
  have "clean_rejection s (case run_order X (set_order (st_trading s) i (?c\<lparr>or_hasRested := False,
      or_quantity := q, or_price := p, or_hasPrice := True, or_version := v\<rparr>)) input i of
        (reason, trading, decision) \<Rightarrow> if reason \<noteq> RejectionNone then rejectedTradingDecision s reason
          else (case rest_order X input i trading decision of (trading, decision) \<Rightarrow> (with_trading s trading, decision)))"
    if "resting_status (or_status ?c)" for q p v
    by (rule run_rest_clean) (use that i in \<open>simp_all add: resting_active\<close>)
  then show ?thesis
    unfolding amendTradingOrder_def Let_def by (simp add: Some split: sum.split)
qed

lemma cancel_clean: "clean_rejection s (cancelTradingOrder X s input co)"
proof (cases "orderIndex (st_trading s) (co_OrderID co)")
  case None
  then show ?thesis by (simp add: cancelTradingOrder_def)
next
  case (Some i)
  let ?c = "ts_orders (st_trading s) ! i"
  obtain t d where c: "cancel_at X input i ?c (st_trading s, acceptedDecision) = (t, d)" by fastforce
  have d: "decision_grows acceptedDecision d" using c by (auto simp: cancel_at_def)
  obtain t' d' where p: "cancelBracketProtection X t (or_bracketID ?c) input d = (t', d')" by fastforce
  have d': "decision_grows acceptedDecision d'"
    using reconcile_evolves(1) [of 0 t d X "or_bracketID ?c" input] p d
    by (auto simp: exec_step_def intro: decision_grows_trans)
  show ?thesis using d d' by (simp add: cancelTradingOrder_def Some Let_def c p clean_grown)
qed

lemma set_order_price_shape:
  "setOrderPrice X order t = Some order' \<Longrightarrow> \<exists>p. order' = order\<lparr>or_price := p, or_hasPrice := True\<rparr>"
  "setOrderTrigger X order t = Some order' \<Longrightarrow> \<exists>p. order' = order\<lparr>or_triggerPrice := p, or_hasTrigger := True\<rparr>"
  by (auto simp: setOrderPrice_def setOrderTrigger_def split: sum.splits if_splits)

lemma set_order_prices_shape:
  "set_order_prices X so order = Some order' \<Longrightarrow>
    \<exists>p hp t ht. order' = order\<lparr>or_price := p, or_hasPrice := hp, or_triggerPrice := t, or_hasTrigger := ht\<rparr>"
proof -
  assume "set_order_prices X so order = Some order'"
  then have "order' = order\<lparr>or_price := or_price order', or_hasPrice := or_hasPrice order',
      or_triggerPrice := or_triggerPrice order', or_hasTrigger := or_hasTrigger order'\<rparr>"
    by (auto simp: set_order_prices_def bind_eq_Some_conv split: OrderType.splits if_splits
      dest!: set_order_price_shape)
  then show ?thesis by blast
qed

lemma newOrderRecord_shape:
  assumes "newOrderRecord X instrument so = Some order"
  shows "or_orderID order = so_OrderID so \<and> or_accountID order = so_AccountID so
    \<and> or_instrument order = instrument \<and> or_status order = OrderStatusWorking \<and> or_version order = 1
    \<and> or_reduceOnly order = so_ReduceOnly so \<and> or_bracketID order = zeroID \<and> or_side order = so_Side so"
  using assms by (auto simp: newOrderRecord_def base_order_def Let_def
    split: sum.splits if_splits option.splits dest!: set_order_prices_shape)

lemma admitted_order_cases:
  assumes "admitted_order X t input so = Inr order"
  obtains instrument o1 sr where "find_instrument t (so_InstrumentID so) = Some instrument"
    "ir_revision instrument = in_InstrumentVersion input" "newOrderRecord X instrument so = Some o1"
    "clampReduceOnlyOrder X t (o1\<lparr>or_slippageReference := sr\<rparr>) = (RejectionNone, order)"
    "marginAdmissionReason X t order = RejectionNone" "orderIndex t (so_OrderID so) = None"
    "\<not> ID_IsZero (so_OrderID so)" "so_AccountID so \<noteq> ''''" "Side_valid (so_Side so)"
    "or_hasSlippageBand o1 \<longrightarrow> (\<exists>book. find_book t (so_InstrumentID so) = Some book \<and> bo_hasMark book \<and> sr = bo_markPrice book)"
proof -
  have self: "o1 = o1\<lparr>or_slippageReference := or_slippageReference o1\<rparr>" for o1 by simp
  have "\<exists>instrument o1 sr. find_instrument t (so_InstrumentID so) = Some instrument
    \<and> ir_revision instrument = in_InstrumentVersion input \<and> newOrderRecord X instrument so = Some o1
    \<and> clampReduceOnlyOrder X t (o1\<lparr>or_slippageReference := sr\<rparr>) = (RejectionNone, order)
    \<and> marginAdmissionReason X t order = RejectionNone \<and> orderIndex t (so_OrderID so) = None
    \<and> \<not> ID_IsZero (so_OrderID so) \<and> so_AccountID so \<noteq> '''' \<and> Side_valid (so_Side so)
    \<and> (or_hasSlippageBand o1 \<longrightarrow> (\<exists>book. find_book t (so_InstrumentID so) = Some book \<and> bo_hasMark book \<and> sr = bo_markPrice book))"
    using assms by (auto simp: admitted_order_def Let_def split: option.splits if_splits prod.splits)
      (metis self)+
  with that show thesis by blast
qed

lemma admitted_order_working:
  assumes "admitted_order X t input so = Inr order"
  shows "or_status order = OrderStatusWorking \<and> or_version order = 1 \<and> or_orderID order = so_OrderID so
    \<and> or_accountID order = so_AccountID so \<and> orderIndex t (so_OrderID so) = None"
  using assms
proof (rule admitted_order_cases)
  fix instrument o1 sr
  assume n: "newOrderRecord X instrument so = Some o1" and i: "orderIndex t (so_OrderID so) = None"
    and c: "clampReduceOnlyOrder X t (o1\<lparr>or_slippageReference := sr\<rparr>) = (RejectionNone, order)"
  from clamp_shape [of X t "o1\<lparr>or_slippageReference := sr\<rparr>"] c newOrderRecord_shape [OF n] i
  show ?thesis by auto
qed

text \<open>A slippage rejection: the rejected order is the only change.\<close>

definition slippage_rejection :: "State \<Rightarrow> State \<times> Decision \<Rightarrow> bool" where
  "slippage_rejection s sd = (\<exists>order. or_status order = OrderStatusRejected
     \<and> or_rejectReason order = RejectionSlippageExceeded
     \<and> fst sd = with_trading s ((st_trading s)\<lparr>ts_orders := ts_orders (st_trading s) @ [order]\<rparr>)
     \<and> d_CommandResult (snd sd) = \<lparr>cmd_Status = CommandStatusRejected, cmd_Reason = RejectionSlippageExceeded\<rparr>)"

text \<open>The four ways a submission ends.\<close>

lemma submit_cases:
  obtains (refused) reason where "submitTradingOrder X s input so = rejectedTradingDecision s reason"
  | (slippage) order t d where "admitted_order X (st_trading s) input so = Inr order"
      "submitTradingOrder X s input so = (with_trading s ((st_trading s)\<lparr>ts_orders := ts_orders (st_trading s)
         @ [rejected_order RejectionSlippageExceeded t]\<rparr>),
         appendOrderTransition (d\<lparr>d_CommandResult := \<lparr>cmd_Status = CommandStatusRejected, cmd_Reason = RejectionSlippageExceeded\<rparr>\<rparr>)
           input (order_snapshot X (rejected_order RejectionSlippageExceeded t)))"
      "run_order X ((st_trading s)\<lparr>ts_orders := ts_orders (st_trading s) @ [order]\<rparr>) input (length (ts_orders (st_trading s)))
         = (RejectionSlippageExceeded, (st_trading s)\<lparr>ts_orders := ts_orders (st_trading s) @ [t]\<rparr>, d)"
  | (accepted) order t d t' d' where "admitted_order X (st_trading s) input so = Inr order"
      "run_order X ((st_trading s)\<lparr>ts_orders := ts_orders (st_trading s) @ [order]\<rparr>) input (length (ts_orders (st_trading s)))
         = (RejectionNone, t, d)"
      "rest_order X input (length (ts_orders (st_trading s))) t d = (t', d')"
      "submitTradingOrder X s input so = (with_trading s t', d')"
proof (cases "admitted_order X (st_trading s) input so")
  case (Inl r)
  then show thesis by (intro refused) (simp add: submitTradingOrder_def)
next
  case (Inr order)
  let ?t = "st_trading s" and ?i = "length (ts_orders (st_trading s))"
  let ?u = "?t\<lparr>ts_orders := ts_orders ?t @ [order]\<rparr>"
  have u: "?i < length (ts_orders ?u)" "active_status (or_status (ts_orders ?u ! ?i))"
    using admitted_order_working [OF Inr] by (simp_all add: active_status_def)
  obtain reason t d where r: "run_order X ?u input ?i = (reason, t, d)" by (cases "run_order X ?u input ?i")
  obtain t' d' where q: "rest_order X input ?i t d = (t', d')" by fastforce
  show thesis
  proof (cases "reason = RejectionNone")
    case True
    then show thesis using accepted [OF Inr _ q] r by (simp add: submitTradingOrder_def Inr q Let_def)
  next
    case False
    then obtain o1 where "t = set_order ?u ?i o1" using run_order_step(3) [OF r u] by blast
    then have t: "t = ?t\<lparr>ts_orders := ts_orders ?t @ [o1]\<rparr>" by (simp add: set_order_def)
    show thesis
    proof (cases "reason = RejectionSlippageExceeded")
      case True
      then show thesis using r t
        by (intro slippage [OF Inr, of o1 d]) (simp_all add: submitTradingOrder_def Inr Let_def set_order_def)
    next
      case other: False
      then show thesis using False r t
        by (intro refused) (simp add: submitTradingOrder_def Inr Let_def removeLastTradingOrder_def)
    qed
  qed
qed

lemma submit_clean:
  "clean_rejection s (submitTradingOrder X s input so) \<or> slippage_rejection s (submitTradingOrder X s input so)"
proof (cases rule: submit_cases [of X s input so])
  case (slippage order t d)
  then show ?thesis unfolding slippage_rejection_def
    by (intro disjI2 exI [of _ "rejected_order RejectionSlippageExceeded t"]) (simp add: rejected_order_def appendOrderTransition_def)
next
  case (accepted order t d t' d')
  have "decision_grows acceptedDecision d"
    by (rule run_order_step(2) [OF accepted(2)])
      (use admitted_order_working [OF accepted(1)] in \<open>simp_all add: active_status_def\<close>)
  then have "decision_grows acceptedDecision d'"
    using rest_order_grows [OF accepted(3)] decision_grows_trans by blast
  then show ?thesis by (simp add: accepted(4) clean_grown)
qed simp

end
