(* ===== verification/EngineHash.thy ===== *)
theory EngineHash
  imports EngineText
begin

text \<open>
  Canonical hashes (\<open>hash.go\<close>). Every hash is SHA-256 of a byte string written field by field; a writer
  is modelled by the bytes it appends. The preimages are definitions of their own, because what
  makes a hash commit to a value is that its preimage determines the value.
\<close>

section \<open>Field writers\<close>

definition writeUint8 :: "u8 \<Rightarrow> bytes" where "writeUint8 v = [v]"

definition writeUint32 :: "u32 \<Rightarrow> bytes" where "writeUint32 v = PutUint32 v"

definition writeUint64 :: "u64 \<Rightarrow> bytes" where "writeUint64 v = PutUint64 v"

definition writeBytes :: "bytes \<Rightarrow> bytes" where
  "writeBytes v = writeUint64 (of_nat (length v)) @ v"

definition writeString :: "string \<Rightarrow> bytes" where "writeString s = writeBytes (string_bytes s)"

text \<open>\<open>binary.PutVarint\<close>: zig-zag, then seven bits per byte, the least significant first.\<close>

fun PutUvarint :: "nat \<Rightarrow> bytes" where
  "PutUvarint n = (if n < 128 then [of_nat n] else of_nat (n mod 128 + 128) # PutUvarint (n div 128))"

declare PutUvarint.simps [simp del]

definition zigzag :: "u64 \<Rightarrow> u64" where
  "zigzag v = (if sint v < 0 then not (push_bit 1 v) else push_bit 1 v)"

definition PutVarint :: "u64 \<Rightarrow> bytes" where "PutVarint v = PutUvarint (unat (zigzag v))"

definition writeInt64 :: "u64 \<Rightarrow> bytes" where "writeInt64 v = writeBytes (PutVarint v)"

definition boolByte :: "bool \<Rightarrow> u8" where "boolByte b = (if b then 1 else 0)"

definition write_list :: "('a \<Rightarrow> bytes) \<Rightarrow> 'a list \<Rightarrow> bytes" where
  "write_list w xs = writeUint64 (of_nat (length xs)) @ concat (map w xs)"

definition finishHash :: "bytes \<Rightarrow> Hash" where "finishHash written = sha256 written"

section \<open>Inputs\<close>

definition business_preimage :: "InputEnvelope \<Rightarrow> bytes" where
  "business_preimage input = writeString ''platformgo.engine.business-input.v1''
     @ writeBytes (in_InputID input) @ writeUint32 (in_SchemaVersion input)
     @ writeUint32 (in_ShardID input) @ writeUint8 (InputKind_byte (in_Kind input))
     @ writeString (in_SourceID input) @ writeUint64 (in_SourceSequence input)
     @ writeUint64 (in_MarketSequence input) @ writeInt64 (in_LogicalTime input)
     @ writeUint64 (in_ConfigurationVersion input) @ writeUint64 (in_InstrumentVersion input)
     @ writeBytes (in_Payload input)"

definition businessInputHashAtVersion :: "InputEnvelope \<Rightarrow> u32 \<Rightarrow> EngineError + Hash" where
  "businessInputHashAtVersion input version =
     (if version \<noteq> CurrentBusinessHashVersion then
        Inl \<lparr>err_Kind = ErrUnknownHashVersion, err_Sequence = in_StreamSequence input,
          err_Detail = ''business input hash version is not supported''\<rparr>
      else Inr (finishHash (business_preimage input)))"

definition hashBusinessInput :: "InputEnvelope \<Rightarrow> Hash" where
  "hashBusinessInput input =
     (case businessInputHashAtVersion input CurrentBusinessHashVersion of
        Inl _ \<Rightarrow> zeroHash | Inr h \<Rightarrow> h)"

definition input_preimage :: "InputEnvelope \<Rightarrow> bytes" where
  "input_preimage input = writeString ''platformgo.engine.input.v1''
     @ writeBytes (in_InputID input) @ writeUint32 (in_SchemaVersion input)
     @ writeUint32 (in_ShardID input) @ writeUint8 (InputKind_byte (in_Kind input))
     @ writeString (in_SourceID input) @ writeUint64 (in_SourceSequence input)
     @ writeUint64 (in_StreamSequence input) @ writeUint64 (in_MarketSequence input)
     @ writeInt64 (in_LogicalTime input) @ writeUint64 (in_ConfigurationVersion input)
     @ writeUint64 (in_InstrumentVersion input) @ writeBytes (in_Payload input)"

definition hashInputAtVersion :: "InputEnvelope \<Rightarrow> u32 \<Rightarrow> EngineError + Hash" where
  "hashInputAtVersion input version =
     (if version \<noteq> CurrentInputHashVersion then
        Inl \<lparr>err_Kind = ErrUnknownHashVersion, err_Sequence = in_StreamSequence input,
          err_Detail = ''input hash version is not supported''\<rparr>
      else Inr (finishHash (input_preimage input)))"

definition hashInput :: "InputEnvelope \<Rightarrow> Hash" where
  "hashInput input = (case hashInputAtVersion input CurrentInputHashVersion of
     Inl _ \<Rightarrow> zeroHash | Inr h \<Rightarrow> h)"

section \<open>Effects\<close>

definition write_instrument :: "InstrumentSnapshot \<Rightarrow> bytes" where
  "write_instrument i = writeString (is_InstrumentID i) @ writeUint64 (is_Revision i)
     @ writeUint8 (of_nat (is_PriceScale i)) @ writeUint8 (of_nat (is_QuantityScale i))
     @ writeString (is_SettlementCurrency i) @ writeUint8 (of_nat (is_SettlementCurrencyScale i))
     @ writeString (is_InitialMarginRate i) @ writeString (is_MaintenanceMarginRate i)
     @ writeString (is_MaxLeverage i) @ writeString (is_MakerFeeRate i)
     @ writeString (is_TakerFeeRate i)"

definition write_account :: "AccountSnapshot \<Rightarrow> bytes" where
  "write_account a = writeString (as_AccountID a) @ writeString (OmsMode_text (as_OmsMode a))"

definition write_risk :: "RiskSnapshot \<Rightarrow> bytes" where
  "write_risk r = writeString (rs_AccountID r) @ writeString (rs_InstrumentID r)
     @ writeString (MarginMode_text (rs_MarginMode r)) @ writeString (rs_Leverage r)"

definition write_balance :: "BalanceSnapshot \<Rightarrow> bytes" where
  "write_balance b = writeString (bs_AccountID b) @ writeString (bs_Currency b)
     @ writeString (bs_Total b) @ writeString (bs_Used b) @ writeString (bs_Free b)
     @ writeString (bs_Equity b)"

definition write_entry :: "LedgerEntrySnapshot \<Rightarrow> bytes" where
  "write_entry e = writeBytes (le_EntryID e) @ writeString (le_AccountID e)
     @ writeString (le_Currency e) @ writeString (le_Amount e)"

definition write_transaction :: "LedgerTransactionSnapshot \<Rightarrow> bytes" where
  "write_transaction t = writeBytes (lt_TransactionID t) @ writeString (lt_BusinessKey t)
     @ writeBytes (lt_InputID t) @ writeInt64 (lt_LogicalTime t) @ write_list write_entry (lt_Entries t)"

definition write_funding :: "FundingSnapshot \<Rightarrow> bytes" where
  "write_funding f = writeBytes (fs_FundingID f) @ writeBytes (fs_SettlementID f)
     @ writeBytes (fs_PositionID f) @ writeString (fs_AccountID f) @ writeString (fs_InstrumentID f)
     @ writeString (fs_SignedQuantity f) @ writeString (fs_OraclePrice f) @ writeString (fs_Rate f)
     @ writeString (fs_Amount f) @ writeString (fs_SettlementCurrency f)"

definition write_level :: "BookLevel \<Rightarrow> bytes" where
  "write_level l = writeString (bl_Price l) @ writeString (bl_Quantity l)"

definition writeBookLevels :: "BookLevel list \<Rightarrow> bytes" where
  "writeBookLevels levels = write_list write_level levels"

definition write_book :: "BookSnapshot \<Rightarrow> bytes" where
  "write_book b = writeString (bk_InstrumentID b) @ writeString (bk_MarkPrice b)
     @ writeBookLevels (bk_Bids b) @ writeBookLevels (bk_Asks b)"

definition write_order :: "OrderSnapshot \<Rightarrow> bytes" where
  "write_order order = writeBytes (os_OrderID order) @ writeString (os_AccountID order)
     @ writeString (os_InstrumentID order) @ writeString (Side_text (os_Side order))
     @ writeString (OrderType_text (os_Type order))
     @ writeString (TimeInForce_text (os_TimeInForce order))
     @ writeString (OrderStatus_text (os_Status order)) @ writeString (os_Quantity order)
     @ writeString (os_FilledQuantity order) @ writeString (os_AverageFillPrice order)
     @ writeString (os_Price order) @ writeString (os_TriggerPrice order)
     @ writeUint8 (boolByte (os_Triggered order)) @ writeInt64 (os_TriggeredAt order)
     @ writeUint8 (boolByte (os_ReduceOnly order)) @ writeBytes (os_PositionID order)
     @ writeBytes (os_BracketID order) @ writeString (BracketLeg_text (os_BracketLeg order))
     @ writeUint32 (os_BracketLegIndex order) @ writeUint8 (boolByte (os_HasRested order))
     @ writeUint8 (boolByte (os_HasSlippageBand order)) @ writeUint32 (os_MaxSlippageBPS order)
     @ writeString (os_SlippageReference order)
     @ writeString (RejectionReason_text (os_RejectReason order)) @ writeUint64 (os_Version order)"

definition write_fill :: "bool \<Rightarrow> FillSnapshot \<Rightarrow> bytes" where
  "write_fill includeEffectiveLeverage f = writeBytes (fl_FillID f) @ writeBytes (fl_OrderID f)
     @ writeString (fl_AccountID f) @ writeString (fl_InstrumentID f)
     @ writeString (Side_text (fl_Side f)) @ writeString (fl_Price f) @ writeString (fl_Quantity f)
     @ writeBytes (fl_PositionID f) @ writeString (PositionEffect_text (fl_PositionEffect f))
     @ writeString (fl_RealizedPnL f) @ writeString (fl_SettlementCurrency f)
     @ writeString (LiquiditySide_text (fl_LiquiditySide f)) @ writeString (fl_Fee f)
     @ writeString (fl_FeeCurrency f) @ writeInt64 (fl_LogicalTime f)
     @ (if includeEffectiveLeverage then writeString (fl_EffectiveLeverage f) else [])"

definition write_position :: "PositionSnapshot \<Rightarrow> bytes" where
  "write_position p = writeBytes (ps_PositionID p) @ writeString (ps_AccountID p)
     @ writeString (ps_InstrumentID p) @ writeString (PositionSide_text (ps_Side p))
     @ writeString (PositionStatus_text (ps_Status p)) @ writeString (ps_SignedQuantity p)
     @ writeString (ps_AverageOpenPrice p) @ writeString (ps_RealizedPnL p)
     @ writeString (ps_SettlementCurrency p) @ writeString (MarginMode_text (ps_MarginMode p))
     @ writeString (ps_IsolatedCollateral p) @ writeUint64 (ps_Version p)"

definition write_event :: "DomainEvent \<Rightarrow> bytes" where
  "write_event e = writeBytes (ev_EventID e) @ writeString (ev_Kind e)
     @ writeBytes (ev_AggregateID e) @ writeUint64 (ev_AggregateVersion e)
     @ writeInt64 (ev_LogicalTime e)"

definition effects_preimage :: "string \<Rightarrow> bool \<Rightarrow> Decision \<Rightarrow> bytes" where
  "effects_preimage domain includeEffectiveLeverage d = writeString domain
     @ writeString (CommandStatus_text (cmd_Status (d_CommandResult d)))
     @ writeString (RejectionReason_text (cmd_Reason (d_CommandResult d)))
     @ writeBytes (d_DuplicateOfDecisionHash d)
     @ write_list write_instrument (d_InstrumentChanges d)
     @ write_list write_account (d_AccountChanges d)
     @ write_list write_risk (d_RiskChanges d)
     @ write_list write_balance (d_BalanceChanges d)
     @ write_list write_transaction (d_LedgerChanges d)
     @ write_list write_funding (d_FundingChanges d)
     @ write_list write_book (d_BookChanges d)
     @ write_list write_order (d_OrderChanges d)
     @ write_list (write_fill includeEffectiveLeverage) (d_Fills d)
     @ write_list write_position (d_PositionChanges d)
     @ write_list write_event (d_Events d)"

definition hashEffectsAtVersion :: "Decision \<Rightarrow> u32 \<Rightarrow> EngineError + Hash" where
  "hashEffectsAtVersion decision version =
     (if version = 2 \<or> version = 3
      then Inr (finishHash (effects_preimage ''platformgo.engine.effects.v1'' False decision))
      else if version = 4
      then Inr (finishHash (effects_preimage ''platformgo.engine.effects.v2'' True decision))
      else Inl \<lparr>err_Kind = ErrUnknownHashVersion, err_Sequence = 0,
        err_Detail = ''effects hash version is not supported''\<rparr>)"

section \<open>Decisions and states\<close>

definition decision_preimage :: "string \<Rightarrow> Hash \<Rightarrow> Hash \<Rightarrow> Hash \<Rightarrow> bytes" where
  "decision_preimage domain previousStateHash inputHash effectsHash = writeString domain
     @ writeBytes previousStateHash @ writeBytes inputHash @ writeBytes effectsHash"

definition hashDecisionAtVersion :: "Hash \<Rightarrow> Hash \<Rightarrow> Hash \<Rightarrow> u32 \<Rightarrow> EngineError + Hash" where
  "hashDecisionAtVersion previousStateHash inputHash effectsHash version =
     (if version = 2 then Inr (finishHash (decision_preimage ''platformgo.engine.decision.v2''
        previousStateHash inputHash effectsHash))
      else if version = 3 then Inr (finishHash (decision_preimage ''platformgo.engine.decision.v3''
        previousStateHash inputHash effectsHash))
      else if version = 4 then Inr (finishHash (decision_preimage ''platformgo.engine.decision.v4''
        previousStateHash inputHash effectsHash))
      else Inl \<lparr>err_Kind = ErrUnknownHashVersion, err_Sequence = 0,
        err_Detail = ''decision hash version is not supported''\<rparr>)"

definition hashInitialState :: "ShardID \<Rightarrow> Hash" where
  "hashInitialState shardID = finishHash (writeString ''platformgo.engine.state.v1''
     @ writeUint32 shardID @ writeUint64 1 @ writeUint8 1)"

definition accepted_preimage :: "Hash \<Rightarrow> Hash \<Rightarrow> Hash \<Rightarrow> u64 \<Rightarrow> bytes" where
  "accepted_preimage previous inputHash decisionHash nextSequence =
     writeString ''platformgo.engine.state.accepted.v2'' @ writeBytes previous
     @ writeBytes inputHash @ writeBytes decisionHash @ writeUint64 nextSequence @ writeUint8 1"

definition hashAcceptedState :: "Hash \<Rightarrow> Hash \<Rightarrow> Hash \<Rightarrow> u64 \<Rightarrow> Hash" where
  "hashAcceptedState previous inputHash decisionHash nextSequence =
     finishHash (accepted_preimage previous inputHash decisionHash nextSequence)"

definition halted_preimage :: "Hash \<Rightarrow> Hash \<Rightarrow> EngineError \<Rightarrow> bytes" where
  "halted_preimage previous inputHash engineError =
     writeString ''platformgo.engine.state.halted.v1'' @ writeBytes previous @ writeBytes inputHash
     @ writeString (ErrorKind_text (err_Kind engineError)) @ writeUint64 (err_Sequence engineError)
     @ writeString (err_Detail engineError) @ writeUint8 0"

definition hashHaltedState :: "Hash \<Rightarrow> Hash \<Rightarrow> EngineError \<Rightarrow> Hash" where
  "hashHaltedState previous inputHash engineError =
     finishHash (halted_preimage previous inputHash engineError)"

end
