(* ===== verification/EngineJson.thy ===== *)
theory EngineJson
  imports EngineText
begin

text \<open>
  The canonical payload of a trading action (\<open>EncodeTradingAction\<close>, \<open>payload.go\<close>): Go's \<open>json.Marshal\<close> of
  the action structures, with the struct tags of \<open>trading_types.go\<close>. Fields keep their declaration
  order; \<open>omitempty\<close> drops empty strings and nil pointers but not arrays, so a zero \<open>PositionID\<close> is
  written; an ID is an array of sixteen numbers; a nil slice is \<open>null\<close>. \<open>json.Marshal\<close> cannot fail on
  these types, so encoding is total.
\<close>

section \<open>Strings\<close>

definition hex4 :: "nat \<Rightarrow> string" where
  "hex4 n = [hex_char (n div 4096 mod 16), hex_char (n div 256 mod 16), hex_char (n div 16 mod 16),
     hex_char (n mod 16)]"

definition backslash :: char where "backslash = char_of (92 :: nat)"

text \<open>One code point of a string, given its bytes: escapes as \<open>encoding/json\<close> writes them by default.\<close>

definition json_rune :: "nat \<times> nat \<Rightarrow> string \<Rightarrow> string" where
  "json_rune r raw =
     (if fst r = 34 \<or> fst r = 92 then backslash # raw
      else if fst r = 8 then [backslash, CHR ''b'']
      else if fst r = 9 then [backslash, CHR ''t'']
      else if fst r = 10 then [backslash, CHR ''n'']
      else if fst r = 12 then [backslash, CHR ''f'']
      else if fst r = 13 then [backslash, CHR ''r'']
      else if fst r < 32 \<or> fst r = 38 \<or> fst r = 60 \<or> fst r = 62 \<or> fst r = 8232 \<or> fst r = 8233
      then backslash # CHR ''u'' # hex4 (fst r)
      else if r = rune_error then backslash # CHR ''u'' # hex4 65533
      else raw)"

fun json_runes :: "(nat \<times> nat) list \<Rightarrow> string \<Rightarrow> string" where
  "json_runes [] s = []"
| "json_runes (r # rs) s = json_rune r (take (snd r) s) @ json_runes rs (drop (snd r) s)"

definition quotation :: char where "quotation = char_of (34 :: nat)"

definition json_string :: "string \<Rightarrow> string" where
  "json_string s = quotation # json_runes (runes s) s @ [quotation]"

section \<open>Values and objects\<close>

definition json_sep :: "string list \<Rightarrow> string" where
  "json_sep xs = (case xs of [] \<Rightarrow> [] | x # ys \<Rightarrow> x @ concat (map (\<lambda>y. CHR '','' # y) ys))"

definition json_list :: "('a \<Rightarrow> string) \<Rightarrow> 'a list \<Rightarrow> string" where
  "json_list f xs = ''['' @ json_sep (map f xs) @ '']''"

definition json_slice :: "('a \<Rightarrow> string) \<Rightarrow> 'a list option \<Rightarrow> string" where
  "json_slice f xs = (case xs of None \<Rightarrow> ''null'' | Some ys \<Rightarrow> json_list f ys)"

definition json_bool :: "bool \<Rightarrow> string" where
  "json_bool b = (if b then ''true'' else ''false'')"

definition json_ID :: "ID \<Rightarrow> string" where
  "json_ID i = json_list (\<lambda>b. nat_text (unat b)) i"

text \<open>A field with its value, or nothing when \<open>omitempty\<close> drops it.\<close>

definition field :: "string \<Rightarrow> string \<Rightarrow> string list" where
  "field name v = [json_string name @ '':'' @ v]"

definition field_nonempty :: "string \<Rightarrow> string \<Rightarrow> string list" where
  "field_nonempty name s = (if s = '''' then [] else field name (json_string s))"

definition field_pointer :: "string \<Rightarrow> ('a \<Rightarrow> string) \<Rightarrow> 'a option \<Rightarrow> string list" where
  "field_pointer name f p = (case p of None \<Rightarrow> [] | Some v \<Rightarrow> field name (f v))"

definition json_object :: "string list list \<Rightarrow> string" where
  "json_object fs = ''{'' @ json_sep (concat fs) @ ''}''"

section \<open>Actions\<close>

definition json_ConfigureInstrument :: "ConfigureInstrument \<Rightarrow> string" where
  "json_ConfigureInstrument c = json_object [
     field ''instrumentId'' (json_string (ci_InstrumentID c)),
     field ''revision'' (nat_text (unat (ci_Revision c))),
     field ''priceScale'' (nat_text (ci_PriceScale c)),
     field ''quantityScale'' (nat_text (ci_QuantityScale c)),
     field ''settlementCurrency'' (json_string (ci_SettlementCurrency c)),
     field ''settlementCurrencyScale'' (nat_text (ci_SettlementCurrencyScale c)),
     field ''initialMarginRate'' (json_string (ci_InitialMarginRate c)),
     field ''maintenanceMarginRate'' (json_string (ci_MaintenanceMarginRate c)),
     field ''maxLeverage'' (json_string (ci_MaxLeverage c)),
     field ''makerFeeRate'' (json_string (ci_MakerFeeRate c)),
     field ''takerFeeRate'' (json_string (ci_TakerFeeRate c))]"

definition json_ConfigureAccount :: "ConfigureAccount \<Rightarrow> string" where
  "json_ConfigureAccount c = json_object [
     field ''accountId'' (json_string (ca_AccountID c)),
     field ''omsMode'' (json_string (OmsMode_text (ca_OmsMode c)))]"

definition json_ConfigureRisk :: "ConfigureRisk \<Rightarrow> string" where
  "json_ConfigureRisk c = json_object [
     field ''accountId'' (json_string (cr_AccountID c)),
     field ''instrumentId'' (json_string (cr_InstrumentID c)),
     field ''marginMode'' (json_string (MarginMode_text (cr_MarginMode c))),
     field ''leverage'' (json_string (cr_Leverage c))]"

definition json_AdjustBalance :: "AdjustBalance \<Rightarrow> string" where
  "json_AdjustBalance a = json_object [
     field ''accountId'' (json_string (ab_AccountID a)),
     field ''currency'' (json_string (ab_Currency a)),
     field ''currencyScale'' (nat_text (ab_CurrencyScale a)),
     field ''operation'' (json_string (BalanceOperation_text (ab_Operation a))),
     field ''amount'' (json_string (ab_Amount a))]"

definition json_SettleFunding :: "SettleFunding \<Rightarrow> string" where
  "json_SettleFunding s = json_object [
     field ''settlementId'' (json_ID (sf_SettlementID s)),
     field ''instrumentId'' (json_string (sf_InstrumentID s)),
     field ''oraclePrice'' (json_string (sf_OraclePrice s)),
     field ''rate'' (json_string (sf_Rate s))]"

definition json_LiquidateAccount :: "LiquidateAccount \<Rightarrow> string" where
  "json_LiquidateAccount l = json_object [field ''accountId'' (json_string (la_AccountID l))]"

definition json_BookLevel :: "BookLevel \<Rightarrow> string" where
  "json_BookLevel l = json_object [field ''price'' (json_string (bl_Price l)),
     field ''quantity'' (json_string (bl_Quantity l))]"

definition json_UpdateBook :: "UpdateBook \<Rightarrow> string" where
  "json_UpdateBook u = json_object [
     field ''instrumentId'' (json_string (ub_InstrumentID u)),
     field_nonempty ''markPrice'' (ub_MarkPrice u),
     field ''bids'' (json_slice json_BookLevel (ub_Bids u)),
     field ''asks'' (json_slice json_BookLevel (ub_Asks u))]"

definition json_SubmitOrder :: "SubmitOrder \<Rightarrow> string" where
  "json_SubmitOrder s = json_object [
     field ''orderId'' (json_ID (so_OrderID s)),
     field ''accountId'' (json_string (so_AccountID s)),
     field ''instrumentId'' (json_string (so_InstrumentID s)),
     field ''side'' (json_string (Side_text (so_Side s))),
     field ''type'' (json_string (OrderType_text (so_Type s))),
     field ''timeInForce'' (json_string (TimeInForce_text (so_TimeInForce s))),
     field ''quantity'' (json_string (so_Quantity s)),
     field_nonempty ''price'' (so_Price s),
     field_nonempty ''triggerPrice'' (so_TriggerPrice s),
     field ''reduceOnly'' (json_bool (so_ReduceOnly s)),
     field ''positionId'' (json_ID (so_PositionID s)),
     field_pointer ''maxSlippageBps'' (\<lambda>b. nat_text (unat b)) (so_MaxSlippageBPS s)]"

definition json_ProtectiveLeg :: "ProtectiveLeg \<Rightarrow> string" where
  "json_ProtectiveLeg l = json_object [field ''orderId'' (json_ID (pl_OrderID l)),
     field ''price'' (json_string (pl_Price l)),
     field ''quantity'' (json_string (pl_Quantity l))]"

definition json_PlaceBracket :: "PlaceBracket \<Rightarrow> string" where
  "json_PlaceBracket b = json_object [
     field ''bracketId'' (json_ID (pb_BracketID b)),
     field ''entryOrderId'' (json_ID (pb_EntryOrderID b)),
     field ''accountId'' (json_string (pb_AccountID b)),
     field ''instrumentId'' (json_string (pb_InstrumentID b)),
     field ''side'' (json_string (Side_text (pb_Side b))),
     field ''entryType'' (json_string (OrderType_text (pb_EntryType b))),
     field ''timeInForce'' (json_string (TimeInForce_text (pb_TimeInForce b))),
     field ''quantity'' (json_string (pb_Quantity b)),
     field_nonempty ''entryPrice'' (pb_EntryPrice b),
     field ''takeProfits'' (json_slice json_ProtectiveLeg (pb_TakeProfits b)),
     field ''stopLossOrderId'' (json_ID (pb_StopLossOrderID b)),
     field ''stopLoss'' (json_string (pb_StopLoss b))]"

definition json_AmendOrder :: "AmendOrder \<Rightarrow> string" where
  "json_AmendOrder a = json_object [
     field ''accountId'' (json_string (ao_AccountID a)),
     field ''orderId'' (json_ID (ao_OrderID a)),
     field ''quantity'' (json_string (ao_Quantity a)),
     field ''price'' (json_string (ao_Price a))]"

definition json_CancelOrder :: "CancelOrder \<Rightarrow> string" where
  "json_CancelOrder c = json_object [
     field ''accountId'' (json_string (co_AccountID c)),
     field ''orderId'' (json_ID (co_OrderID c))]"

definition json_TradingAction :: "TradingAction \<Rightarrow> string" where
  "json_TradingAction a = json_object [
     field ''kind'' (json_string (TradingActionKind_text (act_Kind a))),
     field_pointer ''configureInstrument'' json_ConfigureInstrument (act_ConfigureInstrument a),
     field_pointer ''configureAccount'' json_ConfigureAccount (act_ConfigureAccount a),
     field_pointer ''configureRisk'' json_ConfigureRisk (act_ConfigureRisk a),
     field_pointer ''adjustBalance'' json_AdjustBalance (act_AdjustBalance a),
     field_pointer ''settleFunding'' json_SettleFunding (act_SettleFunding a),
     field_pointer ''liquidateAccount'' json_LiquidateAccount (act_LiquidateAccount a),
     field_pointer ''updateBook'' json_UpdateBook (act_UpdateBook a),
     field_pointer ''submitOrder'' json_SubmitOrder (act_SubmitOrder a),
     field_pointer ''placeBracket'' json_PlaceBracket (act_PlaceBracket a),
     field_pointer ''amendOrder'' json_AmendOrder (act_AmendOrder a),
     field_pointer ''cancelOrder'' json_CancelOrder (act_CancelOrder a)]"

definition EncodeTradingAction :: "TradingAction \<Rightarrow> bytes" where
  "EncodeTradingAction action = string_bytes (json_TradingAction action)"

end
