(* ===== verification/Kernel.thy ===== *)
theory Kernel
  imports EngineEvolution EngineHash EngineJson
begin

text \<open>
  The deterministic kernel (\<open>kernel.go\<close>, \<open>receipts.go\<close> and the entry points of \<open>trading_apply.go\<close>): receipt
  lookup, envelope and sequence validation, the transition, the completion of its decision
  (frozen leverage, balance projections, ledger entries), and the hash chain. A call returns the
  state, the decision and the error, if any. Go's defensive clones are the identity.
\<close>

section \<open>Receipts\<close>

definition NewReceipt :: "InputEnvelope \<Rightarrow> Decision \<Rightarrow> Receipt" where
  "NewReceipt input decision = \<lparr>
     r_InputID = in_InputID input,
     r_StreamSequence = in_StreamSequence input,
     r_SchemaVersion = in_SchemaVersion input,
     r_InputHashVersion = d_InputHashVersion decision,
     r_InputHash = d_InputHash decision,
     r_BusinessHashVersion = CurrentBusinessHashVersion,
     r_BusinessInputHash = hashBusinessInput input,
     r_Decision = decision\<rparr>"

definition sameReceiptIdentity :: "Receipt \<Rightarrow> Receipt \<Rightarrow> bool" where
  "sameReceiptIdentity left right = (r_InputID left = r_InputID right
     \<and> r_StreamSequence left = r_StreamSequence right
     \<and> r_SchemaVersion left = r_SchemaVersion right
     \<and> r_InputHashVersion left = r_InputHashVersion right
     \<and> r_InputHash left = r_InputHash right
     \<and> r_BusinessHashVersion left = r_BusinessHashVersion right
     \<and> r_BusinessInputHash left = r_BusinessInputHash right
     \<and> d_DecisionHash (r_Decision left) = d_DecisionHash (r_Decision right)
     \<and> d_NextStateHash (r_Decision left) = d_NextStateHash (r_Decision right))"

text \<open>The \<open>ReceiptLookup\<close> interface; a nil interface is \<open>None\<close>.\<close>

record ReceiptLookup =
  LookupByInputID :: "ID \<Rightarrow> Receipt option"
  LookupByStreamSequence :: "u64 \<Rightarrow> Receipt option"

record MemoryReceiptIndex =
  mi_byInputID :: "ID \<Rightarrow> Receipt option"
  mi_byStreamSequence :: "u64 \<Rightarrow> Receipt option"

definition NewMemoryReceiptIndex :: MemoryReceiptIndex where
  "NewMemoryReceiptIndex = \<lparr>mi_byInputID = Map.empty, mi_byStreamSequence = Map.empty\<rparr>"

definition memory_lookup :: "MemoryReceiptIndex \<Rightarrow> ReceiptLookup" where
  "memory_lookup index = \<lparr>LookupByInputID = mi_byInputID index,
     LookupByStreamSequence = mi_byStreamSequence index\<rparr>"

text \<open>\<open>Record\<close>: the index afterwards, \<open>None\<close> where the code returns an error.\<close>

definition Record_receipt :: "MemoryReceiptIndex \<Rightarrow> Receipt \<Rightarrow> MemoryReceiptIndex option" where
  "Record_receipt index receipt =
     (case mi_byInputID index (r_InputID receipt) of
        Some recorded \<Rightarrow> if sameReceiptIdentity recorded receipt then Some index else None
      | None \<Rightarrow>
          (case mi_byStreamSequence index (r_StreamSequence receipt) of
             Some recorded \<Rightarrow> if sameReceiptIdentity recorded receipt then Some index else None
           | None \<Rightarrow> Some \<lparr>mi_byInputID = (mi_byInputID index)(r_InputID receipt \<mapsto> receipt),
               mi_byStreamSequence = (mi_byStreamSequence index)(r_StreamSequence receipt \<mapsto> receipt)\<rparr>))"

section \<open>State\<close>

definition zeroReceipt :: Receipt where
  "zeroReceipt = \<lparr>r_InputID = zeroID, r_StreamSequence = 0, r_SchemaVersion = 0,
     r_InputHashVersion = 0, r_InputHash = zeroHash, r_BusinessHashVersion = 0,
     r_BusinessInputHash = zeroHash, r_Decision = zeroDecision\<rparr>"

definition NewState :: "ShardID \<Rightarrow> State" where
  "NewState shardID = \<lparr>st_shardID = shardID, st_nextStreamSequence = 1, st_marketSequence = 0,
     st_ready = True, st_hash = hashInitialState shardID, st_lastReceipt = zeroReceipt,
     st_hasLastReceipt = False, st_trading = emptyTrading\<rparr>"

definition State_MarketSequence :: "State \<Rightarrow> u64 option" where
  "State_MarketSequence state =
     (if st_marketSequence state = 0 then None else Some (st_marketSequence state))"

definition CurrencyScales :: "State \<Rightarrow> CurrencyScaleSnapshot list" where
  "CurrencyScales state = map (\<lambda>c. \<lparr>cs_Currency = cur_code c, cs_Scale = cur_scale c\<rparr>)
     (ts_currencyScales (st_trading state))"

fun seed_scales :: "tradingState \<Rightarrow> CurrencyScaleSnapshot list \<Rightarrow> tradingState option" where
  "seed_scales trading [] = Some trading"
| "seed_scales trading (s # ss) =
     (case NewCurrency (cs_Currency s) (cs_Scale s) of
        Inl _ \<Rightarrow> None
      | Inr currency \<Rightarrow>
          if currencyScale trading (cur_code currency) \<notin> {None, Some currency} then None
          else seed_scales (rememberCurrencyScale trading currency) ss)"

text \<open>\<open>Inl\<close> is the state returned beside an error: the zero state once seeding has begun.\<close>

definition zeroState :: State where
  "zeroState = \<lparr>st_shardID = 0, st_nextStreamSequence = 0, st_marketSequence = 0, st_ready = False,
     st_hash = zeroHash, st_lastReceipt = zeroReceipt, st_hasLastReceipt = False,
     st_trading = emptyTrading\<rparr>"

definition SeedCurrencyScales :: "State \<Rightarrow> CurrencyScaleSnapshot list \<Rightarrow> State + State" where
  "SeedCurrencyScales state scales =
     (if st_nextStreamSequence state \<noteq> 1 \<or> st_hasLastReceipt state
         \<or> ts_currencyScales (st_trading state) \<noteq> [] then Inl state
      else case seed_scales (st_trading state) scales of
        None \<Rightarrow> Inl zeroState
      | Some trading \<Rightarrow> Inr (with_trading state trading))"

section \<open>Halting\<close>

type_synonym outcome = "State \<times> Decision \<times> EngineError option"

definition halt :: "State \<Rightarrow> Hash \<Rightarrow> EngineError \<Rightarrow> outcome" where
  "halt state inputHash engineError =
     (state\<lparr>st_ready := False, st_hash := hashHaltedState (st_hash state) inputHash engineError\<rparr>,
      zeroDecision, Some engineError)"

definition FailClosed :: "State \<Rightarrow> InputEnvelope \<Rightarrow> ErrorKind \<Rightarrow> string \<Rightarrow> State \<times> EngineError option" where
  "FailClosed state input kind detail =
     (case halt state (hashInput input) \<lparr>err_Kind = kind, err_Sequence = in_StreamSequence input,
        err_Detail = detail\<rparr> of (next, _, err) \<Rightarrow> (next, err))"

definition input_error :: "InputEnvelope \<Rightarrow> ErrorKind \<Rightarrow> string \<Rightarrow> EngineError" where
  "input_error input kind detail =
     \<lparr>err_Kind = kind, err_Sequence = in_StreamSequence input, err_Detail = detail\<rparr>"

definition not_ready :: "State \<Rightarrow> InputEnvelope \<Rightarrow> outcome" where
  "not_ready state input = (state, zeroDecision, Some (input_error input ErrShardNotReady
     ''the shard has recorded a fatal input error''))"

definition expected_sequence :: "State \<Rightarrow> string" where
  "expected_sequence state =
     ''next expected sequence is '' @ nat_text (unat (st_nextStreamSequence state))"

section \<open>Receipt lookup and envelope validation\<close>

definition lookupReceipt ::
  "State \<Rightarrow> ReceiptLookup option \<Rightarrow> InputEnvelope \<Rightarrow> EngineError + Receipt option"
where
  "lookupReceipt state receipts input =
     (let last = (if st_hasLastReceipt state then Some (st_lastReceipt state) else None);
          lastByID = (case last of
              Some r \<Rightarrow> if r_InputID r = in_InputID input then Some r else None | None \<Rightarrow> None);
          lastBySequence = (case last of
              Some r \<Rightarrow> if r_StreamSequence r = in_StreamSequence input then Some r else None
            | None \<Rightarrow> None);
          byInputID = (case receipts of None \<Rightarrow> lastByID
            | Some l \<Rightarrow> (case LookupByInputID l (in_InputID input) of
                Some r \<Rightarrow> Some r | None \<Rightarrow> lastByID));
          bySequence = (case receipts of None \<Rightarrow> lastBySequence
            | Some l \<Rightarrow> (case LookupByStreamSequence l (in_StreamSequence input) of
                Some r \<Rightarrow> Some r | None \<Rightarrow> lastBySequence))
      in if byInputID \<noteq> None \<and> r_StreamSequence (the byInputID) \<noteq> in_StreamSequence input then
           Inl (input_error input ErrInputConflict
             ''input ID was already committed at a different stream sequence'')
         else if bySequence \<noteq> None \<and> r_InputID (the bySequence) \<noteq> in_InputID input then
           Inl (input_error input ErrInputConflict
             ''stream sequence was already committed with a different input ID'')
         else if byInputID \<noteq> None \<and> bySequence \<noteq> None
             \<and> \<not> sameReceiptIdentity (the byInputID) (the bySequence) then
           Inl (input_error input ErrInputConflict ''committed receipt indexes disagree'')
         else if byInputID \<noteq> None then Inr byInputID
         else Inr bySequence)"

definition validateEnvelope :: "State \<Rightarrow> InputEnvelope \<Rightarrow> u32 \<Rightarrow> EngineError option" where
  "validateEnvelope state input currentSchemaVersion =
     (if in_SchemaVersion input \<noteq> currentSchemaVersion then
        Some (input_error input ErrUnknownSchema (''schema version ''
          @ nat_text (unat (in_SchemaVersion input)) @ '' is not supported''))
      else if \<not> InputKind_valid (in_Kind input) then
        Some (input_error input ErrUnknownInputKind (''input kind ''
          @ nat_text (unat (InputKind_byte (in_Kind input))) @ '' is not supported''))
      else if in_ShardID input \<noteq> st_shardID state then
        Some (input_error input ErrShardMismatch (''input shard ''
          @ nat_text (unat (in_ShardID input)) @ '' does not match state shard ''
          @ nat_text (unat (st_shardID state))))
      else if ID_IsZero (in_InputID input) then
        Some (input_error input ErrInvalidEnvelope ''input ID is required'')
      else if in_StreamSequence input = 0 then
        Some (input_error input ErrInvalidEnvelope ''stream sequence is required'')
      else if in_SourceID input = '''' then
        Some (input_error input ErrInvalidEnvelope ''source ID is required'')
      else if in_SourceSequence input = 0 then
        Some (input_error input ErrInvalidEnvelope ''source sequence is required'')
      else if in_ConfigurationVersion input = 0 then
        Some (input_error input ErrInvalidEnvelope ''configuration version is required'')
      else if in_InstrumentVersion input = 0 then
        Some (input_error input ErrInvalidEnvelope ''instrument version is required'')
      else None)"

section \<open>Completion of a decision\<close>

definition effective_leverage ::
  "Extern \<Rightarrow> tradingState \<Rightarrow> fillRecord \<Rightarrow> string + Ratio"
where
  "effective_leverage X previous fill =
     (case find_instrumentRecord previous (ir_id (fi_instrument fill)) of
        None \<Rightarrow> Inl ''fill has no valid execution-time instrument risk authority''
      | Some instrument \<Rightarrow>
          if im_revision instrument \<noteq> fi_instrument fill
             \<or> Decimal_Sign X (ratio_value (im_maxLeverage instrument)) \<le> 0
          then Inl ''fill has no valid execution-time instrument risk authority''
          else let authorities = filter (\<lambda>risk. rk_accountID risk = fi_accountID fill
                     \<and> rk_instrumentID risk = ir_id (fi_instrument fill)) (ts_risks previous);
                   leverage = (case authorities of [] \<Rightarrow> im_maxLeverage instrument
                     | risk # _ \<Rightarrow> rk_leverage risk)
               in if 2 \<le> length authorities
                  then Inl ''fill has multiple execution-time risk authorities''
                  else if Decimal_Sign X (ratio_value leverage) \<le> 0
                     \<or> 0 < Decimal_Cmp X (ratio_value leverage) (ratio_value (im_maxLeverage instrument))
                  then Inl ''fill execution-time leverage is outside instrument authority''
                  else Inr leverage)"

definition freeze_fill ::
  "Extern \<Rightarrow> tradingState \<Rightarrow> tradingState \<Rightarrow> FillSnapshot \<Rightarrow> string + (tradingState \<times> FillSnapshot)"
where
  "freeze_fill X previous trading snapshot =
     (case filter (\<lambda>i. fi_fillID (ts_fills trading ! i) = fl_FillID snapshot)
          [0 ..< length (ts_fills trading)] of
        [] \<Rightarrow> Inl ''decision fill has no resulting-state fill record''
      | _ # _ # _ \<Rightarrow> Inl ''fill ID links to multiple resulting-state fill records''
      | [i] \<Rightarrow>
          let fill = ts_fills trading ! i in
          if fi_orderID fill \<noteq> fl_OrderID snapshot \<or> fi_accountID fill = ''''
             \<or> fi_accountID fill \<noteq> fl_AccountID snapshot \<or> ir_id (fi_instrument fill) = ''''
             \<or> ir_id (fi_instrument fill) \<noteq> fl_InstrumentID snapshot
          then Inl ''decision fill linkage disagrees with resulting state''
          else case orderIndex trading (fi_orderID fill) of
            None \<Rightarrow> Inl ''fill has no authoritative resulting order linkage''
          | Some oi \<Rightarrow>
              if or_accountID (ts_orders trading ! oi) \<noteq> fi_accountID fill
                 \<or> or_instrument (ts_orders trading ! oi) \<noteq> fi_instrument fill
              then Inl ''fill has no authoritative resulting order linkage''
              else (case effective_leverage X previous fill of
                  Inl detail \<Rightarrow> Inl detail
                | Inr leverage \<Rightarrow> Inr (trading\<lparr>ts_fills := (ts_fills trading)[i :=
                      fill\<lparr>fi_effectiveLeverage := leverage, fi_hasEffectiveLeverage := True\<rparr>]\<rparr>,
                    snapshot\<lparr>fl_EffectiveLeverage := Decimal_String X (ratio_value leverage)\<rparr>)))"

fun freeze_fills ::
  "Extern \<Rightarrow> tradingState \<Rightarrow> tradingState \<Rightarrow> FillSnapshot list
     \<Rightarrow> string + (tradingState \<times> FillSnapshot list)"
where
  "freeze_fills X previous trading [] = Inr (trading, [])"
| "freeze_fills X previous trading (f # fs) =
     (case freeze_fill X previous trading f of
        Inl detail \<Rightarrow> Inl detail
      | Inr (trading, f') \<Rightarrow>
          (case freeze_fills X previous trading fs of
             Inl detail \<Rightarrow> Inl detail
           | Inr (trading, fs') \<Rightarrow> Inr (trading, f' # fs')))"

definition freezeFillEffectiveLeverage ::
  "Extern \<Rightarrow> State \<Rightarrow> State \<Rightarrow> Decision \<Rightarrow> u64 \<Rightarrow> EngineError + (State \<times> Decision)"
where
  "freezeFillEffectiveLeverage X previous next decision streamSequence =
     (case freeze_fills X (st_trading previous) (st_trading next) (d_Fills decision) of
        Inl detail \<Rightarrow> Inl \<lparr>err_Kind = ErrInvalidEffect, err_Sequence = streamSequence,
          err_Detail = detail\<rparr>
      | Inr (trading, fills) \<Rightarrow> Inr (with_trading next trading, decision\<lparr>d_Fills := fills\<rparr>))"

definition zeroBalanceSnapshot :: BalanceSnapshot where
  "zeroBalanceSnapshot = \<lparr>bs_AccountID = '''', bs_Currency = '''', bs_Total = '''', bs_Used = '''',
     bs_Free = '''', bs_Equity = ''''\<rparr>"

definition change_key :: "BalanceSnapshot \<Rightarrow> string \<times> string" where
  "change_key c = (bs_AccountID c, bs_Currency c)"

definition lastBalanceChange :: "BalanceSnapshot list \<Rightarrow> string \<Rightarrow> string \<Rightarrow> BalanceSnapshot" where
  "lastBalanceChange changes accountID currency =
     (case find (\<lambda>c. change_key c = (accountID, currency)) (rev changes) of
        Some c \<Rightarrow> c | None \<Rightarrow> zeroBalanceSnapshot)"

definition complete_balance ::
  "Extern \<Rightarrow> State \<Rightarrow> State \<Rightarrow> BalanceSnapshot list \<Rightarrow> balanceRecord \<Rightarrow> BalanceSnapshot list"
where
  "complete_balance X previous next changes balance =
     (let accountID = ba_accountID balance;
          currency = cur_code (m_currency (ba_total balance))
      in case State_Balance X next accountID currency of
           None \<Rightarrow> changes
         | Some nextSnapshot \<Rightarrow>
             let existed = list_ex (\<lambda>b. balance_key b = (accountID, currency))
                   (ts_balances (st_trading previous))
             in if existed \<and> State_Balance X previous accountID currency = Some nextSnapshot then changes
                else if lastBalanceChange changes accountID currency = nextSnapshot then changes
                else changes @ [nextSnapshot])"

definition completeBalanceProjectionChanges ::
  "Extern \<Rightarrow> State \<Rightarrow> State \<Rightarrow> BalanceSnapshot list \<Rightarrow> BalanceSnapshot list"
where
  "completeBalanceProjectionChanges X previous next changes =
     foldl (complete_balance X previous next) changes (ts_balances (st_trading next))"

definition rawBalanceTotal :: "State \<Rightarrow> string \<Rightarrow> string \<Rightarrow> Decimal option" where
  "rawBalanceTotal state accountID currency =
     map_option (\<lambda>b. m_amount (ba_total b))
       (find (\<lambda>b. balance_key b = (accountID, currency)) (ts_balances (st_trading state)))"

definition invalidLedgerEffect :: "Extern \<Rightarrow> InputEnvelope \<Rightarrow> string \<Rightarrow> go_error \<Rightarrow> EngineError" where
  "invalidLedgerEffect X input what err = input_error input ErrInvalidEffect
     (what @ '' is not exact canonical decimal: '' @ x_ErrorText X err)"

definition ledger_transaction ::
  "Extern \<Rightarrow> InputEnvelope \<Rightarrow> string \<times> string \<Rightarrow> nat \<Rightarrow> Decimal \<Rightarrow> Decimal \<Rightarrow> LedgerTransactionSnapshot"
where
  "ledger_transaction X input key n delta counterAmount =
     (let transactionID = IDFromSequence (in_InputID input) (of_nat (n + 1)) in \<lparr>
        lt_TransactionID = transactionID,
        lt_BusinessKey = ''balance:'' @ ID_String (in_InputID input) @ '':'' @ fst key @ '':'' @ snd key,
        lt_InputID = in_InputID input,
        lt_LogicalTime = in_LogicalTime input,
        lt_Entries = [
          \<lparr>le_EntryID = IDFromSequence transactionID 1, le_AccountID = fst key,
           le_Currency = snd key, le_Amount = Decimal_String X delta\<rparr>,
          \<lparr>le_EntryID = IDFromSequence transactionID 2, le_AccountID = SystemClearingAccount,
           le_Currency = snd key, le_Amount = Decimal_String X counterAmount\<rparr>]\<rparr>)"

fun ledger_from ::
  "Extern \<Rightarrow> State \<Rightarrow> InputEnvelope \<Rightarrow> (string \<times> string \<Rightarrow> BalanceSnapshot option) \<Rightarrow> (string \<times> string) list
     \<Rightarrow> LedgerTransactionSnapshot list \<Rightarrow> EngineError + LedgerTransactionSnapshot list"
where
  "ledger_from X previous input final [] transactions = Inr transactions"
| "ledger_from X previous input final (key # keys) transactions =
     (case Parse X (bs_Total (the (final key))) of
        Inl err \<Rightarrow> Inl (invalidLedgerEffect X input ''next balance total'' err)
      | Inr nextTotal \<Rightarrow>
          let previousTotal = (case rawBalanceTotal previous (fst key) (snd key) of
                None \<Rightarrow> zeroDecimal | Some t \<Rightarrow> t)
          in case Decimal_Sub X nextTotal previousTotal of
               Inl err \<Rightarrow> Inl (invalidLedgerEffect X input ''balance delta'' err)
             | Inr delta \<Rightarrow>
                 if Decimal_IsZero X delta then ledger_from X previous input final keys transactions
                 else case Decimal_Sub X zeroDecimal delta of
                   Inl err \<Rightarrow> Inl (invalidLedgerEffect X input ''clearing delta'' err)
                 | Inr counterAmount \<Rightarrow> ledger_from X previous input final keys
                     (transactions @ [ledger_transaction X input key (length transactions)
                        delta counterAmount]))"

text \<open>The keys of Go's map of final changes, each once, in the order \<open>sort.Slice\<close> gives them.\<close>

definition deriveLedgerChanges ::
  "Extern \<Rightarrow> State \<Rightarrow> InputEnvelope \<Rightarrow> BalanceSnapshot list
     \<Rightarrow> EngineError + LedgerTransactionSnapshot list"
where
  "deriveLedgerChanges X previous input changes =
     (let final = map_of (rev (map (\<lambda>c. (change_key c, c)) changes));
          keys = sort_by (<) (remdups (map change_key changes))
      in ledger_from X previous input final keys [])"

section \<open>Applying an input\<close>

text \<open>What the kernel does with the result of the transition, up to the hashes.\<close>

definition complete_decision ::
  "Extern \<Rightarrow> State \<Rightarrow> InputEnvelope \<Rightarrow> u32 \<Rightarrow> State \<times> Decision \<Rightarrow> EngineError + (State \<times> Decision)"
where
  "complete_decision X previous input decisionHashVersion sd =
     (let (state, decision) = sd;
          state = (if in_Kind input = InputKindMarket \<and> d_BookChanges decision \<noteq> [] then
              state\<lparr>st_marketSequence := (if in_MarketSequence input = 0 then in_StreamSequence input
                else in_MarketSequence input)\<rparr> else state)
      in case (if 4 \<le> decisionHashVersion then freezeFillEffectiveLeverage X previous state decision
                 (in_StreamSequence input) else Inr (state, decision)) of
           Inl e \<Rightarrow> Inl e
         | Inr (state, decision) \<Rightarrow>
             let changes = (if 3 \<le> decisionHashVersion
                   then completeBalanceProjectionChanges X previous state (d_BalanceChanges decision)
                   else d_BalanceChanges decision)
             in case deriveLedgerChanges X previous input changes of
                  Inl e \<Rightarrow> Inl e
                | Inr ledger \<Rightarrow> Inr (state, decision\<lparr>
                    d_BalanceChanges := changes,
                    d_LedgerChanges := ledger,
                    d_InputID := in_InputID input,
                    d_SourceSequence := in_SourceSequence input,
                    d_StreamSequence := in_StreamSequence input,
                    d_MarketSequence := in_MarketSequence input,
                    d_LogicalTime := in_LogicalTime input,
                    d_ConfigurationVersion := in_ConfigurationVersion input,
                    d_InstrumentVersion := in_InstrumentVersion input,
                    d_InputHashVersion := CurrentInputHashVersion,
                    d_DecisionHashVersion := decisionHashVersion,
                    d_PreviousStateHash := st_hash previous,
                    d_InputHash := hashInput input\<rparr>))"

text \<open>The hashes of a completed decision.\<close>

definition seal_decision ::
  "State \<Rightarrow> InputEnvelope \<Rightarrow> u32 \<Rightarrow> u64 \<Rightarrow> Decision \<Rightarrow> EngineError + Decision"
where
  "seal_decision previous input decisionHashVersion nextSequence decision =
     (case hashEffectsAtVersion decision decisionHashVersion of
        Inl e \<Rightarrow> Inl (e\<lparr>err_Sequence := in_StreamSequence input\<rparr>)
      | Inr effectsHash \<Rightarrow>
          (case hashDecisionAtVersion (st_hash previous) (hashInput input) effectsHash
               decisionHashVersion of
             Inl e \<Rightarrow> Inl (e\<lparr>err_Sequence := in_StreamSequence input\<rparr>)
           | Inr decisionHash \<Rightarrow> Inr (decision\<lparr>
               d_EffectsHash := effectsHash,
               d_DecisionHash := decisionHash,
               d_NextStateHash := hashAcceptedState (st_hash previous) (hashInput input)
                 decisionHash nextSequence\<rparr>)))"

definition applyWithSchemaAndDecisionHashVersion ::
  "Extern \<Rightarrow> State \<Rightarrow> InputEnvelope \<Rightarrow> ReceiptLookup option \<Rightarrow> u32 \<Rightarrow> (State \<Rightarrow> State \<times> Decision) \<Rightarrow> u32
     \<Rightarrow> outcome"
where
  "applyWithSchemaAndDecisionHashVersion X state input receipts currentSchemaVersion transition
     decisionHashVersion =
     (case lookupReceipt state receipts input of
        Inl conflict \<Rightarrow>
          if \<not> st_ready state then not_ready state input
          else halt state (hashInput input) conflict
      | Inr (Some recorded) \<Rightarrow>
          (case hashInputAtVersion input (r_InputHashVersion recorded) of
             Inl engineError \<Rightarrow>
               if \<not> st_ready state then (state, zeroDecision, Some engineError)
               else halt state (hashInput input) engineError
           | Inr inputHash \<Rightarrow>
               if inputHash \<noteq> r_InputHash recorded \<or> r_InputID recorded \<noteq> in_InputID input
                  \<or> r_StreamSequence recorded \<noteq> in_StreamSequence input then
                 (if \<not> st_ready state then not_ready state input
                  else halt state inputHash (input_error input ErrInputConflict
                    ''committed input identity was reused with different content''))
               else (state, r_Decision recorded, None))
      | Inr None \<Rightarrow>
          if \<not> st_ready state then not_ready state input
          else case validateEnvelope state input currentSchemaVersion of
            Some engineError \<Rightarrow> halt state (hashInput input) engineError
          | None \<Rightarrow>
              if in_StreamSequence input < st_nextStreamSequence state then
                halt state (hashInput input) (input_error input ErrSequenceRegression
                  (expected_sequence state))
              else if st_nextStreamSequence state < in_StreamSequence input then
                halt state (hashInput input) (input_error input ErrSequenceGap
                  (expected_sequence state))
              else if st_nextStreamSequence state = - 1 then
                halt state (hashInput input) (input_error input ErrSequenceExhausted
                  ''stream sequence cannot advance without overflow'')
              else case complete_decision X state input decisionHashVersion (transition state) of
                Inl engineError \<Rightarrow> halt state (hashInput input) engineError
              | Inr (next, decision) \<Rightarrow>
                  let nextSequence = st_nextStreamSequence next + 1 in
                  (case seal_decision state input decisionHashVersion nextSequence decision of
                     Inl engineError \<Rightarrow> halt state (hashInput input) engineError
                   | Inr decision \<Rightarrow>
                       (next\<lparr>st_nextStreamSequence := nextSequence,
                             st_hash := d_NextStateHash decision,
                             st_lastReceipt := NewReceipt input decision,
                             st_hasLastReceipt := True\<rparr>, decision, None)))"

definition applyWithReceiptsAtDecisionHashVersion ::
  "Extern \<Rightarrow> State \<Rightarrow> InputEnvelope \<Rightarrow> ReceiptLookup option \<Rightarrow> (State \<Rightarrow> State \<times> Decision) \<Rightarrow> u32 \<Rightarrow> outcome"
where
  "applyWithReceiptsAtDecisionHashVersion X state input receipts transition decisionHashVersion =
     applyWithSchemaAndDecisionHashVersion X state input receipts CurrentSchemaVersion transition
       decisionHashVersion"

definition no_transition :: "State \<Rightarrow> State \<times> Decision" where
  "no_transition state = (state, zeroDecision)"

definition ApplyWithReceipts :: "Extern \<Rightarrow> State \<Rightarrow> InputEnvelope \<Rightarrow> ReceiptLookup option \<Rightarrow> outcome" where
  "ApplyWithReceipts X state input receipts =
     applyWithReceiptsAtDecisionHashVersion X state input receipts no_transition
       CurrentDecisionHashVersion"

definition Apply :: "Extern \<Rightarrow> State \<Rightarrow> InputEnvelope \<Rightarrow> outcome" where
  "Apply X state input = ApplyWithReceipts X state input None"

section \<open>Re-published inputs\<close>

definition ApplyDuplicateDeliveryAtDecisionHashVersion ::
  "State \<Rightarrow> InputEnvelope \<Rightarrow> Receipt \<Rightarrow> u32 \<Rightarrow> outcome"
where
  "ApplyDuplicateDeliveryAtDecisionHashVersion state input original decisionHashVersion =
     (if \<not> st_ready state then not_ready state input
      else case businessInputHashAtVersion input (r_BusinessHashVersion original) of
        Inl e \<Rightarrow> halt state (hashInput input) e
      | Inr businessHash \<Rightarrow>
          if in_InputID input \<noteq> r_InputID original \<or> businessHash \<noteq> r_BusinessInputHash original then
            halt state (hashInput input) (input_error input ErrInputConflict
              ''re-published input differs from its committed business identity'')
          else if in_StreamSequence input \<noteq> st_nextStreamSequence state then
            halt state (hashInput input) (input_error input
              (if in_StreamSequence input < st_nextStreamSequence state then ErrSequenceRegression
               else ErrSequenceGap) (expected_sequence state))
          else if st_nextStreamSequence state = - 1 then
            halt state (hashInput input) (input_error input ErrSequenceExhausted
              ''stream sequence cannot advance without overflow'')
          else let decision = zeroDecision\<lparr>
                  d_InputID := in_InputID input,
                  d_SourceSequence := in_SourceSequence input,
                  d_StreamSequence := in_StreamSequence input,
                  d_MarketSequence := in_MarketSequence input,
                  d_LogicalTime := in_LogicalTime input,
                  d_ConfigurationVersion := in_ConfigurationVersion input,
                  d_InstrumentVersion := in_InstrumentVersion input,
                  d_InputHashVersion := CurrentInputHashVersion,
                  d_DecisionHashVersion := decisionHashVersion,
                  d_PreviousStateHash := st_hash state,
                  d_InputHash := hashInput input,
                  d_DuplicateOfDecisionHash := d_DecisionHash (r_Decision original),
                  d_CommandResult := d_CommandResult (r_Decision original)\<rparr>;
                 nextSequence = st_nextStreamSequence state + 1
             in case seal_decision state input decisionHashVersion nextSequence decision of
                  Inl e \<Rightarrow> halt state (hashInput input) e
                | Inr decision \<Rightarrow>
                    (state\<lparr>st_nextStreamSequence := nextSequence,
                           st_hash := d_NextStateHash decision,
                           st_hasLastReceipt := False\<rparr>, decision, None))"

definition ApplyDuplicateDelivery :: "State \<Rightarrow> InputEnvelope \<Rightarrow> Receipt \<Rightarrow> outcome" where
  "ApplyDuplicateDelivery state input original =
     ApplyDuplicateDeliveryAtDecisionHashVersion state input original CurrentDecisionHashVersion"

section \<open>Trading inputs\<close>

text \<open>The fault of a typed action that does not fit its envelope.\<close>

definition misfit ::
  "Extern \<Rightarrow> State \<Rightarrow> InputEnvelope \<Rightarrow> ReceiptLookup option \<Rightarrow> EngineError \<Rightarrow> outcome"
where
  "misfit X state input receipts engineError =
     (if \<not> st_ready state then ApplyWithReceipts X state input receipts
      else case validateEnvelope state input CurrentSchemaVersion of
        Some e \<Rightarrow> halt state (hashInput input) e
      | None \<Rightarrow> halt state (hashInput input) engineError)"

definition ApplyTradingWithReceiptsAtDecisionHashVersion ::
  "Extern \<Rightarrow> State \<Rightarrow> InputEnvelope \<Rightarrow> TradingAction \<Rightarrow> ReceiptLookup option \<Rightarrow> u32 \<Rightarrow> outcome"
where
  "ApplyTradingWithReceiptsAtDecisionHashVersion X state input action receipts decisionHashVersion =
     (if lookupReceipt state receipts input \<noteq> Inr None then
        applyWithReceiptsAtDecisionHashVersion X state input receipts no_transition
          decisionHashVersion
      else if EncodeTradingAction action \<noteq> in_Payload input then
        misfit X state input receipts (input_error input ErrPayloadMismatch
          ''typed trading action does not match canonical envelope payload'')
      else if \<not> TradingActionAllowedForInputKind (in_Kind input) (act_Kind action) then
        misfit X state input receipts (input_error input ErrInvalidEnvelope (''input kind ''
          @ nat_text (unat (InputKind_byte (in_Kind input))) @ '' cannot carry trading action ''
          @ x_Quote X (TradingActionKind_text (act_Kind action))))
      else applyWithReceiptsAtDecisionHashVersion X state input receipts
        (\<lambda>state. applyTradingActionAtDecisionHashVersion X state input action decisionHashVersion)
        decisionHashVersion)"

definition ApplyTradingWithReceipts ::
  "Extern \<Rightarrow> State \<Rightarrow> InputEnvelope \<Rightarrow> TradingAction \<Rightarrow> ReceiptLookup option \<Rightarrow> outcome"
where
  "ApplyTradingWithReceipts X state input action receipts =
     ApplyTradingWithReceiptsAtDecisionHashVersion X state input action receipts
       CurrentDecisionHashVersion"

definition ApplyTrading :: "Extern \<Rightarrow> State \<Rightarrow> InputEnvelope \<Rightarrow> TradingAction \<Rightarrow> outcome" where
  "ApplyTrading X state input action = ApplyTradingWithReceipts X state input action None"

definition ApplyTradingForRecoveryAtDecisionHashVersion ::
  "Extern \<Rightarrow> State \<Rightarrow> InputEnvelope \<Rightarrow> TradingAction \<Rightarrow> ReceiptLookup option \<Rightarrow> u32 \<Rightarrow> outcome"
where
  "ApplyTradingForRecoveryAtDecisionHashVersion X state input action receipts decisionHashVersion =
     (case ApplyTradingWithReceiptsAtDecisionHashVersion X state input action receipts
         decisionHashVersion of
        (next, decision, err) \<Rightarrow>
          (if err = None \<and> in_Kind input = InputKindMarket \<and> d_BookChanges decision \<noteq> []
           then next\<lparr>st_marketSequence := in_StreamSequence input\<rparr> else next, decision, err))"

end
