(* ===== verification/EngineHistory.thy ===== *)
theory EngineHistory
  imports EngineEvolution
begin

text \<open>
  What a whole trading action does to the trading state: a bracket and, with it, every action either
  rejects without a trace or evolves the state (\<open>action_rejection\<close>), and the relation \<open>history\<close> in which
  every later trading state stands to an earlier one: orders evolve and are never removed, fills,
  funding payments and settlements are append-only, positions keep their identity and a currency
  keeps its scale.
\<close>

section \<open>Brackets\<close>

lemma replaceDecision_result [simp]:
  "d_CommandResult (replaceDecisionOrderChange d os) = d_CommandResult d"
  by (simp add: replaceDecisionOrderChange_def split: option.split)

lemma creation_changes_result [simp]:
  "d_CommandResult (appendBracketCreationChanges X os b input d) = d_CommandResult d"
  by (induction X os b input d rule: appendBracketCreationChanges.induct)
    (simp_all add: decision_grows_result [OF decision_grows_append])

lemma attach_result [simp]:
  "d_CommandResult (snd (attach_protection X input pb cs n d)) = d_CommandResult d"
proof -
  have "d_CommandResult (snd (armBracketProtection X t b p input d')) = d_CommandResult d'" for t b p d'
    using reconcile_evolves(2) [of 0 t d' X b p input] by (simp add: exec_step_def decision_grows_result)
  then show ?thesis by (simp add: attach_protection_def Let_def split_beta split: option.split)
qed

lemma bracket_clean:
  "clean_rejection s (placeTradingBracket X s input pb) \<or> slippage_rejection s (placeTradingBracket X s input pb)"
proof (cases "placeTradingBracket X s input pb = rejectedTradingDecision s RejectionInvalidOrder")
  case False
  obtain ns d where sub: "submitTradingOrder X s input (entry_submit pb) = (ns, d)" by fastforce
  from False obtain instrument where r: "placeTradingBracket X s input pb =
      (if cmd_Status (d_CommandResult d) = CommandStatusRejected then (ns, d)
       else case bracket_children X instrument pb of None \<Rightarrow> rejectedTradingDecision s RejectionInvalidOrder
         | Some children \<Rightarrow> attach_protection X input pb children ns d)"
    by (auto simp: placeTradingBracket_def sub split: option.splits if_splits)
  show ?thesis
  proof (cases "cmd_Status (d_CommandResult d) = CommandStatusRejected")
    case True
    then show ?thesis using submit_clean [of s X input "entry_submit pb"] by (simp add: r sub)
  next
    case nr: False
    then show ?thesis by (simp add: r split: option.split) (simp add: clean_rejection_def)
  qed
qed simp

lemma action_rejection:
  "clean_rejection s (applyTradingAction X s input a) \<or> slippage_rejection s (applyTradingAction X s input a)"
  using configure_clean settle_clean book_clean liquidate_clean amend_clean cancel_clean submit_clean bracket_clean
  by (simp add: applyTradingAction_def split: TradingActionKind.split)

section \<open>Every action lets the trading state evolve\<close>

text \<open>
  The history of the trading state: orders evolve and are never removed, fills, funding payments and
  settlements are append-only (the kernel only stamps the effective leverage of a new fill),
  positions keep their identity, and a currency keeps its scale.
\<close>

definition fill_evolves :: "fillRecord \<Rightarrow> fillRecord \<Rightarrow> bool" where
  "fill_evolves a b = (b\<lparr>fi_effectiveLeverage := fi_effectiveLeverage a,
     fi_hasEffectiveLeverage := fi_hasEffectiveLeverage a\<rparr> = a)"

lemma fill_evolves_refl [simp]: "fill_evolves a a"
  by (simp add: fill_evolves_def)

lemma fill_evolves_trans: "fill_evolves a b \<Longrightarrow> fill_evolves b c \<Longrightarrow> fill_evolves a c"
  by (cases a; cases b; cases c) (simp add: fill_evolves_def)

definition history :: "tradingState \<Rightarrow> tradingState \<Rightarrow> bool" where
  "history s t = (grows order_evolves (ts_orders s) (ts_orders t)
     \<and> grows fill_evolves (ts_fills s) (ts_fills t) \<and> grows position_evolves (ts_positions s) (ts_positions t)
     \<and> prefix (ts_settlements s) (ts_settlements t) \<and> prefix (ts_funding s) (ts_funding t)
     \<and> (\<forall>code c. currencyScale s code = Some c \<longrightarrow> currencyScale t code = Some c))"

lemma history_trans: "history s t \<Longrightarrow> history t u \<Longrightarrow> history s u"
  unfolding history_def
  by (auto intro: grows_trans [OF order_evolves_trans] grows_trans [OF position_evolves_trans]
    grows_trans [OF fill_evolves_trans])

lemma history_refl [simp]: "history s s"
  by (simp add: history_def grows_refl)

lemma history_same:
  "ts_orders t = ts_orders s \<Longrightarrow> ts_fills t = ts_fills s \<Longrightarrow> ts_positions t = ts_positions s \<Longrightarrow>
   ts_settlements t = ts_settlements s \<Longrightarrow> ts_funding t = ts_funding s \<Longrightarrow>
   ts_currencyScales t = ts_currencyScales s \<Longrightarrow> history s t"
  by (simp add: history_def grows_refl currencyScale_def)

lemma exec_frame_history: "exec_frame (length (ts_fills s)) s t \<Longrightarrow> history s t"
  by (auto simp: exec_frame_def history_def currencyScale_def)
    (metis append_take_drop_id fill_evolves_refl grows_append take_all_iff order_refl)

lemma history_append_orders: "history s (s\<lparr>ts_orders := ts_orders s @ os\<rparr>)"
  by (simp add: history_def grows_refl grows_append currencyScale_def)

lemma find_append_Some: "find p xs = Some x \<Longrightarrow> find p (xs @ ys) = Some x"
  by (induction xs) (auto split: if_splits)

lemma find_insert_by_Some:
  "find p xs = Some x \<Longrightarrow> \<not> p y \<Longrightarrow> find p (insert_by lt y xs) = Some x"
  by (induction xs) (auto split: if_splits)

lemma currencyScale_remember:
  assumes "distinct (map cur_code (ts_currencyScales s))"
  shows "currencyScale (rememberCurrencyScale s c) code =
    (case currencyScale s code of Some k \<Rightarrow> Some k | None \<Rightarrow> if code = cur_code c then Some c else None)"
proof (cases "currencyScale s (cur_code c)")
  case None
  have d: "distinct (map cur_code (ts_currencyScales s @ [c]))"
    using assms None by (auto simp: currencyScale_def find_None_iff)
  have "currencyScale (rememberCurrencyScale s c) code = find (\<lambda>k. cur_code k = code) (ts_currencyScales s @ [c])"
    unfolding currencyScale_def rememberCurrencyScale_def using None
    by (simp add: currencyScale_def) (rule find_mset_cong, use d in auto)
  then show ?thesis by (auto simp: find_snoc currencyScale_def split: option.split)
qed (auto simp: rememberCurrencyScale_def split: option.split)

end
