(* ===== verification/EngineReports.thy ===== *)
theory EngineReports
  imports EngineHistory
begin

text \<open>
  What a trading action reports. Every action appends its new fills to the fill slice and reports
  exactly those, in order, in its decision (\<open>action_reports\<close>); earlier fills stay as they are. A
  rejected action reports nothing, except that a slippage rejection records and reports its
  rejected order (\<open>action_rejected\<close>).
\<close>

section \<open>Steps that report fills\<close>

definition reports :: "Extern \<Rightarrow> tradingState \<times> Decision \<Rightarrow> tradingState \<times> Decision \<Rightarrow> bool" where
  "reports X a b = (length (ts_orders (fst a)) \<le> length (ts_orders (fst b))
     \<and> (\<exists>fs. ts_fills (fst b) = ts_fills (fst a) @ fs
          \<and> d_Fills (snd b) = d_Fills (snd a) @ map (fill_snapshot X) fs))"

interpretation report: evolution "reports X" for X
  by unfold_locales (auto simp: reports_def)

lemma reports_quiet:
  "length (ts_orders s) \<le> length (ts_orders t) \<Longrightarrow> ts_fills t = ts_fills s \<Longrightarrow> d_Fills d' = d_Fills d \<Longrightarrow>
    reports X (s, d) (t, d')"
  by (simp add: reports_def)

text \<open>A step without fills.\<close>

definition quiet :: "tradingState \<times> Decision \<Rightarrow> tradingState \<times> Decision \<Rightarrow> bool" where
  "quiet a b = (length (ts_orders (fst b)) = length (ts_orders (fst a)) \<and> ts_fills (fst b) = ts_fills (fst a)
     \<and> d_Fills (snd b) = d_Fills (snd a))"

interpretation quiet: evolution quiet
  by unfold_locales (auto simp: quiet_def)

lemma quiet_refl [simp]: "quiet a a"
  by (simp add: quiet_def)

lemma appendOrderTransition_fills [simp]: "d_Fills (appendOrderTransition d input os) = d_Fills d"
  by (simp add: appendOrderTransition_def)

lemma replaceDecision_fills [simp]: "d_Fills (replaceDecisionOrderChange d os) = d_Fills d"
  by (simp add: replaceDecisionOrderChange_def split: option.split)

lemma creation_fills [simp]: "d_Fills (appendBracketCreationChanges X os b input d) = d_Fills d"
  by (induction X os b input d rule: appendBracketCreationChanges.induct) simp_all

lemma cancel_at_quiet: "quiet sd (cancel_at X input i order sd)"
  by (cases sd) (simp add: cancel_at_def quiet_def)

lemma resize_at_quiet: "quiet sd (resize_at X input i q order sd)"
  by (cases sd) (simp add: resize_at_def quiet_def Let_def)

lemma arm_step_quiet: "quiet sd (arm_step X b p input sd i)"
  by (cases sd) (simp add: arm_step_def quiet_def Let_def split: prod.split)

lemma cancel_protection_step_quiet: "quiet sd (cancel_protection_step X b input sd i)"
  by (simp add: cancel_protection_step_def Let_def cancel_at_quiet)

lemma sibling_step_quiet: "quiet sd (sibling_step X order po input sd i)"
  by (simp add: sibling_step_def Let_def cancel_at_quiet resize_at_quiet split: prod.split)

lemma protection_step_quiet: "quiet sd (protection_step X input sd i)"
  by (simp add: protection_step_def Let_def cancel_at_quiet resize_at_quiet split: prod.split)

lemma reconcile_quiet:
  "quiet (s, d) (cancelBracketProtection X s b input d)"
  "quiet (s, d) (armBracketProtection X s b p input d)"
  "quiet (s, d) (reconcileBracketAfterExecution X s oi input d)"
  "quiet (s, d) (reconcilePositionProtection X s input d)"
  by (auto simp: cancelBracketProtection_def armBracketProtection_def reconcileBracketAfterExecution_def
    reconcilePositionProtection_def Let_def split: option.splits
    intro!: quiet.fold_evolves cancel_protection_step_quiet arm_step_quiet sibling_step_quiet protection_step_quiet)

section \<open>Execution\<close>

lemma finish_execution_fills:
  assumes "finish_execution X m input oi b start d = (t, d')"
  shows "ts_fills t = ts_fills m \<and> d_Fills d' = d_Fills d @ map (fill_snapshot X) (drop start (ts_fills m))"
proof -
  let ?o = "ts_orders m ! oi"
  let ?o1 = "?o\<lparr>or_status := executed_status X ?o\<rparr>"
  let ?m = "set_order m oi (if orderExecutionChanged X b ?o1 (start < length (ts_fills m))
      then ?o1\<lparr>or_version := or_version ?o1 + 1\<rparr> else ?o1)"
  obtain s1 d1 where r1: "reconcileBracketAfterExecution X ?m oi input d = (s1, d1)" by fastforce
  obtain s2 d2 where r2: "reconcilePositionProtection X s1 input d1 = (s2, d2)" by fastforce
  have "quiet (?m, d) (s1, d1)" "quiet (s1, d1) (s2, d2)"
    using reconcile_quiet(3) r1 reconcile_quiet(4) r2 by metis+
  then have "ts_fills s2 = ts_fills m" "d_Fills d2 = d_Fills d" by (simp_all add: quiet_def)
  then show ?thesis using assms by (auto simp: finish_execution_def Let_def r1 r2)
qed

lemma exec_frame_fills_append:
  "exec_frame (length (ts_fills s)) s t \<Longrightarrow> ts_fills t = ts_fills s @ drop (length (ts_fills s)) (ts_fills t)"
  unfolding exec_frame_def by (metis append_take_drop_id order_refl take_all_iff)

lemma executeOrder_reports:
  assumes "executeOrder X s input oi d = (reason, t, d')"
    and "oi < length (ts_orders s)" "active_status (or_status (ts_orders s ! oi))"
  shows "reports X (s, d) (t, d') \<and> (reason \<notin> {RejectionNone, RejectionInvalidOrder} \<longrightarrow> d' = d)"
proof -
  let ?b = "ts_orders s ! oi" and ?n = "length (ts_fills s)"
  obtain cl order where co: "(if or_reduceOnly ?b then clampReduceOnlyOrder X s ?b else (RejectionNone, ?b)) = (cl, order)"
    by fastforce
  have st: "or_status order = or_status ?b" using co clamp_evolves(2) [of X s ?b] by (auto split: if_splits)
  let ?c = "set_order s oi order"
  note simps = executeOrder_clamped [OF co, of input d]
  show ?thesis
  proof (cases "cl = RejectionNone \<and> (\<exists>book. find_book ?c (ir_id (or_instrument order)) = Some book
      \<and> (if requires_full_fill order then bookFillability X book order else RejectionNone) = RejectionNone)")
    case True
    then obtain book where bk: "find_book ?c (ir_id (or_instrument order)) = Some book"
      "(if requires_full_fill order then bookFillability X book order else RejectionNone) = RejectionNone" by blast
    obtain r d1 where mc: "match_candidate X ?c input oi book d = (r, d1)" by fastforce
    have ms: "decision_grows d d1 \<and> d_Fills d1 = d_Fills d \<and> (\<forall>t. r = Some t \<longrightarrow> exec_frame (length (ts_fills ?c)) ?c t
      \<and> (\<exists>f a h. ts_orders t ! oi = (ts_orders ?c ! oi)\<lparr>or_filledQuantity := f, or_averagePrice := a, or_hasAverage := h\<rparr>))"
      by (rule match_candidate_step [OF mc]) (use assms(2,3) st in simp_all)
    show ?thesis
    proof (cases r)
      case None
      then show ?thesis using assms(1) True bk mc ms by (simp add: simps reports_quiet)
    next
      case (Some m)
      obtain f d2 where fe: "finish_execution X m input oi ?b ?n d1 = (f, d2)" by fastforce
      have td: "t = f" "d' = d2" "reason = RejectionNone"
        using assms(1) True bk mc Some fe by (simp_all add: simps)
      have m: "exec_frame ?n ?c m" using ms Some by simp
      have "length (ts_orders s) \<le> length (ts_orders f)"
        using executeOrder_step [OF assms] by (simp add: td exec_frame_def)
      moreover have "ts_fills m = ts_fills s @ drop ?n (ts_fills m)" using exec_frame_fills_append [of ?c m] m by simp
      ultimately show ?thesis using finish_execution_fills [OF fe] ms td by (auto simp: reports_def)
    qed
  next
    case False
    then show ?thesis using assms(1) by (auto simp: simps reports_quiet split: if_splits option.splits)
  qed
qed

lemma match_working_step_reports:
  assumes "i < length (ts_orders (fst sd))"
  shows "reports X sd (match_working_step X input iid sd i)"
proof -
  obtain s d where sd: "sd = (s, d)" by (cases sd)
  let ?o = "ts_orders s ! i"
  show ?thesis
  proof (cases "ir_id (or_instrument ?o) \<noteq> iid \<or> \<not> resting_status (or_status ?o)")
    case True
    then show ?thesis by (simp add: sd match_working_step_def report.R_refl)
  next
    case False
    then have ac: "active_status (or_status ?o)" by (simp add: resting_active)
    obtain r tr s1 where a: "activateOrderIfReady X s i input = (r, tr, s1)" by (cases "activateOrderIfReady X s i input")
    have s1: "i < length (ts_orders s1)" "active_status (or_status (ts_orders s1 ! i))" "reports X (s, d) (s1, d)"
      using activate_frame [OF a, of 0] ac assms sd by (auto simp: exec_frame_def reports_def)
    obtain reason s2 d2 where ex: "executeOrder X s1 input i d = (reason, s2, d2)" by (cases "executeOrder X s1 input i d")
    have s2: "reports X (s, d) (s2, d2)"
      using report.R_trans [OF s1(3)] executeOrder_reports [OF ex s1(1,2)] by blast
    then show ?thesis using False s1(3)
      by (auto simp: sd match_working_step_def a ex Let_def reports_def)
  qed
qed

lemma matchWorkingOrders_reports: "reports X (s, d) (matchWorkingOrders X s input iid d)"
  unfolding matchWorkingOrders_def
proof (rule report.fold_evolves)
  fix t i
  assume "i \<in> set [0..<length (ts_orders s)]" "reports X (s, d) t"
  then show "reports X t (match_working_step X input iid t i)"
    by (intro match_working_step_reports) (auto simp: reports_def)
qed (rule report.R_refl)

lemma run_order_reports:
  assumes "run_order X s input i = (reason, t, d)" "i < length (ts_orders s)" "active_status (or_status (ts_orders s ! i))"
  shows "reports X (s, acceptedDecision) (t, d) \<and> (reason \<notin> {RejectionNone, RejectionInvalidOrder} \<longrightarrow> d = acceptedDecision)"
proof -
  obtain r tr s1 where a: "activateOrderIfReady X s i input = (r, tr, s1)" by (cases "activateOrderIfReady X s i input")
  have s1: "i < length (ts_orders s1)" "active_status (or_status (ts_orders s1 ! i))"
    "reports X (s, acceptedDecision) (s1, acceptedDecision)"
    using activate_frame [OF a, of 0] assms(2,3) by (auto simp: exec_frame_def reports_def)
  show ?thesis
  proof (cases r)
    case True
    then have "executeOrder X s1 input i acceptedDecision = (reason, t, d)" using assms(1) by (simp add: run_order_def a)
    from executeOrder_reports [OF this s1(1,2)] s1(3) show ?thesis using report.R_trans by blast
  next
    case False
    then show ?thesis using assms(1) s1(3) by (simp add: run_order_def a)
  qed
qed

lemma rest_order_quiet: "quiet (s, d) (rest_order X input i s d)"
  by (simp add: rest_order_def Let_def quiet_def)

lemma quiet_reports: "quiet a b \<Longrightarrow> reports X a b"
  by (simp add: quiet_def reports_def)

lemma liquidate_positions_reports:
  "liquidate_positions X input q cs t d = Inr (t', d') \<Longrightarrow> reports X (t, d) (t', d')"
proof (induction cs arbitrary: q t d)
  case Nil
  then show ?case by (simp add: report.R_refl)
next
  case (Cons c cs)
  let ?p = "ts_positions t ! lc_index c"
  let ?id = "IDFromSequence (in_InputID input) (liquidationSequence q)"
  from Cons.prems obtain z where z: "NewQuantity X ''0'' (po_instrument ?p) = Inr z"
    by (auto simp: Let_def split: if_splits sum.splits)
  let ?t = "t\<lparr>ts_orders := ts_orders t @ [liquidation_order ?id ?p z]\<rparr>"
  obtain r t1 d1 where e: "executeOrder X ?t input (length (ts_orders t)) d = (r, t1, d1)"
    by (cases "executeOrder X ?t input (length (ts_orders t)) d")
  have "reports X (?t, d) (t1, d1) \<and> (r \<notin> {RejectionNone, RejectionInvalidOrder} \<longrightarrow> d1 = d)"
    by (rule executeOrder_reports [OF e]) (simp_all add: liquidation_order_def base_order_def active_status_def)
  moreover from Cons.prems z e have "liquidate_positions X input (q + 1) cs t1
      (appendOrderTransition d1 input (order_snapshot X (ts_orders t1 ! length (ts_orders t)))) = Inr (t', d')"
    by (auto simp: Let_def split: if_splits)
  ultimately show ?case using Cons.IH by (fastforce simp: reports_def)
qed

section \<open>Actions\<close>

text \<open>An action starts from a decision without fills.\<close>

definition action_reported :: "Extern \<Rightarrow> State \<Rightarrow> State \<times> Decision \<Rightarrow> bool" where
  "action_reported X s sd = reports X (st_trading s, acceptedDecision) (st_trading (fst sd), snd sd)"

lemma no_fills [simp]: "d_Fills acceptedDecision = []" "d_Fills (rejectedDecision r) = []" "d_Fills zeroDecision = []"
  by (simp_all add: acceptedDecision_def rejectedDecision_def zeroDecision_def)

lemma reported_rejected [simp]: "action_reported X s (rejectedTradingDecision s r)"
  "action_reported X s (acceptedTradingDecision s)"
  by (simp_all add: action_reported_def decision_defs reports_quiet)

lemma reported_with: "reports X (st_trading s, acceptedDecision) (t, d) \<Longrightarrow> action_reported X s (with_trading s t, d)"
  by (simp add: action_reported_def)

lemma configure_reported:
  "action_reported X s (configureTradingInstrument X s ci)" "action_reported X s (configureTradingAccount s ca)"
  "action_reported X s (configureTradingRisk X s cr)" "action_reported X s (adjustTradingBalance X s ab)"
proof -
  show "action_reported X s (configureTradingInstrument X s ci)" "action_reported X s (configureTradingAccount s ca)"
    "action_reported X s (configureTradingRisk X s cr)"
    by (auto simp: configureTradingInstrument_def configureTradingAccount_def configureTradingRisk_def
      replaceInstrument_def rememberCurrencyScale_def replaceAccount_def replaceRisk_def
      split: option.split sum.split intro!: reported_with reports_quiet)
  show "action_reported X s (adjustTradingBalance X s ab)"
    by (auto simp: adjustTradingBalance_def balance_slot_def sortBalances_def set_balance_def Let_def
      split: option.splits sum.splits if_splits intro!: reported_with reports_quiet)
qed

lemma settle_positions_reports:
  "settle_positions X input sf im o' r ps t d q = Inr (t', d') \<Longrightarrow> reports X (t, d) (t', d')"
proof (induction ps arbitrary: t d q)
  case (Cons p ps)
  have "reports X (t, d) (t1, d1)"
    if "fund_position X input (sf_SettlementID sf) im o' r p t d q = Inr (t1, d1)" for t1 d1
    using that by (auto simp: fund_position_def applyBalanceDelta_def set_balance_def Let_def reports_quiet
      split: sum.splits option.splits)
  with Cons show ?case
    by (auto split: if_splits sum.splits) (blast intro: report.R_trans)
qed (simp add: report.R_refl)

lemma settle_reported: "action_reported X s (settleTradingFunding X s input sf)"
  by (auto simp: settleTradingFunding_def Let_def split: option.split sum.split
    intro!: reported_with) (auto simp: reports_def dest!: settle_positions_reports)

lemma liquidate_reported: "action_reported X s (liquidateTradingAccount X s input la)"
  by (auto simp: liquidateTradingAccount_def split: option.split sum.split
    intro!: reported_with liquidate_positions_reports)

lemma book_reported: "action_reported X s (updateTradingBook X s input ub)"
proof -
  have "reports X (st_trading s, acceptedDecision) (t, d\<lparr>d_BookChanges := b\<rparr>)"
    if "matchWorkingOrders X (replaceBook (st_trading s) bk) input iid acceptedDecision = (t, d)" for bk iid t d b
    using matchWorkingOrders_reports [of X "replaceBook (st_trading s) bk" acceptedDecision input iid] that
    by (simp add: reports_def replaceBook_def)
  then show ?thesis
    by (auto simp: updateTradingBook_def Let_def split: option.split sum.split prod.split intro!: reported_with)
qed

lemma submit_reported: "action_reported X s (submitTradingOrder X s input so)"
proof (cases rule: submit_cases [of X s input so])
  case (slippage order t d)
  let ?u = "(st_trading s)\<lparr>ts_orders := ts_orders (st_trading s) @ [order]\<rparr>"
  have "d = acceptedDecision"
    using run_order_reports [OF slippage(3)] admitted_order_working [OF slippage(1)] by (simp add: active_status_def)
  then show ?thesis by (simp add: slippage(2) action_reported_def reports_quiet)
next
  case (accepted order t d t' d')
  have "reports X ((st_trading s)\<lparr>ts_orders := ts_orders (st_trading s) @ [order]\<rparr>, acceptedDecision) (t, d)"
    using run_order_reports [OF accepted(2)] admitted_order_working [OF accepted(1)] by (simp add: active_status_def)
  then have "reports X (st_trading s, acceptedDecision) (t, d)" by (auto simp: reports_def)
  moreover have "quiet (t, d) (t', d')" using rest_order_quiet [of t d X input] accepted(3) by metis
  ultimately show ?thesis by (simp add: accepted(4)) (blast intro: reported_with report.R_trans quiet_reports)
qed simp

lemma amend_reported: "action_reported X s (amendTradingOrder X s input ao)"
proof (cases "orderIndex (st_trading s) (ao_OrderID ao)")
  case None
  then show ?thesis by (simp add: amendTradingOrder_def)
next
  case (Some i)
  then have i: "i < length (ts_orders (st_trading s))" by (simp add: orderIndex_def first_index_bound)
  let ?c = "ts_orders (st_trading s) ! i"
  have "action_reported X s (case run_order X (set_order (st_trading s) i o1) input i of
        (reason, trading, decision) \<Rightarrow> if reason \<noteq> RejectionNone then rejectedTradingDecision s reason
          else (case rest_order X input i trading decision of (trading, decision) \<Rightarrow> (with_trading s trading, decision)))"
    if st: "active_status (or_status o1)" for o1
  proof -
    let ?u = "set_order (st_trading s) i o1"
    obtain reason t d where r: "run_order X ?u input i = (reason, t, d)" by (cases "run_order X ?u input i")
    have "reports X (?u, acceptedDecision) (t, d)" using run_order_reports [OF r] st i by simp
    then have "reports X (st_trading s, acceptedDecision) (t, d)" by (simp add: reports_def)
    then have "reports X (st_trading s, acceptedDecision) (rest_order X input i t d)"
      by (rule report.R_trans [OF _ quiet_reports [OF rest_order_quiet]])
    then show ?thesis by (auto simp: r split: prod.split intro!: reported_with)
  qed
  then show ?thesis
    unfolding amendTradingOrder_def Let_def by (simp add: Some resting_active split: sum.split)
qed

lemma cancel_reported: "action_reported X s (cancelTradingOrder X s input co)"
proof (cases "orderIndex (st_trading s) (co_OrderID co)")
  case None
  then show ?thesis by (simp add: cancelTradingOrder_def)
next
  case (Some i)
  let ?c = "ts_orders (st_trading s) ! i"
  obtain t d where c: "cancel_at X input i ?c (st_trading s, acceptedDecision) = (t, d)" by fastforce
  have q: "quiet (st_trading s, acceptedDecision) (t, d)" using cancel_at_quiet c by metis
  have "quiet (st_trading s, acceptedDecision) (cancelBracketProtection X t (or_bracketID ?c) input d)"
    by (rule quiet.R_trans [OF q reconcile_quiet(1)])
  with q show ?thesis
    by (auto simp: cancelTradingOrder_def Some Let_def c split: prod.split intro!: reported_with quiet_reports)
qed

lemma attach_reported: "action_reported X s (n, d) \<Longrightarrow> action_reported X s (attach_protection X input pb cs n d)"
proof -
  assume r: "action_reported X s (n, d)"
  let ?t = "st_trading n"
  let ?i = "case orderIndex ?t (pb_EntryOrderID pb) of Some i \<Rightarrow> i | None \<Rightarrow> 0"
  let ?e = "(ts_orders ?t ! ?i)\<lparr>or_bracketID := pb_BracketID pb, or_bracketLeg := BracketLegEntry\<rparr>"
  let ?u = "(set_order ?t ?i ?e)\<lparr>ts_orders := (ts_orders ?t)[?i := ?e] @ cs\<rparr>"
  let ?d = "replaceDecisionOrderChange d (order_snapshot X ?e)"
  have u: "reports X (st_trading s, acceptedDecision) (?u, ?d)" using r by (auto simp: action_reported_def reports_def)
  have arm: "reports X (st_trading s, acceptedDecision) (armBracketProtection X ?u b p input ?d)" for b p
    by (rule report.R_trans [OF u quiet_reports [OF reconcile_quiet(2)]])
  have "reports X a (fst b, appendBracketCreationChanges X os k input (snd b))" if "reports X a b" for a b os k
    using that by (simp add: reports_def)
  then show ?thesis using u arm
    by (simp add: attach_protection_def Let_def split_beta action_reported_def split: option.split)
qed

lemma bracket_reported: "action_reported X s (placeTradingBracket X s input pb)"
  using submit_reported [of X s input "entry_submit pb"]
  by (auto simp: placeTradingBracket_def split: option.split prod.split intro: attach_reported)

lemmas handler_reported = configure_reported settle_reported liquidate_reported book_reported submit_reported
  amend_reported cancel_reported bracket_reported

lemma action_reports: "action_reported X s (applyTradingActionAtDecisionHashVersion X s input a v)"
  by (simp add: applyTradingActionAtDecisionHashVersion_def applyTradingAction_def handler_reported
    split: TradingActionKind.split)

section \<open>Rejected actions\<close>

text \<open>The decision of a slippage rejection: the result, the order and its event.\<close>

definition recorded_rejection :: "Extern \<Rightarrow> InputEnvelope \<Rightarrow> State \<Rightarrow> orderRecord \<Rightarrow> State \<times> Decision" where
  "recorded_rejection X input s order =
     (with_trading s ((st_trading s)\<lparr>ts_orders := ts_orders (st_trading s) @ [order]\<rparr>),
      appendOrderTransition (rejectedDecision RejectionSlippageExceeded) input (order_snapshot X order))"

definition rejected_as :: "Extern \<Rightarrow> InputEnvelope \<Rightarrow> State \<Rightarrow> State \<times> Decision \<Rightarrow> bool" where
  "rejected_as X input s sd = (sd = rejectedTradingDecision s (cmd_Reason (d_CommandResult (snd sd)))
     \<or> (\<exists>order. or_status order = OrderStatusRejected \<and> or_rejectReason order = RejectionSlippageExceeded
          \<and> sd = recorded_rejection X input s order))"

lemma submit_rejected:
  assumes "cmd_Status (d_CommandResult (snd (submitTradingOrder X s input so))) = CommandStatusRejected"
  shows "rejected_as X input s (submitTradingOrder X s input so)"
proof (cases rule: submit_cases [of X s input so])
  case (refused reason)
  then show ?thesis by (simp add: rejected_as_def decision_defs)
next
  case (slippage order t d)
  have "d = acceptedDecision"
    using run_order_reports [OF slippage(3)] admitted_order_working [OF slippage(1)] by (simp add: active_status_def)
  then have "submitTradingOrder X s input so = recorded_rejection X input s (rejected_order RejectionSlippageExceeded t)"
    by (simp add: slippage(2) recorded_rejection_def acceptedDecision_def rejectedDecision_def)
  then show ?thesis unfolding rejected_as_def
    by (intro disjI2 exI [of _ "rejected_order RejectionSlippageExceeded t"]) (simp add: rejected_order_def)
next
  case (accepted order t d t' d')
  have "decision_grows acceptedDecision d"
    by (rule run_order_step(2) [OF accepted(2)])
      (use admitted_order_working [OF accepted(1)] in \<open>simp_all add: active_status_def\<close>)
  then have "decision_grows acceptedDecision d'"
    using rest_order_grows [OF accepted(3)] decision_grows_trans by blast
  then show ?thesis using assms by (simp add: accepted(4) grown_accepted)
qed

lemma clean_rejected_as:
  "clean_rejection s sd \<Longrightarrow> cmd_Status (d_CommandResult (snd sd)) = CommandStatusRejected \<Longrightarrow> rejected_as X input s sd"
  by (cases sd) (auto simp: clean_rejection_def rejected_as_def rejectedTradingDecision_def)

lemma bracket_rejected:
  assumes "cmd_Status (d_CommandResult (snd (placeTradingBracket X s input pb))) = CommandStatusRejected"
  shows "rejected_as X input s (placeTradingBracket X s input pb)"
  using assms submit_rejected [of X s input "entry_submit pb"]
  by (auto simp: placeTradingBracket_def intro: clean_rejected_as split: option.splits prod.splits if_splits)

lemma action_rejected:
  assumes "cmd_Status (d_CommandResult (snd (applyTradingActionAtDecisionHashVersion X s input a v))) = CommandStatusRejected"
  shows "rejected_as X input s (applyTradingActionAtDecisionHashVersion X s input a v)"
proof -
  have "rejected_as X input s (applyTradingAction X s input a)"
    if "cmd_Status (d_CommandResult (snd (applyTradingAction X s input a))) = CommandStatusRejected"
    using that submit_rejected bracket_rejected clean_rejected_as configure_clean settle_clean book_clean liquidate_clean
      amend_clean cancel_clean clean_rejected
    by (simp add: applyTradingAction_def split: TradingActionKind.splits if_splits)
  then show ?thesis using assms
    by (auto simp: applyTradingActionAtDecisionHashVersion_def intro: clean_rejected_as split: if_splits)
qed

end
