(* ===== verification/KernelChain.thy ===== *)
theory KernelChain
  imports Kernel EngineReports
begin

text \<open>
  The behaviour of the kernel as a whole. An application of an input has exactly three outcomes
  (\<open>apply_cases\<close>, \<open>trading_cases\<close>): it halts or stays halted and returns an error, it replays a recorded
  decision, or it commits a fresh decision (\<open>fresh_apply\<close>), whose facts \<open>fresh_apply_facts\<close> collects.
  The last section shows what the ledger transactions of a decision are.
\<close>

section \<open>The three outcomes\<close>

definition fresh_apply ::
  "Extern \<Rightarrow> State \<Rightarrow> InputEnvelope \<Rightarrow> ReceiptLookup option \<Rightarrow> u32 \<Rightarrow> (State \<Rightarrow> State \<times> Decision) \<Rightarrow> u32
     \<Rightarrow> State \<Rightarrow> Decision \<Rightarrow> bool"
where
  "fresh_apply X s input R cs tr v s' d = (lookupReceipt s R input = Inr None \<and> st_ready s
     \<and> validateEnvelope s input cs = None \<and> in_StreamSequence input = st_nextStreamSequence s
     \<and> st_nextStreamSequence s \<noteq> - 1
     \<and> (\<exists>n dc. complete_decision X s input v (tr s) = Inr (n, dc)
          \<and> seal_decision s input v (st_nextStreamSequence n + 1) dc = Inr d
          \<and> s' = n\<lparr>st_nextStreamSequence := st_nextStreamSequence n + 1, st_hash := d_NextStateHash d,
               st_lastReceipt := NewReceipt input d, st_hasLastReceipt := True\<rparr>))"

definition halted_from :: "State \<Rightarrow> InputEnvelope \<Rightarrow> EngineError \<Rightarrow> State \<Rightarrow> bool" where
  "halted_from s input e s' = (if st_ready s
     then s' = s\<lparr>st_ready := False, st_hash := hashHaltedState (st_hash s) (hashInput input) e\<rparr>
     else s' = s)"

definition replayed :: "State \<Rightarrow> InputEnvelope \<Rightarrow> ReceiptLookup option \<Rightarrow> State \<Rightarrow> Decision \<Rightarrow> bool" where
  "replayed s input R s' d = (s' = s \<and> (\<exists>r. lookupReceipt s R input = Inr (Some r) \<and> d = r_Decision r
     \<and> hashInputAtVersion input (r_InputHashVersion r) = Inr (r_InputHash r)
     \<and> r_InputID r = in_InputID input \<and> r_StreamSequence r = in_StreamSequence input))"

lemma hashInputAtVersion_Inr: "hashInputAtVersion input v = Inr h \<Longrightarrow> h = hashInput input"
  by (auto simp: hashInputAtVersion_def hashInput_def split: if_splits)

lemma apply_cases:
  assumes "applyWithSchemaAndDecisionHashVersion X s input R cs tr v = (s', d, e)"
  shows "(\<exists>err. e = Some err \<and> d = zeroDecision \<and> halted_from s input err s')
    \<or> e = None \<and> replayed s input R s' d
    \<or> e = None \<and> fresh_apply X s input R cs tr v s' d"
proof (cases "lookupReceipt s R input")
  case (Inl c)
  with assms show ?thesis
    by (auto simp: applyWithSchemaAndDecisionHashVersion_def not_ready_def halt_def halted_from_def split: if_splits)
next
  case (Inr q)
  show ?thesis
  proof (cases q)
    case (Some r)
    with assms Inr show ?thesis
      by (auto simp: applyWithSchemaAndDecisionHashVersion_def not_ready_def halt_def halted_from_def replayed_def
        dest: hashInputAtVersion_Inr split: if_splits sum.splits)
  next
    case None
    note look = Inr [unfolded None]
    have h: ?thesis if "halt s (hashInput input) err = (s', d, e)" "st_ready s" for err
      using that by (auto simp: halt_def halted_from_def)
    show ?thesis
    proof (cases "st_ready s \<and> validateEnvelope s input cs = None
        \<and> in_StreamSequence input = st_nextStreamSequence s \<and> st_nextStreamSequence s \<noteq> - 1")
      case True
      then show ?thesis using assms look h
        by (auto simp: applyWithSchemaAndDecisionHashVersion_def fresh_apply_def Let_def
          split: sum.splits prod.splits)
    next
      case False
      then show ?thesis using assms look h
        by (auto simp: applyWithSchemaAndDecisionHashVersion_def not_ready_def halted_from_def
          split: if_splits option.splits)
    qed
  qed
qed

section \<open>A committed decision\<close>

lemma complete_decision_frame:
  assumes "complete_decision X s input v sd = Inr (n, dc)"
  shows "st_nextStreamSequence n = st_nextStreamSequence (fst sd) \<and> st_ready n = st_ready (fst sd)
    \<and> st_shardID n = st_shardID (fst sd) \<and> st_hash n = st_hash (fst sd)
    \<and> d_PreviousStateHash dc = st_hash s \<and> d_InputHash dc = hashInput input
    \<and> d_InputID dc = in_InputID input \<and> d_StreamSequence dc = in_StreamSequence input
    \<and> d_InputHashVersion dc = CurrentInputHashVersion \<and> d_DecisionHashVersion dc = v
    \<and> d_CommandResult dc = d_CommandResult (snd sd) \<and> d_OrderChanges dc = d_OrderChanges (snd sd)"
  using assms by (cases sd) (auto simp: complete_decision_def freezeFillEffectiveLeverage_def Let_def
    split: if_splits sum.splits prod.splits)

lemma seal_decision_frame:
  assumes "seal_decision s input v m dc = Inr d"
  shows "(\<exists>eh dh nh. d = dc\<lparr>d_EffectsHash := eh, d_DecisionHash := dh, d_NextStateHash := nh\<rparr>)
    \<and> d_NextStateHash d = hashAcceptedState (st_hash s) (hashInput input) (d_DecisionHash d) m
    \<and> hashEffectsAtVersion dc v = Inr (d_EffectsHash d)
    \<and> hashDecisionAtVersion (st_hash s) (hashInput input) (d_EffectsHash d) v = Inr (d_DecisionHash d)"
  using assms by (auto simp: seal_decision_def split: sum.splits)

text \<open>The hashes of a decision are not part of its effects.\<close>

lemma hashEffects_sealed:
  "hashEffectsAtVersion (dc\<lparr>d_EffectsHash := eh, d_DecisionHash := dh, d_NextStateHash := nh\<rparr>) v = hashEffectsAtVersion dc v"
  by (simp add: hashEffectsAtVersion_def effects_preimage_def)

lemma seal_decision_effects:
  "seal_decision s input v m dc = Inr d \<Longrightarrow> hashEffectsAtVersion d v = Inr (d_EffectsHash d)"
  using seal_decision_frame [of s input v m dc d] hashEffects_sealed by metis

lemma fresh_apply_facts:
  assumes "fresh_apply X s input R cs tr v s' d" "trading_only s (fst (tr s))"
  shows "st_nextStreamSequence s' = st_nextStreamSequence s + 1"
    and "unat (st_nextStreamSequence s') = unat (st_nextStreamSequence s) + 1"
    and "st_ready s'" and "st_shardID s' = st_shardID s"
    and "st_hash s' = d_NextStateHash d" and "d_PreviousStateHash d = st_hash s"
    and "d_InputHash d = hashInput input"
    and "d_NextStateHash d = hashAcceptedState (st_hash s) (hashInput input) (d_DecisionHash d)
        (st_nextStreamSequence s')"
    and "st_lastReceipt s' = NewReceipt input d" and "st_hasLastReceipt s'"
    and "d_InputHashVersion d = CurrentInputHashVersion"
    and "d_InputID d = in_InputID input" and "d_StreamSequence d = st_nextStreamSequence s"
    and "in_StreamSequence input = st_nextStreamSequence s"
    and "hashDecisionAtVersion (st_hash s) (hashInput input) (d_EffectsHash d) v = Inr (d_DecisionHash d)"
    and "d_DecisionHashVersion d = v"
    and "hashEffectsAtVersion d v = Inr (d_EffectsHash d)"
proof -
  obtain n dc where c: "complete_decision X s input v (tr s) = Inr (n, dc)"
    and sl: "seal_decision s input v (st_nextStreamSequence n + 1) dc = Inr d"
    and s': "s' = n\<lparr>st_nextStreamSequence := st_nextStreamSequence n + 1, st_hash := d_NextStateHash d,
               st_lastReceipt := NewReceipt input d, st_hasLastReceipt := True\<rparr>"
    using assms(1) by (auto simp: fresh_apply_def)
  note cf = complete_decision_frame [OF c] and sf = seal_decision_frame [OF sl]
  have tr: "st_nextStreamSequence (fst (tr s)) = st_nextStreamSequence s"
    "st_ready (fst (tr s)) = st_ready s" "st_shardID (fst (tr s)) = st_shardID s"
    using assms(2) by (metis trading_only_def with_trading_simps(5),
      metis trading_only_def with_trading_simps(7), metis trading_only_def with_trading_simps(4))
  have m: "st_nextStreamSequence s \<noteq> - 1" "st_ready s" "in_StreamSequence input = st_nextStreamSequence s"
    using assms(1) by (auto simp: fresh_apply_def)
  show seq: "st_nextStreamSequence s' = st_nextStreamSequence s + 1" using cf tr s' by simp
  have "unat (st_nextStreamSequence s + 1) = unat (st_nextStreamSequence s) + 1"
    using m(1) by (metis Suc_eq_plus1 add.commute add_eq_0_iff unatSuc)
  with seq show "unat (st_nextStreamSequence s') = unat (st_nextStreamSequence s) + 1" by simp
  show "st_ready s'" "st_shardID s' = st_shardID s" "st_hash s' = d_NextStateHash d"
    "st_lastReceipt s' = NewReceipt input d" "st_hasLastReceipt s'"
    using cf tr s' m by simp_all
  show "d_PreviousStateHash d = st_hash s" "d_InputHash d = hashInput input"
    "d_InputHashVersion d = CurrentInputHashVersion" "d_InputID d = in_InputID input"
    "d_StreamSequence d = st_nextStreamSequence s" "d_DecisionHashVersion d = v"
    using cf sf m by auto
  show "d_NextStateHash d = hashAcceptedState (st_hash s) (hashInput input) (d_DecisionHash d)
        (st_nextStreamSequence s')" using sf s' by simp
  show "in_StreamSequence input = st_nextStreamSequence s" by (fact m)
  show "hashDecisionAtVersion (st_hash s) (hashInput input) (d_EffectsHash d) v = Inr (d_DecisionHash d)"
    using sf by simp
  show "hashEffectsAtVersion d v = Inr (d_EffectsHash d)" by (rule seal_decision_effects [OF sl])
qed

abbreviation trading_transition where
  "trading_transition X input a v \<equiv> (\<lambda>s. applyTradingActionAtDecisionHashVersion X s input a v)"

lemma trading_cases:
  assumes "ApplyTradingWithReceiptsAtDecisionHashVersion X s input a R v = (s', d, e)"
  shows "(\<exists>err. e = Some err \<and> d = zeroDecision \<and> halted_from s input err s')
    \<or> e = None \<and> replayed s input R s' d
    \<or> e = None \<and> EncodeTradingAction a = in_Payload input
        \<and> TradingActionAllowedForInputKind (in_Kind input) (act_Kind a)
        \<and> fresh_apply X s input R CurrentSchemaVersion (trading_transition X input a v) v s' d"
proof -
  have h: ?thesis if "halt s (hashInput input) err = (s', d, e)" "st_ready s" for err
    using that by (auto simp: halt_def halted_from_def)
  have m: ?thesis if "misfit X s input R err = (s', d, e)" "lookupReceipt s R input = Inr None" for err
  proof (cases "st_ready s")
    case True
    with that show ?thesis
      by (cases "validateEnvelope s input CurrentSchemaVersion") (simp_all add: misfit_def h)
  next
    case False
    with that show ?thesis
      by (auto simp: misfit_def ApplyWithReceipts_def applyWithReceiptsAtDecisionHashVersion_def
        applyWithSchemaAndDecisionHashVersion_def not_ready_def halted_from_def)
  qed
  consider "lookupReceipt s R input \<noteq> Inr None"
    | "lookupReceipt s R input = Inr None" "EncodeTradingAction a \<noteq> in_Payload input
        \<or> \<not> TradingActionAllowedForInputKind (in_Kind input) (act_Kind a)"
    | "lookupReceipt s R input = Inr None" "EncodeTradingAction a = in_Payload input"
      "TradingActionAllowedForInputKind (in_Kind input) (act_Kind a)" by blast
  then show ?thesis
  proof cases
    case 1
    then have "applyWithSchemaAndDecisionHashVersion X s input R CurrentSchemaVersion no_transition v = (s', d, e)"
      using assms by (simp add: ApplyTradingWithReceiptsAtDecisionHashVersion_def applyWithReceiptsAtDecisionHashVersion_def)
    from apply_cases [OF this] 1 show ?thesis by (auto simp: fresh_apply_def)
  next
    case 2
    then show ?thesis using assms m
      by (auto simp: ApplyTradingWithReceiptsAtDecisionHashVersion_def split: if_splits)
  next
    case 3
    then have "applyWithSchemaAndDecisionHashVersion X s input R CurrentSchemaVersion
        (trading_transition X input a v) v = (s', d, e)"
      using assms by (simp add: ApplyTradingWithReceiptsAtDecisionHashVersion_def applyWithReceiptsAtDecisionHashVersion_def)
    from apply_cases [OF this] 3 show ?thesis by auto
  qed
qed

lemma lookup_last:
  assumes "st_hasLastReceipt s" "st_lastReceipt s = r"
  shows "r_InputID r = in_InputID input \<Longrightarrow> r_StreamSequence r = in_StreamSequence input \<Longrightarrow>
      lookupReceipt s None input = Inr (Some r)"
    and "(r_InputID r = in_InputID input) \<noteq> (r_StreamSequence r = in_StreamSequence input) \<Longrightarrow>
      \<exists>det. lookupReceipt s None input = Inl (input_error input ErrInputConflict det)"
  using assms by (auto simp: lookupReceipt_def sameReceiptIdentity_def)

lemma fresh_trading:
  assumes "ApplyTradingWithReceiptsAtDecisionHashVersion X s input a R v = (s', d, None)"
    and "lookupReceipt s R input = Inr None"
  shows "fresh_apply X s input R CurrentSchemaVersion (trading_transition X input a v) v s' d"
    and "EncodeTradingAction a = in_Payload input"
    and "TradingActionAllowedForInputKind (in_Kind input) (act_Kind a)"
  using trading_cases [OF assms(1)] assms(2) by (auto simp: replayed_def)

lemmas fresh_trading_facts = fresh_apply_facts [OF fresh_trading(1) action_version_trading_only]

lemma hashInputAtVersion_current [simp]:
  "hashInputAtVersion input CurrentInputHashVersion = Inr (hashInput input)"
  by (simp add: hashInputAtVersion_def hashInput_def)

text \<open>The entry points unfold to the common routine.\<close>

lemmas entry_defs = ApplyTradingWithReceiptsAtDecisionHashVersion_def
  applyWithReceiptsAtDecisionHashVersion_def applyWithSchemaAndDecisionHashVersion_def

section \<open>The ledger of a decision\<close>

definition final_total :: "Extern \<Rightarrow> BalanceSnapshot list \<Rightarrow> string \<times> string \<Rightarrow> rat" where
  "final_total X changes k = (case Parse X (bs_Total (lastBalanceChange changes (fst k) (snd k))) of
     Inl _ \<Rightarrow> 0 | Inr t \<Rightarrow> dval t)"

definition previous_total :: "State \<Rightarrow> string \<times> string \<Rightarrow> rat" where
  "previous_total previous k = (case rawBalanceTotal previous (fst k) (snd k) of
     None \<Rightarrow> 0 | Some t \<Rightarrow> dval t)"

definition entry_key :: "LedgerTransactionSnapshot \<Rightarrow> string \<times> string" where
  "entry_key t = (le_AccountID (hd (lt_Entries t)), le_Currency (hd (lt_Entries t)))"

text \<open>
  The double entry of one balance: the account moves by the change of its total, the clearing
  account by the opposite, in the same currency.
\<close>

definition double_entry :: "Extern \<Rightarrow> State \<Rightarrow> BalanceSnapshot list \<Rightarrow> LedgerTransactionSnapshot \<Rightarrow> bool" where
  "double_entry X previous changes t = (\<exists>x y a c. lt_Entries t = [x, y]
     \<and> le_AccountID y = SystemClearingAccount \<and> le_Currency y = le_Currency x
     \<and> Parse X (le_Amount x) = Inr a \<and> Parse X (le_Amount y) = Inr c \<and> dval a + dval c = 0
     \<and> dval a = final_total X changes (entry_key t) - previous_total previous (entry_key t)
     \<and> dval a \<noteq> 0)"

lemma map_of_last_change:
  "map_of (rev (map (\<lambda>c. (change_key c, c)) cs)) k = find (\<lambda>c. change_key c = k) (rev cs)"
proof -
  have "map_of (map (\<lambda>c. (f c, c)) xs) k = find (\<lambda>c. f c = k) xs" for f and xs :: "BalanceSnapshot list"
    by (induction xs) auto
  then show ?thesis by (simp add: rev_map)
qed

lemma last_change_final:
  "k \<in> change_key ` set cs \<Longrightarrow>
    map_of (rev (map (\<lambda>c. (change_key c, c)) cs)) k = Some (lastBalanceChange cs (fst k) (snd k))"
  by (auto simp: map_of_last_change lastBalanceChange_def find_None_iff split: option.split)

context apd_lib
begin

lemma previous_total_raw:
  assumes "\<forall>b \<in> set (ts_balances (st_trading previous)). money_ok (ba_total b)"
  shows "dec_ok (case rawBalanceTotal previous a c of None \<Rightarrow> zeroDecimal | Some t \<Rightarrow> t)"
    and "dval (case rawBalanceTotal previous a c of None \<Rightarrow> zeroDecimal | Some t \<Rightarrow> t) = previous_total previous (a, c)"
  using assms by (auto simp: rawBalanceTotal_def previous_total_def money_ok_def
    dest: find_Some_mem split: option.split)

lemma ledger_from_entries:
  assumes ok: "\<forall>b \<in> set (ts_balances (st_trading previous)). money_ok (ba_total b)"
    and fin: "\<And>k. k \<in> set ks \<Longrightarrow> final k = Some (lastBalanceChange changes (fst k) (snd k))"
    and res: "ledger_from X previous input final ks ts0 = Inr ts"
  shows "\<exists>us. ts = ts0 @ us
    \<and> map entry_key us = filter (\<lambda>k. final_total X changes k \<noteq> previous_total previous k) ks
    \<and> (\<forall>t \<in> set us. double_entry X previous changes t)"
  using fin res
proof (induction ks arbitrary: ts0)
  case (Cons k ks)
  let ?prev = "case rawBalanceTotal previous (fst k) (snd k) of None \<Rightarrow> zeroDecimal | Some t \<Rightarrow> t"
  have fk: "final k = Some (lastBalanceChange changes (fst k) (snd k))" using Cons.prems(1) by simp
  from Cons.prems(2) fk obtain n delta where
    n: "Parse X (bs_Total (lastBalanceChange changes (fst k) (snd k))) = Inr n"
    and sub: "Decimal_Sub X n ?prev = Inr delta"
    by (auto split: sum.splits simp: Let_def)
  have nok: "dec_ok n" using n ParseWithMaxScale_ok by (auto simp: Parse_def)
  note pok = previous_total_raw [OF ok, of "fst k" "snd k"]
  have d: "dec_ok delta" "dval delta = final_total X changes k - previous_total previous k"
    using Sub_ok [OF nok pok(1) sub] pok(2) n by (auto simp: final_total_def)
  show ?case
  proof (cases "dval delta = 0")
    case True
    then have "ledger_from X previous input final ks ts0 = Inr ts"
      using Cons.prems(2) fk n sub d by (simp add: IsZero_dec)
    with Cons.IH Cons.prems(1) True d show ?thesis by auto
  next
    case False
    with Cons.prems(2) fk n sub d obtain counter where
      c: "Decimal_Sub X zeroDecimal delta = Inr counter"
      and rest: "ledger_from X previous input final ks
        (ts0 @ [ledger_transaction X input k (length ts0) delta counter]) = Inr ts"
      by (auto simp: IsZero_dec split: sum.splits)
    let ?t = "ledger_transaction X input k (length ts0) delta counter"
    have cok: "dec_ok counter" "dval counter = - dval delta"
      using Sub_ok [OF dec_ok_zero d(1) c] by auto
    from Cons.IH [OF _ rest] Cons.prems(1) obtain us where
      us: "ts = (ts0 @ [?t]) @ us"
        "map entry_key us = filter (\<lambda>k. final_total X changes k \<noteq> previous_total previous k) ks"
        "\<forall>t \<in> set us. double_entry X previous changes t" by auto
    have tk: "entry_key ?t = k" by (simp add: entry_key_def ledger_transaction_def Let_def)
    have "double_entry X previous changes ?t"
      using d cok False Parse_String_full
      by (auto simp: double_entry_def tk) (auto simp: ledger_transaction_def Let_def)
    with us tk d False show ?thesis by (intro exI [of _ "?t # us"]) auto
  qed
qed simp

lemma deriveLedgerChanges_double_entry:
  assumes "\<forall>b \<in> set (ts_balances (st_trading previous)). money_ok (ba_total b)"
    and "deriveLedgerChanges X previous input changes = Inr ts"
  shows "map entry_key ts = filter (\<lambda>k. final_total X changes k \<noteq> previous_total previous k)
        (sort_by (<) (remdups (map change_key changes)))
    \<and> (\<forall>t \<in> set ts. double_entry X previous changes t)"
proof -
  have "\<exists>us. ts = [] @ us
    \<and> map entry_key us = filter (\<lambda>k. final_total X changes k \<noteq> previous_total previous k)
        (sort_by (<) (remdups (map change_key changes)))
    \<and> (\<forall>t \<in> set us. double_entry X previous changes t)"
    by (rule ledger_from_entries [OF assms(1)])
      (use assms(2) last_change_final in \<open>auto simp: deriveLedgerChanges_def Let_def\<close>)
  then show ?thesis by auto
qed

end

end
