(* ===== verification/Samples.thy ===== *)
theory Samples
  imports KernelChain
begin

text \<open>
  Concrete inputs on which the properties are exercised: an input envelope that carries a trading
  action, the configuration of an account, and a shard that has committed it.
\<close>

definition sample_id :: "u8 \<Rightarrow> ID" where
  "sample_id b = replicate 15 0 @ [b]"

definition sample_input :: "u8 \<Rightarrow> u64 \<Rightarrow> InputKind \<Rightarrow> TradingAction \<Rightarrow> InputEnvelope" where
  "sample_input b sequence kind action = \<lparr>in_InputID = sample_id b, in_SchemaVersion = 1, in_ShardID = 7,
     in_Kind = kind, in_SourceID = ''source'', in_SourceSequence = 1, in_StreamSequence = sequence,
     in_MarketSequence = 0, in_LogicalTime = 1000, in_ConfigurationVersion = 1,
     in_InstrumentVersion = 1, in_Payload = EncodeTradingAction action\<rparr>"

definition no_action :: TradingAction where
  "no_action = \<lparr>act_Kind = TradingActionKindOther '''', act_ConfigureInstrument = None,
     act_ConfigureAccount = None, act_ConfigureRisk = None, act_AdjustBalance = None,
     act_SettleFunding = None, act_LiquidateAccount = None, act_UpdateBook = None,
     act_SubmitOrder = None, act_PlaceBracket = None, act_AmendOrder = None, act_CancelOrder = None\<rparr>"

definition sample_account :: TradingAction where
  "sample_account = no_action\<lparr>act_Kind := TradingActionConfigureAccount,
     act_ConfigureAccount := Some \<lparr>ca_AccountID = ''alice'', ca_OmsMode = OmsModeNetting\<rparr>\<rparr>"

abbreviation sample_configure :: InputEnvelope where
  "sample_configure \<equiv> sample_input 1 1 InputKindConfiguration sample_account"

lemma sample_id_nonzero [simp]: "ID_IsZero (sample_id b) \<longleftrightarrow> b = 0"
  by (auto simp: ID_IsZero_def sample_id_def zeroID_def numeral_eq_Suc)

lemma NewState_sel [simp]:
  "st_shardID (NewState k) = k" "st_nextStreamSequence (NewState k) = 1" "st_ready (NewState k)"
  "st_hash (NewState k) = hashInitialState k" "st_trading (NewState k) = emptyTrading"
  "st_marketSequence (NewState k) = 0" "\<not> st_hasLastReceipt (NewState k)"
  by (simp_all add: NewState_def)

lemma sample_input_sel [simp]:
  "in_InputID (sample_input b n k a) = sample_id b" "in_StreamSequence (sample_input b n k a) = n"
  "in_Kind (sample_input b n k a) = k" "in_Payload (sample_input b n k a) = EncodeTradingAction a"
  by (simp_all add: sample_input_def)

lemma sample_id_inj [simp]: "sample_id a = sample_id b \<longleftrightarrow> a = b"
  by (simp add: sample_id_def)

lemma sample_account_applied:
  "applyTradingActionAtDecisionHashVersion X (NewState 7) sample_configure sample_account 4 =
    (with_trading (NewState 7) (replaceAccount emptyTrading
        \<lparr>ac_accountID = ''alice'', ac_omsMode = OmsModeNetting\<rparr>),
     acceptedDecision\<lparr>d_AccountChanges := [\<lparr>as_AccountID = ''alice'', as_OmsMode = OmsModeNetting\<rparr>]\<rparr>)"
  by (simp add: applyTradingActionAtDecisionHashVersion_def sample_account_def no_action_def
    applyTradingAction_def validTradingActionUnion_def members_present_def configureTradingAccount_def
    hasOpenPositions_def hasActiveOrders_def emptyTrading_def)

text \<open>
  An input that moves no balance and fills nothing commits: its completion and its hashes cannot fail.
\<close>

lemma complete_quiet:
  assumes "d_Fills d = []" "d_BalanceChanges d = []" "ts_balances (st_trading n) = []"
  shows "\<exists>s' d'. complete_decision X s input 4 (n, d) = Inr (s', d')"
  using assms by (auto simp: complete_decision_def freezeFillEffectiveLeverage_def Let_def
    completeBalanceProjectionChanges_def deriveLedgerChanges_def sort_by_def)

lemma seal_current: "\<exists>d'. seal_decision s input 4 m d = Inr d'"
  by (simp add: seal_decision_def hashEffectsAtVersion_def hashDecisionAtVersion_def)

lemma commit_quiet:
  assumes "lookupReceipt s R input = Inr None" "st_ready s"
    "validateEnvelope s input CurrentSchemaVersion = None"
    "in_StreamSequence input = st_nextStreamSequence s" "st_nextStreamSequence s \<noteq> - 1"
    "EncodeTradingAction a = in_Payload input"
    "TradingActionAllowedForInputKind (in_Kind input) (act_Kind a)"
    and t: "applyTradingActionAtDecisionHashVersion X s input a 4 = (n, d)"
    and q: "d_Fills d = []" "d_BalanceChanges d = []" "ts_balances (st_trading n) = []"
  shows "\<exists>s' d'. ApplyTradingWithReceiptsAtDecisionHashVersion X s input a R 4 = (s', d', None)"
proof -
  obtain n' d' where c: "complete_decision X s input 4 (n, d) = Inr (n', d')"
    using complete_quiet [OF q] by blast
  obtain d'' where "seal_decision s input 4 (st_nextStreamSequence n' + 1) d' = Inr d''"
    using seal_current by blast
  with assms(1-8) c show ?thesis by (simp add: entry_defs Let_def)
qed

lemma sample_fresh: "lookupReceipt (NewState 7) None input = Inr None"
  by (simp add: lookupReceipt_def)

lemma validateEnvelope_sample:
  "b \<noteq> 0 \<Longrightarrow> n \<noteq> 0 \<Longrightarrow> InputKind_valid k \<Longrightarrow> st_shardID s = 7 \<Longrightarrow>
    validateEnvelope s (sample_input b n k a) CurrentSchemaVersion = None"
  by (simp add: validateEnvelope_def sample_input_def current_versions)

lemma sample_kind [simp]:
  "TradingActionAllowedForInputKind InputKindConfiguration (act_Kind sample_account)"
  "InputKind_valid InputKindConfiguration" "InputKind_valid InputKindCommand"
  by (simp_all add: sample_account_def TradingActionAllowedForInputKind_def InputKind_valid_def)

lemma nat_text_1: "nat_text (Suc 0) = ''1''"
  by code_simp

lemma sample_commit:
  "\<exists>s' d. ApplyTradingWithReceiptsAtDecisionHashVersion X (NewState 7) sample_configure sample_account None 4
     = (s', d, None)"
  by (rule commit_quiet [OF sample_fresh _ validateEnvelope_sample _ _ _ _ sample_account_applied])
    (simp_all add: acceptedDecision_def zeroDecision_def replaceAccount_def emptyTrading_def upsert_def)

end
