(* ===== verification/EngineInvariant.thy ===== *)
theory EngineInvariant
  imports EngineHistory
begin

text \<open>
  The well-formedness invariant of the trading state. Every record is well formed on its own
  (\<open>order_wf\<close>, \<open>fill_wf\<close>, \<open>position_wf\<close>, \<open>book_wf\<close>, \<open>instrument_wf\<close>), the registries are keyed, the active
  orders and open positions refer to the registered revision of their instrument (\<open>current\<close>), the
  filled quantity and the average price of an order are those of its fills (\<open>accounted\<close>), and per
  instrument the positions add up to the fills (\<open>conserved\<close>). This theory states the invariant and
  shows that matching, settlement and execution keep it.
\<close>

section \<open>Well-formed records\<close>

definition unit_qty :: "InstrumentRevision \<Rightarrow> Quantity \<Rightarrow> bool" where
  "unit_qty i q = (qty_ok q \<and> q_instrument q = i)"

definition unit_price :: "InstrumentRevision \<Rightarrow> Price \<Rightarrow> bool" where
  "unit_price i p = (price_ok p \<and> p_instrument p = i \<and> 0 < pval p)"

definition unit_money :: "Currency \<Rightarrow> Money \<Rightarrow> bool" where
  "unit_money c m = (money_ok m \<and> m_currency m = c)"

lemmas unit_wf_defs = unit_qty_def unit_price_def unit_money_def

definition order_wf :: "orderRecord \<Rightarrow> bool" where
  "order_wf order = (unit_qty (or_instrument order) (or_quantity order)
     \<and> unit_qty (or_instrument order) (or_filledQuantity order)
     \<and> qval (or_filledQuantity order) \<le> qval (or_quantity order)
     \<and> (or_originalQuantity order = zeroQuantity \<or> unit_qty (or_instrument order) (or_originalQuantity order))
     \<and> (or_hasPrice order \<longrightarrow> unit_price (or_instrument order) (or_price order))
     \<and> (or_hasTrigger order \<longrightarrow> unit_price (or_instrument order) (or_triggerPrice order))
     \<and> (or_hasAverage order \<longrightarrow> unit_price (or_instrument order) (or_averagePrice order))
     \<and> (\<not> marketUsesDeepestFallback order \<longrightarrow> or_hasPrice order)
     \<and> (trigger_type (or_orderType order) \<longrightarrow> or_hasTrigger order)
     \<and> (or_hasSlippageBand order \<longrightarrow> price_ok (or_slippageReference order) \<and> 0 < pval (or_slippageReference order))
     \<and> (or_status order = OrderStatusFilled \<longrightarrow> qval (or_filledQuantity order) = qval (or_quantity order))
     \<and> Side_valid (or_side order))"

definition fill_wf :: "fillRecord \<Rightarrow> bool" where
  "fill_wf fill = (unit_qty (fi_instrument fill) (fi_quantity fill) \<and> 0 < qval (fi_quantity fill)
     \<and> unit_price (fi_instrument fill) (fi_price fill)
     \<and> (fi_hasRealizedPnL fill \<longrightarrow> money_ok (fi_realizedPnL fill)) \<and> (fi_hasFee fill \<longrightarrow> money_ok (fi_fee fill)))"

definition position_wf :: "positionRecord \<Rightarrow> bool" where
  "position_wf p = (unit_qty (po_instrument p) (po_quantity p) \<and> unit_price (po_instrument p) (po_averageOpenPrice p)
     \<and> unit_money (po_settlementCurrency p) (po_realizedPnL p)
     \<and> unit_money (po_settlementCurrency p) (po_isolatedCollateral p)
     \<and> (po_status p = PositionStatusOpen \<longleftrightarrow> 0 < qval (po_quantity p)))"

definition level_wf :: "InstrumentRevision \<Rightarrow> levelRecord \<Rightarrow> bool" where
  "level_wf i l = (unit_price i (lv_price l) \<and> unit_qty i (lv_quantity l) \<and> 0 < qval (lv_quantity l))"

text \<open>A book is quoted in one revision, each side is sorted from the best price, and it is not crossed.\<close>

definition book_wf :: "bookRecord \<Rightarrow> bool" where
  "book_wf b = (\<exists>i. ir_id i = bo_instrumentID b \<and> (\<forall>l \<in> set (bo_bids b) \<union> set (bo_asks b). level_wf i l)
     \<and> (bo_hasMark b \<longrightarrow> unit_price i (bo_markPrice b))
     \<and> sorted_wrt (\<lambda>x y. pval (lv_price y) \<le> pval (lv_price x)) (bo_bids b)
     \<and> sorted_wrt (\<lambda>x y. pval (lv_price x) \<le> pval (lv_price y)) (bo_asks b)
     \<and> (\<forall>x \<in> set (bo_bids b). \<forall>y \<in> set (bo_asks b). pval (lv_price x) < pval (lv_price y)))"

definition instrument_wf :: "instrumentRecord \<Rightarrow> bool" where
  "instrument_wf r = (ir_id (im_revision r) \<noteq> [] \<and> cur_code (im_settlementCurrency r) \<noteq> []
     \<and> rate_ok (im_initialMarginRate r) \<and> 0 \<le> dval (rate_value (im_initialMarginRate r))
     \<and> rate_ok (im_maintenanceMarginRate r) \<and> 0 \<le> dval (rate_value (im_maintenanceMarginRate r))
     \<and> ratio_ok (im_maxLeverage r) \<and> 0 < dval (ratio_value (im_maxLeverage r))
     \<and> rate_ok (im_makerFeeRate r) \<and> \<bar>dval (rate_value (im_makerFeeRate r))\<bar> \<le> 1
     \<and> rate_ok (im_takerFeeRate r) \<and> \<bar>dval (rate_value (im_takerFeeRate r))\<bar> \<le> 1)"

definition risk_wf :: "riskRecord \<Rightarrow> bool" where
  "risk_wf r = (ratio_ok (rk_leverage r) \<and> 0 < dval (ratio_value (rk_leverage r)) \<and> MarginMode_valid (rk_marginMode r))"

section \<open>The invariant\<close>

definition config_wf :: "tradingState \<Rightarrow> bool" where
  "config_wf t = ((\<forall>r \<in> set (ts_instruments t). instrument_wf r) \<and> keyed (\<lambda>r. ir_id (im_revision r)) (ts_instruments t)
     \<and> (\<forall>r \<in> set (ts_risks t). risk_wf r) \<and> keyed (\<lambda>r. (rk_accountID r, rk_instrumentID r)) (ts_risks t)
     \<and> keyed ac_accountID (ts_accounts t)
     \<and> (\<forall>b \<in> set (ts_books t). book_wf b) \<and> keyed bo_instrumentID (ts_books t)
     \<and> distinct (map cur_code (ts_currencyScales t)) \<and> im_settlementCurrency ` set (ts_instruments t) \<subseteq> set (ts_currencyScales t))"

definition current :: "tradingState \<Rightarrow> InstrumentRevision \<Rightarrow> bool" where
  "current t i = (find_instrument t (ir_id i) = Some i)"

definition records_wf :: "tradingState \<Rightarrow> bool" where
  "records_wf t = ((\<forall>order \<in> set (ts_orders t). order_wf order
        \<and> (active_status (or_status order) \<longrightarrow> current t (or_instrument order)))
     \<and> (\<forall>f \<in> set (ts_fills t). fill_wf f)
     \<and> (\<forall>p \<in> set (ts_positions t). position_wf p \<and> (po_status p = PositionStatusOpen \<longrightarrow> current t (po_instrument p)))
     \<and> (\<forall>b \<in> set (ts_balances t). money_ok (ba_total b)))"

text \<open>The executions of an order: price and quantity of each of its fills.\<close>

definition executions :: "fillRecord list \<Rightarrow> ID \<Rightarrow> PriceQuantity list" where
  "executions fills orderID = map (\<lambda>fill. \<lparr>pq_Price = fi_price fill, pq_Quantity = fi_quantity fill\<rparr>)
     (filter (\<lambda>fill. fi_orderID fill = orderID) fills)"

definition executed_quantity :: "fillRecord list \<Rightarrow> ID \<Rightarrow> rat" where
  "executed_quantity fills orderID = (\<Sum>v\<leftarrow>executions fills orderID. qval (pq_Quantity v))"

definition order_accounted :: "Extern \<Rightarrow> fillRecord list \<Rightarrow> orderRecord \<Rightarrow> bool" where
  "order_accounted X fills order =
     (qval (or_filledQuantity order) = executed_quantity fills (or_orderID order)
      \<and> (if or_hasAverage order
         then WeightedAveragePrice X (executions fills (or_orderID order)) = Inr (or_averagePrice order)
         else executions fills (or_orderID order) = []))"

definition accounted :: "Extern \<Rightarrow> tradingState \<Rightarrow> bool" where
  "accounted X t = (distinct (map or_orderID (ts_orders t))
     \<and> (\<forall>order \<in> set (ts_orders t). order_accounted X (ts_fills t) order)
     \<and> fi_orderID ` set (ts_fills t) \<subseteq> or_orderID ` set (ts_orders t))"

definition fill_signed :: "fillRecord \<Rightarrow> rat" where
  "fill_signed f = (if positionSide (fi_side f) = PositionSideLong then qval (fi_quantity f) else - qval (fi_quantity f))"

definition position_signed :: "positionRecord \<Rightarrow> rat" where
  "position_signed p = (if po_side p = PositionSideLong then qval (po_quantity p) else - qval (po_quantity p))"

definition net_fills :: "InstrumentRevision \<Rightarrow> fillRecord list \<Rightarrow> rat" where
  "net_fills i fills = (\<Sum>f\<leftarrow>fills. if fi_instrument f = i then fill_signed f else 0)"

definition net_positions :: "InstrumentRevision \<Rightarrow> positionRecord list \<Rightarrow> rat" where
  "net_positions i ps = (\<Sum>p\<leftarrow>ps. if po_instrument p = i then position_signed p else 0)"

definition conserved :: "fillRecord list \<Rightarrow> positionRecord list \<Rightarrow> bool" where
  "conserved fills ps = (\<forall>i. net_positions i ps = net_fills i fills)"

definition trading_wf :: "Extern \<Rightarrow> tradingState \<Rightarrow> bool" where
  "trading_wf X t = (config_wf t \<and> records_wf t \<and> accounted X t \<and> conserved (ts_fills t) (ts_positions t))"

section \<open>Orders replaced in place\<close>

lemma set_order_scales [simp]: "ts_currencyScales (set_order t i order) = ts_currencyScales t"
  by (simp add: set_order_def)

lemma current_cong: "ts_instruments t = ts_instruments s \<Longrightarrow> current t = current s"
  by (auto simp: fun_eq_iff current_def find_instrument_def)

lemma config_frame: "exec_frame n s t \<Longrightarrow> config_wf s \<Longrightarrow> config_wf t"
  by (simp add: exec_frame_def config_wf_def)

lemma current_frame: "exec_frame n s t \<Longrightarrow> current t = current s"
  by (rule current_cong) (simp add: exec_frame_def)

lemma sum_list_update_diff:
  "i < length xs \<Longrightarrow> (\<Sum>x\<leftarrow>xs[i := y]. f x :: rat) = (\<Sum>x\<leftarrow>xs. f x) - f (xs ! i) + f y"
  by (induction xs arbitrary: i) (auto split: nat.split)

definition same_execution :: "orderRecord \<Rightarrow> orderRecord \<Rightarrow> bool" where
  "same_execution a b = (or_orderID b = or_orderID a \<and> qval (or_filledQuantity b) = qval (or_filledQuantity a)
     \<and> or_averagePrice b = or_averagePrice a \<and> or_hasAverage b = or_hasAverage a)"

lemma order_accounted_cong: "same_execution a b \<Longrightarrow> order_accounted X fills b = order_accounted X fills a"
  by (simp add: same_execution_def order_accounted_def)

lemma trading_wf_order:
  assumes "trading_wf X t" "i < length (ts_orders t)"
  shows "order_wf (ts_orders t ! i)" "active_status (or_status (ts_orders t ! i)) \<Longrightarrow> current t (or_instrument (ts_orders t ! i))"
    "order_accounted X (ts_fills t) (ts_orders t ! i)"
  using assms by (auto simp: trading_wf_def records_wf_def accounted_def)

lemma accounted_set_order:
  assumes "accounted X t" "i < length (ts_orders t) \<Longrightarrow> same_execution (ts_orders t ! i) order"
  shows "accounted X (set_order t i order)"
proof (cases "i < length (ts_orders t)")
  case True
  then have se: "same_execution (ts_orders t ! i) order" using assms(2) by simp
  then have m: "map or_orderID ((ts_orders t)[i := order]) = map or_orderID (ts_orders t)"
    by (intro map_update_same) (simp add: same_execution_def)
  moreover have "order_accounted X (ts_fills t) order"
    using order_accounted_cong [OF se] assms(1) True by (simp add: accounted_def)
  ultimately show ?thesis using assms(1) set_update_subset_insert [of "ts_orders t" i order]
    by (auto simp: accounted_def simp flip: set_map)
next
  case False
  then have "(ts_orders t)[i := order] = ts_orders t" by (simp add: list_update_beyond)
  with assms(1) show ?thesis by (simp add: accounted_def)
qed

lemma trading_wf_set_order:
  assumes "trading_wf X t"
    and "i < length (ts_orders t) \<Longrightarrow> same_execution (ts_orders t ! i) order \<and> order_wf order
      \<and> (active_status (or_status order) \<longrightarrow> current t (or_instrument order))"
  shows "trading_wf X (set_order t i order)"
proof -
  have c: "current (set_order t i order) = current t" by (rule current_cong) simp
  have r: "records_wf (set_order t i order)"
  proof (cases "i < length (ts_orders t)")
    case True
    with assms show ?thesis using set_update_subset_insert [of "ts_orders t" i order]
      by (auto simp: trading_wf_def records_wf_def c)
  next
    case False
    then have "(ts_orders t)[i := order] = ts_orders t" by (simp add: list_update_beyond)
    with assms(1) show ?thesis by (simp add: trading_wf_def records_wf_def c)
  qed
  have "accounted X (set_order t i order)"
    using assms by (intro accounted_set_order) (auto simp: trading_wf_def)
  with r assms(1) show ?thesis by (simp add: trading_wf_def config_wf_def)
qed


section \<open>Reduce-only orders and bracket protection\<close>

lemma reduceOnlyPositionIndex_open:
  "reduceOnlyPositionIndex t order = Some i \<Longrightarrow> i < length (ts_positions t)
    \<and> po_status (ts_positions t ! i) = PositionStatusOpen \<and> po_accountID (ts_positions t ! i) = or_accountID order
    \<and> ir_id (po_instrument (ts_positions t ! i)) = ir_id (or_instrument order)"
  by (auto simp: reduceOnlyPositionIndex_def netPositionIndex_def dest!: first_index_Some split: if_splits)

lemma current_unique: "current t i \<Longrightarrow> current t j \<Longrightarrow> ir_id i = ir_id j \<Longrightarrow> i = j"
  by (simp add: current_def)

lemma order_wf_resized:
  "order_wf order \<Longrightarrow> unit_qty (or_instrument order) q \<Longrightarrow> qval (or_filledQuantity order) \<le> qval q \<Longrightarrow>
    or_status order \<noteq> OrderStatusFilled \<Longrightarrow> order_wf (order\<lparr>or_quantity := q, or_positionID := p\<rparr>)"
  by (simp add: order_wf_def marketUsesDeepestFallback_def)

lemma order_wf_quiet [simp]:
  "order_wf (order\<lparr>or_positionID := p\<rparr>) = order_wf order"
  "order_wf (order\<lparr>or_version := v\<rparr>) = order_wf order"
  "order_wf (order\<lparr>or_hasRested := r\<rparr>) = order_wf order"
  "order_wf (order\<lparr>or_triggered := b, or_triggeredAt := l\<rparr>) = order_wf order"
  "order_wf (order\<lparr>or_bracketID := i, or_bracketLeg := k\<rparr>) = order_wf order"
  by (simp_all add: order_wf_def marketUsesDeepestFallback_def)

lemma order_wf_status:
  "order_wf order \<Longrightarrow> st \<noteq> OrderStatusFilled \<Longrightarrow> order_wf (order\<lparr>or_status := st\<rparr>)"
  "order_wf order \<Longrightarrow> order_wf (cancelled order)"
  "order_wf order \<Longrightarrow> order_wf (rejected_order r order)"
  by (simp_all add: order_wf_def marketUsesDeepestFallback_def cancelled_def rejected_order_def)

lemma active_not_filled: "active_status st \<Longrightarrow> st \<noteq> OrderStatusFilled"
  by (auto simp: active_status_def)

lemma records_wf_position:
  "records_wf t \<Longrightarrow> i < length (ts_positions t) \<Longrightarrow> position_wf (ts_positions t ! i)
    \<and> (po_status (ts_positions t ! i) = PositionStatusOpen \<longrightarrow> current t (po_instrument (ts_positions t ! i)))"
  by (simp add: records_wf_def)

context apd_lib
begin

text \<open>Within the range of a quantity that exists, a sum exists.\<close>

lemma quantity_add_below:
  assumes "unit_qty i a" "unit_qty i b" "unit_qty i c" "qval a + qval b \<le> qval c"
  shows "\<exists>d. Quantity_Add X a b = Inr d \<and> unit_qty i d \<and> qval d = qval a + qval b"
proof -
  have nn: "0 \<le> dval (q_value a)" "0 \<le> dval (q_value b)" "dval (q_value c) < 10 ^ 20"
    using assms dec_ok_range [of "q_value c"] by (auto simp: unit_qty_def unit_defs)
  then have "\<bar>dval (q_value a) + dval (q_value b)\<bar> < 10 ^ 20" using assms(4) by (simp add: qval_def)
  then obtain d where d: "Decimal_Add X (q_value a) (q_value b) = Inr d"
    using Add_total [of "q_value a" "q_value b"] assms(1,2) by (auto simp: unit_qty_def unit_defs)
  then have dv: "dec_ok d" "dval d = dval (q_value a) + dval (q_value b)"
    using Add_ok assms(1,2) by (auto simp: unit_qty_def unit_defs)
  have "on_grid (ir_quantityScale i) (dval (q_value a))" "on_grid (ir_quantityScale i) (dval (q_value b))"
    using assms(1,2) by (auto simp: unit_qty_def unit_defs dec_ok_grid)
  then have "dscale d \<le> ir_quantityScale i" using dv on_grid_add by (auto simp: dec_ok_grid)
  then show ?thesis using assms(1,2) d dv nn
    by (auto simp: Quantity_Add_def unit_qty_def unit_defs quantityFromDecimal_ok)
qed

lemma unit_qty_sub: "unit_qty i a \<Longrightarrow> unit_qty j b \<Longrightarrow> Quantity_Sub X a b = Inr c \<Longrightarrow>
    unit_qty i c \<and> qval c = qval a - qval b \<and> i = j"
  using quantity.sub_ok [of a b c] by (auto simp: unit_qty_def)

lemma unit_qty_add: "unit_qty i a \<Longrightarrow> unit_qty j b \<Longrightarrow> Quantity_Add X a b = Inr c \<Longrightarrow>
    unit_qty i c \<and> qval c = qval a + qval b \<and> i = j"
  using quantity.add_ok [of a b c] by (auto simp: unit_qty_def)

lemma qval_compare: "unit_qty i a \<Longrightarrow> unit_qty j b \<Longrightarrow>
    (Decimal_Cmp X (q_value a) (q_value b) < 0 \<longleftrightarrow> qval a < qval b) \<and> (0 < Decimal_Cmp X (q_value a) (q_value b) \<longleftrightarrow> qval b < qval a)
    \<and> (Decimal_Cmp X (q_value a) (q_value b) = 0 \<longleftrightarrow> qval a = qval b)
    \<and> (Decimal_Cmp X (q_value a) (q_value b) = -1 \<longleftrightarrow> qval a < qval b) \<and> (Decimal_Cmp X (q_value a) (q_value b) = 1 \<longleftrightarrow> qval b < qval a)
    \<and> Decimal_IsZero X (q_value a) = (qval a = 0)"
  by (simp add: unit_qty_def unit_defs dec_queries)

lemma clamp_wf:
  assumes "records_wf t" "order_wf order" "current t (or_instrument order)" "or_status order \<noteq> OrderStatusFilled"
  shows "order_wf (snd (clampReduceOnlyOrder X t order))"
    "same_execution order (snd (clampReduceOnlyOrder X t order))"
    "or_reduceOnly order \<Longrightarrow> fst (clampReduceOnlyOrder X t order) = RejectionNone \<Longrightarrow>
      \<exists>i. reduceOnlyPositionIndex t order = Some i
        \<and> po_side (ts_positions t ! i) \<noteq> positionSide (or_side order)
        \<and> or_positionID (snd (clampReduceOnlyOrder X t order)) = po_positionID (ts_positions t ! i)
        \<and> qval (or_quantity (snd (clampReduceOnlyOrder X t order))) - qval (or_filledQuantity order)
            \<le> qval (po_quantity (ts_positions t ! i))
        \<and> qval (or_quantity (snd (clampReduceOnlyOrder X t order))) \<le> qval (or_quantity order)"
proof -
  let ?c = "clampReduceOnlyOrder X t order"
  have main: "order_wf (snd ?c) \<and> same_execution order (snd ?c) \<and>
    (or_reduceOnly order \<longrightarrow> fst ?c = RejectionNone \<longrightarrow> (\<exists>i. reduceOnlyPositionIndex t order = Some i
        \<and> po_side (ts_positions t ! i) \<noteq> positionSide (or_side order)
        \<and> or_positionID (snd ?c) = po_positionID (ts_positions t ! i)
        \<and> qval (or_quantity (snd ?c)) - qval (or_filledQuantity order) \<le> qval (po_quantity (ts_positions t ! i))
        \<and> qval (or_quantity (snd ?c)) \<le> qval (or_quantity order)))"
  proof (cases "reduceOnlyPositionIndex t order")
    case None
    then show ?thesis using assms by (simp add: clampReduceOnlyOrder_def same_execution_def)
  next
    case (Some i)
    let ?p = "ts_positions t ! i"
    note po = reduceOnlyPositionIndex_open [OF Some]
    have pw: "position_wf ?p" "current t (po_instrument ?p)"
      using records_wf_position [OF assms(1), of i] po by auto
    have same: "po_instrument ?p = or_instrument order"
      by (rule current_unique [OF pw(2) assms(3)]) (use po in simp)
    have u: "unit_qty (or_instrument order) (or_quantity order)" "unit_qty (or_instrument order) (or_filledQuantity order)"
      "qval (or_filledQuantity order) \<le> qval (or_quantity order)" "Side_valid (or_side order)"
      using assms(2) by (auto simp: order_wf_def)
    have up: "unit_qty (or_instrument order) (po_quantity ?p)" using pw(1) same by (simp add: position_wf_def)
    have side: "po_side ?p \<noteq> positionSide (or_side order)"
      if "\<not> ((po_side ?p = PositionSideLong \<and> or_side order \<noteq> SideSell) \<or> (po_side ?p = PositionSideShort \<and> or_side order \<noteq> SideBuy))"
      using that by (cases "po_side ?p") (auto simp: positionSide_def)
    show ?thesis
    proof (cases "Quantity_Sub X (or_quantity order) (or_filledQuantity order)")
      case (Inl e)
      then show ?thesis using assms Some
        by (simp add: clampReduceOnlyOrder_def Let_def same_execution_def)
    next
      case (Inr r)
      note rv = unit_qty_sub [OF u(1,2) Inr]
      show ?thesis
      proof (cases "qval (po_quantity ?p) < qval r")
        case True
        then obtain q where q: "Quantity_Add X (or_filledQuantity order) (po_quantity ?p) = Inr q"
          "unit_qty (or_instrument order) q" "qval q = qval (or_filledQuantity order) + qval (po_quantity ?p)"
          using quantity_add_below [OF u(2) up u(1)] rv by auto
        have pn: "0 \<le> qval (po_quantity ?p)" using up by (simp add: unit_qty_def unit_defs)
        have "order_wf (order\<lparr>or_quantity := q, or_positionID := po_positionID ?p\<rparr>)"
          by (rule order_wf_resized) (use assms q pn in auto)
        then show ?thesis using assms Some Inr True q rv side qval_compare [of _ r _ "po_quantity ?p"] up
          by (auto simp: clampReduceOnlyOrder_def Let_def same_execution_def)
      next
        case False
        then show ?thesis using assms Some Inr rv side qval_compare [of _ r _ "po_quantity ?p"] up
          by (auto simp: clampReduceOnlyOrder_def Let_def same_execution_def)
      qed
    qed
  qed
  then show "order_wf (snd ?c)" "same_execution order (snd ?c)" by auto
  from main show "or_reduceOnly order \<Longrightarrow> fst ?c = RejectionNone \<Longrightarrow> \<exists>i. reduceOnlyPositionIndex t order = Some i
        \<and> po_side (ts_positions t ! i) \<noteq> positionSide (or_side order)
        \<and> or_positionID (snd ?c) = po_positionID (ts_positions t ! i)
        \<and> qval (or_quantity (snd ?c)) - qval (or_filledQuantity order) \<le> qval (po_quantity (ts_positions t ! i))
        \<and> qval (or_quantity (snd ?c)) \<le> qval (or_quantity order)" by blast
qed

lemma resize_wf:
  assumes "records_wf t" "order_wf order" "current t (or_instrument order)" "or_status order \<noteq> OrderStatusFilled"
  shows "order_wf (snd (resizeProtectionToPosition X t order))"
proof (cases "reduceOnlyPositionIndex t order")
  case None
  then show ?thesis using assms by (simp add: resizeProtectionToPosition_def)
next
  case (Some i)
  let ?p = "ts_positions t ! i"
  note po = reduceOnlyPositionIndex_open [OF Some]
  have pw: "position_wf ?p" "current t (po_instrument ?p)"
    using records_wf_position [OF assms(1), of i] po by auto
  have "po_instrument ?p = or_instrument order"
    by (rule current_unique [OF pw(2) assms(3)]) (use po in simp)
  then have up: "unit_qty (or_instrument order) (po_quantity ?p)" using pw(1) by (simp add: position_wf_def)
  have uf: "unit_qty (or_instrument order) (or_filledQuantity order)" using assms(2) by (simp add: order_wf_def)
  show ?thesis
  proof (cases "Quantity_Sub X (or_originalQuantity order) (or_filledQuantity order)")
    case (Inl e)
    then show ?thesis using assms Some by (simp add: resizeProtectionToPosition_def Let_def)
  next
    case (Inr cap)
    have uo: "unit_qty (or_instrument order) (or_originalQuantity order)"
    proof (rule ccontr)
      assume "\<not> ?thesis"
      then have "or_originalQuantity order = zeroQuantity" using assms(2) by (auto simp: order_wf_def)
      moreover have "ir_id (q_instrument zeroQuantity) \<noteq> ir_id (q_instrument (or_filledQuantity order))"
        using uf by (auto simp: unit_qty_def unit_defs zeroQuantity_def zeroInstrument_def)
      then have "q_instrument zeroQuantity \<noteq> q_instrument (or_filledQuantity order)" by metis
      ultimately show False using Inr quantity.mismatch by force
    qed
    note cv = unit_qty_sub [OF uo uf Inr]
    let ?want = "if 0 < Decimal_Cmp X (q_value cap) (q_value (po_quantity ?p)) then po_quantity ?p else cap"
    have w: "unit_qty (or_instrument order) ?want" "qval ?want \<le> qval cap" "0 \<le> qval ?want"
      using cv up qval_compare [of _ cap _ "po_quantity ?p"] by (auto simp: unit_qty_def unit_defs)
    obtain q where q: "Quantity_Add X (or_filledQuantity order) ?want = Inr q"
      "unit_qty (or_instrument order) q" "qval q = qval (or_filledQuantity order) + qval ?want"
      using quantity_add_below [OF uf w(1) uo] w(2) cv by auto
    have "order_wf (order\<lparr>or_quantity := q, or_positionID := or_positionID order\<rparr>)"
      by (rule order_wf_resized) (use assms q w(3) in auto)
    then show ?thesis using Some Inr q(1) by (simp add: resizeProtectionToPosition_def Let_def)
  qed
qed

text \<open>The invariant through the steps of the bracket folds; states are paired with the decision.\<close>

lemma cancel_at_wf:
  assumes "trading_wf X (fst sd)"
    "i < length (ts_orders (fst sd)) \<Longrightarrow> same_execution (ts_orders (fst sd) ! i) order \<and> order_wf order"
  shows "trading_wf X (fst (cancel_at X input i order sd))"
proof (cases sd)
  case (Pair t d)
  have "trading_wf X (set_order t i (cancelled order))"
    by (rule trading_wf_set_order)
      (use assms Pair order_wf_status(2) in \<open>auto simp: same_execution_def cancelled_def active_status_def\<close>)
  then show ?thesis by (simp add: Pair cancel_at_def)
qed

lemma resize_at_wf:
  assumes "trading_wf X (fst sd)"
    "i < length (ts_orders (fst sd)) \<Longrightarrow> same_execution (ts_orders (fst sd) ! i) order \<and> order_wf order
      \<and> current (fst sd) (or_instrument order)"
  shows "trading_wf X (fst (resize_at X input i b order sd))"
proof (cases sd)
  case (Pair t d)
  have "trading_wf X (set_order t i order)" "trading_wf X (set_order t i (order\<lparr>or_version := v\<rparr>))" for v
    by (rule trading_wf_set_order; use assms Pair in \<open>auto simp: same_execution_def\<close>)+
  then show ?thesis by (simp add: Pair resize_at_def Let_def)
qed

lemma clamped_wf:
  assumes "trading_wf X t" "i < length (ts_orders t)" "active_status (or_status (ts_orders t ! i))"
    "clampReduceOnlyOrder X t (ts_orders t ! i) = (r, order)"
  shows "order_wf order" "same_execution (ts_orders t ! i) order" "current t (or_instrument order)"
proof -
  let ?o = "ts_orders t ! i"
  have o: "records_wf t" "order_wf ?o" "current t (or_instrument ?o)"
    using assms(1-3) trading_wf_order [OF assms(1,2)] by (auto simp: trading_wf_def)
  note c = clamp_wf(1,2) [OF o active_not_filled [OF assms(3)]]
  show "order_wf order" "same_execution ?o order" using c assms(4) by auto
  show "current t (or_instrument order)"
    using o(3) clamp_evolves(1) [OF assms(3), of X t] assms(4) by (simp add: order_evolves_def)
qed

lemma cancel_protection_step_wf:
  "trading_wf X (fst sd) \<Longrightarrow> trading_wf X (fst (cancel_protection_step X b input sd i))"
  by (auto simp: cancel_protection_step_def Let_def same_execution_def dest: trading_wf_order intro!: cancel_at_wf)

lemma clamp_step_wf:
  assumes "trading_wf X (fst sd)" "active_status (or_status (ts_orders (fst sd) ! i))"
  shows "trading_wf X (fst (case clampReduceOnlyOrder X (fst sd) (ts_orders (fst sd) ! i) of (reason, order) \<Rightarrow>
     if reason \<noteq> RejectionNone then cancel_at X input i order sd else resize_at X input i b order sd))"
proof -
  obtain r order where c: "clampReduceOnlyOrder X (fst sd) (ts_orders (fst sd) ! i) = (r, order)" by fastforce
  note cw = clamped_wf [OF assms(1) _ assms(2) c]
  show ?thesis using assms(1) cw by (auto simp: c intro!: cancel_at_wf resize_at_wf)
qed

lemma self_cancel_wf: "trading_wf X (fst sd) \<Longrightarrow> trading_wf X (fst (cancel_at X input i (ts_orders (fst sd) ! i) sd))"
  by (rule cancel_at_wf) (auto simp: same_execution_def dest: trading_wf_order)

lemma sibling_step_wf: "trading_wf X (fst sd) \<Longrightarrow> trading_wf X (fst (sibling_step X order po input sd i))"
  using clamp_step_wf [of sd i input] self_cancel_wf [of sd input i]
  by (simp add: sibling_step_def Let_def protective_of_def)

lemma protection_step_wf: "trading_wf X (fst sd) \<Longrightarrow> trading_wf X (fst (protection_step X input sd i))"
  using clamp_step_wf [of sd i input] self_cancel_wf [of sd input i] resting_active
  by (simp add: protection_step_def Let_def)

lemma arm_step_wf:
  assumes "trading_wf X (fst sd)"
  shows "trading_wf X (fst (arm_step X b p input sd i))"
proof (cases sd)
  case (Pair t d)
  let ?o = "ts_orders t ! i"
  show ?thesis
  proof (cases "protective_of b ?o \<and> i < length (ts_orders t)")
    case True
    then have act: "active_status (or_status ?o)" by (simp add: protective_of_def)
    have t: "trading_wf X t" "records_wf t" using assms Pair by (auto simp: trading_wf_def)
    have o: "order_wf (?o\<lparr>or_positionID := p\<rparr>)" "current t (or_instrument (?o\<lparr>or_positionID := p\<rparr>))"
      using trading_wf_order [OF t(1)] True act by auto
    obtain q where q: "snd (resizeProtectionToPosition X t (?o\<lparr>or_positionID := p\<rparr>)) =
        ?o\<lparr>or_positionID := p, or_quantity := q\<rparr>"
      using resize_shape by blast
    have ow: "order_wf (?o\<lparr>or_positionID := p, or_quantity := q\<rparr>)"
      using resize_wf [OF t(2) o] act active_not_filled by (simp add: q)
    obtain r where r: "resizeProtectionToPosition X t (?o\<lparr>or_positionID := p\<rparr>) =
        (r, ?o\<lparr>or_positionID := p, or_quantity := q\<rparr>)"
      using q by (metis prod.collapse)
    have "order_wf (?o\<lparr>or_positionID := p, or_quantity := q, or_status := OrderStatusWorking\<rparr>)"
      using order_wf_status(1) [OF ow] by simp
    then have "trading_wf X (set_order t i (?o\<lparr>or_positionID := p, or_quantity := q\<rparr>))"
      "trading_wf X (set_order t i (?o\<lparr>or_positionID := p, or_quantity := q, or_version := v\<rparr>))"
      "trading_wf X (set_order t i (?o\<lparr>or_positionID := p, or_quantity := q, or_status := OrderStatusWorking, or_version := v\<rparr>))"
      for v
      using ow o(2)
      by (intro trading_wf_set_order t(1); simp add: same_execution_def)+
    then show ?thesis using True by (simp add: Pair arm_step_def r Let_def)
  next
    case False
    have "trading_wf X (set_order t i order)" if "\<not> i < length (ts_orders t)" for order
      using assms that by (intro trading_wf_set_order) (auto simp: Pair)
    then show ?thesis using False assms by (auto simp: Pair arm_step_def Let_def split: prod.split)
  qed
qed

lemma fold_wf:
  assumes "\<And>sd i. trading_wf X (fst sd) \<Longrightarrow> trading_wf X (fst (f sd i))" "trading_wf X (fst sd)"
  shows "trading_wf X (fst (foldl f sd is))"
  using assms by (induction "is" arbitrary: sd) auto

lemma reconcile_wf:
  assumes "trading_wf X t"
  shows "trading_wf X (fst (cancelBracketProtection X t b input d))"
    "trading_wf X (fst (armBracketProtection X t b p input d))"
    "trading_wf X (fst (reconcileBracketAfterExecution X t oi input d))"
    "trading_wf X (fst (reconcilePositionProtection X t input d))"
proof -
  show c: "trading_wf X (fst (cancelBracketProtection X t b input d))" "trading_wf X (fst (armBracketProtection X t b p input d))"
    "trading_wf X (fst (reconcilePositionProtection X t input d))" for b p
    using assms by (auto simp: cancelBracketProtection_def armBracketProtection_def reconcilePositionProtection_def
      intro!: fold_wf cancel_protection_step_wf arm_step_wf protection_step_wf)
  show "trading_wf X (fst (reconcileBracketAfterExecution X t oi input d))"
    using assms c(2)
    by (auto simp: reconcileBracketAfterExecution_def Let_def intro!: fold_wf sibling_step_wf split: option.split)
qed

end

end
