(* ===== verification/EngineFills.thy ===== *)
theory EngineFills
  imports EngineInvariant
begin

text \<open>
  Matching, fees, positions and execution keep the invariant of \<open>EngineInvariant\<close>: matching produces
  admissible fills that never exceed the order (\<open>match_wf\<close>), a fill moves its position by its own
  signed quantity (\<open>apply_fill_wf\<close>), and an execution leaves a well-formed state with the filled
  quantity and the average price of the order those of its fills (\<open>executeOrder_wf\<close>).
\<close>

section \<open>Matching\<close>

text \<open>A price the order admits: inside its limit and its slippage band.\<close>

definition admissible :: "Extern \<Rightarrow> orderRecord \<Rightarrow> Price \<Rightarrow> bool" where
  "admissible X order p = levelEligible X \<lparr>lv_price = p, lv_quantity = zeroQuantity\<rparr> order"

lemma levelEligible_price: "levelEligible X l order = admissible X order (lv_price l)"
  by (simp add: admissible_def levelEligible_def)

lemma admissible_filled [simp]: "admissible X (order\<lparr>or_filledQuantity := f\<rparr>) p = admissible X order p"
  by (simp add: admissible_def levelEligible_def marketUsesDeepestFallback_def priceViolatesSlippage_def)

text \<open>A fill the order produced at an admissible price.\<close>

definition order_fill :: "Extern \<Rightarrow> orderRecord \<Rightarrow> fillRecord \<Rightarrow> bool" where
  "order_fill X order f = (fi_orderID f = or_orderID order \<and> fi_accountID f = or_accountID order
     \<and> fi_instrument f = or_instrument order \<and> fi_side f = or_side order \<and> fill_wf f
     \<and> admissible X order (fi_price f))"

lemma order_fill_filled [simp]: "order_fill X (order\<lparr>or_filledQuantity := q\<rparr>) = order_fill X order"
  by (simp add: order_fill_def fun_eq_iff)

definition filled_by :: "fillRecord list \<Rightarrow> rat" where
  "filled_by fills = (\<Sum>f\<leftarrow>fills. qval (fi_quantity f))"

lemma filled_by_simps [simp]:
  "filled_by [] = 0" "filled_by (f # fs) = qval (fi_quantity f) + filled_by fs" "filled_by (fs @ gs) = filled_by fs + filled_by gs"
  by (simp_all add: filled_by_def)

lemma new_fill_order_fill:
  assumes "unit_qty (or_instrument order) q" "0 < qval q" "unit_price (or_instrument order) p" "admissible X order p"
  shows "order_fill X order (new_fill order input fills p q)" "fi_quantity (new_fill order input fills p q) = q"
  using assms by (simp_all add: order_fill_def new_fill_def fill_wf_def)

lemma order_wf_filled:
  "order_wf order \<Longrightarrow> unit_qty (or_instrument order) q \<Longrightarrow> qval q \<le> qval (or_quantity order) \<Longrightarrow>
    or_status order \<noteq> OrderStatusFilled \<Longrightarrow> order_wf (order\<lparr>or_filledQuantity := q\<rparr>)"
  by (simp add: order_wf_def marketUsesDeepestFallback_def)

context apd_lib
begin

lemma order_remaining:
  assumes "order_wf order" "Quantity_Sub X (or_quantity order) (or_filledQuantity order) = Inr r"
  shows "unit_qty (or_instrument order) r" "qval r = qval (or_quantity order) - qval (or_filledQuantity order)"
    "Decimal_IsZero X (q_value r) = (qval r = 0)" "(0 < Decimal_Sign X (q_value r)) = (0 < qval r)" "0 \<le> qval r"
proof -
  have u: "unit_qty (or_instrument order) (or_quantity order)" "unit_qty (or_instrument order) (or_filledQuantity order)"
    using assms(1) by (auto simp: order_wf_def)
  from unit_qty_sub [OF u assms(2)] show "unit_qty (or_instrument order) r"
    "qval r = qval (or_quantity order) - qval (or_filledQuantity order)" by auto
  then show "Decimal_IsZero X (q_value r) = (qval r = 0)" "(0 < Decimal_Sign X (q_value r)) = (0 < qval r)" "0 \<le> qval r"
    by (auto simp: unit_qty_def unit_defs dec_queries)
qed

lemma match_levels_wf:
  assumes "match_levels X input order fills deepest levels = Some (ls, order', fills', dp)"
    and "order_wf order" "or_status order \<noteq> OrderStatusFilled" "\<forall>l \<in> set levels. level_wf i l"
    and "\<forall>p. deepest = Some p \<longrightarrow> unit_price i p \<and> admissible X order p
      \<and> (i = or_instrument order \<or> qval (or_filledQuantity order) = qval (or_quantity order))"
  shows "order_wf order' \<and> (\<exists>q. order' = order\<lparr>or_filledQuantity := q\<rparr>)
    \<and> (\<exists>new. fills' = fills @ new \<and> list_all (order_fill X order) new
        \<and> qval (or_filledQuantity order') = qval (or_filledQuantity order) + filled_by new)
    \<and> (\<forall>p. dp = Some p \<longrightarrow> unit_price i p \<and> admissible X order p
      \<and> (i = or_instrument order \<or> qval (or_filledQuantity order') = qval (or_quantity order)))"
  using assms
proof (induction levels arbitrary: order fills deepest ls)
  case Nil
  then show ?case by (auto intro: exI [of _ "or_filledQuantity order"])
next
  case (Cons l levels)
  have same: "\<exists>q. order = order\<lparr>or_filledQuantity := q\<rparr>" by (rule exI [of _ "or_filledQuantity order"]) simp
  have lw: "unit_price i (lv_price l)" "unit_qty i (lv_quantity l)" "0 < qval (lv_quantity l)"
    using Cons.prems(4) by (auto simp: level_wf_def)
  show ?case
  proof (cases "levelEligible X l order")
    case False
    then show ?thesis using Cons.prems same by auto
  next
    case el: True
    then obtain r where r: "Quantity_Sub X (or_quantity order) (or_filledQuantity order) = Inr r"
      using Cons.prems(1) by (auto split: sum.splits)
    note rv = order_remaining [OF Cons.prems(2) r]
    have adm: "admissible X order (lv_price l)" using el by (simp add: levelEligible_price)
    show ?thesis
    proof (cases "qval r = 0")
      case True
      then show ?thesis using Cons.prems el r rv lw adm same by auto
    next
      case False
      define fq where "fq = (if Decimal_Cmp X (q_value (lv_quantity l)) (q_value r) < 0 then lv_quantity l else r)"
      obtain filled left rest where f: "Quantity_Add X (or_filledQuantity order) fq = Inr filled"
        and lf: "Quantity_Sub X (lv_quantity l) fq = Inr left"
        and rec: "match_levels X input (order\<lparr>or_filledQuantity := filled\<rparr>)
            (fills @ [new_fill order input fills (lv_price l) fq]) (Some (lv_price l)) levels = Some (rest, order', fills', dp)"
        using Cons.prems(1) el r rv(3) False by (auto simp: Let_def fq_def split: sum.splits option.splits prod.splits)
      have uf: "unit_qty (or_instrument order) (or_filledQuantity order)" using Cons.prems(2) by (simp add: order_wf_def)
      have fqv: "unit_qty i fq \<or> unit_qty (or_instrument order) fq" "qval fq \<le> qval r" "0 < qval fq"
        using lw rv False qval_compare [OF lw(2) rv(1)] by (auto simp: fq_def)
      have ii: "i = or_instrument order"
        using fqv(1) unit_qty_add [OF uf _ f] unit_qty_sub [OF lw(2) _ lf] by blast
      have uq: "unit_qty (or_instrument order) fq" using fqv(1) ii by blast
      have fv: "unit_qty (or_instrument order) filled" "qval filled = qval (or_filledQuantity order) + qval fq"
        using unit_qty_add [OF uf uq f] by blast+
      have ow: "order_wf (order\<lparr>or_filledQuantity := filled\<rparr>)"
        by (rule order_wf_filled) (use Cons.prems fv fqv rv in auto)
      have nf: "order_fill X order (new_fill order input fills (lv_price l) fq)"
        "fi_quantity (new_fill order input fills (lv_price l) fq) = fq"
        using new_fill_order_fill [of order fq "lv_price l"] fqv lw adm ii by auto
      have "order_wf order' \<and> (\<exists>q. order' = order\<lparr>or_filledQuantity := filled\<rparr>\<lparr>or_filledQuantity := q\<rparr>)
        \<and> (\<exists>new. fills' = (fills @ [new_fill order input fills (lv_price l) fq]) @ new
            \<and> list_all (order_fill X (order\<lparr>or_filledQuantity := filled\<rparr>)) new
            \<and> qval (or_filledQuantity order') = qval (or_filledQuantity (order\<lparr>or_filledQuantity := filled\<rparr>)) + filled_by new)
        \<and> (\<forall>p. dp = Some p \<longrightarrow> unit_price i p \<and> admissible X (order\<lparr>or_filledQuantity := filled\<rparr>) p
          \<and> (i = or_instrument (order\<lparr>or_filledQuantity := filled\<rparr>)
             \<or> qval (or_filledQuantity order') = qval (or_quantity (order\<lparr>or_filledQuantity := filled\<rparr>))))"
        by (rule Cons.IH [OF rec ow]) (use Cons.prems lw adm ii in auto)
      then obtain new where n: "fills' = (fills @ [new_fill order input fills (lv_price l) fq]) @ new"
          "list_all (order_fill X order) new" "qval (or_filledQuantity order') = qval filled + filled_by new"
        and rest: "order_wf order'" "\<exists>q. order' = order\<lparr>or_filledQuantity := q\<rparr>"
          "\<forall>p. dp = Some p \<longrightarrow> unit_price i p \<and> admissible X order p" by auto
      show ?thesis using rest ii n nf fv
        by (auto intro!: exI [of _ "new_fill order input fills (lv_price l) fq # new"])
    qed
  qed
qed

lemma match_wf:
  assumes "matchOrder X book order input fills = Some (book', order', fills')"
    and "order_wf order" "or_status order \<noteq> OrderStatusFilled"
    and lv: "\<forall>l \<in> set (bo_bids book) \<union> set (bo_asks book). level_wf i l"
  shows "order_wf order'" "\<exists>q. order' = order\<lparr>or_filledQuantity := q\<rparr>"
    "\<exists>new. fills' = fills @ new \<and> list_all (order_fill X order) new
      \<and> qval (or_filledQuantity order') = qval (or_filledQuantity order) + filled_by new"
proof -
  from assms(1) obtain ls o1 f1 dp where m: "match_levels X input order fills None (executableLevels book (or_side order))
      = Some (ls, o1, f1, dp)" and fb: "match_fallback X input ls o1 f1 dp = Some (order', fills')"
    by (auto simp: matchOrder_def Let_def split: option.splits prod.splits)
  have "\<forall>l \<in> set (executableLevels book (or_side order)). level_wf i l" using lv by (auto simp: executableLevels_def)
  from match_levels_wf [OF m assms(2,3) this, simplified] obtain q new where o1: "order_wf o1" "o1 = order\<lparr>or_filledQuantity := q\<rparr>" and new: "f1 = fills @ new"
      "list_all (order_fill X order) new" "qval (or_filledQuantity o1) = qval (or_filledQuantity order) + filled_by new"
    and dp: "\<forall>p. dp = Some p \<longrightarrow> unit_price i p \<and> admissible X order p
      \<and> (i = or_instrument order \<or> qval (or_filledQuantity o1) = qval (or_quantity order))"
    by (elim conjE exE) blast
  obtain r where r: "Quantity_Sub X (or_quantity o1) (or_filledQuantity o1) = Inr r"
    using fb by (auto simp: match_fallback_def split: sum.splits)
  note rv = order_remaining [OF o1(1) r]
  have main: "order_wf order' \<and> (\<exists>q. order' = order\<lparr>or_filledQuantity := q\<rparr>) \<and> (\<exists>new. fills' = fills @ new
      \<and> list_all (order_fill X order) new \<and> qval (or_filledQuantity order') = qval (or_filledQuantity order) + filled_by new)"
  proof (cases "(order', fills') = (o1, f1)")
    case True
    then show ?thesis using o1 new by auto
  next
    case False
    then obtain p where p: "dp = Some p"
      using fb unfolding match_fallback_def r sum.case by (cases dp) simp_all
    have pos: "0 < qval r"
      using False fb unfolding match_fallback_def r sum.case p option.case rv(4) by (cases "0 < qval r") simp_all
    have g: "(case Quantity_Add X (or_filledQuantity o1) r of Inl _ \<Rightarrow> None
        | Inr filled \<Rightarrow> Some (o1\<lparr>or_filledQuantity := filled\<rparr>, f1 @ [new_fill o1 input f1 p r])) = Some (order', fills')"
      using False fb unfolding match_fallback_def r sum.case p option.case by (simp split: if_splits)
    obtain filled where f: "Quantity_Add X (or_filledQuantity o1) r = Inr filled"
      using g by (cases "Quantity_Add X (or_filledQuantity o1) r") simp_all
    have res: "order' = o1\<lparr>or_filledQuantity := filled\<rparr>" "fills' = f1 @ [new_fill o1 input f1 p r]"
      using g f by auto
    have uf: "unit_qty (or_instrument o1) (or_filledQuantity o1)" using o1(1) by (simp add: order_wf_def)
    note fv = unit_qty_add [OF uf rv(1) f]
    have up: "unit_price (or_instrument o1) p" "admissible X o1 p" using dp p pos rv(2) o1(2) by auto
    note nf = new_fill_order_fill [OF rv(1) pos up, of input f1]
    have "order_wf (o1\<lparr>or_filledQuantity := filled\<rparr>)"
      by (rule order_wf_filled [OF o1(1)]) (use fv rv(2) o1(2) assms(3) in auto)
    then show ?thesis using res fv new nf o1(2)
      by (auto intro!: exI [of _ "new @ [new_fill o1 input f1 p r]"])
  qed
  then show "order_wf order'" "\<exists>q. order' = order\<lparr>or_filledQuantity := q\<rparr>"
    "\<exists>new. fills' = fills @ new \<and> list_all (order_fill X order) new
      \<and> qval (or_filledQuantity order') = qval (or_filledQuantity order) + filled_by new" by auto
qed

end

section \<open>Fees\<close>

text \<open>What the accounting of a fill depends on; fees and positions do not change it.\<close>

definition fill_core :: "fillRecord \<Rightarrow> ID \<times> string \<times> InstrumentRevision \<times> Side \<times> Price \<times> Quantity" where
  "fill_core f = (fi_orderID f, fi_accountID f, fi_instrument f, fi_side f, fi_price f, fi_quantity f)"

lemma executions_core: "executions fs i = map (\<lambda>(_, _, _, _, p, q). \<lparr>pq_Price = p, pq_Quantity = q\<rparr>)
    (filter (\<lambda>c. fst c = i) (map fill_core fs))"
  by (induction fs) (auto simp: executions_def fill_core_def)

lemma net_fills_core: "net_fills i fs = (\<Sum>(_, _, j, s, _, q)\<leftarrow>map fill_core fs. if j = i
    then if positionSide s = PositionSideLong then qval q else - qval q else 0)"
  by (induction fs) (auto simp: net_fills_def fill_signed_def fill_core_def)

lemma same_core:
  assumes "map fill_core fs = map fill_core gs"
  shows "executions fs = executions gs" "net_fills i fs = net_fills i gs" "fi_orderID ` set fs = fi_orderID ` set gs"
proof -
  show "executions fs = executions gs" "net_fills i fs = net_fills i gs"
    by (simp_all add: fun_eq_iff executions_core net_fills_core assms)
  have "fi_orderID ` set fs = fst ` set (map fill_core fs)" for fs by (force simp: fill_core_def)
  then show "fi_orderID ` set fs = fi_orderID ` set gs" using assms by metis
qed

lemma order_fill_core: "fill_core f = fill_core g \<Longrightarrow> order_fill X order f \<Longrightarrow> fill_wf g \<Longrightarrow> order_fill X order g"
  by (simp add: order_fill_def fill_core_def)

lemma find_instrument_wf: "config_wf t \<Longrightarrow> find_instrumentRecord t i = Some r \<Longrightarrow> instrument_wf r"
  by (auto simp: config_wf_def find_instrumentRecord_def dest: find_Some_mem)

lemma risk_of_wf: "config_wf t \<Longrightarrow> instrument_wf r \<Longrightarrow> ratio_ok (rk_leverage (risk_of t a r)) \<and> 0 < dval (ratio_value (rk_leverage (risk_of t a r)))"
  by (auto simp: risk_of_def config_wf_def risk_wf_def instrument_wf_def dest: find_Some_mem split: option.split)

context apd_lib
begin

lemma fee_fills_wf:
  "fee_fills X rate c side fs = Inr gs \<Longrightarrow> rate_ok rate \<Longrightarrow> list_all fill_wf fs \<Longrightarrow>
    map fill_core gs = map fill_core fs \<and> list_all fill_wf gs"
proof (induction fs arbitrary: gs)
  case (Cons f fs)
  then obtain fee rest where f: "TradingFee X (fi_price f) (fi_quantity f) rate c = Inr fee"
    "fee_fills X rate c side fs = Inr rest" "gs = f\<lparr>fi_liquiditySide := side, fi_fee := fee, fi_hasFee := True\<rparr> # rest"
    by auto
  have "money_ok fee" using TradingFee_ok [OF f(1)] Cons.prems by (auto simp: fill_wf_def unit_wf_defs)
  then show ?case using Cons f by (simp add: fill_core_def fill_wf_def)
qed simp

lemma applyTradingFees_wf:
  assumes "applyTradingFees X t order n = Inr u" "config_wf t" "\<forall>f \<in> set (ts_fills t). fill_wf f"
  shows "map fill_core (ts_fills u) = map fill_core (ts_fills t)" "\<forall>f \<in> set (ts_fills u). fill_wf f"
    "\<exists>fs. u = t\<lparr>ts_fills := fs\<rparr>"
proof -
  obtain r rate charged where r: "find_instrumentRecord t (ir_id (or_instrument order)) = Some r"
    and rate: "rate \<in> {im_makerFeeRate r, im_takerFeeRate r}"
    and c: "fee_fills X rate (im_settlementCurrency r) (executionLiquiditySide order) (drop n (ts_fills t)) = Inr charged"
    and u: "u = t\<lparr>ts_fills := take n (ts_fills t) @ charged\<rparr>"
    using assms(1) by (auto simp: applyTradingFees_def Let_def split: option.splits if_splits)
  have "rate_ok rate" using rate find_instrument_wf [OF assms(2) r] by (auto simp: instrument_wf_def)
  moreover have "list_all fill_wf (drop n (ts_fills t))" using assms(3) by (auto simp: list_all_iff dest: in_set_dropD)
  ultimately have f: "map fill_core charged = map fill_core (drop n (ts_fills t))" "list_all fill_wf charged"
    using fee_fills_wf [OF c] by auto
  show "map fill_core (ts_fills u) = map fill_core (ts_fills t)"
    by (simp add: u f(1)) (metis append_take_drop_id map_append take_map drop_map)
  show "\<forall>f \<in> set (ts_fills u). fill_wf f" using f(2) assms(3) by (auto simp: u list_all_iff dest: in_set_takeD)
  show "\<exists>fs. u = t\<lparr>ts_fills := fs\<rparr>" using u by blast
qed

text \<open>The average of positive prices of one instrument is a positive price of it.\<close>

lemma average_unit_price:
  assumes "WeightedAveragePrice X vs = Inr p"
    "\<forall>v \<in> set vs. unit_price i (pq_Price v) \<and> unit_qty i (pq_Quantity v)"
  shows "unit_price i p"
proof -
  have ok: "\<forall>v \<in> set vs. price_ok (pq_Price v) \<and> qty_ok (pq_Quantity v)" using assms(2) by (auto simp: unit_wf_defs)
  note a = WeightedAveragePrice_ok [OF assms(1) ok]
  have ne: "vs \<noteq> []" using a by auto
  define P where "P = (\<lambda>v. pval (pq_Price v)) ` set vs"
  have P: "finite P" "P \<noteq> {}" using ne by (auto simp: P_def)
  then have "Min P \<in> P" "Max P \<in> P" by (rule Min_in, rule Max_in)
  then obtain l h where l: "l \<in> set vs" "Min P = pval (pq_Price l)" and h: "h \<in> set vs" "Max P = pval (pq_Price h)"
    unfolding P_def image_iff by blast
  have b: "pval (pq_Price l) \<le> pval (pq_Price v) \<and> pval (pq_Price v) \<le> pval (pq_Price h)" if "v \<in> set vs" for v
  proof -
    have "pval (pq_Price v) \<in> P" using that by (simp add: P_def)
    then show ?thesis using Min_le [OF P(1)] Max_ge [OF P(1)] l(2) h(2) by metis
  qed
  have u: "p_instrument p = i" using a l(1) assms(2) by (auto simp: unit_wf_defs)
  have "pval (pq_Price l) \<le> pval p"
    using WeightedAveragePrice_between [OF assms(1) ok, of "pq_Price l" "pq_Price h"] l(1) h(1) assms(2) u b
    by (simp add: unit_wf_defs)
  then show ?thesis using a l(1) assms(2) u by (force simp: unit_price_def)
qed

end

section \<open>Positions\<close>

lemma net_positions_update:
  "i < length ps \<Longrightarrow> po_instrument p = po_instrument (ps ! i) \<Longrightarrow> net_positions j (ps[i := p]) =
    net_positions j ps + (if po_instrument p = j then position_signed p - position_signed (ps ! i) else 0)"
  by (simp add: net_positions_def sum_list_update_diff)

lemma net_positions_snoc: "net_positions j (ps @ [p]) = net_positions j ps + (if po_instrument p = j then position_signed p else 0)"
  by (simp add: net_positions_def)

lemma net_fills_snoc: "net_fills j (fs @ [f]) = net_fills j fs + (if fi_instrument f = j then fill_signed f else 0)"
  by (simp add: net_fills_def)

lemma position_signed_cong: "po_side p = po_side q \<Longrightarrow> po_quantity p = po_quantity q \<Longrightarrow> position_signed p = position_signed q"
  by (simp add: position_signed_def)

context apd_lib
begin

lemma money_step:
  "unit_money c a \<Longrightarrow> money_ok b \<Longrightarrow> Money_Add X a b = Inr r \<Longrightarrow> unit_money c r"
  "unit_money c a \<Longrightarrow> money_ok b \<Longrightarrow> Money_Sub X a b = Inr r \<Longrightarrow> unit_money c r"
  using money.add_ok [of a b r] money.sub_ok [of a b r] by (simp_all add: unit_money_def)

lemma applyFillToPosition_wf:
  assumes "applyFillToPosition X p f = Inr (p', f')" "position_wf p" "fill_wf f"
  shows "position_wf p'" "fill_wf f'" "fill_core f' = fill_core f" "po_instrument p' = fi_instrument f"
    "po_instrument p = fi_instrument f" "position_signed p' = position_signed p + fill_signed f"
proof -
  have pw: "unit_qty (po_instrument p) (po_quantity p)" "unit_price (po_instrument p) (po_averageOpenPrice p)"
    "unit_money (po_settlementCurrency p) (po_realizedPnL p)" and fw: "unit_qty (fi_instrument f) (fi_quantity f)"
    "0 < qval (fi_quantity f)" "unit_price (fi_instrument f) (fi_price f)"
    using assms(2,3) by (auto simp: position_wf_def fill_wf_def)
  have nn: "0 \<le> qval (po_quantity p)" using pw(1) by (simp add: unit_qty_def unit_defs)
  let ?side = "positionSide (fi_side f)"
  have "position_wf p' \<and> fill_wf f' \<and> fill_core f' = fill_core f \<and> po_instrument p' = fi_instrument f
      \<and> po_instrument p = fi_instrument f \<and> position_signed p' = position_signed p + fill_signed f"
  proof (cases "?side = po_side p")
    case True
    let ?vs = "[\<lparr>pq_Price = po_averageOpenPrice p, pq_Quantity = po_quantity p\<rparr>,
             \<lparr>pq_Price = fi_price f, pq_Quantity = fi_quantity f\<rparr>]"
    obtain a q where a: "WeightedAveragePrice X ?vs = Inr a" and q: "Quantity_Add X (po_quantity p) (fi_quantity f) = Inr q"
      and r: "p' = p\<lparr>po_quantity := q, po_averageOpenPrice := a, po_status := PositionStatusOpen\<rparr>"
        "f' = f\<lparr>fi_positionEffect := PositionEffectIncrease\<rparr>"
      using assms(1) True by (auto simp: applyFillToPosition_def Let_def)
    note qv = unit_qty_add [OF pw(1) fw(1) q]
    have "unit_price (po_instrument p) a" by (rule average_unit_price [OF a]) (use pw fw qv in auto)
    moreover have "0 < qval q" using qv nn fw(2) by auto
    ultimately show ?thesis using qv r assms(2,3) True
      by (auto simp: position_wf_def fill_wf_def fill_core_def position_signed_def fill_signed_def)
  next
    case False
    let ?cmp = "Decimal_Cmp X (q_value (fi_quantity f)) (q_value (po_quantity p))"
    define cq where "cq = (if 0 < ?cmp then po_quantity p else fi_quantity f)"
    note cmp = qval_compare [OF fw(1) pw(1)]
    obtain rl tot where rl: "RealizedPnL X (po_averageOpenPrice p) (fi_price f) cq (po_side p = PositionSideLong)
         (po_settlementCurrency p) = Inr rl" and tot: "Money_Add X (po_realizedPnL p) rl = Inr tot"
      using assms(1) False by (auto simp: applyFillToPosition_def Let_def cq_def)
    have "price_ok (po_averageOpenPrice p)" "price_ok (fi_price f)" "qty_ok cq"
      using pw fw by (auto simp: unit_wf_defs cq_def)
    from RealizedPnL_ok [OF rl this] have "money_ok rl" "m_currency rl = po_settlementCurrency p" by auto
    then have tv: "unit_money (po_settlementCurrency p) tot" "money_ok rl"
      using money_step(1) [OF pw(3) _ tot] by blast+
    let ?p = "p\<lparr>po_realizedPnL := tot\<rparr>" and ?f = "f\<lparr>fi_realizedPnL := rl, fi_hasRealizedPnL := True\<rparr>"
    have simps: "applyFillToPosition X p f = (if ?cmp = -1 then
          and_then (Quantity_Sub X (po_quantity p) (fi_quantity f)) (\<lambda>q.
            Inr (?p\<lparr>po_quantity := q\<rparr>, ?f\<lparr>fi_positionEffect := PositionEffectReduce\<rparr>))
        else if ?cmp = 0 then
          and_then (Quantity_Sub X (po_quantity p) (fi_quantity f)) (\<lambda>q.
            Inr (?p\<lparr>po_quantity := q, po_status := PositionStatusClosed\<rparr>, ?f\<lparr>fi_positionEffect := PositionEffectClose\<rparr>))
        else if ?cmp = 1 then
          and_then (Quantity_Sub X (fi_quantity f) (po_quantity p)) (\<lambda>q.
            Inr (?p\<lparr>po_quantity := q, po_side := ?side, po_averageOpenPrice := fi_price f, po_status := PositionStatusOpen\<rparr>,
                 ?f\<lparr>fi_positionEffect := PositionEffectFlip\<rparr>))
        else Inr (?p, ?f))"
      using False rl tot by (simp add: applyFillToPosition_def Let_def cq_def)
    have pside: "(?side = PositionSideLong) = (po_side p \<noteq> PositionSideLong)"
      using False by (cases ?side; cases "po_side p") auto
    note goal = position_wf_def fill_wf_def fill_core_def position_signed_def fill_signed_def
    consider (lt) "qval (fi_quantity f) < qval (po_quantity p)" | (eq) "qval (fi_quantity f) = qval (po_quantity p)"
      | (gt) "qval (po_quantity p) < qval (fi_quantity f)" by linarith
    then show ?thesis
    proof cases
      case lt
      with assms(1) cmp obtain q where q: "Quantity_Sub X (po_quantity p) (fi_quantity f) = Inr q"
        "p' = ?p\<lparr>po_quantity := q\<rparr>" "f' = ?f\<lparr>fi_positionEffect := PositionEffectReduce\<rparr>"
        unfolding simps by auto
      then show ?thesis using unit_qty_sub [OF pw(1) fw(1) q(1)] lt assms(2,3) tv pside fw by (auto simp: goal)
    next
      case eq
      with assms(1) cmp obtain q where q: "Quantity_Sub X (po_quantity p) (fi_quantity f) = Inr q"
        "p' = ?p\<lparr>po_quantity := q, po_status := PositionStatusClosed\<rparr>" "f' = ?f\<lparr>fi_positionEffect := PositionEffectClose\<rparr>"
        unfolding simps by auto
      then show ?thesis using unit_qty_sub [OF pw(1) fw(1) q(1)] eq assms(2,3) tv pside by (auto simp: goal)
    next
      case gt
      with assms(1) cmp obtain q where q: "Quantity_Sub X (fi_quantity f) (po_quantity p) = Inr q"
        "p' = ?p\<lparr>po_quantity := q, po_side := ?side, po_averageOpenPrice := fi_price f, po_status := PositionStatusOpen\<rparr>"
        "f' = ?f\<lparr>fi_positionEffect := PositionEffectFlip\<rparr>"
        unfolding simps by auto
      then show ?thesis using unit_qty_sub [OF fw(1) pw(1) q(1)] gt assms(2,3) tv pside fw by (auto simp: goal)
    qed
  qed
  then show "position_wf p'" "fill_wf f'" "fill_core f' = fill_core f" "po_instrument p' = fi_instrument f"
    "po_instrument p = fi_instrument f" "position_signed p' = position_signed p + fill_signed f" by auto
qed

lemma refreshPositionMargin_wf:
  assumes "refreshPositionMargin X t p = Inr p'" "config_wf t" "position_wf p"
  shows "position_wf p'" "po_instrument p' = po_instrument p" "position_signed p' = position_signed p"
    "po_status p' = po_status p"
proof -
  obtain zero where z: "NewMoney X ''0'' (po_settlementCurrency p) = Inr zero"
    using assms(1) by (auto simp: refreshPositionMargin_def)
  have zw: "unit_money (po_settlementCurrency p) zero" using NewMoney_ok [OF z] by (simp add: unit_money_def)
  have "\<exists>c. p' = p\<lparr>po_isolatedCollateral := c\<rparr> \<and> unit_money (po_settlementCurrency p) c"
  proof (cases "po_status p = PositionStatusClosed \<or> po_marginMode p \<noteq> MarginModeIsolated")
    case True
    then show ?thesis using assms(1) z zw by (auto simp: refreshPositionMargin_def)
  next
    case False
    then obtain r c where r: "find_instrumentRecord t (ir_id (po_instrument p)) = Some r"
      and c: "PositionMargin X (po_averageOpenPrice p) (po_quantity p) (im_initialMarginRate r)
           (rk_leverage (risk_of t (po_accountID p) r)) (po_settlementCurrency p) = Inr c"
      and p': "p' = p\<lparr>po_isolatedCollateral := c\<rparr>"
      using assms(1) z by (auto simp: refreshPositionMargin_def split: option.splits)
    have "money_ok c \<and> m_currency c = po_settlementCurrency p"
      using PositionMargin_ok [OF c] find_instrument_wf [OF assms(2) r] risk_of_wf [OF assms(2)] assms(3)
      by (auto simp: position_wf_def unit_wf_defs instrument_wf_def)
    then show ?thesis using p' by (auto simp: unit_money_def)
  qed
  then show "position_wf p'" "po_instrument p' = po_instrument p" "position_signed p' = position_signed p"
    "po_status p' = po_status p" using assms(3) by (auto simp: position_wf_def position_signed_def)
qed

lemma balance_delta_wf:
  assumes "\<forall>b \<in> set (ts_balances t). money_ok (ba_total b)" "money_ok m"
  shows "applyBalanceDelta X t a m = Inr u \<Longrightarrow> \<forall>b \<in> set (ts_balances u). money_ok (ba_total b)"
    "applyBalanceDebit X t a m = Inr u \<Longrightarrow> \<forall>b \<in> set (ts_balances u). money_ok (ba_total b)"
proof -
  have upd: "\<forall>b \<in> set (ts_balances (set_balance t i v)). money_ok (ba_total b)" if "money_ok v" for i v
    using assms(1) that set_update_subset_insert [of "ts_balances t" i] by (fastforce simp: set_balance_def)
  have old: "money_ok (ba_total (ts_balances t ! i))" if "balanceIndex t a (m_currency m) = Some i" for i
    using assms(1) first_index_bound that unfolding balanceIndex_def by (metis nth_mem)
  {
    assume "applyBalanceDelta X t a m = Inr u"
    then obtain i v where i: "balanceIndex t a (m_currency m) = Some i"
      "Money_Add X (ba_total (ts_balances t ! i)) m = Inr v" "u = set_balance t i v"
      by (auto simp: applyBalanceDelta_def split: option.splits)
    then show "\<forall>b \<in> set (ts_balances u). money_ok (ba_total b)"
      using money.add_ok [OF old [OF i(1)] assms(2) i(2)] upd by blast
  next
    assume "applyBalanceDebit X t a m = Inr u"
    then obtain i v where i: "balanceIndex t a (m_currency m) = Some i"
      "Money_Sub X (ba_total (ts_balances t ! i)) m = Inr v" "u = set_balance t i v"
      by (auto simp: applyBalanceDebit_def split: option.splits)
    then show "\<forall>b \<in> set (ts_balances u). money_ok (ba_total b)"
      using money.sub_ok [OF old [OF i(1)] assms(2) i(2)] upd by blast
  }
qed

lemma settle_fill_wf:
  assumes "settle_fill X t a f = Inr (u, ch)" "fill_wf f" "\<forall>b \<in> set (ts_balances t). money_ok (ba_total b)"
  shows "\<forall>b \<in> set (ts_balances u). money_ok (ba_total b)"
proof -
  let ?step = "if fi_hasRealizedPnL f
         then and_then (applyBalanceDelta X t a (fi_realizedPnL f)) (\<lambda>s. Inr (s, Decimal_Sign X (m_amount (fi_realizedPnL f)) \<noteq> 0))
         else Inr (t, False)"
  obtain t1 ch1 where 1: "?step = Inr (t1, ch1)"
    using assms(1) unfolding settle_fill_def by (cases ?step) (simp_all only: and_then_simps, simp, metis surj_pair)
  have 2: "(if fi_hasFee f \<and> Decimal_Sign X (m_amount (fi_fee f)) \<noteq> 0
         then and_then (applyBalanceDebit X t1 a (fi_fee f)) (\<lambda>s. Inr (s, True)) else Inr (t1, ch1)) = Inr (u, ch)"
    using assms(1) unfolding settle_fill_def 1 by simp
  have "\<forall>b \<in> set (ts_balances t1). money_ok (ba_total b)"
    using 1 assms(2,3) balance_delta_wf(1) [OF assms(3)] by (auto simp: fill_wf_def split: if_splits)
  then show ?thesis using 2 assms(2) balance_delta_wf(2) [of t1] by (auto simp: fill_wf_def split: if_splits)
qed

end

end
