(* ===== verification/EngineExecuted.thy ===== *)
theory EngineExecuted
  imports EngineFills
begin

text \<open>
  An execution keeps the invariant: the position each fill goes to (\<open>positionForFill_wf\<close>), the loop
  over the new fills with the conservation law as its loop invariant (\<open>apply_fills_wf\<close>), and the
  execution of one order with the status it ends in (\<open>executeOrder_wf\<close>), down to the sweep over the
  resting orders.
\<close>

section \<open>Fills applied to positions\<close>

lemma records_wf_cong:
  "ts_instruments t = ts_instruments s \<Longrightarrow> ts_orders t = ts_orders s \<Longrightarrow> records_wf s \<Longrightarrow>
   (\<And>f. f \<in> set (ts_fills t) \<Longrightarrow> fill_wf f) \<Longrightarrow>
   (\<And>p. p \<in> set (ts_positions t) \<Longrightarrow> position_wf p \<and> (po_status p = PositionStatusOpen \<longrightarrow> current s (po_instrument p))) \<Longrightarrow>
   (\<And>b. b \<in> set (ts_balances t) \<Longrightarrow> money_ok (ba_total b)) \<Longrightarrow> records_wf t"
  using current_cong [of t s] by (simp add: records_wf_def)

text \<open>The position a fill opens.\<close>

definition opened :: "orderRecord \<Rightarrow> fillRecord \<Rightarrow> Currency \<Rightarrow> MarginMode \<Rightarrow> Money \<Rightarrow> positionRecord" where
  "opened order f c m z = \<lparr>po_positionID = IDFromSequence (or_orderID order) 0, po_accountID = or_accountID order,
     po_instrument = or_instrument order, po_settlementCurrency = c, po_side = positionSide (fi_side f),
     po_status = PositionStatusOpen, po_quantity = fi_quantity f, po_averageOpenPrice = fi_price f, po_realizedPnL = z,
     po_marginMode = m, po_isolatedCollateral = z, po_version = 0\<rparr>"

lemma positionForFill_cases:
  assumes "positionForFill X s order f = Inr (t, j, cr)"
  obtains (existing) "\<not> cr" "t = s" "j < length (ts_positions s)"
  | (opens) c m z where "cr" "NewMoney X ''0'' c = Inr z" "t = s\<lparr>ts_positions := ts_positions s @ [opened order f c m z]\<rparr>"
      "j = length (ts_positions s)"
proof -
  let ?opens = "cr \<and> (\<exists>c m z. NewMoney X ''0'' c = Inr z
      \<and> t = s\<lparr>ts_positions := ts_positions s @ [opened order f c m z]\<rparr> \<and> j = length (ts_positions s))"
  have "\<not> cr \<and> t = s \<or> ?opens"
  proof (cases "cr \<and> \<not> or_reduceOnly order")
    case True
    then obtain r z where r: "find_instrumentRecord s (ir_id (or_instrument order)) = Some r"
      "NewMoney X ''0'' (im_settlementCurrency r) = Inr z"
      using assms by (auto simp: positionForFill_def Let_def split: option.splits)
    define m where "m = (if accountMode s (or_accountID order) = OmsModeHedging
        \<and> rk_marginMode (risk_of s (or_accountID order) r) = MarginModeIsolated
      then MarginModeCross else rk_marginMode (risk_of s (or_accountID order) r))"
    have "cr \<and> t = s\<lparr>ts_positions := ts_positions s @ [opened order f (im_settlementCurrency r) m z]\<rparr>
        \<and> j = length (ts_positions s)"
      using True assms unfolding opened_def positionForFill_def Let_def r option.case and_then_simps
      by (fold m_def) (simp split: option.splits)
    then have "?opens" using r(2) by blast
    then show ?thesis by blast
  next
    case False
    then show ?thesis using assms unfolding positionForFill_def Let_def
      by (cases "or_reduceOnly order") (simp_all split: option.splits)
  qed
  then show thesis using that positionForFill_frame [OF assms] by auto
qed

context apd_lib
begin

text \<open>
  The position of a fill: either an existing one, or a new one that holds just this fill.
\<close>

lemma positionForFill_wf:
  assumes "positionForFill X s order f = Inr (t, j, cr)" "records_wf s" "order_fill X order f" "current s (or_instrument order)"
  shows "records_wf t" "j < length (ts_positions t)"
    "\<not> cr \<Longrightarrow> t = s"
    "cr \<Longrightarrow> \<exists>p. t = s\<lparr>ts_positions := ts_positions s @ [p]\<rparr> \<and> j = length (ts_positions s) \<and> position_wf p
      \<and> po_instrument p = fi_instrument f \<and> position_signed p = fill_signed f"
proof -
  have "j < length (ts_positions t) \<and> (\<not> cr \<and> t = s \<or> cr \<and> (\<exists>p. t = s\<lparr>ts_positions := ts_positions s @ [p]\<rparr>
      \<and> j = length (ts_positions s) \<and> position_wf p \<and> po_instrument p = fi_instrument f \<and> position_signed p = fill_signed f))"
    using assms(1)
  proof (cases rule: positionForFill_cases)
    case (opens c m z)
    let ?p = "opened order f c m z"
    have "position_wf ?p" using assms(3) NewMoney_ok [OF opens(2)]
      by (auto simp: opened_def position_wf_def order_fill_def fill_wf_def unit_money_def)
    moreover have "po_instrument ?p = fi_instrument f" "position_signed ?p = fill_signed f"
      using assms(3) by (auto simp: opened_def order_fill_def position_signed_def fill_signed_def)
    ultimately show ?thesis using opens by auto
  qed auto
  then show j: "j < length (ts_positions t)" and "\<not> cr \<Longrightarrow> t = s"
    and n: "cr \<Longrightarrow> \<exists>p. t = s\<lparr>ts_positions := ts_positions s @ [p]\<rparr> \<and> j = length (ts_positions s) \<and> position_wf p
      \<and> po_instrument p = fi_instrument f \<and> position_signed p = fill_signed f" by blast+
  show "records_wf t"
  proof (cases cr)
    case True
    then obtain p where p: "t = s\<lparr>ts_positions := ts_positions s @ [p]\<rparr>" "position_wf p" "po_instrument p = fi_instrument f"
      using n by blast
    have "current s (po_instrument p)" using p(3) assms(3,4) by (simp add: order_fill_def)
    then show ?thesis using p assms(2) by (intro records_wf_cong [of t s]) (auto simp: records_wf_def)
  qed (use \<open>\<not> cr \<Longrightarrow> t = s\<close> assms(2) in simp)
qed

lemma apply_fill_wf:
  assumes "apply_fill X order input i s d = Inr (t, d')" "config_wf s" "records_wf s" "i < length (ts_fills s)"
    "order_fill X order (ts_fills s ! i)" "current s (or_instrument order)"
    "conserved (take i (ts_fills s)) (ts_positions s)"
  shows "records_wf t \<and> map fill_core (ts_fills t) = map fill_core (ts_fills s)
    \<and> conserved (take (Suc i) (ts_fills t)) (ts_positions t)"
  using assms(1)
proof (rule apply_fill_cases)
  fix s1 :: tradingState and j cr and p :: positionRecord and f :: fillRecord and p' :: positionRecord and ch
  let ?f = "ts_fills s ! i"
  let ?f2 = "f\<lparr>fi_positionID := po_positionID p\<rparr>" and ?p2 = "p'\<lparr>po_version := po_version p' + 1\<rparr>"
  let ?s2 = "s1\<lparr>ts_fills := (ts_fills s1)[i := ?f2], ts_positions := (ts_positions s1)[j := p]\<rparr>"
  let ?s3 = "s1\<lparr>ts_fills := (ts_fills s1)[i := ?f2], ts_positions := (ts_positions s1)[j := ?p2]\<rparr>"
  assume a: "positionForFill X s order ?f = Inr (s1, j, cr)"
    and b: "(if cr then Inr (ts_positions s1 ! j, (ts_fills s1 ! i)\<lparr>fi_positionEffect := PositionEffectOpen\<rparr>)
         else applyFillToPosition X (ts_positions s1 ! j) (ts_fills s1 ! i)) = Inr (p, f)"
    and c: "refreshPositionMargin X ?s2 p = Inr p'"
    and e: "settle_fill X ?s3 (po_accountID p') ?f2 = Inr (t, ch)"
  note pf = positionForFill_wf [OF a assms(3,5,6)] and fr = positionForFill_frame [OF a, of 0]
  have fs1: "ts_fills s1 = ts_fills s" and cur: "current s1 = current s" and cfg: "config_wf s1"
    using fr current_frame config_frame assms(2) by blast+
  have fw: "fill_wf ?f" "fi_instrument ?f = or_instrument order" using assms(5) by (auto simp: order_fill_def)
  have old: "position_wf (ts_positions s1 ! j)" using records_wf_position [OF pf(1,2)] by simp
  have moved: "position_wf p \<and> fill_wf f \<and> fill_core f = fill_core ?f \<and> po_instrument p = fi_instrument ?f
      \<and> po_instrument (ts_positions s1 ! j) = fi_instrument ?f
      \<and> net_positions k ((ts_positions s1)[j := p]) = net_positions k (ts_positions s)
          + (if fi_instrument ?f = k then fill_signed ?f else 0)" for k
  proof (cases cr)
    case True
    then obtain q where q: "s1 = s\<lparr>ts_positions := ts_positions s @ [q]\<rparr>" "j = length (ts_positions s)" "position_wf q"
        "po_instrument q = fi_instrument ?f" "position_signed q = fill_signed ?f" using pf(4) by blast
    then have "p = q" "f = ?f\<lparr>fi_positionEffect := PositionEffectOpen\<rparr>" using b True by auto
    then show ?thesis using q fw by (auto simp: fill_core_def fill_wf_def net_positions_snoc)
  next
    case False
    then have s1: "s1 = s" using pf(3) by blast
    have ap: "applyFillToPosition X (ts_positions s1 ! j) ?f = Inr (p, f)" using b False fs1 by simp
    note w = applyFillToPosition_wf [OF ap old fw(1)]
    show ?thesis using w net_positions_update [OF pf(2), of p k] s1 by auto
  qed
  have new: "position_wf p" "fill_wf f" "fill_core f = fill_core ?f" "po_instrument p = fi_instrument ?f"
      "po_instrument (ts_positions s1 ! j) = fi_instrument ?f" using moved by blast+
  have "config_wf ?s2" using cfg by (simp add: config_wf_def)
  note rf = refreshPositionMargin_wf [OF c this new(1)]
  have p2: "position_wf ?p2" "po_instrument ?p2 = fi_instrument ?f" "position_signed ?p2 = position_signed p"
    using rf new by (auto simp: position_wf_def position_signed_def)
  have f2: "fill_wf ?f2" "fill_core ?f2 = fill_core ?f" using new by (auto simp: fill_wf_def fill_core_def)
  note sf = settle_fill_frame [OF e, of 0]
  have bal: "\<forall>b \<in> set (ts_balances t). money_ok (ba_total b)"
    by (rule settle_fill_wf [OF e f2(1)]) (use pf(1) in \<open>simp add: records_wf_def\<close>)
  have "records_wf t"
  proof (rule records_wf_cong [of _ s1])
    show "ts_instruments t = ts_instruments s1" "ts_orders t = ts_orders s1" using sf by (auto simp: exec_frame_def)
    show "fill_wf g" if "g \<in> set (ts_fills t)" for g
      using that sf pf(1) f2(1) set_update_subset_insert [of "ts_fills s1" i ?f2] by (auto simp: records_wf_def)
    show "position_wf q \<and> (po_status q = PositionStatusOpen \<longrightarrow> current s1 (po_instrument q))" if "q \<in> set (ts_positions t)" for q
      using that sf pf(1) p2 fw(2) assms(6) cur set_update_subset_insert [of "ts_positions s1" j ?p2]
      by (auto simp: records_wf_def)
  qed (use pf(1) bal in auto)
  moreover have "map fill_core (ts_fills t) = map fill_core (ts_fills s)"
    using sf f2(2) fs1 by (simp add: map_update_same)
  moreover have "conserved (take (Suc i) (ts_fills t)) (ts_positions t)"
    unfolding conserved_def
  proof
    fix k
    have "net_positions k (ts_positions t) = net_positions k ((ts_positions s1)[j := ?p2])" using sf by simp
    also have "\<dots> = net_positions k ((ts_positions s1)[j := p])"
      using p2(2,3) new pf(2) by (simp add: net_positions_update)
    also have "\<dots> = net_fills k (take i (ts_fills s)) + (if fi_instrument ?f = k then fill_signed ?f else 0)"
      using moved [of k] assms(7) by (simp add: conserved_def)
    also have "\<dots> = net_fills k (take (Suc i) (ts_fills s))"
      using assms(4) by (simp add: take_Suc_conv_app_nth net_fills_snoc)
    also have "\<dots> = net_fills k (take (Suc i) (ts_fills t))"
      by (rule same_core(2)) (use \<open>map fill_core (ts_fills t) = map fill_core (ts_fills s)\<close> in \<open>metis take_map\<close>)
    finally show "net_positions k (ts_positions t) = net_fills k (take (Suc i) (ts_fills t))" .
  qed
  ultimately show ?thesis by blast
qed

lemma apply_fills_wf:
  assumes "apply_fills X order input [i ..< n] s d = (Inr t, d')" "n = length (ts_fills s)" "i \<le> n"
    "config_wf s" "records_wf s" "\<forall>k. i \<le> k \<and> k < n \<longrightarrow> order_fill X order (ts_fills s ! k)"
    "current s (or_instrument order)" "conserved (take i (ts_fills s)) (ts_positions s)"
  shows "records_wf t \<and> map fill_core (ts_fills t) = map fill_core (ts_fills s) \<and> conserved (ts_fills t) (ts_positions t)"
  using assms
proof (induction "n - i" arbitrary: i s d)
  case 0
  then show ?case by simp
next
  case (Suc m)
  then have i: "i < n" by simp
  then have up: "[i ..< n] = i # [Suc i ..< n]" by (rule upt_conv_Cons)
  obtain s1 d1 where a: "apply_fill X order input i s d = Inr (s1, d1)"
    and r: "apply_fills X order input [Suc i ..< n] s1 d1 = (Inr t, d')"
    using Suc.prems(1) unfolding up by (auto split: sum.splits)
  have ff: "order_fill X order (ts_fills s ! i)" "i < length (ts_fills s)" using Suc.prems(2,6) i by auto
  have w: "records_wf s1" "map fill_core (ts_fills s1) = map fill_core (ts_fills s)"
    "conserved (take (Suc i) (ts_fills s1)) (ts_positions s1)"
    using apply_fill_wf [OF a Suc.prems(4,5) ff(2,1) Suc.prems(7,8)] by auto
  have fr: "exec_frame i s s1" using apply_fill_step [OF a order_refl] by (simp add: exec_step_def)
  have len: "length (ts_fills s1) = length (ts_fills s)" using w(2) map_eq_imp_length_eq by blast
  have ok: "order_fill X order (ts_fills s1 ! k)" if "Suc i \<le> k" "k < n" for k
  proof (rule order_fill_core)
    show "fill_core (ts_fills s ! k) = fill_core (ts_fills s1 ! k)"
      using w(2) that Suc.prems(2) len by (metis nth_map)
    show "fill_wf (ts_fills s1 ! k)" using w(1) that Suc.prems(2) len by (simp add: records_wf_def)
  qed (use Suc.prems(6) that in simp)
  have "records_wf t \<and> map fill_core (ts_fills t) = map fill_core (ts_fills s1) \<and> conserved (ts_fills t) (ts_positions t)"
    by (rule Suc.hyps(1) [OF _ r]) (use Suc.hyps(2) Suc.prems i len w ok fr config_frame current_frame in auto)
  with w(2) show ?case by simp
qed

lemma executions_append: "executions (fs @ gs) i = executions fs i @ executions gs i"
  by (simp add: executions_def)

lemma executions_own:
  "list_all (order_fill X order) new \<Longrightarrow> executed_quantity new (or_orderID order) = filled_by new"
  "list_all (order_fill X order) new \<Longrightarrow> i \<noteq> or_orderID order \<Longrightarrow> executions new i = []"
  by (induction new) (auto simp: executed_quantity_def executions_def order_fill_def)

lemma average_of_fills:
  assumes "WeightedAveragePrice X (executions fs i) = Inr p" "\<forall>f \<in> set fs. fill_wf f"
    "f \<in> set fs" "fi_orderID f = i"
  shows "unit_price (fi_instrument f) p"
proof -
  let ?vs = "executions fs i"
  have ok: "\<forall>v \<in> set ?vs. price_ok (pq_Price v) \<and> qty_ok (pq_Quantity v)"
    using assms(2) by (auto simp: executions_def fill_wf_def unit_wf_defs)
  note a = WeightedAveragePrice_ok [OF assms(1) ok]
  have u: "\<forall>v \<in> set ?vs. unit_price (p_instrument p) (pq_Price v) \<and> unit_qty (p_instrument p) (pq_Quantity v)"
    using assms(2) a by (auto simp: executions_def fill_wf_def unit_wf_defs)
  have "\<lparr>pq_Price = fi_price f, pq_Quantity = fi_quantity f\<rparr> \<in> set ?vs" using assms(3,4) by (force simp: executions_def)
  then have "p_instrument (fi_price f) = p_instrument p" using u by (auto simp: unit_wf_defs)
  moreover have "p_instrument (fi_price f) = fi_instrument f" using assms(2,3) by (auto simp: fill_wf_def unit_wf_defs)
  ultimately show ?thesis using average_unit_price [OF assms(1) u] by simp
qed

section \<open>Execution\<close>

lemma order_fill_average [simp]:
  "order_fill X (order\<lparr>or_averagePrice := a, or_hasAverage := h\<rparr>) = order_fill X order"
  by (simp add: order_fill_def fun_eq_iff admissible_def levelEligible_def marketUsesDeepestFallback_def priceViolatesSlippage_def)

text \<open>The accounts of all orders after one of them has executed.\<close>

lemma accounted_executed:
  assumes "accounted X s" "oi < length (ts_orders s)" "list_all (order_fill X (ts_orders s ! oi)) new"
    "map fill_core (ts_fills t) = map fill_core (ts_fills s @ new)" "ts_orders t = (ts_orders s)[oi := order]"
    "or_orderID order = or_orderID (ts_orders s ! oi)"
    "qval (or_filledQuantity order) = qval (or_filledQuantity (ts_orders s ! oi)) + filled_by new"
    "or_hasAverage order" "WeightedAveragePrice X (executions (ts_fills t) (or_orderID order)) = Inr (or_averagePrice order)"
  shows "accounted X t"
  unfolding accounted_def
proof (intro conjI ballI)
  let ?o = "ts_orders s ! oi"
  have ids: "map or_orderID (ts_orders t) = map or_orderID (ts_orders s)"
    using assms(5,6) by (simp add: map_update_same)
  then show "distinct (map or_orderID (ts_orders t))" using assms(1) by (simp add: accounted_def)
  have idset: "or_orderID ` set (ts_orders t) = or_orderID ` set (ts_orders s)"
    using arg_cong [OF ids, of set] by simp
  have "fi_orderID f = or_orderID ?o" if "f \<in> set new" for f using that assms(3) by (auto simp: list_all_iff order_fill_def)
  then have "fi_orderID ` set (ts_fills s @ new) \<subseteq> or_orderID ` set (ts_orders s)"
    using assms(1,2) by (auto simp: accounted_def)
  then show "fi_orderID ` set (ts_fills t) \<subseteq> or_orderID ` set (ts_orders t)"
    using same_core(3) [OF assms(4)] idset by simp
  have ex: "executions (ts_fills t) i = executions (ts_fills s) i @ executions new i" for i
    using same_core(1) [OF assms(4)] by (simp add: executions_append)
  fix k assume "k \<in> set (ts_orders t)"
  then obtain j where j: "j < length (ts_orders s)" "k = (ts_orders s)[oi := order] ! j"
    unfolding assms(5) in_set_conv_nth by auto
  show "order_accounted X (ts_fills t) k"
  proof (cases "j = oi")
    case True
    have "qval (or_filledQuantity ?o) = executed_quantity (ts_fills s) (or_orderID ?o)"
      using assms(1,2) by (auto simp: accounted_def order_accounted_def)
    then have "qval (or_filledQuantity order) = executed_quantity (ts_fills t) (or_orderID order)"
      using executions_own(1) [OF assms(3)] assms(6,7) by (simp add: executed_quantity_def ex)
    then show ?thesis using j True assms(2,8,9) by (simp add: order_accounted_def)
  next
    case False
    then have k: "k = ts_orders s ! j" using j by simp
    then have "or_orderID k \<noteq> or_orderID ?o"
      using assms(1,2) j False nth_eq_iff_index_eq [of "map or_orderID (ts_orders s)" j oi] by (auto simp: accounted_def)
    then have "executions (ts_fills t) (or_orderID k) = executions (ts_fills s) (or_orderID k)"
      using executions_own(2) [OF assms(3)] by (simp add: ex)
    moreover have "order_accounted X (ts_fills s) k" unfolding k using assms(1) j(1) by (simp add: accounted_def)
    ultimately show ?thesis by (simp add: order_accounted_def executed_quantity_def)
  qed
qed

lemma match_candidate_wf:
  assumes "match_candidate X s input oi book d = (Some t, d')" "trading_wf X s" "book_wf book"
    and oi: "oi < length (ts_orders s)" "active_status (or_status (ts_orders s ! oi))"
  shows "trading_wf X t"
proof -
  let ?n = "length (ts_fills s)" and ?o = "ts_orders s ! oi"
  let ?pb = "\<lparr>bo_instrumentID = bo_instrumentID book, bo_markPrice = zeroPrice,
            bo_hasMark = False, bo_bids = bo_bids book, bo_asks = bo_asks book\<rparr>"
  have s: "config_wf s" "records_wf s" "accounted X s" "conserved (ts_fills s) (ts_positions s)"
    using assms(2) by (auto simp: trading_wf_def)
  note ow = trading_wf_order [OF assms(2) oi(1)]
  obtain i where lv: "\<forall>l \<in> set (bo_bids ?pb) \<union> set (bo_asks ?pb). level_wf i l" using assms(3) by (auto simp: book_wf_def)
  obtain pb order fills where m: "matchOrder X ?pb ?o input (ts_fills s) = Some (pb, order, fills)"
    using assms(1) by (auto simp: match_candidate_def Let_def split: option.splits prod.splits)
  note mw = match_wf [OF m ow(1) active_not_filled [OF oi(2)] lv]
  obtain q where q: "order = ?o\<lparr>or_filledQuantity := q\<rparr>" using mw(2) by blast
  obtain new where new: "fills = ts_fills s @ new" "list_all (order_fill X ?o) new"
    "qval (or_filledQuantity order) = qval (or_filledQuantity ?o) + filled_by new" using mw(3) by blast
  have cur: "current s (or_instrument ?o)" using ow(2) oi(2) by blast
  let ?c = "set_order (s\<lparr>ts_fills := fills\<rparr>) oi order"
  show ?thesis
  proof (cases "new = []")
    case True
    then have "t = set_order s oi order" using assms(1) m new(1) by (auto simp: match_candidate_def Let_def set_order_def)
    moreover have "trading_wf X (set_order s oi order)"
      by (rule trading_wf_set_order [OF assms(2)]) (use mw(1) q cur new(3) True in \<open>auto simp: same_execution_def\<close>)
    ultimately show ?thesis by simp
  next
    case False
    then obtain c1 av where a: "applyTradingFees X ?c order ?n = Inr c1"
      and av: "averageOrderFillPrice X (ts_fills c1) (or_orderID order) = Inr av"
      and ap: "applyFillsToPositions X (set_order c1 oi (order\<lparr>or_averagePrice := av, or_hasAverage := True\<rparr>))
         (order\<lparr>or_averagePrice := av, or_hasAverage := True\<rparr>) ?n input d = (Inr t, d')"
      using assms(1) m new(1) by (auto simp: match_candidate_def Let_def split: sum.splits prod.splits)
    let ?o2 = "order\<lparr>or_averagePrice := av, or_hasAverage := True\<rparr>"
    let ?c2 = "set_order c1 oi ?o2"
    have fw: "\<forall>f \<in> set (ts_fills ?c). fill_wf f" using s(2) new(1,2) by (auto simp: records_wf_def list_all_iff order_fill_def)
    have "config_wf ?c" using s(1) by (simp add: config_wf_def set_order_def)
    note fees = applyTradingFees_wf [OF a this fw]
    obtain fs where c1: "c1 = ?c\<lparr>ts_fills := fs\<rparr>" using fees(3) by blast
    have core: "map fill_core fs = map fill_core (ts_fills s @ new)" using fees(1) by (simp add: c1 new(1))
    have len: "length fs = ?n + length new" using arg_cong [OF core, of length] by simp
    have fsw: "\<forall>f \<in> set fs. fill_wf f" using fees(2) by (simp add: c1)
    have av': "WeightedAveragePrice X (executions fs (or_orderID order)) = Inr av"
      using av by (simp add: averageOrderFillPrice_def executions_def c1)
    have own: "order_fill X ?o2 (fs ! k)" if "?n \<le> k" "k < length fs" for k
    proof (rule order_fill_core)
      show "fill_core (new ! (k - ?n)) = fill_core (fs ! k)"
        using core that len by (metis (no_types, lifting) length_append nth_append not_less nth_map)
      show "order_fill X ?o2 (new ! (k - ?n))" using new(2) that len by (simp add: q list_all_length)
    qed (use fsw that in simp)
    have "order_fill X ?o2 (fs ! ?n)" "?n < length fs" using own [of ?n] len False by auto
    then have "unit_price (or_instrument order) av"
      using average_of_fills [OF av' fsw, of "fs ! ?n"] by (simp add: order_fill_def q)
    then have ow2: "order_wf ?o2" using mw(1) by (simp add: order_wf_def marketUsesDeepestFallback_def)
    have cc: "current ?c2 = current s" by (rule current_cong) (simp add: c1)
    have c2: "config_wf ?c2" using s(1) by (simp add: config_wf_def set_order_def c1)
    have r2: "records_wf ?c2"
      using s(2) ow2 fsw cur set_update_subset_insert [of "ts_orders s" oi ?o2]
      by (auto simp: records_wf_def cc) (auto simp: c1 q)
    have tk: "conserved (take ?n fs) (ts_positions s)"
    proof -
      have "map fill_core (take ?n fs) = map fill_core (ts_fills s)" using core by (simp flip: take_map)
      then show ?thesis using s(4) same_core(2) unfolding conserved_def by metis
    qed
    have fl: "length fs = length (ts_fills ?c2)" by (simp add: c1)
    have ap': "apply_fills X ?o2 input [?n ..< length fs] ?c2 d = (Inr t, d')"
      using ap by (simp add: applyFillsToPositions_def c1)
    have w: "records_wf t \<and> map fill_core (ts_fills t) = map fill_core (ts_fills ?c2) \<and> conserved (ts_fills t) (ts_positions t)"
      by (rule apply_fills_wf [OF ap' fl])
        (use len c2 r2 own cur tk cc in \<open>simp_all add: c1 q\<close>)
    have fr: "exec_frame ?n ?c2 t" "ts_orders t = ts_orders ?c2" using applyFillsToPositions_step [OF ap] by auto
    have "executions (ts_fills t) = executions fs" by (rule same_core(1)) (use w in \<open>simp add: c1\<close>)
    then have "accounted X t"
      by (intro accounted_executed [OF s(3) oi(1) new(2), of t ?o2])
        (use w core fr(2) new(3) av' in \<open>auto simp: c1 q\<close>)
    then show ?thesis using w config_frame [OF fr(1) c2] by (simp add: trading_wf_def)
  qed
qed

lemma executed_status_wf:
  assumes "order_wf order" "or_status order \<noteq> OrderStatusFilled"
  shows "order_wf (order\<lparr>or_status := executed_status X order\<rparr>)"
proof -
  have u: "unit_qty (or_instrument order) (or_filledQuantity order)" "unit_qty (or_instrument order) (or_quantity order)"
    using assms(1) by (auto simp: order_wf_def)
  have "qval (or_filledQuantity order) = qval (or_quantity order)" if "executed_status X order = OrderStatusFilled"
    using that u by (auto simp: executed_status_def unit_qty_def unit_defs dec_queries split: if_splits)
  then show ?thesis using assms(1) by (simp add: order_wf_def marketUsesDeepestFallback_def)
qed

lemma finish_execution_wf:
  assumes "trading_wf X s" "oi < length (ts_orders s)" "active_status (or_status (ts_orders s ! oi))"
  shows "trading_wf X (fst (finish_execution X s input oi b start d))"
proof -
  let ?o = "ts_orders s ! oi"
  let ?o1 = "?o\<lparr>or_status := executed_status X ?o\<rparr>"
  let ?o2 = "if orderExecutionChanged X b ?o1 (start < length (ts_fills s))
      then ?o1\<lparr>or_version := or_version ?o1 + 1\<rparr> else ?o1"
  note ow = trading_wf_order [OF assms(1,2)]
  have "order_wf ?o1" by (rule executed_status_wf [OF ow(1) active_not_filled [OF assms(3)]])
  then have w: "trading_wf X (set_order s oi ?o2)"
    using ow(2) [OF assms(3)] by (intro trading_wf_set_order [OF assms(1)]) (simp add: same_execution_def)
  obtain s1 d1 where r1: "reconcileBracketAfterExecution X (set_order s oi ?o2) oi input d = (s1, d1)" by fastforce
  obtain s2 d2 where r2: "reconcilePositionProtection X s1 input d1 = (s2, d2)" by fastforce
  have "trading_wf X s1" using reconcile_wf(3) [OF w, of oi input d] r1 by simp
  then have "trading_wf X s2" using reconcile_wf(4) [of s1 input d1] r2 by simp
  then show ?thesis by (simp add: finish_execution_def Let_def r1 r2)
qed

lemma find_book_wf: "config_wf t \<Longrightarrow> find_book t i = Some b \<Longrightarrow> book_wf b \<and> bo_instrumentID b = i"
  by (auto simp: config_wf_def find_book_def dest: find_Some_mem)

lemma executeOrder_wf:
  assumes "executeOrder X s input oi d = (reason, t, d')" "trading_wf X s"
    and oi: "oi < length (ts_orders s)" "active_status (or_status (ts_orders s ! oi))"
  shows "trading_wf X t"
proof -
  let ?b = "ts_orders s ! oi"
  obtain cl order where co: "(if or_reduceOnly ?b then clampReduceOnlyOrder X s ?b else (RejectionNone, ?b)) = (cl, order)"
    by fastforce
  note ow = trading_wf_order [OF assms(2) oi(1)]
  have ord: "order_wf order" "same_execution ?b order" "current s (or_instrument order)"
    using co clamped_wf [OF assms(2) oi, of cl order] ow oi(2) by (auto simp: same_execution_def split: if_splits)
  have st: "or_status order = or_status ?b" using co clamp_evolves(2) [of X s ?b] by (auto split: if_splits)
  let ?c = "set_order s oi order"
  have c: "trading_wf X ?c" using ord by (intro trading_wf_set_order [OF assms(2)]) auto
  have cc: "trading_wf X (set_order ?c oi (cancelled order))"
    using ord order_wf_status(2) oi(1)
    by (intro trading_wf_set_order [OF c]) (auto simp: same_execution_def cancelled_def active_status_def)
  note simps = executeOrder_clamped [OF co, of input d]
  show ?thesis
  proof (cases "t = s \<or> t = set_order ?c oi (cancelled order)")
    case True
    then show ?thesis using assms(2) cc by blast
  next
    case False
    then obtain book m d1 where bk: "find_book ?c (ir_id (or_instrument order)) = Some book"
      and mc: "match_candidate X ?c input oi book d = (Some m, d1)"
      and t: "t = fst (finish_execution X m input oi ?b (length (ts_fills s)) d1)"
      using assms(1) unfolding simps by (auto split: if_splits option.splits prod.splits)
    have oc: "oi < length (ts_orders ?c)" "active_status (or_status (ts_orders ?c ! oi))" using oi st by auto
    have "book_wf book" using find_book_wf [OF _ bk] c by (simp add: trading_wf_def)
    then have mw: "trading_wf X m" by (rule match_candidate_wf [OF mc c _ oc])
    have om: "oi < length (ts_orders m)" "active_status (or_status (ts_orders m ! oi))"
      using match_candidate_step [OF mc oc] oi st by (auto simp: exec_frame_def)
    show ?thesis unfolding t by (rule finish_execution_wf [OF mw om])
  qed
qed

section \<open>The sweep over the resting orders\<close>

lemma activate_wf:
  assumes "activateOrderIfReady X s i input = (r, tr, t)" "trading_wf X s"
  shows "trading_wf X t"
proof -
  let ?o = "ts_orders s ! i"
  have "trading_wf X (set_order s i (?o\<lparr>or_triggered := True, or_triggeredAt := l, or_version := v\<rparr>))" for l v
    using trading_wf_order [OF assms(2)] by (intro trading_wf_set_order [OF assms(2)]) (auto simp: same_execution_def)
  then show ?thesis using assms by (auto simp: activateOrderIfReady_def Let_def split: if_splits)
qed

lemma match_working_step_wf:
  assumes "trading_wf X (fst sd)" "i < length (ts_orders (fst sd))"
  shows "trading_wf X (fst (match_working_step X input iid sd i))"
proof (cases sd)
  case (Pair s d)
  let ?o = "ts_orders s ! i"
  show ?thesis
  proof (cases "ir_id (or_instrument ?o) \<noteq> iid \<or> \<not> resting_status (or_status ?o)")
    case True
    then show ?thesis using assms by (simp add: Pair match_working_step_def)
  next
    case False
    then have act: "active_status (or_status ?o)" by (simp add: resting_active)
    obtain r tr s1 where a: "activateOrderIfReady X s i input = (r, tr, s1)" by (cases "activateOrderIfReady X s i input")
    have s1: "trading_wf X s1" using activate_wf [OF a] assms Pair by simp
    have o1: "i < length (ts_orders s1)" "active_status (or_status (ts_orders s1 ! i))"
      using activate_frame [OF a, of 0] assms(2) act Pair by (auto simp: exec_frame_def)
    obtain reason s2 d2 where e: "executeOrder X s1 input i d = (reason, s2, d2)" by (cases "executeOrder X s1 input i d")
    have s2: "trading_wf X s2" by (rule executeOrder_wf [OF e s1 o1])
    have rej: "trading_wf X (set_order s2 i (rejected_order rr (ts_orders s2 ! i)))" for rr
      using trading_wf_order(1) [OF s2] order_wf_status(3)
      by (intro trading_wf_set_order [OF s2]) (auto simp: same_execution_def rejected_order_def active_status_def)
    show ?thesis using s1 s2 rej False by (simp add: Pair match_working_step_def Let_def a e)
  qed
qed

lemma matchWorkingOrders_wf:
  assumes "trading_wf X s"
  shows "trading_wf X (fst (matchWorkingOrders X s input iid d))"
proof -
  have "trading_wf X (fst (foldl (match_working_step X input iid) sd is))"
    if "trading_wf X (fst sd)" "\<forall>i \<in> set is. i < length (ts_orders (fst sd))" for sd "is"
    using that
  proof (induction "is" arbitrary: sd)
    case (Cons i "is")
    have "length (ts_orders (fst (match_working_step X input iid sd i))) = length (ts_orders (fst sd))"
      using match_working_step_evolves [of i sd 0 X input iid] Cons.prems by (simp add: exec_step_def exec_frame_def)
    then show ?case using Cons match_working_step_wf [OF Cons.prems(1), of i input iid] by simp
  qed simp
  from this [of "(s, d)"] assms show ?thesis by (simp add: matchWorkingOrders_def)
qed

end

end
