(* ===== verification/EngineRegistries.thy ===== *)
theory EngineRegistries
  imports EngineExecuted
begin

text \<open>
  The actions that only touch the registries keep the invariant: configuration of instruments, accounts
  and risk, balances, funding, and the book update with the sweep it starts. The handlers that create
  orders are in \<open>EngineHandlers\<close>.
\<close>

section \<open>Configuration\<close>

lemma upsert_set: "set (upsert key r xs) \<subseteq> insert r (set xs)"
  by (auto simp: upsert_def split: option.splits dest: subsetD [OF set_update_subset_insert])

lemma replace_sets:
  "set (ts_instruments (replaceInstrument t r)) \<subseteq> insert r (set (ts_instruments t))"
  "set (ts_books (replaceBook t b)) \<subseteq> insert b (set (ts_books t))"
  "set (ts_risks (replaceRisk t k)) \<subseteq> insert k (set (ts_risks t))"
  by (simp_all add: replaceInstrument_def replaceBook_def replaceRisk_def upsert_set)

lemma remember_scales:
  "distinct (map cur_code (ts_currencyScales t)) \<Longrightarrow> distinct (map cur_code (ts_currencyScales (rememberCurrencyScale t c)))"
  "set (ts_currencyScales t) \<subseteq> set (ts_currencyScales (rememberCurrencyScale t c))"
  "currencyScale t (cur_code c) \<in> {None, Some c} \<Longrightarrow> c \<in> set (ts_currencyScales (rememberCurrencyScale t c))"
  by (auto simp: rememberCurrencyScale_def currencyScale_def find_None_iff dest: find_Some_mem)

lemma remember_frame [simp]:
  "ts_instruments (rememberCurrencyScale t c) = ts_instruments t" "ts_accounts (rememberCurrencyScale t c) = ts_accounts t"
  "ts_risks (rememberCurrencyScale t c) = ts_risks t" "ts_balances (rememberCurrencyScale t c) = ts_balances t"
  "ts_books (rememberCurrencyScale t c) = ts_books t" "ts_orders (rememberCurrencyScale t c) = ts_orders t"
  "ts_fills (rememberCurrencyScale t c) = ts_fills t" "ts_positions (rememberCurrencyScale t c) = ts_positions t"
  "ts_settlements (rememberCurrencyScale t c) = ts_settlements t" "ts_funding (rememberCurrencyScale t c) = ts_funding t"
  by (simp_all add: rememberCurrencyScale_def)

lemma find_instrument_replace:
  "keyed (\<lambda>r. ir_id (im_revision r)) (ts_instruments t) \<Longrightarrow>
    find_instrument (replaceInstrument t r) i = (if i = ir_id (im_revision r) then Some (im_revision r) else find_instrument t i)"
  using instruments.get_put [of t i r] by (simp add: find_instrument_def)

text \<open>An instrument without open positions and active orders can be replaced.\<close>

lemma replaceInstrument_wf:
  assumes "trading_wf X t" "instrument_wf r" "im_settlementCurrency r \<in> set (ts_currencyScales t)"
    "\<not> hasEconomicStateForInstrument t (ir_id (im_revision r))"
  shows "trading_wf X (replaceInstrument t r)"
proof -
  have c: "config_wf t" and w: "records_wf t" using assms(1) by (auto simp: trading_wf_def)
  have cur: "current (replaceInstrument t r) i = current t i" if "ir_id i \<noteq> ir_id (im_revision r)" for i
    using c that by (simp add: current_def find_instrument_replace config_wf_def)
  have "im_settlementCurrency ` set (ts_instruments (replaceInstrument t r)) \<subseteq> set (ts_currencyScales t)"
    using c assms(3) replace_sets(1) [of t r] unfolding config_wf_def by blast
  then have "config_wf (replaceInstrument t r)"
    using c assms(2) replace_sets(1) [of t r] instruments.put_keyed [of t r]
    by (auto simp: config_wf_def) (auto simp: replaceInstrument_def)
  moreover have "records_wf (replaceInstrument t r)"
    using w assms(4) cur by (auto simp: records_wf_def hasEconomicStateForInstrument_def list_ex_iff)
      (auto simp: replaceInstrument_def)
  ultimately show ?thesis using assms(1) by (simp add: trading_wf_def accounted_def replaceInstrument_def)
qed

lemma trading_wf_scales:
  assumes "trading_wf X t"
  shows "trading_wf X (rememberCurrencyScale t c)"
proof -
  have "current (rememberCurrencyScale t c) = current t" by (rule current_cong) simp
  then show ?thesis using assms remember_scales(1,2) [of t c]
    by (auto simp: trading_wf_def config_wf_def records_wf_def accounted_def)
qed

lemma validCurrencyCode_ne: "validCurrencyCode c \<Longrightarrow> c \<noteq> []"
  by (auto simp: validCurrencyCode_def)

lemma validInstrumentID_ne: "validInstrumentID c \<Longrightarrow> c \<noteq> []"
  by (auto simp: validInstrumentID_def)

lemma plain_units: "dval (plain_value ''1'') = 1" "dval (plain_value ''-1'') = - 1" "dval (plain_value ''0'') = 0"
  by (simp_all add: plain_value_def dval_def digits_value_def char_digit_def scoef_def plain_frac_def plain_whole_def
    plain_body_def is_digit_def)

lemma adjust_cases:
  obtains (rejected) r where "adjustTradingBalance X s ab = rejectedTradingDecision s r"
  | (adjusted) c m u i total snap where "NewCurrency (ab_Currency ab) (ab_CurrencyScale ab) = Inr c"
      "hasSettlementCurrency (st_trading s) c" "NewMoney X (ab_Amount ab) c = Inr m" "\<not> Decimal_Sign X (m_amount m) < 0"
      "balance_slot X (st_trading s) (ab_AccountID ab) c = Inr (u, i)"
      "(if ab_Operation ab = BalanceOperationDeposit then Money_Add X (ba_total (ts_balances u ! i)) m else Inr m) = Inr total"
      "balanceSnapshot X (sortBalances (set_balance u i total)) (ab_AccountID ab) c = Some snap"
      "adjustTradingBalance X s ab = (with_trading s (sortBalances (set_balance u i total)),
         acceptedDecision\<lparr>d_BalanceChanges := [snap]\<rparr>)"
proof (cases "\<exists>r. adjustTradingBalance X s ab = rejectedTradingDecision s r")
  case True
  then show thesis using rejected by blast
next
  case False
  let ?t = "st_trading s"
  have nr: "adjustTradingBalance X s ab \<noteq> rejectedTradingDecision s RejectionInvalidAction"
    "adjustTradingBalance X s ab \<noteq> rejectedTradingDecision s RejectionMarketDataStale" using False by auto
  have g: "\<not> (ab_AccountID ab = '''' \<or> \<not> BalanceOperation_valid (ab_Operation ab))"
    using nr(1) unfolding adjustTradingBalance_def by (rule contrapos_nn) (rule if_P)
  obtain c where c: "NewCurrency (ab_Currency ab) (ab_CurrencyScale ab) = Inr c"
    using nr(1) g by (cases "NewCurrency (ab_Currency ab) (ab_CurrencyScale ab)") (simp_all add: adjustTradingBalance_def)
  have h: "hasSettlementCurrency ?t c"
    by (rule ccontr) (use nr(1) g c in \<open>simp add: adjustTradingBalance_def\<close>)
  obtain m where m: "NewMoney X (ab_Amount ab) c = Inr m"
    using nr(1) g c h by (cases "NewMoney X (ab_Amount ab) c") (simp_all add: adjustTradingBalance_def)
  have k: "\<not> (Decimal_Sign X (m_amount m) < 0 \<or> (ab_Operation ab = BalanceOperationDeposit \<and> Decimal_Sign X (m_amount m) = 0))"
    by (rule notI) (use nr(1) g c h m in \<open>simp add: adjustTradingBalance_def\<close>)
  obtain u i where sl: "balance_slot X ?t (ab_AccountID ab) c = Inr (u, i)"
    using nr(1) g c h m k by (cases "balance_slot X ?t (ab_AccountID ab) c") (simp add: adjustTradingBalance_def, metis surj_pair)
  let ?tot = "if ab_Operation ab = BalanceOperationDeposit then Money_Add X (ba_total (ts_balances u ! i)) m else Inr m"
  obtain total where tot: "?tot = Inr total"
    using nr(1) g c h m k sl unfolding adjustTradingBalance_def by (cases ?tot) simp_all
  let ?n = "sortBalances (set_balance u i total)"
  obtain snap where snap: "balanceSnapshot X ?n (ab_AccountID ab) c = Some snap"
    using nr(2) g c h m k sl tot unfolding adjustTradingBalance_def
    by (cases "balanceSnapshot X ?n (ab_AccountID ab) c") simp_all
  have "adjustTradingBalance X s ab = (with_trading s ?n, acceptedDecision\<lparr>d_BalanceChanges := [snap]\<rparr>)"
    using g c h m k sl tot snap unfolding adjustTradingBalance_def by simp blast
  then show thesis using adjusted c h m k sl tot snap by blast
qed

context apd_lib
begin

lemma configured_instrument_wf:
  assumes "configured_instrument X t ci = Some r"
  shows "instrument_wf r" "ir_id (im_revision r) = ci_InstrumentID ci"
    "currencyScale t (cur_code (im_settlementCurrency r)) \<in> {None, Some (im_settlementCurrency r)}"
proof -
  have fee: "\<bar>dval (rate_value k)\<bar> \<le> 1" if vf: "validConfiguredFeeRate X k" and rk: "rate_ok k" for k
  proof -
    obtain one neg where o: "NewRate X ''1'' = Inr one" "NewRate X ''-1'' = Inr neg"
      using vf by (cases "NewRate X ''1''"; cases "NewRate X ''-1''") (simp_all add: validConfiguredFeeRate_def)
    have ok: "dec_ok (rate_value one)" "dec_ok (rate_value neg)" "dec_ok (rate_value k)"
      using NewRate_ok [OF o(1)] NewRate_ok [OF o(2)] rk by (auto simp: rate_ok_def)
    have v: "dval (rate_value one) = 1" "dval (rate_value neg) = - 1"
      using o by (auto simp: NewRate_def Parse_def plain_units dest!: ParseWithMaxScale_ok)
    show ?thesis using vf o ok v by (simp add: validConfiguredFeeRate_def dec_queries split: if_splits)
  qed
  obtain rev c where rv: "NewInstrumentRevision (ci_InstrumentID ci) (ci_Revision ci) (ci_PriceScale ci) (ci_QuantityScale ci) = Inr rev"
    and c: "NewCurrency (ci_SettlementCurrency ci) (ci_SettlementCurrencyScale ci) = Inr c"
    and cs: "currencyScale t (cur_code c) \<in> {None, Some c}" and r: "im_revision r = rev" "im_settlementCurrency r = c"
    and im: "NewRate X (ci_InitialMarginRate ci) = Inr (im_initialMarginRate r)" "\<not> Decimal_Sign X (rate_value (im_initialMarginRate r)) < 0"
    and mm: "NewRate X (ci_MaintenanceMarginRate ci) = Inr (im_maintenanceMarginRate r)"
      "\<not> Decimal_Sign X (rate_value (im_maintenanceMarginRate r)) < 0"
    and ml: "NewRatio X (ci_MaxLeverage ci) = Inr (im_maxLeverage r)" "\<not> Decimal_Sign X (ratio_value (im_maxLeverage r)) \<le> 0"
    and fr: "NewRate X (ci_MakerFeeRate ci) = Inr (im_makerFeeRate r)" "validConfiguredFeeRate X (im_makerFeeRate r)"
      "NewRate X (ci_TakerFeeRate ci) = Inr (im_takerFeeRate r)" "validConfiguredFeeRate X (im_takerFeeRate r)"
    using assms unfolding configured_instrument_def by (auto split: sum.splits if_splits)
  note ok = NewRate_ok [OF im(1)] NewRate_ok [OF mm(1)] NewRatio_ok [OF ml(1)] NewRate_ok [OF fr(1)] NewRate_ok [OF fr(3)]
  have sg: "0 \<le> dval (rate_value (im_initialMarginRate r))" "0 \<le> dval (rate_value (im_maintenanceMarginRate r))"
    "0 < dval (ratio_value (im_maxLeverage r))"
    using im(2) mm(2) ml(2) ok by (auto simp: rate_ok_def ratio_ok_def Sign_dec split: if_splits)
  have rid: "ir_id rev = ci_InstrumentID ci" "ir_id rev \<noteq> []" "cur_code c \<noteq> []"
    using rv c by (auto simp: NewInstrumentRevision_def NewCurrency_def validCurrencyCode_ne validInstrumentID_ne split: if_splits)
  show "instrument_wf r" using ok sg rid r fee [OF fr(2) ok(4)] fee [OF fr(4) ok(5)] by (simp add: instrument_wf_def)
  show "ir_id (im_revision r) = ci_InstrumentID ci"
    "currencyScale t (cur_code (im_settlementCurrency r)) \<in> {None, Some (im_settlementCurrency r)}" using rid cs r by auto
qed

lemma configure_wf:
  assumes "trading_wf X (st_trading s)"
  shows "trading_wf X (st_trading (fst (configureTradingInstrument X s ci)))"
    "trading_wf X (st_trading (fst (configureTradingAccount s ca)))"
    "trading_wf X (st_trading (fst (configureTradingRisk X s cr)))"
proof -
  let ?t = "st_trading s"
  show "trading_wf X (st_trading (fst (configureTradingInstrument X s ci)))"
  proof (cases "configured_instrument X ?t ci")
    case (Some r)
    note c = configured_instrument_wf [OF Some]
    have "trading_wf X (replaceInstrument (rememberCurrencyScale ?t (im_settlementCurrency r)) r)"
      if "\<not> hasEconomicStateForInstrument ?t (ci_InstrumentID ci)"
      by (rule replaceInstrument_wf [OF trading_wf_scales [OF assms] c(1) remember_scales(3) [OF c(3)]])
        (use that c(2) in \<open>simp add: hasEconomicStateForInstrument_def\<close>)
    then show ?thesis using assms Some by (simp add: configureTradingInstrument_def decision_defs)
  qed (use assms in \<open>simp add: configureTradingInstrument_def decision_defs\<close>)
  have "current (replaceAccount ?t a) = current ?t" for a
    by (rule current_cong) (simp add: replaceAccount_def)
  then have "trading_wf X (replaceAccount ?t a)" for a
    using assms accounts.put_keyed [of ?t a]
    by (auto simp: trading_wf_def config_wf_def records_wf_def accounted_def) (auto simp: replaceAccount_def)
  then show "trading_wf X (st_trading (fst (configureTradingAccount s ca)))"
    using assms by (simp add: configureTradingAccount_def decision_defs)
  have "current (replaceRisk ?t k) = current ?t" for k
    by (rule current_cong) (simp add: replaceRisk_def)
  then have "trading_wf X (replaceRisk ?t k)" if "risk_wf k" for k
    using assms risks.put_keyed [of ?t k] replace_sets(3) [of ?t k] that
    by (auto simp: trading_wf_def config_wf_def records_wf_def accounted_def) (auto simp: replaceRisk_def)
  then show "trading_wf X (st_trading (fst (configureTradingRisk X s cr)))"
    using assms NewRatio_ok
    by (auto simp: configureTradingRisk_def decision_defs risk_wf_def ratio_ok_def dec_queries split: option.split sum.split)
qed

section \<open>Balances and funding\<close>

lemma trading_wf_balances:
  assumes "trading_wf X t" "\<forall>b \<in> set bs. money_ok (ba_total b)"
  shows "trading_wf X (t\<lparr>ts_balances := bs\<rparr>)"
proof -
  have "current (t\<lparr>ts_balances := bs\<rparr>) = current t" by (rule current_cong) simp
  then show ?thesis using assms by (simp add: trading_wf_def config_wf_def records_wf_def accounted_def)
qed

lemma trading_wf_funding:
  "trading_wf X t \<Longrightarrow> trading_wf X (t\<lparr>ts_funding := fs\<rparr>)" "trading_wf X t \<Longrightarrow> trading_wf X (t\<lparr>ts_settlements := ss\<rparr>)"
proof -
  have "current (t\<lparr>ts_funding := fs\<rparr>) = current t" "current (t\<lparr>ts_settlements := ss\<rparr>) = current t"
    by (rule current_cong, simp)+
  then show "trading_wf X t \<Longrightarrow> trading_wf X (t\<lparr>ts_funding := fs\<rparr>)" "trading_wf X t \<Longrightarrow> trading_wf X (t\<lparr>ts_settlements := ss\<rparr>)"
    by (simp_all add: trading_wf_def config_wf_def records_wf_def accounted_def)
qed

lemma balances_ok: "trading_wf X t \<Longrightarrow> \<forall>b \<in> set (ts_balances t). money_ok (ba_total b)"
  by (simp add: trading_wf_def records_wf_def)

lemma balance_slot_ok:
  assumes "balance_slot X t a c = Inr (u, i)" "\<forall>b \<in> set (ts_balances t). money_ok (ba_total b)"
  shows "\<exists>bs. u = t\<lparr>ts_balances := bs\<rparr> \<and> (\<forall>b \<in> set bs. money_ok (ba_total b)) \<and> i < length bs
    \<and> ba_accountID (bs ! i) = a \<and> m_currency (ba_total (bs ! i)) = c"
proof (cases "balanceIndex t a c")
  case None
  then obtain z where z: "NewMoney X ''0'' c = Inr z" "u = t\<lparr>ts_balances := ts_balances t @ [\<lparr>ba_accountID = a, ba_total = z\<rparr>]\<rparr>"
      "i = length (ts_balances t)" using assms(1) by (auto simp: balance_slot_def)
  then show ?thesis using assms(2) NewMoney_ok [OF z(1)]
    by (intro exI [of _ "ts_balances t @ [\<lparr>ba_accountID = a, ba_total = z\<rparr>]"]) auto
next
  case (Some j)
  then have u: "u = t" "i = j" using assms(1) by (auto simp: balance_slot_def)
  have "t = t\<lparr>ts_balances := ts_balances t\<rparr>" by simp
  moreover have "i < length (ts_balances t)" "ba_accountID (ts_balances t ! i) = a" "m_currency (ba_total (ts_balances t ! i)) = c"
    using Some first_index_Some u(2) by (auto simp: balanceIndex_def dest!: first_index_Some)
  ultimately show ?thesis using u assms(2) by metis
qed

lemma adjust_wf:
  assumes "trading_wf X (st_trading s)"
  shows "trading_wf X (st_trading (fst (adjustTradingBalance X s ab)))"
proof (cases rule: adjust_cases [of X s ab])
  case (adjusted c m u i total snap)
  obtain bs where bs: "u = (st_trading s)\<lparr>ts_balances := bs\<rparr>" "\<forall>b \<in> set bs. money_ok (ba_total b)" "i < length bs"
    using balance_slot_ok [OF adjusted(5) balances_ok [OF assms]] by blast
  have mok: "money_ok m" using NewMoney_ok [OF adjusted(3)] by simp
  have "money_ok (ba_total (bs ! i))" using bs(2,3) by simp
  then have "money_ok total" using adjusted(6) mok money.add_ok [of "ba_total (bs ! i)" m total] by (auto simp: bs(1) split: if_splits)
  then have "\<forall>b \<in> set (bs[i := (bs ! i)\<lparr>ba_total := total\<rparr>]). money_ok (ba_total b)"
    using bs(2) set_update_subset_insert [of bs i "(bs ! i)\<lparr>ba_total := total\<rparr>"] by auto
  then have "trading_wf X (sortBalances (set_balance u i total))"
    using trading_wf_balances [OF assms] by (simp add: sortBalances_def set_balance_def bs(1))
  then show ?thesis by (simp add: adjusted(8))
qed (use assms in \<open>simp add: decision_defs\<close>)

lemma balance_delta_frame: "applyBalanceDelta X t a m = Inr u \<Longrightarrow> \<exists>bs. u = t\<lparr>ts_balances := bs\<rparr>"
  by (auto simp: applyBalanceDelta_def set_balance_def split: option.splits)

lemma fund_position_wf:
  assumes "fund_position X input sid r mark rate p t d q = Inr (u, d')" "trading_wf X t"
    "price_ok mark" "qty_ok (po_quantity p)" "rate_ok rate"
  shows "trading_wf X u \<and> ts_positions u = ts_positions t"
proof -
  obtain m t1 f where m: "FundingPayment X mark (po_quantity p) rate (po_side p = PositionSideLong) (im_settlementCurrency r) = Inr m"
    and t1: "applyBalanceDelta X t (po_accountID p) m = Inr t1" and u: "u = t1\<lparr>ts_funding := ts_funding t1 @ [f]\<rparr>"
    using assms(1) by (auto simp: fund_position_def Let_def split: sum.splits option.splits)
  have "money_ok m" using FundingPayment_ok [OF m assms(3-5)] by simp
  then have "\<forall>b \<in> set (ts_balances t1). money_ok (ba_total b)"
    using balance_delta_wf(1) [OF balances_ok [OF assms(2)] _ t1] by blast
  moreover obtain bs where "t1 = t\<lparr>ts_balances := bs\<rparr>" using balance_delta_frame [OF t1] by blast
  ultimately show ?thesis using assms(2) by (simp add: u trading_wf_balances trading_wf_funding)
qed

lemma settle_positions_wf:
  "settle_positions X input sf r mark rate ps t d q = Inr (u, d') \<Longrightarrow> trading_wf X t \<Longrightarrow> price_ok mark \<Longrightarrow> rate_ok rate \<Longrightarrow>
    \<forall>p \<in> set ps. position_wf p \<Longrightarrow> trading_wf X u"
proof (induction ps arbitrary: t d q)
  case (Cons p ps)
  show ?case
  proof (cases "ir_id (po_instrument p) \<noteq> sf_InstrumentID sf \<or> po_status p \<noteq> PositionStatusOpen")
    case True
    then show ?thesis using Cons by simp
  next
    case False
    then obtain t1 d1 where f: "fund_position X input (sf_SettlementID sf) r mark rate p t d q = Inr (t1, d1)"
      and rest: "settle_positions X input sf r mark rate ps t1 d1 (q + 1) = Inr (u, d')"
      using Cons.prems(1) by (auto split: sum.splits)
    have "trading_wf X t1" using fund_position_wf [OF f] Cons.prems by (auto simp: position_wf_def unit_wf_defs)
    then show ?thesis using Cons.IH [OF rest] Cons.prems by simp
  qed
qed simp

lemma settle_wf:
  assumes "trading_wf X (st_trading s)"
  shows "trading_wf X (st_trading (fst (settleTradingFunding X s input sf)))"
proof (cases "st_trading (fst (settleTradingFunding X s input sf)) = st_trading s")
  case False
  let ?t = "st_trading s"
  obtain r mark rate se u d where p: "NewPrice X (sf_OraclePrice sf) (im_revision r) = Inr mark"
    and rate: "NewRate X (sf_Rate sf) = Inr rate"
    and sp: "settle_positions X input sf r mark rate (ts_positions ?t) (?t\<lparr>ts_settlements := ts_settlements ?t @ [se]\<rparr>)
       acceptedDecision 1 = Inr (u, d)"
    and res: "settleTradingFunding X s input sf = (with_trading s u, d)"
    using False unfolding settleTradingFunding_def Let_def decision_defs
    by (auto split: if_splits sum.splits option.splits prod.splits)
  have "trading_wf X u"
    by (rule settle_positions_wf [OF sp]) (use assms NewPrice_ok [OF p] NewRate_ok [OF rate] in
      \<open>auto simp: trading_wf_funding\<close>, auto simp: trading_wf_def records_wf_def)
  then show ?thesis by (simp add: res)
qed (use assms in simp)

section \<open>Books\<close>

lemma newLevelRecords_wf:
  "newLevelRecords X i ls = Inr rs \<Longrightarrow> \<forall>l \<in> set rs. level_wf i l"
proof (induction ls arbitrary: rs)
  case (Cons l ls)
  then obtain p q rest where p: "NewPrice X (bl_Price l) i = Inr p" "\<not> Decimal_Sign X (p_value p) \<le> 0"
    and q: "NewQuantity X (bl_Quantity l) i = Inr q" "\<not> Decimal_Sign X (q_value q) \<le> 0"
    and r: "newLevelRecords X i ls = Inr rest" "rs = \<lparr>lv_price = p, lv_quantity = q\<rparr> # rest"
    by (auto split: if_splits)
  have "level_wf i \<lparr>lv_price = p, lv_quantity = q\<rparr>"
    using NewPrice_ok [OF p(1)] NewQuantity_ok [OF q(1)] p(2) q(2)
    by (auto simp: level_wf_def unit_wf_defs unit_defs dec_queries split: if_splits)
  then show ?case using Cons.IH [OF r(1)] r(2) by simp
qed simp

lemma sort_by_cong:
  "(\<And>x y. x \<in> set xs \<Longrightarrow> y \<in> set xs \<Longrightarrow> lt x y = gt x y) \<Longrightarrow> sort_by lt xs = sort_by gt xs"
proof -
  have ins: "insert_by lt a ys = insert_by gt a ys" if "\<forall>y \<in> set ys. lt a y = gt a y" "\<forall>y \<in> set ys. lt y a = gt y a" for a ys
    using that by (induction ys) auto
  show "(\<And>x y. x \<in> set xs \<Longrightarrow> y \<in> set xs \<Longrightarrow> lt x y = gt x y) \<Longrightarrow> sort_by lt xs = sort_by gt xs"
  proof (induction xs)
    case (Cons x xs)
    then have e: "sort_by lt xs = sort_by gt xs" by simp
    have "insert_by lt x (sort_by gt xs) = insert_by gt x (sort_by gt xs)" by (rule ins) (use Cons.prems in auto)
    then show ?case using e by (simp add: sort_by_def)
  qed simp
qed

lemma sorted_sides:
  assumes "\<forall>l \<in> set ls. level_wf i l"
  shows "sorted_wrt (\<lambda>x y. pval (lv_price y) \<le> pval (lv_price x)) (sort_by (bid_before X) ls)"
    "sorted_wrt (\<lambda>x y. pval (lv_price x) \<le> pval (lv_price y)) (sort_by (ask_before X) ls)"
proof -
  have ok: "dec_ok (p_value (lv_price l))" if "l \<in> set ls" for l
    using assms that by (auto simp: level_wf_def unit_price_def price_ok_def)
  have "sort_by (bid_before X) ls = sort_by (\<lambda>x y. - pval (lv_price x) < - pval (lv_price y)) ls"
    "sort_by (ask_before X) ls = sort_by (\<lambda>x y. pval (lv_price x) < pval (lv_price y)) ls"
    by (rule sort_by_cong; use ok in \<open>simp add: bid_before_def ask_before_def dec_queries pval_def\<close>)+
  then show "sorted_wrt (\<lambda>x y. pval (lv_price y) \<le> pval (lv_price x)) (sort_by (bid_before X) ls)"
    "sorted_wrt (\<lambda>x y. pval (lv_price x) \<le> pval (lv_price y)) (sort_by (ask_before X) ls)"
    using key_order.sort_by_sorted [of "\<lambda>x. - pval (lv_price x)" ls] key_order.sort_by_sorted [of "\<lambda>x. pval (lv_price x)" ls]
    by (simp_all add: not_less)
qed

lemma uncrossed:
  assumes "sorted_wrt (\<lambda>x y. pval (lv_price y) \<le> pval (lv_price x)) bs" "sorted_wrt (\<lambda>x y. pval (lv_price x) \<le> pval (lv_price y)) as"
    "bs \<noteq> [] \<Longrightarrow> as \<noteq> [] \<Longrightarrow> pval (lv_price (hd bs)) < pval (lv_price (hd as))" "x \<in> set bs" "y \<in> set as"
  shows "pval (lv_price x) < pval (lv_price y)"
  using assms by (cases bs; cases as) force+

lemma newBookRecord_wf:
  assumes "newBookRecord X i ub = Inr b"
  shows "book_wf b" "bo_instrumentID b = ir_id i"
proof -
  obtain mark bids asks where
    m: "(if ub_MarkPrice ub \<noteq> '''' then and_then (NewPrice X (ub_MarkPrice ub) i) (\<lambda>price.
           if Decimal_Sign X (p_value price) \<le> 0 then Inl [] else Inr price) else Inr zeroPrice) = Inr mark"
    and bids: "newLevelRecords X i (slice (ub_Bids ub)) = Inr bids" and asks: "newLevelRecords X i (slice (ub_Asks ub)) = Inr asks"
    and nc: "\<not> (sort_by (bid_before X) bids \<noteq> [] \<and> sort_by (ask_before X) asks \<noteq> []
        \<and> 0 \<le> Decimal_Cmp X (p_value (lv_price (hd (sort_by (bid_before X) bids)))) (p_value (lv_price (hd (sort_by (ask_before X) asks)))))"
    and b: "b = \<lparr>bo_instrumentID = ir_id i, bo_markPrice = mark, bo_hasMark = (ub_MarkPrice ub \<noteq> ''''),
        bo_bids = sort_by (bid_before X) bids, bo_asks = sort_by (ask_before X) asks\<rparr>"
    using assms by (auto simp: newBookRecord_def Let_def split: if_splits)
  have lv: "\<forall>l \<in> set bids. level_wf i l" "\<forall>l \<in> set asks. level_wf i l" using newLevelRecords_wf bids asks by blast+
  have mk: "unit_price i mark" if "ub_MarkPrice ub \<noteq> ''''"
    using m that NewPrice_ok by (auto simp: unit_wf_defs unit_defs dec_queries split: if_splits)
  let ?B = "sort_by (bid_before X) bids" and ?A = "sort_by (ask_before X) asks"
  have "pval (lv_price (hd ?B)) < pval (lv_price (hd ?A))" if "?B \<noteq> []" "?A \<noteq> []"
  proof -
    have "hd ?B \<in> set bids" "hd ?A \<in> set asks" using that hd_in_set [of ?B] hd_in_set [of ?A] by simp_all
    then have "dec_ok (p_value (lv_price (hd ?B)))" "dec_ok (p_value (lv_price (hd ?A)))"
      using lv by (auto simp: level_wf_def unit_price_def price_ok_def)
    then show ?thesis using nc that by (auto simp: Cmp_dec pval_def split: if_splits)
  qed
  then have "\<forall>x \<in> set ?B. \<forall>y \<in> set ?A. pval (lv_price x) < pval (lv_price y)"
    using uncrossed [OF sorted_sides(1) [OF lv(1)] sorted_sides(2) [OF lv(2)]] by blast
  then show "book_wf b" using lv mk sorted_sides(1) [OF lv(1)] sorted_sides(2) [OF lv(2)]
    unfolding book_wf_def by (intro exI [of _ i]) (auto simp: b)
  show "bo_instrumentID b = ir_id i" by (simp add: b)
qed

lemma replaceBook_wf:
  assumes "trading_wf X t" "book_wf b"
  shows "trading_wf X (replaceBook t b)"
proof -
  have "current (replaceBook t b) = current t" by (rule current_cong) (simp add: replaceBook_def)
  then show ?thesis using assms books.put_keyed [of t b] replace_sets(2) [of t b]
    by (auto simp: trading_wf_def config_wf_def records_wf_def accounted_def) (auto simp: replaceBook_def)
qed

lemma book_update_wf:
  assumes "trading_wf X (st_trading s)"
  shows "trading_wf X (st_trading (fst (updateTradingBook X s input ub)))"
proof -
  have "trading_wf X (fst (matchWorkingOrders X (replaceBook (st_trading s) b) input iid acceptedDecision))"
    if "newBookRecord X i ub = Inr b" for b i iid
    by (rule matchWorkingOrders_wf [OF replaceBook_wf [OF assms newBookRecord_wf(1) [OF that]]])
  then show ?thesis using assms
    by (auto simp: updateTradingBook_def decision_defs Let_def split: option.split sum.split prod.split) (metis fst_conv)
qed

end

end
