(* ===== verification/EngineHandlers.thy ===== *)
theory EngineHandlers
  imports EngineRegistries
begin

text \<open>
  The actions that create, change and execute orders keep the invariant: submission, amendment,
  cancellation, brackets and liquidation, and with them every trading action (\<open>action_wf\<close>).
\<close>

section \<open>New orders\<close>

definition fresh_order :: "tradingState \<Rightarrow> orderRecord \<Rightarrow> bool" where
  "fresh_order t order = (order_wf order \<and> (active_status (or_status order) \<longrightarrow> current t (or_instrument order))
     \<and> qval (or_filledQuantity order) = 0 \<and> \<not> or_hasAverage order)"

lemma trading_wf_append:
  assumes "trading_wf X t" "\<forall>order \<in> set os. fresh_order t order" "distinct (map or_orderID os)"
    "or_orderID ` set os \<inter> or_orderID ` set (ts_orders t) = {}"
  shows "trading_wf X (t\<lparr>ts_orders := ts_orders t @ os\<rparr>)"
proof -
  let ?u = "t\<lparr>ts_orders := ts_orders t @ os\<rparr>"
  have a: "accounted X t" using assms(1) by (simp add: trading_wf_def)
  have c: "current ?u = current t" by (rule current_cong) simp
  have "executions (ts_fills t) (or_orderID order) = []" if "order \<in> set os" for order
  proof -
    have "or_orderID order \<notin> fi_orderID ` set (ts_fills t)" using that assms(4) a unfolding accounted_def by blast
    then show ?thesis by (force simp: executions_def filter_empty_conv)
  qed
  then have "\<forall>order \<in> set os. order_accounted X (ts_fills t) order"
    using assms(2) by (auto simp: order_accounted_def executed_quantity_def fresh_order_def)
  then have "accounted X ?u" using a assms(3,4) by (auto simp: accounted_def)
  then show ?thesis using assms(1,2) by (auto simp: trading_wf_def config_wf_def records_wf_def c fresh_order_def)
qed

lemma orderIndex_None: "orderIndex t i = None \<longleftrightarrow> i \<notin> or_orderID ` set (ts_orders t)"
  by (auto simp: orderIndex_def first_index_None_iff)

lemma bracket_legs_seen:
  "bracket_legs X i seen q legs = Some (seen', q') \<Longrightarrow> seen' = seen @ map pl_OrderID legs \<and> (distinct seen \<longrightarrow> distinct seen')"
proof (induction legs arbitrary: seen q)
  case (Cons leg legs)
  then obtain t where n: "pl_OrderID leg \<notin> set seen" and r: "bracket_legs X i (seen @ [pl_OrderID leg]) t legs = Some (seen', q')"
    by (auto simp: containsID_def list_ex_iff split: if_splits sum.splits)
  from Cons.IH [OF r] n show ?case by force
qed simp

text \<open>An accepted submission adds exactly its own order ID.\<close>

lemma submit_ids:
  assumes "submitTradingOrder X s input so = (n, d)" "cmd_Status (d_CommandResult d) \<noteq> CommandStatusRejected"
  shows "or_orderID ` set (ts_orders (st_trading n)) = insert (so_OrderID so) (or_orderID ` set (ts_orders (st_trading s)))
    \<and> ts_instruments (st_trading n) = ts_instruments (st_trading s)"
proof (cases rule: submit_cases [of X s input so])
  case (refused reason)
  then show ?thesis using assms by (simp add: rejectedTradingDecision_def rejectedDecision_def)
next
  case (slippage order t d)
  then show ?thesis using assms by (auto simp: appendOrderTransition_def)
next
  case (accepted order t d1 t' d')
  let ?u = "(st_trading s)\<lparr>ts_orders := ts_orders (st_trading s) @ [order]\<rparr>"
  note w = admitted_order_working [OF accepted(1)]
  have "exec_frame (length (ts_fills ?u)) ?u t"
    by (rule run_order_step(1) [OF accepted(2)]) (use w in \<open>simp_all add: active_status_def\<close>)
  then have "exec_frame 0 ?u t'"
    using rest_order_grows [OF accepted(3), of 0] exec_frame_mono by (blast intro: exec_frame_trans)
  moreover have "n = with_trading s t'" using assms accepted(4) by simp
  moreover have "map or_orderID ys = map or_orderID xs" if "grows order_evolves xs ys" "length ys = length xs" for xs ys
    using that by (auto simp: grows_def order_evolves_def list_eq_iff_nth_eq)
  ultimately have "map or_orderID (ts_orders (st_trading n)) = map or_orderID (ts_orders ?u)"
    "ts_instruments (st_trading n) = ts_instruments (st_trading s)" by (auto simp: exec_frame_def)
  then have "set (map or_orderID (ts_orders (st_trading n))) = set (map or_orderID (ts_orders ?u))"
    "ts_instruments (st_trading n) = ts_instruments (st_trading s)" by simp_all
  then show ?thesis using w by simp
qed

context apd_lib
begin

lemma set_order_prices_wf:
  assumes "set_order_prices X so order = Some order'" "or_orderType order = so_Type so"
    "\<not> or_hasPrice order" "\<not> or_hasTrigger order"
  shows "(or_hasPrice order' \<longrightarrow> unit_price (or_instrument order) (or_price order'))
    \<and> (or_hasTrigger order' \<longrightarrow> unit_price (or_instrument order) (or_triggerPrice order'))
    \<and> (\<not> marketUsesDeepestFallback order' \<longrightarrow> or_hasPrice order') \<and> (trigger_type (or_orderType order') \<longrightarrow> or_hasTrigger order')"
proof -
  have price: "unit_price (or_instrument k) p" if "NewPrice X w (or_instrument k) = Inr p" "\<not> Decimal_Sign X (p_value p) \<le> 0"
    for k w p
    using NewPrice_ok [OF that(1)] that(2) by (auto simp: unit_price_def unit_defs dec_queries split: if_splits)
  have sp: "setOrderPrice X k w = Some k' \<Longrightarrow> \<exists>p. unit_price (or_instrument k) p \<and> k' = k\<lparr>or_price := p, or_hasPrice := True\<rparr>"
    "setOrderTrigger X k w = Some k' \<Longrightarrow> \<exists>p. unit_price (or_instrument k) p \<and> k' = k\<lparr>or_triggerPrice := p, or_hasTrigger := True\<rparr>"
    for k k' w
    using price by (auto simp: setOrderPrice_def setOrderTrigger_def split: sum.splits if_splits)
  show ?thesis
  proof (cases "so_Type so")
    case OrderTypeStopLimit
    then obtain k where k: "setOrderPrice X order (so_Price so) = Some k" "setOrderTrigger X k (so_TriggerPrice so) = Some order'"
      using assms(1) by (auto simp: set_order_prices_def bind_eq_Some_conv)
    then show ?thesis using sp(1) [OF k(1)] sp(2) [OF k(2)] assms(2-4) by auto
  next
    case OrderTypeTakeProfitLimit
    then obtain k where k: "setOrderPrice X order (so_Price so) = Some k" "setOrderTrigger X k (so_TriggerPrice so) = Some order'"
      using assms(1) by (auto simp: set_order_prices_def bind_eq_Some_conv)
    then show ?thesis using sp(1) [OF k(1)] sp(2) [OF k(2)] assms(2-4) by auto
  qed (use assms in \<open>auto simp: set_order_prices_def marketUsesDeepestFallback_def trigger_type_def split: if_splits dest!: sp\<close>)
qed

lemma newOrderRecord_wf:
  assumes "newOrderRecord X i so = Some order" "Side_valid (so_Side so)"
    "or_hasSlippageBand order \<longrightarrow> price_ok sr \<and> 0 < pval sr"
  shows "order_wf (order\<lparr>or_slippageReference := sr\<rparr>)" "qval (or_filledQuantity order) = 0" "\<not> or_hasAverage order"
    "or_instrument order = i" "or_hasSlippageBand order = (so_MaxSlippageBPS so \<noteq> None)"
    "0 < qval (or_quantity order)"
proof -
  obtain q z k where q: "NewQuantity X (so_Quantity so) i = Inr q" "\<not> Decimal_Sign X (q_value q) \<le> 0"
    and z: "NewQuantity X ''0'' i = Inr z"
    and k: "k = (case so_MaxSlippageBPS so of None \<Rightarrow> base_order (so_OrderID so) (so_AccountID so) i (so_Side so) (so_Type so)
        (so_TimeInForce so) q z (so_ReduceOnly so) (so_PositionID so) q
      | Some bps \<Rightarrow> (base_order (so_OrderID so) (so_AccountID so) i (so_Side so) (so_Type so)
        (so_TimeInForce so) q z (so_ReduceOnly so) (so_PositionID so) q)\<lparr>or_hasSlippageBand := True, or_maxSlippageBPS := bps\<rparr>)"
    and p: "set_order_prices X so k = Some order"
    using assms(1) by (auto simp: newOrderRecord_def Let_def split: sum.splits if_splits)
  have kf: "or_orderType k = so_Type so" "\<not> or_hasPrice k" "\<not> or_hasTrigger k" "or_instrument k = i"
    "or_quantity k = q" "or_filledQuantity k = z" "or_originalQuantity k = q" "\<not> or_hasAverage k" "or_side k = so_Side so"
    "or_status k = OrderStatusWorking" "or_hasSlippageBand k = (so_MaxSlippageBPS so \<noteq> None)"
    by (auto simp: k base_order_def split: option.splits)
  note pw = set_order_prices_wf [OF p kf(1-3)]
  have u: "unit_qty i q" "unit_qty i z" "0 < qval q" "qval z = 0"
    using NewQuantity_ok [OF q(1)] NewQuantity_ok [OF z] q(2) plain_units(3)
    by (auto simp: unit_qty_def unit_defs dec_queries split: if_splits)
  obtain a hp b ht where o: "order = k\<lparr>or_price := a, or_hasPrice := hp, or_triggerPrice := b, or_hasTrigger := ht\<rparr>"
    using set_order_prices_shape [OF p] by blast
  show "order_wf (order\<lparr>or_slippageReference := sr\<rparr>)"
    using pw kf u assms(2,3) by (auto simp: order_wf_def o marketUsesDeepestFallback_def)
  show "qval (or_filledQuantity order) = 0" "\<not> or_hasAverage order" "or_instrument order = i"
    "or_hasSlippageBand order = (so_MaxSlippageBPS so \<noteq> None)" "0 < qval (or_quantity order)"
    using kf u by (auto simp: o)
qed

lemma find_instrument_current: "find_instrument t i = Some r \<Longrightarrow> current t r \<and> ir_id r = i"
  by (auto simp: find_instrument_def current_def dest: find_Some_mem)

lemma admitted_order_wf:
  assumes "admitted_order X t input so = Inr order" "trading_wf X t"
  shows "fresh_order t order \<and> or_orderID order \<notin> or_orderID ` set (ts_orders t) \<and> current t (or_instrument order)"
  using assms(1)
proof (rule admitted_order_cases)
  fix instrument o1 sr
  assume fi: "find_instrument t (so_InstrumentID so) = Some instrument" and n: "newOrderRecord X instrument so = Some o1"
    and c: "clampReduceOnlyOrder X t (o1\<lparr>or_slippageReference := sr\<rparr>) = (RejectionNone, order)"
    and oi: "orderIndex t (so_OrderID so) = None" and sv: "Side_valid (so_Side so)"
    and sl: "or_hasSlippageBand o1 \<longrightarrow> (\<exists>book. find_book t (so_InstrumentID so) = Some book \<and> bo_hasMark book \<and> sr = bo_markPrice book)"
  have t: "config_wf t" "records_wf t" using assms(2) by (auto simp: trading_wf_def)
  have "or_hasSlippageBand o1 \<longrightarrow> price_ok sr \<and> 0 < pval sr"
    using sl find_book_wf [OF t(1)] by (auto simp: book_wf_def unit_price_def)
  note nw = newOrderRecord_wf [OF n sv this] and sh = newOrderRecord_shape [OF n]
  let ?o = "o1\<lparr>or_slippageReference := sr\<rparr>"
  have cur: "current t (or_instrument ?o)" using find_instrument_current [OF fi] sh by simp
  note cw = clamp_wf [OF t(2) nw(1) cur]
  have "or_status ?o \<noteq> OrderStatusFilled" using sh by simp
  from cw(1,2) [OF this] c have w: "order_wf order" "same_execution ?o order" by auto
  have ev: "order_evolves ?o order" using clamp_pair [OF c] sh by (simp add: active_status_def)
  have "current t (or_instrument order)" using cur ev by (simp add: order_evolves_def)
  moreover from this have "fresh_order t order" using w nw(2,3) by (auto simp: fresh_order_def same_execution_def)
  moreover have "or_orderID order \<notin> or_orderID ` set (ts_orders t)"
    using oi ev sh by (simp add: orderIndex_None order_evolves_def)
  ultimately show ?thesis by blast
qed

section \<open>Submission, amendment, cancellation\<close>

lemma run_order_wf:
  assumes "run_order X t input i = (reason, u, d)" "trading_wf X t" "i < length (ts_orders t)" "active_status (or_status (ts_orders t ! i))"
  shows "trading_wf X u"
proof -
  obtain r tr t1 where a: "activateOrderIfReady X t i input = (r, tr, t1)" by (cases "activateOrderIfReady X t i input")
  have t1: "trading_wf X t1" by (rule activate_wf [OF a assms(2)])
  have o1: "i < length (ts_orders t1)" "active_status (or_status (ts_orders t1 ! i))"
    using activate_frame [OF a, of 0] assms(3,4) by (auto simp: exec_frame_def)
  show ?thesis using assms(1) t1 executeOrder_wf [OF _ t1 o1] by (auto simp: run_order_def a split: if_splits)
qed

lemma rest_order_wf: "rest_order X input i t d = (u, d') \<Longrightarrow> trading_wf X t \<Longrightarrow> trading_wf X u"
proof -
  assume r: "rest_order X input i t d = (u, d')" and t: "trading_wf X t"
  have "trading_wf X (set_order t i ((ts_orders t ! i)\<lparr>or_hasRested := True\<rparr>))"
    using trading_wf_order [OF t] by (intro trading_wf_set_order [OF t]) (auto simp: same_execution_def)
  then show ?thesis using r t by (auto simp: rest_order_def Let_def)
qed

lemma submit_wf:
  assumes "trading_wf X (st_trading s)"
  shows "trading_wf X (st_trading (fst (submitTradingOrder X s input so)))"
proof (cases rule: submit_cases [of X s input so])
  case (refused reason)
  then show ?thesis using assms by (simp add: decision_defs)
next
  case (slippage order k d)
  let ?t = "st_trading s" let ?i = "length (ts_orders ?t)"
  note a = admitted_order_wf [OF slippage(1) assms]
  have u: "trading_wf X (?t\<lparr>ts_orders := ts_orders ?t @ [order]\<rparr>)" using a by (intro trading_wf_append [OF assms]) auto
  have "trading_wf X (?t\<lparr>ts_orders := ts_orders ?t @ [k]\<rparr>)"
    by (rule run_order_wf [OF slippage(3) u])
      (use admitted_order_working [OF slippage(1)] in \<open>simp_all add: active_status_def\<close>)
  then have "trading_wf X (set_order (?t\<lparr>ts_orders := ts_orders ?t @ [k]\<rparr>) ?i (rejected_order RejectionSlippageExceeded k))"
    using trading_wf_order(1) [of X "?t\<lparr>ts_orders := ts_orders ?t @ [k]\<rparr>" ?i] order_wf_status(3)
    by (intro trading_wf_set_order) (auto simp: same_execution_def rejected_order_def active_status_def)
  then show ?thesis by (simp add: slippage(2) set_order_def)
next
  case (accepted order t d t' d')
  let ?t = "st_trading s"
  note a = admitted_order_wf [OF accepted(1) assms]
  have u: "trading_wf X (?t\<lparr>ts_orders := ts_orders ?t @ [order]\<rparr>)" using a by (intro trading_wf_append [OF assms]) auto
  have "trading_wf X t"
    by (rule run_order_wf [OF accepted(2) u])
      (use admitted_order_working [OF accepted(1)] in \<open>simp_all add: active_status_def\<close>)
  then show ?thesis using rest_order_wf [OF accepted(3)] by (simp add: accepted(4))
qed

lemma amend_wf:
  assumes "trading_wf X (st_trading s)"
  shows "trading_wf X (st_trading (fst (amendTradingOrder X s input ao)))"
proof (cases "st_trading (fst (amendTradingOrder X s input ao)) = st_trading s")
  case False
  let ?t = "st_trading s"
  obtain i where i: "orderIndex ?t (ao_OrderID ao) = Some i"
    using False by (cases "orderIndex ?t (ao_OrderID ao)") (auto simp: amendTradingOrder_def decision_defs)
  let ?c = "ts_orders ?t ! i"
  have il: "i < length (ts_orders ?t)" using i by (simp add: orderIndex_def first_index_bound)
  obtain q p reason t d t' d' where q: "NewQuantity X (ao_Quantity ao) (or_instrument ?c) = Inr q"
      "\<not> (Decimal_Sign X (q_value q) \<le> 0 \<or> Decimal_Cmp X (q_value q) (q_value (or_filledQuantity ?c)) < 0)"
    and p: "NewPrice X (ao_Price ao) (or_instrument ?c) = Inr p" "\<not> Decimal_Sign X (p_value p) \<le> 0"
    and st: "resting_status (or_status ?c)"
    and r: "run_order X (set_order ?t i (?c\<lparr>or_hasRested := False, or_quantity := q, or_price := p, or_hasPrice := True,
         or_version := or_version ?c + 1\<rparr>)) input i = (RejectionNone, t, d)"
    and rest: "rest_order X input i t d = (t', d')"
    and res: "amendTradingOrder X s input ao = (with_trading s t', d')"
    using False i unfolding amendTradingOrder_def Let_def decision_defs
    by (auto split: if_splits sum.splits prod.splits)
  let ?o = "?c\<lparr>or_hasRested := False, or_quantity := q, or_price := p, or_hasPrice := True, or_version := or_version ?c + 1\<rparr>"
  note ow = trading_wf_order [OF assms il]
  have act: "active_status (or_status ?c)" using st by (rule resting_active)
  have fq: "unit_qty (or_instrument ?c) (or_filledQuantity ?c)" using ow(1) by (simp add: order_wf_def)
  have uq: "unit_qty (or_instrument ?c) q" using NewQuantity_ok [OF q(1)] by (simp add: unit_qty_def)
  then have "qval (or_filledQuantity ?c) \<le> qval q" using q(2) qval_compare [OF uq fq] by auto
  moreover have "unit_price (or_instrument ?c) p"
    using NewPrice_ok [OF p(1)] p(2) by (auto simp: unit_price_def unit_defs dec_queries split: if_splits)
  ultimately have "order_wf ?o" using ow(1) uq active_not_filled [OF act] by (simp add: order_wf_def marketUsesDeepestFallback_def)
  then have "trading_wf X (set_order ?t i ?o)"
    using ow(2) [OF act] by (intro trading_wf_set_order [OF assms]) (auto simp: same_execution_def)
  then have "trading_wf X t" by (rule run_order_wf [OF r]) (use il act in simp_all)
  then show ?thesis using rest_order_wf [OF rest] by (simp add: res)
qed (use assms in simp)

lemma cancel_wf:
  assumes "trading_wf X (st_trading s)"
  shows "trading_wf X (st_trading (fst (cancelTradingOrder X s input co)))"
proof (cases "orderIndex (st_trading s) (co_OrderID co)")
  case None
  then show ?thesis using assms by (simp add: cancelTradingOrder_def decision_defs)
next
  case (Some i)
  let ?c = "ts_orders (st_trading s) ! i"
  obtain t d where c: "cancel_at X input i ?c (st_trading s, acceptedDecision) = (t, d)" by fastforce
  have t: "trading_wf X t" using self_cancel_wf [of "(st_trading s, acceptedDecision)" input i] assms c by simp
  obtain t' d' where p: "cancelBracketProtection X t (or_bracketID ?c) input d = (t', d')" by fastforce
  have "trading_wf X t'" using reconcile_wf(1) [OF t, of "or_bracketID ?c" input d] p by simp
  then show ?thesis using assms t by (simp add: cancelTradingOrder_def Some Let_def c p decision_defs)
qed

section \<open>Brackets\<close>

lemma held_leg_fresh:
  assumes "newOrderRecord X i (protective_submit pb oid ty q p tr) = Some order" "current t i"
  shows "fresh_order t (held_leg b leg k order)" "or_orderID (held_leg b leg k order) = oid"
proof -
  have sv: "Side_valid (so_Side (protective_submit pb oid ty q p tr))" by (simp add: protective_submit_def oppositeSide_def)
  have ns: "\<not> or_hasSlippageBand order"
    using assms(1)
    by (auto simp: newOrderRecord_def protective_submit_def base_order_def Let_def dest!: set_order_prices_shape
      split: sum.splits if_splits)
  note nw = newOrderRecord_wf [OF assms(1) sv, of "or_slippageReference order"]
  have "order_wf order" using nw(1) ns by simp
  then have "order_wf (held_leg b leg k order)" by (simp add: held_leg_def order_wf_def marketUsesDeepestFallback_def)
  then show "fresh_order t (held_leg b leg k order)" using nw(2-4) ns assms(2) by (simp add: fresh_order_def held_leg_def)
  show "or_orderID (held_leg b leg k order) = oid"
    using newOrderRecord_shape [OF assms(1)] by (simp add: held_leg_def protective_submit_def)
qed

lemma take_profit_fresh:
  "take_profit_orders X i pb k legs = Some os \<Longrightarrow> current t i \<Longrightarrow>
    (\<forall>order \<in> set os. fresh_order t order) \<and> map or_orderID os = map pl_OrderID legs"
proof (induction legs arbitrary: k os)
  case (Cons leg legs)
  then obtain child rest where c: "newOrderRecord X i (protective_submit pb (pl_OrderID leg) OrderTypeTakeProfitLimit
        (pl_Quantity leg) (pl_Price leg) (pl_Price leg)) = Some child"
    and r: "take_profit_orders X i pb (k + 1) legs = Some rest"
    and os: "os = held_leg (pb_BracketID pb) BracketLegTakeProfit (of_nat (k + 1)) child # rest"
    by (auto split: option.splits)
  from held_leg_fresh [OF c Cons.prems(2)] Cons.IH [OF r Cons.prems(2)] os show ?case by simp
qed simp

lemma bracket_children_fresh:
  assumes "bracket_children X i pb = Some os" "current t i"
  shows "\<forall>order \<in> set os. fresh_order t order"
    "map or_orderID os = map pl_OrderID (slice (pb_TakeProfits pb)) @ [pb_StopLossOrderID pb]"
proof -
  obtain tps stop where tp: "take_profit_orders X i pb 0 (slice (pb_TakeProfits pb)) = Some tps"
    and st: "newOrderRecord X i (protective_submit pb (pb_StopLossOrderID pb) OrderTypeStopMarket (pb_Quantity pb) ''''
       (pb_StopLoss pb)) = Some stop"
    and os: "os = tps @ [held_leg (pb_BracketID pb) BracketLegStopLoss 0 stop]"
    using assms(1) by (auto simp: bracket_children_def split: option.splits)
  from take_profit_fresh [OF tp assms(2)] held_leg_fresh [OF st assms(2)] os
  show "\<forall>order \<in> set os. fresh_order t order"
    "map or_orderID os = map pl_OrderID (slice (pb_TakeProfits pb)) @ [pb_StopLossOrderID pb]" by auto
qed

lemma attach_wf:
  assumes "trading_wf X (st_trading n)" "\<forall>order \<in> set os. fresh_order (st_trading n) order" "distinct (map or_orderID os)"
    "or_orderID ` set os \<inter> or_orderID ` set (ts_orders (st_trading n)) = {}"
  shows "trading_wf X (st_trading (fst (attach_protection X input pb os n d)))"
proof -
  let ?t = "st_trading n"
  let ?i = "case orderIndex ?t (pb_EntryOrderID pb) of Some i \<Rightarrow> i | None \<Rightarrow> 0"
  let ?e = "(ts_orders ?t ! ?i)\<lparr>or_bracketID := pb_BracketID pb, or_bracketLeg := BracketLegEntry\<rparr>"
  let ?u = "set_order ?t ?i ?e"
  have u: "trading_wf X ?u"
    using trading_wf_order [OF assms(1)] by (intro trading_wf_set_order [OF assms(1)]) (auto simp: same_execution_def)
  have ids: "or_orderID ` set (ts_orders ?u) = or_orderID ` set (ts_orders ?t)"
    using map_update_same [of or_orderID ?e "ts_orders ?t" ?i] by (simp flip: set_map)
  have "fresh_order ?u = fresh_order ?t" using current_cong [of ?u ?t] by (simp add: fresh_order_def fun_eq_iff)
  then have w: "trading_wf X (?u\<lparr>ts_orders := ts_orders ?u @ os\<rparr>)"
    using assms(2-4) ids by (intro trading_wf_append [OF u]) auto
  show ?thesis using w reconcile_wf(2) [OF w]
    by (simp add: attach_protection_def Let_def split_beta split: option.split)
qed

lemma bracket_wf:
  assumes "trading_wf X (st_trading s)"
  shows "trading_wf X (st_trading (fst (placeTradingBracket X s input pb)))"
proof (cases "placeTradingBracket X s input pb = rejectedTradingDecision s RejectionInvalidOrder")
  case True
  then show ?thesis using assms by (simp add: decision_defs)
next
  case False
  obtain n d where sub: "submitTradingOrder X s input (entry_submit pb) = (n, d)" by fastforce
  from False obtain i where i: "find_instrument (st_trading s) (pb_InstrumentID pb) = Some i"
    and v: "validBracketEnvelope X (st_trading s) i pb" and r: "placeTradingBracket X s input pb =
      (if cmd_Status (d_CommandResult d) = CommandStatusRejected then (n, d)
       else case bracket_children X i pb of None \<Rightarrow> rejectedTradingDecision s RejectionInvalidOrder
         | Some children \<Rightarrow> attach_protection X input pb children n d)"
    by (auto simp: placeTradingBracket_def sub split: option.splits if_splits)
  have n: "trading_wf X (st_trading n)" using submit_wf [OF assms, of input "entry_submit pb"] sub by simp
  show ?thesis
  proof (cases "cmd_Status (d_CommandResult d) = CommandStatusRejected \<or> bracket_children X i pb = None")
    case True
    then show ?thesis using n assms by (auto simp: r decision_defs)
  next
    case ok: False
    then obtain os where os: "bracket_children X i pb = Some os" by blast
    note ids = submit_ids [OF sub] 
    have idn: "or_orderID ` set (ts_orders (st_trading n)) = insert (pb_EntryOrderID pb) (or_orderID ` set (ts_orders (st_trading s)))"
      and inst: "ts_instruments (st_trading n) = ts_instruments (st_trading s)"
      using ids ok by (auto simp: entry_submit_def)
    have "current (st_trading n) i"
      using find_instrument_current [OF i] current_cong [OF inst] by simp
    note ch = bracket_children_fresh [OF os this]
    obtain z seen tot where bl: "bracket_legs X i [pb_EntryOrderID pb, pb_StopLossOrderID pb] z (slice (pb_TakeProfits pb)) = Some (seen, tot)"
      and ne: "pb_EntryOrderID pb \<noteq> pb_StopLossOrderID pb"
      and new: "list_all (\<lambda>i. orderIndex (st_trading s) i = None) seen"
      using v by (auto simp: validBracketEnvelope_def split: if_splits sum.splits option.splits)
    note bs = bracket_legs_seen [OF bl]
    have d: "distinct (map or_orderID os)" "pb_EntryOrderID pb \<notin> set (map or_orderID os)" "set (map or_orderID os) \<subseteq> set seen"
      using bs ne ch(2) by auto
    have "or_orderID ` set os \<inter> or_orderID ` set (ts_orders (st_trading n)) = {}"
      using d(2,3) new idn by (auto simp: list_all_iff orderIndex_None)
    then have "trading_wf X (st_trading (fst (attach_protection X input pb os n d)))"
      by (rule attach_wf [OF n ch(1) d(1)])
    then show ?thesis using ok os by (simp add: r)
  qed
qed

section \<open>Liquidation\<close>

lemma scan_position_candidates:
  "scan_position X ul index p r b s = Inr s' \<Longrightarrow> c \<in> set (ls_candidates s') \<union> set (ls_cross s') \<Longrightarrow>
    c \<in> set (ls_candidates s) \<union> set (ls_cross s) \<or> lc_index c = index"
  by (auto simp: scan_position_def start_scan_def Let_def split: if_splits option.splits)

lemma scan_positions_candidates:
  "scan_positions X t a ul index ps s = Inr s' \<Longrightarrow> c \<in> set (ls_candidates s') \<union> set (ls_cross s') \<Longrightarrow>
    c \<in> set (ls_candidates s) \<union> set (ls_cross s) \<or>
    (index \<le> lc_index c \<and> lc_index c < index + length ps \<and> po_status (ps ! (lc_index c - index)) = PositionStatusOpen)"
proof (induction ps arbitrary: index s)
  case (Cons p ps)
  show ?case
  proof (cases "po_accountID p \<noteq> a \<or> po_status p \<noteq> PositionStatusOpen")
    case True
    then have "scan_positions X t a ul (index + 1) ps s = Inr s'" using Cons.prems(1) by simp
    from Cons.IH [OF this Cons.prems(2)] show ?thesis by (auto simp: nth_Cons')
  next
    case False
    then obtain r b s1 where sp: "scan_position X ul index p r b s = Inr s1"
      and rest: "scan_positions X t a ul (index + 1) ps s1 = Inr s'"
      using Cons.prems(1) by (auto split: option.splits if_splits sum.splits)
    from Cons.IH [OF rest Cons.prems(2)] show ?thesis
    proof
      assume "c \<in> set (ls_candidates s1) \<union> set (ls_cross s1)"
      from scan_position_candidates [OF sp this] show ?thesis using False by auto
    qed (auto simp: nth_Cons')
  qed
qed simp

lemma liquidationCandidates_open:
  assumes "liquidationCandidates X t a = Inr (Some cs)" "c \<in> set cs"
  shows "lc_index c < length (ts_positions t) \<and> po_status (ts_positions t ! lc_index c) = PositionStatusOpen"
proof -
  let ?s = "\<lparr>ls_currency = None, ls_maintenance = zeroMoney, ls_unrealized = zeroMoney,
                ls_isolated = zeroMoney, ls_candidates = [], ls_cross = []\<rparr>"
  obtain ul s' where s: "scan_positions X t a ul 0 (ts_positions t) ?s = Inr s'" and "c \<in> set (ls_candidates s') \<union> set (ls_cross s')"
    using assms by (auto simp: liquidationCandidates_def Let_def split: sum.splits option.splits if_splits)
  from scan_positions_candidates [OF s this(2)] show ?thesis by auto
qed

lemma liquidation_order_fresh:
  assumes "position_wf p" "current t (po_instrument p)" "NewQuantity X ''0'' (po_instrument p) = Inr z"
  shows "fresh_order t (liquidation_order i p z)"
proof -
  have "unit_qty (po_instrument p) z" "qval z = 0" using NewQuantity_ok [OF assms(3)] plain_units(3) by (auto simp: unit_qty_def)
  moreover have "0 \<le> qval (po_quantity p)" using assms(1) by (auto simp: position_wf_def unit_qty_def unit_defs)
  ultimately show ?thesis using assms(1,2)
    by (auto simp: fresh_order_def liquidation_order_def base_order_def order_wf_def position_wf_def marketUsesDeepestFallback_def
      trigger_type_def oppositePositionSide_def)
qed

lemma liquidate_positions_wf:
  "liquidate_positions X input q cs t d = Inr (u, d') \<Longrightarrow> trading_wf X t \<Longrightarrow>
    \<forall>c \<in> set cs. lc_index c < length (ts_positions t) \<and> current t (po_instrument (ts_positions t ! lc_index c)) \<Longrightarrow> trading_wf X u"
proof (induction cs arbitrary: q t d)
  case (Cons c cs)
  let ?p = "ts_positions t ! lc_index c"
  let ?id = "IDFromSequence (in_InputID input) (liquidationSequence q)"
  from Cons.prems(1) obtain z where z: "NewQuantity X ''0'' (po_instrument ?p) = Inr z" and new: "orderIndex t ?id = None"
    by (auto simp: Let_def split: if_splits sum.splits)
  let ?o = "liquidation_order ?id ?p z"
  let ?t = "t\<lparr>ts_orders := ts_orders t @ [?o]\<rparr>"
  obtain r t1 d1 where e: "executeOrder X ?t input (length (ts_orders t)) d = (r, t1, d1)"
    by (cases "executeOrder X ?t input (length (ts_orders t)) d")
  from Cons.prems(1) z new e have rest: "liquidate_positions X input (q + 1) cs t1
      (appendOrderTransition d1 input (order_snapshot X (ts_orders t1 ! length (ts_orders t)))) = Inr (u, d')"
    by (auto simp: Let_def split: if_splits)
  have "position_wf ?p" using Cons.prems(2,3) by (auto simp: trading_wf_def records_wf_def)
  then have "fresh_order t ?o" using liquidation_order_fresh z Cons.prems(3) by simp
  moreover have "or_orderID ?o = ?id" by (simp add: liquidation_order_def base_order_def)
  ultimately have t: "trading_wf X ?t" using new by (intro trading_wf_append [OF Cons.prems(2)]) (auto simp: orderIndex_None)
  have act: "length (ts_orders t) < length (ts_orders ?t)" "active_status (or_status (ts_orders ?t ! length (ts_orders t)))"
    by (simp_all add: liquidation_order_def base_order_def active_status_def)
  have t1: "trading_wf X t1" by (rule executeOrder_wf [OF e t act])
  have fr: "exec_frame (length (ts_fills ?t)) ?t t1" using executeOrder_step [OF e act] by blast
  have "current t1 = current ?t" by (rule current_frame [OF fr])
  then have cur: "current t1 = current t" using current_cong [of ?t t] by simp
  have "lc_index k < length (ts_positions t1) \<and> current t1 (po_instrument (ts_positions t1 ! lc_index k))" if "k \<in> set cs" for k
  proof -
    have k: "lc_index k < length (ts_positions t)" "current t (po_instrument (ts_positions t ! lc_index k))"
      using Cons.prems(3) that by auto
    then have "position_evolves (ts_positions t ! lc_index k) (ts_positions t1 ! lc_index k)" "lc_index k < length (ts_positions t1)"
      using fr by (auto simp: exec_frame_def grows_def)
    then show ?thesis using k(2) cur by (simp add: position_evolves_def)
  qed
  then show ?case using Cons.IH [OF rest t1] by blast
qed simp

lemma liquidate_wf:
  assumes "trading_wf X (st_trading s)"
  shows "trading_wf X (st_trading (fst (liquidateTradingAccount X s input la)))"
proof -
  have "trading_wf X u" if cs: "liquidationCandidates X (st_trading s) a = Inr (Some cs)"
    and l: "liquidate_positions X input q cs (st_trading s) d = Inr (u, d')" for a cs q d u d'
  proof (rule liquidate_positions_wf [OF l assms], rule ballI)
    fix c assume "c \<in> set cs"
    from liquidationCandidates_open [OF cs this] assms
    show "lc_index c < length (ts_positions (st_trading s)) \<and> current (st_trading s) (po_instrument (ts_positions (st_trading s) ! lc_index c))"
      by (auto simp: trading_wf_def records_wf_def)
  qed
  then show ?thesis using assms by (auto simp: liquidateTradingAccount_def decision_defs split: sum.split option.split)
qed

section \<open>Every action\<close>

lemmas handler_wf = configure_wf adjust_wf settle_wf liquidate_wf book_update_wf submit_wf bracket_wf amend_wf cancel_wf

lemma action_wf:
  "trading_wf X (st_trading s) \<Longrightarrow> trading_wf X (st_trading (fst (applyTradingAction X s input a)))"
  by (simp add: applyTradingAction_def handler_wf decision_defs split: TradingActionKind.split)

lemma action_version_wf:
  "trading_wf X (st_trading s) \<Longrightarrow> trading_wf X (st_trading (fst (applyTradingActionAtDecisionHashVersion X s input a v)))"
  by (simp add: applyTradingActionAtDecisionHashVersion_def action_wf decision_defs)

end

end
