(* ===== verification/KernelReachable.thy ===== *)
theory KernelReachable
  imports KernelChain EngineHandlers
begin

text \<open>
  The states a shard can reach: from a new shard by seeding its currencies, by applying inputs through
  every entry point of the kernel, in order or out of order, replayed or re-published, with any
  receipt index, and by failing closed (\<open>kernel_step\<close>). The invariant of the trading state holds in all
  of them; along every step the trading state evolves (\<open>history\<close>) and recorded fills stay as they are
  (\<open>kernel_step_fills\<close>): the leverage is stamped on the fills of the same decision only.
\<close>

section \<open>Completing a decision\<close>

lemma freeze_fill_fills:
  assumes "freeze_fill X p t f = Inr (u, f')"
  shows "\<exists>fs. u = t\<lparr>ts_fills := fs\<rparr> \<and> length fs = length (ts_fills t) \<and> (\<forall>i < length fs. fill_evolves (ts_fills t ! i) (fs ! i))"
proof -
  obtain i l where u: "u = t\<lparr>ts_fills := (ts_fills t)[i := (ts_fills t ! i)\<lparr>fi_effectiveLeverage := l, fi_hasEffectiveLeverage := True\<rparr>]\<rparr>"
    using assms by (auto simp: freeze_fill_def Let_def split: list.splits if_splits option.splits sum.splits)
  let ?fs = "(ts_fills t)[i := (ts_fills t ! i)\<lparr>fi_effectiveLeverage := l, fi_hasEffectiveLeverage := True\<rparr>]"
  have "fill_evolves (ts_fills t ! j) (?fs ! j)" if "j < length (ts_fills t)" for j
    using that by (cases "j = i") (simp_all add: fill_evolves_def)
  then show ?thesis unfolding u by (intro exI [of _ ?fs]) simp
qed

lemma freeze_fills_fills:
  "freeze_fills X p t fs = Inr (u, fs') \<Longrightarrow>
    \<exists>gs. u = t\<lparr>ts_fills := gs\<rparr> \<and> length gs = length (ts_fills t) \<and> (\<forall>i < length gs. fill_evolves (ts_fills t ! i) (gs ! i))"
proof (induction fs arbitrary: t fs')
  case Nil
  then show ?case by (intro exI [of _ "ts_fills t"]) simp
next
  case (Cons f fs)
  then obtain t1 f1 fs1 where f: "freeze_fill X p t f = Inr (t1, f1)" and r: "freeze_fills X p t1 fs = Inr (u, fs1)"
    by (auto split: sum.splits prod.splits)
  obtain hs where hs: "t1 = t\<lparr>ts_fills := hs\<rparr>" "length hs = length (ts_fills t)"
      "\<forall>i < length hs. fill_evolves (ts_fills t ! i) (hs ! i)" using freeze_fill_fills [OF f] by blast
  obtain gs where gs: "u = t1\<lparr>ts_fills := gs\<rparr>" "length gs = length (ts_fills t1)"
      "\<forall>i < length gs. fill_evolves (ts_fills t1 ! i) (gs ! i)" using Cons.IH [OF r] by blast
  show ?case using hs gs fill_evolves_trans by (intro exI [of _ gs]) auto
qed

lemma complete_decision_trading:
  assumes "complete_decision X s input v sd = Inr (n, dc)"
  shows "\<exists>fs. st_trading n = (st_trading (fst sd))\<lparr>ts_fills := fs\<rparr> \<and> length fs = length (ts_fills (st_trading (fst sd)))
    \<and> (\<forall>i < length fs. fill_evolves (ts_fills (st_trading (fst sd)) ! i) (fs ! i))"
proof -
  have self: "\<exists>fs. t = t\<lparr>ts_fills := fs\<rparr> \<and> length fs = length (ts_fills t) \<and> (\<forall>i < length fs. fill_evolves (ts_fills t ! i) (fs ! i))"
    for t :: tradingState by (intro exI [of _ "ts_fills t"]) simp
  show ?thesis using assms self
    by (cases sd) (auto simp: complete_decision_def freezeFillEffectiveLeverage_def Let_def
      split: if_splits sum.splits prod.splits dest!: freeze_fills_fills)
qed

lemma fill_evolves_core: "fill_evolves a b \<Longrightarrow> fill_core b = fill_core a \<and> (fill_wf b \<longleftrightarrow> fill_wf a)"
  by (cases a; cases b) (auto simp: fill_evolves_def fill_core_def fill_wf_def)

text \<open>The fills a decision reports are new, so stamping them leaves earlier fills alone.\<close>

lemma freeze_fill_new:
  assumes "freeze_fill X p t f = Inr (u, f')" "fl_FillID f \<in> set (drop n (map fi_fillID (ts_fills t)))"
  shows "take n (ts_fills u) = take n (ts_fills t) \<and> map fi_fillID (ts_fills u) = map fi_fillID (ts_fills t)"
proof -
  let ?is = "filter (\<lambda>i. fi_fillID (ts_fills t ! i) = fl_FillID f) [0 ..< length (ts_fills t)]"
  obtain i l where i: "?is = [i]"
    and u: "u = t\<lparr>ts_fills := (ts_fills t)[i := (ts_fills t ! i)\<lparr>fi_effectiveLeverage := l, fi_hasEffectiveLeverage := True\<rparr>]\<rparr>"
    using assms(1) by (auto simp: freeze_fill_def Let_def split: list.splits if_splits option.splits sum.splits)
  obtain j where j: "n \<le> j" "j < length (ts_fills t)" "fi_fillID (ts_fills t ! j) = fl_FillID f"
    using assms(2) by (auto simp: in_set_conv_nth) (metis add.commute le_add1 less_diff_conv)
  then have "j \<in> set ?is" by simp
  then have "n \<le> i" using i j(1) by simp
  moreover have "map fi_fillID (ts_fills u) = map fi_fillID (ts_fills t)"
  proof (rule nth_equalityI)
    fix k assume "k < length (map fi_fillID (ts_fills u))"
    then show "map fi_fillID (ts_fills u) ! k = map fi_fillID (ts_fills t) ! k" by (cases "k = i") (simp_all add: u)
  qed (simp add: u)
  ultimately show ?thesis by (simp add: u)
qed

lemma freeze_fills_new:
  "freeze_fills X p t fs = Inr (u, fs') \<Longrightarrow> fl_FillID ` set fs \<subseteq> set (drop n (map fi_fillID (ts_fills t))) \<Longrightarrow>
    take n (ts_fills u) = take n (ts_fills t)"
proof (induction fs arbitrary: t fs')
  case (Cons f fs)
  then obtain t1 f1 fs1 where f: "freeze_fill X p t f = Inr (t1, f1)" and r: "freeze_fills X p t1 fs = Inr (u, fs1)"
    by (auto split: sum.splits prod.splits)
  from freeze_fill_new [OF f, of n] Cons.prems(2)
  have t1: "take n (ts_fills t1) = take n (ts_fills t)" "map fi_fillID (ts_fills t1) = map fi_fillID (ts_fills t)" by auto
  have "take n (ts_fills u) = take n (ts_fills t1)" by (rule Cons.IH [OF r]) (use Cons.prems(2) t1(2) in simp)
  with t1 show ?case by simp
qed simp

lemma complete_decision_fills:
  assumes "complete_decision X s input v sd = Inr (n, dc)" "action_reported X s sd"
  shows "prefix (ts_fills (st_trading s)) (ts_fills (st_trading n))"
proof -
  obtain s1 d1 where sd: "sd = (s1, d1)" by (cases sd)
  obtain fs where fs: "ts_fills (st_trading s1) = ts_fills (st_trading s) @ fs" "d_Fills d1 = map (fill_snapshot X) fs"
    using assms(2) by (auto simp: sd action_reported_def reports_def)
  let ?k = "length (ts_fills (st_trading s))"
  have new: "fl_FillID ` set (d_Fills d1) \<subseteq> set (drop ?k (map fi_fillID (ts_fills (st_trading s1))))"
    by (auto simp: fs fill_snapshot_def)
  have "take ?k (ts_fills u) = ts_fills (st_trading s)"
    if "freeze_fills X p (st_trading s1) (d_Fills d1) = Inr (u, gs)" for p u gs
    using freeze_fills_new [OF that new] by (simp add: fs(1))
  then have "take ?k (ts_fills (st_trading n)) = ts_fills (st_trading s)"
    using assms(1) fs(1) by (auto simp: sd complete_decision_def freezeFillEffectiveLeverage_def Let_def
      split: if_splits sum.splits prod.splits)
  then show ?thesis by (metis take_is_prefix)
qed

lemma trading_wf_frozen:
  assumes "trading_wf X t" "length fs = length (ts_fills t)" "\<forall>i < length fs. fill_evolves (ts_fills t ! i) (fs ! i)"
  shows "trading_wf X (t\<lparr>ts_fills := fs\<rparr>)"
proof -
  have core: "map fill_core fs = map fill_core (ts_fills t)"
    using assms(2,3) fill_evolves_core by (auto simp: list_eq_iff_nth_eq)
  have "fill_wf (fs ! i)" if "i < length fs" for i
  proof -
    have "fill_wf (ts_fills t ! i)" using assms(1,2) that by (simp add: trading_wf_def records_wf_def)
    then show ?thesis using assms(3) that fill_evolves_core by blast
  qed
  then have "\<forall>f \<in> set fs. fill_wf f" by (auto simp: in_set_conv_nth)
  moreover have "current (t\<lparr>ts_fills := fs\<rparr>) = current t" by (rule current_cong) simp
  ultimately have "records_wf (t\<lparr>ts_fills := fs\<rparr>)" using assms(1) by (simp add: trading_wf_def records_wf_def)
  moreover have "accounted X (t\<lparr>ts_fills := fs\<rparr>)"
    using assms(1) same_core(1,3) [OF core]
    by (simp add: trading_wf_def accounted_def order_accounted_def executed_quantity_def)
  ultimately show ?thesis using assms(1) same_core(2) [OF core] by (simp add: trading_wf_def config_wf_def conserved_def)
qed

section \<open>Reachable states\<close>

text \<open>One call of the kernel, through any of its entry points.\<close>

inductive kernel_step :: "Extern \<Rightarrow> State \<Rightarrow> State \<Rightarrow> bool" for X where
  step_seed: "SeedCurrencyScales s scales = Inr s' \<Longrightarrow> kernel_step X s s'"
| step_apply: "ApplyWithReceipts X s input R = (s', d, e) \<Longrightarrow> kernel_step X s s'"
| step_trading: "ApplyTradingWithReceiptsAtDecisionHashVersion X s input a R v = (s', d, e) \<Longrightarrow> kernel_step X s s'"
| step_recovery: "ApplyTradingForRecoveryAtDecisionHashVersion X s input a R v = (s', d, e) \<Longrightarrow> kernel_step X s s'"
| step_duplicate: "ApplyDuplicateDeliveryAtDecisionHashVersion s input r v = (s', d, e) \<Longrightarrow> kernel_step X s s'"
| step_fail: "FailClosed s input kind detail = (s', e) \<Longrightarrow> kernel_step X s s'"

inductive reachable :: "Extern \<Rightarrow> State \<Rightarrow> bool" for X where
  reach_new: "reachable X (NewState shard)"
| reach_step: "reachable X s \<Longrightarrow> kernel_step X s s' \<Longrightarrow> reachable X s'"

lemmas reach_seed = reach_step [OF _ step_seed]
  and reach_apply = reach_step [OF _ step_apply]
  and reach_trading = reach_step [OF _ step_trading]

lemma seed_scales_only: "seed_scales t cs = Some u \<Longrightarrow> \<exists>k. u = t\<lparr>ts_currencyScales := k\<rparr>"
proof (induction t cs rule: seed_scales.induct)
  case (1 t)
  then show ?case by (intro exI [of _ "ts_currencyScales t"]) simp
next
  case (2 t s ss)
  then obtain c where c: "seed_scales (rememberCurrencyScale t c) ss = Some u"
      "\<exists>k. u = (rememberCurrencyScale t c)\<lparr>ts_currencyScales := k\<rparr>"
    by (auto split: sum.splits if_splits)
  then show ?case by (auto simp: rememberCurrencyScale_def split: option.splits)
qed

lemma seed_only:
  assumes "SeedCurrencyScales s scales = Inr s'"
  shows "ts_currencyScales (st_trading s) = []
    \<and> (\<exists>k. s' = with_trading s ((st_trading s)\<lparr>ts_currencyScales := k\<rparr>))"
  using assms seed_scales_only by (fastforce simp: SeedCurrencyScales_def split: if_splits option.splits)

text \<open>Recovery differs from the trading entry point in the market sequence only.\<close>

lemma recovery_cases:
  assumes "ApplyTradingForRecoveryAtDecisionHashVersion X s input a R v = (s', d, e)"
  obtains n where "ApplyTradingWithReceiptsAtDecisionHashVersion X s input a R v = (n, d, e)"
    "s' = n \<or> s' = n\<lparr>st_marketSequence := in_StreamSequence input\<rparr> \<and> e = None
       \<and> in_Kind input = InputKindMarket \<and> d_BookChanges d \<noteq> []"
  using assms by (auto simp: ApplyTradingForRecoveryAtDecisionHashVersion_def split: prod.splits if_splits)

lemma emptyTrading_wf: "trading_wf X emptyTrading"
  by (simp add: trading_wf_def config_wf_def records_wf_def accounted_def conserved_def emptyTrading_def keyed_def
    net_positions_def net_fills_def)

lemma seed_scales_wf: "seed_scales t cs = Some u \<Longrightarrow> trading_wf X t \<Longrightarrow> trading_wf X u"
  by (induction t cs rule: seed_scales.induct) (auto split: sum.splits if_splits intro: trading_wf_scales)

lemma duplicate_trading: "ApplyDuplicateDeliveryAtDecisionHashVersion s input r v = (s', d, e) \<Longrightarrow> st_trading s' = st_trading s"
  by (auto simp: ApplyDuplicateDeliveryAtDecisionHashVersion_def Let_def not_ready_def halt_def split: if_splits sum.splits)

context apd_lib
begin

lemma fresh_apply_wf:
  assumes "fresh_apply X s input R cs tr v s' d" "trading_wf X (st_trading (fst (tr s)))"
  shows "trading_wf X (st_trading s')"
proof -
  obtain n dc where c: "complete_decision X s input v (tr s) = Inr (n, dc)" and n: "st_trading s' = st_trading n"
    using assms(1) by (auto simp: fresh_apply_def)
  from complete_decision_trading [OF c] trading_wf_frozen [OF assms(2)] n show ?thesis by metis
qed

lemma trading_step_wf:
  assumes "ApplyTradingWithReceiptsAtDecisionHashVersion X s input a R v = (s', d, e)" "trading_wf X (st_trading s)"
  shows "trading_wf X (st_trading s')"
  using trading_cases [OF assms(1)] fresh_apply_wf action_version_wf [OF assms(2)] assms(2)
  by (auto simp: halted_from_def replayed_def split: if_splits)

lemma apply_step_wf:
  assumes "ApplyWithReceipts X s input R = (s', d, e)" "trading_wf X (st_trading s)"
  shows "trading_wf X (st_trading s')"
  using apply_cases [OF assms(1) [unfolded ApplyWithReceipts_def applyWithReceiptsAtDecisionHashVersion_def]] assms(2)
    fresh_apply_wf [of s input R CurrentSchemaVersion no_transition]
  by (auto simp: halted_from_def replayed_def no_transition_def split: if_splits)

lemma kernel_step_wf:
  assumes "kernel_step X s s'" "trading_wf X (st_trading s)"
  shows "trading_wf X (st_trading s')"
  using assms
proof (cases rule: kernel_step.cases)
  case (step_seed scales)
  then show ?thesis using assms(2) by (auto simp: SeedCurrencyScales_def split: if_splits option.splits intro: seed_scales_wf)
next
  case (step_recovery input a R v d e)
  then show ?thesis by (rule recovery_cases) (use trading_step_wf [OF _ assms(2)] in auto)
next
  case (step_fail input kind detail e)
  then show ?thesis using assms(2) by (auto simp: FailClosed_def halt_def)
qed (simp_all add: trading_step_wf apply_step_wf duplicate_trading)

lemma reachable_wf: "reachable X s \<Longrightarrow> trading_wf X (st_trading s)"
  by (induction rule: reachable.induct) (simp add: NewState_def emptyTrading_wf, rule kernel_step_wf)

end

section \<open>The trading state evolves\<close>

lemma history_orders:
  assumes "history s t" "grows order_evolves (ts_orders s) os" shows "history s (t\<lparr>ts_orders := os\<rparr>)"
  using assms by (simp add: history_def currencyScale_def)

lemma history_set_order:
  "history s t \<Longrightarrow> (i < length (ts_orders t) \<Longrightarrow> order_evolves (ts_orders t ! i) order) \<Longrightarrow> history s (set_order t i order)"
  unfolding set_order_def
  by (rule history_orders)
    (simp, rule grows_trans [OF order_evolves_trans _ grows_update [OF order_evolves_refl]], auto simp: history_def)

lemma exec_step_history: "exec_step (length (ts_fills s)) (s, d) sd \<Longrightarrow> history s (fst sd)"
  by (cases sd) (simp add: exec_step_def exec_frame_history)

lemma frame_history: "history s t \<Longrightarrow> exec_frame (length (ts_fills t)) t u \<Longrightarrow> history s u"
  using exec_frame_history history_trans by blast

lemma configure_history:
  assumes "distinct (map cur_code (ts_currencyScales (st_trading s)))"
  shows "history (st_trading s) (st_trading (fst (configureTradingInstrument X s ci)))"
    "history (st_trading s) (st_trading (fst (configureTradingAccount s ca)))"
    "history (st_trading s) (st_trading (fst (configureTradingRisk X s cr)))"
    "history (st_trading s) (st_trading (fst (adjustTradingBalance X s ab)))"
proof -
  let ?t = "st_trading s"
  have "history ?t (replaceInstrument (rememberCurrencyScale ?t c) r)" for c r
    using currencyScale_remember [OF assms, of c]
    by (simp add: history_def grows_refl replaceInstrument_def currencyScale_def split: option.split)
  then show "history ?t (st_trading (fst (configureTradingInstrument X s ci)))"
    by (simp add: configureTradingInstrument_def decision_defs split: option.split)
  have "history ?t (replaceAccount ?t a)" "history ?t (replaceRisk ?t k)" for a k
    by (simp_all add: history_same replaceAccount_def replaceRisk_def)
  then show "history ?t (st_trading (fst (configureTradingAccount s ca)))" "history ?t (st_trading (fst (configureTradingRisk X s cr)))"
    by (auto simp: configureTradingAccount_def configureTradingRisk_def decision_defs split: option.split sum.split)
  show "history ?t (st_trading (fst (adjustTradingBalance X s ab)))"
  proof (cases rule: adjust_cases [of X s ab])
    case (adjusted c m u i total snap)
    from adjusted(5) have "history ?t (sortBalances (set_balance u i total))"
      by (auto simp: balance_slot_def history_same sortBalances_def set_balance_def split: option.splits sum.splits)
    then show ?thesis by (simp add: adjusted(8))
  qed (simp add: decision_defs)
qed

lemma settle_positions_history:
  "settle_positions X input sf r mark rate ps t d q = Inr (u, d') \<Longrightarrow> history t u"
proof (induction ps arbitrary: t d q)
  case (Cons p ps)
  show ?case
  proof (cases "ir_id (po_instrument p) \<noteq> sf_InstrumentID sf \<or> po_status p \<noteq> PositionStatusOpen")
    case True
    then show ?thesis using Cons by simp
  next
    case False
    then obtain t1 d1 where f: "fund_position X input (sf_SettlementID sf) r mark rate p t d q = Inr (t1, d1)"
      and rest: "settle_positions X input sf r mark rate ps t1 d1 (q + 1) = Inr (u, d')"
      using Cons.prems(1) by (auto split: sum.splits)
    have "history t t1" using f
      by (auto simp: fund_position_def applyBalanceDelta_def set_balance_def history_def grows_refl currencyScale_def Let_def
        split: sum.splits option.splits)
    then show ?thesis using Cons.IH [OF rest] by (rule history_trans)
  qed
qed simp

lemma settle_history: "history (st_trading s) (st_trading (fst (settleTradingFunding X s input sf)))"
proof (cases "st_trading (fst (settleTradingFunding X s input sf)) = st_trading s")
  case False
  let ?t = "st_trading s"
  obtain r mark rate k u d where
    sp: "settle_positions X input sf r mark rate (ts_positions ?t) (?t\<lparr>ts_settlements := ts_settlements ?t @ [k]\<rparr>)
       acceptedDecision 1 = Inr (u, d)" and res: "settleTradingFunding X s input sf = (with_trading s u, d)"
    using False unfolding settleTradingFunding_def Let_def decision_defs
    by (auto split: if_splits sum.splits option.splits prod.splits)
  have "history ?t (?t\<lparr>ts_settlements := ts_settlements ?t @ [k]\<rparr>)" by (simp add: history_def grows_refl currencyScale_def)
  then show ?thesis using settle_positions_history [OF sp] by (simp add: res history_trans)
qed simp

lemma liquidate_history: "history (st_trading s) (st_trading (fst (liquidateTradingAccount X s input la)))"
proof -
  have "history t u" if "liquidate_positions X input q cs t d = Inr (u, d')" for q cs t d u d'
    using liquidate_positions_step [OF that] grows_append [of fill_evolves]
    by (auto simp: history_def currencyScale_def)
  then show ?thesis by (auto simp: liquidateTradingAccount_def decision_defs split: sum.split option.split)
qed

lemma book_history: "history (st_trading s) (st_trading (fst (updateTradingBook X s input ub)))"
proof -
  have "history t u" if "matchWorkingOrders X (replaceBook t b) input iid d = (u, d')" for t b iid d u d'
  proof -
    have "history t (replaceBook t b)" by (simp add: history_same replaceBook_def)
    moreover have "exec_step (length (ts_fills (replaceBook t b))) (replaceBook t b, d) (u, d')"
      using matchWorkingOrders_step [of "replaceBook t b" d X input iid] that by simp
    ultimately show ?thesis by (auto simp: exec_step_def intro: frame_history)
  qed
  then show ?thesis by (auto simp: updateTradingBook_def decision_defs Let_def split: option.split sum.split prod.split)
qed

lemma submit_history: "history (st_trading s) (st_trading (fst (submitTradingOrder X s input so)))"
proof (cases rule: submit_cases [of X s input so])
  case (accepted order t d t' d')
  let ?u = "(st_trading s)\<lparr>ts_orders := ts_orders (st_trading s) @ [order]\<rparr>"
  have "exec_frame (length (ts_fills ?u)) ?u t"
    by (rule run_order_step(1) [OF accepted(2)])
      (use admitted_order_working [OF accepted(1)] in \<open>simp_all add: active_status_def\<close>)
  then have "history (st_trading s) t" by (rule frame_history [OF history_append_orders])
  then show ?thesis using rest_order_grows [OF accepted(3)] by (auto simp: accepted(4) intro: frame_history)
qed (simp_all add: decision_defs history_append_orders)

lemma amend_history: "history (st_trading s) (st_trading (fst (amendTradingOrder X s input ao)))"
proof (cases "st_trading (fst (amendTradingOrder X s input ao)) = st_trading s")
  case False
  let ?t = "st_trading s"
  obtain i where i: "orderIndex ?t (ao_OrderID ao) = Some i"
    using False by (cases "orderIndex ?t (ao_OrderID ao)") (auto simp: amendTradingOrder_def decision_defs)
  let ?c = "ts_orders ?t ! i"
  obtain q p t d t' d' where st: "resting_status (or_status ?c)"
    and r: "run_order X (set_order ?t i (?c\<lparr>or_hasRested := False, or_quantity := q, or_price := p, or_hasPrice := True,
         or_version := or_version ?c + 1\<rparr>)) input i = (RejectionNone, t, d)"
    and rest: "rest_order X input i t d = (t', d')"
    and res: "amendTradingOrder X s input ao = (with_trading s t', d')"
    using False i unfolding amendTradingOrder_def Let_def decision_defs
    by (auto split: if_splits sum.splits prod.splits)
  let ?u = "set_order ?t i (?c\<lparr>or_hasRested := False, or_quantity := q, or_price := p, or_hasPrice := True,
         or_version := or_version ?c + 1\<rparr>)"
  have act: "active_status (or_status ?c)" using st by (rule resting_active)
  have il: "i < length (ts_orders ?t)" using i by (simp add: orderIndex_def first_index_bound)
  have "history ?t ?u" by (rule history_set_order) (use act in \<open>simp_all add: order_evolves_def\<close>)
  moreover have "exec_frame (length (ts_fills ?u)) ?u t" by (rule run_order_step(1) [OF r]) (use act il in simp_all)
  ultimately have "history ?t t" by (rule frame_history)
  then show ?thesis using rest_order_grows [OF rest] by (auto simp: res intro: frame_history)
qed simp

lemma cancel_history: "history (st_trading s) (st_trading (fst (cancelTradingOrder X s input co)))"
proof (cases "st_trading (fst (cancelTradingOrder X s input co)) = st_trading s")
  case False
  let ?t = "st_trading s"
  obtain i where i: "orderIndex ?t (co_OrderID co) = Some i"
    using False by (cases "orderIndex ?t (co_OrderID co)") (auto simp: cancelTradingOrder_def decision_defs)
  let ?c = "ts_orders ?t ! i"
  have act: "active_status (or_status ?c)"
    using False i by (auto simp: cancelTradingOrder_def decision_defs Let_def split: if_splits)
  obtain t d where c: "cancel_at X input i ?c (?t, acceptedDecision) = (t, d)" by fastforce
  have t: "history ?t t" using exec_step_history [OF cancel_at_step [of i "(?t, acceptedDecision)" ?c _ X input]] act c
    by (metis fst_conv order_evolves_refl)
  obtain t' d' where p: "cancelBracketProtection X t (or_bracketID ?c) input d = (t', d')" by fastforce
  have "history ?t t'" using reconcile_evolves(1) [of "length (ts_fills t)" t d X "or_bracketID ?c" input] p t
    by (auto simp: exec_step_def intro: frame_history)
  then show ?thesis using t by (simp add: cancelTradingOrder_def i Let_def c p decision_defs)
qed simp

lemma bracket_history: "history (st_trading s) (st_trading (fst (placeTradingBracket X s input pb)))"
proof (cases "placeTradingBracket X s input pb = rejectedTradingDecision s RejectionInvalidOrder")
  case True
  then show ?thesis by (simp add: decision_defs)
next
  case False
  obtain n d where sub: "submitTradingOrder X s input (entry_submit pb) = (n, d)" by fastforce
  from False obtain i where v: "validBracketEnvelope X (st_trading s) i pb" and r: "placeTradingBracket X s input pb =
      (if cmd_Status (d_CommandResult d) = CommandStatusRejected then (n, d)
       else case bracket_children X i pb of None \<Rightarrow> rejectedTradingDecision s RejectionInvalidOrder
         | Some children \<Rightarrow> attach_protection X input pb children n d)"
    by (auto simp: placeTradingBracket_def sub split: option.splits if_splits)
  have n: "history (st_trading s) (st_trading n)" using submit_history [of s X input "entry_submit pb"] sub by simp
  have "history (st_trading s) (st_trading (fst (attach_protection X input pb os n d)))"
    if acc: "cmd_Status (d_CommandResult d) \<noteq> CommandStatusRejected" for os
  proof -
    let ?o = "ts_orders (st_trading s)" and ?m = "ts_orders (st_trading n)"
    obtain z seen tot where bl: "bracket_legs X i [pb_EntryOrderID pb, pb_StopLossOrderID pb] z (slice (pb_TakeProfits pb)) = Some (seen, tot)"
      and new: "list_all (\<lambda>i. orderIndex (st_trading s) i = None) seen"
      using v by (auto simp: validBracketEnvelope_def split: if_splits sum.splits option.splits)
    have fresh: "pb_EntryOrderID pb \<notin> or_orderID ` set ?o"
      using bracket_legs_seen [OF bl] new by (auto simp: orderIndex_None list_all_iff)
    obtain k where k: "orderIndex (st_trading n) (pb_EntryOrderID pb) = Some k"
      using submit_ids [OF sub acc] orderIndex_None [of "st_trading n" "pb_EntryOrderID pb"]
      by (cases "orderIndex (st_trading n) (pb_EntryOrderID pb)") (auto simp: entry_submit_def)
    then have km: "k < length ?m" "or_orderID (?m ! k) = pb_EntryOrderID pb"
      unfolding orderIndex_def by (auto dest: first_index_bound first_index_sat)
    have kl: "length ?o \<le> k"
    proof (rule ccontr)
      assume "\<not> length ?o \<le> k"
      then have "k < length ?o" by simp
      moreover have "order_evolves (?o ! k) (?m ! k)" using n calculation by (simp add: history_def grows_def)
      ultimately show False using fresh km(2) nth_mem [of k ?o] by (auto simp: order_evolves_def)
    qed
    let ?e = "(?m ! k)\<lparr>or_bracketID := pb_BracketID pb, or_bracketLeg := BracketLegEntry\<rparr>"
    let ?u = "(set_order (st_trading n) k ?e)\<lparr>ts_orders := ?m[k := ?e] @ os\<rparr>"
    have "grows order_evolves ?o (?m[k := ?e] @ os)"
      using n kl by (simp add: history_def grows_def nth_append)
    then have u: "history (st_trading s) ?u" using history_orders [OF n, of "?m[k := ?e] @ os"] by (simp add: set_order_def)
    have "history (st_trading s) (fst (armBracketProtection X ?u b p input d'))" for b p d'
      using reconcile_evolves(2) [of "length (ts_fills ?u)" ?u d' X b p input] u
      by (auto simp: exec_step_def intro: frame_history)
    then show ?thesis using u k by (simp add: attach_protection_def Let_def split_beta split: option.split)
  qed
  then show ?thesis using n by (auto simp: r decision_defs split: option.split)
qed

lemmas handler_history = configure_history settle_history liquidate_history book_history submit_history amend_history
  cancel_history bracket_history

lemma action_history:
  "distinct (map cur_code (ts_currencyScales (st_trading s))) \<Longrightarrow>
    history (st_trading s) (st_trading (fst (applyTradingActionAtDecisionHashVersion X s input a v)))"
  by (simp add: applyTradingActionAtDecisionHashVersion_def applyTradingAction_def handler_history decision_defs
    split: TradingActionKind.split)

context apd_lib
begin

text \<open>Whatever a reachable shard is sent, its trading state evolves.\<close>

lemma trading_history:
  assumes "reachable X s" "ApplyTradingWithReceiptsAtDecisionHashVersion X s input a R v = (s', d, e)"
  shows "history (st_trading s) (st_trading s')"
proof -
  have dc: "distinct (map cur_code (ts_currencyScales (st_trading s)))"
    using reachable_wf [OF assms(1)] by (simp add: trading_wf_def config_wf_def)
  from trading_cases [OF assms(2)] show ?thesis
  proof (elim disjE)
    assume "e = None \<and> EncodeTradingAction a = in_Payload input \<and> TradingActionAllowedForInputKind (in_Kind input) (act_Kind a)
      \<and> fresh_apply X s input R CurrentSchemaVersion (trading_transition X input a v) v s' d"
    then obtain n dd where c: "complete_decision X s input v (trading_transition X input a v s) = Inr (n, dd)"
      and n: "st_trading s' = st_trading n" by (auto simp: fresh_apply_def)
    from complete_decision_trading [OF c] obtain fs where
      fs: "st_trading n = (st_trading (fst (trading_transition X input a v s)))\<lparr>ts_fills := fs\<rparr>"
      "length fs = length (ts_fills (st_trading (fst (trading_transition X input a v s))))"
      "\<forall>i < length fs. fill_evolves (ts_fills (st_trading (fst (trading_transition X input a v s))) ! i) (fs ! i)" by blast
    have "history (st_trading (fst (trading_transition X input a v s))) (st_trading n)"
      unfolding fs(1) using fs(2,3) by (simp add: history_def grows_refl currencyScale_def grows_def)
    then show ?thesis using action_history [OF dc, of X input a v] n by (metis history_trans)
  qed (auto simp: halted_from_def replayed_def split: if_splits)
qed

lemma kernel_step_history:
  assumes "reachable X s" "kernel_step X s s'"
  shows "history (st_trading s) (st_trading s')"
  using assms(2)
proof (cases rule: kernel_step.cases)
  case (step_seed scales)
  from seed_only [OF this] obtain k where "ts_currencyScales (st_trading s) = []"
      "s' = with_trading s ((st_trading s)\<lparr>ts_currencyScales := k\<rparr>)" by blast
  then show ?thesis by (simp add: history_def grows_refl currencyScale_def)
next
  case (step_apply input R d e)
  from apply_cases [OF this [unfolded ApplyWithReceipts_def applyWithReceiptsAtDecisionHashVersion_def]] show ?thesis
    by (auto simp: halted_from_def replayed_def fresh_apply_def no_transition_def history_def grows_def currencyScale_def
      split: if_splits dest!: complete_decision_trading)
next
  case (step_recovery input a R v d e)
  then show ?thesis by (rule recovery_cases) (use trading_history [OF assms(1)] in auto)
next
  case (step_fail input kind detail e)
  then show ?thesis by (auto simp: FailClosed_def halt_def)
qed (simp_all add: trading_history [OF assms(1)] duplicate_trading)

end

section \<open>Recorded fills are final\<close>

lemma fresh_apply_fills:
  "fresh_apply X s input R cs tr v s' d \<Longrightarrow> action_reported X s (tr s) \<Longrightarrow>
    prefix (ts_fills (st_trading s)) (ts_fills (st_trading s'))"
  by (auto simp: fresh_apply_def dest: complete_decision_fills)

lemma trading_fills:
  assumes "ApplyTradingWithReceiptsAtDecisionHashVersion X s input a R v = (s', d, e)"
  shows "prefix (ts_fills (st_trading s)) (ts_fills (st_trading s'))"
  using trading_cases [OF assms] fresh_apply_fills action_reports
  by (fastforce simp: halted_from_def replayed_def split: if_splits)

lemma no_transition_reported: "action_reported X s (no_transition s)"
  by (simp add: no_transition_def action_reported_def reports_quiet)

lemma kernel_step_fills:
  assumes "kernel_step X s s'"
  shows "prefix (ts_fills (st_trading s)) (ts_fills (st_trading s'))"
  using assms
proof (cases rule: kernel_step.cases)
  case (step_seed scales)
  from seed_only [OF this] show ?thesis by auto
next
  case (step_apply input R d e)
  from apply_cases [OF this [unfolded ApplyWithReceipts_def applyWithReceiptsAtDecisionHashVersion_def]] show ?thesis
    using fresh_apply_fills [of X s input R CurrentSchemaVersion no_transition] no_transition_reported
    by (fastforce simp: halted_from_def replayed_def split: if_splits)
next
  case (step_recovery input a R v d e)
  then show ?thesis by (rule recovery_cases) (auto dest: trading_fills)
next
  case (step_fail input kind detail e)
  then show ?thesis by (auto simp: FailClosed_def halt_def)
qed (simp_all add: trading_fills duplicate_trading)

end
