(* ===== verification/SampleDay.thy ===== *)
theory SampleDay
  imports Samples KernelReachable "HOL-Library.Code_Target_Nat"
begin

text \<open>
  A short trading day for the kernel: an account, an instrument, a deposit, a quoted market and a limit
  order that takes the whole ask and rests with the remainder, with the trading states the day passes
  through. The handlers see only the trading state of a shard (\<open>handlers_lifted\<close>), so they can be evaluated on
  a shard with blank hashes, and one input of the day commits when its handler accepts and its ledger is
  exact (\<open>day_commit\<close>).
\<close>

section \<open>The day\<close>

definition usd :: Currency where
  "usd = \<lparr>cur_code = ''USD'', cur_scale = 2\<rparr>"

definition btc :: InstrumentRevision where
  "btc = \<lparr>ir_id = ''BTC'', ir_revision = 1, ir_priceScale = 2, ir_quantityScale = 3\<rparr>"

definition btc_market :: ConfigureInstrument where
  "btc_market = \<lparr>ci_InstrumentID = ''BTC'', ci_Revision = 1, ci_PriceScale = 2, ci_QuantityScale = 3,
     ci_SettlementCurrency = ''USD'', ci_SettlementCurrencyScale = 2, ci_InitialMarginRate = ''0.1'',
     ci_MaintenanceMarginRate = ''0.05'', ci_MaxLeverage = ''10'', ci_MakerFeeRate = ''0'', ci_TakerFeeRate = ''0.001''\<rparr>"

definition deposit :: AdjustBalance where
  "deposit = \<lparr>ab_AccountID = ''alice'', ab_Currency = ''USD'', ab_CurrencyScale = 2,
     ab_Operation = BalanceOperationDeposit, ab_Amount = ''1000''\<rparr>"

definition quote_btc :: UpdateBook where
  "quote_btc = \<lparr>ub_InstrumentID = ''BTC'', ub_MarkPrice = ''100'', ub_Bids = Some [\<lparr>bl_Price = ''99'', bl_Quantity = ''5''\<rparr>],
     ub_Asks = Some [\<lparr>bl_Price = ''101'', bl_Quantity = ''2''\<rparr>]\<rparr>"

definition buy_btc :: SubmitOrder where
  "buy_btc = \<lparr>so_OrderID = sample_id 9, so_AccountID = ''alice'', so_InstrumentID = ''BTC'', so_Side = SideBuy,
     so_Type = OrderTypeLimit, so_TimeInForce = TimeInForceGTC, so_Quantity = ''3'', so_Price = ''101'',
     so_TriggerPrice = '''', so_ReduceOnly = False, so_PositionID = zeroID, so_MaxSlippageBPS = None\<rparr>"

definition day :: "TradingAction list" where
  "day = [sample_account,
     no_action\<lparr>act_Kind := TradingActionConfigureInstrument, act_ConfigureInstrument := Some btc_market\<rparr>,
     no_action\<lparr>act_Kind := TradingActionAdjustBalance, act_AdjustBalance := Some deposit\<rparr>,
     no_action\<lparr>act_Kind := TradingActionUpdateBook, act_UpdateBook := Some quote_btc\<rparr>,
     no_action\<lparr>act_Kind := TradingActionSubmitOrder, act_SubmitOrder := Some buy_btc\<rparr>]"

section \<open>The trading states it passes through\<close>

definition btc_record :: instrumentRecord where
  "btc_record = \<lparr>im_revision = btc, im_settlementCurrency = usd,
     im_initialMarginRate = \<lparr>rate_value = mk_finite 1 (- 1)\<rparr>, im_maintenanceMarginRate = \<lparr>rate_value = mk_finite 5 (- 2)\<rparr>,
     im_maxLeverage = \<lparr>ratio_value = mk_finite 1 1\<rparr>, im_makerFeeRate = \<lparr>rate_value = mk_finite 0 0\<rparr>,
     im_takerFeeRate = \<lparr>rate_value = mk_finite 1 (- 3)\<rparr>\<rparr>"

definition btc_price :: "int \<Rightarrow> int \<Rightarrow> Price" where
  "btc_price c e = \<lparr>p_value = mk_finite c e, p_instrument = btc\<rparr>"

definition btc_quantity :: "int \<Rightarrow> Quantity" where
  "btc_quantity c = \<lparr>q_value = mk_finite c 0, q_instrument = btc\<rparr>"

definition btc_book :: bookRecord where
  "btc_book = \<lparr>bo_instrumentID = ''BTC'', bo_markPrice = btc_price 1 2, bo_hasMark = True,
     bo_bids = [\<lparr>lv_price = btc_price 99 0, lv_quantity = btc_quantity 5\<rparr>],
     bo_asks = [\<lparr>lv_price = btc_price 101 0, lv_quantity = btc_quantity 2\<rparr>]\<rparr>"

definition trading1 :: tradingState where
  "trading1 = emptyTrading\<lparr>ts_accounts := [\<lparr>ac_accountID = ''alice'', ac_omsMode = OmsModeNetting\<rparr>]\<rparr>"

definition trading2 :: tradingState where
  "trading2 = trading1\<lparr>ts_instruments := [btc_record], ts_currencyScales := [usd]\<rparr>"

definition trading3 :: tradingState where
  "trading3 = trading2\<lparr>ts_balances := [\<lparr>ba_accountID = ''alice'', ba_total = \<lparr>m_amount = mk_finite 1 3, m_currency = usd\<rparr>\<rparr>]\<rparr>"

definition trading4 :: tradingState where
  "trading4 = trading3\<lparr>ts_books := [btc_book]\<rparr>"

text \<open>The submitted order as admitted.\<close>

definition btc_order :: orderRecord where
  "btc_order = (base_order (sample_id 9) ''alice'' btc SideBuy OrderTypeLimit TimeInForceGTC (btc_quantity 3) (btc_quantity 0)
     False zeroID (btc_quantity 3))\<lparr>or_price := btc_price 101 0, or_hasPrice := True\<rparr>"

definition submitted :: tradingState where
  "submitted = trading4\<lparr>ts_orders := [btc_order]\<rparr>"

abbreviation order_input :: InputEnvelope where
  "order_input \<equiv> sample_input 5 5 InputKindCommand (day ! 4)"

text \<open>A long position of 2 and an order that would sell 3 of it.\<close>

definition btc_long :: positionRecord where
  "btc_long = \<lparr>po_positionID = sample_id 8, po_accountID = ''alice'', po_instrument = btc, po_settlementCurrency = usd,
     po_side = PositionSideLong, po_status = PositionStatusOpen, po_quantity = btc_quantity 2,
     po_averageOpenPrice = btc_price 101 0, po_realizedPnL = \<lparr>m_amount = mk_finite 0 0, m_currency = usd\<rparr>,
     po_marginMode = MarginModeCross, po_isolatedCollateral = \<lparr>m_amount = mk_finite 0 0, m_currency = usd\<rparr>, po_version = 1\<rparr>"

definition held_long :: tradingState where
  "held_long = trading4\<lparr>ts_positions := [btc_long]\<rparr>"

definition btc_exit :: orderRecord where
  "btc_exit = btc_order\<lparr>or_side := SideSell, or_reduceOnly := True\<rparr>"

definition shell :: "tradingState \<Rightarrow> State" where
  "shell t = \<lparr>st_shardID = 7, st_nextStreamSequence = 1, st_marketSequence = 0, st_ready = True, st_hash = zeroHash,
     st_lastReceipt = zeroReceipt, st_hasLastReceipt = False, st_trading = t\<rparr>"


section \<open>The handlers see only the trading state\<close>

definition lifted :: "State \<Rightarrow> State \<times> Decision \<Rightarrow> State \<times> Decision" where
  "lifted s sd = (with_trading s (st_trading (fst sd)), snd sd)"

lemma with_trading_self [simp]: "with_trading s (st_trading s) = s"
  by (simp add: with_trading_def)

lemma with_shell [simp]: "st_trading (shell t) = t" "st_trading (with_trading s t) = t"
  by (simp_all add: shell_def with_trading_def)

lemma handlers_lifted:
  "configureTradingInstrument X s ci = lifted s (configureTradingInstrument X (shell (st_trading s)) ci)"
  "adjustTradingBalance X s ab = lifted s (adjustTradingBalance X (shell (st_trading s)) ab)"
  "updateTradingBook X s input ub = lifted s (updateTradingBook X (shell (st_trading s)) input ub)"
proof -
  show "configureTradingInstrument X s ci = lifted s (configureTradingInstrument X (shell (st_trading s)) ci)"
    by (simp add: configureTradingInstrument_def lifted_def decision_defs split: option.split)
  show "updateTradingBook X s input ub = lifted s (updateTradingBook X (shell (st_trading s)) input ub)"
    by (simp add: updateTradingBook_def lifted_def decision_defs Let_def split_beta split: option.split sum.split)
  have sum_if: "lifted s (case_sum f g x) = case_sum (\<lambda>y. lifted s (f y)) (\<lambda>y. lifted s (g y)) x"
    "lifted s (if b then p else q) = (if b then lifted s p else lifted s q)"
    "lifted s (case_option p h y) = case_option (lifted s p) (\<lambda>z. lifted s (h z)) y"
    for f g h p q y and x :: "'x + 'y" and b by (simp_all split: sum.split option.split)
  have leaf: "lifted s (rejectedTradingDecision (shell (st_trading s)) r) = rejectedTradingDecision s r"
    "lifted s (with_trading (shell (st_trading s)) t, d) = (with_trading s t, d)" for r t d
    by (simp_all add: lifted_def decision_defs)
  show "adjustTradingBalance X s ab = lifted s (adjustTradingBalance X (shell (st_trading s)) ab)"
    unfolding adjustTradingBalance_def sum_if leaf with_shell ..
qed

section \<open>Committing one input\<close>

text \<open>A shard that has committed the first \<open>n\<close> inputs of a day and holds the trading state \<open>t\<close>.\<close>

definition day_at :: "u8 \<Rightarrow> tradingState \<Rightarrow> State \<Rightarrow> bool" where
  "day_at n t s = (reachable apd_ref s \<and> st_ready s \<and> st_shardID s = 7 \<and> st_nextStreamSequence s = ucast n + 1
     \<and> st_trading s = t \<and> (st_hasLastReceipt s \<longrightarrow> r_InputID (st_lastReceipt s) = sample_id n
       \<and> r_StreamSequence (st_lastReceipt s) = ucast n))"

text \<open>The ledger of a set of balance changes can be derived when every delta is exact.\<close>

definition ledger_exact :: "Extern \<Rightarrow> State \<Rightarrow> BalanceSnapshot list \<Rightarrow> bool" where
  "ledger_exact X previous changes = list_all (\<lambda>c.
     case Parse X (bs_Total (lastBalanceChange changes (bs_AccountID c) (bs_Currency c))) of Inl _ \<Rightarrow> False
     | Inr n \<Rightarrow> (case Decimal_Sub X n (case rawBalanceTotal previous (bs_AccountID c) (bs_Currency c) of
           None \<Rightarrow> zeroDecimal | Some t \<Rightarrow> t) of Inl _ \<Rightarrow> False
         | Inr delta \<Rightarrow> \<not> isl (Decimal_Sub X zeroDecimal delta))) changes"

lemma ledger_exact_derives:
  assumes "ledger_exact X (shell (st_trading s)) changes"
  shows "\<exists>l. deriveLedgerChanges X s input changes = Inr l"
proof -
  let ?final = "map_of (rev (map (\<lambda>c. (change_key c, c)) changes))"
  have "\<exists>l. ledger_from X s input ?final ks ts = Inr l" if "set ks \<subseteq> change_key ` set changes" for ks ts
    using that
  proof (induction ks arbitrary: ts)
    case (Cons k ks)
    then obtain c where c: "c \<in> set changes" "k = (bs_AccountID c, bs_Currency c)" by (auto simp: change_key_def)
    have f: "?final k = Some (lastBalanceChange changes (fst k) (snd k))" using Cons.prems last_change_final by auto
    have "rawBalanceTotal (shell (st_trading s)) = rawBalanceTotal s" by (simp add: fun_eq_iff rawBalanceTotal_def)
    then obtain n delta where "Parse X (bs_Total (lastBalanceChange changes (fst k) (snd k))) = Inr n"
      "Decimal_Sub X n (case rawBalanceTotal s (fst k) (snd k) of None \<Rightarrow> zeroDecimal | Some t \<Rightarrow> t) = Inr delta"
      "\<not> isl (Decimal_Sub X zeroDecimal delta)"
      using bspec [OF assms [unfolded ledger_exact_def list_all_iff] c(1)] c(2) by (auto split: sum.splits)
    moreover have "\<exists>l. ledger_from X s input ?final ks ts' = Inr l" for ts' using Cons by auto
    ultimately show ?case using f by (auto simp: Let_def isl_def split: sum.split)
  qed simp
  then show ?thesis by (simp add: deriveLedgerChanges_def Let_def)
qed

abbreviation day_input :: "u8 \<Rightarrow> InputKind \<Rightarrow> TradingAction \<Rightarrow> InputEnvelope" where
  "day_input n kind a \<equiv> sample_input (n + 1) (ucast n + 1) kind a"

lemma day_commit:
  assumes s: "day_at n t s" and w: "(ucast (n + 1) :: u64) = ucast n + 1" "n + 1 \<noteq> 0"
      "(ucast n :: u64) + 1 \<notin> {0, - 1}"
    and k: "InputKind_valid kind" "TradingActionAllowedForInputKind kind (act_Kind a)"
    and tr: "applyTradingAction apd_ref s (day_input n kind a) a = (with_trading s t', d)"
    and l: "ledger_exact apd_ref (shell t) (d_BalanceChanges d)"
  shows "\<exists>s' dc. day_at (n + 1) t' s' \<and> ApplyTradingWithReceiptsAtDecisionHashVersion apd_ref s (day_input n kind a) a None 2
      = (s', dc, None)
    \<and> lookupReceipt s None (day_input n kind a) = Inr None \<and> d_BalanceChanges dc = d_BalanceChanges d"
proof -
  let ?input = "day_input n kind a"
  have fresh: "lookupReceipt s None ?input = Inr None"
    using s w by (auto simp: lookupReceipt_def day_at_def Let_def)
  have e: "validateEnvelope s ?input CurrentSchemaVersion = None"
    using s w k by (intro validateEnvelope_sample) (auto simp: day_at_def)
  obtain led where led: "deriveLedgerChanges apd_ref s ?input (d_BalanceChanges d) = Inr led"
    using ledger_exact_derives [of apd_ref s "d_BalanceChanges d" ?input] l s by (auto simp: day_at_def)
  obtain n' d' where c: "complete_decision apd_ref s ?input 2 (with_trading s t', d) = Inr (n', d')"
    "st_trading n' = t'" "st_nextStreamSequence n' = st_nextStreamSequence s" "st_ready n' = st_ready s" "st_shardID n' = st_shardID s"
    "d_BalanceChanges d' = d_BalanceChanges d"
    using led by (auto simp: complete_decision_def Let_def with_trading_def)
  obtain d'' where seal: "seal_decision s ?input 2 (st_nextStreamSequence n' + 1) d' = Inr d''"
    by (auto simp: seal_decision_def hashEffectsAtVersion_def hashDecisionAtVersion_def)
  let ?s = "n'\<lparr>st_nextStreamSequence := st_nextStreamSequence n' + 1, st_hash := d_NextStateHash d'',
         st_lastReceipt := NewReceipt ?input d'', st_hasLastReceipt := True\<rparr>"
  have a: "ApplyTradingWithReceiptsAtDecisionHashVersion apd_ref s ?input a None 2 =
     (?s, d'', None)"
    using s fresh e w k c tr seal by (simp add: entry_defs Let_def day_at_def applyTradingActionAtDecisionHashVersion_def)
  moreover have "day_at (n + 1) t' ?s" using s c w a unfolding day_at_def
    by (auto simp: NewReceipt_def intro: reach_trading)
  moreover have "d_BalanceChanges d'' = d_BalanceChanges d" using seal_decision_frame [OF seal] c(6) by auto
  ultimately show ?thesis using fresh by blast
qed

section \<open>The records of the day are well formed\<close>

lemma sample_decimals:
  "list_all (\<lambda>(c, e). dec_ok (mk_finite c e) \<and> dscale (mk_finite c e) = 0)
     [(0, 0), (2, 0), (3, 0), (5, 0), (101, 0), (99, 0), (1, 2), (1, 3)]"
  by code_simp

lemma sample_units:
  "unit_qty btc (btc_quantity 0)" "unit_qty btc (btc_quantity 2)" "unit_qty btc (btc_quantity 3)" "unit_qty btc (btc_quantity 5)"
  "unit_price btc (btc_price 101 0)" "unit_price btc (btc_price 99 0)" "unit_price btc (btc_price 1 2)"
  "unit_money usd \<lparr>m_amount = mk_finite 0 0, m_currency = usd\<rparr>" "unit_money usd \<lparr>m_amount = mk_finite 1 3, m_currency = usd\<rparr>"
  using sample_decimals by (simp_all add: unit_wf_defs unit_defs btc_quantity_def btc_price_def)
    (simp_all add: btc_def usd_def)

lemma sample_quantities [simp]: "qval (btc_quantity c) = of_int c" "pval (btc_price c 0) = of_int c"
  by (simp_all add: btc_quantity_def btc_price_def qval_def pval_def)

lemma sample_orders_wf: "order_wf btc_order" "order_wf btc_exit"
  using sample_units by (simp_all add: order_wf_def btc_exit_def btc_order_def base_order_def marketUsesDeepestFallback_def
    trigger_type_def)

lemma btc_book_levels: "l \<in> set (bo_bids btc_book) \<union> set (bo_asks btc_book) \<Longrightarrow> level_wf btc l"
  using sample_units by (auto simp: btc_book_def level_wf_def)

lemma btc_current: "current held_long btc"
  by (simp add: current_def find_instrument_def held_long_def trading4_def trading3_def trading2_def btc_record_def find_instrumentRecord_def)

lemma held_long_wf: "records_wf held_long"
proof -
  have "ts_orders held_long = []" "ts_fills held_long = []" "ts_positions held_long = [btc_long]"
    "ts_balances held_long = [\<lparr>ba_accountID = ''alice'', ba_total = \<lparr>m_amount = mk_finite 1 3, m_currency = usd\<rparr>\<rparr>]"
    by (simp_all add: held_long_def trading4_def trading3_def trading2_def trading1_def emptyTrading_def)
  moreover have "position_wf btc_long" "po_instrument btc_long = btc"
    using sample_units by (simp_all add: position_wf_def btc_long_def)
  ultimately show ?thesis using sample_units btc_current by (simp add: records_wf_def unit_money_def)
qed

end
