(* ===== verification/SampleTrades.thy ===== *)
theory SampleTrades
  imports SampleDay
begin

text \<open>
  The day of \<open>SampleDay\<close> is evaluated and committed: the shard it ends in is reachable and holds a partly
  filled order, a fill, an open position and a balance charged with the fee. Identities derived by
  SHA-256 and encoded payloads stay symbolic in the evaluation.
\<close>

section \<open>The day is committed\<close>

declare IDFromSequence_def [code del] EncodeTradingAction_def [code del]

lemma configured: "st_trading (fst (configureTradingInstrument apd_ref (shell trading1) btc_market)) = trading2"
  by code_simp

lemma configured_quiet: "d_BalanceChanges (snd (configureTradingInstrument apd_ref (shell trading1) btc_market)) = []"
  by code_simp

lemma deposited: "st_trading (fst (adjustTradingBalance apd_ref (shell trading2) deposit)) = trading3"
  by code_simp

lemma deposited_exact: "ledger_exact apd_ref (shell trading2) (d_BalanceChanges (snd (adjustTradingBalance apd_ref (shell trading2) deposit)))"
  by code_simp

abbreviation quote_input :: InputEnvelope where
  "quote_input \<equiv> sample_input 4 4 InputKindMarket (day ! 3)"

lemma quoted: "st_trading (fst (updateTradingBook apd_ref (shell trading3) quote_input quote_btc)) = trading4"
  by code_simp

lemma quoted_quiet: "d_BalanceChanges (snd (updateTradingBook apd_ref (shell trading3) quote_input quote_btc)) = []"
  by code_simp

lemma admitted: "admitted_order apd_ref trading4 order_input buy_btc = Inr btc_order"
  by code_simp

definition charged :: BalanceSnapshot where
  "charged = \<lparr>bs_AccountID = ''alice'', bs_Currency = ''USD'', bs_Total = ''999.8'', bs_Used = ''3.13'', bs_Free = ''994.67'',
     bs_Equity = ''997.8''\<rparr>"

lemma executed:
  "(case run_order apd_ref submitted order_input 0 of (reason, t, d) \<Rightarrow>
     (reason, map (\<lambda>r. (or_status r, or_quantity r, or_filledQuantity r)) (ts_orders t), map fi_quantity (ts_fills t),
      map (\<lambda>p. (po_side p, po_quantity p)) (ts_positions t), d_BalanceChanges d))
   = (RejectionNone, [(OrderStatusPartiallyFilled, btc_quantity 3, btc_quantity 2)], [btc_quantity 2],
      [(PositionSideLong, btc_quantity 2)], [charged])"
  by code_simp

lemma charged_exact: "ledger_exact apd_ref (shell trading4) [charged]"
  by code_simp

text \<open>
  The shard at the end of the day: the order is filled with 2 of its 3, the fill opened a long position
  of 2, and alice paid a fee of 0.2.
\<close>

definition traded :: "tradingState \<Rightarrow> bool" where
  "traded t = (map (\<lambda>r. (or_status r, or_quantity r, or_filledQuantity r)) (ts_orders t)
       = [(OrderStatusPartiallyFilled, btc_quantity 3, btc_quantity 2)]
     \<and> map fi_quantity (ts_fills t) = [btc_quantity 2]
     \<and> map (\<lambda>p. (po_side p, po_quantity p)) (ts_positions t) = [(PositionSideLong, btc_quantity 2)])"

lemma bought:
  "\<exists>t d. traded t \<and> (\<forall>s. st_trading s = trading4 \<longrightarrow> submitTradingOrder apd_ref s order_input buy_btc = (with_trading s t, d))
     \<and> d_BalanceChanges d = [charged]"
proof -
  obtain t d where r: "run_order apd_ref submitted order_input 0 = (RejectionNone, t, d)"
    and t: "traded t" "d_BalanceChanges d = [charged]"
    using executed by (auto simp: traded_def split: prod.splits)
  obtain t' d' where q: "rest_order apd_ref order_input 0 t d = (t', d')" by fastforce
  have o: "trading4\<lparr>ts_orders := [btc_order]\<rparr> = submitted" "ts_orders trading4 = []"
    by (simp_all add: submitted_def trading4_def trading3_def trading2_def trading1_def emptyTrading_def)
  have "submitTradingOrder apd_ref s order_input buy_btc = (with_trading s t', d')" if "st_trading s = trading4" for s
    using that by (simp add: submitTradingOrder_def admitted o r q)
  moreover have "traded t'" "d_BalanceChanges d' = [charged]"
    using q t by (auto simp: rest_order_def Let_def traded_def set_order_def map_update appendOrderTransition_def
      split: if_splits)
  ultimately show ?thesis by blast
qed

lemma trading1_account: "replaceAccount emptyTrading \<lparr>ac_accountID = ''alice'', ac_omsMode = OmsModeNetting\<rparr> = trading1"
  by (simp add: trading1_def replaceAccount_def upsert_def emptyTrading_def sort_by_def)

lemma day_dispatch:
  "applyTradingAction X s input (day ! 0) = configureTradingAccount s \<lparr>ca_AccountID = ''alice'', ca_OmsMode = OmsModeNetting\<rparr>"
  "applyTradingAction X s input (day ! 1) = configureTradingInstrument X s btc_market"
  "applyTradingAction X s input (day ! 2) = adjustTradingBalance X s deposit"
  "applyTradingAction X s input (day ! 3) = updateTradingBook X s input quote_btc"
  "applyTradingAction X s input (day ! 4) = submitTradingOrder X s input buy_btc"
  by (simp_all add: applyTradingAction_def validTradingActionUnion_def members_present_def no_action_def sample_account_def day_def)

lemma day_kinds:
  "TradingActionAllowedForInputKind InputKindConfiguration (act_Kind (day ! 0))"
  "TradingActionAllowedForInputKind InputKindConfiguration (act_Kind (day ! 1))"
  "TradingActionAllowedForInputKind InputKindCommand (act_Kind (day ! 2))"
  "TradingActionAllowedForInputKind InputKindMarket (act_Kind (day ! 3))"
  "TradingActionAllowedForInputKind InputKindCommand (act_Kind (day ! 4))" "InputKind_valid InputKindMarket"
  by (simp_all add: sample_account_def day_def TradingActionAllowedForInputKind_def InputKind_valid_def)

lemma day_lifted:
  assumes "day_at n t s" "(ucast (n + 1) :: u64) = ucast n + 1" "n + 1 \<noteq> 0" "(ucast n :: u64) + 1 \<notin> {0, - 1}"
    "InputKind_valid kind" "TradingActionAllowedForInputKind kind (act_Kind a)"
    "applyTradingAction apd_ref s (day_input n kind a) a = lifted s sd"
    "st_trading (fst sd) = t'" "ledger_exact apd_ref (shell t) (d_BalanceChanges (snd sd))"
  shows "\<exists>s'. day_at (n + 1) t' s'"
  using day_commit [OF assms(1-6)] assms(7-9) by (auto simp: lifted_def)

lemma ledger_exact_Nil [simp]: "ledger_exact X s []"
  by (simp add: ledger_exact_def)

lemma day_quoted: "\<exists>s. day_at 4 trading4 s"
proof -
  have s0: "day_at 0 emptyTrading (NewState 7)" by (simp add: day_at_def reach_new)
  let ?acc = "(with_trading (NewState 7) trading1, acceptedDecision\<lparr>d_AccountChanges :=
      [\<lparr>as_AccountID = ''alice'', as_OmsMode = OmsModeNetting\<rparr>]\<rparr>)"
  have tr: "applyTradingAction apd_ref (NewState 7) i (day ! 0) = lifted (NewState 7) ?acc" for i
    unfolding day_dispatch by (simp add: configureTradingAccount_def hasOpenPositions_def hasActiveOrders_def trading1_account lifted_def)
      (simp add: emptyTrading_def)
  have "\<exists>s'. day_at (0 + 1) trading1 s'"
    by (rule day_lifted [OF s0 _ _ _ _ day_kinds(1) tr]) (simp_all add: acceptedDecision_def zeroDecision_def)
  then obtain s1 where s1: "day_at 1 trading1 s1" by auto
  have tr: "applyTradingAction apd_ref s1 i (day ! 1) = lifted s1 (configureTradingInstrument apd_ref (shell trading1) btc_market)" for i
    using handlers_lifted(1) [of apd_ref s1 btc_market] s1 by (simp only: day_dispatch day_at_def)
  have "\<exists>s'. day_at (1 + 1) trading2 s'"
    by (rule day_lifted [OF s1 _ _ _ _ day_kinds(2) tr configured]) (simp_all add: configured_quiet)
  then obtain s2 where s2: "day_at 2 trading2 s2" by auto
  have tr: "applyTradingAction apd_ref s2 i (day ! 2) = lifted s2 (adjustTradingBalance apd_ref (shell trading2) deposit)" for i
    using handlers_lifted(2) [of apd_ref s2 deposit] s2 by (simp only: day_dispatch day_at_def)
  have "\<exists>s'. day_at (2 + 1) trading3 s'"
    by (rule day_lifted [OF s2 _ _ _ _ day_kinds(3) tr deposited deposited_exact]) simp_all
  then obtain s3 where s3: "day_at 3 trading3 s3" by auto
  have tr: "applyTradingAction apd_ref s3 quote_input (day ! 3) = lifted s3 (updateTradingBook apd_ref (shell trading3) quote_input quote_btc)"
    using handlers_lifted(3) [of apd_ref s3 quote_input quote_btc] s3 by (simp only: day_dispatch day_at_def)
  have "\<exists>s'. day_at (3 + 1) trading4 s'"
    by (rule day_lifted [OF s3 _ _ _ day_kinds(6,4) _ quoted]) (simp_all add: tr quoted_quiet)
  then show ?thesis by auto
qed

lemma charged_parsed: "Parse apd_ref ''999.8'' = Inr (mk_finite 9998 (- 1))"
  by code_simp

lemma charged_totals:
  "st_trading s = trading4 \<Longrightarrow> final_total apd_ref [charged] (''alice'', ''USD'') \<noteq> previous_total s (''alice'', ''USD'')"
  by (simp add: final_total_def previous_total_def lastBalanceChange_def change_key_def charged_parsed charged_def
    rawBalanceTotal_def trading4_def trading3_def balance_key_def usd_def)

text \<open>The order against the book alone, and a reduce-only order against a long position of 2.\<close>

lemma matched: "matchOrder apd_ref btc_book btc_order order_input [] \<noteq> None"
  by code_simp

lemma clamped:
  "fst (clampReduceOnlyOrder apd_ref held_long btc_exit) = RejectionNone
   \<and> or_quantity (snd (clampReduceOnlyOrder apd_ref held_long btc_exit)) = btc_quantity 2"
  by code_simp

text \<open>The commit of the order: from the quoted market to the end of the day.\<close>

lemma day_traded:
  "\<exists>s s' d. reachable apd_ref s \<and> reachable apd_ref s' \<and> st_trading s = trading4 \<and> traded (st_trading s')
    \<and> ApplyTradingWithReceiptsAtDecisionHashVersion apd_ref s order_input (day ! 4) None 2 = (s', d, None)
    \<and> lookupReceipt s None order_input = Inr None \<and> d_BalanceChanges d = [charged]"
proof -
  obtain s where s: "day_at 4 trading4 s" using day_quoted by blast
  obtain t d where b: "traded t" "\<forall>s. st_trading s = trading4 \<longrightarrow> submitTradingOrder apd_ref s order_input buy_btc = (with_trading s t, d)"
      "d_BalanceChanges d = [charged]" using bought by blast
  have "\<exists>s' dc. day_at (4 + 1) t s'
    \<and> ApplyTradingWithReceiptsAtDecisionHashVersion apd_ref s (day_input 4 InputKindCommand (day ! 4)) (day ! 4) None 2 = (s', dc, None)
    \<and> lookupReceipt s None (day_input 4 InputKindCommand (day ! 4)) = Inr None \<and> d_BalanceChanges dc = d_BalanceChanges d"
    by (rule day_commit [OF s _ _ _ _ day_kinds(5), where d = d])
      (use b s charged_exact in \<open>simp_all add: day_dispatch day_at_def\<close>)
  with b s show ?thesis by (auto simp: day_at_def)
qed

corollary quoted_reachable: "\<exists>s. reachable apd_ref s \<and> st_trading s = trading4"
  using day_quoted by (auto simp: day_at_def)

corollary traded_reachable: "\<exists>s. reachable apd_ref s \<and> traded (st_trading s)"
  using day_traded by blast

end
