(* ===== verification/KernelGuarantees.thy ===== *)
theory KernelGuarantees
  imports KernelReachable
begin

text \<open>
  What a committed decision guarantees: its ledger is the double entry of its balance changes
  (\<open>committed_ledger\<close>), an action that is rejected, for whatever reason, always commits
  (\<open>rejected_commits\<close>), a re-published input leaves no trace in the trading state (\<open>duplicate_facts\<close>),
  what each entry point may still change of a halted shard (\<open>halted_entry\<close>), and a match respects the limit and
  the slippage band of its order (\<open>matched_within_limits\<close>).
\<close>

section \<open>The ledger of a committed decision\<close>

lemma complete_decision_ledger:
  assumes "complete_decision X s input v sd = Inr (n, dc)"
  shows "deriveLedgerChanges X s input (d_BalanceChanges dc) = Inr (d_LedgerChanges dc)"
  using assms by (cases sd) (auto simp: complete_decision_def Let_def split: if_splits sum.splits prod.splits)

lemma fresh_apply_ledger:
  assumes "fresh_apply X s input R cs tr v s' d"
  shows "deriveLedgerChanges X s input (d_BalanceChanges d) = Inr (d_LedgerChanges d)"
proof -
  obtain n dc where c: "complete_decision X s input v (tr s) = Inr (n, dc)"
    and sl: "seal_decision s input v (st_nextStreamSequence n + 1) dc = Inr d"
    using assms by (auto simp: fresh_apply_def)
  show ?thesis using complete_decision_ledger [OF c] seal_decision_frame [OF sl] by auto
qed

context apd_lib
begin

lemma committed_ledger:
  assumes "reachable X s" "ApplyTradingWithReceiptsAtDecisionHashVersion X s input a R v = (s', d, None)"
    "lookupReceipt s R input = Inr None"
  shows "map entry_key (d_LedgerChanges d) = filter (\<lambda>k. final_total X (d_BalanceChanges d) k \<noteq> previous_total s k)
        (sort_by (<) (remdups (map change_key (d_BalanceChanges d))))
    \<and> (\<forall>t \<in> set (d_LedgerChanges d). double_entry X s (d_BalanceChanges d) t)"
  by (rule deriveLedgerChanges_double_entry [OF balances_ok [OF reachable_wf [OF assms(1)]]])
    (rule fresh_apply_ledger [OF fresh_trading(1) [OF assms(2,3)]])

end

section \<open>A rejected action commits\<close>

text \<open>An order that is not resting takes no margin, so recording it changes no balance projection.\<close>

lemma registry_orders:
  "find_instrumentRecord (t\<lparr>ts_orders := os\<rparr>) i = find_instrumentRecord t i"
  "find_book (t\<lparr>ts_orders := os\<rparr>) i = find_book t i" "risk_of (t\<lparr>ts_orders := os\<rparr>) a r = risk_of t a r"
  by (simp_all add: find_instrumentRecord_def find_book_def risk_of_def)

lemma orderMargin_orders: "orderMargin X (t\<lparr>ts_orders := os\<rparr>) order r = orderMargin X t order r"
  unfolding orderMargin_def registry_orders by (rule refl)

lemma position_totals_orders:
  "position_totals X (t\<lparr>ts_orders := os\<rparr>) a c ps = position_totals X t a c ps"
  by (induction ps) (intro ext, simp_all only: position_totals.simps registry_orders)+

lemma order_totals_snoc:
  assumes "\<not> resting_status (or_status order)"
  shows "order_totals X (t\<lparr>ts_orders := ys\<rparr>) a c (os @ [order]) = order_totals X t a c os"
proof (induction os)
  case (Cons p os)
  then show ?case
    by (intro ext) (simp only: append_Cons order_totals.simps registry_orders orderMargin_orders)
qed (intro ext, simp add: assms)

lemma State_Balance_recorded:
  assumes "\<not> resting_status (or_status order)"
  shows "State_Balance X (with_trading s ((st_trading s)\<lparr>ts_orders := ts_orders (st_trading s) @ [order]\<rparr>)) a c
    = State_Balance X s a c"
proof -
  let ?t = "st_trading s"
  have "accountRiskTotals X (?t\<lparr>ts_orders := ts_orders ?t @ [order]\<rparr>) a k = accountRiskTotals X ?t a k" for k
    by (simp add: accountRiskTotals_def position_totals_orders order_totals_snoc [OF assms])
  then show ?thesis
    by (simp add: State_Balance_def balanceSnapshot_def balanceIndex_def cong: option.case_cong)
qed

lemma completion_unchanged:
  assumes "ts_balances (st_trading n) = ts_balances (st_trading s)" "\<And>a c. State_Balance X n a c = State_Balance X s a c"
  shows "completeBalanceProjectionChanges X s n [] = []"
proof -
  have "complete_balance X s n [] b = []" if "b \<in> set (ts_balances (st_trading s))" for b
    using that assms(2) by (auto simp: complete_balance_def Let_def list_ex_iff balance_key_def split: option.split)
  then have "foldl (complete_balance X s n) [] bs = []" if "set bs \<subseteq> set (ts_balances (st_trading s))" for bs
    using that by (induction bs) auto
  then show ?thesis by (simp add: completeBalanceProjectionChanges_def assms(1))
qed

text \<open>The effects a rejection may carry: order changes and their events.\<close>

definition orders_only :: "Decision \<Rightarrow> bool" where
  "orders_only d = no_effects (d\<lparr>d_OrderChanges := [], d_Events := []\<rparr>)"

lemma rejected_as_facts:
  assumes "rejected_as X input s (n, r)"
  shows "orders_only r" "completeBalanceProjectionChanges X s n [] = []" "trading_only s n"
    "cmd_Reason (d_CommandResult r) \<noteq> RejectionSlippageExceeded \<Longrightarrow> no_effects r \<and> n = s"
proof -
  have "orders_only r \<and> completeBalanceProjectionChanges X s n [] = [] \<and> trading_only s n
    \<and> (cmd_Reason (d_CommandResult r) \<noteq> RejectionSlippageExceeded \<longrightarrow> no_effects r \<and> n = s)"
    using assms unfolding rejected_as_def
  proof (elim disjE exE conjE)
    assume "(n, r) = rejectedTradingDecision s (cmd_Reason (d_CommandResult (snd (n, r))))"
    then have "n = s" "\<exists>q. r = rejectedDecision q" by (auto simp: rejectedTradingDecision_def)
    then show ?thesis
      by (auto simp: completion_unchanged orders_only_def) (simp add: no_effects_def rejectedDecision_def zeroDecision_def)
  next
    fix order
    assume o: "or_status order = OrderStatusRejected" and nr: "(n, r) = recorded_rejection X input s order"
    have "\<not> resting_status (or_status order)" by (simp add: o resting_status_def)
    from State_Balance_recorded [OF this] have "completeBalanceProjectionChanges X s n [] = []"
      using nr by (intro completion_unchanged) (simp_all add: recorded_rejection_def)
    then show ?thesis using nr
      by (simp add: recorded_rejection_def appendOrderTransition_def orders_only_def no_effects_def
        rejectedDecision_def zeroDecision_def)
  qed
  then show "orders_only r" "completeBalanceProjectionChanges X s n [] = []" "trading_only s n"
    "cmd_Reason (d_CommandResult r) \<noteq> RejectionSlippageExceeded \<Longrightarrow> no_effects r \<and> n = s" by auto
qed

lemma complete_rejected:
  assumes "rejected_as X input s (n, r)"
  shows "\<exists>dc. complete_decision X s input v (n, r) = Inr (n, dc) \<and> d_CommandResult dc = d_CommandResult r
    \<and> d_OrderChanges dc = d_OrderChanges r \<and> d_Events dc = d_Events r \<and> orders_only dc"
proof -
  note f = rejected_as_facts [OF assms]
  have ne: "d_Fills r = []" "d_BalanceChanges r = []" "d_BookChanges r = []"
    using f(1) by (simp_all add: orders_only_def no_effects_def)
  have "with_trading n (st_trading n) = n" by (simp add: with_trading_def)
  then show ?thesis using f(1,2)
    by (simp add: complete_decision_def Let_def ne freezeFillEffectiveLeverage_def deriveLedgerChanges_def sort_by_def)
      (simp add: orders_only_def no_effects_def)
qed

lemma seal_decision_total:
  assumes "v = 2 \<or> v = 3 \<or> v = 4"
  shows "\<exists>d. seal_decision s input v m dc = Inr d"
proof -
  obtain eh where eh: "hashEffectsAtVersion dc v = Inr eh" using assms by (auto simp: hashEffectsAtVersion_def)
  obtain dh where "hashDecisionAtVersion (st_hash s) (hashInput input) eh v = Inr dh"
    using assms by (auto simp: hashDecisionAtVersion_def)
  with eh show ?thesis by (simp add: seal_decision_def)
qed

lemma rejected_commits:
  assumes "lookupReceipt s R input = Inr None" "st_ready s" "validateEnvelope s input CurrentSchemaVersion = None"
    "in_StreamSequence input = st_nextStreamSequence s" "st_nextStreamSequence s \<noteq> - 1"
    "EncodeTradingAction a = in_Payload input" "TradingActionAllowedForInputKind (in_Kind input) (act_Kind a)"
    and v: "v = 2 \<or> v = 3 \<or> v = 4"
    and rej: "applyTradingActionAtDecisionHashVersion X s input a v = (n, r)"
      "cmd_Status (d_CommandResult r) = CommandStatusRejected"
  shows "\<exists>s' d. ApplyTradingWithReceiptsAtDecisionHashVersion X s input a R v = (s', d, None)
    \<and> d_CommandResult d = d_CommandResult r \<and> d_OrderChanges d = d_OrderChanges r \<and> d_Events d = d_Events r
    \<and> orders_only d \<and> (cmd_Reason (d_CommandResult r) \<noteq> RejectionSlippageExceeded \<longrightarrow> no_effects d \<and> n = s)
    \<and> st_trading s' = st_trading n \<and> st_nextStreamSequence s' = st_nextStreamSequence s + 1 \<and> st_ready s'"
proof -
  have ra: "rejected_as X input s (n, r)" using action_rejected [of X s input a v] rej by simp
  note f = rejected_as_facts [OF ra]
  obtain dc where c: "complete_decision X s input v (n, r) = Inr (n, dc)" "d_CommandResult dc = d_CommandResult r"
    "d_OrderChanges dc = d_OrderChanges r" "d_Events dc = d_Events r" "orders_only dc"
    using complete_rejected [OF ra] by blast
  obtain d where d: "seal_decision s input v (st_nextStreamSequence n + 1) dc = Inr d"
    using seal_decision_total [OF v] by blast
  have ds: "d_CommandResult d = d_CommandResult r" "d_OrderChanges d = d_OrderChanges r" "d_Events d = d_Events r" "orders_only d"
    using seal_decision_frame [OF d] c by (auto simp: orders_only_def no_effects_def)
  have n: "st_nextStreamSequence n = st_nextStreamSequence s" "st_ready n = st_ready s"
    using f(3) by (metis trading_only_def with_trading_simps(5), metis trading_only_def with_trading_simps(7))
  have "no_effects d" if "cmd_Reason (d_CommandResult r) \<noteq> RejectionSlippageExceeded"
    using f(4) [OF that] ds by (simp add: orders_only_def no_effects_def)
  moreover have "ApplyTradingWithReceiptsAtDecisionHashVersion X s input a R v =
      (n\<lparr>st_nextStreamSequence := st_nextStreamSequence n + 1, st_hash := d_NextStateHash d,
         st_lastReceipt := NewReceipt input d, st_hasLastReceipt := True\<rparr>, d, None)"
    using assms(1-7) by (simp add: entry_defs rej(1) c(1) d)
  ultimately show ?thesis using ds n f(4) assms(2) by auto
qed

section \<open>A re-published input\<close>

lemma duplicate_facts:
  assumes "ApplyDuplicateDeliveryAtDecisionHashVersion s input r v = (s', d, None)"
  shows "s' = s\<lparr>st_nextStreamSequence := st_nextStreamSequence s + 1, st_hash := d_NextStateHash d, st_hasLastReceipt := False\<rparr>
    \<and> hashEffectsAtVersion d v = Inr (d_EffectsHash d) \<and> no_effects d \<and> d_CommandResult d = d_CommandResult (r_Decision r)
    \<and> d_DuplicateOfDecisionHash d = d_DecisionHash (r_Decision r) \<and> in_InputID input = r_InputID r
    \<and> businessInputHashAtVersion input (r_BusinessHashVersion r) = Inr (r_BusinessInputHash r)
    \<and> unat (st_nextStreamSequence s') = unat (st_nextStreamSequence s) + 1
    \<and> st_hash s' = hashAcceptedState (st_hash s) (hashInput input) (d_DecisionHash d) (st_nextStreamSequence s')"
proof -
  let ?d = "zeroDecision\<lparr>d_InputID := in_InputID input, d_SourceSequence := in_SourceSequence input,
     d_StreamSequence := in_StreamSequence input, d_MarketSequence := in_MarketSequence input,
     d_LogicalTime := in_LogicalTime input, d_ConfigurationVersion := in_ConfigurationVersion input,
     d_InstrumentVersion := in_InstrumentVersion input, d_InputHashVersion := CurrentInputHashVersion,
     d_DecisionHashVersion := v, d_PreviousStateHash := st_hash s, d_InputHash := hashInput input,
     d_DuplicateOfDecisionHash := d_DecisionHash (r_Decision r), d_CommandResult := d_CommandResult (r_Decision r)\<rparr>"
  let ?n = "st_nextStreamSequence s + 1"
  have seal: "seal_decision s input v ?n ?d = Inr d" and m: "st_nextStreamSequence s \<noteq> - 1"
    and b: "businessInputHashAtVersion input (r_BusinessHashVersion r) = Inr (r_BusinessInputHash r)"
    "in_InputID input = r_InputID r"
    and s': "s' = s\<lparr>st_nextStreamSequence := ?n, st_hash := d_NextStateHash d, st_hasLastReceipt := False\<rparr>"
    using assms by (auto simp: ApplyDuplicateDeliveryAtDecisionHashVersion_def Let_def not_ready_def halt_def
      split: if_splits sum.splits)
  have n: "unat ?n = unat (st_nextStreamSequence s) + 1"
    using m by (metis Suc_eq_plus1 add.commute add_eq_0_iff unatSuc)
  have "no_effects ?d" by (simp add: no_effects_def zeroDecision_def)
  then have "no_effects d" using seal_decision_frame [OF seal] by (auto simp: no_effects_def)
  then show ?thesis using seal_decision_frame [OF seal] seal_decision_effects [OF seal] b n by (auto simp: s')
qed

section \<open>A halted shard\<close>

lemma halted_entry:
  assumes "\<not> st_ready s"
  shows "fst (ApplyTradingWithReceiptsAtDecisionHashVersion X s input a R v) = s"
    and "fst (ApplyWithReceipts X s input R) = s"
    and "fst (ApplyDuplicateDeliveryAtDecisionHashVersion s input r v) = s"
    and "fst (FailClosed s input kind detail) = s\<lparr>st_hash := hashHaltedState (st_hash s) (hashInput input)
       \<lparr>err_Kind = kind, err_Sequence = in_StreamSequence input, err_Detail = detail\<rparr>\<rparr>"
proof -
  show t: "fst (ApplyTradingWithReceiptsAtDecisionHashVersion X s input a R v) = s"
    using assms trading_cases [of X s input a R v]
    by (cases "ApplyTradingWithReceiptsAtDecisionHashVersion X s input a R v")
      (auto simp: halted_from_def replayed_def fresh_apply_def)
  show "fst (ApplyWithReceipts X s input R) = s"
    using assms apply_cases [of X s input R CurrentSchemaVersion no_transition CurrentDecisionHashVersion]
    by (cases "ApplyWithReceipts X s input R")
      (auto simp: ApplyWithReceipts_def applyWithReceiptsAtDecisionHashVersion_def halted_from_def replayed_def fresh_apply_def)
  show "fst (ApplyDuplicateDeliveryAtDecisionHashVersion s input r v) = s"
    using assms by (simp add: ApplyDuplicateDeliveryAtDecisionHashVersion_def not_ready_def)
  show "fst (FailClosed s input kind detail) = s\<lparr>st_hash := hashHaltedState (st_hash s) (hashInput input)
       \<lparr>err_Kind = kind, err_Sequence = in_StreamSequence input, err_Detail = detail\<rparr>\<rparr>"
    using assms by (cases s) (simp add: FailClosed_def halt_def)
qed

lemma halted_recovery:
  assumes "\<not> st_ready s" "ApplyTradingForRecoveryAtDecisionHashVersion X s input a R v = (s', d, e)"
  shows "s' = s \<or> s' = s\<lparr>st_marketSequence := in_StreamSequence input\<rparr> \<and> in_Kind input = InputKindMarket
    \<and> (\<exists>r. lookupReceipt s R input = Inr (Some r) \<and> d = r_Decision r \<and> d_BookChanges d \<noteq> [])"
  using assms(2)
proof (rule recovery_cases)
  fix n
  assume n: "ApplyTradingWithReceiptsAtDecisionHashVersion X s input a R v = (n, d, e)"
    and s': "s' = n \<or> s' = n\<lparr>st_marketSequence := in_StreamSequence input\<rparr> \<and> e = None
       \<and> in_Kind input = InputKindMarket \<and> d_BookChanges d \<noteq> []"
  have "n = s" using halted_entry(1) [OF assms(1), of X input a R v] n by simp
  with s' show ?thesis using trading_cases [OF n] assms(1) by (auto simp: replayed_def fresh_apply_def)
qed

section \<open>Matches respect the order\<close>

context apd_lib
begin

lemma admissible_limit:
  assumes "admissible X order p" "order_wf order" "unit_price (or_instrument order) p"
  shows "(\<not> marketUsesDeepestFallback order \<longrightarrow> (or_side order = SideBuy \<longrightarrow> pval p \<le> pval (or_price order))
      \<and> (or_side order = SideSell \<longrightarrow> pval (or_price order) \<le> pval p))
    \<and> \<not> priceViolatesSlippage X p order"
proof -
  have "dec_ok (p_value p)" using assms(3) by (simp add: unit_price_def price_ok_def)
  moreover have "dec_ok (p_value (or_price order))" if "\<not> marketUsesDeepestFallback order"
    using assms(2) that by (simp add: order_wf_def unit_price_def price_ok_def)
  ultimately show ?thesis using assms(1)
    by (auto simp: admissible_def levelEligible_def pval_def dec_queries split: if_splits)
qed

lemma matched_within_limits:
  assumes "matchOrder X book order input fills = Some (book', order', fills')"
    "order_wf order" "or_status order \<noteq> OrderStatusFilled" "\<forall>l \<in> set (bo_bids book) \<union> set (bo_asks book). level_wf i l"
  shows "\<exists>new. fills' = fills @ new
    \<and> qval (or_filledQuantity order') = qval (or_filledQuantity order) + (\<Sum>f\<leftarrow>new. qval (fi_quantity f))
    \<and> qval (or_filledQuantity order') \<le> qval (or_quantity order)
    \<and> (\<forall>f \<in> set new. fi_orderID f = or_orderID order \<and> fi_side f = or_side order \<and> 0 < qval (fi_quantity f)
        \<and> (\<not> marketUsesDeepestFallback order \<longrightarrow> (or_side order = SideBuy \<longrightarrow> pval (fi_price f) \<le> pval (or_price order))
            \<and> (or_side order = SideSell \<longrightarrow> pval (or_price order) \<le> pval (fi_price f)))
        \<and> \<not> priceViolatesSlippage X (fi_price f) order)"
proof -
  obtain new q where n: "fills' = fills @ new" "list_all (order_fill X order) new"
    "qval (or_filledQuantity order') = qval (or_filledQuantity order) + filled_by new"
    and q: "order_wf order'" "order' = order\<lparr>or_filledQuantity := q\<rparr>" using match_wf [OF assms] by blast
  have "qval (or_filledQuantity order') \<le> qval (or_quantity order)" using q by (simp add: order_wf_def)
  moreover have "fi_orderID f = or_orderID order \<and> fi_side f = or_side order \<and> 0 < qval (fi_quantity f)
      \<and> admissible X order (fi_price f) \<and> unit_price (or_instrument order) (fi_price f)" if "f \<in> set new" for f
    using n(2) that unfolding list_all_iff order_fill_def fill_wf_def by auto
  ultimately show ?thesis using n(1,3) admissible_limit [OF _ assms(2)] unfolding filled_by_def by blast
qed

end

end
