(* ===== verification/EngineCommit.thy ===== *)
theory EngineCommit
  imports EngineHash
begin

text \<open>
  What the canonical hashes commit to. The interface \<open>prefix_code\<close> says that a writer is unambiguous:
  two values it writes in front of anything are equal if the bytes are, and the rest is equal too. The
  field writers of \<open>hash.go\<close> are prefix codes, a list of them behind its length is one, and hence the
  record writers and the preimages of the input and effects hashes are: the preimage determines every
  field that enters it. Lengths are limited to the 64 bits of the length prefix.
\<close>

section \<open>Unambiguous writers\<close>

locale prefix_code =
  fixes w :: "'a \<Rightarrow> bytes" and ok :: "'a \<Rightarrow> bool"
  assumes unambiguous: "ok x \<Longrightarrow> ok y \<Longrightarrow> w x @ s = w y @ t \<Longrightarrow> x = y \<and> s = t"
begin

lemma split_iff: "ok x \<Longrightarrow> ok y \<Longrightarrow> w x @ s = w y @ t \<longleftrightarrow> x = y \<and> s = t"
  using unambiguous by blast

lemma inject_iff: "ok x \<Longrightarrow> ok y \<Longrightarrow> w x = w y \<longleftrightarrow> x = y"
  using split_iff [of x y "[]" "[]"] by simp

lemma concat_split:
  "length xs = length ys \<Longrightarrow> list_all ok xs \<Longrightarrow> list_all ok ys \<Longrightarrow>
    concat (map w xs) @ s = concat (map w ys) @ t \<Longrightarrow> xs = ys \<and> s = t"
proof (induction xs arbitrary: ys)
  case (Cons x xs)
  then obtain y zs where "ys = y # zs" by (cases ys) auto
  with Cons show ?case by (auto simp: split_iff)
qed simp

end

definition fits64 :: "'a list \<Rightarrow> bool" where
  "fits64 xs = (length xs < 2 ^ 64)"

section \<open>The field writers\<close>

lemma byte_list_inj:
  fixes v u :: "'a::len word"
  assumes "map (\<lambda>k. ucast (drop_bit (8 * k) v) :: u8) [0..<m] = map (\<lambda>k. ucast (drop_bit (8 * k) u)) [0..<m]"
    and "LENGTH('a) \<le> 8 * m"
  shows "v = u"
proof (rule bit_word_eqI)
  fix n assume n: "n < LENGTH('a)"
  then have "n div 8 < m" using assms(2) by (simp add: less_mult_imp_div_less mult.commute)
  then have "(ucast (drop_bit (8 * (n div 8)) v) :: u8) = ucast (drop_bit (8 * (n div 8)) u)"
    using assms(1) by simp
  then have "bit (ucast (drop_bit (8 * (n div 8)) v) :: u8) (n mod 8) =
      bit (ucast (drop_bit (8 * (n div 8)) u) :: u8) (n mod 8)" by simp
  then show "bit v n = bit u n" using n by (simp add: bit_simps)
qed

lemma PutUint32_map: "PutUint32 v = rev (map (\<lambda>k. ucast (drop_bit (8 * k) v)) [0..<4])"
  by (simp add: PutUint32_def upt_conv_Cons)

lemma PutUint64_map: "PutUint64 v = rev (map (\<lambda>k. ucast (drop_bit (8 * k) v)) [0..<8])"
  by (simp add: PutUint64_def upt_conv_Cons)

lemma PutUint32_inj [simp]: "PutUint32 v = PutUint32 u \<longleftrightarrow> v = u"
  using byte_list_inj [of v 4 u] by (auto simp only: PutUint32_map rev_is_rev_conv) simp

lemma PutUint64_inj [simp]: "PutUint64 v = PutUint64 u \<longleftrightarrow> v = u"
  using byte_list_inj [of v 8 u] by (auto simp only: PutUint64_map rev_is_rev_conv) simp

lemma length_PutUint64 [simp]: "length (PutUint64 w) = 8"
  by (simp add: PutUint64_def)

interpretation u8w: prefix_code writeUint8 "\<lambda>_. True"
  by unfold_locales (auto simp: writeUint8_def)

interpretation u32w: prefix_code writeUint32 "\<lambda>_. True"
  by unfold_locales (auto simp: writeUint32_def append_eq_append_conv)

interpretation u64w: prefix_code writeUint64 "\<lambda>_. True"
  by unfold_locales (auto simp: writeUint64_def append_eq_append_conv)

lemma of_nat_64: "m < 2 ^ 64 \<Longrightarrow> n < 2 ^ 64 \<Longrightarrow> (of_nat m :: u64) = of_nat n \<longleftrightarrow> m = n"
  by (simp add: word_of_nat_eq_iff take_bit_nat_eq_self_iff [THEN iffD2])

lemma byte_of_char_inj [simp]: "(of_char c :: u8) = of_char d \<longleftrightarrow> c = d"
proof -
  have "(of_char e :: u8) = of_nat (of_char e)" for e
    by (cases e) (simp add: of_char_Char)
  then have "(of_char c :: u8) = of_char d \<longleftrightarrow> (of_nat (of_char c) :: u8) = of_nat (of_char d)" by metis
  also have "\<dots> \<longleftrightarrow> of_char c = (of_char d :: nat)"
    by (simp only: word_of_nat_eq_iff take_bit_nat_eq_self_iff [THEN iffD2] len_num1 len_bit0 len_bit1)
      (simp add: take_bit_nat_eq_self)
  also have "\<dots> \<longleftrightarrow> c = d" by simp
  finally show ?thesis .
qed

lemma string_bytes_inj [simp]: "string_bytes s = string_bytes t \<longleftrightarrow> s = t"
  unfolding string_bytes_def by (rule inj_map_eq_map) (simp add: inj_def)

lemma length_string_bytes [simp]: "length (string_bytes s) = length s"
  by (simp add: string_bytes_def)

interpretation bytesw: prefix_code writeBytes fits64
proof
  fix x y s t :: bytes
  assume "fits64 x" "fits64 y" "writeBytes x @ s = writeBytes y @ t"
  then have "(of_nat (length x) :: u64) = of_nat (length y)" "x @ s = y @ t"
    by (auto simp: writeBytes_def u64w.split_iff)
  with \<open>fits64 x\<close> \<open>fits64 y\<close> show "x = y \<and> s = t" by (auto simp: fits64_def of_nat_64)
qed

interpretation textw: prefix_code writeString fits64
  by unfold_locales (auto simp: writeString_def bytesw.split_iff fits64_def)

lemma PutUvarint_inj: "PutUvarint m = PutUvarint n \<Longrightarrow> m = n"
proof (induction m arbitrary: n rule: PutUvarint.induct)
  case (1 m)
  have byte: "unat (of_nat k :: u8) = k" if "k < 256" for k
    using that by (simp add: unat_of_nat take_bit_nat_eq_self_iff)
  have head: "unat (hd (PutUvarint k)) = (if k < 128 then k else k mod 128 + 128)" for k
    by (subst PutUvarint.simps) (simp add: byte del: of_nat_add)
  have tail: "tl (PutUvarint k) = (if k < 128 then [] else PutUvarint (k div 128))" for k
    by (subst PutUvarint.simps) simp
  have h: "(if m < 128 then m else m mod 128 + 128) = (if n < 128 then n else n mod 128 + 128)"
    using 1(2) head by metis
  show ?case
  proof (cases "m < 128")
    case True
    then show ?thesis using h by (auto split: if_splits)
  next
    case False
    then have "128 \<le> n" "m mod 128 = n mod 128" using h by (auto split: if_splits)
    moreover have "m div 128 = n div 128" using 1 False tail [of m] tail [of n] \<open>128 \<le> n\<close> by auto
    ultimately show ?thesis by (metis div_mult_mod_eq)
  qed
qed

lemma PutUvarint_length: "n < 128 ^ k \<Longrightarrow> 0 < k \<Longrightarrow> length (PutUvarint n) \<le> k"
proof (induction k arbitrary: n)
  case (Suc k)
  have "n div 128 < 128 ^ k" using Suc.prems by (simp add: less_mult_imp_div_less mult.commute)
  with Suc show ?case by (subst PutUvarint.simps) (cases k; auto)
qed simp

lemma zigzag_inj: "zigzag v = zigzag u \<Longrightarrow> v = u"
proof -
  assume eq: "zigzag v = zigzag u"
  have sign: "sint w < 0 \<longleftrightarrow> bit (zigzag w) 0" for w :: u64
    by (simp add: zigzag_def bit_simps bit_0)
  have rest: "bit w n \<longleftrightarrow> (bit (zigzag w) (Suc n) \<noteq> (sint w < 0))" if "n < 63" for w :: u64 and n
    using that by (simp add: zigzag_def bit_simps mult.commute [of w] bit_double_iff)
  have top: "bit w 63 \<longleftrightarrow> sint w < 0" for w :: u64
    using bit_last_iff [of w] by simp
  show "v = u"
  proof (rule bit_word_eqI)
    fix n assume "n < LENGTH(64)"
    then consider "n < 63" | "n = 63" by fastforce
    then show "bit v n \<longleftrightarrow> bit u n" using eq sign rest top by cases metis+
  qed
qed

interpretation timew: prefix_code writeInt64 "\<lambda>_. True"
proof
  fix x y :: u64 and s t
  have fit: "fits64 (PutVarint v)" for v
  proof -
    have "unat (zigzag v) < 128 ^ 10" using unsigned_less [of "zigzag v", where ?'a = nat] by simp
    then have "length (PutVarint v) \<le> 10" using PutUvarint_length [of _ 10] by (simp add: PutVarint_def)
    then show ?thesis by (simp add: fits64_def)
  qed
  assume "writeInt64 x @ s = writeInt64 y @ t"
  then have "PutVarint x = PutVarint y" "s = t" by (auto simp: writeInt64_def bytesw.split_iff fit)
  then show "x = y \<and> s = t" by (auto simp: PutVarint_def dest!: PutUvarint_inj unsigned_word_eqI zigzag_inj)
qed

text \<open>A list behind its length is a prefix code when its elements are.\<close>

lemma list_code:
  assumes "prefix_code w ok"
  shows "prefix_code (write_list w) (\<lambda>xs. fits64 xs \<and> list_all ok xs)"
proof
  fix x y s t
  assume ok: "fits64 x \<and> list_all ok x" "fits64 y \<and> list_all ok y" and eq: "write_list w x @ s = write_list w y @ t"
  then have "length x = length y" "concat (map w x) @ s = concat (map w y) @ t"
    by (auto simp: write_list_def u64w.split_iff of_nat_64 fits64_def)
  with ok prefix_code.concat_split [OF assms] show "x = y \<and> s = t" by blast
qed

section \<open>The texts of enumerations\<close>

lemma valid_text_inj:
  "Side_valid a \<Longrightarrow> Side_valid b \<Longrightarrow> Side_text a = Side_text b \<longleftrightarrow> a = b"
  "OrderType_valid c \<Longrightarrow> OrderType_valid d \<Longrightarrow> OrderType_text c = OrderType_text d \<longleftrightarrow> c = d"
  "TimeInForce_valid e \<Longrightarrow> TimeInForce_valid f \<Longrightarrow> TimeInForce_text e = TimeInForce_text f \<longleftrightarrow> e = f"
  "OmsMode_valid g \<Longrightarrow> OmsMode_valid h \<Longrightarrow> OmsMode_text g = OmsMode_text h \<longleftrightarrow> g = h"
  "MarginMode_valid i \<Longrightarrow> MarginMode_valid j \<Longrightarrow> MarginMode_text i = MarginMode_text j \<longleftrightarrow> i = j"
  by - ((cases a; cases b; simp), (cases c; cases d; simp), (cases e; cases f; simp), (cases g; cases h; simp),
      (cases i; cases j; simp))

lemma text_inj:
  "OrderStatus_text a = OrderStatus_text b \<longleftrightarrow> a = b"
  "BracketLeg_text c = BracketLeg_text d \<longleftrightarrow> c = d"
  "CommandStatus_text e = CommandStatus_text f \<longleftrightarrow> e = f"
  "PositionSide_text g = PositionSide_text h \<longleftrightarrow> g = h"
  "PositionStatus_text i = PositionStatus_text j \<longleftrightarrow> i = j"
  "PositionEffect_text k = PositionEffect_text l \<longleftrightarrow> k = l"
  "LiquiditySide_text m = LiquiditySide_text n \<longleftrightarrow> m = n"
  by - ((cases a; cases b; simp), (cases c; cases d; simp), (cases e; cases f; simp), (cases g; cases h; simp),
      (cases i; cases j; simp), (cases k; cases l; simp), (cases m; cases n; simp))

lemma text_fits [simp]:
  "Side_valid a \<Longrightarrow> fits64 (Side_text a)" "OrderType_valid b \<Longrightarrow> fits64 (OrderType_text b)"
  "TimeInForce_valid c \<Longrightarrow> fits64 (TimeInForce_text c)" "OmsMode_valid d \<Longrightarrow> fits64 (OmsMode_text d)"
  "MarginMode_valid e \<Longrightarrow> fits64 (MarginMode_text e)" "fits64 (OrderStatus_text f)"
  "fits64 (BracketLeg_text g)" "fits64 (CommandStatus_text h)" "fits64 (PositionSide_text i)"
  "fits64 (PositionStatus_text j)" "fits64 (PositionEffect_text k)" "fits64 (LiquiditySide_text l)"
  "fits64 (RejectionReason_text m)"
  unfolding fits64_def
  by - ((cases a; simp), (cases b; simp), (cases c; simp), (cases d; simp),
      (cases e; simp), (cases f; simp), (cases g; simp), (cases h; simp),
      (cases i; simp), (cases j; simp), (cases k; simp), (cases l; simp),
      (cases m; simp))

lemmas text_injs = valid_text_inj text_inj RejectionReason_text_inj

lemma boolByte_inj [simp]: "boolByte a = boolByte b \<longleftrightarrow> a = b"
  by (simp add: boolByte_def)

lemma of_nat_8: "m < 256 \<Longrightarrow> n < 256 \<Longrightarrow> (of_nat m :: u8) = of_nat n \<longleftrightarrow> m = n"
  by (simp add: word_of_nat_eq_iff take_bit_nat_eq_self_iff [THEN iffD2])

lemmas code_simps = u8w.split_iff u32w.split_iff u64w.split_iff bytesw.split_iff textw.split_iff
  timew.split_iff u64w.inject_iff textw.inject_iff timew.inject_iff text_injs of_nat_8

section \<open>The record writers\<close>

text \<open>
  A snapshot fits when its strings are shorter than \<open>2^64\<close> bytes and its enumerations and scales are
  the values the engine admits.
\<close>

definition instrument_fits :: "InstrumentSnapshot \<Rightarrow> bool" where
  "instrument_fits i = (list_all fits64 [is_InstrumentID i, is_SettlementCurrency i, is_InitialMarginRate i,
     is_MaintenanceMarginRate i, is_MaxLeverage i, is_MakerFeeRate i, is_TakerFeeRate i]
     \<and> is_PriceScale i < 256 \<and> is_QuantityScale i < 256 \<and> is_SettlementCurrencyScale i < 256)"

definition account_fits :: "AccountSnapshot \<Rightarrow> bool" where
  "account_fits a = (fits64 (as_AccountID a) \<and> OmsMode_valid (as_OmsMode a))"

definition risk_fits :: "RiskSnapshot \<Rightarrow> bool" where
  "risk_fits r = (list_all fits64 [rs_AccountID r, rs_InstrumentID r, rs_Leverage r] \<and> MarginMode_valid (rs_MarginMode r))"

definition balance_fits :: "BalanceSnapshot \<Rightarrow> bool" where
  "balance_fits b = list_all fits64 [bs_AccountID b, bs_Currency b, bs_Total b, bs_Used b, bs_Free b, bs_Equity b]"

definition entry_fits :: "LedgerEntrySnapshot \<Rightarrow> bool" where
  "entry_fits e = (fits64 (le_EntryID e) \<and> list_all fits64 [le_AccountID e, le_Currency e, le_Amount e])"

definition transaction_fits :: "LedgerTransactionSnapshot \<Rightarrow> bool" where
  "transaction_fits t = (fits64 (lt_TransactionID t) \<and> fits64 (lt_BusinessKey t) \<and> fits64 (lt_InputID t)
     \<and> fits64 (lt_Entries t) \<and> list_all entry_fits (lt_Entries t))"

definition funding_fits :: "FundingSnapshot \<Rightarrow> bool" where
  "funding_fits f = (list_all fits64 [fs_FundingID f, fs_SettlementID f, fs_PositionID f]
     \<and> list_all fits64 [fs_AccountID f, fs_InstrumentID f, fs_SignedQuantity f, fs_OraclePrice f, fs_Rate f,
       fs_Amount f, fs_SettlementCurrency f])"

definition level_fits :: "BookLevel \<Rightarrow> bool" where
  "level_fits l = (fits64 (bl_Price l) \<and> fits64 (bl_Quantity l))"

definition book_fits :: "BookSnapshot \<Rightarrow> bool" where
  "book_fits b = (fits64 (bk_InstrumentID b) \<and> fits64 (bk_MarkPrice b) \<and> fits64 (bk_Bids b) \<and> fits64 (bk_Asks b)
     \<and> list_all level_fits (bk_Bids b) \<and> list_all level_fits (bk_Asks b))"

definition order_fits :: "OrderSnapshot \<Rightarrow> bool" where
  "order_fits s = (list_all fits64 [os_OrderID s, os_PositionID s, os_BracketID s]
     \<and> list_all fits64 [os_AccountID s, os_InstrumentID s, os_Quantity s, os_FilledQuantity s, os_AverageFillPrice s,
       os_Price s, os_TriggerPrice s, os_SlippageReference s]
     \<and> Side_valid (os_Side s) \<and> OrderType_valid (os_Type s) \<and> TimeInForce_valid (os_TimeInForce s))"

definition fill_fits :: "FillSnapshot \<Rightarrow> bool" where
  "fill_fits f = (list_all fits64 [fl_FillID f, fl_OrderID f, fl_PositionID f]
     \<and> list_all fits64 [fl_AccountID f, fl_InstrumentID f, fl_Price f, fl_Quantity f, fl_RealizedPnL f,
       fl_SettlementCurrency f, fl_Fee f, fl_FeeCurrency f, fl_EffectiveLeverage f]
     \<and> Side_valid (fl_Side f))"

definition position_fits :: "PositionSnapshot \<Rightarrow> bool" where
  "position_fits p = (fits64 (ps_PositionID p) \<and> list_all fits64 [ps_AccountID p, ps_InstrumentID p, ps_SignedQuantity p,
       ps_AverageOpenPrice p, ps_RealizedPnL p, ps_SettlementCurrency p, ps_IsolatedCollateral p]
     \<and> MarginMode_valid (ps_MarginMode p))"

definition event_fits :: "DomainEvent \<Rightarrow> bool" where
  "event_fits e = (fits64 (ev_EventID e) \<and> fits64 (ev_Kind e) \<and> fits64 (ev_AggregateID e))"

lemmas fits_defs = instrument_fits_def account_fits_def risk_fits_def balance_fits_def entry_fits_def
  transaction_fits_def funding_fits_def level_fits_def book_fits_def order_fits_def fill_fits_def
  position_fits_def event_fits_def

interpretation instrumentw: prefix_code write_instrument instrument_fits
  by unfold_locales (simp add: write_instrument_def fits_defs code_simps)

interpretation accountw: prefix_code write_account account_fits
  by unfold_locales (simp add: write_account_def fits_defs code_simps)

interpretation riskw: prefix_code write_risk risk_fits
  by unfold_locales (simp add: write_risk_def fits_defs code_simps)

interpretation balancew: prefix_code write_balance balance_fits
  by unfold_locales (simp add: write_balance_def fits_defs code_simps)

interpretation entryw: prefix_code write_entry entry_fits
  by unfold_locales (simp add: write_entry_def fits_defs code_simps)

interpretation entriesw: prefix_code "write_list write_entry" "\<lambda>xs. fits64 xs \<and> list_all entry_fits xs"
  by (rule list_code) (rule entryw.prefix_code_axioms)

interpretation transactionw: prefix_code write_transaction transaction_fits
  by unfold_locales (simp add: write_transaction_def transaction_fits_def code_simps entriesw.split_iff)

interpretation fundingw: prefix_code write_funding funding_fits
  by unfold_locales (simp add: write_funding_def fits_defs code_simps)

interpretation levelw: prefix_code write_level level_fits
  by unfold_locales (simp add: write_level_def fits_defs code_simps)

interpretation levelsw: prefix_code "write_list write_level" "\<lambda>xs. fits64 xs \<and> list_all level_fits xs"
  by (rule list_code) (rule levelw.prefix_code_axioms)

interpretation bookw: prefix_code write_book book_fits
  by unfold_locales (simp add: write_book_def writeBookLevels_def book_fits_def code_simps levelsw.split_iff)

interpretation orderw: prefix_code write_order order_fits
  by unfold_locales (simp add: write_order_def fits_defs code_simps)

interpretation fillw: prefix_code "write_fill True" fill_fits
  by unfold_locales (simp add: write_fill_def fits_defs code_simps)

interpretation positionw: prefix_code write_position position_fits
  by unfold_locales (simp add: write_position_def fits_defs code_simps)

interpretation eventw: prefix_code write_event event_fits
  by unfold_locales (simp add: write_event_def fits_defs code_simps)

section \<open>Effects and inputs\<close>

definition all_fit :: "('a \<Rightarrow> bool) \<Rightarrow> 'a list \<Rightarrow> bool" where
  "all_fit ok xs = (fits64 xs \<and> list_all ok xs)"

definition effects_fit :: "Decision \<Rightarrow> bool" where
  "effects_fit d = (fits64 (d_DuplicateOfDecisionHash d) \<and> all_fit instrument_fits (d_InstrumentChanges d)
     \<and> all_fit account_fits (d_AccountChanges d) \<and> all_fit risk_fits (d_RiskChanges d)
     \<and> all_fit balance_fits (d_BalanceChanges d) \<and> all_fit transaction_fits (d_LedgerChanges d)
     \<and> all_fit funding_fits (d_FundingChanges d) \<and> all_fit book_fits (d_BookChanges d)
     \<and> all_fit order_fits (d_OrderChanges d) \<and> all_fit fill_fits (d_Fills d)
     \<and> all_fit position_fits (d_PositionChanges d) \<and> all_fit event_fits (d_Events d))"

definition same_effects :: "Decision \<Rightarrow> Decision \<Rightarrow> bool" where
  "same_effects a b = (d_CommandResult a = d_CommandResult b
     \<and> d_DuplicateOfDecisionHash a = d_DuplicateOfDecisionHash b
     \<and> d_InstrumentChanges a = d_InstrumentChanges b \<and> d_AccountChanges a = d_AccountChanges b
     \<and> d_RiskChanges a = d_RiskChanges b \<and> d_BalanceChanges a = d_BalanceChanges b
     \<and> d_LedgerChanges a = d_LedgerChanges b \<and> d_FundingChanges a = d_FundingChanges b
     \<and> d_BookChanges a = d_BookChanges b \<and> d_OrderChanges a = d_OrderChanges b
     \<and> d_Fills a = d_Fills b \<and> d_PositionChanges a = d_PositionChanges b \<and> d_Events a = d_Events b)"

lemmas list_split = prefix_code.split_iff [OF list_code, folded all_fit_def]

lemmas effects_split = list_split [OF instrumentw.prefix_code_axioms] list_split [OF accountw.prefix_code_axioms]
  list_split [OF riskw.prefix_code_axioms] list_split [OF balancew.prefix_code_axioms]
  list_split [OF transactionw.prefix_code_axioms] list_split [OF fundingw.prefix_code_axioms]
  list_split [OF bookw.prefix_code_axioms] list_split [OF orderw.prefix_code_axioms]
  list_split [OF fillw.prefix_code_axioms] list_split [OF positionw.prefix_code_axioms]
  prefix_code.inject_iff [OF list_code [OF eventw.prefix_code_axioms], folded all_fit_def]

definition input_fits :: "InputEnvelope \<Rightarrow> bool" where
  "input_fits input = (fits64 (in_InputID input) \<and> fits64 (in_SourceID input) \<and> fits64 (in_Payload input)
     \<and> in_Kind input \<in> {InputKindCommand, InputKindMarket, InputKindTimer, InputKindConfiguration, InputKindControl})"

lemma named_kind_inj:
  "k \<in> {InputKindCommand, InputKindMarket, InputKindTimer, InputKindConfiguration, InputKindControl} \<Longrightarrow>
   l \<in> {InputKindCommand, InputKindMarket, InputKindTimer, InputKindConfiguration, InputKindControl} \<Longrightarrow>
   InputKind_byte k = InputKind_byte l \<longleftrightarrow> k = l"
  by auto

section \<open>Properties\<close>

text \<open>
  C24. The effects hash of a decision commits to every effect: it is the digest of a preimage that
  two decisions share if and only if they have the same command result, the same link to an original
  decision and the same collections of effects, entry by entry and in order.
\<close>

theorem effects_hash_commits:
  assumes "effects_fit a" "effects_fit b"
  shows "hashEffectsAtVersion a 4 = Inr (sha256 (effects_preimage ''platformgo.engine.effects.v2'' True a))
    \<and> (effects_preimage ''platformgo.engine.effects.v2'' True a
         = effects_preimage ''platformgo.engine.effects.v2'' True b \<longleftrightarrow> same_effects a b)"
proof
  show "hashEffectsAtVersion a 4 = Inr (sha256 (effects_preimage ''platformgo.engine.effects.v2'' True a))"
    by (simp add: hashEffectsAtVersion_def finishHash_def)
  show "effects_preimage ''platformgo.engine.effects.v2'' True a
      = effects_preimage ''platformgo.engine.effects.v2'' True b \<longleftrightarrow> same_effects a b"
    using assms unfolding effects_fit_def effects_preimage_def same_effects_def
    by (simp add: code_simps effects_split) (metis CommandResult.equality unit.exhaust)
qed

theorem effects_hash_commits_witness:
  "effects_preimage ''platformgo.engine.effects.v2'' True zeroDecision
   \<noteq> effects_preimage ''platformgo.engine.effects.v2'' True (zeroDecision\<lparr>d_Events := [\<lparr>ev_EventID = zeroID,
       ev_Kind = ''order.filled'', ev_AggregateID = zeroID, ev_AggregateVersion = 1, ev_LogicalTime = 0\<rparr>]\<rparr>)"
proof -
  let ?d = "zeroDecision\<lparr>d_Events := [\<lparr>ev_EventID = zeroID, ev_Kind = ''order.filled'', ev_AggregateID = zeroID,
      ev_AggregateVersion = 1, ev_LogicalTime = 0\<rparr>]\<rparr>"
  have "effects_fit zeroDecision" "effects_fit ?d"
    by (simp_all add: effects_fit_def zeroDecision_def all_fit_def fits64_def zeroHash_def event_fits_def zeroID_def)
  from effects_hash_commits [OF this] show ?thesis by (simp add: same_effects_def zeroDecision_def)
qed

text \<open>
  C25. The input hash commits to the whole envelope: it is the digest of a preimage that determines
  every field of the input, its stream sequence and payload included.
\<close>

theorem input_hash_commits:
  assumes "input_fits a" "input_fits b"
  shows "hashInput a = sha256 (input_preimage a) \<and> (input_preimage a = input_preimage b \<longleftrightarrow> a = b)"
proof
  show "hashInput a = sha256 (input_preimage a)"
    by (simp add: hashInput_def hashInputAtVersion_def finishHash_def)
  show "input_preimage a = input_preimage b \<longleftrightarrow> a = b"
    using assms unfolding input_preimage_def input_fits_def
    by (simp add: code_simps bytesw.inject_iff named_kind_inj) (auto intro: InputEnvelope.equality)
qed

theorem input_hash_commits_witness:
  "let input = \<lparr>in_InputID = zeroID, in_SchemaVersion = 1, in_ShardID = 0, in_Kind = InputKindCommand,
      in_SourceID = ''api'', in_SourceSequence = 1, in_StreamSequence = 1, in_MarketSequence = 0,
      in_LogicalTime = 0, in_ConfigurationVersion = 1, in_InstrumentVersion = 1, in_Payload = []\<rparr>
   in input_preimage input \<noteq> input_preimage (input\<lparr>in_StreamSequence := 2\<rparr>)"
proof -
  let ?i = "\<lparr>in_InputID = zeroID, in_SchemaVersion = 1, in_ShardID = 0, in_Kind = InputKindCommand,
      in_SourceID = ''api'', in_SourceSequence = 1, in_StreamSequence = 1, in_MarketSequence = 0,
      in_LogicalTime = 0, in_ConfigurationVersion = 1, in_InstrumentVersion = 1, in_Payload = []\<rparr>"
  have "input_fits ?i" "input_fits (?i\<lparr>in_StreamSequence := 2\<rparr>)"
    by (simp_all add: input_fits_def fits64_def zeroID_def)
  from input_hash_commits [OF this] show ?thesis by simp
qed

end
