(* ===== verification/Spec2Isabelle.thy ===== *)
theory Spec2Isabelle
  imports OrderBookFills ExpressionTypes DefiTickMath DefiSwap DefiPoolInvariant SampleTrades KernelGuarantees EngineCommit
begin

text \<open>
  The verified core of the trading platform. Four groups of packages are modelled, each on its own library theories.

  \<^bold>\<open>The deterministic engine\<close> (\<open>src/internal/engine\<close>, on \<open>src/internal/domain\<close> and \<open>src/internal/decimal/economic\<close>). A shard receives
  sequenced input envelopes. The kernel looks up the receipt of an input, validates the envelope and its sequence, runs one trading action
  on the trading state, completes the decision with balance projections and ledger entries, and extends a hash chain; an input that
  cannot be applied halts the shard. A call returns the new state, the decision and the error, as the Go methods do.
  \<^item> \<open>Prelude\<close>: machine integers at their width, Go's errors, text, UTF-8 and stable sorting, and the lemmas all components share.
  \<^item> \<open>Apd\<close>: the external decimal library as the parameter \<open>X\<close>; its documented laws are the locale \<open>apd_lib\<close>, and \<open>apd_ref\<close> is an
    executable instance that satisfies them.
  \<^item> \<open>Decimal\<close> (\<open>decimal.go\<close>): the exact decimal. Every value is canonical, sums are exact and total in range, products and quotients are
    rounded once and half to even, parsing inverts printing.
  \<^item> \<open>Domain\<close> (\<open>value.go\<close>, \<open>fee_math.go\<close>, \<open>position_math.go\<close>, \<open>risk_math.go\<close>, \<open>trading_math.go\<close>, \<open>slippage.go\<close>): money, prices and quantities
    with their units (the locale \<open>unit_arith\<close>, a sublocale of \<open>apd_lib\<close> for each) and the trading formulas with their exact values.
  \<^item> \<open>Sha256\<close>, \<open>EngineTypes\<close>, \<open>EngineText\<close>, \<open>EngineJson\<close>, \<open>EngineHash\<close> (\<open>types.go\<close>, \<open>trading_types.go\<close>, \<open>errors.go\<close>, \<open>payload.go\<close>, \<open>hash.go\<close>):
    identities, envelopes, actions, decisions, their canonical JSON and the preimages of the hashes. \<open>EngineCommit\<close> shows through the locale
    \<open>prefix_code\<close>, interpreted on every field and record writer, that a preimage determines what it encodes.
  \<^item> \<open>EngineState\<close>, \<open>EngineMatching\<close>, \<open>EngineRisk\<close>, \<open>EnginePositions\<close>, \<open>EngineBrackets\<close>, \<open>EngineExecute\<close>, \<open>EngineApply\<close> (the \<open>trading_*.go\<close>
    files): the records of the trading state, the registries (locale \<open>registry\<close>), matching, margin, funding, liquidation, positions,
    brackets, the execution of an order and one handler for each action.
  \<^item> \<open>EngineEvolution\<close>, \<open>EngineHistory\<close>, \<open>EngineReports\<close>: what an execution and an action may change (locale \<open>evolution\<close>): a rejected
    action leaves no trace but the record of a slippage rejection, terminal orders are final, and an action reports exactly the fills it
    appends, so stamping their leverage leaves earlier fills alone.
  \<^item> \<open>EngineInvariant\<close>, \<open>EngineFills\<close>, \<open>EngineExecuted\<close>, \<open>EngineRegistries\<close>, \<open>EngineHandlers\<close>: the well-formedness invariant of the trading
    state (orders account for their fills, positions conserve them, books are ordered and uncrossed) and its preservation by every action.
  \<^item> \<open>Kernel\<close>, \<open>KernelChain\<close>, \<open>KernelReachable\<close>, \<open>KernelGuarantees\<close> (\<open>kernel.go\<close>, \<open>receipts.go\<close>): every entry point of the kernel, its
    three outcomes (halt, replay, commit), the step relation over all entry points (\<open>kernel_step\<close>), the inductive set of reachable
    shards and the properties that hold in all of them.
  \<^item> \<open>Samples\<close>, \<open>SampleDay\<close>, \<open>SampleTrades\<close>: a shard that commits a configuration and a short trading day, on which the properties apply.

  \<^bold>\<open>Concentrated liquidity\<close> (\<open>src/internal/defi\<close> and \<open>src/internal/defi/tickmap\<close>). Go's big integers are integers with the range checks and wraps of
  the source written out; a panic is an \<open>Inl\<close>.
  \<^item> \<open>DefiMath\<close> and \<open>DefiSwap\<close> (\<open>full_math.go\<close>, \<open>liquidity_math.go\<close>, \<open>sqrt_price_math.go\<close>, \<open>swap_math.go\<close>): amounts are rounded once although the
    code divides twice, a swap step stays between its prices and never favours the trader.
  \<^item> \<open>DefiTicks\<close> (\<open>bit_tick.go\<close>, \<open>tick_bitmap.go\<close>, \<open>tick_map.go\<close>): the bitmap refines a set of ticks (locale \<open>tick_index\<close>), searches find
    the nearest tick, fee growth is additive and continuous across a crossing.
  \<^item> \<open>DefiTickMath\<close> (\<open>tick_math.go\<close>): prices of ticks are accurate and strictly increasing, and the tick of a price is their exact inverse.
  \<^item> \<open>DefiPool\<close> and \<open>DefiPoolInvariant\<close> (\<open>pool_analysis.go\<close>): the pool profiler as a transition system over all its operations; in every
    reachable pool the liquidity of the ticks is that of the positions, and so is that of the pool, up to the drift brought in by swap
    events and applied quotes, whose liquidity the code takes as given; a quoted swap conserves value. The floating-point branch of \<open>TickAtSqrtPrice\<close> is the
    parameter \<open>log_tick\<close>.

  \<^bold>\<open>Formulas of synthetic instruments\<close> (\<open>src/internal/expression\<close>). \<open>Expression\<close> holds bindings, lexer, parser, type inference and evaluation, with
  \<open>float64\<close> arithmetic as the parameter \<open>F\<close>; \<open>ExpressionTypes\<close> shows that compilation always returns and that a compiled formula never
  panics and has its inferred type. The loops of the lexer and the parser run on fuel: the length of the source for the lexer, four
  times the number of tokens and four for a parse; both are proved to be enough, so running out is never a result.

  \<^bold>\<open>The market-data order book\<close> (\<open>src/internal/matching/orderbook\<close> on \<open>src/internal/decimal\<close>). \<open>FixedDecimal\<close> holds scaled decimals, prices and
  quantities, \<open>OrderBook\<close> levels, ladders and the book, \<open>OrderBookQueues\<close> the invariant of a ladder and the queue each operation computes,
  \<open>OrderBookFills\<close> the refinement of sequences of operations (locale \<open>stepwise_refinement\<close>) and simulated fills. Go mutates levels
  through pointers that do not leave a call; here the changed level replaces the old one in its ladder.

  Apart from the formula parser no definition needs fuel: every other loop of the modelled code is structural or has a measure, so the
  functions are total and a result is always a value, an error or a panic of the source.

  The properties of the kernel and the engine follow in this theory; those of a single component stand at the end of its theory. Where the
  code falls short of a property, a lemma on a concrete instance shows it: \<open>token1_input_wraps_price\<close> (a large input of token 1 wraps the price),
  \<open>mint_ignores_upper_tick_cap\<close>, \<open>burn_accepts_negative_liquidity\<close>, \<open>observed_differs_without_result\<close> (a formula without a result),
  \<open>burn_refused_after_low_event\<close>, \<open>readded_order_survives_deletion\<close>, \<open>fill_panics_before_remainder\<close> and \<open>clear_stale_uses_first_ask\<close>.

  \<^bold>\<open>Not modelled.\<close> \<open>DecodeTradingActionPayload\<close> (a JSON parser with rejection of unknown fields); the texts of error messages that do not
  enter a hash; the clones that only separate memory; the PostgreSQL, NATS and Centrifugo adapters, the HTTP edge, the application
  services and the process lifecycle (SQL, sockets, goroutines and timers, whose behaviour is that of external systems); the chain records and
  reports of \<open>internal/defi\<close>, the instrument, account and order classes of the compatibility port, its reports over \<open>float64\<close> series, and
  the own-order book and the decoders of delta batches beside the order book.
\<close>

section \<open>The kernel: errors, commits, replays\<close>

text \<open>
  C1. A committed input advances the hash chain by exactly one step: the input carried the expected
  stream sequence, the sequence grows by one without wrapping, the effects hash is the hash of the
  effects of the decision that is returned, the decision hash binds the previous state hash, the input
  hash and the effects hash, and the new state hash binds all of them with the next sequence. The typed action is the one the canonical payload encodes, and its kind is allowed for
  the input kind.
\<close>

theorem committed_input_advances_chain:
  assumes "ApplyTradingWithReceiptsAtDecisionHashVersion X s input a R v = (s', d, None)"
    and "lookupReceipt s R input = Inr None"
  shows "unat (st_nextStreamSequence s') = unat (st_nextStreamSequence s) + 1
    \<and> in_StreamSequence input = st_nextStreamSequence s \<and> st_ready s'
    \<and> d_PreviousStateHash d = st_hash s \<and> d_InputHash d = hashInput input
    \<and> hashEffectsAtVersion d v = Inr (d_EffectsHash d)
    \<and> hashDecisionAtVersion (st_hash s) (hashInput input) (d_EffectsHash d) v = Inr (d_DecisionHash d)
    \<and> st_hash s' = hashAcceptedState (st_hash s) (hashInput input) (d_DecisionHash d)
        (st_nextStreamSequence s')
    \<and> EncodeTradingAction a = in_Payload input
    \<and> TradingActionAllowedForInputKind (in_Kind input) (act_Kind a)"
  using fresh_trading_facts [OF assms] fresh_trading(2,3) [OF assms] by simp

theorem committed_input_advances_chain_witness:
  "\<exists>s' d. ApplyTradingWithReceiptsAtDecisionHashVersion apd_ref (NewState 7) sample_configure sample_account
      None 4 = (s', d, None) \<and> st_nextStreamSequence s' = 2 \<and> d_PreviousStateHash d = hashInitialState 7
    \<and> st_hash s' = hashAcceptedState (hashInitialState 7) (hashInput sample_configure) (d_DecisionHash d) 2"
proof -
  obtain s' d where c: "ApplyTradingWithReceiptsAtDecisionHashVersion apd_ref (NewState 7) sample_configure
      sample_account None 4 = (s', d, None)" using sample_commit by blast
  note f = committed_input_advances_chain [OF c sample_fresh]
  then have "unat (st_nextStreamSequence s') = unat (2 :: u64)" by simp
  then have "st_nextStreamSequence s' = 2" by (rule unsigned_word_eqI)
  with c f show ?thesis by auto
qed

text \<open>
  C2. An input that cannot be applied fails closed: no decision, no economic change, no sequence
  advance; the shard is not ready afterwards and, if it was, its hash records the error.
\<close>

theorem trading_error_fail_closed:
  assumes "ApplyTradingWithReceiptsAtDecisionHashVersion X s input a R v = (s', d, Some err)"
  shows "d = zeroDecision \<and> \<not> st_ready s' \<and> st_trading s' = st_trading s
    \<and> st_nextStreamSequence s' = st_nextStreamSequence s \<and> st_marketSequence s' = st_marketSequence s
    \<and> st_lastReceipt s' = st_lastReceipt s
    \<and> (st_ready s \<longrightarrow> st_hash s' = hashHaltedState (st_hash s) (hashInput input) err)"
  using trading_cases [OF assms] by (auto simp: halted_from_def split: if_splits)

theorem trading_error_fail_closed_witness:
  "let input = sample_input 1 2 InputKindConfiguration sample_account in
   \<exists>s'. ApplyTradingWithReceiptsAtDecisionHashVersion apd_ref (NewState 7) input sample_account None 4
       = (s', zeroDecision, Some (input_error input ErrSequenceGap ''next expected sequence is 1''))
     \<and> \<not> st_ready s' \<and> st_nextStreamSequence s' = 1"
proof -
  let ?input = "sample_input 1 2 InputKindConfiguration sample_account"
  have "\<exists>s' d. ApplyTradingWithReceiptsAtDecisionHashVersion apd_ref (NewState 7) ?input sample_account None 4
       = (s', d, Some (input_error ?input ErrSequenceGap ''next expected sequence is 1''))"
    by (simp add: entry_defs sample_fresh validateEnvelope_sample sample_kind halt_def expected_sequence_def
      nat_text_1)
  then show ?thesis using trading_error_fail_closed [of apd_ref "NewState 7" ?input sample_account None 4]
    by (auto simp: Let_def)
qed

text \<open>
  C3. Replaying a committed input returns the recorded decision and changes nothing, whatever action
  and hash version the caller passes the second time.
\<close>

theorem replay_returns_recorded_decision:
  assumes "ApplyTradingWithReceiptsAtDecisionHashVersion X s input a R v = (s', d, None)"
    and "lookupReceipt s R input = Inr None"
  shows "ApplyTradingWithReceiptsAtDecisionHashVersion X s' input b None w = (s', d, None)"
proof -
  note ff = fresh_trading_facts [OF assms]
  have "lookupReceipt s' None input = Inr (Some (NewReceipt input d))"
    by (rule lookup_last) (use ff in \<open>auto simp: NewReceipt_def\<close>)
  then show ?thesis using ff(7,11) by (simp add: entry_defs NewReceipt_def)
qed

theorem replay_returns_recorded_decision_witness:
  "\<exists>s' d. ApplyTradingWithReceiptsAtDecisionHashVersion apd_ref (NewState 7) sample_configure sample_account
      None 4 = (s', d, None)
    \<and> ApplyTradingWithReceiptsAtDecisionHashVersion apd_ref s' sample_configure no_action None 2 = (s', d, None)"
  using sample_commit [of apd_ref] replay_returns_recorded_decision [OF _ sample_fresh] by blast

text \<open>
  C4. A committed identity cannot be reused: an input with the ID or the stream sequence of the
  committed input but another content halts the shard with a conflict.
\<close>

theorem reused_identity_halts:
  assumes "ApplyTradingWithReceiptsAtDecisionHashVersion X s input a R v = (s', d, None)"
    and "lookupReceipt s R input = Inr None"
    and "in_InputID other = in_InputID input \<or> in_StreamSequence other = in_StreamSequence input"
    and "in_InputID other \<noteq> in_InputID input \<or> in_StreamSequence other \<noteq> in_StreamSequence input
      \<or> hashInput other \<noteq> hashInput input"
  shows "\<exists>det. ApplyTradingWithReceiptsAtDecisionHashVersion X s' other b None w =
    halt s' (hashInput other) (input_error other ErrInputConflict det)"
proof -
  note ff = fresh_trading_facts [OF assms(1,2)]
  let ?r = "NewReceipt input d"
  show ?thesis
  proof (cases "in_InputID other = in_InputID input \<and> in_StreamSequence other = in_StreamSequence input")
    case True
    then have "lookupReceipt s' None other = Inr (Some ?r)"
      by (intro lookup_last(1)) (use ff(9,10) in \<open>auto simp: NewReceipt_def\<close>)
    then show ?thesis using ff(3,7,11) assms(4) True by (simp add: entry_defs NewReceipt_def) blast
  next
    case False
    then have "(r_InputID ?r = in_InputID other) \<noteq> (r_StreamSequence ?r = in_StreamSequence other)"
      using assms(3) by (auto simp: NewReceipt_def)
    from lookup_last(2) [OF ff(10,9) this] obtain det where
      "lookupReceipt s' None other = Inl (input_error other ErrInputConflict det)" by blast
    then show ?thesis using ff(3) by (auto simp: entry_defs)
  qed
qed

theorem reused_identity_halts_witness:
  "\<exists>s' d det. let other = sample_input 2 1 InputKindConfiguration sample_account in
     ApplyTradingWithReceiptsAtDecisionHashVersion apd_ref (NewState 7) sample_configure sample_account
       None 4 = (s', d, None)
     \<and> ApplyTradingWithReceiptsAtDecisionHashVersion apd_ref s' other sample_account None 4
       = halt s' (hashInput other) (input_error other ErrInputConflict det)"
proof -
  obtain s' d where c: "ApplyTradingWithReceiptsAtDecisionHashVersion apd_ref (NewState 7) sample_configure
      sample_account None 4 = (s', d, None)" using sample_commit by blast
  have "in_InputID (sample_input 2 1 InputKindConfiguration sample_account) \<noteq> in_InputID sample_configure"
    "in_StreamSequence (sample_input 2 1 InputKindConfiguration sample_account) = in_StreamSequence sample_configure"
    by simp_all
  then show ?thesis using c reused_identity_halts [OF c sample_fresh] by (auto simp: Let_def)
qed

text \<open>
  C5. A halted shard stays halted, and no entry point does more to it than this: the trading entry point,
  the plain one and a re-published input return it unchanged, whatever they are sent; recovery may only move its
  market sequence, and only where it replays the recorded decision of a market input that changed a book;
  failing closed again only extends its hash; and seeding, where it is still allowed, adds currency
  scales and nothing else.
\<close>

theorem halted_shard_absorbing:
  assumes "\<not> st_ready s"
  shows "fst (ApplyTradingWithReceiptsAtDecisionHashVersion X s input a R v) = s
    \<and> fst (ApplyWithReceipts X s input R) = s
    \<and> fst (ApplyDuplicateDeliveryAtDecisionHashVersion s input r v) = s
    \<and> (\<forall>s' d e. ApplyTradingForRecoveryAtDecisionHashVersion X s input a R v = (s', d, e) \<longrightarrow>
        s' = s \<or> s' = s\<lparr>st_marketSequence := in_StreamSequence input\<rparr> \<and> in_Kind input = InputKindMarket
          \<and> (\<exists>q. lookupReceipt s R input = Inr (Some q) \<and> d = r_Decision q \<and> d_BookChanges d \<noteq> []))
    \<and> fst (FailClosed s input kind detail) = s\<lparr>st_hash := hashHaltedState (st_hash s) (hashInput input)
        \<lparr>err_Kind = kind, err_Sequence = in_StreamSequence input, err_Detail = detail\<rparr>\<rparr>
    \<and> (\<forall>s'. SeedCurrencyScales s scales = Inr s' \<longrightarrow>
        (\<exists>k. s' = with_trading s ((st_trading s)\<lparr>ts_currencyScales := k\<rparr>)))"
  by (intro conjI allI impI halted_entry [OF assms] halted_recovery [OF assms])
    (assumption, simp add: seed_only)

theorem halted_shard_absorbing_witness:
  "let s = (NewState 7)\<lparr>st_ready := False\<rparr> in
   fst (ApplyTradingWithReceiptsAtDecisionHashVersion apd_ref s sample_configure sample_account None 4) = s
   \<and> fst (ApplyWithReceipts apd_ref s sample_configure None) = s
   \<and> \<not> st_ready (fst (FailClosed s sample_configure ErrSequenceGap ''again''))"
proof -
  let ?s = "(NewState 7)\<lparr>st_ready := False\<rparr>"
  have "\<not> st_ready ?s" by simp
  note h = halted_shard_absorbing [OF this, of apd_ref sample_configure sample_account None 4 zeroReceipt ErrSequenceGap "''again''" "[]"]
  show ?thesis unfolding Let_def using h by simp
qed

section \<open>Reachable shards\<close>

text \<open>
  C6. In every reachable state of a shard, whatever inputs it was sent, the trading state is well
  formed: every record carries exact values in its instrument's or currency's units, the registries
  are keyed, active orders and open positions refer to the registered revision of their instrument,
  orders account for their fills and positions for the net of all fills.
\<close>

theorem reachable_well_formed:
  assumes "apd_lib X" "reachable X s"
  shows "trading_wf X (st_trading s)"
  by (rule apd_lib.reachable_wf [OF assms])

theorem reachable_well_formed_witness:
  "\<exists>s. reachable apd_ref s \<and> traded (st_trading s) \<and> trading_wf apd_ref (st_trading s)"
  using traded_reachable reachable_well_formed [OF ref.apd_lib_axioms] by blast

text \<open>
  C7. No order is ever overfilled, and its fills are exactly what it says: the filled quantity is
  between zero and the quantity and is the sum of the order's fills, a filled order is filled to its
  quantity, and the average price is the weighted average of the order's fills. Every fill has a
  positive quantity and price and belongs to an order, and no two orders share an ID.
\<close>

theorem orders_account_for_fills:
  assumes "apd_lib X" "reachable X s"
  shows "(\<forall>order \<in> set (ts_orders (st_trading s)).
      0 \<le> qval (or_filledQuantity order) \<and> qval (or_filledQuantity order) \<le> qval (or_quantity order)
      \<and> qval (or_filledQuantity order) = executed_quantity (ts_fills (st_trading s)) (or_orderID order)
      \<and> (or_status order = OrderStatusFilled \<longrightarrow> qval (or_filledQuantity order) = qval (or_quantity order))
      \<and> (if or_hasAverage order then WeightedAveragePrice X (executions (ts_fills (st_trading s)) (or_orderID order))
             = Inr (or_averagePrice order)
         else executions (ts_fills (st_trading s)) (or_orderID order) = []))
    \<and> (\<forall>fill \<in> set (ts_fills (st_trading s)). 0 < qval (fi_quantity fill) \<and> 0 < pval (fi_price fill)
      \<and> fi_orderID fill \<in> or_orderID ` set (ts_orders (st_trading s)))
    \<and> distinct (map or_orderID (ts_orders (st_trading s)))"
proof -
  note wf = apd_lib.reachable_wf [OF assms]
  have "order_wf order \<and> order_accounted X (ts_fills (st_trading s)) order" if "order \<in> set (ts_orders (st_trading s))" for order
    using wf that by (simp add: trading_wf_def records_wf_def accounted_def)
  moreover have "0 \<le> qval (or_filledQuantity order) \<and> qval (or_filledQuantity order) \<le> qval (or_quantity order)
      \<and> (or_status order = OrderStatusFilled \<longrightarrow> qval (or_filledQuantity order) = qval (or_quantity order))"
    if "order_wf order" for order using that unfolding order_wf_def unit_qty_def qty_ok_def qval_def by blast
  moreover have "\<forall>fill \<in> set (ts_fills (st_trading s)). 0 < qval (fi_quantity fill) \<and> 0 < pval (fi_price fill)
      \<and> fi_orderID fill \<in> or_orderID ` set (ts_orders (st_trading s))"
    using wf by (auto simp: trading_wf_def records_wf_def accounted_def fill_wf_def unit_price_def)
  moreover have "distinct (map or_orderID (ts_orders (st_trading s)))" using wf by (simp add: trading_wf_def accounted_def)
  ultimately show ?thesis unfolding order_accounted_def by blast
qed

theorem orders_account_for_fills_witness:
  "\<exists>s order. reachable apd_ref s \<and> ts_orders (st_trading s) = [order] \<and> or_quantity order = btc_quantity 3
    \<and> or_filledQuantity order = btc_quantity 2
    \<and> qval (or_filledQuantity order) = executed_quantity (ts_fills (st_trading s)) (or_orderID order)"
proof -
  obtain s where s: "reachable apd_ref s" "traded (st_trading s)" using traded_reachable by blast
  then obtain order where "ts_orders (st_trading s) = [order]" "or_quantity order = btc_quantity 3"
    "or_filledQuantity order = btc_quantity 2" by (auto simp: traded_def)
  moreover from this have "qval (or_filledQuantity order) = executed_quantity (ts_fills (st_trading s)) (or_orderID order)"
    using bspec [OF conjunct1 [OF orders_account_for_fills [OF ref.apd_lib_axioms s(1)]], of order] by simp
  ultimately show ?thesis using s(1) by blast
qed

text \<open>
  C8. Positions conserve quantity: for every instrument revision the signed quantities of all position
  records add up to the signed quantities of all fills, and a position is open exactly when its
  quantity is positive.
\<close>

theorem positions_conserve_fills:
  assumes "apd_lib X" "reachable X s"
  shows "net_positions i (ts_positions (st_trading s)) = net_fills i (ts_fills (st_trading s))
    \<and> (\<forall>p \<in> set (ts_positions (st_trading s)). po_status p = PositionStatusOpen \<longleftrightarrow> 0 < qval (po_quantity p))"
  using apd_lib.reachable_wf [OF assms]
  by (simp add: trading_wf_def conserved_def records_wf_def position_wf_def)

theorem positions_conserve_fills_witness:
  "\<exists>s p. reachable apd_ref s \<and> ts_positions (st_trading s) = [p] \<and> po_quantity p = btc_quantity 2
    \<and> net_positions btc [p] = net_fills btc (ts_fills (st_trading s))"
proof -
  obtain s where s: "reachable apd_ref s" "traded (st_trading s)" using traded_reachable by blast
  then obtain p where "ts_positions (st_trading s) = [p]" "po_quantity p = btc_quantity 2" by (auto simp: traded_def)
  with s positions_conserve_fills [OF ref.apd_lib_axioms s(1), of btc] show ?thesis by auto
qed

text \<open>
  C9. Every book of a reachable shard is quoted in positive prices and quantities of one revision of
  its instrument, sorted from the best price on each side, and never crossed or locked.
\<close>

theorem books_ordered_and_uncrossed:
  assumes "apd_lib X" "reachable X s" "b \<in> set (ts_books (st_trading s))"
  shows "sorted_wrt (\<lambda>x y. pval (lv_price y) \<le> pval (lv_price x)) (bo_bids b)
    \<and> sorted_wrt (\<lambda>x y. pval (lv_price x) \<le> pval (lv_price y)) (bo_asks b)
    \<and> (\<forall>x \<in> set (bo_bids b). \<forall>y \<in> set (bo_asks b). pval (lv_price x) < pval (lv_price y))
    \<and> (\<forall>l \<in> set (bo_bids b) \<union> set (bo_asks b). 0 < pval (lv_price l) \<and> 0 < qval (lv_quantity l))"
  using apd_lib.reachable_wf [OF assms(1,2)] assms(3)
  by (auto simp: trading_wf_def config_wf_def book_wf_def level_wf_def unit_price_def)

theorem books_ordered_and_uncrossed_witness:
  "\<exists>s b. reachable apd_ref s \<and> ts_books (st_trading s) = [b] \<and> length (bo_bids b) = 1 \<and> length (bo_asks b) = 1
    \<and> (\<forall>x \<in> set (bo_bids b). \<forall>y \<in> set (bo_asks b). pval (lv_price x) < pval (lv_price y))"
proof -
  obtain s where s: "reachable apd_ref s" "st_trading s = trading4" using quoted_reachable by blast
  have b: "ts_books (st_trading s) = [btc_book]" by (simp add: s(2) trading4_def)
  with s books_ordered_and_uncrossed [OF ref.apd_lib_axioms s(1), of btc_book] show ?thesis by (auto simp: btc_book_def)
qed

text \<open>
  C10. Along every step of a reachable shard, through any entry point of the kernel, the trading state only
  evolves: no order is removed, its identity, account, instrument, side, type and size at submission never
  change, and once it is filled, cancelled or rejected it never changes again; a recorded fill never changes,
  its effective leverage included, and new fills are appended; funding payments and settlements are
  append-only, positions keep their identity, account and instrument, and the scale of a currency is fixed
  for ever.
\<close>

theorem terminal_orders_and_fills_are_final:
  assumes "apd_lib X" "reachable X s" "kernel_step X s s'"
  shows "length (ts_orders (st_trading s)) \<le> length (ts_orders (st_trading s'))
    \<and> (\<forall>i < length (ts_orders (st_trading s)). let old = ts_orders (st_trading s) ! i; new = ts_orders (st_trading s') ! i in
        or_orderID new = or_orderID old \<and> or_accountID new = or_accountID old \<and> or_instrument new = or_instrument old
        \<and> or_side new = or_side old \<and> or_orderType new = or_orderType old \<and> or_originalQuantity new = or_originalQuantity old
        \<and> (\<not> active_status (or_status old) \<longrightarrow> new = old))
    \<and> prefix (ts_fills (st_trading s)) (ts_fills (st_trading s'))
    \<and> prefix (ts_settlements (st_trading s)) (ts_settlements (st_trading s'))
    \<and> prefix (ts_funding (st_trading s)) (ts_funding (st_trading s'))
    \<and> length (ts_positions (st_trading s)) \<le> length (ts_positions (st_trading s'))
    \<and> (\<forall>i < length (ts_positions (st_trading s)). let old = ts_positions (st_trading s) ! i; new = ts_positions (st_trading s') ! i in
        po_positionID new = po_positionID old \<and> po_accountID new = po_accountID old \<and> po_instrument new = po_instrument old)
    \<and> (\<forall>code c. currencyScale (st_trading s) code = Some c \<longrightarrow> currencyScale (st_trading s') code = Some c)"
  using apd_lib.kernel_step_history [OF assms] kernel_step_fills [OF assms(3)]
  by (auto simp: history_def grows_def order_evolves_def position_evolves_def Let_def)

theorem terminal_orders_and_fills_are_final_witness:
  "\<exists>s f. reachable apd_ref s \<and> traded (st_trading s) \<and> ts_fills (st_trading s) = [f]
    \<and> (case ApplyTradingWithReceiptsAtDecisionHashVersion apd_ref s sample_configure sample_account None 4 of
         (s', d, e) \<Rightarrow> 1 \<le> length (ts_orders (st_trading s')) \<and> prefix [f] (ts_fills (st_trading s')))"
proof -
  obtain s where s: "reachable apd_ref s" "traded (st_trading s)" using traded_reachable by blast
  then have l: "length (ts_orders (st_trading s)) = 1" "length (ts_fills (st_trading s)) = 1"
    by (auto simp: traded_def dest: arg_cong [where f = length])
  then obtain f where f: "ts_fills (st_trading s) = [f]" by (auto simp: length_Suc_conv)
  obtain s' d e where a: "ApplyTradingWithReceiptsAtDecisionHashVersion apd_ref s sample_configure sample_account None 4
      = (s', d, e)" by (cases "ApplyTradingWithReceiptsAtDecisionHashVersion apd_ref s sample_configure sample_account None 4")
  show ?thesis using s l f terminal_orders_and_fills_are_final [OF ref.apd_lib_axioms s(1) step_trading [OF a]] a by auto
qed

section \<open>Decisions\<close>

text \<open>
  C11. The ledger of a committed decision is the exact double entry of its balance changes: one
  transaction for every account and currency whose total changed, in order, and none other; in each the
  account moves by the difference between the new and the previous total and the clearing account by the
  opposite amount, so every transaction sums to zero.
\<close>

theorem committed_ledger_is_double_entry:
  assumes "apd_lib X" "reachable X s"
    and "ApplyTradingWithReceiptsAtDecisionHashVersion X s input a R v = (s', d, None)"
    and "lookupReceipt s R input = Inr None"
  shows "map entry_key (d_LedgerChanges d) = filter (\<lambda>k. final_total X (d_BalanceChanges d) k \<noteq> previous_total s k)
        (sort_by (<) (remdups (map change_key (d_BalanceChanges d))))
    \<and> (\<forall>t \<in> set (d_LedgerChanges d). double_entry X s (d_BalanceChanges d) t)"
  by (rule apd_lib.committed_ledger [OF assms])

theorem committed_ledger_is_double_entry_witness:
  "\<exists>s s' d t. reachable apd_ref s
    \<and> ApplyTradingWithReceiptsAtDecisionHashVersion apd_ref s order_input (day ! 4) None 2 = (s', d, None)
    \<and> d_LedgerChanges d = [t] \<and> entry_key t = (''alice'', ''USD'') \<and> double_entry apd_ref s [charged] t"
proof -
  obtain s s' d where s: "reachable apd_ref s" "st_trading s = trading4"
    "ApplyTradingWithReceiptsAtDecisionHashVersion apd_ref s order_input (day ! 4) None 2 = (s', d, None)"
    "lookupReceipt s None order_input = Inr None" "d_BalanceChanges d = [charged]" using day_traded by blast
  note l = committed_ledger_is_double_entry [OF ref.apd_lib_axioms s(1,3,4), unfolded s(5)]
  have "sort_by (<) (remdups (map change_key [charged])) = [(''alice'', ''USD'')]"
    by (simp add: sort_by_def change_key_def charged_def)
  then have k: "map entry_key (d_LedgerChanges d) = [(''alice'', ''USD'')]" using l charged_totals [OF s(2)] by simp
  then obtain t where "d_LedgerChanges d = [t]" "entry_key t = (''alice'', ''USD'')" by auto
  with l s show ?thesis by auto
qed

text \<open>
  C12. A rejected action leaves no trace: the shard state is unchanged and the decision carries no
  effect but its reason. The one exception is an order rejected for slippage, which is recorded as a
  rejected order and reported with its event, and nothing else.
\<close>

theorem rejected_action_leaves_no_trace:
  assumes "applyTradingAction X s input a = (n, d)" "cmd_Status (d_CommandResult d) = CommandStatusRejected"
  shows "n = s \<and> no_effects d
    \<or> cmd_Reason (d_CommandResult d) = RejectionSlippageExceeded
      \<and> (\<exists>order. or_status order = OrderStatusRejected \<and> or_rejectReason order = RejectionSlippageExceeded
           \<and> n = with_trading s ((st_trading s)\<lparr>ts_orders := ts_orders (st_trading s) @ [order]\<rparr>)
           \<and> d = appendOrderTransition (rejectedDecision RejectionSlippageExceeded) input (order_snapshot X order))"
proof -
  have "rejected_as X input s (n, d)"
    using action_rejected [of X s input a 0] assms by (simp add: applyTradingActionAtDecisionHashVersion_def)
  then consider "n = s" "d = rejectedDecision (cmd_Reason (d_CommandResult d))"
    | order where "or_status order = OrderStatusRejected" "or_rejectReason order = RejectionSlippageExceeded"
      "(n, d) = recorded_rejection X input s order" by (auto simp: rejected_as_def rejectedTradingDecision_def)
  then show ?thesis
  proof cases
    case 1
    then have "no_effects d" by (metis rejected_effects(1))
    with 1 show ?thesis by simp
  next
    case 2
    have "cmd_Reason (d_CommandResult (appendOrderTransition (rejectedDecision q) input os)) = q" for q os
      by (simp add: appendOrderTransition_def)
    with 2 show ?thesis by (auto simp: recorded_rejection_def)
  qed
qed

theorem rejected_action_leaves_no_trace_witness:
  "\<exists>d. applyTradingAction apd_ref (NewState 7) order_input (day ! 4) = (NewState 7, d)
    \<and> cmd_Reason (d_CommandResult d) = RejectionInvalidInstrument \<and> no_effects d"
proof -
  have r: "applyTradingAction apd_ref (NewState 7) order_input (day ! 4) = (NewState 7, rejectedDecision RejectionInvalidInstrument)"
    unfolding day_dispatch
    by (simp add: submitTradingOrder_def admitted_order_def find_instrument_def) (simp add: emptyTrading_def decision_defs)
  have c: "d_CommandResult (rejectedDecision RejectionInvalidInstrument)
      = \<lparr>cmd_Status = CommandStatusRejected, cmd_Reason = RejectionInvalidInstrument\<rparr>" by (simp add: rejectedDecision_def)
  have "cmd_Status (d_CommandResult (rejectedDecision RejectionInvalidInstrument)) = CommandStatusRejected"
    "cmd_Reason (d_CommandResult (rejectedDecision RejectionInvalidInstrument)) \<noteq> RejectionSlippageExceeded" by (simp_all add: c)
  then have "no_effects (rejectedDecision RejectionInvalidInstrument)" using rejected_action_leaves_no_trace [OF r] by blast
  with r c show ?thesis by auto
qed

text \<open>
  C13. A ready shard makes progress on invalid commands: an input in sequence, with a valid envelope and
  the canonical payload of its action, whose action is rejected always commits, at every supported decision
  version; the sequence advances and the shard stays ready, the decision carries the result, the order
  changes and the events of the rejection and no other effect, and the trading state is the one the
  rejected action left. Unless the reason is slippage, that is the old trading state and the decision has no
  effects at all; an order rejected for slippage is recorded and reported.
\<close>

theorem rejected_input_commits:
  assumes "lookupReceipt s R input = Inr None" "st_ready s" "validateEnvelope s input CurrentSchemaVersion = None"
    "in_StreamSequence input = st_nextStreamSequence s" "st_nextStreamSequence s \<noteq> - 1"
    "EncodeTradingAction a = in_Payload input" "TradingActionAllowedForInputKind (in_Kind input) (act_Kind a)"
    "v = 2 \<or> v = 3 \<or> v = 4" "applyTradingActionAtDecisionHashVersion X s input a v = (n, r)"
    "cmd_Status (d_CommandResult r) = CommandStatusRejected"
  shows "\<exists>s' d. ApplyTradingWithReceiptsAtDecisionHashVersion X s input a R v = (s', d, None)
    \<and> d_CommandResult d = d_CommandResult r \<and> d_OrderChanges d = d_OrderChanges r \<and> d_Events d = d_Events r
    \<and> orders_only d \<and> (cmd_Reason (d_CommandResult r) \<noteq> RejectionSlippageExceeded \<longrightarrow> no_effects d \<and> n = s)
    \<and> st_trading s' = st_trading n \<and> st_nextStreamSequence s' = st_nextStreamSequence s + 1 \<and> st_ready s'"
  by (rule rejected_commits [OF assms])

theorem rejected_input_commits_witness:
  "let input = sample_input 1 1 InputKindCommand (day ! 4) in
   \<exists>s' d. ApplyTradingWithReceiptsAtDecisionHashVersion apd_ref (NewState 7) input (day ! 4) None 4 = (s', d, None)
     \<and> cmd_Reason (d_CommandResult d) = RejectionInvalidInstrument \<and> no_effects d
     \<and> st_nextStreamSequence s' = 2 \<and> st_ready s'"
proof -
  let ?input = "sample_input 1 1 InputKindCommand (day ! 4)"
  have k: "act_Kind (day ! 4) = TradingActionSubmitOrder" by (simp add: day_def)
  have "applyTradingActionAtDecisionHashVersion apd_ref (NewState 7) ?input (day ! 4) 4
      = (NewState 7, rejectedDecision RejectionInvalidInstrument)"
    unfolding applyTradingActionAtDecisionHashVersion_def k day_dispatch
    by (simp add: submitTradingOrder_def admitted_order_def find_instrument_def) (simp add: emptyTrading_def decision_defs)
  from rejected_input_commits [OF sample_fresh _ validateEnvelope_sample _ _ _ _ _ this] show ?thesis
    by (auto simp: day_kinds)
qed

text \<open>
  C14. A re-published input is inert: delivered again after its receipt was recorded, with the same
  business identity and at the expected sequence, it advances the sequence and the hash chain and clears
  the receipt kept for the last input; nothing else of the shard changes, neither the trading state nor the
  market sequence nor readiness. Its decision has no effects, repeats the original result and names the
  original decision.
\<close>

theorem duplicate_delivery_is_inert:
  assumes "ApplyDuplicateDeliveryAtDecisionHashVersion s input r v = (s', d, None)"
  shows "s' = s\<lparr>st_nextStreamSequence := st_nextStreamSequence s + 1, st_hash := d_NextStateHash d, st_hasLastReceipt := False\<rparr>
    \<and> no_effects d \<and> d_CommandResult d = d_CommandResult (r_Decision r)
    \<and> d_DuplicateOfDecisionHash d = d_DecisionHash (r_Decision r) \<and> in_InputID input = r_InputID r
    \<and> businessInputHashAtVersion input (r_BusinessHashVersion r) = Inr (r_BusinessInputHash r)
    \<and> unat (st_nextStreamSequence s') = unat (st_nextStreamSequence s) + 1
    \<and> hashEffectsAtVersion d v = Inr (d_EffectsHash d)
    \<and> st_hash s' = hashAcceptedState (st_hash s) (hashInput input) (d_DecisionHash d) (st_nextStreamSequence s')"
  using duplicate_facts [OF assms] by blast

theorem duplicate_delivery_is_inert_witness:
  "\<exists>s' d. ApplyDuplicateDeliveryAtDecisionHashVersion (NewState 7) sample_configure
      (NewReceipt sample_configure acceptedDecision) 4 = (s', d, None)
    \<and> no_effects d \<and> cmd_Status (d_CommandResult d) = CommandStatusAccepted \<and> st_trading s' = emptyTrading"
proof -
  have b: "businessInputHashAtVersion sample_configure CurrentBusinessHashVersion = Inr (hashBusinessInput sample_configure)"
    by (simp add: hashBusinessInput_def businessInputHashAtVersion_def)
  obtain s' d where a: "ApplyDuplicateDeliveryAtDecisionHashVersion (NewState 7) sample_configure
      (NewReceipt sample_configure acceptedDecision) 4 = (s', d, None)"
    by (simp add: ApplyDuplicateDeliveryAtDecisionHashVersion_def NewReceipt_def b seal_decision_def hashEffectsAtVersion_def
      hashDecisionAtVersion_def Let_def)
  then show ?thesis using duplicate_delivery_is_inert [OF a] by (auto simp: NewReceipt_def acceptedDecision_def)
qed

section \<open>Matching and reduce-only orders\<close>

text \<open>
  C15. Matching respects the order: the fills it adds carry the order's ID and side, have positive
  quantities, add up exactly to the growth of the filled quantity, never exceed the quantity of the order,
  and for a limit order never trade through its limit; no fill violates the slippage band.
\<close>

theorem matching_respects_order:
  assumes "apd_lib X" "matchOrder X book order input fills = Some (book', order', fills')"
    "order_wf order" "or_status order \<noteq> OrderStatusFilled" "\<forall>l \<in> set (bo_bids book) \<union> set (bo_asks book). level_wf i l"
  shows "\<exists>new. fills' = fills @ new
    \<and> qval (or_filledQuantity order') = qval (or_filledQuantity order) + (\<Sum>f\<leftarrow>new. qval (fi_quantity f))
    \<and> qval (or_filledQuantity order') \<le> qval (or_quantity order)
    \<and> (\<forall>f \<in> set new. fi_orderID f = or_orderID order \<and> fi_side f = or_side order \<and> 0 < qval (fi_quantity f)
        \<and> (\<not> marketUsesDeepestFallback order \<longrightarrow> (or_side order = SideBuy \<longrightarrow> pval (fi_price f) \<le> pval (or_price order))
            \<and> (or_side order = SideSell \<longrightarrow> pval (or_price order) \<le> pval (fi_price f)))
        \<and> \<not> priceViolatesSlippage X (fi_price f) order)"
  by (rule apd_lib.matched_within_limits [OF assms])

theorem matching_respects_order_witness:
  "\<exists>book' order' fills'. matchOrder apd_ref btc_book btc_order order_input [] = Some (book', order', fills')
    \<and> qval (or_filledQuantity order') = (\<Sum>f\<leftarrow>fills'. qval (fi_quantity f)) \<and> qval (or_filledQuantity order') \<le> 3"
proof -
  obtain book' order' fills' where m: "matchOrder apd_ref btc_book btc_order order_input [] = Some (book', order', fills')"
    using matched by auto
  have "or_status btc_order \<noteq> OrderStatusFilled" "\<forall>l \<in> set (bo_bids btc_book) \<union> set (bo_asks btc_book). level_wf btc l"
    "qval (or_filledQuantity btc_order) = 0" "qval (or_quantity btc_order) = 3"
    using btc_book_levels by (simp_all add: btc_order_def base_order_def)
  with matching_respects_order [OF ref.apd_lib_axioms m sample_orders_wf(1), of btc] m show ?thesis by auto
qed

text \<open>
  C16. A reduce-only order never opens or flips a position: when clamping lets it through, there is an
  open position of its account and instrument on the other side, the order is bound to it, is never
  enlarged, and its open quantity does not exceed the position.
\<close>

theorem reduce_only_bounded_by_position:
  assumes "apd_lib X" "records_wf t" "order_wf order" "current t (or_instrument order)" "or_status order \<noteq> OrderStatusFilled"
    "or_reduceOnly order" "clampReduceOnlyOrder X t order = (RejectionNone, order')"
  shows "\<exists>p \<in> set (ts_positions t). po_status p = PositionStatusOpen \<and> po_accountID p = or_accountID order
    \<and> ir_id (po_instrument p) = ir_id (or_instrument order) \<and> po_side p \<noteq> positionSide (or_side order)
    \<and> or_positionID order' = po_positionID p
    \<and> qval (or_quantity order') - qval (or_filledQuantity order) \<le> qval (po_quantity p)
    \<and> qval (or_quantity order') \<le> qval (or_quantity order)"
proof -
  obtain i where i: "reduceOnlyPositionIndex t order = Some i" "po_side (ts_positions t ! i) \<noteq> positionSide (or_side order)"
    "or_positionID order' = po_positionID (ts_positions t ! i)"
    "qval (or_quantity order') - qval (or_filledQuantity order) \<le> qval (po_quantity (ts_positions t ! i))"
    "qval (or_quantity order') \<le> qval (or_quantity order)"
    using apd_lib.clamp_wf(3) [OF assms(1-6)] assms(7) by auto
  with reduceOnlyPositionIndex_open [OF i(1)] show ?thesis by (intro bexI [of _ "ts_positions t ! i"]) auto
qed

theorem reduce_only_bounded_by_position_witness:
  "\<exists>order'. clampReduceOnlyOrder apd_ref held_long btc_exit = (RejectionNone, order') \<and> or_quantity order' = btc_quantity 2
    \<and> or_positionID order' = po_positionID btc_long"
proof -
  obtain order' where c: "clampReduceOnlyOrder apd_ref held_long btc_exit = (RejectionNone, order')" "or_quantity order' = btc_quantity 2"
    using clamped by (cases "clampReduceOnlyOrder apd_ref held_long btc_exit") auto
  have "or_instrument btc_exit = btc" "or_status btc_exit \<noteq> OrderStatusFilled" "or_reduceOnly btc_exit"
    "ts_positions held_long = [btc_long]"
    by (simp_all add: btc_exit_def btc_order_def base_order_def held_long_def)
  with reduce_only_bounded_by_position [OF ref.apd_lib_axioms held_long_wf sample_orders_wf(2) _ _ _ c(1)] btc_current c
  show ?thesis by auto
qed

end
